(* ===== verification/Failure.thy ===== *)
theory Failure
  imports Prelude
begin

text \<open>
  The shared fail-closed error of \<open>internal/core/failure/failure.go\<close>. A refusal carries a
  stable code, an optional root and path, a reason and one recovery action; \<open>failure.New\<close>
  panics on an empty code, reason or action. Go's error chain is the type \<open>error\<close>: a refusal,
  a refusal with an owner (\<open>TaskGraphRefusal\<close>, \<open>TaskActivityRefusal\<close>), a plain
  \<open>errors.New\<close> or \<open>fmt.Errorf\<close> text, a wrapped error (\<open>%w\<close>), or a panic in flight.
\<close>

record refusal =
  rf_code :: string
  rf_root :: string
  rf_path :: string
  rf_reason :: msg
  rf_next :: msg

datatype error =
    Refused refusal
  | Owned refusal string
  | Failed msg
  | Wrapped msg error
  | Panicked msg

text \<open>\<open>failure.New\<close>: the panic of the three construction checks on the left.\<close>

definition failure_New :: "string \<Rightarrow> string \<Rightarrow> string \<Rightarrow> msg \<Rightarrow> msg \<Rightarrow> msg + refusal" where
  "failure_New code root path reason next =
     (if code = [] then Inl [Str ''failure.New: empty code'']
      else if msg_empty reason then
        Inl [Str ''failure.New: refusal '', Str code, Str '' has no reason'']
      else if msg_empty next then
        Inl [Str ''failure.New: refusal '', Str code, Str '' has no recovery action'']
      else Inr \<lparr>rf_code = code, rf_root = root, rf_path = path, rf_reason = reason, rf_next = next\<rparr>)"

text \<open>Building and returning a refusal: a construction bug surfaces as a panic.\<close>

definition refuse :: "string \<Rightarrow> string \<Rightarrow> string \<Rightarrow> msg \<Rightarrow> msg \<Rightarrow> error" where
  "refuse code root path reason next =
     (case failure_New code root path reason next of Inl p \<Rightarrow> Panicked p | Inr r \<Rightarrow> Refused r)"

definition refuse_owned :: "string \<Rightarrow> string \<Rightarrow> string \<Rightarrow> msg \<Rightarrow> msg \<Rightarrow> error" where
  "refuse_owned owner code path reason next =
     (case failure_New code [] path reason next of Inl p \<Rightarrow> Panicked p | Inr r \<Rightarrow> Owned r owner)"

text \<open>The \<open>Error\<close> method of a refusal, and the text of any error.\<close>

definition refusal_Error :: "refusal \<Rightarrow> msg" where
  "refusal_Error r =
     (if rf_path r = []
      then [Str (rf_code r), Str '': ''] @ rf_reason r @ [Str ''; next: ''] @ rf_next r
      else [Str (rf_code r), Str '': '', Str (rf_path r), Str '': ''] @ rf_reason r
             @ [Str ''; next: ''] @ rf_next r)"

fun error_Error :: "error \<Rightarrow> msg" where
  "error_Error (Refused r) = refusal_Error r"
| "error_Error (Owned r _) = refusal_Error r"
| "error_Error (Failed m) = m"
| "error_Error (Wrapped m e) = m @ error_Error e"
| "error_Error (Panicked m) = m"

text \<open>\<open>errors.As\<close> at type \<open>*Refusal\<close>: the first refusal of the chain.\<close>

fun as_refusal :: "error \<Rightarrow> refusal option" where
  "as_refusal (Refused r) = Some r"
| "as_refusal (Owned r _) = Some r"
| "as_refusal (Failed _) = None"
| "as_refusal (Wrapped _ e) = as_refusal e"
| "as_refusal (Panicked _) = None"

definition IsCode :: "error \<Rightarrow> string \<Rightarrow> bool" where
  "IsCode e code = (case as_refusal e of None \<Rightarrow> False | Some r \<Rightarrow> rf_code r = code)"

text \<open>A refusal is actionable when nothing \<open>failure.New\<close> insists on is missing.\<close>

definition actionable :: "refusal \<Rightarrow> bool" where
  "actionable r \<longleftrightarrow> rf_code r \<noteq> [] \<and> \<not> msg_empty (rf_reason r) \<and> \<not> msg_empty (rf_next r)"

fun fails_closed :: "error \<Rightarrow> bool" where
  "fails_closed (Refused r) = actionable r"
| "fails_closed (Owned r _) = actionable r"
| "fails_closed (Wrapped _ e) = fails_closed e"
| "fails_closed _ = False"

lemma failure_New_ok: "failure_New code root path reason next = Inr r \<Longrightarrow> actionable r"
  by (auto simp: failure_New_def actionable_def split: if_splits)

lemma refuse_eq [simp]:
  assumes "code \<noteq> []" and "\<not> msg_empty reason" and "\<not> msg_empty next"
  shows "refuse code root path reason next =
    Refused \<lparr>rf_code = code, rf_root = root, rf_path = path, rf_reason = reason, rf_next = next\<rparr>"
  using assms by (simp add: refuse_def failure_New_def)

lemma refuse_owned_eq [simp]:
  assumes "code \<noteq> []" and "\<not> msg_empty reason" and "\<not> msg_empty next"
  shows "refuse_owned owner code path reason next =
    Owned \<lparr>rf_code = code, rf_root = [], rf_path = path, rf_reason = reason, rf_next = next\<rparr> owner"
  using assms by (simp add: refuse_owned_def failure_New_def)

lemma fails_closed_refuse [intro]:
  "code \<noteq> [] \<Longrightarrow> \<not> msg_empty reason \<Longrightarrow> \<not> msg_empty next \<Longrightarrow>
     fails_closed (refuse code root path reason next)"
  by (simp add: actionable_def)

lemma fails_closed_refuse_owned [intro]:
  "code \<noteq> [] \<Longrightarrow> \<not> msg_empty reason \<Longrightarrow> \<not> msg_empty next \<Longrightarrow>
     fails_closed (refuse_owned owner code path reason next)"
  by (simp add: actionable_def)

lemma IsCode_simps [simp]:
  "IsCode (Refused r) c \<longleftrightarrow> rf_code r = c"
  "IsCode (Owned r ow) c \<longleftrightarrow> rf_code r = c"
  "IsCode (Wrapped m e) c \<longleftrightarrow> IsCode e c"
  "\<not> IsCode (Failed m) c"
  "\<not> IsCode (Panicked m) c"
  by (simp_all add: IsCode_def)

end
