(* ===== verification/PlanModel.thy ===== *)
theory PlanModel
  imports Failure
begin

text \<open>
  The data of \<open>internal/plan\<close>: authored artifacts, locations, diagnostics and the canonical
  task rows (\<open>model.go\<close>, \<open>diagnostic.go\<close>, the types of \<open>tasks.go\<close>), and the stable
  order in which diagnostics are reported.
\<close>

record location =
  loc_Path :: string
  loc_Offset :: nat
  loc_Line :: nat
  loc_Column :: nat

record source =
  src_Path :: string
  src_Bytes :: string
  src_Present :: bool

record diagnostic =
  dg_Code :: string
  dg_Location :: location
  dg_Message :: string
  dg_Repair :: string

record requirement_reference =
  ref_Capability :: string
  ref_Requirement :: string
  ref_Location :: location

record task =
  task_ID :: string
  task_Role :: string
  task_Files :: "string list"
  task_DependsOn :: "string list"
  task_References :: "requirement_reference list"
  task_Verify :: string
  task_Acceptance :: string
  task_Source :: string
  task_Location :: location
  task_Valid :: bool

record task_wave =
  tw_Number :: nat
  tw_Tasks :: "string list"

record tasks =
  tasks_Source :: source
  tasks_Tasks :: "task list"
  tasks_Waves :: "task_wave list"
  tasks_Diagnostics :: "diagnostic list"

definition no_location :: location where
  "no_location = \<lparr>loc_Path = [], loc_Offset = 0, loc_Line = 0, loc_Column = 0\<rparr>"

text \<open>A canonical row with the fields the graph and the readiness rules read.\<close>

definition mk_task :: "string \<Rightarrow> string list \<Rightarrow> task" where
  "mk_task i deps =
     \<lparr>task_ID = i, task_Role = ''builder'', task_Files = [i @ ''.go''], task_DependsOn = deps,
      task_References = [], task_Verify = ''go test'', task_Acceptance = ''passes'',
      task_Source = [], task_Location = no_location, task_Valid = True\<rparr>"

definition mk_tasks :: "task list \<Rightarrow> tasks" where
  "mk_tasks ts =
     \<lparr>tasks_Source = \<lparr>src_Path = ''tasks.md'', src_Bytes = [], src_Present = True\<rparr>,
      tasks_Tasks = ts, tasks_Waves = [], tasks_Diagnostics = []\<rparr>"

lemma mk_task_simps [simp]:
  "task_ID (mk_task i deps) = i"
  "task_DependsOn (mk_task i deps) = deps"
  "task_Valid (mk_task i deps)"
  by (simp_all add: mk_task_def)

lemma mk_tasks_simps [simp]:
  "tasks_Tasks (mk_tasks ts) = ts"
  "tasks_Diagnostics (mk_tasks ts) = []"
  by (simp_all add: mk_tasks_def)

end
