(* ===== verification/TaskGraph.thy ===== *)
theory TaskGraph
  imports PlanModel
begin

text \<open>
  The dependency graph of \<open>internal/core/taskgraph.go\<close>: validation of the canonical rows,
  the deterministic topological order (first authored task with no open dependency), the waves,
  and the depth-first search that names one cycle in the refusal. \<open>BuildTaskGraph\<close> is split
  along the loops of the Go function; Go maps are partial functions, and a read of an absent
  integer key gives 0.
\<close>

record task_graph =
  tg_authored :: "string list"
  tg_order :: "string list"
  tg_waves :: "string list list"
  tg_dependencies :: "string \<rightharpoonup> string list"
  tg_dependents :: "string \<rightharpoonup> string list"
  tg_wave :: "string \<rightharpoonup> nat"

definition invalidTaskGraph :: "string \<Rightarrow> msg \<Rightarrow> error" where
  "invalidTaskGraph path reason =
     refuse_owned ''author'' ''plan_invalid'' path reason [Str ''edit tasks.md and run check'']"

text \<open>The first loop: rows have an id, are valid and are unique. The result maps ids to positions.\<close>

fun index_tasks :: "string \<Rightarrow> nat \<Rightarrow> (string \<rightharpoonup> nat) \<Rightarrow> task list \<Rightarrow> error + (string \<rightharpoonup> nat)" where
  "index_tasks path i byID [] = Inr byID"
| "index_tasks path i byID (t # ts) =
     (if task_ID t = [] then
        Inl (invalidTaskGraph path [Str ''task at authored position '', Dec (i + 1), Str '' has empty id''])
      else if \<not> task_Valid t then
        Inl (invalidTaskGraph path [Str ''task '', Quo (task_ID t), Str '' is invalid''])
      else if byID (task_ID t) \<noteq> None then
        Inl (invalidTaskGraph path [Str ''duplicate task id '', Quo (task_ID t)])
      else index_tasks path (i + 1) (byID(task_ID t \<mapsto> i)) ts)"

text \<open>The second loop: the dependency lists, and an empty dependents list per task.\<close>

fun init_maps :: "(string \<rightharpoonup> string list) \<Rightarrow> (string \<rightharpoonup> string list) \<Rightarrow> task list
    \<Rightarrow> (string \<rightharpoonup> string list) \<times> (string \<rightharpoonup> string list)" where
  "init_maps deps dependents [] = (deps, dependents)"
| "init_maps deps dependents (t # ts) =
     init_maps (deps(task_ID t \<mapsto> task_DependsOn t)) (dependents(task_ID t \<mapsto> [])) ts"

text \<open>The third loop: every dependency is another canonical task, and is linked back.\<close>

fun link_deps :: "string \<Rightarrow> (string \<rightharpoonup> nat) \<Rightarrow> string \<Rightarrow> string list \<Rightarrow> (string \<rightharpoonup> string list)
    \<Rightarrow> error + (string \<rightharpoonup> string list)" where
  "link_deps path byID i [] dependents = Inr dependents"
| "link_deps path byID i (d # ds) dependents =
     (if d = i then
        Inl (invalidTaskGraph path [Str ''task '', Quo i, Str '' depends on itself''])
      else if byID d = None then
        Inl (invalidTaskGraph path [Str ''task '', Quo i, Str '' depends on missing task '', Quo d])
      else link_deps path byID i ds (dependents(d \<mapsto> map_get [] dependents d @ [i])))"

fun link_tasks :: "string \<Rightarrow> (string \<rightharpoonup> nat) \<Rightarrow> task list \<Rightarrow> (string \<rightharpoonup> string list)
    \<Rightarrow> error + (string \<rightharpoonup> string list)" where
  "link_tasks path byID [] dependents = Inr dependents"
| "link_tasks path byID (t # ts) dependents =
     bindE (link_deps path byID (task_ID t) (task_DependsOn t) dependents)
       (link_tasks path byID ts)"

text \<open>The in-degrees, and the selection loop. Each pass appends one task, so the number of tasks
  still to place bounds the loop; \<open>None\<close> is the pass that finds no task without open
  dependencies. Ids are not empty, so Go's sentinel \<open>next == ""\<close> is exactly \<open>None\<close>.\<close>

fun init_indegree :: "(string \<Rightarrow> int) \<Rightarrow> task list \<Rightarrow> (string \<Rightarrow> int)" where
  "init_indegree deg [] = deg"
| "init_indegree deg (t # ts) = init_indegree (deg(task_ID t := int (length (task_DependsOn t)))) ts"

fun lower :: "(string \<Rightarrow> int) \<Rightarrow> string list \<Rightarrow> (string \<Rightarrow> int)" where
  "lower deg [] = deg"
| "lower deg (d # ds) = lower (deg(d := deg d - 1)) ds"

fun topo_loop :: "nat \<Rightarrow> string list \<Rightarrow> (string \<rightharpoonup> string list) \<Rightarrow> (string \<Rightarrow> int) \<Rightarrow> string list
    \<Rightarrow> string list option" where
  "topo_loop 0 authored dependents deg order = Some order"
| "topo_loop (Suc k) authored dependents deg order =
     (case find (\<lambda>i. deg i = 0) authored of
        None \<Rightarrow> None
      | Some next \<Rightarrow>
          topo_loop k authored dependents
            (lower (deg(next := - 1)) (map_get [] dependents next)) (order @ [next]))"

text \<open>The last loop: a task's wave is one more than the deepest wave it depends on.\<close>

fun deepest :: "(string \<rightharpoonup> nat) \<Rightarrow> string list \<Rightarrow> nat \<Rightarrow> nat" where
  "deepest wave [] w = w"
| "deepest wave (d # ds) w =
     deepest wave ds (if w < map_get 0 wave d + 1 then map_get 0 wave d + 1 else w)"

definition put_wave :: "string list list \<Rightarrow> nat \<Rightarrow> string \<Rightarrow> string list list" where
  "put_wave waves w i =
     (let grown = waves @ replicate (Suc w - length waves) []
      in grown[w := grown ! w @ [i]])"

fun wave_loop :: "(string \<rightharpoonup> string list) \<Rightarrow> string list \<Rightarrow> (string \<rightharpoonup> nat) \<Rightarrow> string list list
    \<Rightarrow> (string \<rightharpoonup> nat) \<times> string list list" where
  "wave_loop deps [] wave waves = (wave, waves)"
| "wave_loop deps (i # is) wave waves =
     (let w = deepest wave (map_get [] deps i) 0
      in wave_loop deps is (wave(i \<mapsto> w)) (put_wave waves w i))"

text \<open>
  \<open>cyclicTaskIDs\<close>. The closure \<open>visit\<close> shares a mark per task (0 new, 1 on the stack,
  2 done), the stack and the cycle found; \<open>True\<close> unwinds with the cycle. The recursion is
  given fuel: \<open>None\<close> is running out of it, which \<open>cyclicTaskIDs_enough\<close> excludes for the
  fuel used.
\<close>

record dfs =
  df_mark :: "string \<Rightarrow> nat"
  df_stack :: "string list"
  df_cycle :: "string list"

fun visit :: "nat \<Rightarrow> (string \<rightharpoonup> string list) \<Rightarrow> string \<Rightarrow> dfs \<Rightarrow> (bool \<times> dfs) option"
and visit_deps :: "nat \<Rightarrow> (string \<rightharpoonup> string list) \<Rightarrow> string list \<Rightarrow> dfs \<Rightarrow> (bool \<times> dfs) option" where
  "visit 0 deps i s = None"
| "visit (Suc fuel) deps i s =
     (case visit_deps fuel deps (map_get [] deps i)
             (s\<lparr>df_mark := (df_mark s)(i := 1), df_stack := df_stack s @ [i]\<rparr>) of
        None \<Rightarrow> None
      | Some (True, s') \<Rightarrow> Some (True, s')
      | Some (False, s') \<Rightarrow>
          Some (False, s'\<lparr>df_stack := butlast (df_stack s'), df_mark := (df_mark s')(i := 2)\<rparr>))"
| "visit_deps fuel deps [] s = Some (False, s)"
| "visit_deps fuel deps (d # ds) s =
     (if df_mark s d = 1 then
        Some (True, s\<lparr>df_cycle := dropWhile (\<lambda>x. x \<noteq> d) (df_stack s)\<rparr>)
      else if df_mark s d = 0 then
        (case visit fuel deps d s of
           None \<Rightarrow> None
         | Some (True, s') \<Rightarrow> Some (True, s')
         | Some (False, s') \<Rightarrow> visit_deps fuel deps ds s')
      else visit_deps fuel deps ds s)"

fun visit_roots :: "nat \<Rightarrow> (string \<rightharpoonup> string list) \<Rightarrow> string list \<Rightarrow> dfs \<Rightarrow> string list option" where
  "visit_roots fuel deps [] s = Some []"
| "visit_roots fuel deps (i # is) s =
     (if df_mark s i = 0 then
        (case visit fuel deps i s of
           None \<Rightarrow> None
         | Some (True, s') \<Rightarrow> Some (df_cycle s')
         | Some (False, s') \<Rightarrow> visit_roots fuel deps is s')
      else visit_roots fuel deps is s)"

definition cyclicTaskIDs :: "string list \<Rightarrow> (string \<rightharpoonup> string list) \<Rightarrow> string list option" where
  "cyclicTaskIDs authored deps =
     visit_roots (Suc (length authored)) deps authored
       \<lparr>df_mark = (\<lambda>_. 0), df_stack = [], df_cycle = []\<rparr>"

fun intersperse_comma :: "string list \<Rightarrow> msg" where
  "intersperse_comma [] = []"
| "intersperse_comma [i] = [Str i]"
| "intersperse_comma (i # j # is) = Str i # Str '', '' # intersperse_comma (j # is)"

definition cycle_refusal :: "string \<Rightarrow> string list option \<Rightarrow> error" where
  "cycle_refusal path cyc =
     (case cyc of
        None \<Rightarrow> Panicked [Str ''cycle search did not return'']
      | Some ids \<Rightarrow>
          invalidTaskGraph path (Str ''task dependency cycle involving '' # intersperse_comma ids))"

definition BuildTaskGraph :: "tasks \<Rightarrow> error + task_graph" where
  "BuildTaskGraph p =
     (let path = src_Path (tasks_Source p); ts = tasks_Tasks p in
      case tasks_Diagnostics p of
        dg # _ \<Rightarrow> Inl (invalidTaskGraph path
          [Str ''canonical task plan is invalid: '', Str (dg_Code dg), Str '': '', Str (dg_Message dg)])
      | [] \<Rightarrow>
        bindE (index_tasks path 0 Map.empty ts) (\<lambda>byID.
          let authored = map task_ID ts; (deps, dependents) = init_maps Map.empty Map.empty ts in
          bindE (link_tasks path byID ts dependents) (\<lambda>dependents.
            case topo_loop (length ts) authored dependents (init_indegree (\<lambda>_. 0) ts) [] of
              None \<Rightarrow> Inl (cycle_refusal path (cyclicTaskIDs authored deps))
            | Some order \<Rightarrow>
                let (wave, waves) = wave_loop deps order Map.empty [] in
                Inr \<lparr>tg_authored = authored, tg_order = order, tg_waves = waves,
                     tg_dependencies = deps, tg_dependents = dependents, tg_wave = wave\<rparr>)))"

text \<open>The queries return copies, which in a language of values are the values themselves.\<close>

definition AuthoredOrder :: "task_graph \<Rightarrow> string list" where "AuthoredOrder g = tg_authored g"
definition TopologicalOrder :: "task_graph \<Rightarrow> string list" where "TopologicalOrder g = tg_order g"
definition Waves :: "task_graph \<Rightarrow> string list list" where "Waves g = tg_waves g"
definition Dependencies :: "task_graph \<Rightarrow> string \<Rightarrow> string list" where
  "Dependencies g i = map_get [] (tg_dependencies g) i"
definition Dependents :: "task_graph \<Rightarrow> string \<Rightarrow> string list" where
  "Dependents g i = map_get [] (tg_dependents g) i"
definition Wave :: "task_graph \<Rightarrow> string \<Rightarrow> nat option" where
  "Wave g i = tg_wave g i"

subsection \<open>The validated rows\<close>

definition dep_map :: "task list \<Rightarrow> (string \<rightharpoonup> string list)" where
  "dep_map ts = map_of (map (\<lambda>t. (task_ID t, task_DependsOn t)) ts)"

definition rows_ok :: "task list \<Rightarrow> bool" where
  "rows_ok ts \<longleftrightarrow> (\<forall>t \<in> set ts. task_ID t \<noteq> [] \<and> task_Valid t) \<and> distinct (map task_ID ts)"

definition deps_ok :: "task list \<Rightarrow> bool" where
  "deps_ok ts \<longleftrightarrow>
     (\<forall>t \<in> set ts. \<forall>d \<in> set (task_DependsOn t). d \<noteq> task_ID t \<and> d \<in> task_ID ` set ts)"

definition dep_edges :: "task list \<Rightarrow> (string \<times> string) set" where
  "dep_edges ts = {(task_ID t, d) | t d. t \<in> set ts \<and> d \<in> set (task_DependsOn t)}"

lemma index_tasks_iff:
  "(\<exists>m'. index_tasks path i m ts = Inr m') \<longleftrightarrow>
     (\<forall>t \<in> set ts. task_ID t \<noteq> [] \<and> task_Valid t) \<and> distinct (map task_ID ts) \<and>
     dom m \<inter> task_ID ` set ts = {}"
  by (induction ts arbitrary: i m) (auto simp: domIff)

lemma index_tasks_dom: "index_tasks path i m ts = Inr m' \<Longrightarrow> dom m' = dom m \<union> task_ID ` set ts"
  by (induction ts arbitrary: i m) (auto split: if_splits)

lemma index_tasks_empty:
  "(\<exists>m'. index_tasks path 0 Map.empty ts = Inr m') \<longleftrightarrow> rows_ok ts"
  by (simp add: index_tasks_iff rows_ok_def)

lemma init_maps_eq:
  "init_maps m n ts =
     (m ++ map_of (rev (map (\<lambda>t. (task_ID t, task_DependsOn t)) ts)),
      n ++ map_of (rev (map (\<lambda>t. (task_ID t, [])) ts)))"
  by (induction ts arbitrary: m n) (auto simp: map_add_def fun_eq_iff split: option.splits)

lemma fst_init_maps:
  assumes "distinct (map task_ID ts)"
  shows "fst (init_maps Map.empty n ts) = dep_map ts"
proof -
  have "distinct (map fst (map (\<lambda>t. (task_ID t, task_DependsOn t)) ts))"
    using assms by (simp add: comp_def)
  then show ?thesis
    by (simp add: init_maps_eq dep_map_def map_of_rev_distinct)
qed

lemma snd_init_maps_get: "map_get [] (snd (init_maps m Map.empty ts)) d = []"
  by (auto simp: init_maps_eq map_get_def split: option.splits dest!: map_of_SomeD)

lemma dep_map_task:
  assumes "distinct (map task_ID ts)" and "t \<in> set ts"
  shows "dep_map ts (task_ID t) = Some (task_DependsOn t)"
  using assms unfolding dep_map_def
  by (intro map_of_is_SomeI) (auto simp: comp_def)

lemma dep_map_None: "i \<notin> task_ID ` set ts \<Longrightarrow> dep_map ts i = None"
  by (auto simp: dep_map_def map_of_eq_None_iff image_iff)

lemma dep_edges_iff:
  assumes "distinct (map task_ID ts)"
  shows "(i, d) \<in> dep_edges ts \<longleftrightarrow> i \<in> task_ID ` set ts \<and> d \<in> set (map_get [] (dep_map ts) i)"
  using assms by (auto simp: dep_edges_def dep_map_task)

lemma link_deps_iff:
  "(\<exists>m'. link_deps path byID i ds m = Inr m') \<longleftrightarrow> (\<forall>d \<in> set ds. d \<noteq> i \<and> d \<in> dom byID)"
  by (induction ds arbitrary: m) (auto simp: domIff)

lemma link_deps_count:
  "link_deps path byID i ds m = Inr m' \<Longrightarrow>
     count_list (map_get [] m' d) j =
       count_list (map_get [] m d) j + (if j = i then count_list ds d else 0)"
  by (induction ds arbitrary: m) (auto simp: map_get_upd split: if_splits)

lemma link_tasks_iff:
  "(\<exists>m'. link_tasks path byID ts m = Inr m') \<longleftrightarrow>
     (\<forall>t \<in> set ts. \<forall>d \<in> set (task_DependsOn t). d \<noteq> task_ID t \<and> d \<in> dom byID)"
proof (induction ts arbitrary: m)
  case (Cons t ts)
  show ?case
  proof (cases "link_deps path byID (task_ID t) (task_DependsOn t) m")
    case (Inl e)
    then show ?thesis
      using link_deps_iff [of path byID "task_ID t" "task_DependsOn t" m] by auto
  next
    case (Inr m1)
    then show ?thesis
      using link_deps_iff [of path byID "task_ID t" "task_DependsOn t" m] Cons.IH [of m1] by auto
  qed
qed simp

lemma link_tasks_count:
  "link_tasks path byID ts m = Inr m' \<Longrightarrow>
     count_list (map_get [] m' d) j =
       count_list (map_get [] m d) j +
       (\<Sum>t \<leftarrow> ts. if task_ID t = j then count_list (task_DependsOn t) d else 0)"
  by (induction ts arbitrary: m) (auto simp: link_deps_count)

lemma dep_map_Cons: "dep_map (t # ts) = (dep_map ts)(task_ID t \<mapsto> task_DependsOn t)"
  by (simp add: dep_map_def)

lemma sum_list_row:
  assumes "distinct (map task_ID ts)"
  shows "(\<Sum>t \<leftarrow> ts. if task_ID t = j then count_list (task_DependsOn t) d else (0::nat)) =
    count_list (map_get [] (dep_map ts) j) d"
  using assms
proof (induction ts)
  case (Cons t ts)
  have zero: "j \<notin> task_ID ` set us \<Longrightarrow>
      (\<Sum>t \<leftarrow> us. if task_ID t = j then count_list (task_DependsOn t) d else (0::nat)) = 0" for us
    by (induction us) auto
  show ?case
    using Cons by (auto simp: dep_map_Cons map_get_def dep_map_None zero)
qed (simp add: dep_map_def)

lemma init_indegree_eq:
  assumes "distinct (map task_ID ts)" and "i \<in> task_ID ` set ts"
  shows "init_indegree deg ts i = int (length (map_get [] (dep_map ts) i))"
proof -
  have other: "j \<notin> task_ID ` set us \<Longrightarrow> init_indegree dg us j = dg j" for j us dg
    by (induction us arbitrary: dg) auto
  show ?thesis
    using assms
  proof (induction ts arbitrary: deg)
    case (Cons t ts)
    show ?case
    proof (cases "task_ID t = i")
      case True
      then have "i \<notin> task_ID ` set ts" using Cons.prems by auto
      then show ?thesis
        using True by (simp add: other dep_map_def)
    next
      case False
      then show ?thesis using Cons by (auto simp: dep_map_def map_get_def)
    qed
  qed simp
qed

lemma lower_eq: "lower deg ds i = deg i - int (count_list ds i)"
  by (induction ds arbitrary: deg) auto

subsection \<open>The topological order\<close>

text \<open>Every element comes after all its dependencies.\<close>

fun topo_sorted :: "(string \<Rightarrow> string list) \<Rightarrow> string set \<Rightarrow> string list \<Rightarrow> bool" where
  "topo_sorted dp done [] = True"
| "topo_sorted dp done (i # is) = (set (dp i) \<subseteq> done \<and> topo_sorted dp (insert i done) is)"

lemma topo_sorted_snoc:
  "topo_sorted dp D (xs @ [i]) \<longleftrightarrow> topo_sorted dp D xs \<and> set (dp i) \<subseteq> D \<union> set xs"
  by (induction xs arbitrary: D) auto

lemma topo_sorted_closed: "topo_sorted dp D xs \<Longrightarrow> i \<in> set xs \<Longrightarrow> set (dp i) \<subseteq> D \<union> set xs"
  by (induction xs arbitrary: D) auto

lemma topo_sorted_before:
  assumes "topo_sorted dp {} (xs @ i # ys)"
  shows "set (dp i) \<subseteq> set xs"
proof -
  have "topo_sorted dp D (xs @ i # ys) \<Longrightarrow> set (dp i) \<subseteq> D \<union> set xs" for D
    by (induction xs arbitrary: D) auto
  from this [OF assms] show ?thesis by simp
qed

definition topo_inv ::
    "string list \<Rightarrow> (string \<Rightarrow> string list) \<Rightarrow> (string \<Rightarrow> int) \<Rightarrow> string list \<Rightarrow> bool" where
  "topo_inv ids dp deg order \<longleftrightarrow>
     distinct order \<and> set order \<subseteq> set ids \<and> topo_sorted dp {} order \<and>
     (\<forall>i \<in> set order. deg i = - 1) \<and>
     (\<forall>i \<in> set ids - set order. deg i = int (length (filter (\<lambda>d. d \<notin> set order) (dp i))))"

lemma filter_insert_count:
  "x \<notin> S \<Longrightarrow> length (filter (\<lambda>d. d \<notin> S) ds) =
     length (filter (\<lambda>d. d \<notin> insert x S) ds) + count_list ds x"
  by (induction ds) auto

lemma topo_inv_step:
  assumes inv: "topo_inv ids dp deg order"
    and found: "find (\<lambda>i. deg i = 0) ids = Some n"
    and cnt: "\<And>i. i \<in> set ids \<Longrightarrow> count_list ds i = count_list (dp i) n"
  shows "topo_inv ids dp (lower (deg(n := - 1)) ds) (order @ [n])"
proof -
  from find_Some_set [OF found] have n: "n \<in> set ids" "deg n = 0" by auto
  from inv n have fresh: "n \<notin> set order" by (auto simp: topo_inv_def)
  from inv n fresh have "int (length (filter (\<lambda>d. d \<notin> set order) (dp n))) = 0"
    by (auto simp: topo_inv_def)
  then have closed: "set (dp n) \<subseteq> set order"
    by (auto simp: filter_empty_conv)
  have placed: "count_list (dp i) n = 0" if "i \<in> set (order @ [n])" for i
  proof -
    have "set (dp i) \<subseteq> set order"
      using that inv closed by (auto simp: topo_inv_def dest: topo_sorted_closed)
    then show ?thesis using fresh by (auto simp: count_list_0_iff)
  qed
  have openi: "lower (deg(n := - 1)) ds i =
      int (length (filter (\<lambda>d. d \<notin> set (order @ [n])) (dp i)))"
    if "i \<in> set ids - set (order @ [n])" for i
  proof -
    have "deg i = int (length (filter (\<lambda>d. d \<notin> set order) (dp i)))"
      using that inv by (auto simp: topo_inv_def)
    also have "\<dots> = int (length (filter (\<lambda>d. d \<notin> insert n (set order)) (dp i)))
        + int (count_list (dp i) n)"
      using filter_insert_count [OF fresh, of "dp i"] by simp
    finally show ?thesis using that by (auto simp: lower_eq cnt)
  qed
  have sub: "set order \<subseteq> set ids" using inv by (simp add: topo_inv_def)
  have "lower (deg(n := - 1)) ds i = - 1" if "i \<in> set (order @ [n])" for i
    using that inv n fresh placed [OF that] sub by (auto simp: topo_inv_def lower_eq cnt)
  then show ?thesis
    using inv n fresh closed openi unfolding topo_inv_def by (simp add: topo_sorted_snoc)
qed

lemma topo_loop_Some:
  assumes "topo_inv ids dp deg order" and "topo_loop k ids dts deg order = Some res"
    and "\<And>n i. n \<in> set ids \<Longrightarrow> i \<in> set ids \<Longrightarrow>
           count_list (map_get [] dts n) i = count_list (dp i) n"
  shows "\<exists>deg'. topo_inv ids dp deg' res \<and> length res = length order + k"
  using assms
proof (induction k arbitrary: deg order)
  case (Suc k)
  from Suc.prems(2) obtain n where n: "find (\<lambda>i. deg i = 0) ids = Some n"
    and rest: "topo_loop k ids dts (lower (deg(n := - 1)) (map_get [] dts n)) (order @ [n]) = Some res"
    by (auto split: option.splits)
  have "topo_inv ids dp (lower (deg(n := - 1)) (map_get [] dts n)) (order @ [n])"
    using Suc.prems(1) n Suc.prems(3) find_Some_set [OF n] by (intro topo_inv_step) auto
  from Suc.IH [OF this rest Suc.prems(3)] show ?case by simp
qed auto

text \<open>When the loop finds no task, every unplaced task waits for an unplaced task.\<close>

lemma topo_loop_None:
  assumes "topo_inv ids dp deg order" and "topo_loop k ids dts deg order = None"
    and "length order + k = length ids" and "distinct ids"
    and "\<And>n i. n \<in> set ids \<Longrightarrow> i \<in> set ids \<Longrightarrow>
           count_list (map_get [] dts n) i = count_list (dp i) n"
  shows "\<exists>R. R \<subseteq> set ids \<and> R \<noteq> {} \<and> (\<forall>i \<in> R. \<exists>d \<in> set (dp i). d \<notin> set ids - R)"
  using assms
proof (induction k arbitrary: deg order)
  case (Suc k)
  show ?case
  proof (cases "find (\<lambda>i. deg i = 0) ids")
    case None
    let ?R = "set ids - set order"
    have "card (set order) < card (set ids)"
      using Suc.prems(1,3,4) by (simp add: topo_inv_def distinct_card)
    then have "?R \<noteq> {}"
      by (metis Diff_eq_empty_iff card_mono List.finite_set not_le)
    moreover have "\<exists>d \<in> set (dp i). d \<notin> set ids - ?R" if "i \<in> ?R" and "\<forall>d \<in> set (dp i). d \<in> set order" for i
    proof -
      have "deg i = 0" using that Suc.prems(1) by (auto simp: topo_inv_def filter_empty_conv)
      then show ?thesis using None that by (auto simp: find_None_iff)
    qed
    moreover have "\<exists>d \<in> set (dp i). d \<notin> set order" if "i \<in> ?R" for i
    proof (rule ccontr)
      assume "\<not> ?thesis"
      then have "deg i = 0" using that Suc.prems(1) by (auto simp: topo_inv_def filter_empty_conv)
      then show False using None that by (auto simp: find_None_iff)
    qed
    ultimately show ?thesis by (intro exI [of _ ?R]) auto
  next
    case (Some n)
    have "topo_inv ids dp (lower (deg(n := - 1)) (map_get [] dts n)) (order @ [n])"
      using Suc.prems(1) Some Suc.prems(5) find_Some_set [OF Some] by (intro topo_inv_step) auto
    moreover have "topo_loop k ids dts (lower (deg(n := - 1)) (map_get [] dts n)) (order @ [n]) = None"
      using Suc.prems(2) Some by simp
    ultimately show ?thesis
      using Suc.prems(3,4,5) by (intro Suc.IH) auto
  qed
qed simp

lemma stuck_not_acyclic:
  assumes "finite R" and "R \<noteq> {}" and "\<And>i. i \<in> R \<Longrightarrow> \<exists>d \<in> R. (i, d) \<in> E" and "finite E"
  shows "\<not> acyclic E"
proof
  assume "acyclic E"
  then have "wf (E\<inverse>)" using \<open>finite E\<close> by (simp add: finite_acyclic_wf_converse)
  with assms(2) obtain z where "z \<in> R" "\<And>y. (y, z) \<in> E\<inverse> \<Longrightarrow> y \<notin> R"
    by (metis wfE_min equals0I)
  with assms(3) show False by blast
qed

lemma topo_sorted_acyclic:
  assumes "topo_sorted dp {} xs" and "distinct xs"
    and "\<And>i d. (i, d) \<in> E \<Longrightarrow> i \<in> set xs \<and> d \<in> set (dp i)"
  shows "acyclic E"
proof -
  let ?pos = "\<lambda>i. length (takeWhile (\<lambda>x. x \<noteq> i) xs)"
  have "?pos d < ?pos i" if e: "(i, d) \<in> E" for i d
  proof -
    from assms(3) [OF e] obtain ys zs where xs: "xs = ys @ i # zs" and d: "d \<in> set (dp i)"
      by (auto dest: split_list)
    then have "i \<notin> set ys" using assms(2) by auto
    then have "?pos i = length ys" using xs by (simp add: length_takeWhile_neq)
    moreover have "d \<in> set ys" using topo_sorted_before assms(1) xs d by blast
    then obtain us vs where "ys = us @ d # vs" "d \<notin> set us" by (metis split_list_first)
    then have "?pos d < length ys"
      using xs by (simp add: length_takeWhile_neq)
    ultimately show ?thesis by simp
  qed
  then have "E \<subseteq> (measure ?pos)\<inverse>" by auto
  moreover have "acyclic ((measure ?pos)\<inverse>)"
    by (simp add: wf_acyclic)
  ultimately show ?thesis by (rule acyclic_subset [rotated])
qed

subsection \<open>The cycle search\<close>

text \<open>A walk follows dependency edges; a cycle is a closed walk without repetition.\<close>

fun dep_walk :: "(string \<Rightarrow> string list) \<Rightarrow> string list \<Rightarrow> bool" where
  "dep_walk dp [] = True"
| "dep_walk dp [i] = True"
| "dep_walk dp (i # j # is) = (j \<in> set (dp i) \<and> dep_walk dp (j # is))"

definition dep_cycle :: "(string \<Rightarrow> string list) \<Rightarrow> string list \<Rightarrow> bool" where
  "dep_cycle dp c \<longleftrightarrow> c \<noteq> [] \<and> distinct c \<and> dep_walk dp c \<and> hd c \<in> set (dp (last c))"

lemma dep_walk_snoc:
  "dep_walk dp (xs @ [i]) \<longleftrightarrow> dep_walk dp xs \<and> (xs \<noteq> [] \<longrightarrow> i \<in> set (dp (last xs)))"
  by (induction dp xs rule: dep_walk.induct) auto

lemma dep_walk_suffix: "dep_walk dp (xs @ ys) \<Longrightarrow> dep_walk dp ys"
proof (induction xs)
  case (Cons x xs)
  then show ?case by (cases "xs @ ys") auto
qed simp

definition dfs_ok :: "string set \<Rightarrow> (string \<Rightarrow> string list) \<Rightarrow> dfs \<Rightarrow> bool" where
  "dfs_ok ids dp s \<longleftrightarrow>
     (\<forall>i. df_mark s i = 1 \<longleftrightarrow> i \<in> set (df_stack s)) \<and> (\<forall>i. df_mark s i \<le> 2) \<and>
     (\<forall>i. df_mark s i \<noteq> 0 \<longrightarrow> i \<in> ids) \<and>
     distinct (df_stack s) \<and> dep_walk dp (df_stack s) \<and>
     (\<forall>i. df_mark s i = 2 \<longrightarrow> (\<forall>d \<in> set (dp i). df_mark s d = 2)) \<and>
     acyclic {(i, d). df_mark s i = 2 \<and> d \<in> set (dp i)}"

lemma dfs_okD:
  assumes "dfs_ok ids dp s"
  shows "i \<in> set (df_stack s) \<longleftrightarrow> df_mark s i = 1"
    and "df_mark s i = 2 \<Longrightarrow> d \<in> set (dp i) \<Longrightarrow> df_mark s d = 2"
    and "df_mark s i \<noteq> 0 \<Longrightarrow> i \<in> ids"
    and "df_mark s i = 0 \<or> df_mark s i = 1 \<or> df_mark s i = 2"
proof -
  show "i \<in> set (df_stack s) \<longleftrightarrow> df_mark s i = 1"
    and "df_mark s i = 2 \<Longrightarrow> d \<in> set (dp i) \<Longrightarrow> df_mark s d = 2"
    and "df_mark s i \<noteq> 0 \<Longrightarrow> i \<in> ids"
    using assms by (auto simp: dfs_ok_def)
  have "df_mark s i \<le> 2" using assms by (simp add: dfs_ok_def)
  then show "df_mark s i = 0 \<or> df_mark s i = 1 \<or> df_mark s i = 2" by linarith
qed

lemma acyclic_add_source:
  assumes "acyclic E" and "\<And>a b. (a, b) \<in> E \<Longrightarrow> a \<noteq> i \<and> b \<noteq> i"
  shows "acyclic (E \<union> {(i, d) | d. d \<in> D \<and> d \<noteq> i})"
proof -
  let ?F = "E \<union> {(i, d) | d. d \<in> D \<and> d \<noteq> i}"
  have step: "(a, b) \<in> ?F\<^sup>+ \<Longrightarrow> b \<noteq> i \<and> (a \<noteq> i \<longrightarrow> (a, b) \<in> E\<^sup>+)" for a b
    by (induction rule: trancl_induct) (use assms(2) in \<open>auto dest: trancl_into_trancl\<close>)
  show ?thesis
    using assms(1) step unfolding acyclic_def by blast
qed

lemma dfs_ok_push:
  assumes "dfs_ok ids dp s" and "i \<in> ids" and "df_mark s i = 0"
    and "df_stack s \<noteq> [] \<Longrightarrow> i \<in> set (dp (last (df_stack s)))"
  shows "dfs_ok ids dp (s\<lparr>df_mark := (df_mark s)(i := 1), df_stack := df_stack s @ [i]\<rparr>)"
proof -
  have "i \<notin> set (df_stack s)" using assms(3) dfs_okD(1) [OF assms(1)] by simp
  moreover have "{(j, d). ((df_mark s)(i := 1)) j = 2 \<and> d \<in> set (dp j)} =
      {(j, d). df_mark s j = 2 \<and> d \<in> set (dp j)}" using assms(3) by (auto split: if_splits)
  moreover have "\<forall>j. df_mark s j = 2 \<longrightarrow> i \<notin> set (dp j)"
    using assms(3) dfs_okD(2) [OF assms(1)] by fastforce
  ultimately show ?thesis
    using assms by (auto simp: dfs_ok_def dep_walk_snoc)
qed

lemma dfs_ok_pop:
  assumes "dfs_ok ids dp s" and "df_stack s = xs @ [i]" and "\<forall>d \<in> set (dp i). df_mark s d = 2"
  shows "dfs_ok ids dp (s\<lparr>df_stack := xs, df_mark := (df_mark s)(i := 2)\<rparr>)"
proof -
  have m: "df_mark s i = 1" using dfs_okD(1) [OF assms(1), of i] assms(2) by simp
  have ni: "i \<notin> set xs" using assms(1,2) by (simp add: dfs_ok_def)
  have ids: "i \<in> ids" using dfs_okD(3) [OF assms(1), of i] m by simp
  let ?E = "{(j, d). df_mark s j = 2 \<and> d \<in> set (dp j)}"
  have E: "acyclic ?E" "\<And>a b. (a, b) \<in> ?E \<Longrightarrow> a \<noteq> i \<and> b \<noteq> i"
    using assms(1) m dfs_okD(2) [OF assms(1)] by (simp add: dfs_ok_def, fastforce)
  have "{(j, d). ((df_mark s)(i := 2)) j = 2 \<and> d \<in> set (dp j)} =
      ?E \<union> {(i, d) | d. d \<in> set (dp i) \<and> d \<noteq> i}"
    using assms(3) m by (auto split: if_splits)
  with acyclic_add_source [OF E, of "set (dp i)"]
  have "acyclic {(j, d). ((df_mark s)(i := 2)) j = 2 \<and> d \<in> set (dp j)}" by simp
  moreover have "dep_walk dp xs" using assms(1,2) by (simp add: dfs_ok_def dep_walk_snoc)
  ultimately show ?thesis
    using assms m ni ids by (auto simp: dfs_ok_def)
qed

lemma dfs_ok_cycle:
  assumes "dfs_ok ids dp s" and "df_stack s \<noteq> []" and "d \<in> set (dp (last (df_stack s)))"
    and "df_mark s d = 1"
  shows "dep_cycle dp (dropWhile (\<lambda>x. x \<noteq> d) (df_stack s))"
proof -
  have d: "d \<in> set (df_stack s)" using assms(1,4) by (auto simp: dfs_ok_def)
  then obtain ys zs where st: "df_stack s = ys @ d # zs" and "d \<notin> set ys"
    by (metis split_list_first)
  then have "dropWhile (\<lambda>x. x \<noteq> d) (df_stack s) = d # zs"
    by (simp add: dropWhile_neq)
  moreover have "dep_walk dp (d # zs)" "distinct (d # zs)"
    using assms(1) st by (auto simp: dfs_ok_def intro: dep_walk_suffix)
  moreover have "last (d # zs) = last (df_stack s)" using st by simp
  ultimately show ?thesis using assms(3) by (simp add: dep_cycle_def)
qed

lemma visit_correct:
  defines "dp m i \<equiv> map_get [] m i"
  shows "visit fuel m i s = Some (b, s') \<Longrightarrow> dfs_ok ids (dp m) s \<Longrightarrow> i \<in> ids \<Longrightarrow> df_mark s i = 0 \<Longrightarrow>
      (df_stack s \<noteq> [] \<longrightarrow> i \<in> set (dp m (last (df_stack s)))) \<Longrightarrow>
      (\<forall>j \<in> ids. set (dp m j) \<subseteq> ids) \<Longrightarrow>
      (if b then dep_cycle (dp m) (df_cycle s')
       else dfs_ok ids (dp m) s' \<and> df_stack s' = df_stack s \<and> df_mark s' i = 2 \<and>
            (\<forall>j. df_mark s j = 2 \<longrightarrow> df_mark s' j = 2))"
    and "visit_deps fuel m ds s = Some (b, s') \<Longrightarrow> dfs_ok ids (dp m) s \<Longrightarrow> df_stack s \<noteq> [] \<Longrightarrow>
      set ds \<subseteq> set (dp m (last (df_stack s))) \<Longrightarrow>
      (\<forall>j \<in> ids. set (dp m j) \<subseteq> ids) \<Longrightarrow>
      (if b then dep_cycle (dp m) (df_cycle s')
       else dfs_ok ids (dp m) s' \<and> df_stack s' = df_stack s \<and> (\<forall>d \<in> set ds. df_mark s' d = 2) \<and>
            (\<forall>j. df_mark s j = 2 \<longrightarrow> df_mark s' j = 2))"
proof (induction fuel m i s and fuel m ds s arbitrary: b s' and b s' rule: visit_visit_deps.induct)
  case (1 deps i s)
  then show ?case by simp
next
  case (2 fuel deps i s)
  let ?s1 = "s\<lparr>df_mark := (df_mark s)(i := 1), df_stack := df_stack s @ [i]\<rparr>"
  have ok1: "dfs_ok ids (dp deps) ?s1" using 2 by (intro dfs_ok_push) auto
  obtain b1 s1 where v: "visit_deps fuel deps (map_get [] deps i) ?s1 = Some (b1, s1)"
    using 2(2) by (auto split: option.splits)
  note IH = 2(1) [OF v ok1 _ _ 2(7)]
  show ?case
  proof (cases b1)
    case True
    with IH v 2(2) show ?thesis by (auto simp: dp_def)
  next
    case False
    with IH have s1: "dfs_ok ids (dp deps) s1" "df_stack s1 = df_stack s @ [i]"
      "\<forall>d \<in> set (dp deps i). df_mark s1 d = 2" "\<forall>j. df_mark ?s1 j = 2 \<longrightarrow> df_mark s1 j = 2"
      by (auto simp: dp_def)
    have "s' = s1\<lparr>df_stack := df_stack s, df_mark := (df_mark s1)(i := 2)\<rparr>" "\<not> b"
      using 2(2) v False s1(2) by auto
    moreover have "df_mark s j = 2 \<longrightarrow> df_mark s1 j = 2" for j
      using s1(4) [rule_format, of j] 2(5) by (cases "j = i") auto
    ultimately show ?thesis using dfs_ok_pop [OF s1(1,2,3)] by auto
  qed
next
  case (3 fuel deps s)
  then show ?case by simp
next
  case (4 fuel deps d ds s)
  have d: "d \<in> set (dp deps (last (df_stack s)))" using 4(7) by simp
  consider "df_mark s d = 1" | "df_mark s d = 0" | "df_mark s d = 2"
    using dfs_okD(4) [OF 4(5), of d] by fast
  then show ?case
  proof cases
    case 1
    then show ?thesis using dfs_ok_cycle [OF 4(5,6) d] 4(4) by auto
  next
    case 2
    have "last (df_stack s) \<in> ids"
      using dfs_okD(1,3) [OF 4(5), of "last (df_stack s)"] 4(6) by simp
    then have di: "d \<in> ids" using d 4(8) by blast
    obtain b1 s1 where v: "visit fuel deps d s = Some (b1, s1)"
      using 4(4) 2 by (auto split: option.splits)
    note IH1 = 4(1) [OF _ 2 v 4(5) di 2 _ 4(8)]
    show ?thesis
    proof (cases b1)
      case True
      with IH1 v 2 4(4) d show ?thesis by auto
    next
      case False
      with IH1 d 2 have s1: "dfs_ok ids (dp deps) s1" "df_stack s1 = df_stack s" "df_mark s1 d = 2"
        "\<forall>j. df_mark s j = 2 \<longrightarrow> df_mark s1 j = 2" by auto
      have vd: "visit_deps fuel deps ds s1 = Some (b, s')"
        using 4(4) v 2 False by auto
      have "(if b then dep_cycle (dp deps) (df_cycle s')
         else dfs_ok ids (dp deps) s' \<and> df_stack s' = df_stack s1 \<and> (\<forall>d \<in> set ds. df_mark s' d = 2) \<and>
            (\<forall>j. df_mark s1 j = 2 \<longrightarrow> df_mark s' j = 2))"
        using 4(2) [of "(b1, s1)" b1 s1 b s'] v vd False 2 s1 4(6,7,8) by simp
      with s1 show ?thesis by auto
    qed
  next
    case 3
    then have "visit_deps fuel deps ds s = Some (b, s')" using 4(4) by simp
    then have "(if b then dep_cycle (dp deps) (df_cycle s')
         else dfs_ok ids (dp deps) s' \<and> df_stack s' = df_stack s \<and> (\<forall>d \<in> set ds. df_mark s' d = 2) \<and>
            (\<forall>j. df_mark s j = 2 \<longrightarrow> df_mark s' j = 2))"
      using 4(3) [of b s'] 3 4(5,6,7,8) by simp
    with 3 show ?thesis by (cases b) simp_all
  qed
qed

text \<open>The fuel: every nested call marks one more of the finitely many tasks.\<close>

definition unmarked :: "string set \<Rightarrow> dfs \<Rightarrow> string set" where
  "unmarked ids s = {i \<in> ids. df_mark s i = 0}"

lemma visit_marks:
  shows "visit fuel m i s = Some (b, s') \<Longrightarrow> df_mark s' j = 0 \<Longrightarrow> df_mark s j = 0"
    and "visit_deps fuel m ds s = Some (b, s') \<Longrightarrow> df_mark s' j = 0 \<Longrightarrow> df_mark s j = 0"
proof (induction fuel m i s and fuel m ds s arbitrary: b s' and b s' rule: visit_visit_deps.induct)
  case (2 fuel deps i s)
  obtain b1 s1 where v: "visit_deps fuel deps (map_get [] deps i)
      (s\<lparr>df_mark := (df_mark s)(i := 1), df_stack := df_stack s @ [i]\<rparr>) = Some (b1, s1)"
    using 2(2) by (auto split: option.splits)
  then show ?case
    using 2(1) [OF v] 2(2,3) by (cases b1) (auto split: if_splits)
next
  case (4 fuel deps d ds s)
  show ?case
  proof (cases "df_mark s d = 0")
    case True
    then obtain b1 s1 where v: "visit fuel deps d s = Some (b1, s1)"
      using 4(4) by (auto split: option.splits)
    then show ?thesis
      using 4(1) [OF _ True v] 4(2) [OF _ True v] 4(4,5) True by (cases b1) auto
  next
    case False
    then show ?thesis using 4(3) 4(4,5) by (auto split: if_splits)
  qed
qed auto

lemma visit_enough:
  assumes fin: "finite ids" and closed: "\<forall>j \<in> ids. set (map_get [] m j) \<subseteq> ids"
  shows "i \<in> ids \<Longrightarrow> df_mark s i = 0 \<Longrightarrow> card (unmarked ids s) \<le> fuel \<Longrightarrow> visit fuel m i s \<noteq> None"
    and "set ds \<subseteq> ids \<Longrightarrow> card (unmarked ids s) \<le> fuel \<Longrightarrow> visit_deps fuel m ds s \<noteq> None"
  using closed
proof (induction fuel m i s and fuel m ds s rule: visit_visit_deps.induct)
  case (1 deps i s)
  then have "i \<in> unmarked ids s" by (simp add: unmarked_def)
  moreover have "finite (unmarked ids s)" using fin by (simp add: unmarked_def)
  ultimately have "0 < card (unmarked ids s)" by (auto simp: card_gt_0_iff)
  then show ?case using 1 by simp
next
  case (2 fuel deps i s)
  let ?s1 = "s\<lparr>df_mark := (df_mark s)(i := 1), df_stack := df_stack s @ [i]\<rparr>"
  have "unmarked ids ?s1 = unmarked ids s - {i}" by (auto simp: unmarked_def)
  moreover have "i \<in> unmarked ids s" using 2 by (simp add: unmarked_def)
  moreover have "finite (unmarked ids s)" using fin by (simp add: unmarked_def)
  ultimately have "card (unmarked ids ?s1) \<le> fuel" using 2 by simp
  then show ?case using 2 by (auto split: option.splits bool.splits)
next
  case (4 fuel deps d ds s)
  show ?case
  proof (cases "df_mark s d = 0")
    case True
    have "visit fuel deps d s \<noteq> None" using 4(1) 4(4,5,6) True by simp
    then obtain b1 s1 where v: "visit fuel deps d s = Some (b1, s1)" by fastforce
    have "unmarked ids s1 \<subseteq> unmarked ids s" using visit_marks(1) [OF v] by (auto simp: unmarked_def)
    moreover have "finite (unmarked ids s)" using fin by (simp add: unmarked_def)
    ultimately have "card (unmarked ids s1) \<le> fuel" using 4(5) card_mono by (metis le_trans)
    then have "b1 \<or> visit_deps fuel deps ds s1 \<noteq> None"
      using 4(2) [OF _ True v refl] 4(4,6) True by auto
    then show ?thesis using v True by (cases b1) auto
  next
    case False
    then show ?thesis using 4(3) 4(4,5,6) by auto
  qed
qed simp

lemma visit_roots_correct:
  assumes "visit_roots fuel m is s = Some c" and "dfs_ok ids (map_get [] m) s"
    and "df_stack s = []" and "set is \<subseteq> ids"
    and "\<forall>j \<in> ids. set (map_get [] m j) \<subseteq> ids"
  shows "dep_cycle (map_get [] m) c \<or>
    (\<exists>s'. dfs_ok ids (map_get [] m) s' \<and> (\<forall>i. i \<in> set is \<or> df_mark s i = 2 \<longrightarrow> df_mark s' i = 2))"
  using assms
proof (induction "is" arbitrary: s)
  case (Cons i "is")
  show ?case
  proof (cases "df_mark s i = 0")
    case True
    then obtain b s1 where v: "visit fuel m i s = Some (b, s1)"
      using Cons.prems(1) by (auto split: option.splits)
    have post: "if b then dep_cycle (map_get [] m) (df_cycle s1)
       else dfs_ok ids (map_get [] m) s1 \<and> df_stack s1 = df_stack s \<and> df_mark s1 i = 2 \<and>
            (\<forall>j. df_mark s j = 2 \<longrightarrow> df_mark s1 j = 2)"
      using visit_correct(1) [OF v, of ids] Cons.prems True by simp
    show ?thesis
    proof (cases b)
      case True
      with post v Cons.prems(1) \<open>df_mark s i = 0\<close> show ?thesis by simp
    next
      case False
      with v Cons.prems(1) True have "visit_roots fuel m is s1 = Some c" by simp
      with Cons.IH [of s1] Cons.prems post False show ?thesis by auto
    qed
  next
    case False
    have "i \<notin> set (df_stack s)" using Cons.prems(3) by simp
    with False dfs_okD(1,4) [OF Cons.prems(2), of i] have "df_mark s i = 2" by auto
    moreover have "visit_roots fuel m is s = Some c" using False Cons.prems(1) by simp
    from Cons.IH [OF this Cons.prems(2,3) _ Cons.prems(5)] Cons.prems(4)
    have "dep_cycle (map_get [] m) c \<or>
      (\<exists>s'. dfs_ok ids (map_get [] m) s' \<and> (\<forall>i. i \<in> set is \<or> df_mark s i = 2 \<longrightarrow> df_mark s' i = 2))"
      by simp
    ultimately show ?thesis by (metis set_ConsD)
  qed
qed auto

lemma visit_roots_enough:
  assumes fin: "finite ids" and closed: "\<forall>j \<in> ids. set (map_get [] m j) \<subseteq> ids"
    and "set is \<subseteq> ids" and "card ids \<le> fuel"
  shows "visit_roots fuel m is s \<noteq> None"
  using assms(3)
proof (induction "is" arbitrary: s)
  case (Cons i "is")
  have "card (unmarked ids s) \<le> fuel"
    using card_mono [OF fin, of "unmarked ids s"] assms(4) by (auto simp: unmarked_def)
  then have "df_mark s i = 0 \<Longrightarrow> visit fuel m i s \<noteq> None"
    using visit_enough(1) [OF fin closed] Cons.prems by auto
  then show ?case using Cons by (cases "df_mark s i = 0") (auto split: option.splits bool.splits)
qed simp

lemma cyclicTaskIDs_enough:
  assumes "\<forall>j \<in> set ids. set (map_get [] m j) \<subseteq> set ids"
  shows "cyclicTaskIDs ids m \<noteq> None"
  unfolding cyclicTaskIDs_def
  using assms card_length [of ids] by (intro visit_roots_enough [of "set ids"]) auto

lemma cyclicTaskIDs_finds:
  assumes "\<forall>j \<in> set ids. set (map_get [] m j) \<subseteq> set ids"
    and "\<not> acyclic {(i, d). i \<in> set ids \<and> d \<in> set (map_get [] m i)}"
  shows "\<exists>c. cyclicTaskIDs ids m = Some c \<and> dep_cycle (map_get [] m) c"
proof -
  let ?s0 = "\<lparr>df_mark = (\<lambda>_. 0), df_stack = [], df_cycle = []\<rparr> :: dfs"
  obtain c where c: "cyclicTaskIDs ids m = Some c"
    using cyclicTaskIDs_enough [OF assms(1)] by auto
  have "dfs_ok (set ids) (map_get [] m) ?s0" by (simp add: dfs_ok_def acyclic_def)
  from visit_roots_correct [OF c [unfolded cyclicTaskIDs_def] this _ _ assms(1)]
  consider "dep_cycle (map_get [] m) c"
    | s' where "dfs_ok (set ids) (map_get [] m) s'" "\<forall>i \<in> set ids. df_mark s' i = 2"
    by auto
  then show ?thesis
  proof cases
    case 2
    have "acyclic {(i, d). df_mark s' i = 2 \<and> d \<in> set (map_get [] m i)}"
      using 2(1) by (simp add: dfs_ok_def)
    then have "acyclic {(i, d). i \<in> set ids \<and> d \<in> set (map_get [] m i)}"
      by (rule acyclic_subset) (use 2(2) in auto)
    with assms(2) show ?thesis by contradiction
  qed (use c in auto)
qed

subsection \<open>The waves\<close>

lemma deepest_eq: "deepest wave ds w = Max (insert w ((\<lambda>d. map_get 0 wave d + 1) ` set ds))"
proof (induction ds arbitrary: w)
  case (Cons d ds)
  let ?v = "map_get 0 wave d + 1"
  have "deepest wave (d # ds) w = deepest wave ds (max w ?v)" by (simp add: max_def)
  also have "\<dots> = Max (insert (max w ?v) ((\<lambda>d. map_get 0 wave d + 1) ` set ds))"
    by (rule Cons.IH)
  also have "\<dots> = Max (insert w ((\<lambda>d. map_get 0 wave d + 1) ` set (d # ds)))"
    by (cases "set ds = {}") (simp_all add: max.assoc)
  finally show ?case .
qed simp

definition wave_spec :: "(string \<Rightarrow> string list) \<Rightarrow> (string \<rightharpoonup> nat) \<Rightarrow> string \<Rightarrow> bool" where
  "wave_spec dp wave i \<longleftrightarrow>
     (\<exists>w. wave i = Some w \<and> w = Max (insert 0 ((\<lambda>d. map_get 0 wave d + 1) ` set (dp i))))"

definition waves_agree :: "string list \<Rightarrow> (string \<rightharpoonup> nat) \<Rightarrow> string list list \<Rightarrow> bool" where
  "waves_agree order wave waves \<longleftrightarrow>
     dom wave = set order \<and>
     (\<forall>w < length waves. waves ! w = filter (\<lambda>i. wave i = Some w) order) \<and>
     (\<forall>i \<in> set order. \<exists>w < length waves. wave i = Some w)"

lemma put_wave_length: "length (put_wave waves w i) = max (length waves) (Suc w)"
  by (simp add: put_wave_def Let_def)

lemma put_wave_nth:
  "v < length (put_wave waves w i) \<Longrightarrow>
     put_wave waves w i ! v = (if v < length waves then waves ! v else []) @ (if v = w then [i] else [])"
  by (auto simp: put_wave_def Let_def nth_list_update nth_append)

lemma waves_agree_put:
  assumes "waves_agree order wave waves" and "i \<notin> set order"
  shows "waves_agree (order @ [i]) (wave(i \<mapsto> w)) (put_wave waves w i)"
proof -
  have none: "wave i = None" using assms by (auto simp: waves_agree_def)
  have "filter (\<lambda>j. (wave(i \<mapsto> w)) j = Some v) order = filter (\<lambda>j. wave j = Some v) order" for v
    using assms(2) by (auto intro: filter_cong)
  moreover have "filter (\<lambda>j. wave j = Some v) order = []" if "\<not> v < length waves" for v
    using assms(1) that by (auto simp: waves_agree_def filter_empty_conv)
  ultimately show ?thesis
    using assms none
    by (auto simp: waves_agree_def put_wave_nth put_wave_length less_max_iff_disj)
qed

lemma wave_loop_correct:
  assumes "wave_loop m is wave waves = (wave', waves')"
    and "distinct (order @ is)" and "waves_agree order wave waves"
    and "topo_sorted (map_get [] m) (set order) is"
    and "\<forall>i \<in> set order. wave_spec (map_get [] m) wave i \<and> set (map_get [] m i) \<subseteq> set order"
  shows "waves_agree (order @ is) wave' waves' \<and> (\<forall>i \<in> set (order @ is). wave_spec (map_get [] m) wave' i)"
  using assms
proof (induction "is" arbitrary: order wave waves)
  case (Cons i "is")
  let ?w = "deepest wave (map_get [] m i) 0"
  let ?wave = "wave(i \<mapsto> ?w)"
  have fresh: "i \<notin> set order" using Cons.prems(2) by simp
  have deps: "set (map_get [] m i) \<subseteq> set order" using Cons.prems(4) by simp
  have same: "map_get 0 ?wave d = map_get 0 wave d" if "d \<in> set order" for d
    using that fresh by (auto simp: map_get_def)
  have spec: "wave_spec (map_get [] m) ?wave j \<and> set (map_get [] m j) \<subseteq> set order"
    if "j \<in> set (order @ [i])" for j
  proof (cases "j = i")
    case True
    have "(\<lambda>d. map_get 0 ?wave d + 1) ` set (map_get [] m i) =
        (\<lambda>d. map_get 0 wave d + 1) ` set (map_get [] m i)"
      using deps same by (intro image_cong) auto
    then show ?thesis using True deps by (simp add: wave_spec_def deepest_eq)
  next
    case False
    then have j: "wave_spec (map_get [] m) wave j" "set (map_get [] m j) \<subseteq> set order"
      using that Cons.prems(5) by auto
    then have "(\<lambda>d. map_get 0 ?wave d + 1) ` set (map_get [] m j) =
        (\<lambda>d. map_get 0 wave d + 1) ` set (map_get [] m j)"
      using same by (intro image_cong) auto
    then show ?thesis using j False by (simp add: wave_spec_def)
  qed
  have "waves_agree ((order @ [i]) @ is) wave' waves' \<and>
      (\<forall>j \<in> set ((order @ [i]) @ is). wave_spec (map_get [] m) wave' j)"
  proof (rule Cons.IH)
    show "wave_loop m is ?wave (put_wave waves ?w i) = (wave', waves')"
      using Cons.prems(1) by (simp add: Let_def)
    show "waves_agree (order @ [i]) ?wave (put_wave waves ?w i)"
      using Cons.prems(3) fresh by (rule waves_agree_put)
    show "topo_sorted (map_get [] m) (set (order @ [i])) is" using Cons.prems(4) by simp
    show "\<forall>j \<in> set (order @ [i]). wave_spec (map_get [] m) ?wave j \<and>
        set (map_get [] m j) \<subseteq> set (order @ [i])"
      using spec by fastforce
  qed (use Cons.prems(2) in simp)
  then show ?case by simp
qed auto

subsection \<open>The whole construction\<close>

definition plan_acyclic :: "tasks \<Rightarrow> bool" where
  "plan_acyclic p \<longleftrightarrow> acyclic (dep_edges (tasks_Tasks p))"

definition plan_wellformed :: "tasks \<Rightarrow> bool" where
  "plan_wellformed p \<longleftrightarrow>
     tasks_Diagnostics p = [] \<and> rows_ok (tasks_Tasks p) \<and> deps_ok (tasks_Tasks p)"

text \<open>The facts a finished graph satisfies.\<close>

definition graph_ok :: "task list \<Rightarrow> task_graph \<Rightarrow> bool" where
  "graph_ok ts g \<longleftrightarrow>
     tg_authored g = map task_ID ts \<and> tg_dependencies g = dep_map ts \<and>
     distinct (tg_order g) \<and> set (tg_order g) = task_ID ` set ts \<and>
     topo_sorted (Dependencies g) {} (tg_order g) \<and>
     waves_agree (tg_order g) (tg_wave g) (tg_waves g) \<and>
     (\<forall>i \<in> task_ID ` set ts. wave_spec (Dependencies g) (tg_wave g) i)"

lemma dep_edges_eq:
  "distinct (map task_ID ts) \<Longrightarrow>
     dep_edges ts = {(i, d). i \<in> set (map task_ID ts) \<and> d \<in> set (map_get [] (dep_map ts) i)}"
  using dep_edges_iff [of ts] by auto

lemma dep_edgesI: "t \<in> set ts \<Longrightarrow> d \<in> set (task_DependsOn t) \<Longrightarrow> (task_ID t, d) \<in> dep_edges ts"
  by (auto simp: dep_edges_def)

lemma finite_dep_edges: "finite (dep_edges ts)"
proof -
  have "dep_edges ts \<subseteq> task_ID ` set ts \<times> (\<Union>t \<in> set ts. set (task_DependsOn t))"
    by (auto simp: dep_edges_def)
  then show ?thesis by (rule finite_subset) auto
qed

lemma deps_closed:
  assumes "rows_ok ts" and "deps_ok ts"
  shows "\<forall>j \<in> set (map task_ID ts). set (map_get [] (dep_map ts) j) \<subseteq> set (map task_ID ts)"
  using assms by (auto simp: rows_ok_def deps_ok_def dep_map_task)

lemma topo_inv_init:
  assumes "rows_ok ts"
  shows "topo_inv (map task_ID ts) (map_get [] (dep_map ts)) (init_indegree (\<lambda>_. 0) ts) []"
  using assms by (auto simp: topo_inv_def rows_ok_def init_indegree_eq)

lemma link_counts:
  assumes "rows_ok ts" and "link_tasks path byID ts (snd (init_maps Map.empty Map.empty ts)) = Inr D"
  shows "count_list (map_get [] D n) i = count_list (map_get [] (dep_map ts) i) n"
  using link_tasks_count [OF assms(2), of n i] sum_list_row [of ts i n] assms(1)
  by (simp add: rows_ok_def snd_init_maps_get)

text \<open>What each loop of the construction decides, in one case distinction.\<close>

lemma BuildTaskGraph_cases:
  obtains (malformed) e where "\<not> plan_wellformed p" and "BuildTaskGraph p = Inl e"
      and "IsCode e ''plan_invalid''"
  | (cyclic) c where "plan_wellformed p" and "\<not> plan_acyclic p"
      and "dep_cycle (map_get [] (dep_map (tasks_Tasks p))) c"
      and "BuildTaskGraph p = Inl (cycle_refusal (src_Path (tasks_Source p)) (Some c))"
  | (built) g where "plan_wellformed p" and "plan_acyclic p" and "BuildTaskGraph p = Inr g"
      and "graph_ok (tasks_Tasks p) g"
proof -
  let ?ts = "tasks_Tasks p" and ?path = "src_Path (tasks_Source p)"
  let ?dp = "map_get [] (dep_map ?ts)"
  have code: "IsCode (invalidTaskGraph ?path m) ''plan_invalid''" if "\<not> msg_empty m" for m
    using that by (simp add: invalidTaskGraph_def)
  have index_code: "index_tasks ?path i m ts = Inl e \<Longrightarrow> IsCode e ''plan_invalid''" for i m ts e
    by (induction ts arbitrary: i m) (auto split: if_splits simp: code)
  have link_code: "link_deps ?path b i ds m = Inl e \<Longrightarrow> IsCode e ''plan_invalid''" for b i ds m e
    by (induction ds arbitrary: m) (auto split: if_splits simp: code)
  have links_code: "link_tasks ?path b ts m = Inl e \<Longrightarrow> IsCode e ''plan_invalid''" for b ts m e
    by (induction ts arbitrary: m) (auto simp: bindE_eq_Inl dest: link_code)
  show thesis
  proof (cases "tasks_Diagnostics p")
    case (Cons dg dgs)
    then show ?thesis
      by (intro malformed) (auto simp: plan_wellformed_def BuildTaskGraph_def code Let_def)
  next
    case Nil
    show ?thesis
    proof (cases "index_tasks ?path 0 Map.empty ?ts")
      case (Inl e)
      then have "\<not> rows_ok ?ts" using index_tasks_empty by (metis sum.distinct(1))
      then show ?thesis
        using Nil Inl index_code by (intro malformed) (auto simp: plan_wellformed_def BuildTaskGraph_def Let_def)
    next
      case (Inr byID)
      then have rows: "rows_ok ?ts" using index_tasks_empty by blast
      have dom: "dom byID = task_ID ` set ?ts" using index_tasks_dom [OF Inr] by simp
      let ?dts = "snd (init_maps Map.empty Map.empty ?ts)"
      have deps_eq: "fst (init_maps Map.empty Map.empty ?ts) = dep_map ?ts"
        by (rule fst_init_maps) (use rows in \<open>simp add: rows_ok_def\<close>)
      have start: "BuildTaskGraph p = bindE (link_tasks ?path byID ?ts ?dts) (\<lambda>dependents.
            case topo_loop (length ?ts) (map task_ID ?ts) dependents (init_indegree (\<lambda>_. 0) ?ts) [] of
              None \<Rightarrow> Inl (cycle_refusal ?path (cyclicTaskIDs (map task_ID ?ts) (dep_map ?ts)))
            | Some order \<Rightarrow>
                let (wave, waves) = wave_loop (dep_map ?ts) order Map.empty [] in
                Inr \<lparr>tg_authored = map task_ID ?ts, tg_order = order, tg_waves = waves,
                     tg_dependencies = dep_map ?ts, tg_dependents = dependents, tg_wave = wave\<rparr>)"
        using Nil Inr deps_eq by (simp add: BuildTaskGraph_def Let_def split_beta cong: option.case_cong)
      show ?thesis
      proof (cases "link_tasks ?path byID ?ts ?dts")
        case (Inl e)
        then have "\<not> deps_ok ?ts"
          using link_tasks_iff [of ?path byID ?ts ?dts] dom by (auto simp: deps_ok_def)
        then show ?thesis
          using start Inl links_code by (intro malformed) (auto simp: plan_wellformed_def)
      next
        case (Inr D)
        then have deps: "deps_ok ?ts"
          using link_tasks_iff [of ?path byID ?ts ?dts] dom by (auto simp: deps_ok_def)
        have wf: "plan_wellformed p" using Nil rows deps by (simp add: plan_wellformed_def)
        have dist: "distinct (map task_ID ?ts)" using rows by (simp add: rows_ok_def)
        note counts = link_counts [OF rows Inr]
        note inv = topo_inv_init [OF rows]
        show ?thesis
        proof (cases "topo_loop (length ?ts) (map task_ID ?ts) D (init_indegree (\<lambda>_. 0) ?ts) []")
          case None
          from topo_loop_None [OF inv None _ dist counts]
          obtain R where R: "R \<subseteq> set (map task_ID ?ts)" "R \<noteq> {}"
            "\<forall>i \<in> R. \<exists>d \<in> set (?dp i). d \<notin> set (map task_ID ?ts) - R" by auto
          have "\<exists>d \<in> R. (i, d) \<in> dep_edges ?ts" if "i \<in> R" for i
          proof -
            obtain d where d: "d \<in> set (?dp i)" "d \<notin> set (map task_ID ?ts) - R"
              using R(3) \<open>i \<in> R\<close> by blast
            have i: "i \<in> set (map task_ID ?ts)" using R(1) \<open>i \<in> R\<close> by blast
            then have "d \<in> set (map task_ID ?ts)" using deps_closed [OF rows deps] d(1) by blast
            then have "d \<in> R" using d(2) by blast
            then show ?thesis using dep_edges_eq [OF dist] d(1) i by auto
          qed
          then have cyc: "\<not> acyclic (dep_edges ?ts)"
            using stuck_not_acyclic [OF _ R(2)] R(1) finite_dep_edges finite_subset [OF R(1)] by blast
          then obtain c where "cyclicTaskIDs (map task_ID ?ts) (dep_map ?ts) = Some c" "dep_cycle ?dp c"
            using cyclicTaskIDs_finds [OF deps_closed [OF rows deps]] dep_edges_eq [OF dist] by auto
          then show ?thesis
            using cyclic wf cyc start Inr None by (simp add: plan_acyclic_def)
        next
          case (Some order)
          from topo_loop_Some [OF inv Some counts] obtain deg
            where order: "topo_inv (map task_ID ?ts) ?dp deg order" "length order = length ?ts" by auto
          then have ord: "distinct order" "set order \<subseteq> task_ID ` set ?ts" "topo_sorted ?dp {} order"
            by (auto simp: topo_inv_def)
          have "card (set order) = card (set (map task_ID ?ts))"
            using order(2) ord(1) dist by (simp add: distinct_card flip: set_map)
          then have full: "set order = task_ID ` set ?ts"
            using ord(2) by (metis card_subset_eq finite_imageI List.finite_set set_map)
          obtain wave waves where w: "wave_loop (dep_map ?ts) order Map.empty [] = (wave, waves)"
            by fastforce
          have "waves_agree ([] @ order) wave waves \<and> (\<forall>i \<in> set ([] @ order). wave_spec ?dp wave i)"
            by (rule wave_loop_correct [OF w]) (use ord in \<open>auto simp: waves_agree_def\<close>)
          moreover have "acyclic (dep_edges ?ts)"
            by (rule topo_sorted_acyclic [OF ord(3,1)]) (use full dep_edges_iff [OF dist] in auto)
          moreover have "Dependencies g = ?dp" if "tg_dependencies g = dep_map ?ts" for g
            by (rule ext) (simp add: Dependencies_def that)
          ultimately show ?thesis
            using start Inr Some w wf ord full
            by (intro built [of "\<lparr>tg_authored = map task_ID ?ts, tg_order = order, tg_waves = waves,
                 tg_dependencies = dep_map ?ts, tg_dependents = D, tg_wave = wave\<rparr>"])
               (simp_all add: plan_acyclic_def graph_ok_def)
        qed
      qed
    qed
  qed
qed

subsection \<open>Properties\<close>

text \<open>C24: The graph is built exactly for the plans it should be built for: no parser diagnostic, every
  row identified, valid and unique, every dependency another row of the table, and no dependency
  cycle. Every other plan is refused.\<close>
theorem BuildTaskGraph_accepts_iff:
  "(\<exists>g. BuildTaskGraph p = Inr g) \<longleftrightarrow> plan_wellformed p \<and> plan_acyclic p"
  by (cases rule: BuildTaskGraph_cases [of p]) auto

text \<open>C25: In the topological order of a built graph every canonical task stands once, and after all
  the tasks it depends on.\<close>
theorem TopologicalOrder_correct:
  assumes "BuildTaskGraph p = Inr g"
  shows "distinct (TopologicalOrder g) \<and>
    set (TopologicalOrder g) = task_ID ` set (tasks_Tasks p) \<and>
    (\<forall>xs i ys. TopologicalOrder g = xs @ i # ys \<longrightarrow> set (Dependencies g i) \<subseteq> set xs)"
proof -
  from assms have g: "graph_ok (tasks_Tasks p) g"
    by (cases rule: BuildTaskGraph_cases [of p]) auto
  then have "topo_sorted (Dependencies g) {} (TopologicalOrder g)"
    by (simp add: graph_ok_def TopologicalOrder_def)
  then have "\<forall>xs i ys. TopologicalOrder g = xs @ i # ys \<longrightarrow> set (Dependencies g i) \<subseteq> set xs"
    using topo_sorted_before by metis
  with g show ?thesis by (simp add: graph_ok_def TopologicalOrder_def)
qed

definition diamond :: tasks where
  "diamond = mk_tasks [mk_task ''d'' [''b'', ''c''], mk_task ''b'' [''a''], mk_task ''c'' [''a''],
     mk_task ''a'' []]"

lemma diamond_built:
  "\<exists>g. BuildTaskGraph diamond = Inr g \<and> TopologicalOrder g = [''a'', ''b'', ''c'', ''d''] \<and>
     Waves g = [[''a''], [''b'', ''c''], [''d'']] \<and> Wave g ''d'' = Some 2 \<and>
     Dependencies g ''d'' = [''b'', ''c'']"
  by (simp add: diamond_def BuildTaskGraph_def TopologicalOrder_def Waves_def Wave_def Dependencies_def
      put_wave_def eval_nat_numeral)

theorem TopologicalOrder_correct_witness:
  "\<exists>g. BuildTaskGraph diamond = Inr g \<and> distinct (TopologicalOrder g) \<and>
     set (Dependencies g ''d'') \<subseteq> set [''a'', ''b'', ''c'']"
proof -
  obtain g where g: "BuildTaskGraph diamond = Inr g"
    "TopologicalOrder g = [''a'', ''b'', ''c''] @ ''d'' # []"
    using diamond_built by auto
  from TopologicalOrder_correct [OF g(1)]
  have "distinct (TopologicalOrder g)" and
    "TopologicalOrder g = [''a'', ''b'', ''c''] @ ''d'' # [] \<longrightarrow>
       set (Dependencies g ''d'') \<subseteq> set [''a'', ''b'', ''c'']" by blast+
  with g show ?thesis by metis
qed

text \<open>C26: A task's wave is the least number above the waves of everything it depends on (0 without
  dependencies), and the waves list exactly the tasks of each number, in topological order.\<close>
theorem Waves_correct:
  assumes "BuildTaskGraph p = Inr g"
  shows "(\<forall>t \<in> set (tasks_Tasks p). \<exists>w. Wave g (task_ID t) = Some w \<and> w < length (Waves g) \<and>
      w = Max (insert 0 ((\<lambda>d. the (Wave g d) + 1) ` set (task_DependsOn t)))) \<and>
    (\<forall>w < length (Waves g). Waves g ! w = filter (\<lambda>i. Wave g i = Some w) (TopologicalOrder g))"
proof -
  from assms have g: "graph_ok (tasks_Tasks p) g" and wf: "plan_wellformed p"
    by (cases rule: BuildTaskGraph_cases [of p]; auto)+
  have dist: "distinct (map task_ID (tasks_Tasks p))" using wf by (simp add: plan_wellformed_def rows_ok_def)
  have task: "\<exists>w. Wave g (task_ID t) = Some w \<and> w < length (Waves g) \<and>
      w = Max (insert 0 ((\<lambda>d. the (Wave g d) + 1) ` set (task_DependsOn t)))"
    if t: "t \<in> set (tasks_Tasks p)" for t
  proof -
    have dep: "Dependencies g (task_ID t) = task_DependsOn t"
      using g dep_map_task [OF dist t] by (simp add: graph_ok_def Dependencies_def)
    have known: "map_get 0 (tg_wave g) d = the (Wave g d)" if "d \<in> set (task_DependsOn t)" for d
    proof -
      have "d \<in> task_ID ` set (tasks_Tasks p)"
        using wf t that by (auto simp: plan_wellformed_def deps_ok_def)
      then have "d \<in> dom (tg_wave g)" using g by (simp add: graph_ok_def waves_agree_def)
      then show ?thesis by (auto simp: Wave_def)
    qed
    have "(\<lambda>d. map_get 0 (tg_wave g) d + 1) ` set (task_DependsOn t) =
        (\<lambda>d. the (Wave g d) + 1) ` set (task_DependsOn t)"
      using known by (intro image_cong) simp_all
    moreover have "wave_spec (Dependencies g) (tg_wave g) (task_ID t)"
      using g t by (simp add: graph_ok_def)
    moreover have "\<exists>w < length (tg_waves g). tg_wave g (task_ID t) = Some w"
      using g t by (auto simp: graph_ok_def waves_agree_def)
    ultimately show ?thesis by (auto simp: wave_spec_def dep Wave_def Waves_def)
  qed
  show ?thesis
    using task g by (simp add: graph_ok_def waves_agree_def Waves_def Wave_def TopologicalOrder_def)
qed

theorem Waves_correct_witness:
  "\<exists>g. BuildTaskGraph diamond = Inr g \<and>
     Wave g ''d'' = Some (Max (insert 0 ((\<lambda>d. the (Wave g d) + 1) ` {''b'', ''c''})))"
proof -
  obtain g where g: "BuildTaskGraph diamond = Inr g" using diamond_built by auto
  have t: "mk_task ''d'' [''b'', ''c''] \<in> set (tasks_Tasks diamond)" by (simp add: diamond_def)
  from Waves_correct [OF g, THEN conjunct1, THEN bspec, OF t] g show ?thesis by auto
qed

text \<open>C27: A well-formed plan whose dependencies are circular is refused with a real cycle of it: the
  named tasks are distinct, each depends on the next, and the last depends on the first.\<close>
theorem BuildTaskGraph_names_cycle:
  assumes "plan_wellformed p" and "\<not> plan_acyclic p"
  shows "\<exists>c. dep_cycle (map_get [] (dep_map (tasks_Tasks p))) c \<and>
    BuildTaskGraph p = Inl (invalidTaskGraph (src_Path (tasks_Source p))
      (Str ''task dependency cycle involving '' # intersperse_comma c))"
  using assms by (cases rule: BuildTaskGraph_cases [of p]) (auto simp: cycle_refusal_def)

definition ring :: tasks where
  "ring = mk_tasks [mk_task ''a'' [''b''], mk_task ''b'' [''a''], mk_task ''c'' []]"

theorem BuildTaskGraph_names_cycle_witness:
  "\<exists>c. dep_cycle (map_get [] (dep_map (tasks_Tasks ring))) c \<and>
    BuildTaskGraph ring = Inl (invalidTaskGraph ''tasks.md''
      (Str ''task dependency cycle involving '' # intersperse_comma c))"
proof -
  have wf: "plan_wellformed ring"
    by (auto simp: plan_wellformed_def rows_ok_def deps_ok_def ring_def)
  have "(''a'', ''b'') \<in> dep_edges (tasks_Tasks ring)" "(''b'', ''a'') \<in> dep_edges (tasks_Tasks ring)"
    using dep_edgesI [of "mk_task ''a'' [''b'']" "tasks_Tasks ring" "''b''"]
      dep_edgesI [of "mk_task ''b'' [''a'']" "tasks_Tasks ring" "''a''"] by (simp_all add: ring_def)
  then have "(''a'', ''a'') \<in> (dep_edges (tasks_Tasks ring))\<^sup>+"
    by (meson r_into_trancl' trancl_into_trancl)
  then have "\<not> plan_acyclic ring" by (auto simp: plan_acyclic_def acyclic_def)
  from BuildTaskGraph_names_cycle [OF wf this] show ?thesis by (simp add: ring_def mk_tasks_def)
qed

end
