(* ===== verification/GoLib.thy ===== *)
theory GoLib
  imports Prelude "HOL-Library.Word" "HOL-Library.AList"
begin

text \<open>
  What the program uses of Go's standard library on strings: character classes and decimal
  numbers, \<open>encoding/hex\<close>, \<open>path.Clean\<close>, \<open>time.Parse\<close> at the RFC 3339 layout, and maps
  with string keys as association lists without duplicate keys (so that a loop over the keys can
  be written down). Unsigned 64-bit revisions are \<open>64 word\<close>: \<open>+\<close> wraps as Go's does.
\<close>

type_synonym u64 = "64 word"

subsection \<open>Characters and numbers\<close>

definition position :: "char \<Rightarrow> string \<Rightarrow> nat" where
  "position c s = length (takeWhile (\<lambda>x. x \<noteq> c) s)"

definition is_digit :: "char \<Rightarrow> bool" where
  "is_digit c = (c \<in> set ''0123456789'')"

definition is_lower :: "char \<Rightarrow> bool" where
  "is_lower c = (c \<in> set ''abcdefghijklmnopqrstuvwxyz'')"

definition is_upper :: "char \<Rightarrow> bool" where
  "is_upper c = (c \<in> set ''ABCDEFGHIJKLMNOPQRSTUVWXYZ'')"

definition digit_val :: "char \<Rightarrow> nat" where
  "digit_val c = position c ''0123456789''"

definition digit_char :: "nat \<Rightarrow> char" where
  "digit_char n = ''0123456789'' ! n"

fun nat_of_digits :: "nat \<Rightarrow> string \<Rightarrow> nat option" where
  "nat_of_digits acc [] = Some acc"
| "nat_of_digits acc (c # cs) =
     (if is_digit c then nat_of_digits (10 * acc + digit_val c) cs else None)"

definition parse_nat :: "string \<Rightarrow> nat option" where
  "parse_nat s = (if s = [] then None else nat_of_digits 0 s)"

fun show_nat :: "nat \<Rightarrow> string" where
  "show_nat n = (if n < 10 then [digit_char n] else show_nat (n div 10) @ [digit_char (n mod 10)])"

declare show_nat.simps [simp del]

definition show_int :: "int \<Rightarrow> string" where
  "show_int i = (if i < 0 then CHR ''-'' # show_nat (nat (- i)) else show_nat (nat i))"

lemma less_10_cases: "n < 10 \<Longrightarrow> n \<in> {0, 1, 2, 3, 4, 5, 6, 7, 8, 9 :: nat}"
  by auto

lemma digit_char_val: "n < 10 \<Longrightarrow> digit_val (digit_char n) = n"
  by (drule less_10_cases) (elim insertE emptyE; simp add: digit_val_def digit_char_def position_def)

lemma digit_char_digit: "n < 10 \<Longrightarrow> is_digit (digit_char n)"
  by (drule less_10_cases) (elim insertE emptyE; simp add: is_digit_def digit_char_def)

lemma nat_of_digits_append:
  "nat_of_digits acc (xs @ ys) =
     (case nat_of_digits acc xs of None \<Rightarrow> None | Some a \<Rightarrow> nat_of_digits a ys)"
  by (induction acc xs rule: nat_of_digits.induct) auto

lemma nat_of_digits_show: "nat_of_digits 0 (show_nat n) = Some n"
proof (induction n rule: show_nat.induct)
  case (1 n)
  show ?case
    by (subst show_nat.simps)
       (use 1 in \<open>auto simp: nat_of_digits_append digit_char_digit digit_char_val\<close>)
qed

lemma show_nat_ne [simp]: "show_nat n \<noteq> []"
  by (subst show_nat.simps) simp

lemma parse_show_nat [simp]: "parse_nat (show_nat n) = Some n"
  by (simp add: parse_nat_def nat_of_digits_show)

lemma show_nat_digits: "c \<in> set (show_nat n) \<Longrightarrow> is_digit c"
proof (induction n rule: show_nat.induct)
  case (1 n)
  show ?case
    using 1 by (subst (asm) (2) show_nat.simps) (auto simp: digit_char_digit split: if_splits)
qed

subsection \<open>Lower case and hexadecimal text\<close>

definition to_lower :: "char \<Rightarrow> char" where
  "to_lower c =
     (if is_upper c
      then ''abcdefghijklmnopqrstuvwxyz'' ! position c ''ABCDEFGHIJKLMNOPQRSTUVWXYZ'' else c)"

definition lower_case :: "string \<Rightarrow> string" where
  "lower_case s = map to_lower s"

definition hex_val :: "char \<Rightarrow> nat option" where
  "hex_val c =
     (if is_digit c then Some (digit_val c)
      else if c \<in> set ''abcdef'' then Some (10 + position c ''abcdef'')
      else if c \<in> set ''ABCDEF'' then Some (10 + position c ''ABCDEF'')
      else None)"

fun hex_decode :: "string \<Rightarrow> string option" where
  "hex_decode [] = Some []"
| "hex_decode [c] = None"
| "hex_decode (c # d # s) =
     (case (hex_val c, hex_val d, hex_decode s) of
        (Some x, Some y, Some bs) \<Rightarrow> Some (char_of (16 * x + y) # bs)
      | _ \<Rightarrow> None)"

text \<open>The digests and commit names the code accepts: one of the lengths, lower case, hexadecimal
  (\<open>validHex\<close> of \<open>record.go\<close>, \<open>hexValue\<close> of \<open>evidence.go\<close>).\<close>

definition lower_hex :: "string \<Rightarrow> bool" where
  "lower_hex s \<longleftrightarrow> lower_case s = s \<and> hex_decode s \<noteq> None"

lemma hex_decode_length: "hex_decode s = Some b \<Longrightarrow> length s = 2 * length b"
  by (induction s arbitrary: b rule: hex_decode.induct) (auto split: option.splits)

subsection \<open>Paths\<close>

text \<open>\<open>path.Clean\<close>: the elements of the result, last first, then the text.\<close>

definition clean_step :: "bool \<Rightarrow> string list \<Rightarrow> string \<Rightarrow> string list" where
  "clean_step rooted acc seg =
     (if seg = [] \<or> seg = ''.'' then acc
      else if seg = ''..'' then
        (case acc of
           [] \<Rightarrow> if rooted then [] else [''..'']
         | x # xs \<Rightarrow> if x = ''..'' then ''..'' # acc else xs)
      else seg # acc)"

definition path_Clean :: "string \<Rightarrow> string" where
  "path_Clean p =
     (if p = [] then ''.''
      else let rooted = (hd p = CHR ''/'');
               body = join_with CHR ''/'' (rev (foldl (clean_step rooted) [] (split_on CHR ''/'' p)))
           in if rooted then CHR ''/'' # body else if body = [] then ''.'' else body)"

subsection \<open>Maps with string keys\<close>

type_synonym 'v gomap = "(string \<times> 'v) list"

definition gomap_ok :: "'v gomap \<Rightarrow> bool" where
  "gomap_ok m \<longleftrightarrow> distinct (map fst m)"

definition gomap_keys :: "'v gomap \<Rightarrow> string list" where
  "gomap_keys m = sort (map fst m)"

lemma gomap_ok_update [simp]: "gomap_ok m \<Longrightarrow> gomap_ok (AList.update k v m)"
  by (simp add: gomap_ok_def distinct_update)

lemma gomap_ok_delete [simp]: "gomap_ok m \<Longrightarrow> gomap_ok (AList.delete k m)"
  by (simp add: gomap_ok_def distinct_delete)

lemma gomap_ok_Nil [simp]: "gomap_ok []"
  by (simp add: gomap_ok_def)

lemma set_gomap_keys [simp]: "set (gomap_keys m) = dom (map_of m)"
  by (simp add: gomap_keys_def dom_map_of_conv_image_fst)

lemma map_of_update [simp]: "map_of (AList.update k v m) = (map_of m)(k \<mapsto> v)"
  by (simp add: update_conv')

lemma map_of_delete [simp]: "map_of (AList.delete k m) = (map_of m)(k := None)"
  by (simp add: delete_conv')

subsection \<open>Time\<close>

text \<open>\<open>time.Parse(time.RFC3339Nano, s)\<close>: whether the zone is \<open>Z\<close>, and the instant in
  nanoseconds since 1 March of year 0. The hour may have one digit, the fraction any number of
  digits (nine count), the offset may be 24 hours and 60 minutes, as the library accepts them.\<close>

definition two_digits :: "string \<Rightarrow> (nat \<times> string) option" where
  "two_digits s = (case s of
     a # b # r \<Rightarrow> if is_digit a \<and> is_digit b then Some (10 * digit_val a + digit_val b, r) else None
   | _ \<Rightarrow> None)"

definition one_or_two_digits :: "string \<Rightarrow> (nat \<times> string) option" where
  "one_or_two_digits s = (case s of
     a # b # r \<Rightarrow>
       if \<not> is_digit a then None
       else if is_digit b then Some (10 * digit_val a + digit_val b, r)
       else Some (digit_val a, b # r)
   | [a] \<Rightarrow> if is_digit a then Some (digit_val a, []) else None
   | [] \<Rightarrow> None)"

definition expect :: "char \<Rightarrow> string \<Rightarrow> string option" where
  "expect c s = (case s of x # r \<Rightarrow> if x = c then Some r else None | [] \<Rightarrow> None)"

definition leap_year :: "nat \<Rightarrow> bool" where
  "leap_year y \<longleftrightarrow> 4 dvd y \<and> (\<not> 100 dvd y \<or> 400 dvd y)"

definition days_in :: "nat \<Rightarrow> nat \<Rightarrow> nat" where
  "days_in m y =
     (if m = 2 then (if leap_year y then 29 else 28) else if m \<in> {4, 6, 9, 11} then 30 else 31)"

definition day_number :: "nat \<Rightarrow> nat \<Rightarrow> nat \<Rightarrow> int" where
  "day_number y m d =
     (let yy = int y - (if m \<le> 2 then 1 else 0); mm = (int m + 9) mod 12
      in 365 * yy + yy div 4 - yy div 100 + yy div 400 + (153 * mm + 2) div 5 + int d - 1)"

definition parse_fraction :: "string \<Rightarrow> nat \<times> string" where
  "parse_fraction s = (case s of
     p # a # r \<Rightarrow>
       if (p = CHR ''.'' \<or> p = CHR '','') \<and> is_digit a then
         (let ds = takeWhile is_digit (a # r); k = take 9 ds
          in (map_get 0 (\<lambda>_. nat_of_digits 0 k) () * 10 ^ (9 - length k), dropWhile is_digit (a # r)))
       else (0, s)
   | _ \<Rightarrow> (0, s))"

text \<open>The zone: the offset in seconds and whether it is the letter \<open>Z\<close>.\<close>

definition parse_zone :: "string \<Rightarrow> (bool \<times> int) option" where
  "parse_zone s =
     (if s = ''Z'' then Some (True, 0)
      else (case s of
        [sg, h1, h2, c, m1, m2] \<Rightarrow>
          if c = CHR '':'' \<and> is_digit h1 \<and> is_digit h2 \<and> is_digit m1 \<and> is_digit m2 \<and>
             (sg = CHR ''+'' \<or> sg = CHR ''-'') \<and>
             10 * digit_val h1 + digit_val h2 \<le> 24 \<and> 10 * digit_val m1 + digit_val m2 \<le> 60
          then let off = int (60 * (60 * (10 * digit_val h1 + digit_val h2) + 10 * digit_val m1 + digit_val m2))
               in Some (False, if sg = CHR ''-'' then - off else off)
          else None
      | _ \<Rightarrow> None))"

definition time_Parse :: "string \<Rightarrow> (bool \<times> int) option" where
  "time_Parse s =
     Option.bind (two_digits s) (\<lambda>(y1, s). Option.bind (two_digits s) (\<lambda>(y2, s).
     Option.bind (expect CHR ''-'' s) (\<lambda>s. Option.bind (two_digits s) (\<lambda>(mo, s).
     Option.bind (expect CHR ''-'' s) (\<lambda>s. Option.bind (two_digits s) (\<lambda>(d, s).
     Option.bind (expect CHR ''T'' s) (\<lambda>s. Option.bind (one_or_two_digits s) (\<lambda>(h, s).
     Option.bind (expect CHR '':'' s) (\<lambda>s. Option.bind (two_digits s) (\<lambda>(mi, s).
     Option.bind (expect CHR '':'' s) (\<lambda>s. Option.bind (two_digits s) (\<lambda>(sec, s).
       let (ns, z) = parse_fraction s; y = 100 * y1 + y2 in
       Option.bind (parse_zone z) (\<lambda>(utc, off).
         if 1 \<le> mo \<and> mo \<le> 12 \<and> 1 \<le> d \<and> d \<le> days_in mo y \<and> h < 24 \<and> mi < 60 \<and> sec < 60
         then Some (utc, 1000000000 * (86400 * day_number y mo d + int (3600 * h + 60 * mi + sec) - off)
                + int ns)
         else None)))))))))))))"

text \<open>The instant of a time the code demands in UTC: RFC 3339 with the letter \<open>Z\<close>
  (the three conditions of \<open>record.Validate\<close> and \<open>evidence.utc\<close>).\<close>

definition utc_time :: "string \<Rightarrow> int option" where
  "utc_time s = (case time_Parse s of
     Some (True, t) \<Rightarrow> if has_suffix s ''Z'' then Some t else None
   | _ \<Rightarrow> None)"

lemma time_example: "utc_time ''2026-01-02T03:04:05.5Z'' \<noteq> None"
  by (simp add: utc_time_def time_Parse_def two_digits_def one_or_two_digits_def expect_def is_digit_def
      digit_val_def position_def parse_fraction_def parse_zone_def days_in_def has_suffix_def)

end
