(* ===== verification/Sha256.thy ===== *)
theory Sha256
  imports GoLib
begin

unbundle bit_operations_syntax

text \<open>
  \<open>crypto/sha256\<close> and \<open>hex.EncodeToString\<close> as the program uses them: the FIPS 180-4 digest
  of a byte string, in lower-case hexadecimal. Approval, attempt, record and transaction
  identities are such digests. The development never assumes that digests of different contents
  differ: where the code concludes equality of contents from equality of digests, the theorems
  conclude equality of digests, or name the pair that would collide.
\<close>

type_synonym u32 = "32 word"

definition rotr :: "nat \<Rightarrow> u32 \<Rightarrow> u32" where
  "rotr n x = drop_bit n x OR push_bit (32 - n) x"

definition sha_k :: "u32 list" where
  "sha_k = [
    1116352408, 1899447441, 3049323471, 3921009573, 961987163, 1508970993,
    2453635748, 2870763221, 3624381080, 310598401, 607225278, 1426881987,
    1925078388, 2162078206, 2614888103, 3248222580, 3835390401, 4022224774,
    264347078, 604807628, 770255983, 1249150122, 1555081692, 1996064986,
    2554220882, 2821834349, 2952996808, 3210313671, 3336571891, 3584528711,
    113926993, 338241895, 666307205, 773529912, 1294757372, 1396182291,
    1695183700, 1986661051, 2177026350, 2456956037, 2730485921, 2820302411,
    3259730800, 3345764771, 3516065817, 3600352804, 4094571909, 275423344,
    430227734, 506948616, 659060556, 883997877, 958139571, 1322822218,
    1537002063, 1747873779, 1955562222, 2024104815, 2227730452, 2361852424,
    2428436474, 2756734187, 3204031479, 3329325298]"

type_synonym sha_state = "u32 \<times> u32 \<times> u32 \<times> u32 \<times> u32 \<times> u32 \<times> u32 \<times> u32"

definition sha_init :: sha_state where
  "sha_init = (1779033703, 3144134277, 1013904242, 2773480762,
               1359893119, 2600822924, 528734635, 1541459225)"

text \<open>The message schedule, kept as a window of the last sixteen words.\<close>

fun sha_schedule :: "nat \<Rightarrow> u32 list \<Rightarrow> u32 list" where
  "sha_schedule 0 w = w"
| "sha_schedule (Suc n) w =
     (case w of
        w0 # w1 # rest \<Rightarrow>
          let w9 = rest ! 7; w14 = rest ! 12;
              s0 = rotr 7 w1 XOR rotr 18 w1 XOR drop_bit 3 w1;
              s1 = rotr 17 w14 XOR rotr 19 w14 XOR drop_bit 10 w14
          in w0 # sha_schedule n (w1 # rest @ [w0 + s0 + w9 + s1])
      | _ \<Rightarrow> w)"

definition sha_round :: "sha_state \<Rightarrow> u32 \<times> u32 \<Rightarrow> sha_state" where
  "sha_round st kw =
     (let (a, b, c, d, e, f, g, h) = st;
          s1 = rotr 6 e XOR rotr 11 e XOR rotr 25 e;
          ch = (e AND f) XOR (NOT e AND g);
          t1 = h + s1 + ch + fst kw + snd kw;
          s0 = rotr 2 a XOR rotr 13 a XOR rotr 22 a;
          maj = (a AND b) XOR (a AND c) XOR (b AND c);
          t2 = s0 + maj
      in (t1 + t2, a, b, c, d + t1, e, f, g))"

definition sha_block :: "sha_state \<Rightarrow> u32 list \<Rightarrow> sha_state" where
  "sha_block st w =
     (let (a, b, c, d, e, f, g, h) = st;
          (a', b', c', d', e', f', g', h') = foldl sha_round st (zip sha_k (sha_schedule 48 w))
      in (a + a', b + b', c + c', d + d', e + e', f + f', g + g', h + h'))"

fun be_words :: "string \<Rightarrow> u32 list" where
  "be_words (a # b # c # d # r) =
     (of_nat (of_char a) * 16777216 + of_nat (of_char b) * 65536 + of_nat (of_char c) * 256
        + of_nat (of_char d)) # be_words r"
| "be_words _ = []"

text \<open>Big-endian bytes of a number, in a fixed width (a longer number loses its high bytes).\<close>

fun be_bytes :: "nat \<Rightarrow> nat \<Rightarrow> string" where
  "be_bytes 0 n = []"
| "be_bytes (Suc k) n = be_bytes k (n div 256) @ [char_of (n mod 256)]"

definition sha_pad :: "string \<Rightarrow> string" where
  "sha_pad m =
     m @ [CHR 0x80] @ replicate ((119 - length m mod 64) mod 64) (CHR 0x00)
       @ be_bytes 8 (8 * length m)"

fun sha_blocks :: "nat \<Rightarrow> sha_state \<Rightarrow> u32 list \<Rightarrow> sha_state" where
  "sha_blocks 0 st w = st"
| "sha_blocks (Suc n) st w = sha_blocks n (sha_block st (take 16 w)) (drop 16 w)"

definition hex_digit :: "nat \<Rightarrow> char" where
  "hex_digit n = ''0123456789abcdef'' ! n"

text \<open>Eight hexadecimal digits of a word.\<close>

definition word_hex :: "u32 \<Rightarrow> string" where
  "word_hex x = map (\<lambda>i. hex_digit (unat (drop_bit (4 * i) x AND 15))) [7, 6, 5, 4, 3, 2, 1, 0]"

definition state_words :: "sha_state \<Rightarrow> u32 list" where
  "state_words st = (let (a, b, c, d, e, f, g, h) = st in [a, b, c, d, e, f, g, h])"

definition sha256_hex :: "string \<Rightarrow> string" where
  "sha256_hex m =
     (let w = be_words (sha_pad m)
      in concat (map word_hex (state_words (sha_blocks (length w div 16) sha_init w))))"

subsection \<open>The shape of a digest\<close>

lemma hex_digit_cases: "n < 16 \<Longrightarrow> hex_digit n \<in> set ''0123456789abcdef''"
  unfolding hex_digit_def by (rule nth_mem) simp

lemma low_nibble: "unat (x AND 15 :: u32) < 16"
proof -
  have "x AND 15 \<le> (15 :: u32)" by (rule word_and_le1)
  then show ?thesis by (simp add: word_le_nat_alt)
qed

lemma word_hex_digits: "set (word_hex x) \<subseteq> set ''0123456789abcdef''"
  unfolding word_hex_def set_map by (intro image_subsetI hex_digit_cases low_nibble)

lemma word_hex_length [simp]: "length (word_hex x) = 8"
  unfolding word_hex_def length_map by simp

lemma state_words_length: "length (state_words st) = 8"
  by (simp add: state_words_def split: prod.splits)

lemma sha256_hex_length [simp]: "length (sha256_hex m) = 64"
  by (simp add: sha256_hex_def length_concat comp_def sum_list_triv state_words_length Let_def)

lemma sha256_hex_digits: "set (sha256_hex m) \<subseteq> set ''0123456789abcdef''"
  unfolding sha256_hex_def Let_def set_concat set_map using word_hex_digits by blast

lemma sha256_hex_ne [simp]: "sha256_hex m \<noteq> []"
  using sha256_hex_length [of m] by (metis list.size(3) zero_neq_numeral)

lemma hex_val_digit: "c \<in> set ''0123456789abcdef'' \<Longrightarrow> \<exists>v. hex_val c = Some v"
  by (auto simp: hex_val_def is_digit_def)

lemma hex_decode_total:
  "set s \<subseteq> set ''0123456789abcdef'' \<Longrightarrow> even (length s) \<Longrightarrow> \<exists>b. hex_decode s = Some b"
proof (induction s rule: hex_decode.induct)
  case (3 c d s)
  obtain b where "hex_decode s = Some b" using 3 by auto
  moreover obtain x where "hex_val c = Some x" using 3 hex_val_digit [of c] by auto
  moreover obtain y where "hex_val d = Some y" using 3 hex_val_digit [of d] by auto
  ultimately show ?case by simp
qed auto

lemma lower_hex_chars:
  assumes "set s \<subseteq> set ''0123456789abcdef''" shows "lower_case s = s"
proof -
  have "to_lower c = c" if "c \<in> set s" for c
  proof -
    have "c \<in> set ''0123456789abcdef''" using assms that by blast
    then show ?thesis by (auto simp: to_lower_def is_upper_def)
  qed
  then show ?thesis by (simp add: lower_case_def map_idI)
qed

lemma lower_hex_sha256 [simp]: "lower_hex (sha256_hex m)"
  using hex_decode_total [OF sha256_hex_digits, of m] lower_hex_chars [OF sha256_hex_digits, of m]
  by (auto simp: lower_hex_def)

end
