(* ===== verification/GoJson.thy ===== *)
theory GoJson
  imports Sha256 Failure
begin

text \<open>
  What the program uses of \<open>encoding/json\<close>. A \<open>json.RawMessage\<close> in memory is always one
  valid value, and is modelled by the value: objects keep the order and the repetitions of their
  keys, numbers their literal. The first half is the library: the compact encoding with its escapes
  and the decoding of an object into a struct. The second half is the program's own
  \<open>rejectDuplicateKeys\<close> (\<open>record.go\<close>, \<open>state.go\<close>, \<open>evidence.go\<close>), a walk over the
  decoder's token stream.
\<close>

datatype json =
    JNull
  | JBool bool
  | JNum string
  | JStr string
  | JArr "json list"
  | JObj "(string \<times> json) list"

subsection \<open>Encoding\<close>

definition byte :: "char \<Rightarrow> nat" where
  "byte c = of_char c"

definition cont_byte :: "char \<Rightarrow> bool" where
  "cont_byte c \<longleftrightarrow> 128 \<le> byte c \<and> byte c < 192"

text \<open>The length of the valid UTF-8 sequence at the head of a string, 0 for none.\<close>

definition utf8_len :: "string \<Rightarrow> nat" where
  "utf8_len s = (case s of
     [] \<Rightarrow> 0
   | a # r \<Rightarrow>
     if byte a < 128 then 1
     else (case r of
       [] \<Rightarrow> 0
     | b # r2 \<Rightarrow>
       if 194 \<le> byte a \<and> byte a < 224 then (if cont_byte b then 2 else 0)
       else (case r2 of
         [] \<Rightarrow> 0
       | c # r3 \<Rightarrow>
         if 224 \<le> byte a \<and> byte a < 240 then
           (if cont_byte b \<and> cont_byte c \<and> (byte a = 224 \<longrightarrow> 160 \<le> byte b) \<and>
               (byte a = 237 \<longrightarrow> byte b < 160) then 3 else 0)
         else (case r3 of
           [] \<Rightarrow> 0
         | d # _ \<Rightarrow>
           if 240 \<le> byte a \<and> byte a < 245 \<and> cont_byte b \<and> cont_byte c \<and> cont_byte d \<and>
              (byte a = 240 \<longrightarrow> 144 \<le> byte b) \<and> (byte a = 244 \<longrightarrow> byte b < 144)
           then 4 else 0))))"

definition esc_char :: "char \<Rightarrow> string" where
  "esc_char c =
     (if c = CHR 0x22 then [CHR 0x5C, CHR 0x22]
      else if c = CHR 0x5C then [CHR 0x5C, CHR 0x5C]
      else if c = CHR 0x08 then [CHR 0x5C, CHR ''b'']
      else if c = CHR 0x0C then [CHR 0x5C, CHR ''f'']
      else if c = CHR 0x0A then [CHR 0x5C, CHR ''n'']
      else if c = CHR 0x0D then [CHR 0x5C, CHR ''r'']
      else if c = CHR 0x09 then [CHR 0x5C, CHR ''t'']
      else if byte c < 32 \<or> c \<in> {CHR ''<'', CHR ''>'', CHR ''&''} then
        [CHR 0x5C, CHR ''u'', CHR ''0'', CHR ''0'', hex_digit (byte c div 16), hex_digit (byte c mod 16)]
      else [c])"

function json_escape :: "string \<Rightarrow> string" where
  "json_escape [] = []"
| "json_escape (c # cs) =
     (if byte c < 128 then esc_char c @ json_escape cs
      else let n = utf8_len (c # cs) in
        if n = 0 then CHR 0x5C # ''ufffd'' @ json_escape cs
        else if take 3 (c # cs) = [CHR 0xE2, CHR 0x80, CHR 0xA8] then
          CHR 0x5C # ''u2028'' @ json_escape (drop 3 (c # cs))
        else if take 3 (c # cs) = [CHR 0xE2, CHR 0x80, CHR 0xA9] then
          CHR 0x5C # ''u2029'' @ json_escape (drop 3 (c # cs))
        else take n (c # cs) @ json_escape (drop n (c # cs)))"
  by pat_completeness auto
termination
  by (relation "measure length") auto

definition json_string :: "string \<Rightarrow> string" where
  "json_string s = CHR 0x22 # json_escape s @ [CHR 0x22]"

fun json_bytes :: "json \<Rightarrow> string"
and json_items :: "json list \<Rightarrow> string list"
and json_fields :: "(string \<times> json) list \<Rightarrow> string list" where
  "json_bytes JNull = ''null''"
| "json_bytes (JBool b) = (if b then ''true'' else ''false'')"
| "json_bytes (JNum n) = n"
| "json_bytes (JStr s) = json_string s"
| "json_bytes (JArr vs) = CHR ''['' # join_with CHR '','' (json_items vs) @ '']''"
| "json_bytes (JObj kvs) = CHR ''{'' # join_with CHR '','' (json_fields kvs) @ ''}''"
| "json_items [] = []"
| "json_items (v # vs) = json_bytes v # json_items vs"
| "json_fields [] = []"
| "json_fields ((k, v) # kvs) = (json_string k @ CHR '':'' # json_bytes v) # json_fields kvs"

text \<open>Decoding to \<open>any\<close> and encoding again (\<open>canonicalPayload\<close>): maps are written with
  sorted keys, and the last value of a repeated key wins.\<close>

fun json_canon :: "json \<Rightarrow> json"
and canon_items :: "json list \<Rightarrow> json list"
and canon_fields :: "(string \<times> json) list \<Rightarrow> (string \<times> json) list \<Rightarrow> (string \<times> json) list" where
  "json_canon (JArr vs) = JArr (canon_items vs)"
| "json_canon (JObj kvs) = JObj (sort_key fst (canon_fields kvs []))"
| "json_canon JNull = JNull"
| "json_canon (JBool b) = JBool b"
| "json_canon (JNum n) = JNum n"
| "json_canon (JStr s) = JStr s"
| "canon_items [] = []"
| "canon_items (v # vs) = json_canon v # canon_items vs"
| "canon_fields [] acc = acc"
| "canon_fields ((k, v) # kvs) acc = canon_fields kvs (AList.update k (json_canon v) acc)"

definition json_nat :: "nat \<Rightarrow> json" where
  "json_nat n = JNum (show_nat n)"

definition json_u64 :: "u64 \<Rightarrow> json" where
  "json_u64 w = json_nat (unat w)"

definition json_strings :: "string list \<Rightarrow> json" where
  "json_strings ss = JArr (map JStr ss)"

definition omit_empty :: "string \<Rightarrow> string \<Rightarrow> (string \<times> json) list" where
  "omit_empty k s = (if s = [] then [] else [(k, JStr s)])"

subsection \<open>Decoding into a struct\<close>

text \<open>The text of a library error is not modelled further.\<close>

definition json_error :: error where
  "json_error = Failed [Str ''encoding/json'']"

text \<open>A key names the field of that exact name, else the first equal up to the case of ASCII
  letters. Unknown keys are refused when \<open>DisallowUnknownFields\<close> is set, a \<open>null\<close> leaves
  the field as it is.\<close>

definition find_field :: "string list \<Rightarrow> string \<Rightarrow> string option" where
  "find_field names k =
     (if k \<in> set names then Some k else find (\<lambda>n. lower_case n = lower_case k) names)"

fun decode_fields :: "bool \<Rightarrow> string list \<Rightarrow> json gomap \<Rightarrow> (string \<times> json) list \<Rightarrow> json gomap option" where
  "decode_fields strict names acc [] = Some acc"
| "decode_fields strict names acc ((k, v) # kvs) =
     (case find_field names k of
        None \<Rightarrow> if strict then None else decode_fields strict names acc kvs
      | Some n \<Rightarrow> decode_fields strict names (if v = JNull then acc else AList.update n v acc) kvs)"

definition decode_object :: "bool \<Rightarrow> string list \<Rightarrow> json \<Rightarrow> json gomap option" where
  "decode_object strict names v = (case v of
     JObj kvs \<Rightarrow> decode_fields strict names [] kvs
   | JNull \<Rightarrow> Some []
   | _ \<Rightarrow> None)"

definition field_string :: "json gomap \<Rightarrow> string \<Rightarrow> string option" where
  "field_string m k = (case map_of m k of None \<Rightarrow> Some [] | Some (JStr s) \<Rightarrow> Some s | Some _ \<Rightarrow> None)"

definition field_bool :: "json gomap \<Rightarrow> string \<Rightarrow> bool option" where
  "field_bool m k = (case map_of m k of None \<Rightarrow> Some False | Some (JBool b) \<Rightarrow> Some b | Some _ \<Rightarrow> None)"

definition num_u64 :: "string \<Rightarrow> u64 option" where
  "num_u64 s = (case parse_nat s of
     None \<Rightarrow> None | Some n \<Rightarrow> if n < 18446744073709551616 then Some (of_nat n) else None)"

definition field_u64 :: "json gomap \<Rightarrow> string \<Rightarrow> u64 option" where
  "field_u64 m k = (case map_of m k of None \<Rightarrow> Some 0 | Some (JNum s) \<Rightarrow> num_u64 s | Some _ \<Rightarrow> None)"

text \<open>A field of Go type \<open>int\<close>.\<close>

definition num_int :: "string \<Rightarrow> int option" where
  "num_int s = (case s of
     [] \<Rightarrow> None
   | c # r \<Rightarrow>
       if c = CHR ''-'' then
         (case parse_nat r of
            None \<Rightarrow> None | Some n \<Rightarrow> if n \<le> 9223372036854775808 then Some (- int n) else None)
       else (case parse_nat s of
            None \<Rightarrow> None | Some n \<Rightarrow> if n < 9223372036854775808 then Some (int n) else None))"

definition field_int :: "json gomap \<Rightarrow> string \<Rightarrow> int option" where
  "field_int m k = (case map_of m k of None \<Rightarrow> Some 0 | Some (JNum s) \<Rightarrow> num_int s | Some _ \<Rightarrow> None)"

fun string_items :: "json list \<Rightarrow> string list option" where
  "string_items [] = Some []"
| "string_items (v # vs) =
     (case (case v of JStr s \<Rightarrow> Some s | JNull \<Rightarrow> Some [] | _ \<Rightarrow> None, string_items vs) of
        (Some s, Some ss) \<Rightarrow> Some (s # ss)
      | _ \<Rightarrow> None)"

definition field_strings :: "json gomap \<Rightarrow> string \<Rightarrow> string list option" where
  "field_strings m k = (case map_of m k of
     None \<Rightarrow> Some [] | Some (JArr vs) \<Rightarrow> string_items vs | Some _ \<Rightarrow> None)"

lemma num_u64_show [simp]: "num_u64 (show_nat (unat w)) = Some w"
proof -
  have "unat w < 18446744073709551616" using unsigned_less [of w] by simp
  then show ?thesis by (simp add: num_u64_def)
qed

lemma string_items_strings [simp]: "string_items (map JStr ss) = Some ss"
  by (induction ss) auto

lemma find_field_member [simp]: "k \<in> set names \<Longrightarrow> find_field names k = Some k"
  by (simp add: find_field_def)

lemma decode_fields_distinct:
  assumes "distinct (map fst kvs)" and "set (map fst kvs) \<subseteq> set names"
    and "\<forall>(k, v) \<in> set kvs. v \<noteq> JNull" and "fst ` set acc \<inter> fst ` set kvs = {}"
  shows "decode_fields strict names acc kvs = Some (acc @ kvs)"
  using assms
proof (induction kvs arbitrary: acc)
  case (Cons kv kvs)
  obtain k v where kv: "kv = (k, v)" by fastforce
  have "k \<notin> fst ` set acc" using Cons.prems kv by auto
  then have "AList.update k v acc = acc @ [(k, v)]"
    by (induction acc) auto
  with Cons kv show ?case by auto
qed simp

lemma num_int_show [simp]:
  assumes "- 9223372036854775808 \<le> i" and "i < 9223372036854775808"
  shows "num_int (show_int i) = Some i"
proof (cases "i < 0")
  case True
  then show ?thesis using assms by (simp add: show_int_def num_int_def)
next
  case False
  have "hd (show_nat (nat i)) \<noteq> CHR ''-''"
    using show_nat_digits [of "hd (show_nat (nat i))" "nat i"] by (auto simp: is_digit_def)
  then obtain c r where "show_nat (nat i) = c # r" "c \<noteq> CHR ''-''"
    by (metis list.collapse show_nat_ne)
  moreover have "parse_nat (show_nat (nat i)) = Some (nat i)" by simp
  ultimately show ?thesis using assms False by (simp add: show_int_def num_int_def)
qed

subsection \<open>Duplicate keys\<close>

text \<open>The decoder's tokens. \<open>TErr\<close> is a syntax error at that point; the end of the list is
  \<open>io.EOF\<close>.\<close>

datatype token = TOpenObj | TCloseObj | TOpenArr | TCloseArr | TString string | TScalar | TErr

fun tokens :: "json \<Rightarrow> token list"
and item_tokens :: "json list \<Rightarrow> token list"
and field_tokens :: "(string \<times> json) list \<Rightarrow> token list" where
  "tokens JNull = [TScalar]"
| "tokens (JBool b) = [TScalar]"
| "tokens (JNum n) = [TScalar]"
| "tokens (JStr s) = [TString s]"
| "tokens (JArr vs) = TOpenArr # item_tokens vs @ [TCloseArr]"
| "tokens (JObj kvs) = TOpenObj # field_tokens kvs @ [TCloseObj]"
| "item_tokens [] = []"
| "item_tokens (v # vs) = tokens v @ item_tokens vs"
| "field_tokens [] = []"
| "field_tokens ((k, v) # kvs) = TString k # tokens v @ field_tokens kvs"

text \<open>\<open>decoder.More\<close>: another element follows in the open array or object.\<close>

fun more :: "token list \<Rightarrow> bool" where
  "more [] = False"
| "more (TCloseObj # _) = False"
| "more (TCloseArr # _) = False"
| "more (TErr # _) = False"
| "more _ = True"

definition duplicate_key :: "string \<Rightarrow> error" where
  "duplicate_key k = Failed [Str ''duplicate JSON key '', Quo k]"

text \<open>The recursive closure \<open>walk\<close> and its two loops. Every call takes a token off the stream,
  so the number of tokens is fuel enough (\<open>rejectDuplicateKeys_iff\<close> is about the full function).\<close>

fun walk :: "nat \<Rightarrow> token list \<Rightarrow> error + token list"
and walk_fields :: "nat \<Rightarrow> string list \<Rightarrow> token list \<Rightarrow> error + token list"
and walk_items :: "nat \<Rightarrow> token list \<Rightarrow> error + token list" where
  "walk 0 ts = Inl (Panicked [Str ''out of fuel''])"
| "walk (Suc n) ts = (case ts of
     [] \<Rightarrow> Inl json_error
   | TErr # _ \<Rightarrow> Inl json_error
   | TOpenObj # r \<Rightarrow> walk_fields n [] r
   | TOpenArr # r \<Rightarrow> walk_items n r
   | TCloseObj # _ \<Rightarrow> Inl (Failed [Str ''unexpected JSON delimiter''])
   | TCloseArr # _ \<Rightarrow> Inl (Failed [Str ''unexpected JSON delimiter''])
   | _ # r \<Rightarrow> Inr r)"
| "walk_fields 0 seen ts = Inl (Panicked [Str ''out of fuel''])"
| "walk_fields (Suc n) seen ts =
     (if more ts then
        (case ts of
           TString k # r \<Rightarrow>
             if k \<in> set seen then Inl (duplicate_key k)
             else bindE (walk n r) (walk_fields n (k # seen))
         | _ \<Rightarrow> Inl (Failed [Str ''invalid object key'']))
      else (case ts of [] \<Rightarrow> Inl json_error | TErr # _ \<Rightarrow> Inl json_error | _ # r \<Rightarrow> Inr r))"
| "walk_items 0 ts = Inl (Panicked [Str ''out of fuel''])"
| "walk_items (Suc n) ts =
     (if more ts then bindE (walk n ts) (walk_items n)
      else (case ts of [] \<Rightarrow> Inl json_error | TErr # _ \<Rightarrow> Inl json_error | _ # r \<Rightarrow> Inr r))"

definition rejectDuplicateKeys :: "token list \<Rightarrow> error + unit" where
  "rejectDuplicateKeys ts =
     bindE (walk (Suc (length ts)) ts) (\<lambda>rest. case rest of
       [] \<Rightarrow> Inr ()
     | TErr # _ \<Rightarrow> Inl json_error
     | _ \<Rightarrow> Inl (Failed [Str ''multiple JSON values'']))"

text \<open>The condition the walk decides, on the value: no object repeats a key, at any depth.\<close>

fun keys_distinct :: "json \<Rightarrow> bool"
and items_distinct :: "json list \<Rightarrow> bool"
and fields_distinct :: "(string \<times> json) list \<Rightarrow> bool" where
  "keys_distinct (JArr vs) = items_distinct vs"
| "keys_distinct (JObj kvs) = (distinct (map fst kvs) \<and> fields_distinct kvs)"
| "keys_distinct JNull = True"
| "keys_distinct (JBool b) = True"
| "keys_distinct (JNum n) = True"
| "keys_distinct (JStr s) = True"
| "items_distinct [] = True"
| "items_distinct (v # vs) = (keys_distinct v \<and> items_distinct vs)"
| "fields_distinct [] = True"
| "fields_distinct ((k, v) # kvs) = (keys_distinct v \<and> fields_distinct kvs)"

lemma tokens_more: "more (tokens v @ r)"
  by (cases v) auto

lemma tokens_pos: "0 < length (tokens v)"
  by (cases v) auto

lemma walk_leaf:
  "Suc 0 \<le> n \<Longrightarrow> walk n (TScalar # r) = Inr r"
  "Suc 0 \<le> n \<Longrightarrow> walk n (TString s # r) = Inr r"
  "0 < n \<Longrightarrow> walk_items n (TCloseArr # r) = Inr r"
  "0 < n \<Longrightarrow> walk_fields n seen (TCloseObj # r) = Inr r"
  by (cases n; simp)+

text \<open>On the tokens of a value followed by any rest, the walk succeeds exactly on distinct keys,
  leaves the rest, and otherwise reports a duplicate.\<close>

lemma walk_tokens:
  shows "length (tokens v) \<le> n \<Longrightarrow>
      (if keys_distinct v then walk n (tokens v @ r) = Inr r
       else \<exists>k. walk n (tokens v @ r) = Inl (duplicate_key k))"
    and "length (item_tokens vs) < n \<Longrightarrow>
      (if items_distinct vs then walk_items n (item_tokens vs @ TCloseArr # r) = Inr r
       else \<exists>k. walk_items n (item_tokens vs @ TCloseArr # r) = Inl (duplicate_key k))"
    and "length (field_tokens kvs) < n \<Longrightarrow>
      (if distinct (map fst kvs) \<and> set seen \<inter> fst ` set kvs = {} \<and> fields_distinct kvs
       then walk_fields n seen (field_tokens kvs @ TCloseObj # r) = Inr r
       else \<exists>k. walk_fields n seen (field_tokens kvs @ TCloseObj # r) = Inl (duplicate_key k))"
proof (induction v and vs and kvs arbitrary: n r and n r and n r seen
    rule: tokens_item_tokens_field_tokens.induct)
  case (5 vs)
  then obtain m where n: "n = Suc m" by (cases n) auto
  with 5 show ?case using "5.IH" [of m r] by (auto split: if_splits)
next
  case (6 kvs)
  then obtain m where n: "n = Suc m" by (cases n) auto
  with 6 show ?case using "6.IH" [of m "[]" r] by (auto split: if_splits)
next
  case (8 v vs)
  then obtain m where n: "n = Suc m" by (cases n) auto
  have "length (tokens v) \<le> m" "length (item_tokens vs) < m"
    using 8(3) n tokens_pos [of v] by (cases "tokens v"; auto)+
  then show ?case
    using 8(1) [of m "item_tokens vs @ TCloseArr # r"] 8(2) [of m r] n
      tokens_more [of v "item_tokens vs @ TCloseArr # r"] by (auto split: if_splits)
next
  case (10 k v kvs)
  then obtain m where n: "n = Suc m" by (cases n) auto
  have "length (tokens v) \<le> m" "length (field_tokens kvs) < m"
    using 10(3) n tokens_pos [of v] by (cases "tokens v"; auto)+
  then show ?case
    using 10(1) [of m "field_tokens kvs @ TCloseObj # r"] 10(2) [of m "k # seen" r] n
    by (cases "k \<in> set seen"; cases "keys_distinct v") (auto split: if_splits)
qed (auto simp: walk_leaf)

text \<open>C30: The duplicate-key check accepts the token stream of one JSON value exactly when no object
  in it, at any depth, repeats a key; otherwise it names a duplicated key.\<close>
theorem rejectDuplicateKeys_iff:
  "if keys_distinct v then rejectDuplicateKeys (tokens v) = Inr ()
   else \<exists>k. rejectDuplicateKeys (tokens v) = Inl (duplicate_key k)"
  using walk_tokens(1) [of v "Suc (length (tokens v))" "[]"]
  by (auto simp: rejectDuplicateKeys_def split: if_splits)

end
