(* ===== verification/TaskActivity.thy ===== *)
theory TaskActivity
  imports GoJson
begin

text \<open>
  \<open>internal/core/taskactivity.go\<close>: the persisted activity of a task, the legal edges between
  activities, and the validated projection of the persisted activity object onto the canonical task
  ids. An activity is a Go string type, so any string can be asked about; five are valid.
\<close>

type_synonym task_activity = string

definition TaskPending :: task_activity where "TaskPending = ''pending''"
definition TaskInProgress :: task_activity where "TaskInProgress = ''in_progress''"
definition TaskCompleted :: task_activity where "TaskCompleted = ''completed''"
definition TaskFailed :: task_activity where "TaskFailed = ''failed''"
definition TaskBlocked :: task_activity where "TaskBlocked = ''blocked''"

lemmas activity_defs =
  TaskPending_def TaskInProgress_def TaskCompleted_def TaskFailed_def TaskBlocked_def

definition taskActivities :: "task_activity list" where
  "taskActivities = [TaskPending, TaskInProgress, TaskCompleted, TaskFailed, TaskBlocked]"

definition taskActivityTransitions :: "task_activity \<rightharpoonup> task_activity list" where
  "taskActivityTransitions = [
     TaskPending \<mapsto> [TaskInProgress, TaskBlocked],
     TaskInProgress \<mapsto> [TaskCompleted, TaskFailed],
     TaskFailed \<mapsto> [TaskInProgress, TaskBlocked],
     TaskBlocked \<mapsto> [TaskPending]]"

definition activity_Valid :: "task_activity \<Rightarrow> bool" where
  "activity_Valid a \<longleftrightarrow> a \<in> set taskActivities"

definition CanTransitionTaskActivity :: "task_activity \<Rightarrow> task_activity \<Rightarrow> bool" where
  "CanTransitionTaskActivity frm to \<longleftrightarrow>
     activity_Valid frm \<and> activity_Valid to \<and> to \<in> set (map_get [] taskActivityTransitions frm)"

definition NextTaskActivities :: "task_activity \<Rightarrow> task_activity list" where
  "NextTaskActivities frm =
     (if activity_Valid frm then map_get [] taskActivityTransitions frm else [])"

record activity_row =
  ar_ID :: string
  ar_Activity :: task_activity

definition invalidTaskActivity :: "string \<Rightarrow> msg \<Rightarrow> error" where
  "invalidTaskActivity path reason =
     refuse_owned ''author'' ''plan_invalid'' path reason
       [Str ''run status and repair invalid task activity'']"

text \<open>\<open>json.Unmarshal\<close> into a string type accepts a string, and leaves it empty for \<open>null\<close>.\<close>

definition unmarshal_string :: "json \<Rightarrow> string option" where
  "unmarshal_string raw = (case raw of JStr s \<Rightarrow> Some s | JNull \<Rightarrow> Some [] | _ \<Rightarrow> None)"

definition decodeTaskActivity :: "json \<Rightarrow> error + task_activity" where
  "decodeTaskActivity raw = (case unmarshal_string raw of
     None \<Rightarrow> Inl (Wrapped [Str ''decode task activity: ''] json_error)
   | Some a \<Rightarrow>
       if activity_Valid a then Inr a else Inl (Failed [Str ''unknown task activity '', Quo a]))"

definition ProjectTaskActivity :: "json gomap \<Rightarrow> string \<Rightarrow> error + task_activity" where
  "ProjectTaskActivity persisted i = (case map_of persisted i of
     None \<Rightarrow> Inr TaskPending
   | Some raw \<Rightarrow> decodeTaskActivity raw)"

definition task_message :: "string \<Rightarrow> error \<Rightarrow> msg" where
  "task_message i e = [Str ''task '', Quo i, Str '': ''] @ error_Error e"

fun known_ids :: "nat \<Rightarrow> string list \<Rightarrow> string list \<Rightarrow> error + string list" where
  "known_ids pos known [] = Inr known"
| "known_ids pos known (i # is) =
     (if i = [] then
        Inl (invalidTaskActivity [] [Str ''canonical task at authored position '', Dec (pos + 1), Str '' has empty id''])
      else if i \<in> set known then
        Inl (invalidTaskActivity i [Str ''canonical task id '', Quo i, Str '' is duplicated''])
      else known_ids (pos + 1) (i # known) is)"

fun check_persisted :: "string list \<Rightarrow> json gomap \<Rightarrow> string list \<Rightarrow> error + unit" where
  "check_persisted known persisted [] = Inr ()"
| "check_persisted known persisted (i # is) =
     (if i \<notin> set known then
        Inl (invalidTaskActivity i [Str ''persisted activity names unknown task '', Quo i])
      else (case decodeTaskActivity (map_get JNull (map_of persisted) i) of
          Inl e \<Rightarrow> Inl (invalidTaskActivity i (task_message i e))
        | Inr _ \<Rightarrow> check_persisted known persisted is))"

fun project_rows :: "json gomap \<Rightarrow> string list \<Rightarrow> error + activity_row list" where
  "project_rows persisted [] = Inr []"
| "project_rows persisted (i # is) =
     (case ProjectTaskActivity persisted i of
        Inl e \<Rightarrow> Inl (invalidTaskActivity i (task_message i e))
      | Inr a \<Rightarrow>
          bindE (project_rows persisted is) (\<lambda>rows. Inr (\<lparr>ar_ID = i, ar_Activity = a\<rparr> # rows)))"

definition ProjectTaskActivities :: "string list \<Rightarrow> json gomap \<Rightarrow> error + activity_row list" where
  "ProjectTaskActivities canonical persisted =
     bindE (known_ids 0 [] canonical) (\<lambda>known.
     bindE (check_persisted known persisted (gomap_keys persisted)) (\<lambda>_.
     project_rows persisted canonical))"

subsection \<open>Lemmas\<close>

lemma transitions_iff:
  "CanTransitionTaskActivity a b \<longleftrightarrow>
     (a, b) \<in> {(''pending'', ''in_progress''), (''pending'', ''blocked''), (''in_progress'', ''completed''),
       (''in_progress'', ''failed''), (''failed'', ''in_progress''), (''failed'', ''blocked''),
       (''blocked'', ''pending'')}"
proof -
  have dom: "map_get [] taskActivityTransitions a = []"
    if "a \<notin> {''pending'', ''in_progress'', ''failed'', ''blocked''}"
    using that by (simp add: map_get_def taskActivityTransitions_def activity_defs)
  show ?thesis
  proof (cases "a \<in> {''pending'', ''in_progress'', ''failed'', ''blocked''}")
    case True
    then show ?thesis
      by (elim insertE emptyE;
          simp add: CanTransitionTaskActivity_def activity_Valid_def taskActivities_def
            taskActivityTransitions_def activity_defs map_get_def; blast)
  next
    case False
    then show ?thesis using dom by (auto simp: CanTransitionTaskActivity_def)
  qed
qed

lemma decodeTaskActivity_ok: "decodeTaskActivity raw = Inr a \<longleftrightarrow> raw = JStr a \<and> activity_Valid a"
  by (cases raw) (auto simp: decodeTaskActivity_def unmarshal_string_def activity_Valid_def
      taskActivities_def activity_defs)

lemma known_ids_iff:
  "(\<exists>k. known_ids pos known is = Inr k) \<longleftrightarrow> [] \<notin> set is \<and> distinct is \<and> set is \<inter> set known = {}"
  by (induction pos known "is" rule: known_ids.induct) auto

lemma known_ids_set: "known_ids pos known is = Inr k \<Longrightarrow> set k = set known \<union> set is"
  by (induction pos known "is" rule: known_ids.induct) (auto split: if_splits)

text \<open>What it means for a persisted object to be a legal activity object over the canonical ids.\<close>

definition activities_ok :: "string list \<Rightarrow> json gomap \<Rightarrow> bool" where
  "activities_ok ids persisted \<longleftrightarrow>
     [] \<notin> set ids \<and> distinct ids \<and>
     (\<forall>i raw. map_of persisted i = Some raw \<longrightarrow> i \<in> set ids \<and> (\<exists>a. raw = JStr a \<and> activity_Valid a))"

definition activity_of :: "json gomap \<Rightarrow> string \<Rightarrow> task_activity" where
  "activity_of persisted i = (case map_of persisted i of
     None \<Rightarrow> TaskPending | Some raw \<Rightarrow> (case raw of JStr a \<Rightarrow> a | _ \<Rightarrow> []))"

lemma check_persisted_iff:
  "check_persisted known persisted is = Inr () \<longleftrightarrow>
     (\<forall>i \<in> set is. i \<in> set known \<and>
        (\<exists>a. map_get JNull (map_of persisted) i = JStr a \<and> activity_Valid a))"
proof (induction "is")
  case (Cons i "is")
  show ?case
  proof (cases "decodeTaskActivity (map_get JNull (map_of persisted) i)")
    case (Inl e)
    then have "decodeTaskActivity (map_get JNull (map_of persisted) i) \<noteq> Inr a" for a by simp
    then have "\<nexists>a. map_get JNull (map_of persisted) i = JStr a \<and> activity_Valid a"
      by (simp only: decodeTaskActivity_ok) blast
    with Inl show ?thesis by simp
  next
    case (Inr a)
    then have "map_get JNull (map_of persisted) i = JStr a" "activity_Valid a"
      by (simp_all only: decodeTaskActivity_ok)
    with Cons Inr show ?thesis by simp
  qed
qed simp

lemma project_rows_ok:
  assumes "\<forall>i raw. map_of persisted i = Some raw \<longrightarrow> (\<exists>a. raw = JStr a \<and> activity_Valid a)"
  shows "project_rows persisted is =
    Inr (map (\<lambda>i. \<lparr>ar_ID = i, ar_Activity = activity_of persisted i\<rparr>) is)"
proof (induction "is")
  case (Cons i "is")
  have "ProjectTaskActivity persisted i = Inr (activity_of persisted i)"
  proof (cases "map_of persisted i")
    case (Some raw)
    then obtain a where "raw = JStr a" "activity_Valid a" using assms by blast
    then show ?thesis
      using Some decodeTaskActivity_ok [of raw a] by (simp add: ProjectTaskActivity_def activity_of_def)
  qed (simp add: ProjectTaskActivity_def activity_of_def)
  with Cons show ?case by simp
qed simp

lemma ProjectTaskActivities_cases:
  "if activities_ok ids persisted
   then ProjectTaskActivities ids persisted =
     Inr (map (\<lambda>i. \<lparr>ar_ID = i, ar_Activity = activity_of persisted i\<rparr>) ids)
   else \<exists>e. ProjectTaskActivities ids persisted = Inl e"
proof (cases "known_ids 0 [] ids")
  case (Inl e)
  then have "\<not> activities_ok ids persisted"
    using known_ids_iff [of 0 "[]" ids] by (auto simp: activities_ok_def)
  with Inl show ?thesis by (simp add: ProjectTaskActivities_def)
next
  case (Inr k)
  have ids: "[] \<notin> set ids" "distinct ids" "set k = set ids"
    using Inr known_ids_iff [of 0 "[]" ids] known_ids_set [OF Inr] by auto
  have each: "(\<forall>i \<in> dom (map_of persisted). i \<in> set k \<and>
        (\<exists>a. map_get JNull (map_of persisted) i = JStr a \<and> activity_Valid a)) \<longleftrightarrow>
     (\<forall>i raw. map_of persisted i = Some raw \<longrightarrow> i \<in> set ids \<and> (\<exists>a. raw = JStr a \<and> activity_Valid a))"
    unfolding ids(3) by (rule ball_dom_map_get)
  have check: "check_persisted k persisted (gomap_keys persisted) = Inr () \<longleftrightarrow> activities_ok ids persisted"
    using ids(1,2) each by (simp only: check_persisted_iff activities_ok_def set_gomap_keys) simp
  show ?thesis
  proof (cases "activities_ok ids persisted")
    case True
    then have "project_rows persisted ids =
        Inr (map (\<lambda>i. \<lparr>ar_ID = i, ar_Activity = activity_of persisted i\<rparr>) ids)"
      by (intro project_rows_ok) (simp add: activities_ok_def)
    then show ?thesis using True Inr check by (simp add: ProjectTaskActivities_def)
  next
    case False
    then have "check_persisted k persisted (gomap_keys persisted) \<noteq> Inr ()" by (simp only: check simp_thms)
    then obtain e where "check_persisted k persisted (gomap_keys persisted) = Inl e"
      by (cases "check_persisted k persisted (gomap_keys persisted)") simp_all
    then show ?thesis using False Inr by (simp add: ProjectTaskActivities_def)
  qed
qed

text \<open>The activity projection succeeds exactly when the canonical ids are named and unique and
  every persisted entry is a valid activity of a canonical task; its rows are then the canonical ids
  in order, absent entries reading as pending. Anything else is refused.\<close>
theorem ProjectTaskActivities_correct:
  "if activities_ok ids persisted
   then ProjectTaskActivities ids persisted =
     Inr (map (\<lambda>i. \<lparr>ar_ID = i, ar_Activity = activity_of persisted i\<rparr>) ids)
   else \<exists>e. ProjectTaskActivities ids persisted = Inl e"
  by (rule ProjectTaskActivities_cases)

text \<open>A run of legal transitions.\<close>

fun activity_run :: "task_activity \<Rightarrow> task_activity list \<Rightarrow> bool" where
  "activity_run a [] = True"
| "activity_run a (b # bs) = (CanTransitionTaskActivity a b \<and> activity_run b bs)"

lemma activity_run_append:
  "activity_run a (xs @ ys) \<longleftrightarrow> activity_run a xs \<and> activity_run (last (a # xs)) ys"
  by (induction xs arbitrary: a) auto

text \<open>Completion is reached only from work in progress and is terminal: in any run of legal
  transitions a completed activity is the last one, and directly preceded by in_progress.\<close>
theorem completed_is_terminal:
  assumes "activity_run a (xs @ TaskCompleted # ys)"
  shows "ys = [] \<and> last (a # xs) = TaskInProgress"
proof -
  from assms have "CanTransitionTaskActivity (last (a # xs)) TaskCompleted" and "activity_run TaskCompleted ys"
    by (simp_all only: activity_run_append activity_run.simps)
  then show ?thesis
    by (cases ys) (auto simp: transitions_iff activity_defs)
qed

theorem completed_is_terminal_witness:
  "activity_run TaskPending ([TaskBlocked, TaskPending, TaskInProgress] @ TaskCompleted # []) \<and>
   last (TaskPending # [TaskBlocked, TaskPending, TaskInProgress]) = TaskInProgress"
proof -
  have run: "activity_run TaskPending ([TaskBlocked, TaskPending, TaskInProgress] @ TaskCompleted # [])"
    by (simp add: transitions_iff activity_defs)
  with completed_is_terminal [OF run] show ?thesis by blast
qed

end
