(* ===== verification/Segments.thy ===== *)
theory Segments
  imports GoLib Failure
begin

text \<open>
  Names and managed paths of \<open>internal/core/path/path.go\<close> that need no file system: the
  segment pattern, the reserved and device names, and the layout of the managed tree under
  \<open>.specd\<close>. \<open>filepath.Join\<close> of a clean directory with one segment is the directory, a
  slash and the segment.
\<close>

definition lower_digit :: "char \<Rightarrow> bool" where
  "lower_digit c \<longleftrightarrow> is_lower c \<or> is_digit c"

text \<open>\<open>^[a-z0-9]+(?:-[a-z0-9]+)*$\<close>: the parts between dashes are not empty.\<close>

definition segmentPattern :: "string \<Rightarrow> bool" where
  "segmentPattern s \<longleftrightarrow> list_all (\<lambda>p. p \<noteq> [] \<and> list_all lower_digit p) (split_on CHR ''-'' s)"

definition reserved :: "string list" where
  "reserved = [''archive'', ''changes'', ''evidence'', ''history'', ''specs'', ''state'']"

definition windowsDeviceName :: "string \<Rightarrow> bool" where
  "windowsDeviceName s \<longleftrightarrow>
     s = ''con'' \<or> s = ''prn'' \<or> s = ''aux'' \<or> s = ''nul'' \<or>
     (length s = 4 \<and> (has_prefix s ''com'' \<or> has_prefix s ''lpt'') \<and> s ! 3 \<in> set ''123456789'')"

definition ValidateSegment :: "string \<Rightarrow> error + unit" where
  "ValidateSegment s =
     (if \<not> segmentPattern s then
        Inl (refuse ''unsafe_segment'' [] s [Str ''name must be lowercase kebab-case'']
               [Str ''choose another name''])
      else if s \<in> set reserved \<or> windowsDeviceName s then
        Inl (refuse ''reserved_segment'' [] s [Str ''name is reserved for managed state'']
               [Str ''choose another name''])
      else Inr ())"

record owner =
  own_root :: string
  own_managed :: string

definition path_join :: "string \<Rightarrow> string \<Rightarrow> string" where
  "path_join dir seg = dir @ CHR ''/'' # seg"

definition mk_owner :: "string \<Rightarrow> owner" where
  "mk_owner root = \<lparr>own_root = root, own_managed = path_join root ''.specd''\<rparr>"

definition Specs :: "owner \<Rightarrow> string" where "Specs o' = path_join (own_managed o') ''specs''"
definition Changes :: "owner \<Rightarrow> string" where "Changes o' = path_join (own_managed o') ''changes''"
definition Archive :: "owner \<Rightarrow> string" where "Archive o' = path_join (own_managed o') ''archive''"
definition History :: "owner \<Rightarrow> string" where
  "History o' = path_join (own_managed o') ''history.jsonl''"
definition Evidence :: "owner \<Rightarrow> string" where
  "Evidence o' = path_join (own_managed o') ''evidence.jsonl''"
definition RootLock :: "owner \<Rightarrow> string" where
  "RootLock o' = path_join (own_managed o') ''.root.lock''"

subsection \<open>Safe segments\<close>

lemma segmentPattern_chars:
  "segmentPattern s \<Longrightarrow> c \<in> set s \<Longrightarrow> c = CHR ''-'' \<or> lower_digit c"
proof -
  assume p: "segmentPattern s" and c: "c \<in> set s"
  have "set s \<subseteq> {CHR ''-''} \<union> (\<Union>w \<in> set (split_on CHR ''-'' s). set w)"
  proof (induction s)
    case (Cons x s)
    then show ?case by (cases "split_on CHR ''-'' s") auto
  qed simp
  with c p show ?thesis by (auto simp: segmentPattern_def list_all_iff)
qed

lemma segment_no_slash: "ValidateSegment s = Inr () \<Longrightarrow> CHR ''/'' \<notin> set s \<and> CHR ''.'' \<notin> set s \<and> s \<noteq> []"
proof -
  assume "ValidateSegment s = Inr ()"
  then have p: "segmentPattern s" by (simp add: ValidateSegment_def split: if_splits)
  have "\<not> lower_digit CHR ''/''" "\<not> lower_digit CHR ''.''"
    by (simp_all add: lower_digit_def is_lower_def is_digit_def)
  then show ?thesis
    using segmentPattern_chars [OF p] p by (fastforce simp: segmentPattern_def)
qed

text \<open>A validated name cannot leave its directory: joined to a clean absolute directory it is the
  cleaned path of exactly one more element, never a traversal or a dot file.\<close>
theorem ValidateSegment_safe:
  assumes "ValidateSegment s = Inr ()"
  shows "split_on CHR ''/'' (path_join dir s) = split_on CHR ''/'' dir @ [s] \<and>
    s \<noteq> ''.'' \<and> s \<noteq> ''..'' \<and> \<not> has_prefix s ''.'' \<and> s \<notin> set reserved \<and> \<not> windowsDeviceName s"
proof -
  from segment_no_slash [OF assms] have s: "CHR ''/'' \<notin> set s" "CHR ''.'' \<notin> set s" "s \<noteq> []" by auto
  have "s \<notin> set reserved \<and> \<not> windowsDeviceName s"
    using assms by (simp add: ValidateSegment_def split: if_splits)
  moreover have "\<not> has_prefix s ''.''" using s(2) by (cases s) auto
  ultimately show ?thesis
    using s by (auto simp: path_join_def split_on_append_sep split_on_none)
qed

theorem ValidateSegment_safe_witness:
  "ValidateSegment ''add-dark-mode2'' = Inr () \<and>
   split_on CHR ''/'' (path_join ''/p/.specd/changes'' ''add-dark-mode2'') =
     split_on CHR ''/'' ''/p/.specd/changes'' @ [''add-dark-mode2'']"
proof -
  have ok: "ValidateSegment ''add-dark-mode2'' = Inr ()"
    by (simp add: ValidateSegment_def segmentPattern_def lower_digit_def is_lower_def is_digit_def
        reserved_def windowsDeviceName_def)
  with ValidateSegment_safe [OF ok, of "''/p/.specd/changes''"] show ?thesis by blast
qed

end
