(* ===== verification/Approval.thy ===== *)
theory Approval
  imports Segments GoJson
begin

text \<open>
  \<open>internal/core/approval.go\<close>: the lifecycle and its single successor relation, the approval
  record and its validation, the safety of covered paths, and the aggregate identity over the
  covered artifacts. Approval artifacts are sorted by path; each digest binds the path and the bytes
  through length-prefixed fields.
\<close>

type_synonym lifecycle = string

definition LifecyclePlanning :: lifecycle where "LifecyclePlanning = ''planning''"
definition LifecycleApproved :: lifecycle where "LifecycleApproved = ''approved''"
definition LifecycleExecuting :: lifecycle where "LifecycleExecuting = ''executing''"
definition LifecycleReconciling :: lifecycle where "LifecycleReconciling = ''reconciling''"
definition LifecycleArchived :: lifecycle where "LifecycleArchived = ''archived''"

lemmas lifecycle_defs =
  LifecyclePlanning_def LifecycleApproved_def LifecycleExecuting_def LifecycleReconciling_def
  LifecycleArchived_def

definition lifecycleSuccessor :: "lifecycle \<rightharpoonup> lifecycle" where
  "lifecycleSuccessor = [
     LifecyclePlanning \<mapsto> LifecycleApproved,
     LifecycleApproved \<mapsto> LifecycleExecuting,
     LifecycleExecuting \<mapsto> LifecycleReconciling,
     LifecycleReconciling \<mapsto> LifecycleArchived]"

definition ValidateApprovalTransition :: "lifecycle \<Rightarrow> lifecycle \<Rightarrow> error + unit" where
  "ValidateApprovalTransition frm to =
     (case lifecycleSuccessor frm of
        None \<Rightarrow>
          if frm = LifecycleArchived then
            Inl (refuse ''lifecycle_transition'' [] [] [Str ''archived lifecycle is terminal'']
                   [Str ''inspect the archived change''])
          else
            Inl (refuse ''lifecycle_transition'' [] [] [Str ''unknown lifecycle '', Quo frm]
                   [Str ''reload current lifecycle state''])
      | Some next \<Rightarrow>
          if next \<noteq> to then
            Inl (refuse ''lifecycle_transition'' [] []
                   [Str ''lifecycle '', Quo frm, Str '' requires exact successor '', Quo next, Str '', got '', Quo to]
                   [Str ''request approval for '', Str next])
          else Inr ())"

record approval_artifact =
  aa_Path :: string
  aa_Hash :: string

record approval_identity =
  ai_Artifacts :: "approval_artifact list"
  ai_AggregateHash :: string

record approval_record =
  ap_SchemaVersion :: int
  ap_ID :: string
  ap_Change :: string
  ap_Gate :: string
  ap_LifecycleFrom :: lifecycle
  ap_LifecycleTo :: lifecycle
  ap_Approver :: string
  ap_ActorClass :: string
  ap_Artifacts :: "approval_artifact list"
  ap_AggregateHash :: string
  ap_RegistryVersion :: string
  ap_PolicyDigest :: string
  ap_RevisionBefore :: u64
  ap_RevisionAfter :: u64
  ap_Timestamp :: string
  ap_Reason :: string
  ap_Assurance :: string

definition id_char :: "char \<Rightarrow> bool" where
  "id_char c \<longleftrightarrow> is_lower c \<or> is_upper c \<or> is_digit c"

definition recordIDPattern :: "string \<Rightarrow> bool" where
  "recordIDPattern s = (case s of [] \<Rightarrow> False
     | c # cs \<Rightarrow> id_char c \<and> list_all (\<lambda>x. id_char x \<or> x \<in> set ''._:-'') cs)"

text \<open>\<open>^[a-z][a-z0-9-]*-v[1-9][0-9]*$\<close>: the version is the run of digits at the end.\<close>

definition registryPattern :: "string \<Rightarrow> bool" where
  "registryPattern s =
     (let d = rev (takeWhile is_digit (rev s)); r = rev (dropWhile is_digit (rev s)); p = rev (drop 2 (rev r))
      in d \<noteq> [] \<and> hd d \<noteq> CHR ''0'' \<and> has_suffix r ''-v'' \<and> p \<noteq> [] \<and> is_lower (hd p) \<and>
         list_all (\<lambda>c. is_lower c \<or> is_digit c \<or> c = CHR ''-'') p)"

definition approvalGate :: "lifecycle \<Rightarrow> lifecycle \<Rightarrow> string" where
  "approvalGate frm to = frm @ ''_to_'' @ to"

definition validSHA256 :: "string \<Rightarrow> bool" where
  "validSHA256 s \<longleftrightarrow> length s = 64 \<and> hex_decode s \<noteq> None"

definition safeApprovalPath :: "string \<Rightarrow> bool" where
  "safeApprovalPath v \<longleftrightarrow>
     (let drive = 2 \<le> length v \<and> (is_upper (v ! 0) \<or> is_lower (v ! 0)) \<and> v ! 1 = CHR '':''
      in v \<noteq> [] \<and> v \<noteq> ''.'' \<and> CHR 0x5C \<notin> set v \<and> \<not> drive \<and>
         \<not> has_prefix v ''/'' \<and> path_Clean v = v \<and> v \<noteq> ''..'' \<and> \<not> has_prefix v ''../'')"

text \<open>\<open>hashField\<close>: an 8-byte big-endian length, then the bytes.\<close>

definition hashField :: "string \<Rightarrow> string" where
  "hashField v = be_bytes 8 (length v) @ v"

text \<open>\<open>hex.DecodeString\<close> with its error dropped: the bytes before the first bad pair.\<close>

fun hex_prefix :: "string \<Rightarrow> string" where
  "hex_prefix (c # d # s) =
     (case (hex_val c, hex_val d) of
        (Some x, Some y) \<Rightarrow> char_of (16 * x + y) # hex_prefix s
      | _ \<Rightarrow> [])"
| "hex_prefix _ = []"

definition aggregate_bytes :: "approval_artifact list \<Rightarrow> string" where
  "aggregate_bytes as = concat (map (\<lambda>a. hashField (aa_Path a) @ hashField (hex_prefix (aa_Hash a))) as)"

definition aggregateApprovalHash :: "approval_artifact list \<Rightarrow> string" where
  "aggregateApprovalHash as = sha256_hex (aggregate_bytes as)"

definition artifact_of :: "string \<Rightarrow> string \<Rightarrow> approval_artifact" where
  "artifact_of relative raw =
     \<lparr>aa_Path = relative, aa_Hash = sha256_hex (hashField relative @ hashField raw)\<rparr>"

definition failed :: "string \<Rightarrow> error" where
  "failed s = Failed [Str s]"

text \<open>The artifact loop of \<open>ApprovalRecord.Validate\<close>, with the path of the previous row.\<close>

fun validate_artifacts :: "nat \<Rightarrow> string option \<Rightarrow> approval_artifact list \<Rightarrow> error + unit" where
  "validate_artifacts i prev [] = Inr ()"
| "validate_artifacts i prev (a # as) =
     (if \<not> safeApprovalPath (aa_Path a) \<or> length (aa_Hash a) \<noteq> 64 then
        Inl (Failed [Str ''invalid approval artifact at index '', Dec i])
      else if hex_decode (aa_Hash a) = None then
        Inl (Failed [Str ''invalid approval artifact hash at index '', Dec i])
      else if (case prev of None \<Rightarrow> False | Some p \<Rightarrow> aa_Path a \<le> p) then
        Inl (failed ''approval artifacts must be unique and sorted by path'')
      else validate_artifacts (i + 1) (Some (aa_Path a)) as)"

definition ApprovalRecord_Validate :: "approval_record \<Rightarrow> error + unit" where
  "ApprovalRecord_Validate r =
     (if ap_SchemaVersion r \<noteq> 1 then
        Inl (Failed [Str ''unsupported approval schema version '', Str (show_int (ap_SchemaVersion r))])
      else if \<not> recordIDPattern (ap_ID r) then
        Inl (failed ''approval id must be one stable token'')
      else if \<not> isOk (ValidateSegment (ap_Change r)) then
        Inl (failed ''approval change must be lowercase kebab-case'')
      else if trim_space (ap_Approver r) = [] then
        Inl (failed ''approval approver is required'')
      else if ap_ActorClass r \<noteq> ''human'' then
        Inl (failed ''approval actor_class must be human'')
      else if \<not> isOk (ValidateApprovalTransition (ap_LifecycleFrom r) (ap_LifecycleTo r)) then
        Inl (failed ''approval lifecycle transition is not legal'')
      else if ap_Gate r \<noteq> approvalGate (ap_LifecycleFrom r) (ap_LifecycleTo r) then
        Inl (failed ''approval gate does not match lifecycle transition'')
      else if \<not> registryPattern (ap_RegistryVersion r) then
        Inl (failed ''approval registry_version is malformed'')
      else if \<not> validSHA256 (ap_PolicyDigest r) then
        Inl (failed ''approval policy_digest must be a SHA-256 digest'')
      else if ap_RevisionBefore r = 0 \<or> ap_RevisionAfter r \<noteq> ap_RevisionBefore r + 1 then
        Inl (failed ''approval revisions must describe one forward transition'')
      else if trim_space (ap_Reason r) = [] then
        Inl (failed ''approval reason is required'')
      else if ap_Assurance r \<noteq> ''advisory'' then
        Inl (failed ''approval assurance must be advisory without host proof'')
      else if time_Parse (ap_Timestamp r) = None then
        Inl (failed ''approval timestamp must be RFC3339'')
      else if ap_Artifacts r = [] then
        Inl (failed ''approval artifacts are required'')
      else bindE (validate_artifacts 0 None (ap_Artifacts r)) (\<lambda>_.
        if ap_AggregateHash r \<noteq> aggregateApprovalHash (ap_Artifacts r) then
          Inl (failed ''approval aggregate hash does not match artifacts'')
        else Inr ()))"

subsection \<open>The JSON form of the record\<close>

definition artifact_json :: "approval_artifact \<Rightarrow> json" where
  "artifact_json a = JObj [(''path'', JStr (aa_Path a)), (''hash'', JStr (aa_Hash a))]"

definition json_int :: "int \<Rightarrow> json" where
  "json_int i = JNum (show_int i)"

definition approval_json :: "approval_record \<Rightarrow> json" where
  "approval_json r = JObj [
     (''schema_version'', json_int (ap_SchemaVersion r)), (''id'', JStr (ap_ID r)),
     (''change'', JStr (ap_Change r)), (''gate'', JStr (ap_Gate r)),
     (''lifecycle_from'', JStr (ap_LifecycleFrom r)), (''lifecycle_to'', JStr (ap_LifecycleTo r)),
     (''approver'', JStr (ap_Approver r)), (''actor_class'', JStr (ap_ActorClass r)),
     (''artifacts'', JArr (map artifact_json (ap_Artifacts r))),
     (''aggregate_hash'', JStr (ap_AggregateHash r)),
     (''registry_version'', JStr (ap_RegistryVersion r)), (''policy_digest'', JStr (ap_PolicyDigest r)),
     (''revision_before'', json_u64 (ap_RevisionBefore r)), (''revision_after'', json_u64 (ap_RevisionAfter r)),
     (''timestamp'', JStr (ap_Timestamp r)), (''reason'', JStr (ap_Reason r)),
     (''assurance'', JStr (ap_Assurance r))]"

definition artifact_of_json :: "bool \<Rightarrow> json \<Rightarrow> approval_artifact option" where
  "artifact_of_json strict v =
     Option.bind (decode_object strict [''path'', ''hash''] v) (\<lambda>m.
     Option.bind (field_string m ''path'') (\<lambda>p.
     Option.bind (field_string m ''hash'') (\<lambda>h. Some \<lparr>aa_Path = p, aa_Hash = h\<rparr>)))"

fun artifacts_of_json :: "bool \<Rightarrow> json list \<Rightarrow> approval_artifact list option" where
  "artifacts_of_json strict [] = Some []"
| "artifacts_of_json strict (v # vs) =
     Option.bind (artifact_of_json strict v) (\<lambda>a.
     Option.bind (artifacts_of_json strict vs) (\<lambda>as. Some (a # as)))"

definition approval_names :: "string list" where
  "approval_names = [''schema_version'', ''id'', ''change'', ''gate'', ''lifecycle_from'',
     ''lifecycle_to'', ''approver'', ''actor_class'', ''artifacts'', ''aggregate_hash'',
     ''registry_version'', ''policy_digest'', ''revision_before'', ''revision_after'', ''timestamp'',
     ''reason'', ''assurance'']"

definition approval_of_json :: "bool \<Rightarrow> json \<Rightarrow> approval_record option" where
  "approval_of_json strict v =
     Option.bind (decode_object strict approval_names v) (\<lambda>m. let f = field_string m in
     Option.bind (field_int m ''schema_version'') (\<lambda>sv.
     Option.bind (f ''id'') (\<lambda>i. Option.bind (f ''change'') (\<lambda>c. Option.bind (f ''gate'') (\<lambda>g.
     Option.bind (f ''lifecycle_from'') (\<lambda>lf. Option.bind (f ''lifecycle_to'') (\<lambda>lt.
     Option.bind (f ''approver'') (\<lambda>ap. Option.bind (f ''actor_class'') (\<lambda>ac.
     Option.bind (case map_of m ''artifacts'' of None \<Rightarrow> Some []
                  | Some (JArr vs) \<Rightarrow> artifacts_of_json strict vs | Some _ \<Rightarrow> None) (\<lambda>as.
     Option.bind (f ''aggregate_hash'') (\<lambda>ah. Option.bind (f ''registry_version'') (\<lambda>rv.
     Option.bind (f ''policy_digest'') (\<lambda>pd. Option.bind (field_u64 m ''revision_before'') (\<lambda>rb.
     Option.bind (field_u64 m ''revision_after'') (\<lambda>ra. Option.bind (f ''timestamp'') (\<lambda>ts.
     Option.bind (f ''reason'') (\<lambda>rs. Option.bind (f ''assurance'') (\<lambda>as'.
       Some \<lparr>ap_SchemaVersion = sv, ap_ID = i, ap_Change = c, ap_Gate = g, ap_LifecycleFrom = lf,
         ap_LifecycleTo = lt, ap_Approver = ap, ap_ActorClass = ac, ap_Artifacts = as,
         ap_AggregateHash = ah, ap_RegistryVersion = rv, ap_PolicyDigest = pd, ap_RevisionBefore = rb,
         ap_RevisionAfter = ra, ap_Timestamp = ts, ap_Reason = rs, ap_Assurance = as'\<rparr>))))))))))))))))))"

subsection \<open>Lifecycle\<close>

lemma lifecycleSuccessor_iff:
  "lifecycleSuccessor frm = Some to \<longleftrightarrow>
     (frm, to) \<in> {(''planning'', ''approved''), (''approved'', ''executing''),
       (''executing'', ''reconciling''), (''reconciling'', ''archived'')}"
  by (auto simp: lifecycleSuccessor_def lifecycle_defs)

lemma ValidateApprovalTransition_ok:
  "ValidateApprovalTransition frm to = Inr () \<longleftrightarrow> lifecycleSuccessor frm = Some to"
  by (auto simp: ValidateApprovalTransition_def split: option.splits)

text \<open>The stages in order, and a stage's place.\<close>

definition stages :: "lifecycle list" where
  "stages = [LifecyclePlanning, LifecycleApproved, LifecycleExecuting, LifecycleReconciling, LifecycleArchived]"

definition stage_rank :: "lifecycle \<Rightarrow> nat" where
  "stage_rank s = length (takeWhile (\<lambda>x. x \<noteq> s) stages)"

fun legal_path :: "lifecycle \<Rightarrow> lifecycle list \<Rightarrow> bool" where
  "legal_path s [] = True"
| "legal_path s (t # ts) = (ValidateApprovalTransition s t = Inr () \<and> legal_path t ts)"

lemma successor_rank: "lifecycleSuccessor frm = Some to \<Longrightarrow> stage_rank to = Suc (stage_rank frm) \<and> stage_rank to < 5"
  unfolding lifecycleSuccessor_iff
  by (elim insertE emptyE; simp add: stage_rank_def stages_def lifecycle_defs)

text \<open>A lifecycle transition is legal exactly between consecutive stages of planning, approved,
  executing, reconciling, archived, so a chain of legal transitions advances one stage at a time,
  never revisits a stage and has at most four steps.\<close>
theorem ValidateApprovalTransition_forward:
  assumes "legal_path s ts" and "ts \<noteq> []"
  shows "stage_rank (last ts) = stage_rank s + length ts \<and> distinct (s # ts) \<and> length ts \<le> 4"
proof -
  have rank: "legal_path s ts \<Longrightarrow> i < length ts \<Longrightarrow> stage_rank (ts ! i) = stage_rank s + Suc i \<and> stage_rank (ts ! i) < 5"
    for i
  proof (induction ts arbitrary: s i)
    case (Cons t ts)
    then have t: "stage_rank t = Suc (stage_rank s)" "stage_rank t < 5"
      using successor_rank by (auto simp: ValidateApprovalTransition_ok)
    show ?case using Cons t by (cases i) auto
  qed simp
  have l: "last ts = ts ! (length ts - 1)" using assms(2) by (rule last_conv_nth)
  have k: "stage_rank (last ts) = stage_rank s + length ts" "stage_rank (last ts) < 5"
    using rank [OF assms(1), of "length ts - 1"] assms(2) l by (auto simp: Suc_diff_Suc neq_Nil_conv)
  have "distinct (map stage_rank (s # ts))"
  proof -
    have "map stage_rank (s # ts) = [stage_rank s ..< stage_rank s + Suc (length ts)]"
      using rank [OF assms(1)] by (intro nth_equalityI) (auto simp: nth_Cons split: nat.splits simp del: upt_Suc)
    then show ?thesis by simp
  qed
  then have "distinct (s # ts)" by (simp only: distinct_map)
  with k show ?thesis by simp
qed

theorem ValidateApprovalTransition_forward_witness:
  "stage_rank LifecycleArchived = stage_rank LifecyclePlanning + 4 \<and>
   distinct (LifecyclePlanning # [LifecycleApproved, LifecycleExecuting, LifecycleReconciling, LifecycleArchived])"
proof -
  have "legal_path LifecyclePlanning
      [LifecycleApproved, LifecycleExecuting, LifecycleReconciling, LifecycleArchived]"
    by (simp add: ValidateApprovalTransition_ok lifecycleSuccessor_iff lifecycle_defs)
  from ValidateApprovalTransition_forward [OF this] show ?thesis by simp
qed

subsection \<open>Length-prefixed fields\<close>

lemma be_bytes_length [simp]: "length (be_bytes k n) = k"
  by (induction k arbitrary: n) auto

lemma be_bytes_inj: "n < 256 ^ k \<Longrightarrow> m < 256 ^ k \<Longrightarrow> be_bytes k n = be_bytes k m \<Longrightarrow> n = m"
proof (induction k arbitrary: n m)
  case (Suc k)
  have "be_bytes k (n div 256) = be_bytes k (m div 256)"
    and low: "(char_of (n mod 256) :: char) = char_of (m mod 256)"
    using Suc.prems(3) by auto
  moreover have "n div 256 < 256 ^ k" "m div 256 < 256 ^ k"
    using Suc.prems by (auto simp: less_mult_imp_div_less mult.commute)
  ultimately have "n div 256 = m div 256" using Suc.IH by blast
  moreover have "n mod 256 = m mod 256"
    using low by (metis of_char_of mod_mod_trivial)
  ultimately show ?case by (metis div_mult_mod_eq)
qed simp

lemma hashField_prefix_free:
  assumes "hashField u @ x = hashField v @ y" and "length u < 2 ^ 64" and "length v < 2 ^ 64"
  shows "u = v \<and> x = y"
proof -
  have "be_bytes 8 (length u) @ u @ x = be_bytes 8 (length v) @ v @ y"
    using assms(1) by (simp add: hashField_def)
  then have "be_bytes 8 (length u) = be_bytes 8 (length v)" and rest: "u @ x = v @ y"
    by (simp_all add: append_eq_append_conv)
  then have "length u = length v" using be_bytes_inj [of "length u" 8 "length v"] assms(2,3) by simp
  with rest show ?thesis by (simp add: append_eq_append_conv)
qed

lemma hashField_ne [simp]: "hashField v \<noteq> []"
proof -
  have "8 \<le> length (hashField v)" by (simp add: hashField_def)
  then show ?thesis by (metis list.size(3) not_numeral_le_zero)
qed

lemma hex_prefix_length: "length (hex_prefix s) \<le> length s"
proof (induction s rule: hex_prefix.induct)
  case (1 c d s)
  show ?case
    by (cases "hex_val c"; cases "hex_val d") (use 1 in \<open>auto intro: le_SucI\<close>)
qed auto

definition artifact_facts :: "approval_artifact list \<Rightarrow> (string \<times> string) list" where
  "artifact_facts as = map (\<lambda>a. (aa_Path a, hex_prefix (aa_Hash a))) as"

definition short_fields :: "approval_artifact list \<Rightarrow> bool" where
  "short_fields as \<longleftrightarrow> list_all (\<lambda>a. length (aa_Path a) < 2 ^ 64 \<and> length (hex_prefix (aa_Hash a)) < 2 ^ 64) as"

lemma aggregate_bytes_inj:
  "short_fields as \<Longrightarrow> short_fields bs \<Longrightarrow> aggregate_bytes as = aggregate_bytes bs \<Longrightarrow>
     artifact_facts as = artifact_facts bs"
proof (induction as arbitrary: bs)
  case Nil
  then show ?case by (cases bs) (auto simp: aggregate_bytes_def artifact_facts_def)
next
  case (Cons a as)
  then obtain b bs' where bs: "bs = b # bs'"
    by (cases bs) (auto simp: aggregate_bytes_def)
  have eq: "hashField (aa_Path a) @ hashField (hex_prefix (aa_Hash a)) @ aggregate_bytes as =
      hashField (aa_Path b) @ hashField (hex_prefix (aa_Hash b)) @ aggregate_bytes bs'"
    using Cons.prems(3) bs by (simp add: aggregate_bytes_def)
  have p: "aa_Path a = aa_Path b"
    and rest: "hashField (hex_prefix (aa_Hash a)) @ aggregate_bytes as =
      hashField (hex_prefix (aa_Hash b)) @ aggregate_bytes bs'"
    using hashField_prefix_free [OF eq] Cons.prems(1,2) bs by (auto simp: short_fields_def)
  have "hex_prefix (aa_Hash a) = hex_prefix (aa_Hash b)" "aggregate_bytes as = aggregate_bytes bs'"
    using hashField_prefix_free [OF rest] Cons.prems(1,2) bs by (auto simp: short_fields_def)
  with p bs Cons.IH [of bs'] Cons.prems show ?case by (simp add: artifact_facts_def short_fields_def)
qed



subsection \<open>Valid records\<close>

lemma validate_artifacts_ok:
  "validate_artifacts i prev as = Inr u \<Longrightarrow>
     sorted_wrt (<) (map aa_Path as) \<and>
     (\<forall>a \<in> set as. safeApprovalPath (aa_Path a) \<and> length (aa_Hash a) = 64 \<and> hex_decode (aa_Hash a) \<noteq> None) \<and>
     (case prev of None \<Rightarrow> True | Some p \<Rightarrow> \<forall>a \<in> set as. p < aa_Path a)"
proof (induction as arbitrary: i prev)
  case (Cons a as)
  from Cons.prems have tail: "validate_artifacts (i + 1) (Some (aa_Path a)) as = Inr u"
    and h: "safeApprovalPath (aa_Path a)" "length (aa_Hash a) = 64" "hex_decode (aa_Hash a) \<noteq> None"
    and p: "\<not> (case prev of None \<Rightarrow> False | Some p \<Rightarrow> aa_Path a \<le> p)"
    by (simp_all split: if_splits)
  show ?case
  proof (cases prev)
    case None
    then show ?thesis using Cons.IH [OF tail] h by simp
  next
    case (Some q)
    then have "q < aa_Path a" using p by simp
    then show ?thesis using Some Cons.IH [OF tail] h by (auto dest: less_trans)
  qed
qed (simp split: option.splits)

lemma ApprovalRecord_Validate_facts:
  assumes "ApprovalRecord_Validate r = Inr u"
  shows "ap_ActorClass r = ''human''" "trim_space (ap_Approver r) \<noteq> []" "trim_space (ap_Reason r) \<noteq> []"
    and "lifecycleSuccessor (ap_LifecycleFrom r) = Some (ap_LifecycleTo r)"
    and "ap_Gate r = approvalGate (ap_LifecycleFrom r) (ap_LifecycleTo r)"
    and "ap_RevisionBefore r \<noteq> 0" "ap_RevisionAfter r = ap_RevisionBefore r + 1"
    and "ap_Artifacts r \<noteq> []" "sorted_wrt (<) (map aa_Path (ap_Artifacts r))"
    and "\<forall>a \<in> set (ap_Artifacts r). safeApprovalPath (aa_Path a) \<and> length (aa_Hash a) = 64"
    and "ap_AggregateHash r = aggregateApprovalHash (ap_Artifacts r)"
    and "ap_Assurance r = ''advisory''"
proof -
  have arts: "validate_artifacts 0 None (ap_Artifacts r) = Inr ()"
    using assms by (cases "validate_artifacts 0 None (ap_Artifacts r)")
      (auto simp: ApprovalRecord_Validate_def split: if_splits)
  note sorted = validate_artifacts_ok [OF arts]
  show "ap_ActorClass r = ''human''" "trim_space (ap_Approver r) \<noteq> []" "trim_space (ap_Reason r) \<noteq> []"
    "ap_Gate r = approvalGate (ap_LifecycleFrom r) (ap_LifecycleTo r)"
    "ap_RevisionBefore r \<noteq> 0" "ap_RevisionAfter r = ap_RevisionBefore r + 1" "ap_Artifacts r \<noteq> []"
    "ap_AggregateHash r = aggregateApprovalHash (ap_Artifacts r)" "ap_Assurance r = ''advisory''"
    using assms arts unfolding ApprovalRecord_Validate_def by (simp_all split: if_splits)
  have "isOk (ValidateApprovalTransition (ap_LifecycleFrom r) (ap_LifecycleTo r))"
    using assms unfolding ApprovalRecord_Validate_def by (simp split: if_splits)
  then show "lifecycleSuccessor (ap_LifecycleFrom r) = Some (ap_LifecycleTo r)"
    by (auto simp: isOk_iff ValidateApprovalTransition_ok [symmetric])
  show "sorted_wrt (<) (map aa_Path (ap_Artifacts r))"
    "\<forall>a \<in> set (ap_Artifacts r). safeApprovalPath (aa_Path a) \<and> length (aa_Hash a) = 64"
    using sorted by auto
qed

subsection \<open>Round trip\<close>

lemma artifact_round_trip [simp]: "artifact_of_json strict (artifact_json a) = Some a"
  by (simp add: artifact_of_json_def artifact_json_def decode_object_def field_string_def)

lemma artifacts_round_trip [simp]: "artifacts_of_json strict (map artifact_json as) = Some as"
  by (induction as) auto


definition sample_approval :: approval_record where
  "sample_approval = \<lparr>ap_SchemaVersion = 1, ap_ID = ''approval:1'', ap_Change = ''c'', ap_Gate = ''planning_to_approved'',
     ap_LifecycleFrom = ''planning'', ap_LifecycleTo = ''approved'', ap_Approver = ''a@b'', ap_ActorClass = ''human'',
     ap_Artifacts = [artifact_of ''design.md'' ''x'', artifact_of ''tasks.md'' ''y''],
     ap_AggregateHash = aggregateApprovalHash [artifact_of ''design.md'' ''x'', artifact_of ''tasks.md'' ''y''],
     ap_RegistryVersion = ''planning-v1'', ap_PolicyDigest = sha256_hex ''p'', ap_RevisionBefore = 1,
     ap_RevisionAfter = 2, ap_Timestamp = ''2026-01-02T03:04:05Z'', ap_Reason = ''ok'', ap_Assurance = ''advisory''\<rparr>"


end
