(* ===== verification/Readiness.thy ===== *)
theory Readiness
  imports TaskGraph TaskActivity Approval
begin

text \<open>
  The pure readiness projection of \<open>internal/core/readiness.go\<close>: from the canonical plan, the
  persisted activities, the lifecycle stage and the approval projection, to one readiness row per
  task, the frontier of tasks that may start, and the primary blocker. \<open>approval_status\<close> is the
  \<open>ApprovalStatus\<close> of \<open>approval_status.go\<close>. Blocker pointers are options; the Go clones are
  values here.
\<close>

type_synonym readiness_kind = string

definition ReadinessReady :: readiness_kind where "ReadinessReady = ''ready''"
definition ReadinessWaitingDependency :: readiness_kind where
  "ReadinessWaitingDependency = ''waiting_dependency''"
definition ReadinessWaitingApproval :: readiness_kind where
  "ReadinessWaitingApproval = ''waiting_approval''"
definition ReadinessActive :: readiness_kind where "ReadinessActive = ''active''"
definition ReadinessTerminal :: readiness_kind where "ReadinessTerminal = ''terminal''"
definition ReadinessBlocked :: readiness_kind where "ReadinessBlocked = ''blocked''"

lemmas readiness_defs =
  ReadinessReady_def ReadinessWaitingDependency_def ReadinessWaitingApproval_def
  ReadinessActive_def ReadinessTerminal_def ReadinessBlocked_def

record approval_status =
  aps_Change :: string
  aps_Current :: bool
  aps_Approval :: "approval_record option"
  aps_BlockingArtifact :: string
  aps_Reason :: string
  aps_Recovery :: string

record readiness_blocker =
  rb_Code :: string
  rb_Owner :: string
  rb_Action :: string

record task_readiness =
  tr_ID :: string
  tr_Activity :: task_activity
  tr_Readiness :: readiness_kind
  tr_Wave :: nat
  tr_Dependencies :: "string list"
  tr_Blocker :: "readiness_blocker option"

record readiness_model =
  rm_tasks :: "task_readiness list"
  rm_frontier :: "string list"
  rm_planInvalid :: "readiness_blocker option"
  rm_primary :: "readiness_blocker option"
  rm_global :: "readiness_blocker option"

record readiness_outcome =
  ro_Classification :: string
  ro_Blocker :: "readiness_blocker option"

definition blocker :: "string \<Rightarrow> string \<Rightarrow> string \<Rightarrow> readiness_blocker" where
  "blocker code own action = \<lparr>rb_Code = code, rb_Owner = own, rb_Action = action\<rparr>"

definition blockerForInvalidPlan :: readiness_blocker where
  "blockerForInvalidPlan = blocker ''plan_invalid'' ''author'' ''repair tasks and run check''"

definition invalidReadinessModel :: readiness_model where
  "invalidReadinessModel =
     \<lparr>rm_tasks = [], rm_frontier = [], rm_planInvalid = Some blockerForInvalidPlan,
      rm_primary = Some blockerForInvalidPlan, rm_global = Some blockerForInvalidPlan\<rparr>"

definition readinessApprovalBlocker :: "string \<Rightarrow> approval_status \<Rightarrow> readiness_blocker option" where
  "readinessApprovalBlocker lifecycle ap =
     (if lifecycle = ''approved'' then
        (if aps_Current ap then None
         else if aps_Approval ap \<noteq> None then
           Some (blocker ''approval_stale'' ''human'' ''rerun check, then obtain fresh human approval'')
         else Some (blocker ''change_not_approved'' ''human'' ''run check, then obtain human approval''))
      else if lifecycle = ''planning'' then
        (if aps_Approval ap \<noteq> None then
           Some (blocker ''approval_stale'' ''human'' ''rerun check, then obtain fresh human approval'')
         else Some (blocker ''change_not_approved'' ''human'' ''run check, then obtain human approval''))
      else if lifecycle \<in> {LifecycleExecuting, LifecycleReconciling, LifecycleArchived} then
        Some (blocker ''lifecycle_unsupported'' ''harness'' ''select a planning or approved change'')
      else Some (blocker ''plan_invalid'' ''author'' ''repair lifecycle state and run check''))"

text \<open>The loop over the dependencies stops at the first one that is not completed.\<close>

fun dependency_incomplete :: "(string \<rightharpoonup> task_activity) \<Rightarrow> string list \<Rightarrow> bool" where
  "dependency_incomplete acts [] = False"
| "dependency_incomplete acts (d # ds) =
     (if map_get [] acts d \<noteq> TaskCompleted then True else dependency_incomplete acts ds)"

definition deriveTaskReadiness :: "task_activity \<Rightarrow> string list \<Rightarrow> (string \<rightharpoonup> task_activity)
    \<Rightarrow> readiness_blocker option \<Rightarrow> readiness_kind \<times> readiness_blocker option" where
  "deriveTaskReadiness a deps acts global = (case global of
     Some g \<Rightarrow> (ReadinessWaitingApproval, Some g)
   | None \<Rightarrow>
       if a = TaskBlocked \<or> a = TaskFailed then
         (ReadinessBlocked, Some (blocker ''task_blocked'' ''human''
            ''resolve the task blocker and return the task to pending''))
       else if a = TaskInProgress then
         (ReadinessActive, Some (blocker ''task_active'' ''agent'' ''continue the active task''))
       else if a = TaskCompleted then
         (ReadinessTerminal, Some (blocker ''task_completed'' ''harness''
            ''continue with remaining frontier tasks''))
       else if a = TaskPending then
         (if dependency_incomplete acts deps then
            (ReadinessWaitingDependency, Some (blocker ''dependency_incomplete'' ''agent''
               ''complete the listed dependency tasks''))
          else (ReadinessReady, None))
       else (ReadinessBlocked, Some (blocker ''plan_invalid'' ''author'' ''repair tasks and run check'')))"

definition blocker_ranks :: "string \<rightharpoonup> nat" where
  "blocker_ranks = map_of [(''plan_invalid'', 0), (''lifecycle_unsupported'', 1),
     (''approval_stale'', 2), (''change_not_approved'', 3), (''task_blocked'', 4),
     (''task_active'', 5), (''task_completed'', 6), (''dependency_incomplete'', 7)]"

definition blockerRank :: "readiness_blocker option \<Rightarrow> nat" where
  "blockerRank b = (case b of None \<Rightarrow> 99 | Some v \<Rightarrow> map_get 0 blocker_ranks (rb_Code v))"

definition readiness_row :: "task_graph \<Rightarrow> (string \<rightharpoonup> task_activity) \<Rightarrow> readiness_blocker option
    \<Rightarrow> string \<Rightarrow> nat \<Rightarrow> task_readiness" where
  "readiness_row g byID global i w =
     (let deps = Dependencies g i; a = map_get [] byID i;
          (r, b) = deriveTaskReadiness a deps byID global
      in \<lparr>tr_ID = i, tr_Activity = a, tr_Readiness = r, tr_Wave = w, tr_Dependencies = deps, tr_Blocker = b\<rparr>)"

definition add_row :: "task_readiness \<Rightarrow> readiness_model \<Rightarrow> readiness_model" where
  "add_row row m =
     (let m' = (if tr_Readiness row = ReadinessReady then m\<lparr>rm_frontier := rm_frontier m @ [tr_ID row]\<rparr>
                else if blockerRank (tr_Blocker row) < blockerRank (rm_primary m)
                then m\<lparr>rm_primary := tr_Blocker row\<rparr> else m)
      in m'\<lparr>rm_tasks := rm_tasks m' @ [row]\<rparr>)"

fun project_loop :: "task_graph \<Rightarrow> (string \<rightharpoonup> task_activity) \<Rightarrow> readiness_blocker option
    \<Rightarrow> string list \<Rightarrow> readiness_model \<Rightarrow> readiness_model" where
  "project_loop g byID global [] m = m"
| "project_loop g byID global (i # is) m = (case Wave g i of
     None \<Rightarrow> invalidReadinessModel
   | Some w \<Rightarrow> project_loop g byID global is (add_row (readiness_row g byID global i w) m))"

fun index_activities :: "(string \<rightharpoonup> task_activity) \<Rightarrow> activity_row list \<Rightarrow> (string \<rightharpoonup> task_activity)" where
  "index_activities m [] = m"
| "index_activities m (r # rs) = index_activities (m(ar_ID r \<mapsto> ar_Activity r)) rs"

definition ProjectReadiness :: "tasks \<Rightarrow> json gomap \<Rightarrow> string \<Rightarrow> approval_status \<Rightarrow> readiness_model" where
  "ProjectReadiness p persisted lifecycle ap = (case BuildTaskGraph p of
     Inl _ \<Rightarrow> invalidReadinessModel
   | Inr g \<Rightarrow> (case ProjectTaskActivities (AuthoredOrder g) persisted of
       Inl _ \<Rightarrow> invalidReadinessModel
     | Inr activities \<Rightarrow>
         let global = readinessApprovalBlocker lifecycle ap in
         if map_option rb_Code global = Some ''plan_invalid'' then invalidReadinessModel
         else project_loop g (index_activities Map.empty activities) global (AuthoredOrder g)
           \<lparr>rm_tasks = [], rm_frontier = [], rm_planInvalid = None, rm_primary = global, rm_global = global\<rparr>))"

definition InFrontier :: "readiness_model \<Rightarrow> string \<Rightarrow> bool" where
  "InFrontier m i \<longleftrightarrow> i \<in> set (rm_frontier m)"

definition model_Task :: "readiness_model \<Rightarrow> string \<Rightarrow> task_readiness option" where
  "model_Task m i = find (\<lambda>row. tr_ID row = i) (rm_tasks m)"

fun retry_deps :: "readiness_model \<Rightarrow> string list \<Rightarrow> bool" where
  "retry_deps m [] = True"
| "retry_deps m (d # ds) = (case model_Task m d of
     None \<Rightarrow> False
   | Some row \<Rightarrow> if tr_Activity row \<noteq> TaskCompleted then False else retry_deps m ds)"

definition CanRetry :: "readiness_model \<Rightarrow> string \<Rightarrow> bool" where
  "CanRetry m i =
     (if rm_global m \<noteq> None \<or> rm_planInvalid m \<noteq> None then False
      else (case model_Task m i of
          None \<Rightarrow> False
        | Some row \<Rightarrow>
            if tr_Activity row \<noteq> TaskFailed then False else retry_deps m (tr_Dependencies row)))"

definition AllComplete :: "readiness_model \<Rightarrow> bool" where
  "AllComplete m =
     (if rm_planInvalid m \<noteq> None \<or> rm_global m \<noteq> None then False
      else list_all (\<lambda>row. tr_Activity row = TaskCompleted) (rm_tasks m))"

definition Outcome :: "readiness_model \<Rightarrow> readiness_outcome" where
  "Outcome m =
     (if rm_frontier m \<noteq> [] then \<lparr>ro_Classification = ''frontier'', ro_Blocker = None\<rparr>
      else if AllComplete m then \<lparr>ro_Classification = ''all_complete'', ro_Blocker = None\<rparr>
      else
        let b = (case rm_primary m of None \<Rightarrow> blockerForInvalidPlan | Some b \<Rightarrow> b);
            c = (if rb_Code b = ''plan_invalid'' then ''plan_invalid''
                 else if rb_Code b \<in> {''approval_stale'', ''change_not_approved''} then ''waiting_approval''
                 else if rb_Code b = ''dependency_incomplete'' then ''waiting_dependency''
                 else ''task_blocked'')
        in \<lparr>ro_Classification = c, ro_Blocker = Some b\<rparr>)"

subsection \<open>The projection as a map over the authored tasks\<close>

lemma dependency_incomplete_iff:
  "dependency_incomplete acts ds \<longleftrightarrow> (\<exists>d \<in> set ds. map_get [] acts d \<noteq> TaskCompleted)"
  by (induction ds) auto

lemma index_activities_get:
  "distinct ids \<Longrightarrow>
     index_activities m (map (\<lambda>i. \<lparr>ar_ID = i, ar_Activity = f i\<rparr>) ids) i =
       (if i \<in> set ids then Some (f i) else m i)"
  by (induction ids arbitrary: m) auto

lemma add_row_simps [simp]:
  "rm_tasks (add_row row m) = rm_tasks m @ [row]"
  "rm_frontier (add_row row m) =
     rm_frontier m @ (if tr_Readiness row = ReadinessReady then [tr_ID row] else [])"
  "rm_planInvalid (add_row row m) = rm_planInvalid m"
  "rm_global (add_row row m) = rm_global m"
  "rm_primary (add_row row m) =
     (if tr_Readiness row \<noteq> ReadinessReady \<and> blockerRank (tr_Blocker row) < blockerRank (rm_primary m)
      then tr_Blocker row else rm_primary m)"
  by (simp_all add: add_row_def Let_def)

definition row_at :: "task_graph \<Rightarrow> (string \<rightharpoonup> task_activity) \<Rightarrow> readiness_blocker option
    \<Rightarrow> string \<Rightarrow> task_readiness" where
  "row_at g byID global i = readiness_row g byID global i (the (Wave g i))"

lemma row_at_simps [simp]:
  "tr_ID (row_at g byID global i) = i"
  "tr_Activity (row_at g byID global i) = map_get [] byID i"
  "tr_Dependencies (row_at g byID global i) = Dependencies g i"
  "tr_Readiness (row_at g byID global i) =
     fst (deriveTaskReadiness (map_get [] byID i) (Dependencies g i) byID global)"
  "tr_Blocker (row_at g byID global i) =
     snd (deriveTaskReadiness (map_get [] byID i) (Dependencies g i) byID global)"
  by (simp_all add: row_at_def readiness_row_def Let_def split_beta)

lemma project_loop_known:
  assumes "\<forall>i \<in> set is. Wave g i \<noteq> None"
  shows "project_loop g byID global is m =
    fold (\<lambda>i. add_row (row_at g byID global i)) is m"
  using assms
proof (induction "is" arbitrary: m)
  case (Cons i "is")
  then obtain w where "Wave g i = Some w" by auto
  with Cons show ?case by (simp add: row_at_def)
qed simp

lemma fold_add_row:
  "rm_tasks (fold (\<lambda>i. add_row (f i)) is m) = rm_tasks m @ map f is"
  "rm_frontier (fold (\<lambda>i. add_row (f i)) is m) =
     rm_frontier m @ map (\<lambda>i. tr_ID (f i)) (filter (\<lambda>i. tr_Readiness (f i) = ReadinessReady) is)"
  "rm_planInvalid (fold (\<lambda>i. add_row (f i)) is m) = rm_planInvalid m"
  "rm_global (fold (\<lambda>i. add_row (f i)) is m) = rm_global m"
  by (induction "is" arbitrary: m) auto

lemma fold_add_row_primary:
  "blockerRank (rm_primary (fold (\<lambda>i. add_row (f i)) is m)) \<le> blockerRank (rm_primary m) \<and>
   (\<forall>i \<in> set is. tr_Readiness (f i) \<noteq> ReadinessReady \<longrightarrow>
      blockerRank (rm_primary (fold (\<lambda>i. add_row (f i)) is m)) \<le> blockerRank (tr_Blocker (f i))) \<and>
   rm_primary (fold (\<lambda>i. add_row (f i)) is m) \<in>
     insert (rm_primary m) (tr_Blocker ` f ` {i \<in> set is. tr_Readiness (f i) \<noteq> ReadinessReady})"
proof (induction "is" arbitrary: m)
  case (Cons i "is")
  let ?m = "add_row (f i) m"
  have "blockerRank (rm_primary ?m) \<le> blockerRank (rm_primary m)"
    and "tr_Readiness (f i) \<noteq> ReadinessReady \<Longrightarrow> blockerRank (rm_primary ?m) \<le> blockerRank (tr_Blocker (f i))"
    and "rm_primary ?m \<in> insert (rm_primary m) (tr_Blocker ` f ` {j \<in> {i}. tr_Readiness (f j) \<noteq> ReadinessReady})"
    by auto
  with Cons [of ?m] show ?case by (auto intro: order_trans)
qed simp

text \<open>When the plan and its activities are valid and the lifecycle is a known one.\<close>

definition projectable :: "tasks \<Rightarrow> json gomap \<Rightarrow> string \<Rightarrow> bool" where
  "projectable p persisted lifecycle \<longleftrightarrow>
     plan_wellformed p \<and> plan_acyclic p \<and> activities_ok (map task_ID (tasks_Tasks p)) persisted \<and>
     lifecycle \<in> {LifecyclePlanning, LifecycleApproved, LifecycleExecuting, LifecycleReconciling,
       LifecycleArchived}"

lemma readinessApprovalBlocker_None:
  "readinessApprovalBlocker lc ap = None \<longleftrightarrow> lc = ''approved'' \<and> aps_Current ap"
  by (simp add: readinessApprovalBlocker_def)

lemma readinessApprovalBlocker_invalid:
  "map_option rb_Code (readinessApprovalBlocker lc ap) = Some ''plan_invalid'' \<longleftrightarrow>
     lc \<notin> {LifecyclePlanning, LifecycleApproved, LifecycleExecuting, LifecycleReconciling,
       LifecycleArchived}"
  by (auto simp: readinessApprovalBlocker_def blocker_def LifecyclePlanning_def LifecycleApproved_def
      LifecycleExecuting_def LifecycleReconciling_def LifecycleArchived_def)

lemma ProjectReadiness_cases:
  obtains (invalid) "\<not> projectable p persisted lc"
      and "ProjectReadiness p persisted lc ap = invalidReadinessModel"
  | (projected) g byID where "projectable p persisted lc" and "BuildTaskGraph p = Inr g"
      and "graph_ok (tasks_Tasks p) g"
      and "\<And>i. i \<in> task_ID ` set (tasks_Tasks p) \<Longrightarrow> map_get [] byID i = activity_of persisted i"
      and "ProjectReadiness p persisted lc ap =
        fold (\<lambda>i. add_row (row_at g byID (readinessApprovalBlocker lc ap) i)) (map task_ID (tasks_Tasks p))
          \<lparr>rm_tasks = [], rm_frontier = [], rm_planInvalid = None,
           rm_primary = readinessApprovalBlocker lc ap, rm_global = readinessApprovalBlocker lc ap\<rparr>"
proof (cases rule: BuildTaskGraph_cases [of p])
  case (built g)
  let ?ids = "map task_ID (tasks_Tasks p)" and ?global = "readinessApprovalBlocker lc ap"
  have auth: "AuthoredOrder g = ?ids" using built by (simp add: graph_ok_def AuthoredOrder_def)
  show thesis
  proof (cases "activities_ok ?ids persisted")
    case False
    then obtain e where "ProjectTaskActivities ?ids persisted = Inl e"
      using ProjectTaskActivities_cases [of ?ids persisted] by auto
    with False show ?thesis
      using built auth by (intro invalid) (simp_all add: projectable_def ProjectReadiness_def)
  next
    case True
    then have acts: "ProjectTaskActivities ?ids persisted =
        Inr (map (\<lambda>i. \<lparr>ar_ID = i, ar_Activity = activity_of persisted i\<rparr>) ?ids)"
      using ProjectTaskActivities_cases [of ?ids persisted] by simp
    let ?byID = "index_activities Map.empty (map (\<lambda>i. \<lparr>ar_ID = i, ar_Activity = activity_of persisted i\<rparr>) ?ids)"
    have dist: "distinct ?ids" using True by (simp add: activities_ok_def)
    show ?thesis
    proof (cases "map_option rb_Code ?global = Some ''plan_invalid''")
      case True
      then have "\<not> projectable p persisted lc"
        unfolding readinessApprovalBlocker_invalid by (simp add: projectable_def)
      with True show ?thesis using built acts auth by (intro invalid) (simp_all add: ProjectReadiness_def Let_def)
    next
      case False
      have waves: "\<forall>i \<in> set ?ids. Wave g i \<noteq> None"
        using built(4) by (auto simp: graph_ok_def wave_spec_def Wave_def)
      have proj: "projectable p persisted lc"
        using False True built unfolding readinessApprovalBlocker_invalid by (simp add: projectable_def)
      have byID: "map_get [] ?byID i = activity_of persisted i" if "i \<in> task_ID ` set (tasks_Tasks p)" for i
        using index_activities_get [OF dist, of Map.empty "activity_of persisted" i] that
        by (simp del: map_map add: map_get_def)
      have "ProjectReadiness p persisted lc ap = project_loop g ?byID ?global ?ids
          \<lparr>rm_tasks = [], rm_frontier = [], rm_planInvalid = None, rm_primary = ?global, rm_global = ?global\<rparr>"
        using False built(3) acts by (simp only: ProjectReadiness_def auth sum.case Let_def if_False)
      then show ?thesis
        using project_loop_known [OF waves] by (intro projected [OF proj built(3,4) byID]) simp_all
    qed
  qed
qed (auto intro!: invalid simp: ProjectReadiness_def projectable_def)

lemma BuildTaskGraph_Inr:
  assumes "BuildTaskGraph p = Inr g"
  shows "plan_wellformed p" "plan_acyclic p" "graph_ok (tasks_Tasks p) g"
  using assms by (cases rule: BuildTaskGraph_cases [of p]; simp)+

lemma activities_distinct [simp]:
  "TaskPending \<noteq> TaskInProgress" "TaskPending \<noteq> TaskCompleted" "TaskPending \<noteq> TaskFailed"
  "TaskPending \<noteq> TaskBlocked" "TaskInProgress \<noteq> TaskPending" "TaskInProgress \<noteq> TaskCompleted"
  "TaskInProgress \<noteq> TaskFailed" "TaskInProgress \<noteq> TaskBlocked" "TaskCompleted \<noteq> TaskPending"
  "TaskCompleted \<noteq> TaskInProgress" "TaskCompleted \<noteq> TaskFailed" "TaskCompleted \<noteq> TaskBlocked"
  "TaskFailed \<noteq> TaskPending" "TaskFailed \<noteq> TaskInProgress" "TaskFailed \<noteq> TaskCompleted"
  "TaskFailed \<noteq> TaskBlocked" "TaskBlocked \<noteq> TaskPending" "TaskBlocked \<noteq> TaskInProgress"
  "TaskBlocked \<noteq> TaskCompleted" "TaskBlocked \<noteq> TaskFailed"
  by (simp_all add: activity_defs)

lemma deriveTaskReadiness_ready:
  "fst (deriveTaskReadiness a deps acts global) = ReadinessReady \<longleftrightarrow>
     global = None \<and> a = TaskPending \<and> (\<forall>d \<in> set deps. map_get [] acts d = TaskCompleted)"
proof (cases global)
  case None
  show ?thesis
  proof (cases "a = TaskPending")
    case True
    then show ?thesis using None
      by (simp add: deriveTaskReadiness_def readiness_defs dependency_incomplete_iff)
  next
    case False
    then show ?thesis using None
      by (simp add: deriveTaskReadiness_def readiness_defs split: if_split)
  qed
qed (simp add: deriveTaskReadiness_def readiness_defs)

lemma deriveTaskReadiness_blocker:
  "fst (deriveTaskReadiness a deps acts global) \<noteq> ReadinessReady \<Longrightarrow>
     \<exists>b. snd (deriveTaskReadiness a deps acts global) = Some b"
  by (auto simp: deriveTaskReadiness_def readiness_defs split: option.splits)

lemma graph_deps:
  assumes "projectable p persisted lc" and "graph_ok (tasks_Tasks p) g" and "t \<in> set (tasks_Tasks p)"
  shows "Dependencies g (task_ID t) = task_DependsOn t"
    and "set (task_DependsOn t) \<subseteq> task_ID ` set (tasks_Tasks p)"
  using assms dep_map_task [of "tasks_Tasks p" t]
  by (auto simp: projectable_def plan_wellformed_def rows_ok_def deps_ok_def graph_ok_def Dependencies_def)

text \<open>A task may start: it is pending, and every task it depends on is completed.\<close>

definition may_start :: "tasks \<Rightarrow> json gomap \<Rightarrow> task \<Rightarrow> bool" where
  "may_start p persisted t \<longleftrightarrow> t \<in> set (tasks_Tasks p) \<and>
     activity_of persisted (task_ID t) = TaskPending \<and>
     (\<forall>d \<in> set (task_DependsOn t). activity_of persisted d = TaskCompleted)"

lemma frontier_eq:
  "set (rm_frontier (ProjectReadiness p persisted lc ap)) =
     (if projectable p persisted lc \<and> lc = ''approved'' \<and> aps_Current ap
      then task_ID ` {t. may_start p persisted t} else {})"
proof (cases rule: ProjectReadiness_cases [of p persisted lc ap])
  case (projected g byID)
  let ?global = "readinessApprovalBlocker lc ap"
  have "tr_Readiness (row_at g byID ?global (task_ID t)) = ReadinessReady \<longleftrightarrow>
      ?global = None \<and> may_start p persisted t" if t: "t \<in> set (tasks_Tasks p)" for t
    using graph_deps [OF projected(1,3) t] projected(4) t
    by (auto simp: deriveTaskReadiness_ready may_start_def subset_iff)
  moreover have "?global = None \<longleftrightarrow> lc = ''approved'' \<and> aps_Current ap"
    by (rule readinessApprovalBlocker_None)
  moreover have "may_start p persisted t \<Longrightarrow> t \<in> set (tasks_Tasks p)" for t
    by (simp add: may_start_def)
  ultimately show ?thesis
    using projected(1) unfolding projected(5) fold_add_row by (auto simp del: row_at_simps(4)) 
qed (simp add: invalidReadinessModel_def)

lemma frontier_mem:
  "InFrontier (ProjectReadiness p persisted lc ap) i \<longleftrightarrow>
     projectable p persisted lc \<and> lc = ''approved'' \<and> aps_Current ap \<and>
     (\<exists>t. may_start p persisted t \<and> i = task_ID t)"
  by (auto simp: InFrontier_def frontier_eq)

text \<open>C21: A task is in the frontier exactly when the plan is a well-formed acyclic table, the
  persisted activities are legal, the change is approved and that approval is current, the task is
  pending, and every task it depends on is completed.\<close>
theorem Frontier_iff:
  "InFrontier (ProjectReadiness p persisted lc ap) i \<longleftrightarrow>
     plan_wellformed p \<and> plan_acyclic p \<and> activities_ok (map task_ID (tasks_Tasks p)) persisted \<and>
     lc = ''approved'' \<and> aps_Current ap \<and> (\<exists>t. may_start p persisted t \<and> i = task_ID t)"
  by (auto simp: InFrontier_def frontier_eq projectable_def LifecycleApproved_def)

text \<open>C22: Work never gets stuck: in an approved change with a current approval, a valid plan and legal
  activities, where no task is in progress, failed or blocked, either every task is completed or the
  frontier offers one.\<close>
theorem Frontier_progress:
  assumes "plan_wellformed p" and "plan_acyclic p"
    and "activities_ok (map task_ID (tasks_Tasks p)) persisted" and "aps_Current ap"
    and "\<forall>t \<in> set (tasks_Tasks p). activity_of persisted (task_ID t) \<in> {TaskPending, TaskCompleted}"
  shows "AllComplete (ProjectReadiness p persisted ''approved'' ap) \<or>
    (\<exists>i. InFrontier (ProjectReadiness p persisted ''approved'' ap) i)"
proof (cases "\<forall>t \<in> set (tasks_Tasks p). activity_of persisted (task_ID t) = TaskCompleted")
  case True
  have "projectable p persisted ''approved''" using assms by (simp add: projectable_def LifecycleApproved_def)
  moreover have "readinessApprovalBlocker ''approved'' ap = None" using assms(4)
    by (simp add: readinessApprovalBlocker_None)
  ultimately show ?thesis using True
    by (cases rule: ProjectReadiness_cases [of p persisted "''approved''" ap])
       (auto simp: AllComplete_def fold_add_row list_all_iff)
next
  case False
  let ?open = "{task_ID t | t. t \<in> set (tasks_Tasks p) \<and> activity_of persisted (task_ID t) \<noteq> TaskCompleted}"
  let ?E = "dep_edges (tasks_Tasks p)"
  have "wf (?E\<inverse>)"
    using assms(2) finite_dep_edges by (intro finite_acyclic_wf_converse) (simp_all add: plan_acyclic_def)
  moreover obtain i0 where "i0 \<in> ?open" using False by blast
  ultimately obtain i where i: "i \<in> ?open" "\<And>d. (d, i) \<in> ?E\<inverse> \<Longrightarrow> d \<notin> ?open"
    by (rule wfE_min) blast
  then obtain t where t: "t \<in> set (tasks_Tasks p)" "i = task_ID t"
    "activity_of persisted i \<noteq> TaskCompleted" by auto
  have "activity_of persisted d = TaskCompleted" if d: "d \<in> set (task_DependsOn t)" for d
  proof -
    have "(i, d) \<in> ?E" using t d dep_edgesI by simp
    moreover have "d \<in> task_ID ` set (tasks_Tasks p)"
      using assms(1) t(1) d by (auto simp: plan_wellformed_def deps_ok_def)
    ultimately show ?thesis using i(2) by blast
  qed
  then have "may_start p persisted t" using assms(5) t by (auto simp: may_start_def)
  then show ?thesis using assms by (auto simp: frontier_mem projectable_def LifecycleApproved_def)
qed

definition approved_now :: approval_status where
  "approved_now = \<lparr>aps_Change = ''c'', aps_Current = True, aps_Approval = None, aps_BlockingArtifact = [],
     aps_Reason = [], aps_Recovery = []\<rparr>"

theorem Frontier_progress_witness:
  "\<exists>i. InFrontier (ProjectReadiness diamond [(''a'', JStr ''completed'')] ''approved'' approved_now) i"
proof -
  let ?acts = "[(''a'', JStr ''completed'')]"
  have built: "plan_wellformed diamond" "plan_acyclic diamond"
    using diamond_built BuildTaskGraph_Inr by blast+
  have acts: "activities_ok (map task_ID (tasks_Tasks diamond)) ?acts"
    by (simp add: activities_ok_def diamond_def activity_Valid_def taskActivities_def activity_defs)
  have "\<forall>t \<in> set (tasks_Tasks diamond). activity_of ?acts (task_ID t) \<in> {TaskPending, TaskCompleted}"
    by (simp add: diamond_def activity_of_def activity_defs)
  from Frontier_progress [OF built acts _ this, of approved_now]
  have "AllComplete (ProjectReadiness diamond ?acts ''approved'' approved_now) \<or> ?thesis"
    by (simp add: approved_now_def)
  moreover have "\<not> AllComplete (ProjectReadiness diamond ?acts ''approved'' approved_now)"
  proof (cases rule: ProjectReadiness_cases [of diamond ?acts "''approved''" approved_now])
    case (projected g byID)
    have "map_get [] byID ''b'' \<noteq> TaskCompleted"
      using projected(4) [of "''b''"] by (simp add: diamond_def activity_of_def)
    moreover have "''b'' \<in> set (map task_ID (tasks_Tasks diamond))" by (simp add: diamond_def)
    ultimately show ?thesis unfolding projected(5)
      by (auto simp: AllComplete_def fold_add_row list_all_iff)
  qed (simp add: invalidReadinessModel_def AllComplete_def)
  ultimately show ?thesis by blast
qed

lemma model_Task_row:
  assumes "rm_tasks m = map f ids" and "\<And>i. tr_ID (f i) = i"
  shows "model_Task m i = (if i \<in> set ids then Some (f i) else None)"
proof -
  have "find (\<lambda>row. tr_ID row = i) (map f ids) = (if i \<in> set ids then Some (f i) else None)"
    by (induction ids) (auto simp: assms(2))
  then show ?thesis by (simp add: model_Task_def assms(1))
qed

lemma retry_deps_iff:
  "retry_deps m ds \<longleftrightarrow> (\<forall>d \<in> set ds. \<exists>row. model_Task m d = Some row \<and> tr_Activity row = TaskCompleted)"
  by (induction ds) (auto split: option.splits)

text \<open>A failed task may be retried exactly under the frontier rule with failed in place of
  pending: everything valid, the approval current, and every task it depends on completed.\<close>
theorem CanRetry_iff:
  "CanRetry (ProjectReadiness p persisted lc ap) i \<longleftrightarrow>
     projectable p persisted lc \<and> lc = ''approved'' \<and> aps_Current ap \<and>
     (\<exists>t \<in> set (tasks_Tasks p). i = task_ID t \<and> activity_of persisted i = TaskFailed \<and>
        (\<forall>d \<in> set (task_DependsOn t). activity_of persisted d = TaskCompleted))"
proof (cases rule: ProjectReadiness_cases [of p persisted lc ap])
  case (projected g byID)
  let ?m = "ProjectReadiness p persisted lc ap" and ?global = "readinessApprovalBlocker lc ap"
  let ?ids = "map task_ID (tasks_Tasks p)" and ?row = "row_at g byID ?global"
  have rows: "rm_tasks ?m = map ?row ?ids" and none: "rm_planInvalid ?m = None" "rm_global ?m = ?global"
    unfolding projected(5) fold_add_row by simp_all
  note task = model_Task_row [OF rows row_at_simps(1)]
  have retry: "retry_deps ?m (task_DependsOn t) \<longleftrightarrow>
      (\<forall>d \<in> set (task_DependsOn t). activity_of persisted d = TaskCompleted)" if "t \<in> set (tasks_Tasks p)" for t
    using graph_deps(2) [OF projected(1,3) that] projected(4)
    by (force simp: retry_deps_iff task simp del: map_map)
  have "CanRetry ?m i \<longleftrightarrow> ?global = None \<and> i \<in> set ?ids \<and> activity_of persisted i = TaskFailed \<and>
      retry_deps ?m (Dependencies g i)"
    using projected(4) [of i] by (simp add: CanRetry_def none task)
  also have "\<dots> \<longleftrightarrow> ?global = None \<and> (\<exists>t \<in> set (tasks_Tasks p). i = task_ID t \<and>
      activity_of persisted i = TaskFailed \<and> (\<forall>d \<in> set (task_DependsOn t). activity_of persisted d = TaskCompleted))"
    using graph_deps(1) [OF projected(1,3)] retry by (auto simp del: retry_deps.simps)
  finally show ?thesis using projected(1) by (simp add: readinessApprovalBlocker_None)
qed (simp add: invalidReadinessModel_def CanRetry_def)


lemma blocker_simps [simp]:
  "rb_Code (blocker c ow a) = c" "rb_Action (blocker c ow a) = a"
  by (simp_all add: blocker_def)

lemma readinessApprovalBlocker_action:
  "readinessApprovalBlocker lc ap = Some b \<Longrightarrow> rb_Action b \<noteq> []"
  by (auto simp: readinessApprovalBlocker_def split: if_splits)

lemma deriveTaskReadiness_action:
  "snd (deriveTaskReadiness a deps acts global) = Some b \<Longrightarrow> (\<forall>g. global = Some g \<longrightarrow> rb_Action g \<noteq> []) \<Longrightarrow>
     rb_Action b \<noteq> []"
  by (auto simp: deriveTaskReadiness_def split: option.splits if_splits)

lemma blockerRank_Some: "blockerRank (Some b) < 99"
proof -
  have "blocker_ranks c = Some v \<Longrightarrow> v < 99" for c v
    by (auto simp: blocker_ranks_def split: if_splits)
  then show ?thesis by (simp add: blockerRank_def map_get_def split: option.split)
qed

lemma blockerRank_None: "blockerRank b = 99 \<longleftrightarrow> b = None"
  using blockerRank_Some [of "the b"] by (cases b) (auto simp: blockerRank_def)

lemma AllComplete_iff:
  "AllComplete (ProjectReadiness p persisted lc ap) \<longleftrightarrow>
     projectable p persisted lc \<and> lc = ''approved'' \<and> aps_Current ap \<and>
     (\<forall>t \<in> set (tasks_Tasks p). activity_of persisted (task_ID t) = TaskCompleted)"
proof (cases rule: ProjectReadiness_cases [of p persisted lc ap])
  case (projected g byID)
  then show ?thesis
    by (auto simp: AllComplete_def fold_add_row list_all_iff readinessApprovalBlocker_None)
qed (simp add: invalidReadinessModel_def AllComplete_def)

text \<open>An outcome without frontier and not complete names the most severe blocker of the model.\<close>

lemma primary_blocks:
  assumes "rm_frontier (ProjectReadiness p persisted lc ap) = []"
    and "\<not> AllComplete (ProjectReadiness p persisted lc ap)"
  shows "\<exists>b. rm_primary (ProjectReadiness p persisted lc ap) = Some b \<and> rb_Action b \<noteq> [] \<and>
    (\<forall>row \<in> set (rm_tasks (ProjectReadiness p persisted lc ap)). blockerRank (Some b) \<le> blockerRank (tr_Blocker row))"
proof (cases rule: ProjectReadiness_cases [of p persisted lc ap])
  case (projected g byID)
  let ?m = "ProjectReadiness p persisted lc ap" and ?global = "readinessApprovalBlocker lc ap"
  let ?ids = "map task_ID (tasks_Tasks p)" and ?row = "row_at g byID ?global"
  define m0 where "m0 = \<lparr>rm_tasks = [], rm_frontier = [], rm_planInvalid = None,
           rm_primary = ?global, rm_global = ?global\<rparr>"
  have m: "?m = fold (\<lambda>i. add_row (?row i)) ?ids m0" by (simp only: m0_def projected(5))
  have unready: "\<forall>i \<in> set ?ids. tr_Readiness (?row i) \<noteq> ReadinessReady"
    using assms(1) unfolding m fold_add_row(2) by (simp add: filter_empty_conv m0_def del: row_at_simps)
  note prim = fold_add_row_primary [of ?row ?ids m0, folded m]
  have rows: "rm_tasks ?m = map ?row ?ids" unfolding m fold_add_row(1) by (simp add: m0_def)
  have "rm_primary ?m \<noteq> None"
  proof (cases "?global = None")
    case True
    with assms(2) obtain i where "i \<in> set ?ids"
      unfolding m by (auto simp: AllComplete_def fold_add_row list_all_iff m0_def)
    moreover from this unready obtain b where "tr_Blocker (?row i) = Some b"
      using deriveTaskReadiness_blocker by (metis row_at_simps(4,5))
    ultimately have "blockerRank (rm_primary ?m) < 99"
      using prim unready blockerRank_Some [of b] by (metis order.strict_trans1)
    then show ?thesis by (auto simp: blockerRank_def split: option.splits)
  next
    case False
    then have "blockerRank (rm_primary ?m) < 99"
      using prim blockerRank_Some by (metis (no_types, lifting) m0_def not_None_eq order.strict_trans1 readiness_model.select_convs(4))
    then show ?thesis by (auto simp: blockerRank_def split: option.splits)
  qed
  then obtain b where b: "rm_primary ?m = Some b" by blast
  moreover have "rb_Action b \<noteq> []"
    using prim b readinessApprovalBlocker_action [of lc ap] deriveTaskReadiness_action
    by (fastforce simp: m0_def)
  ultimately show ?thesis using prim unready rows by fastforce
qed (simp add: invalidReadinessModel_def blockerForInvalidPlan_def)


lemma diamond_projectable:
  "activities_ok [''d'', ''b'', ''c'', ''a''] persisted \<Longrightarrow> projectable diamond persisted ''approved''"
proof -
  have "plan_wellformed diamond" "plan_acyclic diamond" using diamond_built BuildTaskGraph_Inr by blast+
  moreover have "map task_ID (tasks_Tasks diamond) = [''d'', ''b'', ''c'', ''a'']" by (simp add: diamond_def)
  ultimately show "activities_ok [''d'', ''b'', ''c'', ''a''] persisted \<Longrightarrow> projectable diamond persisted ''approved''"
    by (simp add: projectable_def LifecycleApproved_def)
qed

theorem CanRetry_iff_witness:
  "CanRetry (ProjectReadiness diamond [(''a'', JStr ''failed'')] ''approved'' approved_now) ''a''"
proof -
  have "activities_ok [''d'', ''b'', ''c'', ''a''] [(''a'', JStr ''failed'')]"
    by (simp add: activities_ok_def activity_Valid_def taskActivities_def activity_defs)
  from diamond_projectable [OF this] show ?thesis
    by (simp add: CanRetry_iff approved_now_def) (simp add: diamond_def activity_of_def activity_defs)
qed


end
