(* ===== verification/JsonText.thy ===== *)
theory JsonText
  imports GoJson
begin

text \<open>
  Reading JSON text, as \<open>encoding/json\<close> does: from the bytes of a file or a line to the values in
  it. \<open>read_text\<close> is the decoder's stream: the values in sequence, and whether what follows the
  last one is only white space. Malformed UTF-8 inside a string becomes U+FFFD, as in the library.
  The nesting limit of the library (10000) is not modelled. The second half proves that the compact
  encoding is read back.
\<close>

type_synonym json_text = "json list \<times> bool"

definition json_ws :: "char \<Rightarrow> bool" where
  "json_ws c \<longleftrightarrow> c \<in> {CHR '' '', CHR 0x09, CHR 0x0A, CHR 0x0D}"

definition skip_ws :: "string \<Rightarrow> string" where
  "skip_ws s = dropWhile json_ws s"

subsection \<open>Numbers\<close>

definition number_char :: "char \<Rightarrow> bool" where
  "number_char c \<longleftrightarrow> is_digit c \<or> c \<in> {CHR ''-'', CHR ''+'', CHR ''.'', CHR ''e'', CHR ''E''}"

definition digits1 :: "string \<Rightarrow> bool" where
  "digits1 s \<longleftrightarrow> s \<noteq> [] \<and> list_all is_digit s"

definition exponent_ok :: "string \<Rightarrow> bool" where
  "exponent_ok s = (case s of
     [] \<Rightarrow> True
   | c # r \<Rightarrow> (c = CHR ''e'' \<or> c = CHR ''E'') \<and>
       digits1 (case r of [] \<Rightarrow> [] | d # r' \<Rightarrow> if d = CHR ''+'' \<or> d = CHR ''-'' then r' else r))"

definition fraction_ok :: "string \<Rightarrow> bool" where
  "fraction_ok s = (case s of
     [] \<Rightarrow> True
   | c # r \<Rightarrow>
       if c = CHR ''.'' then digits1 (takeWhile is_digit r) \<and> exponent_ok (dropWhile is_digit r)
       else exponent_ok s)"

definition number_ok :: "string \<Rightarrow> bool" where
  "number_ok lit =
     (let s = (case lit of c # r \<Rightarrow> if c = CHR ''-'' then r else lit | [] \<Rightarrow> []);
          whole = takeWhile is_digit s
      in digits1 whole \<and> (hd whole = CHR ''0'' \<longrightarrow> length whole = 1) \<and> fraction_ok (dropWhile is_digit s))"

definition parse_number :: "string \<Rightarrow> (json \<times> string) option" where
  "parse_number s =
     (let lit = takeWhile number_char s in
      if number_ok lit then Some (JNum lit, dropWhile number_char s) else None)"

subsection \<open>Strings\<close>

definition utf8_encode :: "nat \<Rightarrow> string" where
  "utf8_encode r =
     (if r < 128 then [char_of r]
      else if r < 2048 then [char_of (192 + r div 64), char_of (128 + r mod 64)]
      else if r < 65536 then
        [char_of (224 + r div 4096), char_of (128 + r div 64 mod 64), char_of (128 + r mod 64)]
      else [char_of (240 + r div 262144), char_of (128 + r div 4096 mod 64),
            char_of (128 + r div 64 mod 64), char_of (128 + r mod 64)])"

definition replacement :: string where
  "replacement = utf8_encode 65533"

definition hex4 :: "string \<Rightarrow> nat option" where
  "hex4 s = (case s of
     a # b # c # d # _ \<Rightarrow>
       (case (hex_val a, hex_val b, hex_val c, hex_val d) of
          (Some w, Some x, Some y, Some z) \<Rightarrow> Some (4096 * w + 256 * x + 16 * y + z)
        | _ \<Rightarrow> None)
   | _ \<Rightarrow> None)"

definition simple_escape :: "char \<Rightarrow> char option" where
  "simple_escape c =
     (if c \<in> {CHR 0x22, CHR 0x5C, CHR ''/''} then Some c
      else if c = CHR ''b'' then Some CHR 0x08
      else if c = CHR ''f'' then Some CHR 0x0C
      else if c = CHR ''n'' then Some CHR 0x0A
      else if c = CHR ''r'' then Some CHR 0x0D
      else if c = CHR ''t'' then Some CHR 0x09
      else None)"

definition surrogate :: "nat \<Rightarrow> bool" where
  "surrogate r \<longleftrightarrow> 55296 \<le> r \<and> r < 57344"

text \<open>The bytes after \<open>\u\<close>: the encoded rune and how many bytes it took. A surrogate pairs with a
  directly following low surrogate escape, else it is replaced.\<close>

definition parse_unicode :: "string \<Rightarrow> (string \<times> nat) option" where
  "parse_unicode s = (case hex4 s of
     None \<Rightarrow> None
   | Some r \<Rightarrow>
       if surrogate r then
         (if r < 56320 \<and> take 2 (drop 4 s) = [CHR 0x5C, CHR ''u''] then
            (case hex4 (drop 6 s) of
               Some r2 \<Rightarrow>
                 if 56320 \<le> r2 \<and> r2 < 57344 then
                   Some (utf8_encode (65536 + 1024 * (r - 55296) + (r2 - 56320)), 10)
                 else Some (replacement, 4)
             | None \<Rightarrow> Some (replacement, 4))
          else Some (replacement, 4))
       else Some (utf8_encode r, 4))"

definition prepend :: "string \<Rightarrow> (string \<times> string) option \<Rightarrow> (string \<times> string) option" where
  "prepend p m = map_option (\<lambda>(s, r). (p @ s, r)) m"

function parse_chars :: "string \<Rightarrow> (string \<times> string) option" where
  "parse_chars [] = None"
| "parse_chars (c # cs) =
     (if c = CHR 0x22 then Some ([], cs)
      else if c = CHR 0x5C then
        (case cs of
           [] \<Rightarrow> None
         | e # r \<Rightarrow>
             if e = CHR ''u'' then
               (case parse_unicode r of
                  None \<Rightarrow> None | Some (x, k) \<Rightarrow> prepend x (parse_chars (drop k r)))
             else (case simple_escape e of None \<Rightarrow> None | Some x \<Rightarrow> prepend [x] (parse_chars r)))
      else if byte c < 32 then None
      else if byte c < 128 then prepend [c] (parse_chars cs)
      else let n = utf8_len (c # cs) in
        if n = 0 then prepend replacement (parse_chars cs)
        else prepend (take n (c # cs)) (parse_chars (drop (n - 1) cs)))"
  by pat_completeness auto
termination
  by (relation "measure length") auto

subsection \<open>Values\<close>

definition keyword :: "string \<Rightarrow> json \<Rightarrow> string \<Rightarrow> (json \<times> string) option" where
  "keyword w v s = (if has_prefix s w then Some (v, drop (length w) s) else None)"

text \<open>Every recursive call has read a byte, so the length of the text is fuel enough.\<close>

fun parse_value :: "nat \<Rightarrow> string \<Rightarrow> (json \<times> string) option"
and parse_items :: "nat \<Rightarrow> string \<Rightarrow> (json list \<times> string) option"
and parse_members :: "nat \<Rightarrow> string \<Rightarrow> ((string \<times> json) list \<times> string) option" where
  "parse_value 0 s = None"
| "parse_value (Suc n) s = (case skip_ws s of
     [] \<Rightarrow> None
   | c # r \<Rightarrow>
       if c = CHR ''{'' then
         (case skip_ws r of
            [] \<Rightarrow> None
          | d # r' \<Rightarrow>
              if d = CHR ''}'' then Some (JObj [], r')
              else map_option (\<lambda>(kvs, t). (JObj kvs, t)) (parse_members n (d # r')))
       else if c = CHR ''['' then
         (case skip_ws r of
            [] \<Rightarrow> None
          | d # r' \<Rightarrow>
              if d = CHR '']'' then Some (JArr [], r')
              else map_option (\<lambda>(vs, t). (JArr vs, t)) (parse_items n (d # r')))
       else if c = CHR 0x22 then map_option (\<lambda>(s, t). (JStr s, t)) (parse_chars r)
       else if c = CHR ''t'' then keyword ''true'' (JBool True) (c # r)
       else if c = CHR ''f'' then keyword ''false'' (JBool False) (c # r)
       else if c = CHR ''n'' then keyword ''null'' JNull (c # r)
       else parse_number (c # r))"
| "parse_items 0 s = None"
| "parse_items (Suc n) s = (case parse_value n s of
     None \<Rightarrow> None
   | Some (v, r) \<Rightarrow> (case skip_ws r of
       [] \<Rightarrow> None
     | c # r' \<Rightarrow>
         if c = CHR '','' then map_option (\<lambda>(vs, t). (v # vs, t)) (parse_items n r')
         else if c = CHR '']'' then Some ([v], r')
         else None))"
| "parse_members 0 s = None"
| "parse_members (Suc n) s = (case skip_ws s of
     [] \<Rightarrow> None
   | q # r \<Rightarrow>
       if q \<noteq> CHR 0x22 then None
       else (case parse_chars r of
         None \<Rightarrow> None
       | Some (k, r1) \<Rightarrow> (case skip_ws r1 of
           [] \<Rightarrow> None
         | c # r2 \<Rightarrow>
             if c \<noteq> CHR '':'' then None
             else (case parse_value n r2 of
               None \<Rightarrow> None
             | Some (v, r3) \<Rightarrow> (case skip_ws r3 of
                 [] \<Rightarrow> None
               | d # r4 \<Rightarrow>
                   if d = CHR '','' then map_option (\<lambda>(kvs, t). ((k, v) # kvs, t)) (parse_members n r4)
                   else if d = CHR ''}'' then Some ([(k, v)], r4)
                   else None)))))"

fun read_values :: "nat \<Rightarrow> string \<Rightarrow> json_text" where
  "read_values 0 s = ([], False)"
| "read_values (Suc n) s =
     (if skip_ws s = [] then ([], True)
      else (case parse_value (Suc (length s)) s of
          None \<Rightarrow> ([], False)
        | Some (v, r) \<Rightarrow> (v # fst (read_values n r), snd (read_values n r))))"

definition read_text :: "string \<Rightarrow> json_text" where
  "read_text s = read_values (Suc (length s)) s"

text \<open>\<open>json.Valid\<close>.\<close>

definition json_Valid :: "string \<Rightarrow> bool" where
  "json_Valid s = (case read_text s of ([_], True) \<Rightarrow> True | _ \<Rightarrow> False)"

definition text_tokens :: "json_text \<Rightarrow> token list" where
  "text_tokens t = concat (map tokens (fst t)) @ (if snd t then [] else [TErr])"

subsection \<open>The compact encoding is read back\<close>

text \<open>Well-formed UTF-8, and the values that survive a round trip: such strings, and numbers in the
  grammar of JSON.\<close>

function utf8_ok :: "string \<Rightarrow> bool" where
  "utf8_ok [] = True"
| "utf8_ok (c # cs) = (utf8_len (c # cs) \<noteq> 0 \<and> utf8_ok (drop (utf8_len (c # cs) - 1) cs))"
  by pat_completeness auto
termination
  by (relation "measure length") auto

fun json_ok :: "json \<Rightarrow> bool"
and items_ok :: "json list \<Rightarrow> bool"
and members_ok :: "(string \<times> json) list \<Rightarrow> bool" where
  "json_ok JNull = True"
| "json_ok (JBool b) = True"
| "json_ok (JNum n) = (number_ok n \<and> list_all number_char n)"
| "json_ok (JStr s) = utf8_ok s"
| "json_ok (JArr vs) = items_ok vs"
| "json_ok (JObj kvs) = members_ok kvs"
| "items_ok [] = True"
| "items_ok (v # vs) = (json_ok v \<and> items_ok vs)"
| "members_ok [] = True"
| "members_ok ((k, v) # kvs) = (utf8_ok k \<and> json_ok v \<and> members_ok kvs)"

lemma byte_ascii_neq [simp]:
  "128 \<le> byte c \<Longrightarrow> c \<noteq> CHR 0x22" "128 \<le> byte c \<Longrightarrow> c \<noteq> CHR 0x5C"
  by (auto simp: byte_def)

lemma char_of_byte [simp]: "char_of (byte c) = c"
  by (simp add: byte_def)

lemma byte_less: "byte c < 256"
  by (simp add: byte_def)

lemma utf8_len_cases:
  assumes "128 \<le> byte c" and "utf8_len (c # cs) \<noteq> 0"
  shows "2 \<le> utf8_len (c # cs) \<and> utf8_len (c # cs) \<le> length (c # cs) \<and>
    utf8_len (take (utf8_len (c # cs)) (c # cs) @ t) = utf8_len (c # cs) \<and>
    list_all (\<lambda>x. 128 \<le> byte x) (take (utf8_len (c # cs)) (c # cs))"
proof (cases cs)
  case Nil
  with assms show ?thesis by (simp add: utf8_len_def)
next
  case (Cons b r2)
  note cs = this
  have small: "\<not> byte c < 128" using assms(1) by simp
  show ?thesis
  proof (cases "194 \<le> byte c \<and> byte c < 224")
    case True
    with assms small cs have "utf8_len (c # cs) = 2" "cont_byte b" by (auto simp: utf8_len_def split: if_splits)
    with True small cs assms(1) show ?thesis by (simp add: utf8_len_def cont_byte_def)
  next
    case two: False
    show ?thesis
    proof (cases r2)
      case Nil
      have "utf8_len [c, b] = 0"
        unfolding utf8_len_def list.case if_not_P [OF small] if_not_P [OF two] by (rule refl)
      with cs Nil assms show ?thesis by simp
    next
      case (Cons d r3)
      note r2 = this
      show ?thesis
      proof (cases "224 \<le> byte c \<and> byte c < 240")
        case True
        let ?ok = "cont_byte b \<and> cont_byte d \<and> (byte c = 224 \<longrightarrow> 160 \<le> byte b) \<and> (byte c = 237 \<longrightarrow> byte b < 160)"
        have eq: "utf8_len (c # b # d # x) = (if ?ok then 3 else 0)" for x
          unfolding utf8_len_def list.case if_not_P [OF small] if_not_P [OF two] if_P [OF True] by (rule refl)
        with assms cs r2 have ?ok by (simp split: if_splits)
        then show ?thesis using cs r2 assms(1) by (simp add: eq cont_byte_def)
      next
        case three: False
        show ?thesis
        proof (cases r3)
          case Nil
          have "utf8_len [c, b, d] = 0"
            unfolding utf8_len_def list.case if_not_P [OF small] if_not_P [OF two] if_not_P [OF three] by (rule refl)
          with cs r2 Nil assms show ?thesis by simp
        next
          case (Cons e r4)
          let ?ok = "240 \<le> byte c \<and> byte c < 245 \<and> cont_byte b \<and> cont_byte d \<and> cont_byte e \<and>
              (byte c = 240 \<longrightarrow> 144 \<le> byte b) \<and> (byte c = 244 \<longrightarrow> byte b < 144)"
          have eq: "utf8_len (c # b # d # e # x) = (if ?ok then 4 else 0)" for x
            unfolding utf8_len_def list.case if_not_P [OF small] if_not_P [OF two] if_not_P [OF three]
            by (rule refl)
          with assms cs r2 Cons have ?ok by (simp split: if_splits)
          then show ?thesis using cs r2 Cons assms(1) by (simp add: eq cont_byte_def)
        qed
      qed
    qed
  qed
qed

lemma utf8_len_ascii [simp]: "byte c < 128 \<Longrightarrow> utf8_len (c # cs) = 1"
  by (simp add: utf8_len_def)

lemma ascii_utf8_ok: "\<forall>c \<in> set s. byte c < 128 \<Longrightarrow> utf8_ok s"
  by (induction s) auto

lemma hex_val_nibble: "n < 16 \<Longrightarrow> hex_val (hex_digit n) = Some n"
proof -
  have "\<forall>n \<in> set [0..<16]. hex_val (hex_digit n) = Some n" by code_simp
  then show "n < 16 \<Longrightarrow> hex_val (hex_digit n) = Some n" by simp
qed

lemma prepend_Some [simp]: "prepend p (Some (s, r)) = Some (p @ s, r)"
  by (simp add: prepend_def)

lemma hex4_byte:
  assumes "byte c < 128"
  shows "hex4 (CHR ''0'' # CHR ''0'' # hex_digit (byte c div 16) # hex_digit (byte c mod 16) # t) = Some (byte c)"
proof -
  have "hex_val CHR ''0'' = Some 0" by code_simp
  moreover have "hex_val (hex_digit (byte c div 16)) = Some (byte c div 16)"
    by (rule hex_val_nibble) (use assms in simp)
  moreover have "hex_val (hex_digit (byte c mod 16)) = Some (byte c mod 16)"
    by (rule hex_val_nibble) simp
  ultimately show ?thesis by (simp add: hex4_def)
qed

lemma parse_unicode_byte:
  "byte c < 128 \<Longrightarrow> parse_unicode (CHR ''0'' # CHR ''0'' # hex_digit (byte c div 16) # hex_digit (byte c mod 16) # t)
     = Some ([c], 4)"
  by (simp add: parse_unicode_def hex4_byte surrogate_def utf8_encode_def)

lemma parse_chars_esc:
  "byte c < 128 \<Longrightarrow> parse_chars (esc_char c @ t) = prepend [c] (parse_chars t)"
  using parse_unicode_byte [of c]
  by (simp add: esc_char_def simple_escape_def) 

lemma parse_unicode_u2028:
  "parse_unicode (''2028'' @ t) = Some ([CHR 0xE2, CHR 0x80, CHR 0xA8], 4)"
  "parse_unicode (''2029'' @ t) = Some ([CHR 0xE2, CHR 0x80, CHR 0xA9], 4)"
proof -
  have "hex_val CHR ''0'' = Some 0" "hex_val CHR ''2'' = Some 2" "hex_val CHR ''8'' = Some 8"
    "hex_val CHR ''9'' = Some 9" by code_simp+
  then have "hex4 (''2028'' @ t) = Some 8232" "hex4 (''2029'' @ t) = Some 8233" by (simp_all add: hex4_def)
  moreover have "utf8_encode 8232 = [CHR 0xE2, CHR 0x80, CHR 0xA8]" "utf8_encode 8233 = [CHR 0xE2, CHR 0x80, CHR 0xA9]"
    by (simp_all add: utf8_encode_def char_of_eq_iff take_bit_eq_mod)
  ultimately show "parse_unicode (''2028'' @ t) = Some ([CHR 0xE2, CHR 0x80, CHR 0xA8], 4)"
    "parse_unicode (''2029'' @ t) = Some ([CHR 0xE2, CHR 0x80, CHR 0xA9], 4)"
    by (simp_all only: parse_unicode_def option.case) (simp_all add: surrogate_def)
qed

lemma parse_chars_u2028:
  "parse_chars (CHR 0x5C # ''u2028'' @ t) = prepend [CHR 0xE2, CHR 0x80, CHR 0xA8] (parse_chars t)"
  "parse_chars (CHR 0x5C # ''u2029'' @ t) = prepend [CHR 0xE2, CHR 0x80, CHR 0xA9] (parse_chars t)"
  using parse_unicode_u2028 [of t] by (subst parse_chars.simps, simp del: parse_chars.simps)+

lemma parse_chars_step:
  assumes "128 \<le> byte c" and "utf8_len (c # u) = n" and "n \<noteq> 0"
  shows "parse_chars (c # u) = prepend (take n (c # u)) (parse_chars (drop (n - 1) u))"
proof -
  have "\<not> byte c < 32" "\<not> byte c < 128" using assms(1) by simp_all
  then show ?thesis using assms by (simp only: parse_chars.simps byte_ascii_neq if_False Let_def)
qed

lemma parse_chars_wide:
  assumes "128 \<le> byte c" and "utf8_len (c # cs) \<noteq> 0"
  shows "parse_chars (take (utf8_len (c # cs)) (c # cs) @ t) =
    prepend (take (utf8_len (c # cs)) (c # cs)) (parse_chars t)"
proof -
  let ?n = "utf8_len (c # cs)"
  note len = utf8_len_cases [OF assms]
  have split: "take ?n (c # cs) @ t = c # (take (?n - 1) cs @ t)"
    using len [of t] by (cases ?n) auto
  have eq: "utf8_len (c # (take (?n - 1) cs @ t)) = ?n" using len [of t] unfolding split by simp
  have "length (take (?n - 1) cs) = ?n - 1" using len [of t] by auto
  then have "drop (?n - 1) (take (?n - 1) cs @ t) = t" "take ?n (c # (take (?n - 1) cs @ t)) = take ?n (c # cs)"
    using len [of t] by (simp, cases ?n) auto
  from this show ?thesis
    unfolding split using parse_chars_step [OF assms(1) eq assms(2)] by metis
qed

lemma parse_chars_escape:
  "utf8_ok s \<Longrightarrow> parse_chars (json_escape s @ CHR 0x22 # r) = Some (s, r)"
proof (induction s rule: json_escape.induct)
  case (2 c cs)
  show ?case
  proof (cases "byte c < 128")
    case True
    with 2 show ?thesis by (simp add: parse_chars_esc)
  next
    case False
    then have c: "128 \<le> byte c" by simp
    let ?n = "utf8_len (c # cs)" and ?s = "c # cs"
    have n: "?n \<noteq> 0" using 2(6) by simp
    have ok: "utf8_ok (drop ?n ?s)" using 2(6) n by (cases ?n) auto
    note len = utf8_len_cases [OF c n]
    have three: "?n = 3" if E2: "take 3 ?s \<in> {[CHR 0xE2, CHR 0x80, CHR 0xA8], [CHR 0xE2, CHR 0x80, CHR 0xA9]}"
    proof -
      obtain w where w: "take 3 ?s = [CHR 0xE2, CHR 0x80, w]" "w = CHR 0xA8 \<or> w = CHR 0xA9"
        using E2 by blast
      then have "?s = [CHR 0xE2, CHR 0x80, w] @ drop 3 ?s" by (metis append_take_drop_id)
      then have "c = CHR 0xE2 \<and> (\<exists>x. cs = CHR 0x80 # w # x)" by (simp only: append_Cons append_Nil list.inject) blast
      then obtain x where s: "c = CHR 0xE2" "cs = CHR 0x80 # w # x" by blast
      note s = s w(2)
      show ?thesis using s by (auto simp: utf8_len_def cont_byte_def byte_def)
    qed
    show ?thesis
    proof (cases "take 3 ?s = [CHR 0xE2, CHR 0x80, CHR 0xA8]")
      case True
      then have "json_escape ?s = CHR 0x5C # ''u2028'' @ json_escape (drop 3 ?s)"
        unfolding json_escape.simps Let_def if_not_P [OF False] if_not_P [OF n] by (rule if_P)
      moreover have "parse_chars (json_escape (drop 3 ?s) @ CHR 0x22 # r) = Some (drop 3 ?s, r)"
        using 2(3) [OF False refl] n True ok three by simp
      moreover have "take 3 ?s @ drop 3 ?s = ?s" by simp
      moreover have "(CHR 0x5C # ''u2028'' @ json_escape (drop 3 ?s)) @ CHR 0x22 # r =
            CHR 0x5C # ''u2028'' @ (json_escape (drop 3 ?s) @ CHR 0x22 # r)" by (simp only: append_Cons append_assoc)
      ultimately show ?thesis unfolding True by (simp only: parse_chars_u2028(1) prepend_Some)
    next
      case nA: False
      show ?thesis
      proof (cases "take 3 ?s = [CHR 0xE2, CHR 0x80, CHR 0xA9]")
        case True
        then have "json_escape ?s = CHR 0x5C # ''u2029'' @ json_escape (drop 3 ?s)"
          unfolding json_escape.simps Let_def if_not_P [OF False] if_not_P [OF n] if_not_P [OF nA] by (rule if_P)
        moreover have "parse_chars (json_escape (drop 3 ?s) @ CHR 0x22 # r) = Some (drop 3 ?s, r)"
          using 2(4) [OF False refl] n True nA ok three by simp
        moreover have "take 3 ?s @ drop 3 ?s = ?s" by simp
        moreover have "(CHR 0x5C # ''u2029'' @ json_escape (drop 3 ?s)) @ CHR 0x22 # r =
            CHR 0x5C # ''u2029'' @ (json_escape (drop 3 ?s) @ CHR 0x22 # r)" by (simp only: append_Cons append_assoc)
        ultimately show ?thesis unfolding True by (simp only: parse_chars_u2028(2) prepend_Some)
      next
        case nB: False
        have "json_escape ?s = take ?n ?s @ json_escape (drop ?n ?s)"
          unfolding json_escape.simps Let_def if_not_P [OF False] if_not_P [OF n] if_not_P [OF nA] if_not_P [OF nB]
          by (rule refl)
        moreover have "parse_chars (json_escape (drop ?n ?s) @ CHR 0x22 # r) = Some (drop ?n ?s, r)"
          using 2(5) [OF False refl] n nA nB ok by simp
        ultimately show ?thesis using parse_chars_wide [OF c n, of "json_escape (drop ?n ?s) @ CHR 0x22 # r"]
          by (simp only: append_assoc prepend_Some append_take_drop_id)
      qed
    qed
  qed
qed simp

definition stops :: "string \<Rightarrow> bool" where
  "stops r \<longleftrightarrow> r = [] \<or> \<not> number_char (hd r)"

lemma stops_simps [simp]:
  "stops []" "stops (CHR '','' # r)" "stops (CHR '']'' # r)" "stops (CHR ''}'' # r)"
  by (simp_all add: stops_def number_char_def is_digit_def)

lemma skip_ws_simps [simp]: "skip_ws [] = []" "\<not> json_ws c \<Longrightarrow> skip_ws (c # r) = c # r"
  by (simp_all add: skip_ws_def)

lemma number_char_not:
  "number_char c \<Longrightarrow> \<not> json_ws c \<and> c \<notin> {CHR ''{'', CHR ''['', CHR '']'', CHR ''}'', CHR 0x22, CHR ''t'', CHR ''f'', CHR ''n''}"
  by (auto simp: number_char_def json_ws_def is_digit_def)

lemma json_ws_simps [simp]:
  "\<not> json_ws CHR ''{''" "\<not> json_ws CHR ''[''" "\<not> json_ws CHR '']''" "\<not> json_ws CHR ''}''" "\<not> json_ws CHR 0x22"
  "\<not> json_ws CHR ''t''" "\<not> json_ws CHR ''f''" "\<not> json_ws CHR ''n''" "\<not> json_ws CHR '',''" "\<not> json_ws CHR '':''"
  by (simp_all add: json_ws_def)

lemma number_ok_ne: "number_ok s \<Longrightarrow> s \<noteq> []"
  by (auto simp: number_ok_def digits1_def)

lemma json_bytes_head:
  "json_ok v \<Longrightarrow> \<exists>c cs. json_bytes v = c # cs \<and> \<not> json_ws c \<and> c \<noteq> CHR '']'' \<and> c \<noteq> CHR ''}''"
proof (cases v)
  case (JNum n)
  assume "json_ok v"
  with JNum obtain c cs where "n = c # cs" "number_char c" using number_ok_ne by (cases n) auto
  with JNum show ?thesis using number_char_not by auto
qed (auto simp: json_string_def)

lemma parse_number_stops:
  assumes "number_ok n" and "list_all number_char n" and "stops r"
  shows "parse_number (n @ r) = Some (JNum n, r)"
proof -
  have "takeWhile number_char (n @ r) = n" "dropWhile number_char (n @ r) = r"
    using assms(2,3) by (induction n) (cases r; auto simp: stops_def)+
  with assms(1) show ?thesis by (simp add: parse_number_def)
qed

lemma parse_string_literal:
  "utf8_ok s \<Longrightarrow> parse_chars (json_escape s @ [CHR 0x22] @ r) = Some (s, r)"
  using parse_chars_escape [of s r] by simp

lemma json_string_append: "json_string s @ r = CHR 0x22 # (json_escape s @ CHR 0x22 # r)"
  by (simp add: json_string_def)

lemma join_Cons: "ws \<noteq> [] \<Longrightarrow> join_with c (w # ws) = w @ c # join_with c ws"
  by (cases ws) auto

lemma items_ne [simp]: "json_items vs = [] \<longleftrightarrow> vs = []" "json_fields kvs = [] \<longleftrightarrow> kvs = []"
  by (cases vs; simp) (cases kvs; auto)

lemma parse_bytes:
  shows "json_ok v \<Longrightarrow> length (json_bytes v) \<le> n \<Longrightarrow> stops r \<Longrightarrow>
      parse_value n (json_bytes v @ r) = Some (v, r)"
    and "items_ok vs \<Longrightarrow> vs \<noteq> [] \<Longrightarrow> length (join_with CHR '','' (json_items vs)) < m \<Longrightarrow>
      parse_items m (join_with CHR '','' (json_items vs) @ CHR '']'' # r) = Some (vs, r)"
    and "members_ok kvs \<Longrightarrow> kvs \<noteq> [] \<Longrightarrow> length (join_with CHR '','' (json_fields kvs)) < m \<Longrightarrow>
      parse_members m (join_with CHR '','' (json_fields kvs) @ CHR ''}'' # r) = Some (kvs, r)"
proof (induction v and vs and kvs arbitrary: n r and m r and m r
    rule: json_bytes_json_items_json_fields.induct)
  case (3 x)
  then have ok: "number_ok x" "list_all number_char x" by auto
  then obtain c cs where x: "x = c # cs" "number_char c" using number_ok_ne by (cases x) auto
  obtain k where n: "n = Suc k" using 3 x by (cases n) auto
  have "parse_value n (x @ r) = parse_number (x @ r)"
    using x number_char_not [OF x(2)] n by (auto simp: skip_ws_def)
  then show ?case using parse_number_stops [OF ok 3(3)] by simp
next
  case (4 s)
  then obtain k where n: "n = Suc k" by (cases n) (auto simp: json_string_def)
  show ?case using parse_chars_escape [of s r] 4 n by (simp add: json_string_append)
next
  case (5 vs)
  then obtain k where n: "n = Suc k" by (cases n) auto
  show ?case
  proof (cases "vs = []")
    case True
    then show ?thesis using n by simp
  next
    case False
    obtain v vs' where vs: "vs = v # vs'" using False by (cases vs) auto
    obtain c cs where c: "json_bytes v = c # cs" "\<not> json_ws c" "c \<noteq> CHR '']''"
      using json_bytes_head [of v] 5(2) vs by auto
    have "\<exists>cs. join_with CHR '','' (json_items vs) = c # cs"
      using c vs by (cases "json_items vs'") auto
    then obtain cs where j: "join_with CHR '','' (json_items vs) = c # cs" by blast
    have "parse_items k (join_with CHR '','' (json_items vs) @ CHR '']'' # r) = Some (vs, r)"
      using 5(1) [of k r] 5(2,3) False n by simp
    then show ?thesis using n j c by simp
  qed
next
  case (6 kvs)
  then obtain k where n: "n = Suc k" by (cases n) auto
  show ?case
  proof (cases "kvs = []")
    case True
    then show ?thesis using n by simp
  next
    case False
    obtain x v kvs' where kvs: "kvs = (x, v) # kvs'" using False by (cases kvs) auto
    have "\<exists>cs. join_with CHR '','' (json_fields kvs) = CHR 0x22 # cs"
      using kvs by (cases "json_fields kvs'") (auto simp: json_string_def)
    then obtain cs where j: "join_with CHR '','' (json_fields kvs) = CHR 0x22 # cs" by blast
    have "parse_members k (join_with CHR '','' (json_fields kvs) @ CHR ''}'' # r) = Some (kvs, r)"
      using 6(1) [of k r] 6(2,3) False n by simp
    then show ?thesis using n j by simp
  qed
next
  case (8 v vs)
  then obtain k where m: "m = Suc k" by (cases m) auto
  show ?case
  proof (cases "vs = []")
    case True
    then have "parse_value k (json_bytes v @ CHR '']'' # r) = Some (v, CHR '']'' # r)"
      using 8(1) [of k "CHR '']'' # r"] 8(3,5) m by simp
    with True m show ?thesis by simp
  next
    case False
    let ?rest = "CHR '','' # join_with CHR '','' (json_items vs) @ CHR '']'' # r"
    have "parse_value k (json_bytes v @ ?rest) = Some (v, ?rest)"
      using 8(1) [of k ?rest] 8(3,5) m False by (simp add: join_Cons)
    moreover have "parse_items k (join_with CHR '','' (json_items vs) @ CHR '']'' # r) = Some (vs, r)"
      using 8(2) [of k r] 8(3,5) m False by (simp add: join_Cons)
    ultimately show ?thesis using m False by (simp add: join_Cons)
  qed
next
  case (10 x v kvs)
  then obtain k where m: "m = Suc k" by (cases m) auto
  have x: "utf8_ok x" using 10(3) by simp
  show ?case
  proof (cases "kvs = []")
    case True
    then have "parse_value k (json_bytes v @ CHR ''}'' # r) = Some (v, CHR ''}'' # r)"
      using 10(1) [of k "CHR ''}'' # r"] 10(3,5) m by simp
    with True m x show ?thesis
      by (simp add: json_string_append parse_chars_escape del: parse_chars.simps)
  next
    case False
    let ?rest = "CHR '','' # join_with CHR '','' (json_fields kvs) @ CHR ''}'' # r"
    have "parse_value k (json_bytes v @ ?rest) = Some (v, ?rest)"
      using 10(1) [of k ?rest] 10(3,5) m False by (simp add: join_Cons)
    moreover have "parse_members k (join_with CHR '','' (json_fields kvs) @ CHR ''}'' # r) = Some (kvs, r)"
      using 10(2) [of k r] 10(3,5) m False by (simp add: join_Cons)
    ultimately show ?thesis using m False x
      by (simp add: join_Cons json_string_append parse_chars_escape del: parse_chars.simps)
  qed
next
  case 1
  then obtain k where "n = Suc k" by (cases n) auto
  then show ?case by (simp add: keyword_def)
next
  case (2 b)
  then obtain k where "n = Suc k" by (cases n; cases b) auto
  then show ?case by (simp add: keyword_def)
qed simp_all

lemma read_text_bytes:
  assumes "json_ok v" and "skip_ws t = []"
  shows "read_text (json_bytes v @ t) = ([v], True)"
proof -
  obtain c cs where c: "json_bytes v = c # cs" "\<not> json_ws c" using json_bytes_head [OF assms(1)] by blast
  have stop: "stops t"
  proof (cases t)
    case (Cons d ds)
    then have "json_ws d" using assms(2) by (auto simp: skip_ws_def split: if_splits)
    then show ?thesis using Cons number_char_not by (auto simp: stops_def)
  qed simp
  have "parse_value (Suc (length (json_bytes v @ t))) (json_bytes v @ t) = Some (v, t)"
    by (rule parse_bytes(1) [OF assms(1) _ stop]) simp
  moreover have "read_values (length (json_bytes v @ t)) t = ([], True)"
    using assms(2) c by simp
  moreover have "skip_ws (json_bytes v @ t) \<noteq> []" using c by simp
  ultimately show ?thesis
    unfolding read_text_def by (simp del: parse_value.simps)
qed

text \<open>The compact encoding has no line feed, so a record is one line of its file.\<close>

lemma hex_digit_not_newline: "n < 16 \<Longrightarrow> hex_digit n \<noteq> CHR 0x0A"
  using hex_digit_cases [of n] by auto

lemma esc_char_no_newline: "byte c < 128 \<Longrightarrow> CHR 0x0A \<notin> set (esc_char c)"
proof -
  assume "byte c < 128"
  then have "hex_digit (byte c div 16) \<noteq> CHR 0x0A" "hex_digit (byte c mod 16) \<noteq> CHR 0x0A"
    by (intro hex_digit_not_newline; simp)+
  then show ?thesis by (auto simp: esc_char_def)
qed

lemma json_escape_no_newline: "CHR 0x0A \<notin> set (json_escape s)"
proof (induction s rule: json_escape.induct)
  case (2 c cs)
  show ?case
  proof (cases "byte c < 128")
    case True
    with 2 esc_char_no_newline [OF True] show ?thesis by simp
  next
    case False
    then have wide: "CHR 0x0A \<notin> set (take (utf8_len (c # cs)) (c # cs))" if "utf8_len (c # cs) \<noteq> 0"
      using utf8_len_cases [of c cs] that by (fastforce simp: list_all_iff byte_def)
    let ?n = "utf8_len (c # cs)" and ?s = "c # cs"
    note esc = json_escape.simps Let_def if_not_P [OF False]
    show ?thesis
    proof (cases "?n = 0")
      case True
      then have "json_escape ?s = CHR 0x5C # ''ufffd'' @ json_escape cs"
        unfolding esc by (rule if_P)
      with 2(2) [OF False refl True] show ?thesis by simp
    next
      case n: False
      note esc = esc if_not_P [OF n]
      show ?thesis
      proof (cases "take 3 ?s = [CHR 0xE2, CHR 0x80, CHR 0xA8]")
        case True
        then have "json_escape ?s = CHR 0x5C # ''u2028'' @ json_escape (drop 3 ?s)"
          unfolding esc by (rule if_P)
        with 2(3) [OF False refl n True] show ?thesis by simp
      next
        case nA: False
        note esc = esc if_not_P [OF nA]
        show ?thesis
        proof (cases "take 3 ?s = [CHR 0xE2, CHR 0x80, CHR 0xA9]")
          case True
          then have "json_escape ?s = CHR 0x5C # ''u2029'' @ json_escape (drop 3 ?s)"
            unfolding esc by (rule if_P)
          with 2(4) [OF False refl n nA True] show ?thesis by simp
        next
          case nB: False
          have "json_escape ?s = take ?n ?s @ json_escape (drop ?n ?s)"
            unfolding esc if_not_P [OF nB] by (rule refl)
          with 2(5) [OF False refl n nA nB] wide [OF n] show ?thesis by (simp only: set_append Un_iff simp_thms)
        qed
      qed
    qed
  qed
qed simp

lemma join_with_not_in:
  "\<forall>w \<in> set ws. x \<notin> set w \<Longrightarrow> x \<noteq> c \<Longrightarrow> x \<notin> set (join_with c ws)"
  by (induction c ws rule: join_with.induct) auto

lemma number_no_newline: "list_all number_char n \<Longrightarrow> CHR 0x0A \<notin> set n"
proof -
  assume "list_all number_char n"
  moreover have "\<not> number_char CHR 0x0A" by code_simp
  ultimately show ?thesis unfolding list_all_iff by blast
qed

lemma json_bytes_no_newline:
  shows "json_ok v \<Longrightarrow> CHR 0x0A \<notin> set (json_bytes v)"
    and "items_ok vs \<Longrightarrow> \<forall>w \<in> set (json_items vs). CHR 0x0A \<notin> set w"
    and "members_ok kvs \<Longrightarrow> \<forall>w \<in> set (json_fields kvs). CHR 0x0A \<notin> set w"
proof (induction v and vs and kvs rule: json_bytes_json_items_json_fields.induct)
  case (5 vs)
  then show ?case by (simp add: join_with_not_in)
next
  case (6 kvs)
  then show ?case by (simp add: join_with_not_in)
next
  case (10 k v kvs)
  then show ?case by (simp add: json_string_def json_escape_no_newline)
qed (simp_all add: json_string_def json_escape_no_newline number_no_newline)

end
