(* ===== verification/Persist.thy ===== *)
theory Persist
  imports Failure
begin

text \<open>
  \<open>internal/core/persist/atomic.go\<close>: replacing a file by way of a synced temporary and a rename.
  The operating system is an argument: for every call, by name, the error it returns or none. The
  hook is the failure-injection point of the code. What is returned beside the result is what the
  target file holds afterwards: its old content until the rename has happened, then the new one.
\<close>

type_synonym os_calls = "string \<Rightarrow> error option"
type_synonym hook = "(string \<Rightarrow> error option) option"

definition call_hook :: "hook \<Rightarrow> string \<Rightarrow> error + unit" where
  "call_hook h step = (case h of
     None \<Rightarrow> Inr ()
   | Some f \<Rightarrow> (case f step of None \<Rightarrow> Inr () | Some e \<Rightarrow> Inl (Wrapped [Str step, Str '': ''] e)))"

definition os_call :: "os_calls \<Rightarrow> string \<Rightarrow> msg \<Rightarrow> error + unit" where
  "os_call os step what = (case os step of None \<Rightarrow> Inr () | Some e \<Rightarrow> Inl (Wrapped what e))"

definition ErrDirectorySyncUnsupported :: error where
  "ErrDirectorySyncUnsupported = Failed [Str ''directory sync unsupported'']"

text \<open>\<open>errors.Is\<close>, and \<open>os.ErrInvalid\<close> as the operating system reports it.\<close>

definition ErrInvalid :: error where
  "ErrInvalid = Failed [Str ''invalid argument'']"

fun errors_Is :: "error \<Rightarrow> error \<Rightarrow> bool" where
  "errors_Is (Wrapped m e) t = (Wrapped m e = t \<or> errors_Is e t)"
| "errors_Is e t = (e = t)"

definition before_rename :: "os_calls \<Rightarrow> hook \<Rightarrow> error + unit" where
  "before_rename os h =
     bindE (call_hook h ''before-create'') (\<lambda>_.
     bindE (os_call os ''create'' [Str ''create temporary state: '']) (\<lambda>_.
     bindE (os_call os ''chmod'' [Str ''set temporary state mode: '']) (\<lambda>_.
     bindE (os_call os ''write'' [Str ''write temporary state: '']) (\<lambda>_.
     bindE (call_hook h ''after-write'') (\<lambda>_.
     bindE (os_call os ''sync'' [Str ''sync temporary state: '']) (\<lambda>_.
     bindE (call_hook h ''after-sync'') (\<lambda>_.
     bindE (os_call os ''close'' [Str ''close temporary state: '']) (\<lambda>_.
     bindE (call_hook h ''before-rename'') (\<lambda>_.
     os_call os ''rename'' [Str ''replace state: ''])))))))))"

definition AtomicReplace :: "os_calls \<Rightarrow> hook \<Rightarrow> 'c \<Rightarrow> 'c \<Rightarrow> (error + unit) \<times> 'c" where
  "AtomicReplace os h old data = (case before_rename os h of
     Inl e \<Rightarrow> (Inl e, old)
   | Inr _ \<Rightarrow> (case os ''sync-dir'' of
       None \<Rightarrow> (Inr (), data)
     | Some e \<Rightarrow>
         if errors_Is e ErrInvalid then (Inl (Wrapped [Str ''directory sync unsupported: ''] e), data)
         else (Inl (Wrapped [Str ''sync state directory: ''] e), data)))"

text \<open>The calls that all succeed.\<close>

definition os_ok :: os_calls where
  "os_ok = (\<lambda>_. None)"

lemma AtomicReplace_cases:
  obtains (replaced) "AtomicReplace os h old data = (Inr (), data)"
  | (kept) e where "AtomicReplace os h old data = (Inl e, old)"
  | (unsynced) e where "AtomicReplace os h old data = (Inl e, data)" and "os ''sync-dir'' \<noteq> None"
proof (cases "before_rename os h")
  case (Inr u)
  show thesis
  proof (cases "os ''sync-dir''")
    case None
    with Inr show ?thesis by (intro replaced) (simp add: AtomicReplace_def)
  next
    case (Some e)
    with Inr obtain e' where "AtomicReplace os h old data = (Inl e', data)"
      by (cases "errors_Is e ErrInvalid") (simp_all add: AtomicReplace_def)
    with Some show ?thesis by (intro unsynced) simp_all
  qed
qed (auto simp: AtomicReplace_def intro: kept)

lemma AtomicReplace_ok [simp]: "AtomicReplace os_ok None old data = (Inr (), data)"
  by (simp add: AtomicReplace_def before_rename_def call_hook_def os_call_def os_ok_def)

lemma AtomicReplace_Inr: "AtomicReplace os h old data = (Inr u, c) \<Longrightarrow> c = data"
  by (cases rule: AtomicReplace_cases [of os h old data]) auto

lemma AtomicReplace_content: "AtomicReplace os h old data = (r, c) \<Longrightarrow> c = old \<or> c = data"
  by (cases rule: AtomicReplace_cases [of os h old data]) auto

text \<open>An atomic replacement leaves the old or the new content and nothing else, whatever fails; it
  leaves the new content whenever it reports success, and reports an error with the new content in
  place only when the directory sync failed after the rename.\<close>
theorem AtomicReplace_old_or_new:
  "case AtomicReplace os h old data of
     (Inr _, c) \<Rightarrow> c = data
   | (Inl _, c) \<Rightarrow> c = old \<or> (c = data \<and> os ''sync-dir'' \<noteq> None)"
  by (cases rule: AtomicReplace_cases [of os h old data]) auto

end
