(* ===== verification/StateDoc.thy ===== *)
theory StateDoc
  imports JsonText Persist
begin

text \<open>
  The state document of a change: \<open>internal/core/state/state.go\<close> and \<open>mutate.go\<close>. A file is read
  as a \<open>json_text\<close>: the JSON values it holds in sequence and whether the text after them is clean
  (only white space) or malformed. A Go map or slice that may be nil is an option.
\<close>

definition repairNext :: string where
  "repairNext = ''repair corrupt state outside automated mutation''"

definition corrupt :: "msg \<Rightarrow> error" where
  "corrupt reason = refuse ''state_corrupt'' [] [] reason [Str repairNext]"

definition reprefix :: "string \<Rightarrow> error \<Rightarrow> error" where
  "reprefix prefix e = (case as_refusal e of
     Some r \<Rightarrow> refuse (rf_code r) (rf_root r) (rf_path r) (Str prefix # rf_reason r) (rf_next r)
   | None \<Rightarrow> corrupt (Str prefix # error_Error e))"

record state =
  st_SchemaVersion :: int
  st_Change :: string
  st_Stage :: string
  st_Condition :: string
  st_Revision :: u64
  st_Approvals :: "json list option"
  st_Tasks :: "json gomap option"
  st_CreatedBy :: string
  st_LastTransition :: string
  st_Extensions :: "json gomap"

record projection =
  pj_Change :: string
  pj_Schema :: int
  pj_Stage :: string
  pj_Condition :: string
  pj_Revision :: u64
  pj_NextAction :: string

definition SchemaVersion :: int where "SchemaVersion = 1"

definition Initial :: "string \<Rightarrow> string \<Rightarrow> state" where
  "Initial change creationID =
     \<lparr>st_SchemaVersion = SchemaVersion, st_Change = change, st_Stage = ''planning'',
      st_Condition = ''active'', st_Revision = 1, st_Approvals = Some [], st_Tasks = Some [],
      st_CreatedBy = creationID, st_LastTransition = creationID, st_Extensions = []\<rparr>"

definition validStage :: "string \<Rightarrow> bool" where
  "validStage s \<longleftrightarrow>
     s \<in> set [''planning'', ''approved'', ''executing'', ''reconciling'', ''archived'']"

definition state_Validate :: "state \<Rightarrow> string \<Rightarrow> error + unit" where
  "state_Validate s expected =
     (if st_SchemaVersion s \<noteq> SchemaVersion then
        Inl (refuse ''state_schema_unsupported'' [] []
          [Str ''unsupported schema version '', Str (show_int (st_SchemaVersion s))] [Str repairNext])
      else if st_Change s = [] \<or> st_Change s \<noteq> expected then
        Inl (refuse ''state_identity_mismatch'' [] []
          [Str ''state change '', Quo (st_Change s), Str '' does not match '', Quo expected] [Str repairNext])
      else if \<not> validStage (st_Stage s) then
        Inl (corrupt [Str ''invalid lifecycle stage '', Quo (st_Stage s)])
      else if st_Condition s \<noteq> ''active'' then
        Inl (corrupt [Str ''invalid lifecycle condition '', Quo (st_Condition s)])
      else if st_Revision s = 0 then Inl (corrupt [Str ''revision must be positive''])
      else if st_Approvals s = None then Inl (corrupt [Str ''approvals must be an array''])
      else if st_Tasks s = None then Inl (corrupt [Str ''tasks must be an object''])
      else if st_CreatedBy s = [] \<or> st_LastTransition s = [] then
        Inl (corrupt [Str ''creation and transition identities are required''])
      else Inr ())"

definition stage_actions :: "string \<rightharpoonup> string" where
  "stage_actions = map_of
     [(''planning'', ''author planning artifacts''), (''approved'', ''start execution''),
      (''executing'', ''complete tasks''), (''reconciling'', ''sync accepted specs''),
      (''archived'', ''inspect archived change'')]"

definition state_Project :: "state \<Rightarrow> projection" where
  "state_Project s =
     \<lparr>pj_Change = st_Change s, pj_Schema = st_SchemaVersion s, pj_Stage = st_Stage s,
      pj_Condition = st_Condition s, pj_Revision = st_Revision s,
      pj_NextAction = map_get [] stage_actions (st_Stage s)\<rparr>"

subsection \<open>Encoding and decoding\<close>

text \<open>Maps are written with sorted keys.\<close>

definition json_of_map :: "json gomap \<Rightarrow> json" where
  "json_of_map m = JObj (map (\<lambda>k. (k, map_get JNull (map_of m) k)) (gomap_keys m))"

definition state_json :: "state \<Rightarrow> json" where
  "state_json s = JObj (
     [(''schemaVersion'', JNum (show_int (st_SchemaVersion s))), (''change'', JStr (st_Change s)),
      (''stage'', JStr (st_Stage s)), (''condition'', JStr (st_Condition s)),
      (''revision'', json_u64 (st_Revision s)),
      (''approvals'', case st_Approvals s of None \<Rightarrow> JNull | Some vs \<Rightarrow> JArr vs),
      (''tasks'', case st_Tasks s of None \<Rightarrow> JNull | Some m \<Rightarrow> json_of_map m),
      (''createdBy'', JStr (st_CreatedBy s)), (''lastTransition'', JStr (st_LastTransition s))] @
     (if st_Extensions s = [] then [] else [(''extensions'', json_of_map (st_Extensions s))]))"

definition state_Encode :: "state \<Rightarrow> error + json_text" where
  "state_Encode s = bindE (state_Validate s (st_Change s)) (\<lambda>_. Inr ([state_json s], True))"

definition state_fields :: "string list" where
  "state_fields = [''schemaVersion'', ''change'', ''stage'', ''condition'', ''revision'', ''approvals'',
     ''tasks'', ''createdBy'', ''lastTransition'', ''extensions'']"

text \<open>Decoding into a map adds to the map already there, and \<open>null\<close> makes it nil.\<close>

definition decode_map :: "json gomap \<Rightarrow> json \<Rightarrow> json gomap option option" where
  "decode_map m v = (case v of
     JObj kvs \<Rightarrow> Some (Some (foldl (\<lambda>m (k, v). AList.update k v m) m kvs))
   | JNull \<Rightarrow> Some None
   | _ \<Rightarrow> None)"

definition put_string :: "json \<Rightarrow> (string \<Rightarrow> 's) \<Rightarrow> 's \<Rightarrow> 's option" where
  "put_string v f s = (case v of JStr x \<Rightarrow> Some (f x) | JNull \<Rightarrow> Some s | _ \<Rightarrow> None)"

definition set_state_field :: "string \<Rightarrow> json \<Rightarrow> state \<Rightarrow> state option" where
  "set_state_field n v s =
     (if n = ''schemaVersion'' then
        (case v of JNum x \<Rightarrow> map_option (\<lambda>i. s\<lparr>st_SchemaVersion := i\<rparr>) (num_int x)
         | JNull \<Rightarrow> Some s | _ \<Rightarrow> None)
      else if n = ''change'' then put_string v (\<lambda>x. s\<lparr>st_Change := x\<rparr>) s
      else if n = ''stage'' then put_string v (\<lambda>x. s\<lparr>st_Stage := x\<rparr>) s
      else if n = ''condition'' then put_string v (\<lambda>x. s\<lparr>st_Condition := x\<rparr>) s
      else if n = ''revision'' then
        (case v of JNum x \<Rightarrow> map_option (\<lambda>w. s\<lparr>st_Revision := w\<rparr>) (num_u64 x)
         | JNull \<Rightarrow> Some s | _ \<Rightarrow> None)
      else if n = ''approvals'' then
        (case v of JArr vs \<Rightarrow> Some (s\<lparr>st_Approvals := Some vs\<rparr>)
         | JNull \<Rightarrow> Some (s\<lparr>st_Approvals := None\<rparr>) | _ \<Rightarrow> None)
      else if n = ''tasks'' then
        map_option (\<lambda>m. s\<lparr>st_Tasks := m\<rparr>) (decode_map (case st_Tasks s of None \<Rightarrow> [] | Some m \<Rightarrow> m) v)
      else if n = ''createdBy'' then put_string v (\<lambda>x. s\<lparr>st_CreatedBy := x\<rparr>) s
      else if n = ''lastTransition'' then put_string v (\<lambda>x. s\<lparr>st_LastTransition := x\<rparr>) s
      else if n = ''extensions'' then
        map_option (\<lambda>m. s\<lparr>st_Extensions := (case m of None \<Rightarrow> [] | Some m \<Rightarrow> m)\<rparr>)
          (decode_map (st_Extensions s) v)
      else None)"

fun decode_state_fields :: "(string \<times> json) list \<Rightarrow> state \<Rightarrow> state option" where
  "decode_state_fields [] s = Some s"
| "decode_state_fields ((k, v) # kvs) s = (case find_field state_fields k of
     None \<Rightarrow> None
   | Some n \<Rightarrow> Option.bind (set_state_field n v s) (decode_state_fields kvs))"

definition zero_state :: state where
  "zero_state =
     \<lparr>st_SchemaVersion = 0, st_Change = [], st_Stage = [], st_Condition = [], st_Revision = 0,
      st_Approvals = None, st_Tasks = None, st_CreatedBy = [], st_LastTransition = [], st_Extensions = []\<rparr>"

definition state_of_json :: "json \<Rightarrow> state option" where
  "state_of_json v = (case v of
     JObj kvs \<Rightarrow> decode_state_fields kvs zero_state | JNull \<Rightarrow> Some zero_state | _ \<Rightarrow> None)"

text \<open>The walk of \<open>state.go\<close> is that of \<open>record.go\<close> with its errors turned into refusals.\<close>

definition state_rejectDuplicateKeys :: "token list \<Rightarrow> error + unit" where
  "state_rejectDuplicateKeys ts =
     bindE (map_err (reprefix ''decode state: '') (walk (Suc (length ts)) ts)) (\<lambda>rest. case rest of
       [] \<Rightarrow> Inr ()
     | TErr # _ \<Rightarrow> Inl (corrupt [Str ''decode state: '', Str ''encoding/json''])
     | _ \<Rightarrow> Inl (corrupt [Str ''decode state: trailing JSON value'']))"

definition state_Decode :: "json_text \<Rightarrow> string \<Rightarrow> error + state" where
  "state_Decode doc expected =
     bindE (state_rejectDuplicateKeys (text_tokens doc)) (\<lambda>_.
     case fst doc of
       [] \<Rightarrow> Inl (corrupt (Str ''decode state: '' # error_Error json_error))
     | v # rest \<Rightarrow> (case state_of_json v of
         None \<Rightarrow> Inl (corrupt (Str ''decode state: '' # error_Error json_error))
       | Some s \<Rightarrow>
           if rest \<noteq> [] then Inl (corrupt [Str ''decode state: trailing JSON value''])
           else if \<not> snd doc then Inl (corrupt [Str ''decode state: '', Str ''encoding/json''])
           else bindE (map_err (reprefix ''validate state: '') (state_Validate s expected)) (\<lambda>_. Inr s)))"

subsection \<open>Mutation under the change lock\<close>

definition stale_revision :: "string \<Rightarrow> u64 \<Rightarrow> u64 \<Rightarrow> error" where
  "stale_revision path expected current =
     refuse ''stale_revision'' [] path
       [Str ''expected '', Dec (unat expected), Str '', current '', Dec (unat current)]
       [Str ''retry from revision '', Dec (unat current)]"

text \<open>The body \<open>Mutate\<close> runs under the lock: the file before, absent when it cannot be read, and the
  file after. The mutator is the client's.\<close>

definition Mutate :: "os_calls \<Rightarrow> string \<Rightarrow> string \<Rightarrow> u64 \<Rightarrow> (state \<Rightarrow> error + state) \<Rightarrow> json_text option
    \<Rightarrow> (error + state) \<times> json_text option" where
  "Mutate os path expectedChange expectedRevision mutate file = (case file of
     None \<Rightarrow> (Inl (Wrapped [Str ''read state: ''] (Failed [Str ''no such file''])), file)
   | Some data \<Rightarrow> (case state_Decode data expectedChange of
       Inl e \<Rightarrow> (Inl e, file)
     | Inr current \<Rightarrow>
         if st_Revision current \<noteq> expectedRevision then
           (Inl (stale_revision path expectedRevision (st_Revision current)), file)
         else (case mutate current of
             Inl e \<Rightarrow> (Inl e, file)
           | Inr m \<Rightarrow>
               let nxt = m\<lparr>st_Revision := st_Revision m + 1\<rparr> in
               if st_Change nxt \<noteq> st_Change current \<or> st_SchemaVersion nxt \<noteq> st_SchemaVersion current then
                 (Inl (Failed [Str ''mutation cannot change state identity or schema'']), file)
               else (case state_Encode nxt of
                   Inl e \<Rightarrow> (Inl e, file)
                 | Inr encoded \<Rightarrow> (case AtomicReplace os None file (Some encoded) of
                     (Inl e, file') \<Rightarrow> (Inl e, file')
                   | (Inr _, file') \<Rightarrow> (Inr nxt, file'))))))"

subsection \<open>Round trip\<close>

definition norm_map :: "json gomap \<Rightarrow> json gomap" where
  "norm_map m = map (\<lambda>k. (k, map_get JNull (map_of m) k)) (gomap_keys m)"

lemma update_fresh: "k \<notin> fst ` set m \<Longrightarrow> AList.update k v m = m @ [(k, v)]"
  by (induction m) auto

lemma foldl_update_fresh:
  "distinct (map fst (m @ kvs)) \<Longrightarrow> foldl (\<lambda>m (k, v). AList.update k v m) m kvs = m @ kvs"
proof (induction kvs arbitrary: m)
  case (Cons kv kvs)
  then have "foldl (\<lambda>m (k, v). AList.update k v m) (m @ [kv]) kvs = (m @ [kv]) @ kvs"
    by (intro Cons.IH) auto
  with Cons show ?case by (cases kv) (auto simp: update_fresh)
qed simp

lemma map_fst_norm_map: "map fst (norm_map m) = gomap_keys m"
  by (simp add: norm_map_def comp_def)

lemma norm_map_distinct: "gomap_ok m \<Longrightarrow> distinct (map fst (norm_map m))"
  by (simp add: map_fst_norm_map gomap_ok_def gomap_keys_def)

lemma map_of_keyed: "map_of (map (\<lambda>k. (k, f k)) ks) k = (if k \<in> set ks then Some (f k) else None)"
  by (induction ks) auto

lemma map_of_norm_map [simp]: "map_of (norm_map m) = map_of m"
  by (rule ext) (simp add: norm_map_def map_of_keyed domIff map_get_def split: option.split)

lemma json_of_map_norm: "json_of_map m = JObj (norm_map m)"
  by (simp add: json_of_map_def norm_map_def)

lemma norm_map_Nil [simp]: "norm_map [] = []"
  by (simp add: norm_map_def gomap_keys_def)

definition norm_state :: "state \<Rightarrow> state" where
  "norm_state s = s\<lparr>st_Tasks := map_option norm_map (st_Tasks s), st_Extensions := norm_map (st_Extensions s)\<rparr>"

text \<open>What can be written and read back: the maps are maps, and no raw message repeats a key.\<close>

definition state_raws :: "state \<Rightarrow> json list" where
  "state_raws s = (case st_Approvals s of None \<Rightarrow> [] | Some vs \<Rightarrow> vs) @
     (case st_Tasks s of None \<Rightarrow> [] | Some m \<Rightarrow> map snd m) @ map snd (st_Extensions s)"

definition state_writable :: "state \<Rightarrow> bool" where
  "state_writable s \<longleftrightarrow> (case st_Tasks s of None \<Rightarrow> True | Some m \<Rightarrow> gomap_ok m) \<and>
     gomap_ok (st_Extensions s) \<and> list_all keys_distinct (state_raws s)"

lemma state_Validate_iff:
  "state_Validate s c = Inr () \<longleftrightarrow> st_SchemaVersion s = 1 \<and> st_Change s = c \<and> c \<noteq> [] \<and>
     validStage (st_Stage s) \<and> st_Condition s = ''active'' \<and> st_Revision s \<noteq> 0 \<and>
     st_Approvals s \<noteq> None \<and> st_Tasks s \<noteq> None \<and> st_CreatedBy s \<noteq> [] \<and> st_LastTransition s \<noteq> []"
  by (auto simp: state_Validate_def SchemaVersion_def)

lemma decode_map_fresh:
  "gomap_ok m \<Longrightarrow> decode_map [] (JObj (norm_map m)) = Some (Some (norm_map m))"
  using foldl_update_fresh [of "[]" "norm_map m"] norm_map_distinct [of m] by (simp add: decode_map_def)

lemma num_int_one [simp]: "num_int (show_int 1) = Some 1"
  using num_int_show [of 1] by simp

lemma state_of_json_state_json:
  assumes "state_Validate s c = Inr ()" and "state_writable s"
  shows "state_of_json (state_json s) = Some (norm_state s)"
proof -
  from assms(1) obtain ap m where [simp]: "st_Approvals s = Some ap" "st_Tasks s = Some m"
    and v: "st_SchemaVersion s = 1" by (auto simp: state_Validate_iff)
  have m: "gomap_ok m" "gomap_ok (st_Extensions s)" using assms(2) by (auto simp: state_writable_def)
  show ?thesis
    by (cases "st_Extensions s = []")
       (simp_all add: state_of_json_def state_json_def find_field_def state_fields_def set_state_field_def
          put_string_def zero_state_def json_of_map_norm decode_map_fresh m v norm_state_def json_u64_def
          json_nat_def)
qed

lemma items_distinct_list: "items_distinct vs \<longleftrightarrow> list_all keys_distinct vs"
  by (induction vs) auto

lemma fields_distinct_list: "fields_distinct kvs \<longleftrightarrow> list_all keys_distinct (map snd kvs)"
  by (induction kvs) auto

lemma norm_map_set: "set (norm_map m) \<subseteq> set m"
proof -
  have "(k, v) \<in> set m" if "k \<in> dom (map_of m)" "v = map_get JNull (map_of m) k" for k v
    using that by (auto dest: map_of_SomeD)
  then show ?thesis by (auto simp: norm_map_def)
qed

lemma keys_distinct_map:
  assumes "gomap_ok m" and "list_all keys_distinct (map snd m)"
  shows "keys_distinct (json_of_map m)"
proof -
  have "\<forall>kv \<in> set (norm_map m). keys_distinct (snd kv)"
    using norm_map_set [of m] assms(2) by (auto simp: list_all_iff)
  then show ?thesis
    using norm_map_distinct [OF assms(1)]
    by (simp add: json_of_map_norm fields_distinct_list list_all_iff)
qed

lemma keys_distinct_state_json: "state_writable s \<Longrightarrow> keys_distinct (state_json s)"
  by (auto simp: state_writable_def state_json_def state_raws_def fields_distinct_list items_distinct_list
      json_u64_def json_nat_def keys_distinct_map split: option.splits)

lemma state_rejectDuplicateKeys_ok:
  "keys_distinct v \<Longrightarrow> state_rejectDuplicateKeys (text_tokens ([v], True)) = Inr ()"
  using walk_tokens(1) [of v "Suc (length (tokens v))" "[]"]
  by (simp add: state_rejectDuplicateKeys_def text_tokens_def)

lemma state_Decode_valid: "state_Decode doc c = Inr s \<Longrightarrow> state_Validate s c = Inr ()"
  by (auto simp: state_Decode_def split: list.splits option.splits if_splits)

lemma norm_state_simps [simp]:
  "st_SchemaVersion (norm_state s) = st_SchemaVersion s" "st_Change (norm_state s) = st_Change s"
  "st_Stage (norm_state s) = st_Stage s" "st_Condition (norm_state s) = st_Condition s"
  "st_Revision (norm_state s) = st_Revision s" "st_Approvals (norm_state s) = st_Approvals s"
  "st_CreatedBy (norm_state s) = st_CreatedBy s" "st_LastTransition (norm_state s) = st_LastTransition s"
  by (simp_all add: norm_state_def)

lemma state_Validate_norm [simp]: "state_Validate (norm_state s) c = state_Validate s c"
  by (cases "st_Tasks s") (simp_all add: state_Validate_def norm_state_def)

lemma state_Decode_json:
  assumes "state_Validate s c = Inr ()" and "state_writable s"
  shows "state_Decode ([state_json s], True) c = Inr (norm_state s)"
  using assms state_rejectDuplicateKeys_ok [OF keys_distinct_state_json [OF assms(2)]]
  by (simp add: state_Decode_def state_of_json_state_json [OF assms])



subsection \<open>Mutation\<close>

lemma Mutate_cases:
  obtains (refused) e where "Mutate os path c rv mutate file = (Inl e, file)"
  | (written) data current m r where "file = Some data" and "state_Decode data c = Inr current"
      and "st_Revision current = rv" and "mutate current = Inr m"
      and "st_Change m = st_Change current"
      and "state_Validate (m\<lparr>st_Revision := st_Revision m + 1\<rparr>) c = Inr ()"
      and "Mutate os path c rv mutate file =
        (r, Some ([state_json (m\<lparr>st_Revision := st_Revision m + 1\<rparr>)], True))"
      and "r = Inr (m\<lparr>st_Revision := st_Revision m + 1\<rparr>) \<or> (\<exists>e. r = Inl e \<and> os ''sync-dir'' \<noteq> None)"
proof (cases "file")
  case None
  then show ?thesis using refused by (simp add: Mutate_def)
next
  case (Some data)
  show ?thesis
  proof (cases "state_Decode data c")
    case (Inl e)
    with Some show ?thesis using refused by (simp add: Mutate_def)
  next
    case (Inr current)
    show ?thesis
    proof (cases "st_Revision current = rv")
      case False
      with Some Inr show ?thesis using refused by (simp add: Mutate_def)
    next
      case rv: True
      show ?thesis
      proof (cases "mutate current")
        case (Inl e)
        with Some Inr rv show ?thesis using refused by (simp add: Mutate_def)
      next
        case (Inr m)
        let ?n = "m\<lparr>st_Revision := st_Revision m + 1\<rparr>"
        show ?thesis
        proof (cases "st_Change m = st_Change current \<and> st_SchemaVersion m = st_SchemaVersion current")
          case False
          with Some \<open>state_Decode data c = Inr current\<close> rv Inr show ?thesis
            using refused by (simp add: Mutate_def Let_def)
        next
          case same: True
          have ch: "st_Change current = c"
            using state_Decode_valid [OF \<open>state_Decode data c = Inr current\<close>] by (simp add: state_Validate_iff)
          show ?thesis
          proof (cases "state_Validate ?n c")
            case (Inl e)
            with Some \<open>state_Decode data c = Inr current\<close> rv Inr same ch show ?thesis
              using refused by (simp add: Mutate_def Let_def state_Encode_def)
          next
            case valid: (Inr u)
            with Some \<open>state_Decode data c = Inr current\<close> rv Inr same ch
            have eq: "Mutate os path c rv mutate file =
                (case AtomicReplace os None file (Some ([state_json ?n], True)) of
                     (Inl e, file') \<Rightarrow> (Inl e, file') | (Inr _, file') \<Rightarrow> (Inr ?n, file'))"
              by (simp add: Mutate_def Let_def state_Encode_def)
            note w = written [OF Some \<open>state_Decode data c = Inr current\<close> rv Inr]
            show ?thesis
              by (cases rule: AtomicReplace_cases [of os None "file" "Some ([state_json ?n], True)"])
                 (use eq valid same in \<open>auto intro: refused w\<close>)
          qed
        qed
      qed
    qed
  qed
qed


text \<open>C19: Of two writers that both read the same revision, the second is refused as stale and leaves
  the first one's document in place.\<close>
theorem second_writer_is_stale:
  assumes "Mutate os path c rv m1 file = (Inr n, file1)"
    and "st_Revision n = rv + 1" and "state_writable n"
  shows "Mutate os' path c rv m2 file1 = (Inl (stale_revision path rv (rv + 1)), file1)"
proof (cases rule: Mutate_cases [of os path c rv m1 "file"])
  case (written data current m r)
  with assms have n: "n = m\<lparr>st_Revision := st_Revision m + 1\<rparr>" "file1 = Some ([state_json n], True)"
    and valid: "state_Validate n c = Inr ()" by auto
  have "state_Decode ([state_json n], True) c = Inr (norm_state n)"
    by (rule state_Decode_json [OF valid assms(3)])
  then show ?thesis using n(2) assms(2) by (simp add: Mutate_def)
qed (use assms in simp)

theorem second_writer_is_stale_witness:
  "\<exists>n file1. Mutate os_ok ''state.json'' ''c'' 1 Inr (Some ([state_json (Initial ''c'' ''x'')], True)) = (Inr n, file1) \<and>
     Mutate os_ok ''state.json'' ''c'' 1 Inr file1 = (Inl (stale_revision ''state.json'' 1 (1 + 1)), file1)"
proof -
  let ?s = "Initial ''c'' ''x''"
  let ?n = "?s\<lparr>st_Revision := st_Revision ?s + 1\<rparr>"
  have v: "state_Validate ?s ''c'' = Inr ()" "state_Validate ?n ''c'' = Inr ()"
    by (simp_all add: state_Validate_iff Initial_def SchemaVersion_def validStage_def)
  have w: "state_writable ?s" "state_writable ?n"
    by (simp_all add: state_writable_def Initial_def state_raws_def gomap_ok_def)
  have norm: "norm_state ?s = ?s" by (simp add: norm_state_def Initial_def)
  have "Mutate os_ok ''state.json'' ''c'' 1 Inr (Some ([state_json ?s], True)) =
      (Inr ?n, Some ([state_json ?n], True))"
    using state_Decode_json [OF v(1) w(1)] v(2)
    by (simp add: Mutate_def norm Let_def state_Encode_def) (simp add: Initial_def)
  moreover from this have "Mutate os_ok ''state.json'' ''c'' 1 Inr (Some ([state_json ?n], True)) =
      (Inl (stale_revision ''state.json'' 1 (1 + 1)), Some ([state_json ?n], True))"
    by (rule second_writer_is_stale) (simp_all add: w(2), simp add: Initial_def)
  ultimately show ?thesis by blast
qed

end
