(* ===== verification/Payloads.thy ===== *)
theory Payloads
  imports JsonText Approval "HOL-Library.Monad_Syntax"
begin

text \<open>
  The typed payloads of history records (\<open>internal/core/record/record.go\<close>): attempt, completion,
  sync, archive, friction and reopened bindings, each with its JSON form, its strict decoding and
  its validation.
\<close>

record attempt_payload =
  atp_SchemaVersion :: int
  atp_ID :: string
  atp_Change :: string
  atp_TaskID :: string
  atp_BaselineHEAD :: string
  atp_RevisionBefore :: u64
  atp_RevisionAfter :: u64
  atp_ContractHash :: string
  atp_ApprovalHash :: string
  atp_StateGuardHash :: string
  atp_DeclaredFiles :: "string list"
  atp_Actor :: string
  atp_Assurance :: string
  atp_ActivityFrom :: string
  atp_ActivityTo :: string

record completion_payload =
  cmp_SchemaVersion :: int
  cmp_Change :: string
  cmp_TaskID :: string
  cmp_AttemptID :: string
  cmp_EvidenceID :: string
  cmp_Actor :: string
  cmp_ActivityFrom :: string
  cmp_ActivityTo :: string
  cmp_RevisionBefore :: u64
  cmp_RevisionAfter :: u64

record spec_hash =
  sph_Capability :: string
  sph_Path :: string
  sph_Before :: string
  sph_After :: string

record sync_payload =
  syp_SchemaVersion :: int
  syp_Change :: string
  syp_Approver :: string
  syp_ActorClass :: string
  syp_Reason :: string
  syp_ApprovalHash :: string
  syp_PlanHash :: string
  syp_EvidenceSet :: string
  syp_Transaction :: string
  syp_Outputs :: "spec_hash list"
  syp_RevisionBefore :: u64
  syp_RevisionAfter :: u64
  syp_Assurance :: string

record archive_payload =
  arp_SchemaVersion :: int
  arp_Change :: string
  arp_Actor :: string
  arp_Approver :: string
  arp_Source :: string
  arp_Target :: string
  arp_ChangeHash :: string
  arp_Accepted :: "spec_hash list"
  arp_EvidenceSet :: string
  arp_SyncRecord :: string
  arp_Transaction :: string
  arp_RevisionBefore :: u64
  arp_RevisionAfter :: u64

record friction_payload =
  frp_SchemaVersion :: int
  frp_Change :: string
  frp_TaskID :: string
  frp_Operation :: string
  frp_Domain :: string
  frp_Blocker :: string
  frp_Consequence :: string
  frp_Actor :: string
  frp_ObservedRevision :: u64
  frp_ContractHash :: string
  frp_StateHash :: string
  frp_EvidenceSet :: string

record reopened_payload =
  rop_SchemaVersion :: int
  rop_Change :: string
  rop_Actor :: string
  rop_Reason :: string
  rop_LifecycleFrom :: string
  rop_LifecycleTo :: string
  rop_ApprovalID :: string
  rop_AttemptID :: string
  rop_ObservedHEAD :: string
  rop_RevisionBefore :: u64
  rop_RevisionAfter :: u64

definition spec_hash_json :: "spec_hash \<Rightarrow> json" where
  "spec_hash_json p = JObj (
     [(''capability'', JStr (sph_Capability p)),
     (''path'', JStr (sph_Path p))] @
     omit_empty ''before'' (sph_Before p) @
     [(''after'', JStr (sph_After p))])"

definition spec_hash_names :: "string list" where
  "spec_hash_names = [''capability'', ''path'', ''before'', ''after'']"

definition spec_hash_of_json :: "json \<Rightarrow> spec_hash option" where
  "spec_hash_of_json v = do {
     m \<leftarrow> decode_object True spec_hash_names v;
     x0 \<leftarrow> field_string m ''capability'';
     x1 \<leftarrow> field_string m ''path'';
     x2 \<leftarrow> field_string m ''before'';
     x3 \<leftarrow> field_string m ''after'';
     Some \<lparr>sph_Capability = x0, sph_Path = x1, sph_Before = x2, sph_After = x3\<rparr> }"

fun specs_of_json :: "json list \<Rightarrow> spec_hash list option" where
  "specs_of_json [] = Some []"
| "specs_of_json (v # vs) = do {
     s \<leftarrow> spec_hash_of_json v;
     ss \<leftarrow> specs_of_json vs;
     Some (s # ss) }"

definition field_specs :: "json gomap \<Rightarrow> string \<Rightarrow> spec_hash list option" where
  "field_specs m k = (case map_of m k of
     None \<Rightarrow> Some [] | Some (JArr vs) \<Rightarrow> specs_of_json vs | Some _ \<Rightarrow> None)"

definition attempt_payload_json :: "attempt_payload \<Rightarrow> json" where
  "attempt_payload_json p = JObj (
     [(''schema_version'', json_int (atp_SchemaVersion p)),
     (''id'', JStr (atp_ID p)),
     (''change'', JStr (atp_Change p)),
     (''task'', JStr (atp_TaskID p)),
     (''baseline_head'', JStr (atp_BaselineHEAD p)),
     (''revision_before'', json_u64 (atp_RevisionBefore p)),
     (''revision_after'', json_u64 (atp_RevisionAfter p)),
     (''contract_hash'', JStr (atp_ContractHash p)),
     (''approval_hash'', JStr (atp_ApprovalHash p)),
     (''state_guard_hash'', JStr (atp_StateGuardHash p)),
     (''declared_files'', json_strings (atp_DeclaredFiles p)),
     (''actor'', JStr (atp_Actor p)),
     (''assurance'', JStr (atp_Assurance p)),
     (''activity_from'', JStr (atp_ActivityFrom p)),
     (''activity_to'', JStr (atp_ActivityTo p))])"

definition attempt_payload_names :: "string list" where
  "attempt_payload_names = [''schema_version'', ''id'', ''change'', ''task'', ''baseline_head'',
       ''revision_before'', ''revision_after'', ''contract_hash'', ''approval_hash'', ''state_guard_hash'',
       ''declared_files'', ''actor'', ''assurance'', ''activity_from'', ''activity_to'']"

definition attempt_payload_of_json :: "json \<Rightarrow> attempt_payload option" where
  "attempt_payload_of_json v = do {
     m \<leftarrow> decode_object True attempt_payload_names v;
     x0 \<leftarrow> field_int m ''schema_version'';
     x1 \<leftarrow> field_string m ''id'';
     x2 \<leftarrow> field_string m ''change'';
     x3 \<leftarrow> field_string m ''task'';
     x4 \<leftarrow> field_string m ''baseline_head'';
     x5 \<leftarrow> field_u64 m ''revision_before'';
     x6 \<leftarrow> field_u64 m ''revision_after'';
     x7 \<leftarrow> field_string m ''contract_hash'';
     x8 \<leftarrow> field_string m ''approval_hash'';
     x9 \<leftarrow> field_string m ''state_guard_hash'';
     x10 \<leftarrow> field_strings m ''declared_files'';
     x11 \<leftarrow> field_string m ''actor'';
     x12 \<leftarrow> field_string m ''assurance'';
     x13 \<leftarrow> field_string m ''activity_from'';
     x14 \<leftarrow> field_string m ''activity_to'';
     Some \<lparr>atp_SchemaVersion = x0, atp_ID = x1, atp_Change = x2, atp_TaskID = x3, atp_BaselineHEAD =
       x4, atp_RevisionBefore = x5, atp_RevisionAfter = x6, atp_ContractHash = x7, atp_ApprovalHash = x8,
       atp_StateGuardHash = x9, atp_DeclaredFiles = x10, atp_Actor = x11, atp_Assurance = x12,
       atp_ActivityFrom = x13, atp_ActivityTo = x14\<rparr> }"

definition completion_payload_json :: "completion_payload \<Rightarrow> json" where
  "completion_payload_json p = JObj (
     [(''schema_version'', json_int (cmp_SchemaVersion p)),
     (''change'', JStr (cmp_Change p)),
     (''task'', JStr (cmp_TaskID p)),
     (''attempt'', JStr (cmp_AttemptID p)),
     (''evidence'', JStr (cmp_EvidenceID p)),
     (''actor'', JStr (cmp_Actor p)),
     (''activity_from'', JStr (cmp_ActivityFrom p)),
     (''activity_to'', JStr (cmp_ActivityTo p)),
     (''revision_before'', json_u64 (cmp_RevisionBefore p)),
     (''revision_after'', json_u64 (cmp_RevisionAfter p))])"

definition completion_payload_names :: "string list" where
  "completion_payload_names = [''schema_version'', ''change'', ''task'', ''attempt'', ''evidence'',
       ''actor'', ''activity_from'', ''activity_to'', ''revision_before'', ''revision_after'']"

definition completion_payload_of_json :: "json \<Rightarrow> completion_payload option" where
  "completion_payload_of_json v = do {
     m \<leftarrow> decode_object True completion_payload_names v;
     x0 \<leftarrow> field_int m ''schema_version'';
     x1 \<leftarrow> field_string m ''change'';
     x2 \<leftarrow> field_string m ''task'';
     x3 \<leftarrow> field_string m ''attempt'';
     x4 \<leftarrow> field_string m ''evidence'';
     x5 \<leftarrow> field_string m ''actor'';
     x6 \<leftarrow> field_string m ''activity_from'';
     x7 \<leftarrow> field_string m ''activity_to'';
     x8 \<leftarrow> field_u64 m ''revision_before'';
     x9 \<leftarrow> field_u64 m ''revision_after'';
     Some \<lparr>cmp_SchemaVersion = x0, cmp_Change = x1, cmp_TaskID = x2, cmp_AttemptID = x3,
       cmp_EvidenceID = x4, cmp_Actor = x5, cmp_ActivityFrom = x6, cmp_ActivityTo = x7, cmp_RevisionBefore =
       x8, cmp_RevisionAfter = x9\<rparr> }"

definition sync_payload_json :: "sync_payload \<Rightarrow> json" where
  "sync_payload_json p = JObj (
     [(''schema_version'', json_int (syp_SchemaVersion p)),
     (''change'', JStr (syp_Change p)),
     (''approver'', JStr (syp_Approver p)),
     (''actor_class'', JStr (syp_ActorClass p)),
     (''reason'', JStr (syp_Reason p)),
     (''approval_hash'', JStr (syp_ApprovalHash p)),
     (''plan_hash'', JStr (syp_PlanHash p)),
     (''evidence_set'', JStr (syp_EvidenceSet p)),
     (''transaction'', JStr (syp_Transaction p)),
     (''outputs'', JArr (map spec_hash_json (syp_Outputs p))),
     (''revision_before'', json_u64 (syp_RevisionBefore p)),
     (''revision_after'', json_u64 (syp_RevisionAfter p)),
     (''assurance'', JStr (syp_Assurance p))])"

definition sync_payload_names :: "string list" where
  "sync_payload_names = [''schema_version'', ''change'', ''approver'', ''actor_class'', ''reason'',
       ''approval_hash'', ''plan_hash'', ''evidence_set'', ''transaction'', ''outputs'',
       ''revision_before'', ''revision_after'', ''assurance'']"

definition sync_payload_of_json :: "json \<Rightarrow> sync_payload option" where
  "sync_payload_of_json v = do {
     m \<leftarrow> decode_object True sync_payload_names v;
     x0 \<leftarrow> field_int m ''schema_version'';
     x1 \<leftarrow> field_string m ''change'';
     x2 \<leftarrow> field_string m ''approver'';
     x3 \<leftarrow> field_string m ''actor_class'';
     x4 \<leftarrow> field_string m ''reason'';
     x5 \<leftarrow> field_string m ''approval_hash'';
     x6 \<leftarrow> field_string m ''plan_hash'';
     x7 \<leftarrow> field_string m ''evidence_set'';
     x8 \<leftarrow> field_string m ''transaction'';
     x9 \<leftarrow> field_specs m ''outputs'';
     x10 \<leftarrow> field_u64 m ''revision_before'';
     x11 \<leftarrow> field_u64 m ''revision_after'';
     x12 \<leftarrow> field_string m ''assurance'';
     Some \<lparr>syp_SchemaVersion = x0, syp_Change = x1, syp_Approver = x2, syp_ActorClass = x3,
       syp_Reason = x4, syp_ApprovalHash = x5, syp_PlanHash = x6, syp_EvidenceSet = x7, syp_Transaction =
       x8, syp_Outputs = x9, syp_RevisionBefore = x10, syp_RevisionAfter = x11, syp_Assurance = x12\<rparr>
       }"

definition archive_payload_json :: "archive_payload \<Rightarrow> json" where
  "archive_payload_json p = JObj (
     [(''schema_version'', json_int (arp_SchemaVersion p)),
     (''change'', JStr (arp_Change p)),
     (''actor'', JStr (arp_Actor p)),
     (''approver'', JStr (arp_Approver p)),
     (''source'', JStr (arp_Source p)),
     (''target'', JStr (arp_Target p)),
     (''change_hash'', JStr (arp_ChangeHash p)),
     (''accepted'', JArr (map spec_hash_json (arp_Accepted p))),
     (''evidence_set'', JStr (arp_EvidenceSet p)),
     (''sync_record'', JStr (arp_SyncRecord p)),
     (''transaction'', JStr (arp_Transaction p)),
     (''revision_before'', json_u64 (arp_RevisionBefore p)),
     (''revision_after'', json_u64 (arp_RevisionAfter p))])"

definition archive_payload_names :: "string list" where
  "archive_payload_names = [''schema_version'', ''change'', ''actor'', ''approver'', ''source'', ''target'',
       ''change_hash'', ''accepted'', ''evidence_set'', ''sync_record'', ''transaction'',
       ''revision_before'', ''revision_after'']"

definition archive_payload_of_json :: "json \<Rightarrow> archive_payload option" where
  "archive_payload_of_json v = do {
     m \<leftarrow> decode_object True archive_payload_names v;
     x0 \<leftarrow> field_int m ''schema_version'';
     x1 \<leftarrow> field_string m ''change'';
     x2 \<leftarrow> field_string m ''actor'';
     x3 \<leftarrow> field_string m ''approver'';
     x4 \<leftarrow> field_string m ''source'';
     x5 \<leftarrow> field_string m ''target'';
     x6 \<leftarrow> field_string m ''change_hash'';
     x7 \<leftarrow> field_specs m ''accepted'';
     x8 \<leftarrow> field_string m ''evidence_set'';
     x9 \<leftarrow> field_string m ''sync_record'';
     x10 \<leftarrow> field_string m ''transaction'';
     x11 \<leftarrow> field_u64 m ''revision_before'';
     x12 \<leftarrow> field_u64 m ''revision_after'';
     Some \<lparr>arp_SchemaVersion = x0, arp_Change = x1, arp_Actor = x2, arp_Approver = x3, arp_Source =
       x4, arp_Target = x5, arp_ChangeHash = x6, arp_Accepted = x7, arp_EvidenceSet = x8, arp_SyncRecord =
       x9, arp_Transaction = x10, arp_RevisionBefore = x11, arp_RevisionAfter = x12\<rparr> }"

definition friction_payload_json :: "friction_payload \<Rightarrow> json" where
  "friction_payload_json p = JObj (
     [(''schema_version'', json_int (frp_SchemaVersion p)),
     (''change'', JStr (frp_Change p)),
     (''task'', JStr (frp_TaskID p)),
     (''operation'', JStr (frp_Operation p)),
     (''domain'', JStr (frp_Domain p)),
     (''blocker'', JStr (frp_Blocker p)),
     (''consequence'', JStr (frp_Consequence p)),
     (''actor'', JStr (frp_Actor p)),
     (''observed_revision'', json_u64 (frp_ObservedRevision p)),
     (''contract_hash'', JStr (frp_ContractHash p)),
     (''state_hash'', JStr (frp_StateHash p)),
     (''evidence_set'', JStr (frp_EvidenceSet p))])"

definition friction_payload_names :: "string list" where
  "friction_payload_names = [''schema_version'', ''change'', ''task'', ''operation'', ''domain'',
       ''blocker'', ''consequence'', ''actor'', ''observed_revision'', ''contract_hash'', ''state_hash'',
       ''evidence_set'']"

definition friction_payload_of_json :: "json \<Rightarrow> friction_payload option" where
  "friction_payload_of_json v = do {
     m \<leftarrow> decode_object True friction_payload_names v;
     x0 \<leftarrow> field_int m ''schema_version'';
     x1 \<leftarrow> field_string m ''change'';
     x2 \<leftarrow> field_string m ''task'';
     x3 \<leftarrow> field_string m ''operation'';
     x4 \<leftarrow> field_string m ''domain'';
     x5 \<leftarrow> field_string m ''blocker'';
     x6 \<leftarrow> field_string m ''consequence'';
     x7 \<leftarrow> field_string m ''actor'';
     x8 \<leftarrow> field_u64 m ''observed_revision'';
     x9 \<leftarrow> field_string m ''contract_hash'';
     x10 \<leftarrow> field_string m ''state_hash'';
     x11 \<leftarrow> field_string m ''evidence_set'';
     Some \<lparr>frp_SchemaVersion = x0, frp_Change = x1, frp_TaskID = x2, frp_Operation = x3, frp_Domain =
       x4, frp_Blocker = x5, frp_Consequence = x6, frp_Actor = x7, frp_ObservedRevision = x8,
       frp_ContractHash = x9, frp_StateHash = x10, frp_EvidenceSet = x11\<rparr> }"

definition reopened_payload_json :: "reopened_payload \<Rightarrow> json" where
  "reopened_payload_json p = JObj (
     [(''schema_version'', json_int (rop_SchemaVersion p)),
     (''change'', JStr (rop_Change p)),
     (''actor'', JStr (rop_Actor p)),
     (''reason'', JStr (rop_Reason p)),
     (''lifecycle_from'', JStr (rop_LifecycleFrom p)),
     (''lifecycle_to'', JStr (rop_LifecycleTo p)),
     (''approval_id'', JStr (rop_ApprovalID p))] @
     omit_empty ''attempt_id'' (rop_AttemptID p) @
     [(''observed_head'', JStr (rop_ObservedHEAD p)),
     (''revision_before'', json_u64 (rop_RevisionBefore p)),
     (''revision_after'', json_u64 (rop_RevisionAfter p))])"

definition reopened_payload_names :: "string list" where
  "reopened_payload_names = [''schema_version'', ''change'', ''actor'', ''reason'', ''lifecycle_from'',
       ''lifecycle_to'', ''approval_id'', ''attempt_id'', ''observed_head'', ''revision_before'',
       ''revision_after'']"

definition reopened_payload_of_json :: "json \<Rightarrow> reopened_payload option" where
  "reopened_payload_of_json v = do {
     m \<leftarrow> decode_object True reopened_payload_names v;
     x0 \<leftarrow> field_int m ''schema_version'';
     x1 \<leftarrow> field_string m ''change'';
     x2 \<leftarrow> field_string m ''actor'';
     x3 \<leftarrow> field_string m ''reason'';
     x4 \<leftarrow> field_string m ''lifecycle_from'';
     x5 \<leftarrow> field_string m ''lifecycle_to'';
     x6 \<leftarrow> field_string m ''approval_id'';
     x7 \<leftarrow> field_string m ''attempt_id'';
     x8 \<leftarrow> field_string m ''observed_head'';
     x9 \<leftarrow> field_u64 m ''revision_before'';
     x10 \<leftarrow> field_u64 m ''revision_after'';
     Some \<lparr>rop_SchemaVersion = x0, rop_Change = x1, rop_Actor = x2, rop_Reason = x3,
       rop_LifecycleFrom = x4, rop_LifecycleTo = x5, rop_ApprovalID = x6, rop_AttemptID = x7,
       rop_ObservedHEAD = x8, rop_RevisionBefore = x9, rop_RevisionAfter = x10\<rparr> }"

subsection \<open>Validation\<close>

definition validHex :: "string \<Rightarrow> nat list \<Rightarrow> bool" where
  "validHex v lengths \<longleftrightarrow> length v \<in> set lengths \<and> lower_hex v"

definition validAttemptPath :: "string \<Rightarrow> bool" where
  "validAttemptPath v \<longleftrightarrow> v \<noteq> [] \<and> v \<noteq> ''.'' \<and> path_Clean v = v \<and> \<not> has_prefix v ''/'' \<and>
     v \<noteq> ''..'' \<and> \<not> has_prefix v ''../'' \<and> list_all (\<lambda>c. c \<notin> {CHR 0x5C, CHR ''*'', CHR ''?'', CHR ''[''}) v \<and>
     v \<noteq> ''.specd'' \<and> \<not> has_prefix v ''.specd/'' \<and> v \<noteq> ''.git'' \<and> \<not> has_prefix v ''.git/''"

definition attemptIdentity :: "attempt_payload \<Rightarrow> string" where
  "attemptIdentity a = sha256_hex (json_bytes (attempt_payload_json (a\<lparr>atp_ID := []\<rparr>)))"

text \<open>The loop over declared files: safe paths in strictly ascending order.\<close>

fun files_ok :: "string option \<Rightarrow> string list \<Rightarrow> bool" where
  "files_ok prev [] = True"
| "files_ok prev (f # fs) =
     (validAttemptPath f \<and> (case prev of None \<Rightarrow> True | Some p \<Rightarrow> \<not> f \<le> p) \<and> files_ok (Some f) fs)"

definition AttemptPayload_Validate :: "attempt_payload \<Rightarrow> error + unit" where
  "AttemptPayload_Validate a =
     (if atp_SchemaVersion a \<noteq> 1 \<or> atp_ID a = [] \<or> atp_Change a = [] \<or> atp_TaskID a = [] \<or>
         \<not> validHex (atp_BaselineHEAD a) [40, 64] \<or>
         atp_RevisionBefore a = 0 \<or> atp_RevisionAfter a \<noteq> atp_RevisionBefore a + 1 \<or>
         \<not> validHex (atp_ContractHash a) [64] \<or> \<not> validHex (atp_ApprovalHash a) [64] \<or>
         \<not> validHex (atp_StateGuardHash a) [64] \<or> atp_DeclaredFiles a = [] \<or>
         trim_space (atp_Actor a) = [] \<or> atp_Assurance a \<noteq> ''advisory'' \<or>
         atp_ActivityFrom a \<noteq> ''pending'' \<or> atp_ActivityTo a \<noteq> ''in_progress'' \<or>
         atp_ID a \<noteq> attemptIdentity a
      then Inl (failed ''attempt binding is malformed'')
      else if files_ok None (atp_DeclaredFiles a) then Inr ()
      else Inl (failed ''attempt declared files are malformed''))"

definition NewAttemptPayload :: "attempt_payload \<Rightarrow> error + attempt_payload" where
  "NewAttemptPayload a =
     (let a = a\<lparr>atp_SchemaVersion := 1\<rparr>; a = a\<lparr>atp_ID := attemptIdentity a\<rparr>
      in bindE (AttemptPayload_Validate a) (\<lambda>_. Inr a))"

definition CompletionPayload_Validate :: "completion_payload \<Rightarrow> error + unit" where
  "CompletionPayload_Validate c =
     (if cmp_SchemaVersion c \<noteq> 1 \<or> cmp_Change c = [] \<or> cmp_TaskID c = [] \<or>
         \<not> validHex (cmp_AttemptID c) [64] \<or> \<not> validHex (cmp_EvidenceID c) [64] \<or>
         trim_space (cmp_Actor c) = [] \<or> cmp_ActivityFrom c \<noteq> ''in_progress'' \<or>
         cmp_ActivityTo c \<noteq> ''completed'' \<or>
         cmp_RevisionBefore c = 0 \<or> cmp_RevisionAfter c \<noteq> cmp_RevisionBefore c + 1
      then Inl (failed ''completion binding is malformed'') else Inr ())"

definition NewCompletionPayload :: "completion_payload \<Rightarrow> error + completion_payload" where
  "NewCompletionPayload c =
     (let c = c\<lparr>cmp_SchemaVersion := 1\<rparr> in bindE (CompletionPayload_Validate c) (\<lambda>_. Inr c))"

text \<open>\<open>validSpecHashes\<close>: capabilities strictly ascending.\<close>

fun spec_hashes_loop :: "string option \<Rightarrow> spec_hash list \<Rightarrow> error + unit" where
  "spec_hashes_loop prev [] = Inr ()"
| "spec_hashes_loop prev (s # ss) =
     (if sph_Capability s = [] \<or> \<not> validAttemptPath (sph_Path s) \<or> \<not> validHex (sph_After s) [64] \<or>
         (sph_Before s \<noteq> [] \<and> \<not> validHex (sph_Before s) [64]) \<or>
         (case prev of None \<Rightarrow> False | Some p \<Rightarrow> sph_Capability s \<le> p)
      then Inl (failed ''accepted spec references are malformed'')
      else spec_hashes_loop (Some (sph_Capability s)) ss)"

definition validSpecHashes :: "spec_hash list \<Rightarrow> bool \<Rightarrow> error + unit" where
  "validSpecHashes items requireOutputs =
     (if requireOutputs \<and> items = [] then Inl (failed ''sync binding is malformed'')
      else spec_hashes_loop None items)"

definition SyncPayload_Validate :: "sync_payload \<Rightarrow> error + unit" where
  "SyncPayload_Validate p =
     (if syp_SchemaVersion p \<noteq> 1 \<or> syp_Change p = [] \<or> trim_space (syp_Approver p) = [] \<or>
         syp_ActorClass p \<noteq> ''human'' \<or> trim_space (syp_Reason p) = [] \<or>
         \<not> validHex (syp_ApprovalHash p) [64] \<or> \<not> validHex (syp_PlanHash p) [64] \<or>
         \<not> validHex (syp_EvidenceSet p) [64] \<or> \<not> validHex (syp_Transaction p) [64] \<or>
         syp_Assurance p \<noteq> ''advisory'' \<or>
         syp_RevisionBefore p = 0 \<or> syp_RevisionAfter p \<noteq> syp_RevisionBefore p + 1
      then Inl (failed ''sync binding is malformed'') else validSpecHashes (syp_Outputs p) True)"

definition ArchivePayload_Validate :: "archive_payload \<Rightarrow> error + unit" where
  "ArchivePayload_Validate p =
     (if arp_SchemaVersion p \<noteq> 1 \<or> arp_Change p = [] \<or> trim_space (arp_Actor p) = [] \<or>
         trim_space (arp_Approver p) = [] \<or> \<not> validAttemptPath (arp_Source p) \<or>
         \<not> validAttemptPath (arp_Target p) \<or> arp_Source p = arp_Target p \<or>
         \<not> validHex (arp_ChangeHash p) [64] \<or> \<not> validHex (arp_EvidenceSet p) [64] \<or>
         \<not> validHex (arp_SyncRecord p) [64] \<or> \<not> validHex (arp_Transaction p) [64] \<or>
         arp_RevisionBefore p = 0 \<or> arp_RevisionAfter p \<noteq> arp_RevisionBefore p + 1
      then Inl (failed ''archive binding is malformed'') else validSpecHashes (arp_Accepted p) False)"

definition FrictionPayload_Validate :: "friction_payload \<Rightarrow> error + unit" where
  "FrictionPayload_Validate p =
     (if frp_SchemaVersion p \<noteq> 1 \<or> frp_Change p = [] \<or> frp_TaskID p = [] \<or>
         trim_space (frp_Operation p) = [] \<or> trim_space (frp_Domain p) = [] \<or>
         trim_space (frp_Blocker p) = [] \<or> trim_space (frp_Consequence p) = [] \<or>
         trim_space (frp_Actor p) = [] \<or> frp_ObservedRevision p = 0 \<or>
         \<not> validHex (frp_ContractHash p) [64] \<or> \<not> validHex (frp_StateHash p) [64] \<or>
         \<not> validHex (frp_EvidenceSet p) [64]
      then Inl (failed ''friction binding is malformed'') else Inr ())"

definition ReopenedPayload_Validate :: "reopened_payload \<Rightarrow> error + unit" where
  "ReopenedPayload_Validate p =
     (if rop_SchemaVersion p \<noteq> 1 \<or> rop_Change p = [] \<or> trim_space (rop_Actor p) = [] \<or>
         trim_space (rop_Reason p) = [] \<or> rop_LifecycleFrom p \<noteq> ''approved'' \<or>
         rop_LifecycleTo p \<noteq> ''planning'' \<or> trim_space (rop_ApprovalID p) = [] \<or>
         \<not> validHex (rop_ObservedHEAD p) [40, 64] \<or>
         (rop_AttemptID p \<noteq> [] \<and> \<not> validHex (rop_AttemptID p) [64]) \<or>
         rop_RevisionBefore p = 0 \<or> rop_RevisionAfter p \<noteq> rop_RevisionBefore p + 1
      then Inl (failed ''reopened binding is malformed'') else Inr ())"

definition NewSyncPayload :: "sync_payload \<Rightarrow> error + sync_payload" where
  "NewSyncPayload p =
     (let p = p\<lparr>syp_SchemaVersion := 1\<rparr> in bindE (SyncPayload_Validate p) (\<lambda>_. Inr p))"

definition NewArchivePayload :: "archive_payload \<Rightarrow> error + archive_payload" where
  "NewArchivePayload p =
     (let p = p\<lparr>arp_SchemaVersion := 1\<rparr> in bindE (ArchivePayload_Validate p) (\<lambda>_. Inr p))"

definition NewFrictionPayload :: "friction_payload \<Rightarrow> error + friction_payload" where
  "NewFrictionPayload p =
     (let p = p\<lparr>frp_SchemaVersion := 1\<rparr> in bindE (FrictionPayload_Validate p) (\<lambda>_. Inr p))"

definition NewReopenedPayload :: "reopened_payload \<Rightarrow> error + reopened_payload" where
  "NewReopenedPayload p =
     (let p = p\<lparr>rop_SchemaVersion := 1\<rparr> in bindE (ReopenedPayload_Validate p) (\<lambda>_. Inr p))"

subsection \<open>Decoding\<close>

text \<open>\<open>decodePayload\<close> and the two decoders written out: no duplicate key, the known fields only, one
  value (a raw message is one value), then validation. An absent raw message is not a value.\<close>

definition decode_payload :: "(json \<Rightarrow> 'p option) \<Rightarrow> ('p \<Rightarrow> error + unit) \<Rightarrow> json option \<Rightarrow> error + 'p" where
  "decode_payload of_json validate raw =
     bindE (rejectDuplicateKeys (case raw of None \<Rightarrow> [] | Some v \<Rightarrow> tokens v)) (\<lambda>_.
     case Option.bind raw of_json of
       None \<Rightarrow> Inl json_error
     | Some p \<Rightarrow> bindE (validate p) (\<lambda>_. Inr p))"

definition DecodeAttemptPayload :: "json option \<Rightarrow> error + attempt_payload" where
  "DecodeAttemptPayload = decode_payload attempt_payload_of_json AttemptPayload_Validate"

definition DecodeCompletionPayload :: "json option \<Rightarrow> error + completion_payload" where
  "DecodeCompletionPayload = decode_payload completion_payload_of_json CompletionPayload_Validate"

definition DecodeSyncPayload :: "json option \<Rightarrow> error + sync_payload" where
  "DecodeSyncPayload = decode_payload sync_payload_of_json SyncPayload_Validate"

definition DecodeArchivePayload :: "json option \<Rightarrow> error + archive_payload" where
  "DecodeArchivePayload = decode_payload archive_payload_of_json ArchivePayload_Validate"

definition DecodeFrictionPayload :: "json option \<Rightarrow> error + friction_payload" where
  "DecodeFrictionPayload = decode_payload friction_payload_of_json FrictionPayload_Validate"

definition DecodeReopenedPayload :: "json option \<Rightarrow> error + reopened_payload" where
  "DecodeReopenedPayload = decode_payload reopened_payload_of_json ReopenedPayload_Validate"

subsection \<open>Round trips\<close>

lemma omit_empty_simps [simp]:
  "omit_empty k [] = []" "s \<noteq> [] \<Longrightarrow> omit_empty k s = [(k, JStr s)]"
  by (simp_all add: omit_empty_def)

lemma decode_object_distinct:
  assumes "distinct (map fst kvs)" and "set (map fst kvs) \<subseteq> set names" and "\<forall>(k, v) \<in> set kvs. v \<noteq> JNull"
  shows "decode_object strict names (JObj kvs) = Some kvs"
  using decode_fields_distinct [OF assms, of "[]" strict] by (simp add: decode_object_def)

lemmas field_getters = field_string_def field_int_def field_u64_def field_strings_def field_specs_def
  json_int_def json_u64_def json_nat_def json_strings_def

lemma attempt_round_trip:
  "atp_SchemaVersion p = 1 \<Longrightarrow> attempt_payload_of_json (attempt_payload_json p) = Some p"
  unfolding attempt_payload_of_json_def attempt_payload_json_def
  by (subst decode_object_distinct) (simp_all add: attempt_payload_names_def field_getters)

lemma completion_round_trip:
  "cmp_SchemaVersion p = 1 \<Longrightarrow> completion_payload_of_json (completion_payload_json p) = Some p"
  unfolding completion_payload_of_json_def completion_payload_json_def
  by (subst decode_object_distinct) (simp_all add: completion_payload_names_def field_getters)

lemma spec_hash_round_trip [simp]: "spec_hash_of_json (spec_hash_json s) = Some s"
  unfolding spec_hash_of_json_def spec_hash_json_def
  by (cases "sph_Before s = []"; subst decode_object_distinct) (simp_all add: spec_hash_names_def field_getters)

lemma specs_round_trip [simp]: "specs_of_json (map spec_hash_json ss) = Some ss"
  by (induction ss) auto

lemma sync_round_trip: "syp_SchemaVersion p = 1 \<Longrightarrow> sync_payload_of_json (sync_payload_json p) = Some p"
  unfolding sync_payload_of_json_def sync_payload_json_def
  by (subst decode_object_distinct) (simp_all add: sync_payload_names_def field_getters)

lemma archive_round_trip:
  "arp_SchemaVersion p = 1 \<Longrightarrow> archive_payload_of_json (archive_payload_json p) = Some p"
  unfolding archive_payload_of_json_def archive_payload_json_def
  by (subst decode_object_distinct) (simp_all add: archive_payload_names_def field_getters)

lemma friction_round_trip:
  "frp_SchemaVersion p = 1 \<Longrightarrow> friction_payload_of_json (friction_payload_json p) = Some p"
  unfolding friction_payload_of_json_def friction_payload_json_def
  by (subst decode_object_distinct) (simp_all add: friction_payload_names_def field_getters)

lemma reopened_round_trip:
  "rop_SchemaVersion p = 1 \<Longrightarrow> reopened_payload_of_json (reopened_payload_json p) = Some p"
  unfolding reopened_payload_of_json_def reopened_payload_json_def
  by (cases "rop_AttemptID p = []"; subst decode_object_distinct)
     (simp_all add: reopened_payload_names_def field_getters)

text \<open>No payload encoding repeats a key.\<close>

lemma keys_distinct_strings [simp]: "items_distinct (map JStr ss)"
  by (induction ss) auto

lemma keys_distinct_specs [simp]: "items_distinct (map spec_hash_json ss)"
  by (induction ss) (auto simp: spec_hash_json_def omit_empty_def)

lemma payload_keys_distinct [simp]:
  "keys_distinct (attempt_payload_json a)" "keys_distinct (completion_payload_json c)"
  "keys_distinct (sync_payload_json s)" "keys_distinct (archive_payload_json ar)"
  "keys_distinct (friction_payload_json f)" "keys_distinct (reopened_payload_json r)"
  by (simp_all add: attempt_payload_json_def completion_payload_json_def sync_payload_json_def
      archive_payload_json_def friction_payload_json_def reopened_payload_json_def omit_empty_def
      json_int_def json_u64_def json_nat_def json_strings_def)

lemma rejectDuplicateKeys_tokens [simp]: "keys_distinct v \<Longrightarrow> rejectDuplicateKeys (tokens v) = Inr ()"
  using walk_tokens(1) [of v "Suc (length (tokens v))" "[]"] by (simp add: rejectDuplicateKeys_def)

lemma decode_payload_ok:
  "keys_distinct v \<Longrightarrow> of_json v = Some p \<Longrightarrow> validate p = Inr () \<Longrightarrow>
     decode_payload of_json validate (Some v) = Inr p"
  by (simp add: decode_payload_def)

lemma decode_payload_Inr:
  assumes "decode_payload of_json validate raw = Inr p"
  obtains v where "raw = Some v" and "of_json v = Some p" and "validate p = Inr ()"
  using assms by (cases raw) (auto simp: decode_payload_def split: option.splits)

lemma DecodePayload_encoded [simp]:
  "AttemptPayload_Validate a = Inr () \<Longrightarrow> DecodeAttemptPayload (Some (attempt_payload_json a)) = Inr a"
  "CompletionPayload_Validate c = Inr () \<Longrightarrow> DecodeCompletionPayload (Some (completion_payload_json c)) = Inr c"
  "SyncPayload_Validate s = Inr () \<Longrightarrow> DecodeSyncPayload (Some (sync_payload_json s)) = Inr s"
  "ArchivePayload_Validate ar = Inr () \<Longrightarrow> DecodeArchivePayload (Some (archive_payload_json ar)) = Inr ar"
  "FrictionPayload_Validate f = Inr () \<Longrightarrow> DecodeFrictionPayload (Some (friction_payload_json f)) = Inr f"
  "ReopenedPayload_Validate r = Inr () \<Longrightarrow> DecodeReopenedPayload (Some (reopened_payload_json r)) = Inr r"
proof -
  assume "AttemptPayload_Validate a = Inr ()"
  moreover from this have "atp_SchemaVersion a = 1" by (auto simp: AttemptPayload_Validate_def split: if_splits)
  ultimately show "DecodeAttemptPayload (Some (attempt_payload_json a)) = Inr a"
    by (simp add: DecodeAttemptPayload_def decode_payload_ok attempt_round_trip)
next
  assume "CompletionPayload_Validate c = Inr ()"
  moreover from this have "cmp_SchemaVersion c = 1" by (auto simp: CompletionPayload_Validate_def split: if_splits)
  ultimately show "DecodeCompletionPayload (Some (completion_payload_json c)) = Inr c"
    by (simp add: DecodeCompletionPayload_def decode_payload_ok completion_round_trip)
next
  assume "SyncPayload_Validate s = Inr ()"
  moreover from this have "syp_SchemaVersion s = 1" by (auto simp: SyncPayload_Validate_def split: if_splits)
  ultimately show "DecodeSyncPayload (Some (sync_payload_json s)) = Inr s"
    by (simp add: DecodeSyncPayload_def decode_payload_ok sync_round_trip)
next
  assume "ArchivePayload_Validate ar = Inr ()"
  moreover from this have "arp_SchemaVersion ar = 1" by (auto simp: ArchivePayload_Validate_def split: if_splits)
  ultimately show "DecodeArchivePayload (Some (archive_payload_json ar)) = Inr ar"
    by (simp add: DecodeArchivePayload_def decode_payload_ok archive_round_trip)
next
  assume "FrictionPayload_Validate f = Inr ()"
  moreover from this have "frp_SchemaVersion f = 1" by (auto simp: FrictionPayload_Validate_def split: if_splits)
  ultimately show "DecodeFrictionPayload (Some (friction_payload_json f)) = Inr f"
    by (simp add: DecodeFrictionPayload_def decode_payload_ok friction_round_trip)
next
  assume "ReopenedPayload_Validate r = Inr ()"
  moreover from this have "rop_SchemaVersion r = 1" by (auto simp: ReopenedPayload_Validate_def split: if_splits)
  ultimately show "DecodeReopenedPayload (Some (reopened_payload_json r)) = Inr r"
    by (simp add: DecodeReopenedPayload_def decode_payload_ok reopened_round_trip)
qed

end
