(* ===== verification/Records.thy ===== *)
theory Records
  imports Payloads Persist
begin

text \<open>
  History and evidence records (\<open>internal/core/record/record.go\<close>, \<open>append.go\<close>): the record and its
  content-derived identity, its validation, replay of a ledger file from its bytes, and the append.
  A pointer that may be nil is an option; an empty raw message is \<open>None\<close>.
\<close>

record hist_record =
  rc_SchemaVersion :: int
  rc_ID :: string
  rc_Family :: string
  rc_Kind :: string
  rc_Change :: string
  rc_Expected :: "u64 option"
  rc_Resulting :: "u64 option"
  rc_Timestamp :: string
  rc_Actor :: string
  rc_Payload :: "json option"

record record_diagnostic =
  rd_Code :: string
  rd_File :: string
  rd_Line :: nat
  rd_Reason :: string

definition FamilyHistory :: string where "FamilyHistory = ''history''"
definition FamilyEvidence :: string where "FamilyEvidence = ''evidence''"

text \<open>Kinds that move a change from one revision to the next.\<close>

definition transition_kinds :: "string list" where
  "transition_kinds = [''approved'', ''task_transition'', ''attempt'', ''completion'', ''synced'',
     ''archived'', ''reopened'']"

subsection \<open>JSON form and identity\<close>

definition opt_u64 :: "string \<Rightarrow> u64 option \<Rightarrow> (string \<times> json) list" where
  "opt_u64 k w = (case w of None \<Rightarrow> [] | Some x \<Rightarrow> [(k, json_u64 x)])"

definition record_json :: "hist_record \<Rightarrow> json" where
  "record_json r = JObj (
     [(''schema_version'', json_int (rc_SchemaVersion r)), (''id'', JStr (rc_ID r)),
      (''family'', JStr (rc_Family r)), (''kind'', JStr (rc_Kind r)), (''change'', JStr (rc_Change r))] @
     opt_u64 ''expected_revision'' (rc_Expected r) @ opt_u64 ''resulting_revision'' (rc_Resulting r) @
     [(''timestamp'', JStr (rc_Timestamp r)), (''actor'', JStr (rc_Actor r)),
      (''payload'', case rc_Payload r of None \<Rightarrow> JNull | Some v \<Rightarrow> v)])"

definition record_names :: "string list" where
  "record_names = [''schema_version'', ''id'', ''family'', ''kind'', ''change'', ''expected_revision'',
     ''resulting_revision'', ''timestamp'', ''actor'', ''payload'']"

definition field_opt_u64 :: "json gomap \<Rightarrow> string \<Rightarrow> u64 option option" where
  "field_opt_u64 m k = (case map_of m k of
     None \<Rightarrow> Some None | Some (JNum s) \<Rightarrow> map_option Some (num_u64 s) | Some _ \<Rightarrow> None)"

definition record_decode :: "bool \<Rightarrow> json \<Rightarrow> hist_record option" where
  "record_decode strict v = do {
     m \<leftarrow> decode_object strict record_names v;
     sv \<leftarrow> field_int m ''schema_version'';
     i \<leftarrow> field_string m ''id'';
     f \<leftarrow> field_string m ''family'';
     k \<leftarrow> field_string m ''kind'';
     c \<leftarrow> field_string m ''change'';
     er \<leftarrow> field_opt_u64 m ''expected_revision'';
     rr \<leftarrow> field_opt_u64 m ''resulting_revision'';
     ts \<leftarrow> field_string m ''timestamp'';
     a \<leftarrow> field_string m ''actor'';
     Some \<lparr>rc_SchemaVersion = sv, rc_ID = i, rc_Family = f, rc_Kind = k, rc_Change = c, rc_Expected = er,
       rc_Resulting = rr, rc_Timestamp = ts, rc_Actor = a, rc_Payload = map_of m ''payload''\<rparr> }"

definition record_of_json :: "json \<Rightarrow> hist_record option" where
  "record_of_json v = record_decode True v"

definition canonicalPayload :: "json option \<Rightarrow> error + json" where
  "canonicalPayload raw = (case raw of
     None \<Rightarrow> Inl (failed ''object is required'')
   | Some v \<Rightarrow>
       if v = JNull then Inl (failed ''object is required'')
       else bindE (rejectDuplicateKeys (tokens v)) (\<lambda>_. case v of
         JObj _ \<Rightarrow> Inr (json_canon v) | _ \<Rightarrow> Inl (failed ''object is required'')))"

definition Identity :: "hist_record \<Rightarrow> error + string" where
  "Identity r =
     bindE (map_err (Wrapped [Str ''canonical payload: '']) (canonicalPayload (rc_Payload r))) (\<lambda>p.
     Inr (sha256_hex (json_bytes (record_json (r\<lparr>rc_ID := [], rc_Payload := Some p\<rparr>)))))"

subsection \<open>Validation\<close>

definition validateFamilyKind :: "hist_record \<Rightarrow> error + unit" where
  "validateFamilyKind r =
     (if rc_Family r = FamilyHistory \<and> rc_Kind r = ''created'' then
        (if rc_Expected r \<noteq> Some 0 \<or> rc_Resulting r \<noteq> Some 1 then
           Inl (failed ''history/created requires initial revision transition 0 to 1'') else Inr ())
      else if rc_Family r = FamilyHistory \<and> rc_Kind r \<in> set transition_kinds then
        (case (rc_Expected r, rc_Resulting r) of
           (Some e, Some n) \<Rightarrow>
             if n \<noteq> e + 1 then Inl (failed ''history/approved requires one forward revision transition'')
             else Inr ()
         | _ \<Rightarrow> Inl (failed ''history/approved requires one forward revision transition''))
      else if rc_Family r = FamilyHistory \<and> rc_Kind r = ''friction'' then
        (if rc_Expected r \<noteq> None \<or> rc_Resulting r \<noteq> None then
           Inl (failed ''history/friction must not contain transition revisions'') else Inr ())
      else if rc_Family r = FamilyEvidence \<and> rc_Kind r = ''observed'' then
        (if rc_Expected r \<noteq> None \<or> rc_Resulting r \<noteq> None then
           Inl (failed ''evidence/observed must not contain transition revisions'') else Inr ())
      else Inl (Failed [Str ''unknown family/kind '', Quo (rc_Family r), Str ''/'', Quo (rc_Kind r)]))"

text \<open>The envelope checks share one shape: the payload decodes, and it repeats the envelope.\<close>

definition payload_matches :: "hist_record \<Rightarrow> string \<Rightarrow> string \<Rightarrow> u64 \<Rightarrow> u64 \<Rightarrow> bool" where
  "payload_matches r change actor before after \<longleftrightarrow>
     change = rc_Change r \<and> actor = rc_Actor r \<and> rc_Expected r = Some before \<and> rc_Resulting r = Some after"

definition check_payload :: "hist_record \<Rightarrow> string \<Rightarrow> (json option \<Rightarrow> error + 'p) \<Rightarrow> ('p \<Rightarrow> bool) \<Rightarrow> error + unit" where
  "check_payload r what decode matches =
     bindE (map_err (Wrapped [Str (what @ '' payload: '')]) (decode (rc_Payload r))) (\<lambda>p.
     if matches p then Inr () else Inl (failed (what @ '' payload does not match history envelope'')))"

definition validate_typed_payload :: "hist_record \<Rightarrow> error + unit" where
  "validate_typed_payload r =
     (if rc_Kind r = ''attempt'' then check_payload r ''attempt'' DecodeAttemptPayload
        (\<lambda>p. payload_matches r (atp_Change p) (atp_Actor p) (atp_RevisionBefore p) (atp_RevisionAfter p))
      else if rc_Kind r = ''completion'' then check_payload r ''completion'' DecodeCompletionPayload
        (\<lambda>p. payload_matches r (cmp_Change p) (cmp_Actor p) (cmp_RevisionBefore p) (cmp_RevisionAfter p))
      else if rc_Kind r = ''synced'' then check_payload r ''sync'' DecodeSyncPayload
        (\<lambda>p. payload_matches r (syp_Change p) (syp_Approver p) (syp_RevisionBefore p) (syp_RevisionAfter p))
      else if rc_Kind r = ''archived'' then check_payload r ''archive'' DecodeArchivePayload
        (\<lambda>p. payload_matches r (arp_Change p) (arp_Actor p) (arp_RevisionBefore p) (arp_RevisionAfter p))
      else if rc_Kind r = ''friction'' then check_payload r ''friction'' DecodeFrictionPayload
        (\<lambda>p. frp_Change p = rc_Change r \<and> frp_Actor p = rc_Actor r)
      else if rc_Kind r = ''reopened'' then check_payload r ''reopened'' DecodeReopenedPayload
        (\<lambda>p. payload_matches r (rop_Change p) (rop_Actor p) (rop_RevisionBefore p) (rop_RevisionAfter p))
      else Inr ())"

definition record_Validate :: "hist_record \<Rightarrow> error + unit" where
  "record_Validate r =
     (if rc_SchemaVersion r \<noteq> 1 then
        Inl (Failed [Str ''unsupported schema_version '', Str (show_int (rc_SchemaVersion r))])
      else if trim_space (rc_ID r) = [] \<or> trim_space (rc_Change r) = [] \<or> trim_space (rc_Actor r) = [] \<or>
              trim_space (rc_Timestamp r) = [] then
        Inl (failed ''id, change, timestamp, and actor are required'')
      else bindE (validateFamilyKind r) (\<lambda>_.
        if utc_time (rc_Timestamp r) = None then Inl (failed ''timestamp must be RFC3339 UTC'')
        else bindE (map_err (Wrapped [Str ''payload: '']) (canonicalPayload (rc_Payload r))) (\<lambda>_.
          bindE (validate_typed_payload r) (\<lambda>_.
          bindE (Identity r) (\<lambda>want.
            if rc_ID r \<noteq> want then Inl (failed ''id does not match canonical record content'')
            else Inr ())))))"

definition NewRecord :: "hist_record \<Rightarrow> error + hist_record" where
  "NewRecord r =
     (let r = r\<lparr>rc_SchemaVersion := 1, rc_ID := []\<rparr> in
      bindE (map_err (Wrapped [Str ''canonical payload: '']) (canonicalPayload (rc_Payload r))) (\<lambda>p.
      let r = r\<lparr>rc_Payload := Some p\<rparr> in
      bindE (Identity r) (\<lambda>i. let r = r\<lparr>rc_ID := i\<rparr> in bindE (record_Validate r) (\<lambda>_. Inr r))))"

subsection \<open>Replay\<close>

definition record_refusal :: "string \<Rightarrow> string \<Rightarrow> nat \<Rightarrow> msg \<Rightarrow> error" where
  "record_refusal code path line reason =
     refuse code [] path (if 0 < line then [Str ''line '', Dec line, Str '': ''] @ reason else reason)
       [Str ''restore the file from a trusted source'']"

definition decodeStrict :: "string \<Rightarrow> error + hist_record" where
  "decodeStrict line =
     bindE (rejectDuplicateKeys (text_tokens (read_text line))) (\<lambda>_.
     case fst (read_text line) of
       [] \<Rightarrow> Inl json_error
     | v # rest \<Rightarrow> (case record_of_json v of
         None \<Rightarrow> Inl json_error
       | Some r \<Rightarrow>
           if rest \<noteq> [] \<or> \<not> snd (read_text line) then Inl (failed ''multiple JSON values'') else Inr r))"

definition newline :: char where "newline = CHR 0x0A"

definition last_line :: "string \<Rightarrow> string" where
  "last_line raw = rev (takeWhile (\<lambda>c. c \<noteq> newline) (rev raw))"

definition complete_lines :: "string \<Rightarrow> string" where
  "complete_lines raw = rev (dropWhile (\<lambda>c. c \<noteq> newline) (rev raw))"

text \<open>The loop over the lines: seen ids, and the last resulting revision of each change.\<close>

fun replay_lines :: "string \<Rightarrow> string \<Rightarrow> nat \<Rightarrow> string list \<Rightarrow> (string \<rightharpoonup> u64) \<Rightarrow> hist_record list
    \<Rightarrow> string list \<Rightarrow> error + hist_record list" where
  "replay_lines path family n ids heads acc [] = Inr acc"
| "replay_lines path family n ids heads acc (line # lines) =
     (if line = [] then Inl (record_refusal ''record-malformed'' path (n + 1) [Str ''empty complete line''])
      else (case decodeStrict line of
        Inl e \<Rightarrow> Inl (record_refusal ''record-malformed'' path (n + 1) (error_Error e))
      | Inr r \<Rightarrow> (case record_Validate r of
          Inl e \<Rightarrow> Inl (record_refusal ''record-invalid'' path (n + 1) (error_Error e))
        | Inr _ \<Rightarrow>
            if rc_Family r \<noteq> family then
              Inl (record_refusal ''record-family'' path (n + 1) [Str ''record does not match file family''])
            else if rc_ID r \<in> set ids then
              Inl (record_refusal ''record-duplicate'' path (n + 1) [Str ''duplicate record id''])
            else (case rc_Expected r of
              None \<Rightarrow> replay_lines path family (n + 1) (rc_ID r # ids) heads (acc @ [r]) lines
            | Some e \<Rightarrow>
                if heads (rc_Change r) \<noteq> None \<and> heads (rc_Change r) \<noteq> Some e then
                  Inl (record_refusal ''record-revision-chain'' path (n + 1) [Str ''non-contiguous change revision''])
                else (case rc_Resulting r of
                  None \<Rightarrow> Inl (Panicked [Str ''nil pointer dereference''])
                | Some w \<Rightarrow> replay_lines path family (n + 1) (rc_ID r # ids)
                    (heads(rc_Change r \<mapsto> w)) (acc @ [r]) lines)))))"

definition torn_tail :: "string \<Rightarrow> string \<Rightarrow> record_diagnostic" where
  "torn_tail path raw =
     \<lparr>rd_Code = ''record-torn-tail'', rd_File = path, rd_Line = count_list raw newline + 1,
      rd_Reason = ''ignored incomplete final record''\<rparr>"

definition replay :: "string \<Rightarrow> string \<Rightarrow> string \<Rightarrow> error + (hist_record list \<times> record_diagnostic list)" where
  "replay raw path family =
     (let torn = raw \<noteq> [] \<and> last raw \<noteq> newline;
          diags = (if torn then [torn_tail path raw] else []);
          raw' = (if torn then complete_lines raw else raw)
      in if torn \<and> json_Valid (last_line raw) then
           Inl (record_refusal ''record-malformed'' path (count_list raw newline + 1)
             [Str ''complete record lacks newline terminator''])
         else if raw' = [] then Inr ([], diags)
         else bindE (replay_lines path family 0 [] Map.empty [] (split_on newline (butlast raw')))
                (\<lambda>rs. Inr (rs, diags)))"

text \<open>The file at the path: absent, readable bytes, a symbolic link, or not readable.\<close>

datatype ledger_file = NoFile | Bytes string | Symlink | Unreadable error

definition Replay :: "ledger_file \<Rightarrow> string \<Rightarrow> string \<Rightarrow> error + (hist_record list \<times> record_diagnostic list)" where
  "Replay f path family = (case f of
     NoFile \<Rightarrow> Inr ([], [])
   | Bytes raw \<Rightarrow> replay raw path family
   | Symlink \<Rightarrow> Inl (record_refusal ''record-read'' path 0 [Str ''symbolic link''])
   | Unreadable e \<Rightarrow> Inl (record_refusal ''record-read'' path 0 (error_Error e)))"

subsection \<open>Append\<close>

text \<open>The walk backwards to the last record of the change that carries a resulting revision.\<close>

definition last_revision :: "string \<Rightarrow> hist_record list \<Rightarrow> u64 option" where
  "last_revision change records =
     (case find_last (\<lambda>r. rc_Change r = change \<and> rc_Resulting r \<noteq> None) records of
        None \<Rightarrow> None | Some r \<Rightarrow> rc_Resulting r)"

text \<open>The outcome of the write: complete, or an error after some of the bytes.\<close>

datatype write_outcome = Written | PartWritten nat error

definition bytes_of :: "ledger_file \<Rightarrow> string" where
  "bytes_of f = (case f of Bytes raw \<Rightarrow> raw | _ \<Rightarrow> [])"

definition chain_refusal :: "string \<Rightarrow> error" where
  "chain_refusal path =
     refuse ''record-revision-chain'' [] path [Str ''non-contiguous change revision'']
       [Str ''restore the change and its history from version control, or choose a name with no recorded history'']"

text \<open>Writing the line: a failed write or sync truncates the file back to its size before.\<close>

definition write_line :: "os_calls \<Rightarrow> write_outcome \<Rightarrow> string \<Rightarrow> ledger_file \<Rightarrow> string \<Rightarrow> (error + unit) \<times> ledger_file" where
  "write_line os w path f line =
     (let old = bytes_of f;
          fail = (\<lambda>code e raw. (Inl (record_refusal code path 0 (error_Error e)),
                    if os ''truncate'' = None then Bytes old else Bytes raw))
      in case os ''open'' of
           Some e \<Rightarrow> (Inl (record_refusal ''record-append'' path 0 (error_Error e)), f)
         | None \<Rightarrow> (case os ''stat'' of
             Some e \<Rightarrow> (Inl (record_refusal ''record-append'' path 0 (error_Error e)), Bytes old)
           | None \<Rightarrow> (case w of
               PartWritten k e \<Rightarrow> fail ''record-append'' e (old @ take k line)
             | Written \<Rightarrow> (case os ''sync'' of
                 Some e \<Rightarrow> fail ''record-sync'' e (old @ line)
               | None \<Rightarrow> (Inr (), Bytes (old @ line))))))"

definition append_check :: "string \<Rightarrow> string \<Rightarrow> ledger_file \<Rightarrow> hist_record \<Rightarrow> error + unit" where
  "append_check path family f r =
     bindE (Replay f path family) (\<lambda>(records, diagnostics). case diagnostics of
       d # _ \<Rightarrow> Inl (record_refusal ''record-torn-tail'' path (rd_Line d)
                  [Str ''append refused while incomplete tail exists''])
     | [] \<Rightarrow>
         if \<exists>p \<in> set records. rc_ID p = rc_ID r then
           Inl (record_refusal ''record-duplicate'' path 0 [Str ''duplicate record id''])
         else (case (rc_Expected r, last_revision (rc_Change r) records) of
             (Some e, Some w) \<Rightarrow> if e \<noteq> w then Inl (chain_refusal path) else Inr ()
           | _ \<Rightarrow> Inr ()))"

definition appendLocked :: "os_calls \<Rightarrow> write_outcome \<Rightarrow> string \<Rightarrow> string \<Rightarrow> ledger_file \<Rightarrow> hist_record
    \<Rightarrow> (error + unit) \<times> ledger_file" where
  "appendLocked os w path family f r = (case f of
     Symlink \<Rightarrow> (Inl (record_refusal ''record-symlink'' path 0 [Str ''record target is a symlink'']), f)
   | _ \<Rightarrow> (case append_check path family f r of
       Inl e \<Rightarrow> (Inl e, f)
     | Inr _ \<Rightarrow> write_line os w path f (json_bytes (record_json r) @ [newline])))"

text \<open>\<open>validatePath\<close>, given the base name of the path and whether its parent is a directory.\<close>

definition validatePath :: "string \<Rightarrow> string \<Rightarrow> error + bool \<Rightarrow> error + unit" where
  "validatePath base family parent =
     (let want = (if family = FamilyHistory then Some ''history.jsonl''
                  else if family = FamilyEvidence then Some ''evidence.jsonl'' else None)
      in case want of
           None \<Rightarrow> Inl (Failed [Str ''unknown family '', Quo family])
         | Some name \<Rightarrow>
             if base \<noteq> name then Inl (Failed [Str ''family requires '', Str name])
             else bindE parent (\<lambda>isdir. if isdir then Inr () else Inl (failed ''record parent is not a directory'')))"

definition path_base :: "string \<Rightarrow> string" where
  "path_base p = last (split_on CHR ''/'' p)"

definition AppendUnderLock :: "os_calls \<Rightarrow> write_outcome \<Rightarrow> error + bool \<Rightarrow> string \<Rightarrow> string \<Rightarrow> ledger_file
    \<Rightarrow> hist_record \<Rightarrow> (error + unit) \<times> ledger_file" where
  "AppendUnderLock os w parent path family f r =
     (if rc_Family r \<noteq> family then
        (Inl (record_refusal ''record-family'' path 0 [Str ''record does not match file family'']), f)
      else (case record_Validate r of
        Inl e \<Rightarrow> (Inl (record_refusal ''record-invalid'' path 0 (error_Error e)), f)
      | Inr _ \<Rightarrow> (case validatePath (path_base path) family parent of
          Inl e \<Rightarrow> (Inl (record_refusal ''record-path'' path 0 (error_Error e)), f)
        | Inr _ \<Rightarrow> appendLocked os w path family f r)))"

subsection \<open>What a validated record is\<close>

lemma record_Validate_facts:
  assumes "record_Validate r = Inr ()"
  shows "rc_SchemaVersion r = 1" and "Identity r = Inr (rc_ID r)" and "validateFamilyKind r = Inr ()"
    and "\<exists>kvs. rc_Payload r = Some (JObj kvs) \<and> keys_distinct (JObj kvs)"
    and "validate_typed_payload r = Inr ()"
proof -
  show "rc_SchemaVersion r = 1" "Identity r = Inr (rc_ID r)" "validateFamilyKind r = Inr ()"
    "validate_typed_payload r = Inr ()"
    using assms by (auto simp: record_Validate_def split: if_splits)
  from assms obtain p where "canonicalPayload (rc_Payload r) = Inr p"
    by (auto simp: record_Validate_def split: if_splits)
  then obtain v where v: "rc_Payload r = Some v" "v \<noteq> JNull" "rejectDuplicateKeys (tokens v) = Inr ()"
    and "\<exists>kvs. v = JObj kvs"
    by (auto simp: canonicalPayload_def split: option.splits if_splits json.splits)
  moreover have "keys_distinct v"
    using v(3) walk_tokens(1) [of v "Suc (length (tokens v))" "[]"]
    by (auto simp: rejectDuplicateKeys_def split: if_splits)
  ultimately show "\<exists>kvs. rc_Payload r = Some (JObj kvs) \<and> keys_distinct (JObj kvs)" by blast
qed

lemma record_revisions:
  assumes "record_Validate r = Inr ()"
  shows "rc_Expected r = None \<longleftrightarrow> rc_Resulting r = None"
  using record_Validate_facts(3) [OF assms]
  by (auto simp: validateFamilyKind_def split: if_splits option.splits)

lemma record_step:
  assumes "record_Validate r = Inr ()" and "rc_Expected r = Some e"
  shows "rc_Resulting r = Some (e + 1)"
  using record_Validate_facts(3) [OF assms(1)] assms(2)
  by (auto simp: validateFamilyKind_def split: if_splits option.splits)

subsection \<open>Replay as a relation between lines and records\<close>

fun chain_ok :: "(string \<rightharpoonup> u64) \<Rightarrow> hist_record list \<Rightarrow> bool" where
  "chain_ok heads [] = True"
| "chain_ok heads (r # rs) = (case rc_Expected r of
     None \<Rightarrow> chain_ok heads rs
   | Some e \<Rightarrow> heads (rc_Change r) \<in> {None, Some e} \<and>
       (case rc_Resulting r of None \<Rightarrow> False | Some w \<Rightarrow> chain_ok (heads(rc_Change r \<mapsto> w)) rs))"

definition ledger_ok :: "string \<Rightarrow> hist_record list \<Rightarrow> bool" where
  "ledger_ok family rs \<longleftrightarrow>
     (\<forall>r \<in> set rs. record_Validate r = Inr () \<and> rc_Family r = family) \<and> distinct (map rc_ID rs) \<and>
     chain_ok Map.empty rs"

definition line_of :: "string \<Rightarrow> hist_record \<Rightarrow> bool" where
  "line_of line r \<longleftrightarrow> line \<noteq> [] \<and> decodeStrict line = Inr r"

lemma replay_lines_iff:
  "replay_lines path family n ids heads acc lines = Inr out \<longleftrightarrow>
     (\<exists>rs. out = acc @ rs \<and> list_all2 line_of lines rs \<and>
       (\<forall>r \<in> set rs. record_Validate r = Inr () \<and> rc_Family r = family) \<and>
       distinct (map rc_ID rs) \<and> set ids \<inter> rc_ID ` set rs = {} \<and> chain_ok heads rs)"
proof (induction lines arbitrary: n ids heads acc)
  case Nil
  then show ?case by auto
next
  case (Cons line lines)
  show ?case
  proof (cases "line \<noteq> [] \<and> (\<exists>r. decodeStrict line = Inr r \<and> record_Validate r = Inr () \<and> rc_Family r = family \<and>
      rc_ID r \<notin> set ids \<and> (case rc_Expected r of None \<Rightarrow> True
        | Some e \<Rightarrow> heads (rc_Change r) \<in> {None, Some e} \<and> rc_Resulting r \<noteq> None))")
    case False
    then have "\<nexists>out. replay_lines path family n ids heads acc (line # lines) = Inr out"
      by (auto split: sum.splits option.splits)
    moreover have "\<not> (\<exists>rs. list_all2 line_of (line # lines) rs \<and>
       (\<forall>r \<in> set rs. record_Validate r = Inr () \<and> rc_Family r = family) \<and>
       distinct (map rc_ID rs) \<and> set ids \<inter> rc_ID ` set rs = {} \<and> chain_ok heads rs)"
      using False by (auto simp: list_all2_Cons1 line_of_def split: option.splits)
    ultimately show ?thesis by blast
  next
    case True
    then obtain r where r: "line \<noteq> []" "decodeStrict line = Inr r" "record_Validate r = Inr ()"
      "rc_Family r = family" "rc_ID r \<notin> set ids"
      "case rc_Expected r of None \<Rightarrow> True
        | Some e \<Rightarrow> heads (rc_Change r) \<in> {None, Some e} \<and> rc_Resulting r \<noteq> None" by blast
    define heads' where "heads' = (case rc_Expected r of None \<Rightarrow> heads
        | Some e \<Rightarrow> heads(rc_Change r \<mapsto> the (rc_Resulting r)))"
    have step: "replay_lines path family n ids heads acc (line # lines) =
        replay_lines path family (n + 1) (rc_ID r # ids) heads' (acc @ [r]) lines"
      using r by (auto simp: heads'_def split: option.splits)
    have chain: "chain_ok heads (r # rs) = chain_ok heads' rs" for rs
      using r(6) by (auto simp: heads'_def split: option.splits)
    have first: "list_all2 line_of (line # lines) rs \<longleftrightarrow> (\<exists>rs'. rs = r # rs' \<and> list_all2 line_of lines rs')" for rs
      using r(1,2) by (auto simp: list_all2_Cons1 line_of_def)
    have split: "(\<exists>rs. out = acc @ rs \<and> list_all2 line_of (line # lines) rs \<and> Q rs) \<longleftrightarrow>
        (\<exists>rs. out = (acc @ [r]) @ rs \<and> list_all2 line_of lines rs \<and> Q (r # rs))" for Q
      unfolding first by auto
    have body: "(\<forall>x \<in> set (r # rs). record_Validate x = Inr () \<and> rc_Family x = family) \<and>
         distinct (map rc_ID (r # rs)) \<and> set ids \<inter> rc_ID ` set (r # rs) = {} \<and> chain_ok heads (r # rs) \<longleftrightarrow>
       (\<forall>x \<in> set rs. record_Validate x = Inr () \<and> rc_Family x = family) \<and>
         distinct (map rc_ID rs) \<and> set (rc_ID r # ids) \<inter> rc_ID ` set rs = {} \<and> chain_ok heads' rs" for rs
      unfolding chain using r(3-5) by auto
    show ?thesis
      unfolding step Cons.IH split body by (rule refl)
  qed
qed

text \<open>The heads after a run of valid records.\<close>

lemma last_revision_snoc:
  "last_revision c (rs @ [r]) =
     (if rc_Change r = c \<and> rc_Resulting r \<noteq> None then rc_Resulting r else last_revision c rs)"
  by (auto simp: last_revision_def find_last_snoc)

lemma chain_ok_snoc:
  assumes "\<forall>r \<in> set rs. record_Validate r = Inr ()" and "record_Validate r = Inr ()"
  shows "chain_ok Map.empty (rs @ [r]) \<longleftrightarrow> chain_ok Map.empty rs \<and>
    (case (rc_Expected r, last_revision (rc_Change r) rs) of (Some e, Some w) \<Rightarrow> e = w | _ \<Rightarrow> True)"
proof -
  have gen: "chain_ok heads (rs @ [r]) \<longleftrightarrow> chain_ok heads rs \<and>
      (case rc_Expected r of None \<Rightarrow> True | Some e \<Rightarrow>
        (case last_revision (rc_Change r) rs of Some w \<Rightarrow> e = w | None \<Rightarrow> heads (rc_Change r) \<in> {None, Some e}))"
    if "\<forall>r \<in> set rs. record_Validate r = Inr ()" for heads rs
    using that
  proof (induction rs arbitrary: heads)
    case Nil
    then show ?case using record_revisions [OF assms(2)]
      by (auto simp: last_revision_def find_last_def split: option.splits)
  next
    case (Cons a rs)
    have last: "last_revision c (a # rs) = (case last_revision c rs of Some w \<Rightarrow> Some w
        | None \<Rightarrow> if rc_Change a = c \<and> rc_Resulting a \<noteq> None then rc_Resulting a else None)" for c
    proof -
      have "find P (xs @ [a]) = (case find P xs of Some x \<Rightarrow> Some x | None \<Rightarrow> if P a then Some a else None)" for P xs
        by (induction xs) auto
      then show ?thesis
        by (auto simp: last_revision_def find_last_def split: option.splits dest!: find_Some_set)
    qed
    have a: "rc_Expected a = None \<longleftrightarrow> rc_Resulting a = None" using Cons.prems record_revisions by simp
    show ?case
    proof (cases "rc_Expected a")
      case None
      then show ?thesis using Cons a last by (auto split: option.splits)
    next
      case (Some e)
      then obtain w where "rc_Resulting a = Some w" using a by auto
      then show ?thesis using Cons Some last by (auto split: option.splits)
    qed
  qed
  show ?thesis using gen [OF assms(1), of Map.empty] by (auto split: option.splits)
qed

lemma ledger_ok_snoc:
  assumes "ledger_ok family rs" and "record_Validate r = Inr ()" and "rc_Family r = family"
  shows "ledger_ok family (rs @ [r]) \<longleftrightarrow> rc_ID r \<notin> rc_ID ` set rs \<and>
    (case (rc_Expected r, last_revision (rc_Change r) rs) of (Some e, Some w) \<Rightarrow> e = w | _ \<Rightarrow> True)"
  using assms chain_ok_snoc [of rs r] by (auto simp: ledger_ok_def)

subsection \<open>A record and its line\<close>

text \<open>What can be written and read back exactly: well-formed UTF-8 and JSON numbers.\<close>

definition encodable :: "hist_record \<Rightarrow> bool" where
  "encodable r \<longleftrightarrow> json_ok (record_json r)"

lemma show_nat_hd: "n \<noteq> 0 \<Longrightarrow> hd (show_nat n) \<noteq> CHR ''0''"
proof (induction n rule: show_nat.induct)
  case (1 n)
  show ?case
  proof (cases "n < 10")
    case True
    then have "digit_char n \<noteq> CHR ''0''"
      using less_10_cases [OF True] 1(2) by (auto simp: digit_char_def)
    with True show ?thesis by (subst show_nat.simps) simp
  next
    case False
    then have "n div 10 \<noteq> 0" by (simp add: div_eq_0_iff)
    with False 1 show ?thesis by (subst show_nat.simps) simp
  qed
qed

lemma number_ok_show [simp]: "number_ok (show_nat n)" "list_all number_char (show_nat n)"
proof -
  have digits: "\<forall>c \<in> set (show_nat n). is_digit c" using show_nat_digits by blast
  then show "list_all number_char (show_nat n)" by (simp add: list_all_iff number_char_def)
  obtain c cs where s: "show_nat n = c # cs" by (cases "show_nat n") auto
  have minus: "c \<noteq> CHR ''-''" using digits s by (auto simp: is_digit_def)
  have zero: "c = CHR ''0'' \<Longrightarrow> cs = []"
  proof -
    assume "c = CHR ''0''"
    then have "n = 0" using show_nat_hd [of n] s by auto
    then have "show_nat n = [digit_char 0]" by (subst show_nat.simps) simp
    with s show "cs = []" by simp
  qed
  have tw: "takeWhile is_digit (c # cs) = c # cs" "dropWhile is_digit (c # cs) = []"
    using digits s by (simp_all add: takeWhile_eq_all_conv dropWhile_eq_Nil_conv)
  have d: "digits1 (c # cs)" using digits s by (simp add: digits1_def list_all_iff)
  have "number_ok (c # cs)"
    using minus zero d by (simp add: number_ok_def tw fraction_ok_def del: takeWhile.simps dropWhile.simps)
  with s show "number_ok (show_nat n)" by simp
qed

lemma record_decode_json:
  assumes "rc_SchemaVersion r = 1" and "rc_Payload r = Some (JObj kvs)"
  shows "record_decode strict (record_json r) = Some r"
  using assms unfolding record_decode_def record_json_def
  by (cases "rc_Expected r"; cases "rc_Resulting r"; subst decode_object_distinct)
     (simp_all add: record_names_def field_getters opt_u64_def field_opt_u64_def)

lemma record_of_json_json:
  assumes "rc_SchemaVersion r = 1" and "rc_Payload r = Some (JObj kvs)"
  shows "record_of_json (record_json r) = Some r"
  using record_decode_json [OF assms] by (simp add: record_of_json_def)

lemma keys_distinct_record_json:
  "rc_Payload r = Some v \<Longrightarrow> keys_distinct v \<Longrightarrow> keys_distinct (record_json r)"
  by (simp add: record_json_def opt_u64_def json_int_def json_u64_def json_nat_def split: option.splits)

lemma decodeStrict_line:
  assumes "record_Validate r = Inr ()" and "encodable r"
  shows "decodeStrict (json_bytes (record_json r)) = Inr r"
proof -
  obtain kvs where p: "rc_Payload r = Some (JObj kvs)" "keys_distinct (JObj kvs)"
    using record_Validate_facts(4) [OF assms(1)] by blast
  have "read_text (json_bytes (record_json r) @ []) = ([record_json r], True)"
    by (rule read_text_bytes) (use assms(2) in \<open>simp_all add: encodable_def\<close>)
  then show ?thesis
    using rejectDuplicateKeys_tokens [OF keys_distinct_record_json [OF p]]
      record_of_json_json [OF record_Validate_facts(1) [OF assms(1)] p(1)]
    by (simp add: decodeStrict_def text_tokens_def)
qed

lemma record_line_shape:
  assumes "encodable r"
  shows "newline \<notin> set (json_bytes (record_json r))" and "json_bytes (record_json r) \<noteq> []"
  using json_bytes_no_newline(1) [OF assms [unfolded encodable_def]]
  by (auto simp: newline_def record_json_def)

subsection \<open>Ledger files\<close>

text \<open>The bytes of a file of complete lines.\<close>

lemma replay_complete_iff:
  assumes "raw = [] \<or> last raw = newline"
  shows "replay raw path family = Inr (rs, ds) \<longleftrightarrow> ds = [] \<and>
    (if raw = [] then rs = [] else
       list_all2 line_of (split_on newline (butlast raw)) rs \<and> ledger_ok family rs)"
proof (cases "raw = []")
  case False
  with assms have "replay raw path family =
      bindE (replay_lines path family 0 [] Map.empty [] (split_on newline (butlast raw))) (\<lambda>rs. Inr (rs, []))"
    by (simp add: replay_def)
  then show ?thesis
    using False by (simp add: bindE_eq_Inr replay_lines_iff ledger_ok_def) blast
qed (auto simp: replay_def)

lemma complete_lines_shape: "complete_lines raw = [] \<or> last (complete_lines raw) = newline"
proof (cases "dropWhile (\<lambda>c. c \<noteq> newline) (rev raw)")
  case (Cons x xs)
  then have "x = newline" using hd_dropWhile [of "\<lambda>c. c \<noteq> newline" "rev raw"] by simp
  with Cons show ?thesis by (simp add: complete_lines_def)
qed (simp add: complete_lines_def)

lemma replay_no_diag:
  assumes "replay raw path family = Inr (rs, [])"
  shows "raw = [] \<or> last raw = newline"
  using assms by (auto simp: replay_def Let_def bindE_eq_Inr split: if_splits)

lemma replay_ledger_ok:
  assumes "replay raw path family = Inr (rs, ds)"
  shows "ledger_ok family rs"
proof -
  have nil: "ledger_ok family []" by (simp add: ledger_ok_def)
  have lines: "replay_lines path family 0 [] Map.empty [] ls = Inr rs \<Longrightarrow> ledger_ok family rs" for ls
    unfolding replay_lines_iff ledger_ok_def by auto
  show ?thesis
    using assms nil lines by (auto simp: replay_def Let_def bindE_eq_Inr split: if_splits)
qed

lemma replay_append_line:
  assumes "replay raw path family = Inr (rs, [])" and "line_of line r" and "newline \<notin> set line"
    and "ledger_ok family (rs @ [r])"
  shows "replay (raw @ line @ [newline]) path family = Inr (rs @ [r], [])"
proof -
  have shape: "raw = [] \<or> last raw = newline" using replay_no_diag [OF assms(1)] .
  have lines: "split_on newline (butlast (raw @ line @ [newline])) =
      (if raw = [] then [] else split_on newline (butlast raw)) @ [line]"
  proof (cases "raw = []")
    case False
    then have "raw = butlast raw @ [newline]" using shape by (metis append_butlast_last_id)
    then have "butlast (raw @ line @ [newline]) = butlast raw @ newline # line"
      by (metis append.assoc append_Cons append_Nil butlast_snoc)
    then show ?thesis using False assms(3) by (simp add: split_on_append_sep split_on_none)
  qed (use assms(3) in \<open>simp add: split_on_none\<close>)
  have "list_all2 line_of (split_on newline (butlast (raw @ line @ [newline]))) (rs @ [r])"
    using assms(1,2) shape unfolding lines replay_complete_iff [OF shape]
    by (auto intro: list_all2_appendI split: if_splits)
  then show ?thesis
    using assms(4) by (subst replay_complete_iff) (simp_all del: butlast_append)
qed

lemma AppendUnderLock_Inr:
  assumes "AppendUnderLock os w parent path family f r = (Inr (), f')"
  shows "record_Validate r = Inr ()" and "rc_Family r = family" and "append_check path family f r = Inr ()"
    and "f' = Bytes (bytes_of f @ json_bytes (record_json r) @ [newline])"
  using assms
  by (auto simp: AppendUnderLock_def appendLocked_def write_line_def Let_def
      split: if_splits sum.splits ledger_file.splits option.splits write_outcome.splits)

lemma append_check_Inr:
  assumes "append_check path family f r = Inr ()"
  obtains rs where "Replay f path family = Inr (rs, [])" and "rc_ID r \<notin> rc_ID ` set rs"
    and "case (rc_Expected r, last_revision (rc_Change r) rs) of (Some e, Some w) \<Rightarrow> e = w | _ \<Rightarrow> True"
proof -
  from assms obtain rs ds where "Replay f path family = Inr (rs, ds)"
    by (auto simp: append_check_def)
  note read = this
  with assms have "ds = []" and fresh: "\<forall>p \<in> set rs. rc_ID p \<noteq> rc_ID r"
    and chain: "case (rc_Expected r, last_revision (rc_Change r) rs) of (Some e, Some w) \<Rightarrow> e = w | _ \<Rightarrow> True"
    by (auto simp: append_check_def split: list.splits if_splits option.splits)
  have "rc_ID r \<notin> rc_ID ` set rs" using fresh by force
  with read \<open>ds = []\<close> chain show thesis by (intro that) simp_all
qed

text \<open>The central lemma: a successful append reads back as the records before and the new one.\<close>

lemma append_reads_back:
  assumes "AppendUnderLock os w parent path family f r = (Inr (), f')" and "encodable r"
  shows "\<exists>rs. Replay f path family = Inr (rs, []) \<and> Replay f' path family = Inr (rs @ [r], [])"
proof -
  note a = AppendUnderLock_Inr [OF assms(1)]
  obtain rs where rs: "Replay f path family = Inr (rs, [])" "rc_ID r \<notin> rc_ID ` set rs"
    "case (rc_Expected r, last_revision (rc_Change r) rs) of (Some e, Some w) \<Rightarrow> e = w | _ \<Rightarrow> True"
    using append_check_Inr [OF a(3)] by blast
  have raw: "replay (bytes_of f) path family = Inr (rs, [])"
    using rs(1) by (cases f) (auto simp: Replay_def bytes_of_def replay_def)
  have "ledger_ok family (rs @ [r])"
    using ledger_ok_snoc [OF replay_ledger_ok [OF raw] a(1,2)] rs(2,3) by blast
  moreover have "line_of (json_bytes (record_json r)) r"
    using decodeStrict_line [OF a(1) assms(2)] record_line_shape(2) [OF assms(2)] by (simp add: line_of_def)
  ultimately have "replay (bytes_of f @ json_bytes (record_json r) @ [newline]) path family = Inr (rs @ [r], [])"
    by (intro replay_append_line [OF raw _ record_line_shape(1) [OF assms(2)]])
  then show ?thesis using rs(1) a(4) by (simp add: Replay_def)
qed

subsection \<open>Properties of the ledger\<close>

text \<open>The revision steps a change takes in a ledger, and what it means that they link up.\<close>

fun steps :: "string \<Rightarrow> hist_record list \<Rightarrow> (u64 \<times> u64) list" where
  "steps c [] = []"
| "steps c (r # rs) = (case (rc_Expected r, rc_Resulting r) of
     (Some e, Some w) \<Rightarrow> if rc_Change r = c then (e, w) # steps c rs else steps c rs
   | _ \<Rightarrow> steps c rs)"

fun linked :: "u64 option \<Rightarrow> (u64 \<times> u64) list \<Rightarrow> bool" where
  "linked prev [] = True"
| "linked prev ((e, w) # xs) = (prev \<in> {None, Some e} \<and> w = e + 1 \<and> linked (Some w) xs)"

lemma chain_ok_linked:
  "chain_ok heads rs \<Longrightarrow> \<forall>r \<in> set rs. record_Validate r = Inr () \<Longrightarrow> linked (heads c) (steps c rs)"
proof (induction rs arbitrary: heads)
  case (Cons r rs)
  show ?case
  proof (cases "rc_Expected r")
    case None
    then show ?thesis using Cons by simp
  next
    case (Some e)
    then have w: "rc_Resulting r = Some (e + 1)" using Cons.prems(2) record_step by simp
    let ?h = "heads(rc_Change r \<mapsto> e + 1)"
    have ok: "chain_ok ?h rs" "heads (rc_Change r) \<in> {None, Some e}" using Cons.prems(1) Some w by simp_all
    have "linked (?h c) (steps c rs)" by (rule Cons.IH [OF ok(1)]) (use Cons.prems in simp)
    then show ?thesis using Some w ok(2) by (cases "c = rc_Change r") simp_all
  qed
qed simp

text \<open>C15: What replay accepts is a sound ledger: every record is valid, belongs to the file's family and
  is bound to its content by its id, no id repeats, and for every change the revision steps link up,
  each one from the revision the step before it reached to the next.\<close>
theorem replay_sound:
  assumes "replay raw path family = Inr (rs, ds)"
  shows "(\<forall>r \<in> set rs. record_Validate r = Inr () \<and> rc_Family r = family \<and> Identity r = Inr (rc_ID r)) \<and>
    distinct (map rc_ID rs) \<and> (\<forall>c. linked None (steps c rs))"
proof -
  have ok: "ledger_ok family rs" by (rule replay_ledger_ok [OF assms])
  then have "\<forall>c. linked None (steps c rs)"
    using chain_ok_linked [of Map.empty rs] by (simp add: ledger_ok_def)
  with ok show ?thesis using record_Validate_facts(2) by (auto simp: ledger_ok_def)
qed

text \<open>A successful append is durable in the sense of replay: the ledger replayed without a
  diagnostic before, and it replays as the same records followed by the new one afterwards.\<close>
theorem append_extends_ledger:
  assumes "AppendUnderLock os w parent path family f r = (Inr (), f')" and "encodable r"
  shows "\<exists>rs. Replay f path family = Inr (rs, []) \<and> Replay f' path family = Inr (rs @ [r], [])"
  by (rule append_reads_back [OF assms])

text \<open>A failed append changes nothing that was recorded: unless the file could not be truncated
  back, its bytes are those before (a file that did not exist may have been created empty).\<close>
theorem append_failure_keeps_ledger:
  assumes "AppendUnderLock os w parent path family f r = (Inl e, f')" and "os ''truncate'' = None"
  shows "bytes_of f' = bytes_of f \<and> Replay f' path family = Replay f path family"
proof -
  have "f' = f \<or> (f' = Bytes (bytes_of f) \<and> append_check path family f r = Inr () \<and> f \<noteq> Symlink)"
    using assms
    by (auto simp: AppendUnderLock_def appendLocked_def write_line_def Let_def bytes_of_def
        split: if_splits sum.splits ledger_file.splits option.splits write_outcome.splits)
  then show ?thesis
    by (cases f) (auto simp: bytes_of_def Replay_def replay_def append_check_def)
qed

lemma append_needs_clean:
  assumes "AppendUnderLock os w parent path family (Bytes raw) r = (Inr (), f')"
  obtains xs where "replay raw path family = Inr (xs, [])"
proof -
  obtain xs where "Replay (Bytes raw) path family = Inr (xs, [])"
    by (rule append_check_Inr [OF AppendUnderLock_Inr(3) [OF assms]])
  then show thesis using that by (simp add: Replay_def)
qed

lemma torn_shape:
  assumes "raw = [] \<or> last raw = newline" and "newline \<notin> set t"
  shows "last_line (raw @ t) = t" and "complete_lines (raw @ t) = raw"
proof -
  have "takeWhile (\<lambda>c. c \<noteq> newline) (rev raw) = []" "dropWhile (\<lambda>c. c \<noteq> newline) (rev raw) = rev raw"
    using assms(1) by (cases raw rule: rev_cases; auto)+
  moreover have "\<forall>c \<in> set (rev t). c \<noteq> newline" using assms(2) by auto
  ultimately show "last_line (raw @ t) = t" "complete_lines (raw @ t) = raw"
    by (simp_all add: last_line_def complete_lines_def takeWhile_append dropWhile_append)
qed

lemma replay_torn:
  assumes "replay raw path family = Inr (rs, [])" and "newline \<notin> set t" and "t \<noteq> []"
  shows "replay (raw @ t) path family =
    (if json_Valid t
     then Inl (record_refusal ''record-malformed'' path (count_list (raw @ t) newline + 1)
       [Str ''complete record lacks newline terminator''])
     else Inr (rs, [torn_tail path (raw @ t)]))"
proof -
  note shape = replay_no_diag [OF assms(1)]
  have torn: "raw @ t \<noteq> [] \<and> last (raw @ t) \<noteq> newline" using assms(2,3) last_in_set by fastforce
  show ?thesis
    using assms(1) torn shape
    unfolding replay_def Let_def torn_shape [OF shape assms(2)]
    by (auto simp: bindE_eq_Inr split: if_splits)
qed

text \<open>An append cut off after any number of its bytes.\<close>

lemma append_cut:
  assumes "replay raw path family = Inr (rs, [])" and "ledger_ok family (rs @ [r])" and "encodable r"
    and f: "f = raw @ take k (json_bytes (record_json r) @ [newline])"
  shows "replay f path family \<in> {Inr (rs, []), Inr (rs @ [r], []), Inr (rs, [torn_tail path f]),
       Inl (record_refusal ''record-malformed'' path (count_list f newline + 1)
         [Str ''complete record lacks newline terminator''])}"
proof -
  let ?line = "json_bytes (record_json r)"
  have r: "record_Validate r = Inr ()" using assms(2) by (simp add: ledger_ok_def)
  consider "k = 0" | "0 < k" "k \<le> length ?line" | "length ?line < k" by linarith
  then show ?thesis
  proof cases
    case 1
    then show ?thesis using assms(1) by (simp add: f)
  next
    case 2
    then have t: "f = raw @ take k ?line" "newline \<notin> set (take k ?line)" "take k ?line \<noteq> []"
      using record_line_shape [OF assms(3)] in_set_takeD by (force simp: f)+
    show ?thesis using replay_torn [OF assms(1) t(2,3)] unfolding t(1) by simp
  next
    case 3
    then have "f = raw @ ?line @ [newline]" by (simp add: f)
    moreover have "line_of ?line r"
      using decodeStrict_line [OF r assms(3)] record_line_shape(2) [OF assms(3)] by (simp add: line_of_def)
    ultimately show ?thesis
      using replay_append_line [OF assms(1) _ record_line_shape(1) [OF assms(3)] assms(2)] by simp
  qed
qed

text \<open>Whatever happens to an append, what can be read afterwards are the records before it, or they
  and the new one.\<close>

lemma append_outcome:
  assumes a: "AppendUnderLock os w parent path family f r = (res, f')" and e: "encodable r"
    and read: "Replay f' path family = Inr (rs', ds')"
  shows "\<exists>rs ds. Replay f path family = Inr (rs, ds) \<and> (rs' = rs \<or> rs' = rs @ [r])"
proof (cases "f' = f")
  case False
  then have v: "record_Validate r = Inr ()" "rc_Family r = family" and c: "append_check path family f r = Inr ()"
    and f': "(\<exists>k. f' = Bytes (bytes_of f @ take k (json_bytes (record_json r) @ [newline])))"
    using a
    by (auto simp: AppendUnderLock_def appendLocked_def write_line_def Let_def
        split: if_splits sum.splits ledger_file.splits option.splits write_outcome.splits
        intro: exI [of _ 0] exI [of _ "Suc (length (json_bytes (record_json r)))"])
  obtain rs where rs: "Replay f path family = Inr (rs, [])" "rc_ID r \<notin> rc_ID ` set rs"
    "case (rc_Expected r, last_revision (rc_Change r) rs) of (Some e, Some w) \<Rightarrow> e = w | _ \<Rightarrow> True"
    using append_check_Inr [OF c] by blast
  have raw: "replay (bytes_of f) path family = Inr (rs, [])"
    using rs(1) by (cases f) (auto simp: Replay_def bytes_of_def replay_def)
  have "ledger_ok family (rs @ [r])"
    using ledger_ok_snoc [OF replay_ledger_ok [OF raw] v] rs(2,3) by blast
  note ok = this
  obtain k where "f' = Bytes (bytes_of f @ take k (json_bytes (record_json r) @ [newline]))" using f' by blast
  then obtain g where g: "g = bytes_of f @ take k (json_bytes (record_json r) @ [newline])" "f' = Bytes g" by blast
  have "replay g path family = Inr (rs', ds')" using read g(2) by (simp add: Replay_def)
  then show ?thesis using append_cut [OF raw ok e g(1)] rs(1) by auto
qed (use read in blast)


subsection \<open>The interface of an append-only log\<close>

text \<open>What the rest of the program relies on: reading gives a list of entries or fails, and adding an
  entry either fails or makes the list one longer.\<close>

locale append_log =
  fixes entries :: "'f \<Rightarrow> 'r list option"
    and add :: "'f \<Rightarrow> 'r \<Rightarrow> 'f option"
    and fits :: "'r \<Rightarrow> bool"
  assumes add_entries: "add f r = Some f' \<Longrightarrow> fits r \<Longrightarrow> \<exists>rs. entries f = Some rs \<and> entries f' = Some (rs @ [r])"
begin

fun add_all :: "'f \<Rightarrow> 'r list \<Rightarrow> 'f option" where
  "add_all f [] = Some f"
| "add_all f (r # rs) = (case add f r of None \<Rightarrow> None | Some f' \<Rightarrow> add_all f' rs)"

lemma add_all_entries:
  assumes "add_all f new = Some f'" and "\<forall>r \<in> set new. fits r" and "entries f = Some old"
  shows "entries f' = Some (old @ new)"
  using assms
proof (induction new arbitrary: f old)
  case (Cons r new)
  then obtain g where g: "add f r = Some g" "add_all g new = Some f'" by (auto split: option.splits)
  then have "entries g = Some (old @ [r])" using add_entries [OF g(1)] Cons.prems by auto
  then show ?case using Cons.IH [OF g(2)] Cons.prems(2) by simp
qed simp

lemma prefix_kept:
  assumes "add_all f new = Some f'" and "\<forall>r \<in> set new. fits r" and "entries f = Some old"
  shows "\<exists>later. entries f' = Some (old @ later)"
  using add_all_entries [OF assms] by blast

end

definition ledger_entries :: "string \<Rightarrow> string \<Rightarrow> ledger_file \<Rightarrow> hist_record list option" where
  "ledger_entries path family f = (case Replay f path family of Inr (rs, []) \<Rightarrow> Some rs | _ \<Rightarrow> None)"

definition ledger_add :: "string \<Rightarrow> string \<Rightarrow> ledger_file \<Rightarrow> hist_record \<Rightarrow> ledger_file option" where
  "ledger_add path family f r =
     (case AppendUnderLock os_ok Written (Inr True) path family f r of
        (Inr _, f') \<Rightarrow> Some f' | (Inl _, _) \<Rightarrow> None)"

interpretation ledger: append_log "ledger_entries path family" "ledger_add path family" encodable
  for path family
proof unfold_locales
  fix f r f'
  assume "ledger_add path family f r = Some f'" and "encodable r"
  then show "\<exists>rs. ledger_entries path family f = Some rs \<and> ledger_entries path family f' = Some (rs @ [r])"
    using append_reads_back [of os_ok Written "Inr True" path family f r f']
    by (fastforce simp: ledger_add_def ledger_entries_def split: prod.splits sum.splits)
qed

fun append_all :: "string \<Rightarrow> string \<Rightarrow> ledger_file \<Rightarrow> hist_record list \<Rightarrow> ledger_file option" where
  "append_all path family f [] = Some f"
| "append_all path family f (r # rs) =
     (case ledger_add path family f r of None \<Rightarrow> None | Some f' \<Rightarrow> append_all path family f' rs)"

lemma append_all_eq: "append_all path family f rs = ledger.add_all path family f rs"
  by (induction rs arbitrary: f) (auto split: option.splits)

text \<open>C17: Any sequence of successful appends, from an empty ledger, replays as exactly those records in
  order, and for every change the revisions of the sequence link up.\<close>
theorem append_sequence:
  assumes "append_all path family NoFile rs = Some f" and "\<forall>r \<in> set rs. encodable r"
  shows "Replay f path family = Inr (rs, []) \<and> (\<forall>c. linked None (steps c rs))"
proof -
  have "ledger_entries path family f = Some ([] @ rs)"
    using assms by (intro ledger.add_all_entries [where f = NoFile]) (simp_all add: append_all_eq ledger_entries_def Replay_def)
  then have read: "Replay f path family = Inr (rs, [])"
    by (auto simp: ledger_entries_def split: sum.splits prod.splits list.splits)
  then have "ledger_ok family rs"
    by (cases f) (auto simp: Replay_def ledger_ok_def dest: replay_ledger_ok)
  then have "linked None (steps c rs)" for c
    using chain_ok_linked [of Map.empty rs c] by (simp add: ledger_ok_def)
  with read show ?thesis by blast
qed


subsection \<open>A concrete ledger\<close>

definition sample_record :: hist_record where
  "sample_record =
     (let r = \<lparr>rc_SchemaVersion = 1, rc_ID = [], rc_Family = ''history'', rc_Kind = ''created'',
                rc_Change = ''add-x'', rc_Expected = Some 0, rc_Resulting = Some 1,
                rc_Timestamp = ''2026-01-02T03:04:05Z'', rc_Actor = ''a@b'', rc_Payload = Some (JObj [])\<rparr>
      in r\<lparr>rc_ID := sha256_hex (json_bytes (record_json r))\<rparr>)"

lemma sample_identity: "Identity sample_record = Inr (rc_ID sample_record)"
  by (simp add: Identity_def sample_record_def Let_def canonicalPayload_def rejectDuplicateKeys_tokens [of "JObj []", simplified])

lemma sample_time: "utc_time ''2026-01-02T03:04:05Z'' \<noteq> None"
  by (simp add: utc_time_def time_Parse_def two_digits_def one_or_two_digits_def expect_def is_digit_def
      digit_val_def position_def parse_fraction_def parse_zone_def days_in_def has_suffix_def)

lemma trim_space_sha256 [simp]: "trim_space (sha256_hex m) \<noteq> []"
proof -
  obtain c cs where c: "sha256_hex m = c # cs" by (cases "sha256_hex m") (use sha256_hex_ne in auto)
  then have "c \<in> set ''0123456789abcdef''" using sha256_hex_digits [of m] by auto
  then have "\<not> is_space c" by (auto simp: is_space_def)
  with c show ?thesis by (simp add: trim_space_empty_iff)
qed

lemma sample_simps [simp]:
  "rc_SchemaVersion sample_record = 1" "rc_Family sample_record = ''history''"
  "rc_Kind sample_record = ''created''" "rc_Change sample_record = ''add-x''"
  "rc_Expected sample_record = Some 0" "rc_Resulting sample_record = Some 1"
  "rc_Timestamp sample_record = ''2026-01-02T03:04:05Z''" "rc_Actor sample_record = ''a@b''"
  "rc_Payload sample_record = Some (JObj [])" "trim_space (rc_ID sample_record) \<noteq> []"
  by (simp_all add: sample_record_def Let_def)

lemma sample_valid: "record_Validate sample_record = Inr ()"
  using sample_identity sample_time
  by (simp add: record_Validate_def validateFamilyKind_def FamilyHistory_def validate_typed_payload_def
      canonicalPayload_def rejectDuplicateKeys_tokens [of "JObj []", simplified])
     (simp add: trim_space_empty_iff is_space_def)

lemma sha256_utf8 [simp]: "utf8_ok (sha256_hex m)"
proof (rule ascii_utf8_ok, rule ballI)
  fix c assume "c \<in> set (sha256_hex m)"
  then have "c \<in> set ''0123456789abcdef''" using sha256_hex_digits by blast
  then show "byte c < 128" by (auto simp: byte_def)
qed

lemma sample_encodable: "encodable sample_record"
  by (simp add: encodable_def record_json_def sample_record_def Let_def opt_u64_def json_int_def show_int_def
      json_u64_def json_nat_def del: utf8_ok.simps(2))
     (simp add: ascii_utf8_ok byte_def del: utf8_ok.simps(2))

lemma sample_appended:
  "AppendUnderLock os_ok Written (Inr True) ''.specd/history.jsonl'' ''history'' NoFile sample_record =
     (Inr (), Bytes (json_bytes (record_json sample_record) @ [newline]))"
proof -
  have "rc_Family sample_record = ''history''" by (simp add: sample_record_def Let_def)
  moreover have "path_base ''.specd/history.jsonl'' = ''history.jsonl''" by (simp add: path_base_def)
  ultimately show ?thesis
    by (simp add: AppendUnderLock_def sample_valid validatePath_def FamilyHistory_def appendLocked_def
        append_check_def Replay_def last_revision_def find_last_def write_line_def os_ok_def bytes_of_def
        split: option.split)
qed

theorem append_extends_ledger_witness:
  "Replay (Bytes (json_bytes (record_json sample_record) @ [newline])) ''.specd/history.jsonl'' ''history'' =
     Inr ([sample_record], [])"
  using append_extends_ledger [OF sample_appended sample_encodable] by (simp add: Replay_def)

lemma sample_replay:
  "replay (json_bytes (record_json sample_record) @ [newline]) ''.specd/history.jsonl'' ''history'' =
     Inr ([sample_record], [])"
  using append_reads_back [OF sample_appended sample_encodable] by (simp add: Replay_def)

theorem replay_sound_witness:
  "Identity sample_record = Inr (rc_ID sample_record) \<and> linked None (steps ''add-x'' [sample_record])"
  using replay_sound [OF sample_replay] by simp

theorem append_failure_keeps_ledger_witness:
  "bytes_of NoFile = [] \<and> (\<exists>e f'. AppendUnderLock (\<lambda>_. None) (PartWritten 3 (Failed [Str ''disk full'']))
     (Inr True) ''.specd/history.jsonl'' ''history'' NoFile sample_record = (Inl e, f') \<and> bytes_of f' = bytes_of NoFile)"
proof -
  let ?A = "AppendUnderLock (\<lambda>_. None) (PartWritten 3 (Failed [Str ''disk full'']))
     (Inr True) ''.specd/history.jsonl'' ''history'' NoFile sample_record"
  have fam: "rc_Family sample_record = ''history''" by (simp add: sample_record_def Let_def)
  have base: "path_base ''.specd/history.jsonl'' = ''history.jsonl''" by (simp add: path_base_def)
  have eq: "\<exists>e f'. ?A = (Inl e, f')"
    by (simp add: AppendUnderLock_def sample_valid validatePath_def FamilyHistory_def appendLocked_def fam base
        append_check_def Replay_def last_revision_def find_last_def write_line_def Let_def
        split: option.split)
  then obtain e f' where A: "?A = (Inl e, f')" by blast
  from append_failure_keeps_ledger [OF A] A show ?thesis by (auto simp: bytes_of_def)
qed


theorem append_sequence_witness:
  "Replay (Bytes (json_bytes (record_json sample_record) @ [newline])) ''.specd/history.jsonl'' ''history'' =
     Inr ([sample_record], []) \<and> linked None (steps ''add-x'' [sample_record])"
proof -
  have "append_all ''.specd/history.jsonl'' ''history'' NoFile [sample_record] =
      Some (Bytes (json_bytes (record_json sample_record) @ [newline]))"
    by (simp add: ledger_add_def sample_appended)
  from append_sequence [OF this] sample_encodable show ?thesis by simp
qed

end
