(* ===== verification/FileTree.thy ===== *)
theory FileTree
  imports Segments Records
begin

text \<open>
  The managed tree as the code sees it through the operating system, and the checks of
  \<open>internal/core/path/path.go\<close> that read it. A path is relative to the managed directory
  \<open>.specd\<close>, with \<open>/\<close> between the elements; the empty path is the directory itself. The tree is
  an association list from paths to nodes. The world adds the history file, and the faults of the
  system calls to come: call number \<open>n\<close> may be fine, may fail after part of its effect, or may take
  effect and be reported as an error. A process that dies is a process whose calls all fail from
  some point on.
\<close>

datatype node = NFile string | NDir | NLink

type_synonym fs = "node gomap"

datatype stat = Absent | Blocked | Found node

definition path_prefixes :: "string \<Rightarrow> string list" where
  "path_prefixes p =
     (let segs = split_on CHR ''/'' p
      in map (\<lambda>k. join_with CHR ''/'' (take k segs)) [1..<Suc (length segs)])"

definition parent_dirs :: "string \<Rightarrow> string list" where
  "parent_dirs p = [] # butlast (path_prefixes p)"

definition parent_of :: "string \<Rightarrow> string" where
  "parent_of p = last (parent_dirs p)"

definition lstat :: "fs \<Rightarrow> string \<Rightarrow> stat" where
  "lstat fs p = (case map_of fs p of
     Some n \<Rightarrow> Found n
   | None \<Rightarrow>
       if \<exists>a \<in> set (parent_dirs p). (case map_of fs a of Some (NFile _) \<Rightarrow> True | _ \<Rightarrow> False)
       then Blocked else Absent)"

definition under :: "string \<Rightarrow> string \<Rightarrow> bool" where
  "under child parent \<longleftrightarrow> child = parent \<or> has_prefix child (parent @ ''/'')"

text \<open>The names \<open>os.ReadDir\<close> lists, in order.\<close>

definition dir_names :: "fs \<Rightarrow> string \<Rightarrow> string list" where
  "dir_names fs d =
     (let inside = (if d = [] then filter (\<lambda>p. p \<noteq> []) (map fst fs)
                    else map (drop (length d + 1)) (filter (\<lambda>p. has_prefix p (d @ ''/'')) (map fst fs)))
      in sort (remdups (filter (\<lambda>p. p \<noteq> [] \<and> CHR ''/'' \<notin> set p) inside)))"

subsection \<open>The checks of the path owner\<close>

definition abs_path :: "owner \<Rightarrow> string \<Rightarrow> string" where
  "abs_path o' p = (if p = [] then own_managed o' else path_join (own_managed o') p)"

fun check_prefixes :: "owner \<Rightarrow> fs \<Rightarrow> string list \<Rightarrow> error + unit" where
  "check_prefixes o' fs [] = Inr ()"
| "check_prefixes o' fs (p # ps) = (case lstat fs p of
     Absent \<Rightarrow> Inr ()
   | Blocked \<Rightarrow> Inl (refuse ''path_unreadable'' (own_root o') (abs_path o' p) [Str ''not a directory'']
                  [Str ''choose another name''])
   | Found NLink \<Rightarrow> Inl (refuse ''path_symlink'' (own_root o') (abs_path o' p)
                  [Str ''managed target contains a symlink''] [Str ''choose another name''])
   | Found _ \<Rightarrow> check_prefixes o' fs ps)"

text \<open>The paths looked at: the directory itself, then one element more each time. An element named
  \<open>.specd\<close> starts over at the managed directory, as the code compares every element with that name.\<close>

fun check_points :: "string \<Rightarrow> string list \<Rightarrow> string list" where
  "check_points current [] = []"
| "check_points current (part # parts) =
     (let next' = (if part = ''.specd'' then [] else if current = [] then part else path_join current part)
      in next' # check_points next' parts)"

definition CheckWriteTarget :: "owner \<Rightarrow> fs \<Rightarrow> string \<Rightarrow> error + unit" where
  "CheckWriteTarget o' fs target =
     (let r = path_Clean target in
      if r = ''..'' \<or> has_prefix r ''../'' \<or> has_prefix r ''/'' then
        Inl (refuse ''path_escape'' (own_root o') (abs_path o' target)
               [Str ''managed target escapes .specd''] [Str ''choose another name''])
      else check_prefixes o' fs (check_points [] (''.specd'' # (if r = ''.'' then [] else split_on CHR ''/'' r))))"

definition segmentTarget :: "owner \<Rightarrow> fs \<Rightarrow> string \<Rightarrow> string \<Rightarrow> error + string" where
  "segmentTarget o' fs parent segment =
     bindE (ValidateSegment segment) (\<lambda>_.
     let target = path_join parent segment in
     bindE (CheckWriteTarget o' fs target) (\<lambda>_. Inr target))"

definition owner_Change :: "owner \<Rightarrow> fs \<Rightarrow> string \<Rightarrow> error + string" where
  "owner_Change o' fs name = segmentTarget o' fs ''changes'' name"

definition requireChange :: "owner \<Rightarrow> fs \<Rightarrow> string \<Rightarrow> error + unit" where
  "requireChange o' fs change = (case lstat fs [] of
     Absent \<Rightarrow> Inl (refuse ''not_initialized'' (own_root o') (own_managed o')
                 [Str ''project has no managed root''] [Str ''initialize the project''])
   | Blocked \<Rightarrow> Inl (refuse ''path_unreadable'' (own_root o') (own_managed o') [Str ''not a directory'']
                 [Str ''initialize the project''])
   | Found _ \<Rightarrow> (case lstat fs change of
       Absent \<Rightarrow> Inl (refuse ''change_not_found'' (own_root o') (abs_path o' change)
                   [Str ''change does not exist''] [Str ''choose an existing change''])
     | Blocked \<Rightarrow> Inl (refuse ''path_unreadable'' (own_root o') (abs_path o' change)
                   [Str ''not a directory''] [Str ''choose an existing change''])
     | Found NDir \<Rightarrow> Inr ()
     | Found _ \<Rightarrow> Inl (refuse ''change_not_found'' (own_root o') (abs_path o' change)
                   [Str ''change path is not a directory''] [Str ''choose an existing change''])))"

definition ChangeLockFor :: "string \<Rightarrow> string" where
  "ChangeLockFor change = path_Clean change @ ''.lock''"

definition ChangeLock :: "owner \<Rightarrow> fs \<Rightarrow> string \<Rightarrow> error + string" where
  "ChangeLock o' fs name =
     bindE (owner_Change o' fs name) (\<lambda>change.
     bindE (requireChange o' fs change) (\<lambda>_. Inr (ChangeLockFor change)))"

definition ChangeState :: "owner \<Rightarrow> fs \<Rightarrow> string \<Rightarrow> error + string" where
  "ChangeState o' fs name = bindE (owner_Change o' fs name) (\<lambda>c. Inr (path_join c ''state.json''))"

definition ChangeProposal :: "owner \<Rightarrow> fs \<Rightarrow> string \<Rightarrow> error + string" where
  "ChangeProposal o' fs name = bindE (owner_Change o' fs name) (\<lambda>c. Inr (path_join c ''proposal.md''))"

definition ChangeDesign :: "owner \<Rightarrow> fs \<Rightarrow> string \<Rightarrow> error + string" where
  "ChangeDesign o' fs name = bindE (owner_Change o' fs name) (\<lambda>c. Inr (path_join c ''design.md''))"

definition ChangeTasks :: "owner \<Rightarrow> fs \<Rightarrow> string \<Rightarrow> error + string" where
  "ChangeTasks o' fs name = bindE (owner_Change o' fs name) (\<lambda>c. Inr (path_join c ''tasks.md''))"

definition ChangeSpecs :: "owner \<Rightarrow> fs \<Rightarrow> string \<Rightarrow> error + string" where
  "ChangeSpecs o' fs name = bindE (owner_Change o' fs name) (\<lambda>c. Inr (path_join c ''specs''))"

definition AcceptedSpec :: "owner \<Rightarrow> fs \<Rightarrow> string \<Rightarrow> error + string" where
  "AcceptedSpec o' fs capability =
     bindE (segmentTarget o' fs ''specs'' capability) (\<lambda>d. Inr (path_join d ''spec.md''))"

definition ChangeSpec :: "owner \<Rightarrow> fs \<Rightarrow> string \<Rightarrow> string \<Rightarrow> error + string" where
  "ChangeSpec o' fs change capability =
     bindE (ChangeSpecs o' fs change) (\<lambda>d.
     bindE (segmentTarget o' fs d capability) (\<lambda>d'. Inr (path_join d' ''spec.md'')))"

text \<open>\<open>^\d{4}-\d{2}-\d{2}-(.+)$\<close>: the group.\<close>

definition archivePattern :: "string \<Rightarrow> string option" where
  "archivePattern s = (case s of
     a # b # c # d # e # f # g # h # i # j # k # r \<Rightarrow>
       if list_all is_digit [a, b, c, d, f, g, i, j] \<and> e = CHR ''-'' \<and> h = CHR ''-'' \<and> k = CHR ''-'' \<and>
          r \<noteq> [] \<and> CHR 0x0A \<notin> set r
       then Some r else None
   | _ \<Rightarrow> None)"

definition EnsureUniqueChange :: "owner \<Rightarrow> fs \<Rightarrow> string \<Rightarrow> error + unit" where
  "EnsureUniqueChange o' fs name =
     bindE (owner_Change o' fs name) (\<lambda>active. case lstat fs active of
       Found _ \<Rightarrow> Inl (refuse ''duplicate_change'' (own_root o') (abs_path o' active)
                    [Str ''active change already exists''] [Str ''choose another name''])
     | Blocked \<Rightarrow> Inl (refuse ''path_unreadable'' (own_root o') (abs_path o' active)
                    [Str ''not a directory''] [Str ''choose another name''])
     | Absent \<Rightarrow> (case lstat fs ''archive'' of
         Absent \<Rightarrow> Inr ()
       | Found NDir \<Rightarrow>
           (case find (\<lambda>e. archivePattern e = Some name) (dir_names fs ''archive'') of
              None \<Rightarrow> Inr ()
            | Some e \<Rightarrow> Inl (refuse ''duplicate_change'' (own_root o') (abs_path o' (path_join ''archive'' e))
                         [Str ''archived change already exists''] [Str ''choose another name'']))
       | _ \<Rightarrow> Inl (refuse ''path_unreadable'' (own_root o') (abs_path o' ''archive'')
                    [Str ''not a directory''] [Str ''choose another name''])))"

subsection \<open>Actions on the world\<close>

datatype fault = Fine | Fails nat error | Late error

record world =
  w_fs :: fs
  w_history :: ledger_file
  w_faults :: "nat \<Rightarrow> fault"
  w_step :: nat

type_synonym 'a act = "world \<Rightarrow> (error + 'a) \<times> world"

definition returnA :: "'a \<Rightarrow> 'a act" where
  "returnA x = (\<lambda>w. (Inr x, w))"

definition liftA :: "(world \<Rightarrow> error + 'a) \<Rightarrow> 'a act" where
  "liftA f = (\<lambda>w. (f w, w))"

definition bindA :: "'a act \<Rightarrow> ('a \<Rightarrow> 'b act) \<Rightarrow> 'b act" where
  "bindA m f = (\<lambda>w. case m w of (Inl e, w') \<Rightarrow> (Inl e, w') | (Inr x, w') \<Rightarrow> f x w')"

text \<open>Turning the error of an action, and running another action before an error is returned.\<close>

definition wrapA :: "(error \<Rightarrow> error) \<Rightarrow> 'a act \<Rightarrow> 'a act" where
  "wrapA g m = (\<lambda>w. case m w of (Inl e, w') \<Rightarrow> (Inl (g e), w') | (Inr x, w') \<Rightarrow> (Inr x, w'))"

definition on_errorA :: "'b act \<Rightarrow> 'a act \<Rightarrow> 'a act" where
  "on_errorA cleanup m = (\<lambda>w. case m w of
     (Inl e, w') \<Rightarrow> (Inl e, snd (cleanup w')) | (Inr x, w') \<Rightarrow> (Inr x, w'))"

text \<open>One system call: its effect, or its own error, and what a failure leaves of it.\<close>

definition syscall :: "(fs \<Rightarrow> error + fs) \<Rightarrow> (nat \<Rightarrow> fs \<Rightarrow> fs) \<Rightarrow> unit act" where
  "syscall eff part w =
     (let w' = w\<lparr>w_step := Suc (w_step w)\<rparr> in case w_faults w (w_step w) of
        Fine \<Rightarrow> (case eff (w_fs w) of Inl e \<Rightarrow> (Inl e, w') | Inr fs \<Rightarrow> (Inr (), w'\<lparr>w_fs := fs\<rparr>))
      | Fails n e \<Rightarrow> (Inl e, w'\<lparr>w_fs := part n (w_fs w)\<rparr>)
      | Late e \<Rightarrow> (case eff (w_fs w) of Inl e' \<Rightarrow> (Inl e', w') | Inr fs \<Rightarrow> (Inl e, w'\<lparr>w_fs := fs\<rparr>)))"

definition not_exist :: error where "not_exist = Failed [Str ''no such file or directory'']"
definition not_dir :: error where "not_dir = Failed [Str ''not a directory'']"
definition file_exists :: error where "file_exists = Failed [Str ''file exists'']"

text \<open>\<open>os.RemoveAll\<close>: the directory goes last.\<close>

definition remove_tree :: "string \<Rightarrow> fs \<Rightarrow> fs" where
  "remove_tree d fs = filter (\<lambda>(p, _). \<not> under p d) fs"

definition remove_some :: "string \<Rightarrow> nat \<Rightarrow> fs \<Rightarrow> fs" where
  "remove_some d n fs =
     (let gone = take n (filter (\<lambda>p. has_prefix p (d @ ''/'')) (map fst fs))
      in filter (\<lambda>(p, _). p \<notin> set gone) fs)"

definition os_RemoveAll :: "string \<Rightarrow> unit act" where
  "os_RemoveAll d = syscall (\<lambda>fs. Inr (remove_tree d fs)) (remove_some d)"

text \<open>\<open>os.MkdirAll\<close>: every missing directory on the way. For \<open>os.MkdirAll(filepath.Dir(p))\<close> the
  directories are the \<open>parent_dirs p\<close>.\<close>

definition mkdirs :: "string list \<Rightarrow> fs \<Rightarrow> fs" where
  "mkdirs ds fs = foldl (\<lambda>fs d. if map_of fs d = None then AList.update d NDir fs else fs) fs ds"

definition all_dirs :: "string \<Rightarrow> string list" where
  "all_dirs d = (if d = [] then [[]] else [] # path_prefixes d)"

definition make_dirs :: "string list \<Rightarrow> unit act" where
  "make_dirs ds = syscall
     (\<lambda>fs. if list_all (\<lambda>a. map_of fs a \<in> {None, Some NDir}) ds then Inr (mkdirs ds fs) else Inl not_dir)
     (\<lambda>n fs. if list_all (\<lambda>a. map_of fs a \<in> {None, Some NDir}) ds then mkdirs (take n ds) fs else fs)"

definition os_MkdirAll :: "string \<Rightarrow> unit act" where
  "os_MkdirAll d = make_dirs (all_dirs d)"

text \<open>Writing a new file, and reading one.\<close>

definition os_WriteNew :: "string \<Rightarrow> string \<Rightarrow> unit act" where
  "os_WriteNew p data = syscall
     (\<lambda>fs. if map_of fs p \<noteq> None then Inl file_exists
           else if map_of fs (parent_of p) \<noteq> Some NDir then Inl not_exist
           else Inr (AList.update p (NFile data) fs))
     (\<lambda>n fs. if n = 0 \<or> map_of fs p \<noteq> None \<or> map_of fs (parent_of p) \<noteq> Some NDir then fs
             else AList.update p (NFile (take (n - 1) data)) fs)"

text \<open>\<open>os.Rename\<close> of a file onto a file path, and of a directory onto a free path.\<close>

definition rename_tree :: "string \<Rightarrow> string \<Rightarrow> fs \<Rightarrow> fs" where
  "rename_tree src dst fs =
     map (\<lambda>(p, n). if under p src then (dst @ drop (length src) p, n) else (p, n)) fs"

definition os_Rename :: "string \<Rightarrow> string \<Rightarrow> unit act" where
  "os_Rename src dst = syscall
     (\<lambda>fs. case map_of fs src of
        None \<Rightarrow> Inl not_exist
      | Some NDir \<Rightarrow>
          if map_of fs dst \<noteq> None then Inl file_exists
          else if map_of fs (parent_of dst) \<noteq> Some NDir then Inl not_exist
          else Inr (rename_tree src dst fs)
      | Some n \<Rightarrow>
          if map_of fs dst = Some NDir then Inl file_exists
          else if map_of fs (parent_of dst) \<noteq> Some NDir then Inl not_exist
          else Inr (AList.update dst n (AList.delete src fs)))
     (\<lambda>_ fs. fs)"

definition os_Remove :: "string \<Rightarrow> unit act" where
  "os_Remove p = syscall
     (\<lambda>fs. if map_of fs p = None then Inl not_exist else Inr (AList.delete p fs)) (\<lambda>_ fs. fs)"

definition os_SyncDir :: "string \<Rightarrow> unit act" where
  "os_SyncDir d = syscall (\<lambda>fs. Inr fs) (\<lambda>_ fs. fs)"

text \<open>\<open>persist.AtomicReplace\<close> in the tree: the fault of the call as the error of one of its steps.\<close>

definition fault_os :: "fault \<Rightarrow> os_calls" where
  "fault_os f = (case f of
     Fine \<Rightarrow> os_ok
   | Fails _ e \<Rightarrow> os_ok(''write'' := Some e)
   | Late e \<Rightarrow> os_ok(''sync-dir'' := Some e))"

definition put_node :: "string \<Rightarrow> node option \<Rightarrow> fs \<Rightarrow> fs" where
  "put_node p n fs = (case n of None \<Rightarrow> AList.delete p fs | Some x \<Rightarrow> AList.update p x fs)"

definition atomic_write :: "string \<Rightarrow> string \<Rightarrow> unit act" where
  "atomic_write p data w =
     (let os = fault_os (w_faults w (w_step w));
          os' = (if map_of (w_fs w) (parent_of p) \<noteq> Some NDir then os(''create'' := Some not_exist)
                 else if map_of (w_fs w) p = Some NDir then os(''rename'' := Some file_exists) else os);
          (r, n) = AtomicReplace os' None (map_of (w_fs w) p) (Some (NFile data))
      in (r, w\<lparr>w_step := Suc (w_step w), w_fs := put_node p n (w_fs w)\<rparr>))"

end
