(* ===== verification/Transaction.thy ===== *)
theory Transaction
  imports FileTree
begin

text \<open>
  The write-ahead transaction of \<open>internal/core/transaction/transaction.go\<close>: planning a request
  into a manifest, staging and committing it, applying a committed manifest, and resolving whatever
  an interrupted run left behind. Paths are relative to the managed directory. The clock is the RFC
  3339 text of the instant in UTC; the zero time has the text \<open>0001-01-01T00:00:00Z\<close>. The
  manifest's optional record is a JSON value.
\<close>

record txn_write =
  wr_Path :: string
  wr_Before :: string
  wr_Bytes :: "string option"

record txn_output =
  ou_Path :: string
  ou_Before :: string
  ou_After :: string

record move =
  mv_From :: string
  mv_To :: string

record manifest =
  mf_SchemaVersion :: int
  mf_ID :: string
  mf_Operation :: string
  mf_Change :: string
  mf_Revision :: u64
  mf_Timestamp :: string
  mf_Outputs :: "txn_output list"
  mf_Moves :: "move list"
  mf_Record :: "json option"

record request =
  rq_Operation :: string
  rq_Change :: string
  rq_Revision :: u64
  rq_Now :: string
  rq_Outputs :: "txn_write list"
  rq_Moves :: "move list"
  rq_Record :: "hist_record option"
  rq_Hook :: hook

record txn_result =
  rs_ID :: string
  rs_Manifest :: manifest
  rs_NoOp :: bool

record pending =
  pd_ID :: string
  pd_Action :: string
  pd_Manifest :: "manifest option"

definition txn_prefix :: string where "txn_prefix = ''.txn-''"
definition manifestSuffix :: string where "manifestSuffix = ''.json''"

definition txn_refuse :: "string \<Rightarrow> string \<Rightarrow> msg \<Rightarrow> string \<Rightarrow> error" where
  "txn_refuse code path reason next' = refuse (''transaction_'' @ code) [] path reason [Str next']"

definition ioRefusal :: "string \<Rightarrow> error \<Rightarrow> error" where
  "ioRefusal path e =
     txn_refuse ''io'' path (error_Error e) ''repair the managed path from version control and retry the operation''"

definition restore :: string where
  "restore = ''restore .specd from version control and retry the operation''"

definition restore_file :: string where
  "restore_file = ''restore the managed file from version control and retry the operation''"

definition rebuild :: string where
  "rebuild = ''rebuild the plan and retry the operation''"

definition interrupted :: "string \<Rightarrow> error \<Rightarrow> error" where
  "interrupted path e = (case as_refusal e of
     Some r \<Rightarrow> Refused r
   | None \<Rightarrow> txn_refuse ''conflict'' path (Str ''transaction interrupted: '' # error_Error e)
               ''retry the operation so the pending transaction is resolved'')"

definition txn_call :: "hook \<Rightarrow> string \<Rightarrow> error + unit" where
  "txn_call h step = (case h of
     None \<Rightarrow> Inr () | Some f \<Rightarrow> (case f step of None \<Rightarrow> Inr () | Some e \<Rightarrow> Inl e))"

definition hash :: "string \<Rightarrow> string" where
  "hash raw = sha256_hex raw"

definition validHash :: "string \<Rightarrow> bool" where
  "validHash v \<longleftrightarrow> length v = 64 \<and> lower_case v = v \<and> hex_decode v \<noteq> None"

subsection \<open>The manifest as JSON, and its identity\<close>

definition output_json :: "txn_output \<Rightarrow> json" where
  "output_json x = JObj ([(''path'', JStr (ou_Path x))] @ omit_empty ''before'' (ou_Before x) @
     [(''after'', JStr (ou_After x))])"

definition move_json :: "move \<Rightarrow> json" where
  "move_json x = JObj [(''from'', JStr (mv_From x)), (''to'', JStr (mv_To x))]"

text \<open>A nil slice of outputs is written \<open>null\<close>; empty moves and an empty record are left out.\<close>

definition manifest_json :: "manifest \<Rightarrow> json" where
  "manifest_json m = JObj (
     [(''schema_version'', json_int (mf_SchemaVersion m)), (''id'', JStr (mf_ID m)),
      (''operation'', JStr (mf_Operation m)), (''change'', JStr (mf_Change m)),
      (''revision'', json_u64 (mf_Revision m)), (''timestamp'', JStr (mf_Timestamp m)),
      (''outputs'', if mf_Outputs m = [] then JNull else JArr (map output_json (mf_Outputs m)))] @
     (if mf_Moves m = [] then [] else [(''moves'', JArr (map move_json (mf_Moves m)))]) @
     (case mf_Record m of None \<Rightarrow> [] | Some v \<Rightarrow> [(''record'', v)]))"

definition output_of_json :: "json \<Rightarrow> txn_output option" where
  "output_of_json v = do {
     m \<leftarrow> decode_object True [''path'', ''before'', ''after''] v;
     p \<leftarrow> field_string m ''path'';
     b \<leftarrow> field_string m ''before'';
     a \<leftarrow> field_string m ''after'';
     Some \<lparr>ou_Path = p, ou_Before = b, ou_After = a\<rparr> }"

definition move_of_json :: "json \<Rightarrow> move option" where
  "move_of_json v = do {
     m \<leftarrow> decode_object True [''from'', ''to''] v;
     f \<leftarrow> field_string m ''from'';
     t \<leftarrow> field_string m ''to'';
     Some \<lparr>mv_From = f, mv_To = t\<rparr> }"

fun all_of_json :: "(json \<Rightarrow> 'a option) \<Rightarrow> json list \<Rightarrow> 'a list option" where
  "all_of_json f [] = Some []"
| "all_of_json f (v # vs) = do { x \<leftarrow> f v; xs \<leftarrow> all_of_json f vs; Some (x # xs) }"

definition field_list :: "(json \<Rightarrow> 'a option) \<Rightarrow> json gomap \<Rightarrow> string \<Rightarrow> 'a list option" where
  "field_list f m k = (case map_of m k of
     None \<Rightarrow> Some [] | Some (JArr vs) \<Rightarrow> all_of_json f vs | Some _ \<Rightarrow> None)"

definition manifest_names :: "string list" where
  "manifest_names = [''schema_version'', ''id'', ''operation'', ''change'', ''revision'', ''timestamp'',
     ''outputs'', ''moves'', ''record'']"

definition manifest_of_json :: "json \<Rightarrow> manifest option" where
  "manifest_of_json v = do {
     m \<leftarrow> decode_object True manifest_names v;
     sv \<leftarrow> field_int m ''schema_version'';
     i \<leftarrow> field_string m ''id'';
     op \<leftarrow> field_string m ''operation'';
     c \<leftarrow> field_string m ''change'';
     r \<leftarrow> field_u64 m ''revision'';
     ts \<leftarrow> field_string m ''timestamp'';
     outs \<leftarrow> field_list output_of_json m ''outputs'';
     mvs \<leftarrow> field_list move_of_json m ''moves'';
     Some \<lparr>mf_SchemaVersion = sv, mf_ID = i, mf_Operation = op, mf_Change = c, mf_Revision = r,
       mf_Timestamp = ts, mf_Outputs = outs, mf_Moves = mvs, mf_Record = map_of m ''record''\<rparr> }"

definition identity :: "manifest \<Rightarrow> string" where
  "identity m = hash (json_bytes (manifest_json (m\<lparr>mf_ID := []\<rparr>)))"

subsection \<open>Planning and validation\<close>

definition validRelative :: "string \<Rightarrow> error + unit" where
  "validRelative v =
     (let next' = ''declare managed outputs as relative paths inside .specd'' in
      if v = [] \<or> v \<noteq> path_Clean v \<or> has_prefix v ''/'' \<or> CHR 0x5C \<in> set v \<or> v = ''..'' \<or> has_prefix v ''../'' then
        Inl (txn_refuse ''invalid'' v [Str ''output path is not a safe managed relative path''] next')
      else if \<exists>s \<in> set (split_on CHR ''/'' v). s = [] \<or> has_prefix s ''.'' then
        Inl (txn_refuse ''invalid'' v [Str ''output path segment is empty or reserved''] next')
      else Inr ())"

fun validate_moves :: "string \<Rightarrow> move list \<Rightarrow> error + unit" where
  "validate_moves prev [] = Inr ()"
| "validate_moves prev (mv # mvs) =
     bindE (validRelative (mv_From mv)) (\<lambda>_. bindE (validRelative (mv_To mv)) (\<lambda>_.
     if mv_From mv \<le> prev \<or> under (mv_To mv) (mv_From mv) \<or> under (mv_From mv) (mv_To mv) then
       Inl (txn_refuse ''invalid'' (mv_From mv) [Str ''transaction moves are not in one deterministic order''] restore)
     else validate_moves (mv_From mv) mvs))"

fun validate_outputs :: "string \<Rightarrow> txn_output list \<Rightarrow> error + unit" where
  "validate_outputs prev [] = Inr ()"
| "validate_outputs prev (x # xs) =
     bindE (validRelative (ou_Path x)) (\<lambda>_.
     if ou_Path x \<le> prev then
       Inl (txn_refuse ''invalid'' (ou_Path x) [Str ''transaction outputs are not in one deterministic order''] restore)
     else if \<not> validHash (ou_After x) \<or> ou_Before x \<noteq> [] \<and> \<not> validHash (ou_Before x) then
       Inl (txn_refuse ''invalid'' (ou_Path x) [Str ''transaction output hash is malformed''] restore)
     else validate_outputs (ou_Path x) xs)"

definition record_bound :: "json option \<Rightarrow> string \<Rightarrow> bool" where
  "record_bound rec change = (case rec of
     None \<Rightarrow> True
   | Some v \<Rightarrow> (case record_decode False v of
       None \<Rightarrow> False
     | Some r \<Rightarrow> record_Validate r = Inr () \<and> rc_Change r = change))"

definition manifest_validate :: "manifest \<Rightarrow> error + unit" where
  "manifest_validate m =
     (if mf_SchemaVersion m \<noteq> 1 then
        Inl (txn_refuse ''invalid'' []
          [Str ''unsupported transaction schema version '', Str (show_int (mf_SchemaVersion m))]
          ''upgrade specd and retry the operation'')
      else if trim_space (mf_Operation m) = [] \<or> trim_space (mf_Change m) = [] \<or> mf_Revision m = 0 \<or>
              trim_space (mf_Timestamp m) = [] \<or> length (mf_Outputs m) + length (mf_Moves m) = 0 then
        Inl (txn_refuse ''invalid'' [] [Str ''transaction manifest is incomplete''] restore)
      else bindE (validate_moves [] (mf_Moves m)) (\<lambda>_.
        if \<not> record_bound (mf_Record m) (mf_Change m) then
          Inl (txn_refuse ''invalid'' [] [Str ''bound history record is invalid''] restore)
        else bindE (validate_outputs [] (mf_Outputs m)) (\<lambda>_.
          if mf_ID m \<noteq> identity m then
            Inl (txn_refuse ''invalid'' [] [Str ''transaction identity does not match its content''] restore)
          else Inr ())))"

fun plan_outputs :: "string list \<Rightarrow> txn_write list \<Rightarrow> error + txn_output list" where
  "plan_outputs seen [] = Inr []"
| "plan_outputs seen (w # ws) =
     bindE (validRelative (wr_Path w)) (\<lambda>_.
     if wr_Path w \<in> set seen then
       Inl (txn_refuse ''invalid'' (wr_Path w) [Str ''output path is declared more than once'']
         ''declare each managed output exactly once'')
     else if wr_Before w \<noteq> [] \<and> \<not> validHash (wr_Before w) then
       Inl (txn_refuse ''invalid'' (wr_Path w) [Str ''declared source hash is not a sha256 digest''] rebuild)
     else (case wr_Bytes w of
         None \<Rightarrow> Inl (txn_refuse ''invalid'' (wr_Path w) [Str ''output bytes are required''] rebuild)
       | Some b \<Rightarrow> bindE (plan_outputs (wr_Path w # seen) ws) (\<lambda>xs.
           Inr (\<lparr>ou_Path = wr_Path w, ou_Before = wr_Before w, ou_After = hash b\<rparr> # xs))))"

fun plan_moves :: "move list \<Rightarrow> error + move list" where
  "plan_moves [] = Inr []"
| "plan_moves (mv # mvs) =
     bindE (validRelative (mv_From mv)) (\<lambda>_. bindE (validRelative (mv_To mv)) (\<lambda>_.
     if mv_From mv = mv_To mv \<or> under (mv_To mv) (mv_From mv) \<or> under (mv_From mv) (mv_To mv) then
       Inl (txn_refuse ''invalid'' (mv_From mv) [Str ''a move source and destination may not overlap'']
         ''declare one move between two distinct managed paths'')
     else bindE (plan_moves mvs) (\<lambda>xs. Inr (mv # xs))))"

definition plan_record :: "hist_record option \<Rightarrow> string \<Rightarrow> error + json option" where
  "plan_record rec change = (case rec of
     None \<Rightarrow> Inr None
   | Some r \<Rightarrow> (case record_Validate r of
       Inl e \<Rightarrow> Inl (txn_refuse ''invalid'' [] (Str ''bound history record is invalid: '' # error_Error e) rebuild)
     | Inr _ \<Rightarrow>
         if rc_Change r \<noteq> change then
           Inl (txn_refuse ''invalid'' [] [Str ''bound history record belongs to another change''] rebuild)
         else Inr (Some (record_json r))))"

definition zero_time :: string where "zero_time = ''0001-01-01T00:00:00Z''"

definition plan :: "request \<Rightarrow> error + manifest" where
  "plan rq =
     (let resolved = ''retry the operation from a resolved change state'' in
      if trim_space (rq_Operation rq) = [] \<or> trim_space (rq_Change rq) = [] \<or> rq_Revision rq = 0 then
        Inl (txn_refuse ''invalid'' []
          [Str ''a transaction declares an operation, a change, and a state revision''] resolved)
      else if rq_Now rq = zero_time then
        Inl (txn_refuse ''invalid'' [] [Str ''a transaction requires an injected clock''] resolved)
      else if rq_Outputs rq = [] \<and> rq_Moves rq = [] then
        Inl (txn_refuse ''invalid'' [] [Str ''a transaction declares at least one output''] resolved)
      else bindE (plan_outputs [] (rq_Outputs rq)) (\<lambda>outs.
        bindE (plan_moves (rq_Moves rq)) (\<lambda>mvs.
        bindE (plan_record (rq_Record rq) (rq_Change rq)) (\<lambda>rec.
        let m = \<lparr>mf_SchemaVersion = 1, mf_ID = [], mf_Operation = rq_Operation rq, mf_Change = rq_Change rq,
                  mf_Revision = rq_Revision rq, mf_Timestamp = rq_Now rq,
                  mf_Outputs = sort_key ou_Path outs, mf_Moves = sort_key mv_From mvs, mf_Record = rec\<rparr>;
            m' = m\<lparr>mf_ID := identity m\<rparr>
        in bindE (manifest_validate m') (\<lambda>_. Inr m')))))"

subsection \<open>Reading the tree\<close>

definition resolve :: "owner \<Rightarrow> fs \<Rightarrow> string \<Rightarrow> error + string" where
  "resolve o' fs rel =
     bindE (validRelative rel) (\<lambda>_. bindE (CheckWriteTarget o' fs rel) (\<lambda>_. Inr rel))"

definition readTarget :: "owner \<Rightarrow> fs \<Rightarrow> string \<Rightarrow> error + string" where
  "readTarget o' fs p = (case lstat fs p of
     Absent \<Rightarrow> Inr []
   | Blocked \<Rightarrow> Inl (ioRefusal (abs_path o' p) not_dir)
   | Found (NFile raw) \<Rightarrow> Inr (hash raw)
   | Found _ \<Rightarrow> Inl (txn_refuse ''invalid'' (abs_path o' p) [Str ''managed output is not a regular file'']
       ''replace it with a regular file under version control and retry the operation''))"

definition readStaged :: "owner \<Rightarrow> fs \<Rightarrow> string \<Rightarrow> error + string" where
  "readStaged o' fs p = (case lstat fs p of
     Absent \<Rightarrow> Inl (txn_refuse ''ambiguous'' (abs_path o' p) [Str ''staged transaction bytes are missing''] restore)
   | Blocked \<Rightarrow> Inl (ioRefusal (abs_path o' p) not_dir)
   | Found (NFile raw) \<Rightarrow> Inr raw
   | Found _ \<Rightarrow> Inl (txn_refuse ''invalid'' (abs_path o' p)
       [Str ''staged transaction path is not a regular file''] restore))"

definition four_digits :: "nat \<Rightarrow> string" where
  "four_digits n = (let s = show_nat n in replicate (4 - length s) CHR ''0'' @ s)"

definition stagedPath :: "string \<Rightarrow> nat \<Rightarrow> string" where
  "stagedPath stage index = path_join stage (four_digits index)"

definition stage_of :: "string \<Rightarrow> string" where "stage_of i = txn_prefix @ i"
definition journal_of :: "string \<Rightarrow> string" where "journal_of i = txn_prefix @ i @ manifestSuffix"

fun locate_moved :: "owner \<Rightarrow> fs \<Rightarrow> move list \<Rightarrow> string \<Rightarrow> string" where
  "locate_moved o' fs [] rel = rel"
| "locate_moved o' fs (mv # mvs) rel =
     (if \<not> under rel (mv_From mv) then locate_moved o' fs mvs rel
      else (case resolve o' fs (mv_To mv @ drop (length (mv_From mv)) rel) of
          Inl _ \<Rightarrow> locate_moved o' fs mvs rel
        | Inr moved \<Rightarrow> (case lstat fs moved of
            Found _ \<Rightarrow> moved
          | _ \<Rightarrow> locate_moved o' fs mvs rel)))"

definition locate :: "owner \<Rightarrow> fs \<Rightarrow> manifest \<Rightarrow> string \<Rightarrow> error + string" where
  "locate o' fs m rel =
     bindE (resolve o' fs rel) (\<lambda>target.
     if lstat fs target \<noteq> Absent then Inr target else Inr (locate_moved o' fs (mf_Moves m) rel))"

subsection \<open>Applying a committed manifest\<close>

definition syncDir :: "owner \<Rightarrow> string \<Rightarrow> unit act" where
  "syncDir o' d = (\<lambda>w. case os_SyncDir d w of
     (Inl e, w') \<Rightarrow> if errors_Is e ErrInvalid then (Inr (), w') else (Inl (ioRefusal (abs_path o' d) e), w')
   | (Inr _, w') \<Rightarrow> (Inr (), w'))"

definition removeDurable :: "owner \<Rightarrow> string \<Rightarrow> unit act" where
  "removeDurable o' p = (\<lambda>w. case os_Remove p w of
     (Inl e, w') \<Rightarrow> if errors_Is e not_exist then syncDir o' (parent_of p) w'
                    else (Inl (ioRefusal (abs_path o' p) e), w')
   | (Inr _, w') \<Rightarrow> syncDir o' (parent_of p) w')"

definition callA :: "hook \<Rightarrow> string \<Rightarrow> string \<Rightarrow> unit act" where
  "callA h step path = wrapA (interrupted path) (liftA (\<lambda>_. txn_call h step))"

text \<open>Replacing one output by its staged bytes, one pass of the loop, and the loop.\<close>

definition replace_output :: "owner \<Rightarrow> manifest \<Rightarrow> hook \<Rightarrow> nat \<Rightarrow> txn_output \<Rightarrow> string \<Rightarrow> string \<Rightarrow> unit act" where
  "replace_output o' m h i x target raw =
     (let source = stagedPath (stage_of (mf_ID m)) i in
      if hash raw \<noteq> ou_After x then
        liftA (\<lambda>_. Inl (txn_refuse ''ambiguous'' (abs_path o' source)
          [Str ''staged bytes do not match the committed output hash''] restore_file))
      else
        bindA (callA h (''before-replace:'' @ ou_Path x) (abs_path o' target)) (\<lambda>_.
        bindA (wrapA (ioRefusal (abs_path o' target)) (make_dirs (parent_dirs target))) (\<lambda>_.
        bindA (wrapA (ioRefusal (abs_path o' target)) (os_Rename source target)) (\<lambda>_.
        bindA (syncDir o' (parent_of target)) (\<lambda>_.
        callA h (''after-replace:'' @ ou_Path x) (abs_path o' target))))))"

definition apply_output :: "owner \<Rightarrow> manifest \<Rightarrow> hook \<Rightarrow> nat \<Rightarrow> txn_output \<Rightarrow> unit act" where
  "apply_output o' m h i x =
     bindA (liftA (\<lambda>w. locate o' (w_fs w) m (ou_Path x))) (\<lambda>target.
     bindA (liftA (\<lambda>w. readTarget o' (w_fs w) target)) (\<lambda>current.
     if current = ou_After x then returnA ()
     else if current \<noteq> ou_Before x then
       liftA (\<lambda>_. Inl (txn_refuse ''ambiguous'' (abs_path o' target)
         [Str ''the output holds neither the recorded old nor the recorded new bytes''] restore_file))
     else
       bindA (liftA (\<lambda>w. readStaged o' (w_fs w) (stagedPath (stage_of (mf_ID m)) i)))
         (replace_output o' m h i x target)))"

fun apply_outputs :: "owner \<Rightarrow> manifest \<Rightarrow> hook \<Rightarrow> nat \<Rightarrow> txn_output list \<Rightarrow> unit act" where
  "apply_outputs o' m h i [] = returnA ()"
| "apply_outputs o' m h i (x # xs) =
     bindA (apply_output o' m h i x) (\<lambda>_. apply_outputs o' m h (Suc i) xs)"

definition applyMove :: "owner \<Rightarrow> move \<Rightarrow> hook \<Rightarrow> unit act" where
  "applyMove o' mv h =
     bindA (liftA (\<lambda>w. resolve o' (w_fs w) (mv_From mv))) (\<lambda>from.
     bindA (liftA (\<lambda>w. resolve o' (w_fs w) (mv_To mv))) (\<lambda>to.
     bindA (liftA (\<lambda>w. Inr (lstat (w_fs w) from, lstat (w_fs w) to))) (\<lambda>(source, dest).
     let found = (case dest of Found _ \<Rightarrow> True | _ \<Rightarrow> False);
         is_dir = (case source of Found NDir \<Rightarrow> True | _ \<Rightarrow> False);
         missing = (case source of Found _ \<Rightarrow> False | _ \<Rightarrow> True)
     in if source = Absent \<and> found then returnA ()
        else if missing then
          liftA (\<lambda>_. Inl (txn_refuse ''ambiguous'' (abs_path o' from)
            [Str ''move source is missing or unreadable''] restore))
        else if found then
          liftA (\<lambda>_. Inl (txn_refuse ''ambiguous'' (abs_path o' to)
            [Str ''move source and destination both exist''] restore))
        else if dest \<noteq> Absent then liftA (\<lambda>_. Inl (ioRefusal (abs_path o' to) not_dir))
        else if \<not> is_dir then
          liftA (\<lambda>_. Inl (txn_refuse ''invalid'' (abs_path o' from)
            [Str ''move source is not a regular directory''] restore))
        else
          bindA (callA h (''before-move:'' @ mv_From mv) (abs_path o' from)) (\<lambda>_.
          bindA (wrapA (ioRefusal (abs_path o' to)) (make_dirs (parent_dirs to))) (\<lambda>_.
          bindA (wrapA (ioRefusal (abs_path o' to)) (os_Rename from to)) (\<lambda>_.
          bindA (syncDir o' (parent_of to)) (\<lambda>_.
          bindA (syncDir o' (parent_of from)) (\<lambda>_.
          liftA (\<lambda>_. txn_call h (''after-move:'' @ mv_From mv))))))))))"

fun apply_moves :: "owner \<Rightarrow> hook \<Rightarrow> move list \<Rightarrow> unit act" where
  "apply_moves o' h [] = returnA ()"
| "apply_moves o' h (mv # mvs) = bindA (applyMove o' mv h) (\<lambda>_. apply_moves o' h mvs)"

text \<open>The append of the bound record in the world: one fault for the write, the next for the truncation
  that follows a failed write.\<close>

definition append_os :: "fault \<Rightarrow> fault \<Rightarrow> os_calls" where
  "append_os f g =
     os_ok(''sync'' := (case f of Late e \<Rightarrow> Some e | _ \<Rightarrow> None),
           ''truncate'' := (case g of Fails _ e \<Rightarrow> Some e | _ \<Rightarrow> None))"

definition history_parent :: "fs \<Rightarrow> error + bool" where
  "history_parent fs = (case lstat fs [] of Found n \<Rightarrow> Inr (n = NDir) | _ \<Rightarrow> Inl not_exist)"

definition append_history :: "owner \<Rightarrow> hist_record \<Rightarrow> unit act" where
  "append_history o' r = (\<lambda>w.
     let f = w_faults w (w_step w);
         outcome = (case f of Fails n e \<Rightarrow> PartWritten n e | _ \<Rightarrow> Written);
         (res, h) = AppendUnderLock (append_os f (w_faults w (Suc (w_step w)))) outcome
           (history_parent (w_fs w)) (History o') FamilyHistory (w_history w) r
     in (res, w\<lparr>w_history := h, w_step := w_step w + 2\<rparr>))"

definition appendBoundRecord :: "owner \<Rightarrow> manifest \<Rightarrow> unit act" where
  "appendBoundRecord o' m = (case mf_Record m of
     None \<Rightarrow> returnA ()
   | Some v \<Rightarrow> (case record_decode False v of
       None \<Rightarrow> liftA (\<lambda>_. Inl (txn_refuse ''invalid'' (History o')
         [Str ''bound history record is malformed''] restore))
     | Some r \<Rightarrow> (\<lambda>w. case append_history o' r w of
         (Inl e, w') \<Rightarrow> if IsCode e ''record-duplicate'' then (Inr (), w') else (Inl e, w')
       | (Inr _, w') \<Rightarrow> (Inr (), w'))))"

definition apply_manifest :: "owner \<Rightarrow> manifest \<Rightarrow> hook \<Rightarrow> unit act" where
  "apply_manifest o' m h =
     (let stage = stage_of (mf_ID m); journal = journal_of (mf_ID m) in
      bindA (apply_outputs o' m h 0 (mf_Outputs m)) (\<lambda>_.
      bindA (apply_moves o' h (mf_Moves m)) (\<lambda>_.
      bindA (appendBoundRecord o' m) (\<lambda>_.
      bindA (callA h ''before-cleanup'' (abs_path o' journal)) (\<lambda>_.
      bindA (removeDurable o' journal) (\<lambda>_.
      bindA (wrapA (ioRefusal (abs_path o' stage)) (os_RemoveAll stage)) (\<lambda>_.
      syncDir o' [])))))))"

subsection \<open>Committing\<close>

fun check_outputs :: "owner \<Rightarrow> fs \<Rightarrow> bool \<Rightarrow> txn_output list \<Rightarrow> error + bool" where
  "check_outputs o' fs noop [] = Inr noop"
| "check_outputs o' fs noop (x # xs) =
     bindE (resolve o' fs (ou_Path x)) (\<lambda>target.
     bindE (readTarget o' fs target) (\<lambda>current.
     if current = ou_After x then check_outputs o' fs noop xs
     else if current = ou_Before x then check_outputs o' fs False xs
     else Inl (txn_refuse ''drift'' (abs_path o' target)
       [Str ''the source bytes changed after the plan was built'']
       ''rebuild the plan, review it again, and retry the operation'')))"

definition staged_bytes :: "txn_write list \<Rightarrow> string \<Rightarrow> string" where
  "staged_bytes ws p = (case map_of (rev (map (\<lambda>w. (wr_Path w, wr_Bytes w)) ws)) p of
     Some (Some b) \<Rightarrow> b | _ \<Rightarrow> [])"

fun stage_outputs :: "owner \<Rightarrow> txn_write list \<Rightarrow> string \<Rightarrow> nat \<Rightarrow> txn_output list \<Rightarrow> unit act" where
  "stage_outputs o' ws stage i [] = returnA ()"
| "stage_outputs o' ws stage i (x # xs) =
     (let p = stagedPath stage i in
      bindA (wrapA (ioRefusal (abs_path o' p)) (os_WriteNew p (staged_bytes ws (ou_Path x)))) (\<lambda>_.
      stage_outputs o' ws stage (Suc i) xs))"

definition journal_bytes :: "manifest \<Rightarrow> string" where
  "journal_bytes m = json_bytes (manifest_json m) @ [newline]"

text \<open>The commit point: when writing the manifest fails, the stage is removed.\<close>

definition write_journal :: "owner \<Rightarrow> manifest \<Rightarrow> unit act" where
  "write_journal o' m =
     wrapA (ioRefusal (abs_path o' (journal_of (mf_ID m))))
       (on_errorA (os_RemoveAll (stage_of (mf_ID m))) (atomic_write (journal_of (mf_ID m)) (journal_bytes m)))"

text \<open>Staging, committing and applying, when there is something to write.\<close>

definition commit_writes :: "owner \<Rightarrow> request \<Rightarrow> manifest \<Rightarrow> txn_result act" where
  "commit_writes o' rq m =
     (let stage = stage_of (mf_ID m); journal = journal_of (mf_ID m) in
      bindA (wrapA (ioRefusal (abs_path o' stage)) (os_RemoveAll stage)) (\<lambda>_.
      bindA (wrapA (ioRefusal (abs_path o' stage)) (os_MkdirAll stage)) (\<lambda>_.
      bindA (stage_outputs o' (rq_Outputs rq) stage 0 (mf_Outputs m)) (\<lambda>_.
      bindA (syncDir o' stage) (\<lambda>_.
      bindA (callA (rq_Hook rq) ''after-stage'' (abs_path o' stage)) (\<lambda>_.
      bindA (write_journal o' m) (\<lambda>_.
      bindA (callA (rq_Hook rq) ''after-manifest'' (abs_path o' journal)) (\<lambda>_.
      bindA (apply_manifest o' m (rq_Hook rq)) (\<lambda>_.
      returnA \<lparr>rs_ID = mf_ID m, rs_Manifest = m, rs_NoOp = False\<rparr>)))))))))"

definition commitLocked :: "owner \<Rightarrow> request \<Rightarrow> manifest \<Rightarrow> txn_result act" where
  "commitLocked o' rq m =
     bindA (liftA (\<lambda>w. CheckWriteTarget o' (w_fs w) [])) (\<lambda>_.
     bindA (liftA (\<lambda>w. check_outputs o' (w_fs w) True (mf_Outputs m))) (\<lambda>noop.
     if noop \<and> mf_Moves m = [] \<and> mf_Record m = None then
       returnA \<lparr>rs_ID = mf_ID m, rs_Manifest = m, rs_NoOp = True\<rparr>
     else commit_writes o' rq m))"

subsection \<open>Recovery\<close>

definition instant :: "string \<Rightarrow> int" where
  "instant now = (case time_Parse now of Some (_, t) \<Rightarrow> t | None \<Rightarrow> 0)"

definition readManifest :: "owner \<Rightarrow> fs \<Rightarrow> string \<Rightarrow> string \<Rightarrow> error + manifest" where
  "readManifest o' fs p now =
     bindE (readStaged o' fs p) (\<lambda>raw.
     let bad = (\<lambda>reason. Inl (txn_refuse ''invalid'' (abs_path o' p) [Str reason] restore)) in
     case read_text raw of
       ([], _) \<Rightarrow> bad ''transaction manifest is malformed: encoding/json''
     | (v # rest, ok) \<Rightarrow> (case manifest_of_json v of
         None \<Rightarrow> bad ''transaction manifest is malformed: encoding/json''
       | Some m \<Rightarrow>
           if rest \<noteq> [] \<or> \<not> ok then bad ''transaction manifest has trailing data''
           else (case manifest_validate m of
             Inl e \<Rightarrow> (case as_refusal e of
               Some r \<Rightarrow> Inl (refuse (rf_code r) [] (abs_path o' p) (rf_reason r) (rf_next r))
             | None \<Rightarrow> Inl e)
           | Inr _ \<Rightarrow> (case time_Parse (mf_Timestamp m) of
               None \<Rightarrow> bad ''transaction timestamp is malformed''
             | Some (_, stamp) \<Rightarrow>
                 if stamp > instant now then
                   Inl (txn_refuse ''invalid'' (abs_path o' p) [Str ''transaction timestamp is in the future'']
                     ''correct the system clock and retry the operation'')
                 else Inr m))))"

fun inspect_entries :: "owner \<Rightarrow> fs \<Rightarrow> string \<Rightarrow> manifest gomap \<Rightarrow> string list \<Rightarrow> string list
    \<Rightarrow> error + (manifest gomap \<times> string list)" where
  "inspect_entries o' fs now journals dirs [] = Inr (journals, dirs)"
| "inspect_entries o' fs now journals dirs (name # names) =
     (if \<not> has_prefix name txn_prefix then inspect_entries o' fs now journals dirs names
      else if \<not> has_suffix name manifestSuffix then
        inspect_entries o' fs now journals
          (if map_of fs name = Some NDir then dirs @ [drop (length txn_prefix) name] else dirs) names
      else if \<not> (case map_of fs name of Some (NFile _) \<Rightarrow> True | _ \<Rightarrow> False) then
        Inl (txn_refuse ''invalid'' (abs_path o' name) [Str ''transaction manifest is not a regular file'']
          ''remove the unsafe path from version control and retry the operation'')
      else bindE (readManifest o' fs name now) (\<lambda>m.
        if name \<noteq> journal_of (mf_ID m) then
          Inl (txn_refuse ''invalid'' (abs_path o' name)
            [Str ''transaction manifest name does not match its identity''] restore)
        else inspect_entries o' fs now (AList.update (mf_ID m) m journals) dirs names))"

definition inspectLocked :: "owner \<Rightarrow> fs \<Rightarrow> string \<Rightarrow> error + pending list" where
  "inspectLocked o' fs now = (case lstat fs [] of
     Absent \<Rightarrow> Inr []
   | Blocked \<Rightarrow> Inl (ioRefusal (own_managed o') not_dir)
   | Found NDir \<Rightarrow>
       bindE (inspect_entries o' fs now [] [] (dir_names fs [])) (\<lambda>(journals, dirs).
       let forward = map (\<lambda>(i, m). \<lparr>pd_ID = i, pd_Action = ''roll_forward'', pd_Manifest = Some m\<rparr>) journals;
           back = map (\<lambda>i. \<lparr>pd_ID = i, pd_Action = ''rollback'', pd_Manifest = None\<rparr>)
             (filter (\<lambda>i. map_of journals i = None) (remdups dirs))
       in Inr (sort_key pd_ID (forward @ back)))
   | Found _ \<Rightarrow> Inl (ioRefusal (own_managed o') not_dir))"

fun recover_items :: "owner \<Rightarrow> pending list \<Rightarrow> unit act" where
  "recover_items o' [] = returnA ()"
| "recover_items o' (p # ps) =
     bindA (if pd_Action p = ''rollback'' then
              bindA (wrapA (ioRefusal (abs_path o' (stage_of (pd_ID p)))) (os_RemoveAll (stage_of (pd_ID p))))
                (\<lambda>_. syncDir o' [])
            else (case pd_Manifest p of
                None \<Rightarrow> liftA (\<lambda>_. Inl (Panicked [Str ''nil pointer dereference'']))
              | Some m \<Rightarrow> apply_manifest o' m None))
       (\<lambda>_. recover_items o' ps)"

definition recoverLocked :: "owner \<Rightarrow> string \<Rightarrow> pending list act" where
  "recoverLocked o' now =
     bindA (liftA (\<lambda>w. inspectLocked o' (w_fs w) now)) (\<lambda>ps.
     bindA (recover_items o' ps) (\<lambda>_. returnA ps))"

definition CommitUnderRootLock :: "owner \<Rightarrow> request \<Rightarrow> txn_result act" where
  "CommitUnderRootLock o' rq =
     bindA (liftA (\<lambda>_. plan rq)) (\<lambda>m.
     bindA (recoverLocked o' (rq_Now rq)) (\<lambda>_.
     commitLocked o' rq m))"

end
