(* ===== verification/TreeFacts.thy ===== *)
theory TreeFacts
  imports Transaction
begin

text \<open>
  Facts about the tree of \<open>FileTree\<close> seen through \<open>map_of\<close>: what each operation does to a path, the
  ancestors of a path, and when the checks of the path owner pass. The last part is the calculus for
  actions: \<open>run ok h A m Q E\<close> says that, from a tree that satisfies \<open>A\<close> and with faults of the kind
  \<open>ok\<close>, the action ends in \<open>Q\<close> or fails in \<open>E\<close>, and leaves the history alone.
\<close>

subsection \<open>Operations on paths\<close>

lemma map_of_filter_key: "map_of (filter (\<lambda>(p, _). P p) fs) p = (if P p then map_of fs p else None)"
  by (induction fs) auto

lemma map_of_remove_tree [simp]:
  "map_of (remove_tree d fs) p = (if under p d then None else map_of fs p)"
  by (simp add: remove_tree_def map_of_filter_key)

lemma remove_some_cases:
  obtains gone where "\<forall>q \<in> gone. has_prefix q (d @ ''/'')"
    and "\<And>q. map_of (remove_some d n fs) q = (if q \<in> gone then None else map_of fs q)"
proof -
  let ?gone = "set (take n (filter (\<lambda>p. has_prefix p (d @ ''/'')) (map fst fs)))"
  have "\<forall>q \<in> ?gone. has_prefix q (d @ ''/'')" by (auto dest: in_set_takeD)
  moreover have "map_of (remove_some d n fs) q = (if q \<in> ?gone then None else map_of fs q)" for q
    by (simp add: remove_some_def Let_def map_of_filter_key)
  ultimately show thesis by (rule that)
qed

lemma map_of_mkdirs [simp]:
  "map_of (mkdirs ds fs) p = (if map_of fs p = None \<and> p \<in> set ds then Some NDir else map_of fs p)"
proof (induction ds arbitrary: fs)
  case (Cons d ds)
  have step: "mkdirs (d # ds) fs = mkdirs ds (if map_of fs d = None then AList.update d NDir fs else fs)"
    by (simp add: mkdirs_def)
  show ?case unfolding step Cons.IH by auto
qed (simp add: mkdirs_def)

lemma set_dir_names_root: "set (dir_names fs []) = {p. p \<noteq> [] \<and> CHR ''/'' \<notin> set p \<and> map_of fs p \<noteq> None}"
  by (auto simp: dir_names_def map_of_eq_None_iff)

lemma distinct_dir_names: "distinct (dir_names fs d)"
  by (simp add: dir_names_def Let_def)

lemma under_trans_prefix: "under p d \<longleftrightarrow> p = d \<or> (\<exists>r. p = d @ CHR ''/'' # r)"
  by (auto simp: under_def has_prefix_iff)

subsection \<open>Ancestors\<close>

lemma split_on_no_sep: "w \<in> set (split_on c s) \<Longrightarrow> c \<notin> set w"
proof (induction s arbitrary: w)
  case (Cons x s)
  then show ?case by (cases "split_on c s") (auto split: if_splits)
qed simp

lemma length_path_prefixes [simp]: "length (path_prefixes p) = length (split_on CHR ''/'' p)"
  by (simp add: path_prefixes_def Let_def del: upt_Suc)

lemma path_prefixes_nth:
  "k < length (split_on CHR ''/'' p) \<Longrightarrow>
     path_prefixes p ! k = join_with CHR ''/'' (take (Suc k) (split_on CHR ''/'' p))"
  by (simp add: path_prefixes_def Let_def del: upt_Suc)

lemma path_prefixes_ne [simp]: "path_prefixes p \<noteq> []"
  by (metis length_path_prefixes length_0_conv split_on_ne)

lemma last_path_prefixes [simp]: "last (path_prefixes p) = p"
proof -
  let ?n = "length (split_on CHR ''/'' p)"
  have "0 < ?n" by simp
  then have "path_prefixes p ! (?n - 1) = p" by (simp add: path_prefixes_nth)
  then show ?thesis by (simp add: last_conv_nth)
qed

lemma path_prefixes_split: "path_prefixes p = butlast (path_prefixes p) @ [p]"
  by (metis append_butlast_last_id last_path_prefixes path_prefixes_ne)

lemma split_take_join:
  assumes "0 < k"
  shows "split_on CHR ''/'' (join_with CHR ''/'' (take k (split_on CHR ''/'' p))) = take k (split_on CHR ''/'' p)"
proof (rule split_join)
  show "take k (split_on CHR ''/'' p) \<noteq> []" using assms by simp
  show "\<forall>w \<in> set (take k (split_on CHR ''/'' p)). CHR ''/'' \<notin> set w"
    by (auto dest!: in_set_takeD split_on_no_sep)
qed

lemma path_prefixes_prefix:
  assumes "k < length (path_prefixes p)"
  shows "path_prefixes (path_prefixes p ! k) = take (Suc k) (path_prefixes p)"
proof (rule nth_equalityI)
  have k: "k < length (split_on CHR ''/'' p)" using assms by simp
  then show "length (path_prefixes (path_prefixes p ! k)) = length (take (Suc k) (path_prefixes p))"
    by (simp add: path_prefixes_nth split_take_join)
  fix i assume "i < length (path_prefixes (path_prefixes p ! k))"
  then have "i < Suc k" using k by (simp add: path_prefixes_nth split_take_join)
  then show "path_prefixes (path_prefixes p ! k) ! i = take (Suc k) (path_prefixes p) ! i"
    using k by (simp add: path_prefixes_nth split_take_join min_absorb1)
qed

text \<open>The ancestors of a prefix are ancestors of the path.\<close>

lemma parent_dirs_prefix:
  assumes "d \<in> set (path_prefixes p)"
  shows "set (parent_dirs d) \<subseteq> set (parent_dirs p)"
proof -
  obtain k where k: "k < length (path_prefixes p)" "d = path_prefixes p ! k"
    using assms by (auto simp: in_set_conv_nth)
  then have "butlast (path_prefixes d) = take k (path_prefixes p)"
    by (simp add: path_prefixes_prefix butlast_take)
  moreover have "set (take k (path_prefixes p)) \<subseteq> set (butlast (path_prefixes p))"
  proof -
    have "take k (path_prefixes p) = take k (butlast (path_prefixes p))"
      using k(1) by (simp add: take_butlast)
    then show ?thesis using set_take_subset by metis
  qed
  ultimately show ?thesis by (auto simp: parent_dirs_def)
qed

lemma parent_of_in: "parent_of p \<in> set (parent_dirs p)"
  by (simp add: parent_of_def parent_dirs_def)

lemma parent_dirs_under:
  assumes "d \<in> set (parent_dirs p)" and "d \<noteq> []"
  shows "under p d" and "p \<noteq> d"
proof -
  let ?ss = "split_on CHR ''/'' p"
  have "d \<in> set (butlast (path_prefixes p))" using assms by (auto simp: parent_dirs_def)
  then obtain k where "k < length (path_prefixes p) - 1" "d = butlast (path_prefixes p) ! k"
    by (auto simp: in_set_conv_nth)
  then have k: "Suc k < length ?ss" "d = join_with CHR ''/'' (take (Suc k) ?ss)"
    by (simp_all add: nth_butlast path_prefixes_nth)
  have join: "us \<noteq> [] \<Longrightarrow> vs \<noteq> [] \<Longrightarrow> join_with c (us @ vs) = join_with c us @ c # join_with c vs" for c us vs
    by (induction us rule: join_with.induct) (auto simp: neq_Nil_conv)
  have "p = join_with CHR ''/'' (take (Suc k) ?ss @ drop (Suc k) ?ss)" by simp
  also have "\<dots> = d @ CHR ''/'' # join_with CHR ''/'' (drop (Suc k) ?ss)"
    unfolding k(2) by (rule join) (use k(1) in auto)
  finally show "under p d" "p \<noteq> d" unfolding under_trans_prefix by auto
qed

lemma join_snoc:
  "us \<noteq> [] \<Longrightarrow> join_with c (us @ [v]) = join_with c us @ c # v"
  by (induction c us rule: join_with.induct) auto

lemma check_points_prefixes:
  assumes "\<forall>s \<in> set (us @ ps). s \<noteq> [] \<and> s \<noteq> ''.specd''"
  shows "check_points (join_with CHR ''/'' us) ps = map (\<lambda>k. join_with CHR ''/'' (us @ take k ps)) [1..<Suc (length ps)]"
  using assms
proof (induction ps arbitrary: us)
  case (Cons p ps)
  have join: "(if join_with CHR ''/'' us = [] then p else path_join (join_with CHR ''/'' us) p) = join_with CHR ''/'' (us @ [p])"
  proof (cases us)
    case (Cons u vs)
    then have "join_with CHR ''/'' us \<noteq> []" using Cons.prems by (cases vs) auto
    then show ?thesis using Cons join_snoc [of us "CHR ''/''" p] by (simp add: path_join_def)
  qed simp
  have upt: "[1..<Suc (length (p # ps))] = 1 # map Suc [1..<Suc (length ps)]"
    by (simp add: upt_conv_Cons map_Suc_upt del: upt_Suc)
  show ?case
    using Cons.prems Cons.IH [of "us @ [p]"] unfolding upt by (simp add: join comp_def del: upt_Suc)
qed simp

subsection \<open>When the checks pass\<close>

lemma check_points_plain:
  assumes "\<forall>s \<in> set (split_on CHR ''/'' p). s \<noteq> [] \<and> s \<noteq> ''.specd''"
  shows "check_points [] (''.specd'' # split_on CHR ''/'' p) = [] # path_prefixes p"
  using check_points_prefixes [of "[]" "split_on CHR ''/'' p"] assms by (simp add: path_prefixes_def Let_def del: upt_Suc)

definition dir_or_free :: "fs \<Rightarrow> string \<Rightarrow> bool" where
  "dir_or_free fs d \<longleftrightarrow> map_of fs d = None \<or> map_of fs d = Some NDir"

text \<open>The ancestors of a target are directories or free, and it is a file or free itself.\<close>

definition clear :: "fs \<Rightarrow> string \<Rightarrow> bool" where
  "clear fs p \<longleftrightarrow> (\<forall>d \<in> set (parent_dirs p). dir_or_free fs d) \<and>
     (map_of fs p = None \<or> (\<exists>b. map_of fs p = Some (NFile b)))"

lemma lstat_clear:
  assumes "\<forall>d \<in> set (parent_dirs p). dir_or_free fs d"
  shows "lstat fs p = (case map_of fs p of None \<Rightarrow> Absent | Some n \<Rightarrow> Found n)"
  using assms by (auto simp: lstat_def dir_or_free_def split: option.splits node.splits)

lemma check_prefixes_free:
  assumes "\<forall>d \<in> set ds. lstat fs d = Absent \<or> (\<exists>n. lstat fs d = Found n \<and> n \<noteq> NLink)"
  shows "check_prefixes o' fs ds = Inr ()"
  using assms
proof (induction ds)
  case (Cons d ds)
  then consider "lstat fs d = Absent" | n where "lstat fs d = Found n" "n \<noteq> NLink" by auto
  then show ?case using Cons by cases (auto split: node.splits)
qed simp

lemma clear_checks:
  assumes "clear fs p"
  shows "check_prefixes o' fs ([] # path_prefixes p) = Inr ()"
proof (rule check_prefixes_free, rule ballI)
  fix d assume d: "d \<in> set ([] # path_prefixes p)"
  have anc: "set (parent_dirs d) \<subseteq> set (parent_dirs p)"
    using d parent_dirs_prefix [of d p] by (auto simp: parent_dirs_def path_prefixes_def)
  have stat: "lstat fs d = (case map_of fs d of None \<Rightarrow> Absent | Some n \<Rightarrow> Found n)"
    by (rule lstat_clear) (use assms anc in \<open>auto simp: clear_def\<close>)
  have "d \<in> set (parent_dirs p) \<or> d = p"
    using d by (subst (asm) path_prefixes_split) (auto simp: parent_dirs_def)
  then show "lstat fs d = Absent \<or> (\<exists>n. lstat fs d = Found n \<and> n \<noteq> NLink)"
    using assms stat by (auto simp: clear_def dir_or_free_def split: option.splits)
qed

text \<open>A file tree: below nothing but directories.\<close>

definition tree_ok :: "fs \<Rightarrow> bool" where
  "tree_ok fs \<longleftrightarrow> (\<forall>p \<in> dom (map_of fs). p \<noteq> [] \<longrightarrow> (\<forall>d \<in> set (parent_dirs p). map_of fs d = Some NDir))"

lemma check_prefixes_link:
  assumes "check_prefixes o' fs (ds @ d # es) = Inr ()" and "\<forall>e \<in> set ds. lstat fs e = Found NDir"
  shows "lstat fs d = Absent \<or> (\<exists>n. lstat fs d = Found n \<and> n \<noteq> NLink)"
  using assms
proof (induction ds)
  case Nil
  then show ?case by (auto split: stat.splits node.splits)
qed simp

lemma checks_clear:
  assumes "tree_ok fs" and "map_of fs [] = Some NDir"
    and "check_prefixes o' fs ([] # path_prefixes p) = Inr ()" and "readTarget o' fs p = Inr h" and "p \<noteq> []"
  shows "clear fs p"
proof -
  have last: "map_of fs p = None \<or> (\<exists>b. map_of fs p = Some (NFile b))"
    using assms(4) by (auto simp: readTarget_def lstat_def split: stat.splits node.splits option.splits if_splits)
  have "dir_or_free fs d" if d: "d \<in> set (parent_dirs p)" for d
  proof (rule ccontr)
    assume bad: "\<not> dir_or_free fs d"
    then have "d \<noteq> []" using assms(2) by (auto simp: dir_or_free_def)
    then have "d \<in> set (butlast (path_prefixes p))" using d by (simp add: parent_dirs_def)
    then obtain k where "k < length (path_prefixes p) - 1" "d = butlast (path_prefixes p) ! k"
      by (auto simp: in_set_conv_nth)
    then have k: "k < length (path_prefixes p)" "d = path_prefixes p ! k" by (simp_all add: nth_butlast)
    obtain n where n: "map_of fs d = Some n" "n \<noteq> NDir" using bad by (auto simp: dir_or_free_def)
    have dirs: "\<forall>e \<in> set (parent_dirs d). map_of fs e = Some NDir"
      using assms(1) n(1) \<open>d \<noteq> []\<close> unfolding tree_ok_def by blast
    have parents: "parent_dirs d = [] # take k (path_prefixes p)"
      using k by (simp add: parent_dirs_def path_prefixes_prefix butlast_take)
    have "[] # path_prefixes p = parent_dirs d @ d # drop (Suc k) (path_prefixes p)"
      using id_take_nth_drop [OF k(1)] unfolding parents k(2) [symmetric] by simp
    then have "lstat fs d = Absent \<or> (\<exists>n. lstat fs d = Found n \<and> n \<noteq> NLink)"
      using assms(3) dirs by (intro check_prefixes_link [of o' fs "parent_dirs d" d]) (auto simp: lstat_def)
    then have "n \<noteq> NLink" using n by (auto simp: lstat_def)
    then obtain b where b: "map_of fs d = Some (NFile b)" using n by (cases n) auto
    have "lstat fs p = Blocked \<or> map_of fs p \<noteq> None"
      using d b by (auto simp: lstat_def split: option.splits)
    then have "map_of fs p \<noteq> None" using assms(4) by (auto simp: readTarget_def)
    then have "map_of fs d = Some NDir" using assms(1,5) d by (auto simp: tree_ok_def)
    with b show False by simp
  qed
  with last show ?thesis by (simp add: clear_def)
qed

subsection \<open>A calculus for actions\<close>

definition during :: "(fault \<Rightarrow> bool) \<Rightarrow> ledger_file \<Rightarrow> (fs \<Rightarrow> bool) \<Rightarrow> world \<Rightarrow> bool" where
  "during ok h A w \<longleftrightarrow> (\<forall>n. ok (w_faults w n)) \<and> w_history w = h \<and> A (w_fs w)"

definition run :: "(fault \<Rightarrow> bool) \<Rightarrow> ledger_file \<Rightarrow> (fs \<Rightarrow> bool) \<Rightarrow> 'a act \<Rightarrow> ('a \<Rightarrow> fs \<Rightarrow> bool) \<Rightarrow> (fs \<Rightarrow> bool) \<Rightarrow> bool" where
  "run ok h A m Q E \<longleftrightarrow> (\<forall>w. during ok h A w \<longrightarrow>
     (case m w of (Inr x, w') \<Rightarrow> during ok h (Q x) w' | (Inl _, w') \<Rightarrow> during ok h E w'))"

text \<open>The kinds of faults: none, and calls that fail after part of their effect.\<close>

definition no_fault :: "fault \<Rightarrow> bool" where "no_fault f \<longleftrightarrow> f = Fine"

definition clean_fail :: "fault \<Rightarrow> bool" where "clean_fail f \<longleftrightarrow> (\<forall>e. f \<noteq> Late e)"

definition may_fail :: "(fault \<Rightarrow> bool) \<Rightarrow> bool" where
  "may_fail ok \<longleftrightarrow> (\<exists>n e. ok (Fails n e))"

definition sound_faults :: "(fault \<Rightarrow> bool) \<Rightarrow> bool" where
  "sound_faults ok \<longleftrightarrow> (\<forall>e. \<not> ok (Late e))"

lemma fault_kinds [simp]:
  "sound_faults no_fault" "sound_faults clean_fail" "\<not> may_fail no_fault"
  by (auto simp: sound_faults_def no_fault_def clean_fail_def may_fail_def)

lemma runI:
  assumes "\<And>w x w'. during ok h A w \<Longrightarrow> m w = (Inr x, w') \<Longrightarrow> during ok h (Q x) w'"
    and "\<And>w e w'. during ok h A w \<Longrightarrow> m w = (Inl e, w') \<Longrightarrow> during ok h E w'"
  shows "run ok h A m Q E"
  using assms by (simp add: run_def split: prod.splits sum.splits)

lemma runD: "run ok h A m Q E \<Longrightarrow> during ok h A w \<Longrightarrow> m w = (Inr x, w') \<Longrightarrow> during ok h (Q x) w'"
  by (simp add: run_def) (drule spec [of _ w], simp)

lemma runE: "run ok h A m Q E \<Longrightarrow> during ok h A w \<Longrightarrow> m w = (Inl e, w') \<Longrightarrow> during ok h E w'"
  by (simp add: run_def) (drule spec [of _ w], simp)

lemma during_mono: "during ok h A w \<Longrightarrow> (\<And>fs. A fs \<Longrightarrow> B fs) \<Longrightarrow> during ok h B w"
  by (simp add: during_def)

lemma run_conseq:
  assumes "run ok h A' m Q' E'" and "\<And>fs. A fs \<Longrightarrow> A' fs" and "\<And>x fs. Q' x fs \<Longrightarrow> Q x fs" and "\<And>fs. E' fs \<Longrightarrow> E fs"
  shows "run ok h A m Q E"
proof (rule runI)
  fix w x w' assume w: "during ok h A w" "m w = (Inr x, w')"
  show "during ok h (Q x) w'"
    by (rule during_mono [OF runD [OF assms(1) during_mono [OF w(1) assms(2)] w(2)] assms(3)])
next
  fix w e w' assume w: "during ok h A w" "m w = (Inl e, w')"
  show "during ok h E w'"
    by (rule during_mono [OF runE [OF assms(1) during_mono [OF w(1) assms(2)] w(2)] assms(4)])
qed

lemma run_return [intro]: "(\<And>fs. A fs \<Longrightarrow> Q x fs) \<Longrightarrow> run ok h A (returnA x) Q E"
  by (simp add: run_def returnA_def during_def)

lemma run_bind:
  assumes "run ok h A m R E" and "\<And>x. run ok h (R x) (f x) Q E"
  shows "run ok h A (bindA m f) Q E"
proof (rule runI)
  fix w y w' assume w: "during ok h A w" "bindA m f w = (Inr y, w')"
  then obtain x v where "m w = (Inr x, v)" "f x v = (Inr y, w')"
    by (auto simp: bindA_def split: prod.splits sum.splits)
  then show "during ok h (Q y) w'" using runD [OF assms(1) w(1)] runD [OF assms(2)] by blast
next
  fix w e w' assume w: "during ok h A w" "bindA m f w = (Inl e, w')"
  then consider "m w = (Inl e, w')" | x v where "m w = (Inr x, v)" "f x v = (Inl e, w')"
    by (auto simp: bindA_def split: prod.splits sum.splits)
  then show "during ok h E w'"
    by cases (use runE [OF assms(1) w(1)] runD [OF assms(1) w(1)] runE [OF assms(2)] in blast)+
qed

lemma run_wrap:
  assumes "run ok h A m Q E"
  shows "run ok h A (wrapA g m) Q E"
  by (rule runI)
     (use runD [OF assms] runE [OF assms] in \<open>auto simp: wrapA_def split: prod.splits sum.splits\<close>)

text \<open>An action that only reads: what it gives is known from the tree.\<close>

lemma run_lift:
  assumes "\<And>fs. A fs \<Longrightarrow> (case f fs of Inr x \<Rightarrow> Q x fs | Inl _ \<Rightarrow> E fs)"
  shows "run ok h A (liftA (\<lambda>w. f (w_fs w))) Q E"
  using assms by (fastforce simp: run_def liftA_def during_def split: sum.splits)

lemma run_pure:
  assumes "\<And>x fs. A fs \<Longrightarrow> r = Inr x \<Longrightarrow> Q x fs" and "\<And>e fs. A fs \<Longrightarrow> r = Inl e \<Longrightarrow> E fs"
  shows "run ok h A (liftA (\<lambda>_. r)) Q E"
  using assms by (cases r) (auto simp: run_def liftA_def during_def)

lemma run_syscall:
  assumes "sound_faults ok"
    and "\<And>fs. A fs \<Longrightarrow> (case eff fs of Inr fs' \<Rightarrow> Q () fs' | Inl _ \<Rightarrow> E fs)"
    and "\<And>fs n. A fs \<Longrightarrow> may_fail ok \<Longrightarrow> E (part n fs)"
  shows "run ok h A (syscall eff part) Q E"
  unfolding run_def
proof (intro allI impI)
  fix w assume w: "during ok h A w"
  have f: "ok (w_faults w (w_step w))" using w by (simp add: during_def)
  show "case syscall eff part w of (Inr x, w') \<Rightarrow> during ok h (Q x) w' | (Inl _, w') \<Rightarrow> during ok h E w'"
  proof (cases "w_faults w (w_step w)")
    case Fine
    then show ?thesis using w assms(2) [of "w_fs w"]
      by (auto simp: syscall_def during_def Let_def split: sum.splits)
  next
    case (Fails n e)
    then have "may_fail ok" using f by (auto simp: may_fail_def)
    then show ?thesis using w assms(3) [of "w_fs w"] Fails
      by (auto simp: syscall_def during_def Let_def)
  next
    case (Late e)
    then show ?thesis using f assms(1) by (simp add: sound_faults_def)
  qed
qed

lemma run_sync:
  assumes "sound_faults ok" and "\<And>fs. A fs \<Longrightarrow> Q () fs" and "\<And>fs. A fs \<Longrightarrow> may_fail ok \<Longrightarrow> E fs"
  shows "run ok h A (syncDir o' d) Q E"
proof -
  have "run ok h A (os_SyncDir d) (\<lambda>_. A) (\<lambda>fs. A fs \<and> may_fail ok)"
    unfolding os_SyncDir_def by (rule run_syscall) (simp_all add: assms(1))
  note r = this
  show ?thesis
  proof (rule runI)
    fix w x w' assume w: "during ok h A w" "syncDir o' d w = (Inr x, w')"
    then obtain y where y: "os_SyncDir d w = (y, w')"
      by (auto simp: syncDir_def split: prod.splits sum.splits if_splits)
    then have "during ok h A w'"
      using runD [OF r w(1)] runE [OF r w(1)] by (cases y) (auto simp: during_def)
    then show "during ok h (Q x) w'" by (rule during_mono) (simp add: assms(2))
  next
    fix w e w' assume w: "during ok h A w" "syncDir o' d w = (Inl e, w')"
    then obtain e' where "os_SyncDir d w = (Inl e', w')"
      by (auto simp: syncDir_def split: prod.splits sum.splits if_splits)
    from runE [OF r w(1) this] show "during ok h E w'" by (rule during_mono) (simp add: assms(3))
  qed
qed

end
