(* ===== verification/Recovery.thy ===== *)
theory Recovery
  imports TreeFacts
begin

text \<open>
  The phases of a transaction. A tree is, with respect to a base tree and a planned manifest,
  uncommitted (nothing but the stage differs), committed (the journal is there, and every output is
  either done or still old with its staged bytes at hand), or applied (the journal is gone and every
  output is done). The steps of the code on the tree, failing or not, move it between these phases; the
  whole commit and recovery, with the history, are put together in \<open>Commits\<close>.
\<close>

subsection \<open>The manifest and its text\<close>

lemma all_of_json_map:
  "(\<And>x. x \<in> set xs \<Longrightarrow> f (g x) = Some x) \<Longrightarrow> all_of_json f (map g xs) = Some xs"
  by (induction xs) auto

lemma output_round_trip: "output_of_json (output_json x) = Some x"
  unfolding output_of_json_def output_json_def
  by (cases "ou_Before x = []"; subst decode_object_distinct) (simp_all add: field_getters)

lemma move_round_trip: "move_of_json (move_json x) = Some x"
  unfolding move_of_json_def move_json_def
  by (subst decode_object_distinct) (simp_all add: field_getters)

lemma decode_null_skip:
  assumes "find_field names k \<noteq> None"
  shows "decode_fields strict names acc (kvs @ (k, JNull) # kws) = decode_fields strict names acc (kvs @ kws)"
  using assms by (induction kvs arbitrary: acc) (auto split: option.splits)

lemma manifest_round_trip_json:
  assumes "mf_SchemaVersion m = 1" and "mf_Record m \<noteq> Some JNull"
  shows "manifest_of_json (manifest_json m) = Some m"
proof -
  have outs: "all_of_json output_of_json (map output_json (mf_Outputs m)) = Some (mf_Outputs m)"
    "all_of_json move_of_json (map move_json (mf_Moves m)) = Some (mf_Moves m)"
    by (simp_all add: all_of_json_map output_round_trip move_round_trip)
  show ?thesis
  proof (cases "mf_Outputs m = []")
    case False
    then show ?thesis
      using assms outs unfolding manifest_of_json_def manifest_json_def
      by (cases "mf_Moves m = []"; cases "mf_Record m"; subst decode_object_distinct)
         (auto simp: manifest_names_def field_getters field_list_def)
  next
    case True
    let ?front = "[(''schema_version'', json_int (mf_SchemaVersion m)), (''id'', JStr (mf_ID m)),
      (''operation'', JStr (mf_Operation m)), (''change'', JStr (mf_Change m)),
      (''revision'', json_u64 (mf_Revision m)), (''timestamp'', JStr (mf_Timestamp m))]"
    let ?behind = "(if mf_Moves m = [] then [] else [(''moves'', JArr (map move_json (mf_Moves m)))]) @
     (case mf_Record m of None \<Rightarrow> [] | Some v \<Rightarrow> [(''record'', v)])"
    have "manifest_json m = JObj (?front @ (''outputs'', JNull) # ?behind)"
      using True by (simp add: manifest_json_def)
    then have "decode_object True manifest_names (manifest_json m) =
        decode_object True manifest_names (JObj (?front @ ?behind))"
      using decode_null_skip [of manifest_names "''outputs''" True "[]" ?front ?behind]
      by (simp add: decode_object_def manifest_names_def del: append_Cons decode_fields.simps)
    moreover have "decode_object True manifest_names (JObj (?front @ ?behind)) = Some (?front @ ?behind)"
      by (rule decode_object_distinct)
         (use assms in \<open>auto simp: manifest_names_def json_int_def json_u64_def json_nat_def split: option.splits\<close>)
    ultimately show ?thesis
      using assms outs True unfolding manifest_of_json_def
      by (cases "mf_Moves m = []"; cases "mf_Record m") (auto simp: field_getters field_list_def)
  qed
qed

lemma read_journal:
  "json_ok (manifest_json m) \<Longrightarrow> read_text (journal_bytes m) = ([manifest_json m], True)"
  unfolding journal_bytes_def by (rule read_text_bytes) (simp_all add: newline_def skip_ws_def json_ws_def)

subsection \<open>Planned paths\<close>

lemma validRelative_segments:
  "validRelative v = Inr () \<Longrightarrow> v \<noteq> [] \<and> path_Clean v = v \<and> \<not> has_prefix v ''/'' \<and> v \<noteq> ''..'' \<and> \<not> has_prefix v ''../'' \<and>
     (\<forall>s \<in> set (split_on CHR ''/'' v). s \<noteq> [] \<and> \<not> has_prefix s ''.'')"
  by (auto simp: validRelative_def Let_def split: if_splits)

lemma valid_check_points:
  "validRelative v = Inr () \<Longrightarrow> check_points [] (''.specd'' # split_on CHR ''/'' v) = [] # path_prefixes v"
  using validRelative_segments [of v] by (intro check_points_plain) auto

lemma hd_join: "ws \<noteq> [] \<Longrightarrow> hd ws \<noteq> [] \<Longrightarrow> join_with c ws \<noteq> [] \<and> hd (join_with c ws) = hd (hd ws)"
  by (induction c ws rule: join_with.induct) auto

text \<open>Neither an output nor any directory above it begins with a dot.\<close>

lemma valid_no_dot:
  assumes "validRelative p = Inr ()" and "d \<in> set (parent_dirs p) \<or> d = p"
  shows "\<not> has_prefix d ''.''"
proof -
  let ?ss = "split_on CHR ''/'' p"
  have segs: "\<forall>s \<in> set ?ss. s \<noteq> [] \<and> \<not> has_prefix s ''.''" using validRelative_segments [OF assms(1)] by blast
  have "d = [] \<or> d \<in> set (path_prefixes p)"
    using assms(2) by (subst path_prefixes_split) (auto simp: parent_dirs_def)
  then show ?thesis
  proof
    assume "d \<in> set (path_prefixes p)"
    then obtain k where "k < length ?ss" "d = join_with CHR ''/'' (take (Suc k) ?ss)"
      by (auto simp: in_set_conv_nth path_prefixes_nth)
    moreover have "hd (take (Suc k) ?ss) \<in> set ?ss" by (cases ?ss) auto
    ultimately have "d \<noteq> []" "hd d = hd (hd (take (Suc k) ?ss))" "hd (take (Suc k) ?ss) \<noteq> []"
      using hd_join [of "take (Suc k) ?ss" "CHR ''/''"] segs by auto
    moreover have "\<not> has_prefix (hd (take (Suc k) ?ss)) ''.''" using segs \<open>hd _ \<in> set ?ss\<close> by blast
    ultimately show ?thesis by (cases d; cases "hd (take (Suc k) ?ss)") auto
  qed simp
qed

lemma four_digits_inj: "four_digits i = four_digits j \<Longrightarrow> i = j"
proof -
  have "nat_of_digits 0 (four_digits n) = Some n" for n
  proof -
    have "nat_of_digits 0 (replicate k CHR ''0'') = Some 0" for k
      by (induction k) (simp_all add: is_digit_def digit_val_def position_def)
    then show ?thesis by (simp add: four_digits_def Let_def nat_of_digits_append nat_of_digits_show)
  qed
  then show "four_digits i = four_digits j \<Longrightarrow> i = j" by (metis option.inject)
qed

lemma stagedPath_simps [simp]:
  "stagedPath s i = stagedPath s j \<longleftrightarrow> i = j" "under (stagedPath s i) s" "stagedPath s i \<noteq> s"
  "under s s"
  using four_digits_inj by (auto simp: stagedPath_def path_join_def under_trans_prefix)

lemma hash_simps [simp]: "length (hash b) = 64" "hash b \<noteq> []" "[] \<noteq> hash b"
  using sha256_hex_length sha256_hex_ne by (auto simp: hash_def simp del: sha256_hex_ne dest: sym)

text \<open>The names of a transaction.\<close>

lemma stage_names:
  assumes "i = hash b"
  shows "CHR ''/'' \<notin> set (stage_of i)" and "CHR ''/'' \<notin> set (journal_of i)"
    and "\<not> has_suffix (stage_of i) manifestSuffix" and "has_suffix (journal_of i) manifestSuffix"
    and "\<not> under (journal_of i) (stage_of i)" and "stage_of i \<noteq> journal_of i"
    and "has_prefix (stage_of i) txn_prefix" and "has_prefix (journal_of i) txn_prefix"
    and "drop (length txn_prefix) (stage_of i) = i" and "stage_of i \<noteq> []" and "journal_of i \<noteq> []"
proof -
  have hex: "set i \<subseteq> set ''0123456789abcdef''" using sha256_hex_digits assms by (auto simp: hash_def)
  show "CHR ''/'' \<notin> set (stage_of i)" "CHR ''/'' \<notin> set (journal_of i)"
    using hex by (auto simp: stage_of_def journal_of_def txn_prefix_def manifestSuffix_def)
  show "\<not> has_suffix (stage_of i) manifestSuffix"
  proof
    assume "has_suffix (stage_of i) manifestSuffix"
    then have "last (stage_of i) = CHR ''n''"
      by (auto simp: has_suffix_iff manifestSuffix_def)
    moreover have "last (stage_of i) \<in> set i" using assms by (auto simp: stage_of_def)
    ultimately show False using hex by auto
  qed
  show "has_suffix (journal_of i) manifestSuffix" by (simp add: has_suffix_iff journal_of_def)
  show "\<not> under (journal_of i) (stage_of i)" "stage_of i \<noteq> journal_of i"
    by (auto simp: under_trans_prefix journal_of_def stage_of_def manifestSuffix_def)
  show "has_prefix (stage_of i) txn_prefix" "has_prefix (journal_of i) txn_prefix"
    "drop (length txn_prefix) (stage_of i) = i" "stage_of i \<noteq> []" "journal_of i \<noteq> []"
    by (auto simp: has_prefix_iff stage_of_def journal_of_def txn_prefix_def)
qed

subsection \<open>What a plan is\<close>

lemma plan_outputs_facts:
  assumes "plan_outputs seen ws = Inr xs"
  shows "xs = map (\<lambda>w. \<lparr>ou_Path = wr_Path w, ou_Before = wr_Before w, ou_After = hash (the (wr_Bytes w))\<rparr>) ws"
    and "distinct (map wr_Path ws)" and "set seen \<inter> wr_Path ` set ws = {}"
    and "\<forall>w \<in> set ws. validRelative (wr_Path w) = Inr () \<and> wr_Bytes w \<noteq> None"
  using assms
proof (induction ws arbitrary: seen xs)
  case (Cons w ws)
  {
    case 1
    then show ?case using Cons.IH(1) by (auto simp: bindE_eq_Inr split: if_splits option.splits)
  next
    case 2
    then show ?case using Cons.IH(2,3) by (fastforce simp: bindE_eq_Inr split: if_splits option.splits)
  next
    case 3
    then show ?case using Cons.IH(3) by (fastforce simp: bindE_eq_Inr split: if_splits option.splits)
  next
    case 4
    then show ?case using Cons.IH(4) by (fastforce simp: bindE_eq_Inr split: if_splits option.splits)
  }
qed auto

lemma plan_facts:
  assumes "plan rq = Inr m"
  shows "manifest_validate m = Inr ()" and "mf_ID m = identity m" and "mf_SchemaVersion m = 1"
    and "mf_Timestamp m = rq_Now rq" and "rq_Moves rq = [] \<Longrightarrow> mf_Moves m = []"
    and "rq_Record rq = None \<Longrightarrow> mf_Record m = None" and "mf_Record m \<noteq> Some JNull"
    and "distinct (map ou_Path (mf_Outputs m))"
    and "\<forall>x \<in> set (mf_Outputs m). validRelative (ou_Path x) = Inr () \<and>
           ou_After x = hash (staged_bytes (rq_Outputs rq) (ou_Path x))"
    and "set (map ou_Path (mf_Outputs m)) = set (map wr_Path (rq_Outputs rq))"
proof -
  from assms obtain outs mvs rec where p: "plan_outputs [] (rq_Outputs rq) = Inr outs"
    "plan_moves (rq_Moves rq) = Inr mvs" "plan_record (rq_Record rq) (rq_Change rq) = Inr rec"
    and m: "m = (let m = \<lparr>mf_SchemaVersion = 1, mf_ID = [], mf_Operation = rq_Operation rq, mf_Change = rq_Change rq,
                  mf_Revision = rq_Revision rq, mf_Timestamp = rq_Now rq,
                  mf_Outputs = sort_key ou_Path outs, mf_Moves = sort_key mv_From mvs, mf_Record = rec\<rparr>
                 in m\<lparr>mf_ID := identity m\<rparr>)"
    and v: "manifest_validate m = Inr ()"
    by (auto simp: plan_def Let_def bindE_eq_Inr split: if_splits)
  note o = plan_outputs_facts [OF p(1)]
  show "manifest_validate m = Inr ()" by (rule v)
  show "mf_ID m = identity m" by (simp add: m Let_def identity_def)
  show "mf_SchemaVersion m = 1" "mf_Timestamp m = rq_Now rq" by (simp_all add: m Let_def)
  show "rq_Moves rq = [] \<Longrightarrow> mf_Moves m = []" using p(2) by (auto simp: m Let_def)
  show "rq_Record rq = None \<Longrightarrow> mf_Record m = None" using p(3) by (auto simp: m Let_def plan_record_def)
  show "mf_Record m \<noteq> Some JNull"
    using p(3) by (auto simp: m Let_def plan_record_def record_json_def split: option.splits sum.splits if_splits)
  have outs: "mf_Outputs m = sort_key ou_Path outs" by (simp add: m Let_def)
  have paths: "map ou_Path outs = map wr_Path (rq_Outputs rq)" by (simp add: o(1) comp_def)
  then have "distinct (map ou_Path outs)" using o(2) by simp
  then show "distinct (map ou_Path (mf_Outputs m))" unfolding outs distinct_map by simp
  show "set (map ou_Path (mf_Outputs m)) = set (map wr_Path (rq_Outputs rq))"
    unfolding paths [symmetric] outs by simp
  show "\<forall>x \<in> set (mf_Outputs m). validRelative (ou_Path x) = Inr () \<and>
           ou_After x = hash (staged_bytes (rq_Outputs rq) (ou_Path x))"
  proof
    fix x assume "x \<in> set (mf_Outputs m)"
    then obtain w where w: "w \<in> set (rq_Outputs rq)" "ou_Path x = wr_Path w" "ou_After x = hash (the (wr_Bytes w))"
      unfolding outs by (auto simp: o(1))
    let ?kvs = "map (\<lambda>w. (wr_Path w, wr_Bytes w)) (rq_Outputs rq)"
    have "map_of (rev ?kvs) (wr_Path w) = map_of ?kvs (wr_Path w)"
      by (subst map_of_rev_distinct) (simp_all add: o(2) comp_def)
    also have "\<dots> = Some (wr_Bytes w)"
      by (rule map_of_is_SomeI) (use w(1) o(2) in \<open>auto simp: comp_def\<close>)
    finally show "validRelative (ou_Path x) = Inr () \<and>
           ou_After x = hash (staged_bytes (rq_Outputs rq) (ou_Path x))"
      using w o(4) by (auto simp: staged_bytes_def)
  qed
qed

subsection \<open>The phases\<close>

definition targets :: "manifest \<Rightarrow> string set" where
  "targets m = set (map ou_Path (mf_Outputs m))"

definition target_dirs :: "manifest \<Rightarrow> string set" where
  "target_dirs m = (\<Union>p \<in> targets m. set (parent_dirs p))"

definition done_out :: "fs \<Rightarrow> txn_output \<Rightarrow> bool" where
  "done_out fs x \<longleftrightarrow> (\<exists>b. map_of fs (ou_Path x) = Some (NFile b) \<and> hash b = ou_After x)"

definition all_done :: "manifest \<Rightarrow> fs \<Rightarrow> bool" where
  "all_done m fs \<longleftrightarrow> (\<forall>x \<in> set (mf_Outputs m). done_out fs x)"

text \<open>Everything else is as it was, but for directories made above an output.\<close>

definition frame :: "fs \<Rightarrow> manifest \<Rightarrow> fs \<Rightarrow> bool" where
  "frame base m fs \<longleftrightarrow> (\<forall>p. p \<notin> targets m \<and> \<not> under p (stage_of (mf_ID m)) \<and> p \<noteq> journal_of (mf_ID m) \<longrightarrow>
     map_of fs p = map_of base p \<or> (p \<in> target_dirs m \<and> map_of base p = None \<and> map_of fs p = Some NDir))"

definition no_stage :: "manifest \<Rightarrow> fs \<Rightarrow> bool" where
  "no_stage m fs \<longleftrightarrow> (\<forall>p. under p (stage_of (mf_ID m)) \<longrightarrow> map_of fs p = None)"

definition stage_ok :: "manifest \<Rightarrow> fs \<Rightarrow> bool" where
  "stage_ok m fs \<longleftrightarrow> map_of fs (stage_of (mf_ID m)) = Some NDir \<or> no_stage m fs"

definition uncommitted :: "fs \<Rightarrow> manifest \<Rightarrow> fs \<Rightarrow> bool" where
  "uncommitted base m fs \<longleftrightarrow> stage_ok m fs \<and>
     (\<forall>p. \<not> under p (stage_of (mf_ID m)) \<longrightarrow> map_of fs p = map_of base p)"

definition staged :: "manifest \<Rightarrow> fs \<Rightarrow> nat \<Rightarrow> bool" where
  "staged m fs i \<longleftrightarrow> (\<exists>b. map_of fs (stagedPath (stage_of (mf_ID m)) i) = Some (NFile b) \<and>
     hash b = ou_After (mf_Outputs m ! i))"

definition journaled :: "manifest \<Rightarrow> fs \<Rightarrow> bool" where
  "journaled m fs \<longleftrightarrow> map_of fs (journal_of (mf_ID m)) = Some (NFile (journal_bytes m))"

definition committed :: "fs \<Rightarrow> manifest \<Rightarrow> fs \<Rightarrow> bool" where
  "committed base m fs \<longleftrightarrow> journaled m fs \<and> stage_ok m fs \<and> frame base m fs \<and>
     (\<forall>i < length (mf_Outputs m). done_out fs (mf_Outputs m ! i) \<or>
        map_of fs (ou_Path (mf_Outputs m ! i)) = map_of base (ou_Path (mf_Outputs m ! i)) \<and> staged m fs i)"

definition settled :: "fs \<Rightarrow> manifest \<Rightarrow> fs \<Rightarrow> bool" where
  "settled base m fs \<longleftrightarrow> (journaled m fs \<or> map_of fs (journal_of (mf_ID m)) = None) \<and> stage_ok m fs \<and>
     frame base m fs \<and> all_done m fs"

text \<open>The two ends.\<close>

definition old_tree :: "fs \<Rightarrow> manifest \<Rightarrow> fs \<Rightarrow> bool" where
  "old_tree base m fs \<longleftrightarrow> map_of fs = map_of base"

definition new_tree :: "fs \<Rightarrow> manifest \<Rightarrow> fs \<Rightarrow> bool" where
  "new_tree base m fs \<longleftrightarrow> all_done m fs \<and> frame base m fs \<and> no_stage m fs \<and>
     map_of fs (journal_of (mf_ID m)) = None"

text \<open>What is asked of the start: a planned transaction of outputs only, none of them inside another,
  over a file tree with a managed directory and no transaction pending.\<close>

definition unnested :: "manifest \<Rightarrow> bool" where
  "unnested m \<longleftrightarrow> (\<forall>p \<in> targets m. \<forall>q \<in> targets m. under p q \<longrightarrow> p = q)"

definition startable :: "fs \<Rightarrow> request \<Rightarrow> manifest \<Rightarrow> bool" where
  "startable base rq m \<longleftrightarrow> plan rq = Inr m \<and> rq_Moves rq = [] \<and> json_ok (manifest_json m) \<and>
     unnested m \<and> tree_ok base \<and> map_of base [] = Some NDir \<and> (\<forall>p \<in> dom (map_of base). \<not> has_prefix p txn_prefix)"

definition checked :: "owner \<Rightarrow> fs \<Rightarrow> manifest \<Rightarrow> bool" where
  "checked o' base m \<longleftrightarrow> (\<forall>x \<in> set (mf_Outputs m). clear base (ou_Path x) \<and>
     (\<exists>h. readTarget o' base (ou_Path x) = Inr h \<and> (h = ou_After x \<or> h = ou_Before x)))"

lemma startable_facts:
  assumes "startable base rq m"
  shows "mf_Moves m = []" and "mf_Record m \<noteq> Some JNull" and "manifest_validate m = Inr ()"
    and "mf_ID m = identity m" and "json_ok (manifest_json m)" and "unnested m"
    and "map_of base [] = Some NDir" and "has_prefix p txn_prefix \<Longrightarrow> map_of base p = None"
    and "x \<in> set (mf_Outputs m) \<Longrightarrow> validRelative (ou_Path x) = Inr ()"
    and "x \<in> set (mf_Outputs m) \<Longrightarrow> ou_After x = hash (staged_bytes (rq_Outputs rq) (ou_Path x))"
    and "distinct (map ou_Path (mf_Outputs m))" and "tree_ok base" and "mf_Timestamp m = rq_Now rq"
    and "manifest_of_json (manifest_json m) = Some m"
  using assms plan_facts [of rq m] manifest_round_trip_json [of m] by (auto simp: startable_def)

lemma startable_names:
  assumes "startable base rq m"
  shows "\<not> under (journal_of (mf_ID m)) (stage_of (mf_ID m))" and "stage_of (mf_ID m) \<noteq> journal_of (mf_ID m)"
    and "CHR ''/'' \<notin> set (stage_of (mf_ID m))" and "CHR ''/'' \<notin> set (journal_of (mf_ID m))"
    and "map_of base (journal_of (mf_ID m)) = None" and "under p (stage_of (mf_ID m)) \<Longrightarrow> map_of base p = None"
    and "\<exists>b. mf_ID m = hash b"
proof -
  obtain b where b: "mf_ID m = hash b" using startable_facts(4) [OF assms] by (simp add: identity_def)
  then show "\<exists>b. mf_ID m = hash b" by blast
  note n = stage_names [OF b]
  show "\<not> under (journal_of (mf_ID m)) (stage_of (mf_ID m))" "stage_of (mf_ID m) \<noteq> journal_of (mf_ID m)"
    "CHR ''/'' \<notin> set (stage_of (mf_ID m))" "CHR ''/'' \<notin> set (journal_of (mf_ID m))"
    using n by blast+
  show "map_of base (journal_of (mf_ID m)) = None" by (rule startable_facts(8) [OF assms n(8)])
  show "under p (stage_of (mf_ID m)) \<Longrightarrow> map_of base p = None"
    using n(7) by (intro startable_facts(8) [OF assms]) (auto simp: under_trans_prefix has_prefix_iff)
qed

text \<open>Outputs and the directories above them are apart from each other and from the names of the
  transaction.\<close>

lemma target_apart:
  assumes "startable base rq m" and "p \<in> targets m \<or> p \<in> target_dirs m"
  shows "\<not> under p (stage_of (mf_ID m))" and "p \<noteq> journal_of (mf_ID m)"
proof -
  have "\<not> has_prefix p ''.''"
    using assms startable_facts(9) [OF assms(1)] valid_no_dot
    by (fastforce simp: targets_def target_dirs_def)
  then show "\<not> under p (stage_of (mf_ID m))" "p \<noteq> journal_of (mf_ID m)"
    by (auto simp: under_trans_prefix has_prefix_iff stage_of_def journal_of_def txn_prefix_def)
qed

lemma frame_root:
  assumes "startable base rq m" and "frame base m fs"
  shows "map_of fs [] = Some NDir"
proof -
  have "[] \<notin> targets m" using startable_facts(9) [OF assms(1)] validRelative_segments by (fastforce simp: targets_def)
  moreover have "\<not> under [] (stage_of (mf_ID m))" "[] \<noteq> journal_of (mf_ID m)"
    by (simp_all add: under_trans_prefix stage_of_def journal_of_def txn_prefix_def)
  ultimately have "map_of fs [] = map_of base [] \<or> map_of base [] = None"
    using assms(2) unfolding frame_def by metis
  then show ?thesis using startable_facts(7) [OF assms(1)] by auto
qed

lemma targets_not_dirs:
  assumes "startable base rq m" and "p \<in> targets m"
  shows "p \<notin> target_dirs m"
proof
  assume "p \<in> target_dirs m"
  then obtain q where q: "q \<in> targets m" "p \<in> set (parent_dirs q)" by (auto simp: target_dirs_def)
  have "p \<noteq> []"
    using assms startable_facts(9) [OF assms(1)] validRelative_segments by (fastforce simp: targets_def)
  then have "under q p" "q \<noteq> p" using parent_dirs_under [OF q(2)] by blast+
  then show False using startable_facts(6) [OF assms(1)] assms(2) q(1) by (auto simp: unnested_def)
qed

lemma target_in: "i < length (mf_Outputs m) \<Longrightarrow> ou_Path (mf_Outputs m ! i) \<in> targets m"
  by (simp add: targets_def)

lemma committed_clear:
  assumes "startable base rq m" and "checked o' base m" and "frame base m fs" and "x \<in> set (mf_Outputs m)"
    and "done_out fs x \<or> map_of fs (ou_Path x) = map_of base (ou_Path x)"
  shows "clear fs (ou_Path x)"
proof -
  have clear: "clear base (ou_Path x)" using assms(2,4) by (simp add: checked_def)
  have "dir_or_free fs d" if "d \<in> set (parent_dirs (ou_Path x))" for d
  proof -
    have d: "d \<in> target_dirs m" using that assms(4) by (auto simp: target_dirs_def targets_def)
    then have "d \<notin> targets m" using targets_not_dirs [OF assms(1)] by blast
    then have "map_of fs d = map_of base d \<or> map_of fs d = Some NDir"
      using assms(3) target_apart [OF assms(1)] d by (auto simp: frame_def)
    then show ?thesis using clear that by (auto simp: clear_def dir_or_free_def)
  qed
  then show ?thesis using clear assms(5) by (auto simp: clear_def done_out_def)
qed

lemma clear_resolve:
  assumes "validRelative p = Inr ()" and "clear fs p"
  shows "resolve o' fs p = Inr p"
proof -
  note v = validRelative_segments [OF assms(1)]
  have "p \<noteq> ''.''" using v by (auto simp: path_Clean_def)
  then show ?thesis
    using v assms(1) clear_checks [OF assms(2)] valid_check_points [OF assms(1)]
    by (auto simp: resolve_def CheckWriteTarget_def Let_def simp del: check_points.simps)
qed

subsection \<open>Applying\<close>

definition upto_done :: "fs \<Rightarrow> manifest \<Rightarrow> nat \<Rightarrow> fs \<Rightarrow> bool" where
  "upto_done base m i fs \<longleftrightarrow> committed base m fs \<and> (\<forall>j < i. done_out fs (mf_Outputs m ! j))"

lemma committed_mkdirs:
  assumes "startable base rq m" and "committed base m fs" and "set ds \<subseteq> target_dirs m"
  shows "committed base m (mkdirs ds fs)"
    and "done_out fs x \<Longrightarrow> done_out (mkdirs ds fs) x"
proof -
  let ?g = "mkdirs ds fs"
  have same: "q \<notin> target_dirs m \<Longrightarrow> map_of ?g q = map_of fs q" for q using assms(3) by auto
  have keep: "map_of fs q = Some n \<Longrightarrow> map_of ?g q = Some n" for q n by simp
  show "done_out fs x \<Longrightarrow> done_out ?g x" by (auto simp: done_out_def)
  have "stage_ok m ?g"
    using assms(2,3) target_apart(1) [OF assms(1)] unfolding committed_def stage_ok_def no_stage_def map_of_mkdirs
    by (metis subset_eq)
  moreover have "frame base m ?g"
    using assms(2,3) unfolding committed_def frame_def by auto
  moreover have "done_out ?g (mf_Outputs m ! i) \<or>
        map_of ?g (ou_Path (mf_Outputs m ! i)) = map_of base (ou_Path (mf_Outputs m ! i)) \<and> staged m ?g i"
    if i: "i < length (mf_Outputs m)" for i
  proof -
    have "map_of ?g (ou_Path (mf_Outputs m ! i)) = map_of fs (ou_Path (mf_Outputs m ! i))"
      by (rule same) (rule targets_not_dirs [OF assms(1) target_in [OF i]])
    then show ?thesis using assms(2) i keep unfolding committed_def staged_def done_out_def by metis
  qed
  ultimately show "committed base m ?g"
    using assms(2) keep unfolding committed_def journaled_def by blast
qed

lemma committed_rename:
  assumes "startable base rq m" and "upto_done base m i fs" and "i < length (mf_Outputs m)"
    and "map_of fs (stagedPath (stage_of (mf_ID m)) i) = Some (NFile b)" and "hash b = ou_After (mf_Outputs m ! i)"
  shows "upto_done base m (Suc i) (AList.update (ou_Path (mf_Outputs m ! i)) (NFile b)
      (AList.delete (stagedPath (stage_of (mf_ID m)) i) fs))"
proof -
  let ?S = "stage_of (mf_ID m)" and ?p = "ou_Path (mf_Outputs m ! i)"
  let ?g = "AList.update ?p (NFile b) (AList.delete (stagedPath ?S i) fs)"
  note apart = target_apart [OF assms(1), OF disjI1 [OF target_in [OF assms(3)]]]
  note names = startable_names [OF assms(1)]
  have c: "committed base m fs" and d: "\<forall>j < i. done_out fs (mf_Outputs m ! j)"
    using assms(2) by (auto simp: upto_done_def)
  have g: "map_of ?g q = (if q = ?p then Some (NFile b) else if q = stagedPath ?S i then None else map_of fs q)" for q
    by simp
  have other: "j < length (mf_Outputs m) \<Longrightarrow> j \<noteq> i \<Longrightarrow> ou_Path (mf_Outputs m ! j) \<noteq> ?p" for j
    using startable_facts(11) [OF assms(1)] assms(3) by (auto simp: distinct_conv_nth)
  have not_staged: "q \<in> targets m \<Longrightarrow> q \<noteq> stagedPath ?S j" for q j
    using target_apart(1) [OF assms(1)] stagedPath_simps(2) by blast
  have mine: "done_out ?g (mf_Outputs m ! i)" using assms(5) by (auto simp: done_out_def)
  have others: "j < length (mf_Outputs m) \<Longrightarrow> done_out fs (mf_Outputs m ! j) \<Longrightarrow> done_out ?g (mf_Outputs m ! j)" for j
    using mine other [of j] not_staged [OF target_in, of j i] unfolding done_out_def g by (cases "j = i") auto
  have "journaled m ?g"
    using c apart(2) names(1) stagedPath_simps(2) unfolding committed_def journaled_def g by metis
  moreover have "stage_ok m ?g"
    using c apart(1) stagedPath_simps(3) stagedPath_simps(4) unfolding committed_def stage_ok_def no_stage_def g by metis
  moreover have "frame base m ?g"
    using c target_in [OF assms(3)] stagedPath_simps(2) unfolding committed_def frame_def g by metis
  moreover have "done_out ?g (mf_Outputs m ! j) \<or>
        map_of ?g (ou_Path (mf_Outputs m ! j)) = map_of base (ou_Path (mf_Outputs m ! j)) \<and> staged m ?g j"
    if j: "j < length (mf_Outputs m)" for j
  proof (cases "done_out fs (mf_Outputs m ! j) \<or> j = i")
    case False
    then have old: "map_of fs (ou_Path (mf_Outputs m ! j)) = map_of base (ou_Path (mf_Outputs m ! j))" "staged m fs j"
      using c j by (auto simp: committed_def)
    have "map_of ?g (ou_Path (mf_Outputs m ! j)) = map_of fs (ou_Path (mf_Outputs m ! j))"
      using other [OF j] False not_staged [OF target_in [OF j]] unfolding g by auto
    moreover have "stagedPath ?S j \<noteq> ?p" using not_staged [OF target_in [OF assms(3)]] by metis
    then have "staged m ?g j" using old(2) False unfolding staged_def g by simp
    ultimately show ?thesis using old(1) by simp
  qed (use others [OF j] mine in blast)
  ultimately have "committed base m ?g" unfolding committed_def by blast
  moreover have "done_out ?g (mf_Outputs m ! j)" if "j < Suc i" for j
    using that d others [of j] mine assms(3) by (cases "j = i") auto
  ultimately show ?thesis unfolding upto_done_def by blast
qed

text \<open>The excuses of a run: a call that failed, or a hook.\<close>

definition excused :: "(fault \<Rightarrow> bool) \<Rightarrow> hook \<Rightarrow> bool" where
  "excused ok h \<longleftrightarrow> may_fail ok \<or> h \<noteq> None"

lemma run_call:
  assumes "\<And>fs. A fs \<Longrightarrow> Q () fs" and "\<And>fs. A fs \<Longrightarrow> excused ok hk \<Longrightarrow> E fs"
  shows "run ok h A (callA hk step path) Q E"
  unfolding callA_def
proof (rule run_wrap, rule run_pure)
  fix x fs assume "A fs" then show "Q x fs" using assms(1) by simp
next
  fix e fs assume "A fs" "txn_call hk step = Inl e"
  then show "E fs" using assms(2) by (auto simp: excused_def txn_call_def split: option.splits)
qed

lemma output_reads:
  assumes "startable base rq m" and "checked o' base m" and frame: "frame base m fs" and x: "x \<in> set (mf_Outputs m)"
    and state: "done_out fs x \<or> map_of fs (ou_Path x) = map_of base (ou_Path x)"
  shows "locate o' fs m (ou_Path x) = Inr (ou_Path x)"
    and "readTarget o' fs (ou_Path x) = Inr (if done_out fs x then ou_After x else
       case map_of base (ou_Path x) of Some (NFile b) \<Rightarrow> hash b | _ \<Rightarrow> [])"
    and "\<not> done_out fs x \<Longrightarrow> (case map_of base (ou_Path x) of Some (NFile b) \<Rightarrow> hash b | _ \<Rightarrow> []) = ou_Before x \<and>
       ou_Before x \<noteq> ou_After x"
    and "clear fs (ou_Path x)"
proof -
  show clear: "clear fs (ou_Path x)" by (rule committed_clear [OF assms(1,2) frame x state])
  then show "locate o' fs m (ou_Path x) = Inr (ou_Path x)"
    using clear_resolve [OF startable_facts(9) [OF assms(1) x], of fs o'] startable_facts(1) [OF assms(1)]
    by (simp add: locate_def)
  have stat: "lstat fs (ou_Path x) = (case map_of fs (ou_Path x) of None \<Rightarrow> Absent | Some n \<Rightarrow> Found n)"
    using clear by (intro lstat_clear) (simp add: clear_def)
  have base: "clear base (ou_Path x)" using assms(2) x by (simp add: checked_def)
  show "readTarget o' fs (ou_Path x) = Inr (if done_out fs x then ou_After x else
       case map_of base (ou_Path x) of Some (NFile b) \<Rightarrow> hash b | _ \<Rightarrow> [])"
    using state base unfolding readTarget_def stat clear_def done_out_def by auto
  assume not: "\<not> done_out fs x"
  then have same: "map_of fs (ou_Path x) = map_of base (ou_Path x)" using state by blast
  have bstat: "lstat base (ou_Path x) = (case map_of base (ou_Path x) of None \<Rightarrow> Absent | Some n \<Rightarrow> Found n)"
    using base by (intro lstat_clear) (simp add: clear_def)
  have read: "readTarget o' base (ou_Path x) = Inr (case map_of base (ou_Path x) of Some (NFile b) \<Rightarrow> hash b | _ \<Rightarrow> [])"
    using base unfolding readTarget_def bstat clear_def by auto
  have "(case map_of base (ou_Path x) of Some (NFile b) \<Rightarrow> hash b | _ \<Rightarrow> []) \<noteq> ou_After x"
    using not same base startable_facts(10) [OF assms(1) x] by (auto simp: done_out_def clear_def)
  then show "(case map_of base (ou_Path x) of Some (NFile b) \<Rightarrow> hash b | _ \<Rightarrow> []) = ou_Before x \<and>
       ou_Before x \<noteq> ou_After x"
    using assms(2) x read by (auto simp: checked_def)
qed

lemma bindA_return: "bindA (returnA x) f = f x"
  by (simp add: bindA_def returnA_def)

lemma committed_reads:
  assumes "committed base m fs" and "i < length (mf_Outputs m)"
  shows "frame base m fs" and "mf_Outputs m ! i \<in> set (mf_Outputs m)"
    and "done_out fs (mf_Outputs m ! i) \<or> map_of fs (ou_Path (mf_Outputs m ! i)) = map_of base (ou_Path (mf_Outputs m ! i))"
  using assms by (auto simp: committed_def)

lemma output_reads_nth:
  assumes "startable base rq m" and "checked o' base m" and "committed base m fs" and "i < length (mf_Outputs m)"
  defines "x \<equiv> mf_Outputs m ! i"
  shows "locate o' fs m (ou_Path x) = Inr (ou_Path x)"
    and "readTarget o' fs (ou_Path x) = Inr (if done_out fs x then ou_After x else
       case map_of base (ou_Path x) of Some (NFile b) \<Rightarrow> hash b | _ \<Rightarrow> [])"
    and "\<not> done_out fs x \<Longrightarrow> (case map_of base (ou_Path x) of Some (NFile b) \<Rightarrow> hash b | _ \<Rightarrow> []) = ou_Before x \<and>
       ou_Before x \<noteq> ou_After x"
    and "clear fs (ou_Path x)"
  using output_reads [OF assms(1,2) committed_reads [OF assms(3,4)]] unfolding x_def by blast+

lemma run_gets:
  assumes "\<And>fs. A fs \<Longrightarrow> f fs = Inr (g fs)" and "\<And>v. run ok h (\<lambda>fs. A fs \<and> g fs = v) (c v) Q E"
  shows "run ok h A (bindA (liftA (\<lambda>w. f (w_fs w))) c) Q E"
  by (rule run_bind [where R = "\<lambda>v fs. A fs \<and> g fs = v"], rule run_lift) (simp_all add: assms)

lemma run_if:
  assumes "P \<Longrightarrow> run ok h A c Q E" and "\<not> P \<Longrightarrow> run ok h A d Q E"
  shows "run ok h A (if P then c else d) Q E"
  using assms by simp

lemma parent_dirs_targets: "i < length (mf_Outputs m) \<Longrightarrow> set (parent_dirs (ou_Path (mf_Outputs m ! i))) \<subseteq> target_dirs m"
  using target_in [of i m] by (auto simp: target_dirs_def)

lemma map_of_mkdirs_parent:
  assumes "clear fs p"
  shows "map_of (mkdirs (parent_dirs p) fs) (parent_of p) = Some NDir"
  using assms parent_of_in [of p] by (auto simp: clear_def dir_or_free_def)

definition ready :: "fs \<Rightarrow> manifest \<Rightarrow> nat \<Rightarrow> string \<Rightarrow> fs \<Rightarrow> bool" where
  "ready base m i b fs \<longleftrightarrow> upto_done base m i fs \<and>
     map_of fs (stagedPath (stage_of (mf_ID m)) i) = Some (NFile b) \<and> hash b = ou_After (mf_Outputs m ! i)"

text \<open>Replacing one output that is still old.\<close>

lemma run_make_parents:
  assumes "startable base rq m" and "checked o' base m" and "sound_faults ok" and i: "i < length (mf_Outputs m)"
  defines "p \<equiv> ou_Path (mf_Outputs m ! i)"
  shows "run ok h (ready base m i b) (make_dirs (parent_dirs p))
      (\<lambda>_ fs. ready base m i b fs \<and> map_of fs (parent_of p) = Some NDir) (\<lambda>fs. committed base m fs \<and> may_fail ok)"
  unfolding make_dirs_def
proof (rule run_syscall [OF assms(3)])
  have dirs: "set (parent_dirs p) \<subseteq> target_dirs m" using parent_dirs_targets [OF i] by (simp add: p_def)
  have mk: "ready base m i b (mkdirs ds fs)" if "ready base m i b fs" "set ds \<subseteq> target_dirs m" for ds fs
    using that committed_mkdirs [OF assms(1), of fs ds] unfolding ready_def upto_done_def by auto
  {
    fix fs assume r: "ready base m i b fs"
    have clear: "clear fs p"
      using output_reads_nth(4) [OF assms(1,2) _ i] r by (auto simp: ready_def upto_done_def p_def)
    then have "list_all (\<lambda>a. map_of fs a \<in> {None, Some NDir}) (parent_dirs p)"
      by (auto simp: list_all_iff clear_def dir_or_free_def)
    then show "case if list_all (\<lambda>a. map_of fs a \<in> {None, Some NDir}) (parent_dirs p)
        then Inr (mkdirs (parent_dirs p) fs) else Inl not_dir of
        Inl _ \<Rightarrow> committed base m fs \<and> may_fail ok
      | Inr fs' \<Rightarrow> ready base m i b fs' \<and> map_of fs' (parent_of p) = Some NDir"
      using mk [OF r dirs] map_of_mkdirs_parent [OF clear] by simp
  next
    fix fs n assume r: "ready base m i b fs" "may_fail ok"
    have "set (take n (parent_dirs p)) \<subseteq> target_dirs m" using dirs by (auto dest: in_set_takeD)
    then show "committed base m (if list_all (\<lambda>a. map_of fs a \<in> {None, Some NDir}) (parent_dirs p)
        then mkdirs (take n (parent_dirs p)) fs else fs) \<and> may_fail ok"
      using mk [OF r(1)] r by (auto simp: ready_def upto_done_def)
  }
qed

lemma run_rename_staged:
  assumes "startable base rq m" and "checked o' base m" and "sound_faults ok" and i: "i < length (mf_Outputs m)"
  defines "p \<equiv> ou_Path (mf_Outputs m ! i)"
  shows "run ok h (\<lambda>fs. ready base m i b fs \<and> map_of fs (parent_of p) = Some NDir)
      (os_Rename (stagedPath (stage_of (mf_ID m)) i) p) (\<lambda>_. upto_done base m (Suc i))
      (\<lambda>fs. committed base m fs \<and> may_fail ok)"
  unfolding os_Rename_def
proof (rule run_syscall [OF assms(3)])
  fix fs assume r: "ready base m i b fs \<and> map_of fs (parent_of p) = Some NDir"
  have "clear fs p"
    using output_reads_nth(4) [OF assms(1,2) _ i, of fs] r by (simp add: ready_def upto_done_def p_def)
  then have "map_of fs p \<noteq> Some NDir" by (auto simp: clear_def)
  then show "case case map_of fs (stagedPath (stage_of (mf_ID m)) i) of
      None \<Rightarrow> Inl not_exist
    | Some NDir \<Rightarrow> if map_of fs p \<noteq> None then Inl file_exists
        else if map_of fs (parent_of p) \<noteq> Some NDir then Inl not_exist
        else Inr (rename_tree (stagedPath (stage_of (mf_ID m)) i) p fs)
    | Some n \<Rightarrow> if map_of fs p = Some NDir then Inl file_exists
        else if map_of fs (parent_of p) \<noteq> Some NDir then Inl not_exist
        else Inr (AList.update p n (AList.delete (stagedPath (stage_of (mf_ID m)) i) fs)) of
      Inl _ \<Rightarrow> committed base m fs \<and> may_fail ok | Inr fs' \<Rightarrow> upto_done base m (Suc i) fs'"
    using r committed_rename [OF assms(1) _ i, of fs b] by (simp add: ready_def p_def)
qed (simp add: ready_def upto_done_def)

lemma run_excuse:
  "run ok h A m Q (\<lambda>fs. B fs \<and> may_fail ok) \<Longrightarrow> run ok h A m Q (\<lambda>fs. B fs \<and> excused ok hk)"
  by (erule run_conseq) (auto simp: excused_def)

lemma run_replace_output:
  assumes "startable base rq m" and "checked o' base m" and "sound_faults ok" and i: "i < length (mf_Outputs m)"
  defines "x \<equiv> mf_Outputs m ! i"
  shows "run ok h (ready base m i b) (replace_output o' m hk i x (ou_Path x) b)
    (\<lambda>_. upto_done base m (Suc i)) (\<lambda>fs. committed base m fs \<and> excused ok hk)"
  unfolding replace_output_def Let_def
proof (rule run_if)
  let ?E = "\<lambda>fs. committed base m fs \<and> excused ok hk"
  note parts = run_make_parents [OF assms(1-4), of h b] run_rename_staged [OF assms(1-4), of h b]
  assume "\<not> hash b \<noteq> ou_After x"
  show "run ok h (ready base m i b)
     (bindA (callA hk (''before-replace:'' @ ou_Path x) (abs_path o' (ou_Path x))) (\<lambda>_.
      bindA (wrapA (ioRefusal (abs_path o' (ou_Path x))) (make_dirs (parent_dirs (ou_Path x)))) (\<lambda>_.
      bindA (wrapA (ioRefusal (abs_path o' (ou_Path x)))
               (os_Rename (stagedPath (stage_of (mf_ID m)) i) (ou_Path x))) (\<lambda>_.
      bindA (syncDir o' (parent_of (ou_Path x))) (\<lambda>_.
      callA hk (''after-replace:'' @ ou_Path x) (abs_path o' (ou_Path x)))))))
     (\<lambda>_. upto_done base m (Suc i)) ?E"
    unfolding x_def
    by (rule run_bind [where R = "\<lambda>_. ready base m i b"] run_bind [OF run_wrap [OF run_excuse [OF parts(1)]]]
          run_bind [OF run_wrap [OF run_excuse [OF parts(2)]]]
          run_bind [where R = "\<lambda>_. upto_done base m (Suc i)"] run_sync [OF assms(3)] run_call
        | simp add: upto_done_def ready_def excused_def)+
next
  assume "hash b \<noteq> ou_After x"
  then show "run ok h (ready base m i b) (liftA (\<lambda>_. Inl (txn_refuse ''ambiguous''
      (abs_path o' (stagedPath (stage_of (mf_ID m)) i))
      [Str ''staged bytes do not match the committed output hash''] restore_file)))
    (\<lambda>_. upto_done base m (Suc i)) (\<lambda>fs. committed base m fs \<and> excused ok hk)"
    by (intro run_pure) (simp_all add: ready_def x_def)
qed

text \<open>One pass of the loop: an output that is done is skipped, any other is old and its staged bytes
  are there.\<close>

lemma run_apply_output:
  assumes "startable base rq m" and "checked o' base m" and "sound_faults ok" and i: "i < length (mf_Outputs m)"
  defines "x \<equiv> mf_Outputs m ! i"
  shows "run ok h (upto_done base m i) (apply_output o' m hk i x)
    (\<lambda>_. upto_done base m (Suc i)) (\<lambda>fs. committed base m fs \<and> excused ok hk)"
  unfolding apply_output_def
proof (rule run_gets [where g = "\<lambda>_. ou_Path x"])
  let ?E = "\<lambda>fs. committed base m fs \<and> excused ok hk" and ?g = "\<lambda>fs. if done_out fs x then ou_After x else ou_Before x"
  note reads = output_reads_nth [OF assms(1,2) _ i, folded x_def]
  show "locate o' fs m (ou_Path x) = Inr (ou_Path x)" if "upto_done base m i fs" for fs
    using reads(1) that by (simp add: upto_done_def)
  fix target
  let ?A = "\<lambda>fs. upto_done base m i fs \<and> ou_Path x = target"
  show "run ok h ?A (bindA (liftA (\<lambda>w. readTarget o' (w_fs w) target)) (\<lambda>current.
     if current = ou_After x then returnA ()
     else if current \<noteq> ou_Before x then
       liftA (\<lambda>_. Inl (txn_refuse ''ambiguous'' (abs_path o' target)
         [Str ''the output holds neither the recorded old nor the recorded new bytes''] restore_file))
     else bindA (liftA (\<lambda>w. readStaged o' (w_fs w) (stagedPath (stage_of (mf_ID m)) i)))
         (replace_output o' m hk i x target))) (\<lambda>_. upto_done base m (Suc i)) ?E"
  proof (rule run_gets [where g = ?g], goal_cases)
    case (1 fs)
    then show ?case using reads(2,3) [of fs] by (auto simp: upto_done_def)
  next
    case (2 current)
    show ?case
    proof (intro run_if, goal_cases)
      case 1
      then show ?case
        using reads(3) by (auto intro!: run_return simp: upto_done_def less_Suc_eq x_def split: if_splits)
    next
      case 2
      then show ?case by (intro run_pure) (auto split: if_splits)
    next
      case 3
      have st: "\<exists>b. readStaged o' fs (stagedPath (stage_of (mf_ID m)) i) = Inr b \<and> ready base m i b fs \<and> ou_Path x = target"
        if "?A fs \<and> ?g fs = current" for fs
      proof -
        have "staged m fs i" using that 3 i by (auto simp: upto_done_def committed_def x_def split: if_splits)
        then show ?thesis using that by (auto simp: staged_def ready_def readStaged_def lstat_def x_def)
      qed
      show ?case
      proof (rule run_bind [where R = "\<lambda>b fs. ready base m i b fs \<and> ou_Path x = target"], rule run_lift, drule st)
        show "run ok h (\<lambda>fs. ready base m i b fs \<and> ou_Path x = target) (replace_output o' m hk i x target b)
            (\<lambda>_. upto_done base m (Suc i)) ?E" for b
          using run_replace_output [OF assms(1-4), of h b hk]
          by (cases "ou_Path x = target") (auto simp: run_def during_def x_def)
      qed auto
    qed
  qed
qed

lemma run_apply_outputs:
  assumes "startable base rq m" and "checked o' base m" and "sound_faults ok" and "i \<le> length (mf_Outputs m)"
  shows "run ok h (upto_done base m i) (apply_outputs o' m hk i (drop i (mf_Outputs m)))
    (\<lambda>_. upto_done base m (length (mf_Outputs m))) (\<lambda>fs. committed base m fs \<and> excused ok hk)"
  using assms(4)
proof (induction "length (mf_Outputs m) - i" arbitrary: i)
  case 0
  then show ?case by (auto intro!: run_return)
next
  case (Suc n)
  then have i: "i < length (mf_Outputs m)" by simp
  show ?case
    unfolding Cons_nth_drop_Suc [OF i, symmetric] apply_outputs.simps
    by (rule run_bind [OF run_apply_output [OF assms(1-3) i] Suc.hyps(1)]) (use Suc.hyps(2) i in auto)
qed

subsection \<open>Cleaning up\<close>

lemma remove_some_stage:
  assumes "stage_ok m fs"
  shows "stage_ok m (remove_some (stage_of (mf_ID m)) n fs)"
    and "\<not> under p (stage_of (mf_ID m)) \<Longrightarrow> map_of (remove_some (stage_of (mf_ID m)) n fs) p = map_of fs p"
proof -
  let ?S = "stage_of (mf_ID m)"
  obtain gone where gone: "\<forall>q \<in> gone. has_prefix q (?S @ ''/'')"
    and eq: "\<And>q. map_of (remove_some ?S n fs) q = (if q \<in> gone then None else map_of fs q)"
    using remove_some_cases [of ?S n fs] by metis
  have "?S \<notin> gone" using gone by (auto simp: has_prefix_iff)
  then show "stage_ok m (remove_some ?S n fs)" using assms eq by (auto simp: stage_ok_def no_stage_def)
  show "\<not> under p ?S \<Longrightarrow> map_of (remove_some ?S n fs) p = map_of fs p"
    using gone eq by (auto simp: under_def)
qed

lemma run_remove_stage:
  assumes "sound_faults ok"
    and "\<And>fs fs'. A fs \<Longrightarrow> stage_ok m fs' \<Longrightarrow> (\<And>p. \<not> under p (stage_of (mf_ID m)) \<Longrightarrow> map_of fs' p = map_of fs p) \<Longrightarrow> A fs'"
    and "\<And>fs. A fs \<Longrightarrow> stage_ok m fs"
  shows "run ok h A (os_RemoveAll (stage_of (mf_ID m))) (\<lambda>_ fs. A fs \<and> no_stage m fs) (\<lambda>fs. A fs \<and> may_fail ok)"
  unfolding os_RemoveAll_def
proof (rule run_syscall [OF assms(1)])
  fix fs assume A: "A fs"
  let ?g = "remove_tree (stage_of (mf_ID m)) fs"
  have gone: "no_stage m ?g" by (simp add: no_stage_def)
  then have "A ?g" using assms(2) [OF A, of ?g] by (simp add: stage_ok_def)
  with gone show "case Inr ?g of Inl _ \<Rightarrow> A fs \<and> may_fail ok | Inr fs' \<Rightarrow> A fs' \<and> no_stage m fs'" by simp
next
  fix fs n assume A: "A fs" "may_fail ok"
  from assms(2) [OF A(1) remove_some_stage [OF assms(3) [OF A(1)]]] A(2)
  show "A (remove_some (stage_of (mf_ID m)) n fs) \<and> may_fail ok" by blast
qed

lemma settled_remove:
  assumes "startable base rq m" and "settled base m fs" and "stage_ok m fs'"
    and "\<And>p. \<not> under p (stage_of (mf_ID m)) \<Longrightarrow> map_of fs' p = map_of fs p"
  shows "settled base m fs'"
proof -
  have "done_out fs x \<Longrightarrow> done_out fs' x" if "x \<in> set (mf_Outputs m)" for x
    using assms(4) target_apart(1) [OF assms(1), of "ou_Path x"] that by (auto simp: done_out_def targets_def)
  then have "all_done m fs'" using assms(2) by (auto simp: settled_def all_done_def)
  then show ?thesis
    using assms startable_names(1) [OF assms(1)] by (auto simp: settled_def journaled_def frame_def)
qed

lemma committed_settled:
  "upto_done base m (length (mf_Outputs m)) fs \<Longrightarrow> settled base m fs \<and> journaled m fs"
  "settled base m fs \<Longrightarrow> journaled m fs \<Longrightarrow> committed base m fs"
  by (auto simp: upto_done_def settled_def committed_def all_done_def all_set_conv_all_nth)

lemma settled_no_journal:
  assumes "startable base rq m" and "settled base m fs"
  shows "settled base m (AList.delete (journal_of (mf_ID m)) fs)"
proof -
  let ?J = "journal_of (mf_ID m)" and ?S = "stage_of (mf_ID m)"
  have "stage_ok m (AList.delete ?J fs)"
    using assms(2) startable_names(1,2) [OF assms(1)] by (auto simp: settled_def stage_ok_def no_stage_def)
  moreover have "done_out (AList.delete ?J fs) x" if "x \<in> set (mf_Outputs m)" for x
    using assms(2) target_apart(2) [OF assms(1), of "ou_Path x"] that
    by (auto simp: settled_def all_done_def done_out_def targets_def)
  ultimately show ?thesis using assms(2) by (auto simp: settled_def frame_def all_done_def)
qed

lemma run_remove_journal:
  assumes "startable base rq m" and "sound_faults ok"
  shows "run ok h (\<lambda>fs. settled base m fs \<and> journaled m fs) (removeDurable o' (journal_of (mf_ID m)))
    (\<lambda>_ fs. settled base m fs \<and> (may_fail ok \<or> map_of fs (journal_of (mf_ID m)) = None))
    (\<lambda>fs. settled base m fs \<and> may_fail ok)" (is "run ok h ?A ?m ?Q ?E")
proof -
  let ?J = "journal_of (mf_ID m)"
  have r: "run ok h ?A (os_Remove ?J) (\<lambda>_ fs. settled base m fs \<and> map_of fs ?J = None) ?E"
    unfolding os_Remove_def
    by (rule run_syscall [OF assms(2)]) (simp_all add: journaled_def settled_no_journal [OF assms(1)])
  have sync: "run ok h (\<lambda>fs. settled base m fs \<and> (may_fail ok \<or> map_of fs ?J = None)) (syncDir o' d) ?Q ?E" for d
    by (rule run_sync [OF assms(2)]) simp_all
  show ?thesis
  proof (rule runI)
    fix w x w' assume w: "during ok h ?A w" "?m w = (Inr x, w')"
    then obtain y v where y: "os_Remove ?J w = (y, v)" "syncDir o' (parent_of ?J) v = (Inr x, w')"
      by (auto simp: removeDurable_def split: prod.splits sum.splits if_splits)
    then have "during ok h (\<lambda>fs. settled base m fs \<and> (may_fail ok \<or> map_of fs ?J = None)) v"
      using runD [OF r w(1)] runE [OF r w(1)] by (cases y) (auto simp: during_def)
    then show "during ok h (?Q x) w'" using runD [OF sync] y(2) by blast
  next
    fix w e w' assume w: "during ok h ?A w" "?m w = (Inl e, w')"
    then consider e' where "os_Remove ?J w = (Inl e', w')"
      | y v where "os_Remove ?J w = (y, v)" "syncDir o' (parent_of ?J) v = (Inl e, w')"
      by (auto simp: removeDurable_def split: prod.splits sum.splits if_splits)
    then show "during ok h ?E w'"
    proof cases
      case 1
      then show ?thesis using runE [OF r w(1)] by blast
    next
      case 2
      then have "during ok h (\<lambda>fs. settled base m fs \<and> (may_fail ok \<or> map_of fs ?J = None)) v"
        using runD [OF r w(1)] runE [OF r w(1)] by (cases y) (auto simp: during_def)
      then show ?thesis using runE [OF sync] 2(2) by blast
    qed
  qed
qed

end
