(* ===== verification/LedgerRuns.thy ===== *)
theory LedgerRuns
  imports Recovery
begin

text \<open>
  Actions that also write the history: a calculus over the tree and the history together, the states the
  history goes through when the record bound to a transaction is appended (not yet, cut off, there), and
  the append as one step of the calculus.
\<close>

subsection \<open>The calculus\<close>

definition holds_in :: "(fault \<Rightarrow> bool) \<Rightarrow> (fs \<Rightarrow> ledger_file \<Rightarrow> bool) \<Rightarrow> world \<Rightarrow> bool" where
  "holds_in ok P w \<longleftrightarrow> (\<forall>n. ok (w_faults w n)) \<and> P (w_fs w) (w_history w)"

definition hrun :: "(fault \<Rightarrow> bool) \<Rightarrow> (fs \<Rightarrow> ledger_file \<Rightarrow> bool) \<Rightarrow> 'a act \<Rightarrow> ('a \<Rightarrow> fs \<Rightarrow> ledger_file \<Rightarrow> bool)
    \<Rightarrow> (fs \<Rightarrow> ledger_file \<Rightarrow> bool) \<Rightarrow> bool" where
  "hrun ok P m Q E \<longleftrightarrow> (\<forall>w. holds_in ok P w \<longrightarrow>
     (case m w of (Inr x, w') \<Rightarrow> holds_in ok (Q x) w' | (Inl _, w') \<Rightarrow> holds_in ok E w'))"

lemma hrunI:
  assumes "\<And>w x w'. holds_in ok P w \<Longrightarrow> m w = (Inr x, w') \<Longrightarrow> holds_in ok (Q x) w'"
    and "\<And>w e w'. holds_in ok P w \<Longrightarrow> m w = (Inl e, w') \<Longrightarrow> holds_in ok E w'"
  shows "hrun ok P m Q E"
  using assms by (simp add: hrun_def split: prod.splits sum.splits)

lemma hrunD: "hrun ok P m Q E \<Longrightarrow> holds_in ok P w \<Longrightarrow> m w = (Inr x, w') \<Longrightarrow> holds_in ok (Q x) w'"
  by (simp add: hrun_def) (drule spec [of _ w], simp)

lemma hrunE: "hrun ok P m Q E \<Longrightarrow> holds_in ok P w \<Longrightarrow> m w = (Inl e, w') \<Longrightarrow> holds_in ok E w'"
  by (simp add: hrun_def) (drule spec [of _ w], simp)

lemma holds_in_mono: "holds_in ok P w \<Longrightarrow> (\<And>fs h. P fs h \<Longrightarrow> Q fs h) \<Longrightarrow> holds_in ok Q w"
  by (simp add: holds_in_def)

lemma hrun_conseq:
  assumes "hrun ok P' m Q' E'" and "\<And>fs h. P fs h \<Longrightarrow> P' fs h" and "\<And>x fs h. Q' x fs h \<Longrightarrow> Q x fs h"
    and "\<And>fs h. E' fs h \<Longrightarrow> E fs h"
  shows "hrun ok P m Q E"
proof (rule hrunI)
  fix w x w' assume w: "holds_in ok P w" "m w = (Inr x, w')"
  show "holds_in ok (Q x) w'"
    by (rule holds_in_mono [OF hrunD [OF assms(1) holds_in_mono [OF w(1) assms(2)] w(2)] assms(3)])
next
  fix w e w' assume w: "holds_in ok P w" "m w = (Inl e, w')"
  show "holds_in ok E w'"
    by (rule holds_in_mono [OF hrunE [OF assms(1) holds_in_mono [OF w(1) assms(2)] w(2)] assms(4)])
qed

lemma hrun_bind:
  assumes "hrun ok P m R E" and "\<And>x. hrun ok (R x) (f x) Q E"
  shows "hrun ok P (bindA m f) Q E"
proof (rule hrunI)
  fix w y w' assume w: "holds_in ok P w" "bindA m f w = (Inr y, w')"
  then obtain x v where "m w = (Inr x, v)" "f x v = (Inr y, w')"
    by (auto simp: bindA_def split: prod.splits sum.splits)
  then show "holds_in ok (Q y) w'" using hrunD [OF assms(1) w(1)] hrunD [OF assms(2)] by blast
next
  fix w e w' assume w: "holds_in ok P w" "bindA m f w = (Inl e, w')"
  then consider "m w = (Inl e, w')" | x v where "m w = (Inr x, v)" "f x v = (Inl e, w')"
    by (auto simp: bindA_def split: prod.splits sum.splits)
  then show "holds_in ok E w'"
    by cases (use hrunE [OF assms(1) w(1)] hrunD [OF assms(1) w(1)] hrunE [OF assms(2)] in blast)+
qed

lemma hrun_return: "(\<And>fs h. P fs h \<Longrightarrow> Q x fs h) \<Longrightarrow> hrun ok P (returnA x) Q E"
  by (simp add: hrun_def returnA_def holds_in_def)

lemma hrun_split:
  assumes "hrun ok P m Q E" and "hrun ok P' m Q E"
  shows "hrun ok (\<lambda>fs h. P fs h \<or> P' fs h) m Q E"
  using assms by (auto simp: hrun_def holds_in_def)

text \<open>An action that leaves every history as it is.\<close>

lemma hrun_run:
  assumes "\<And>h. run ok h A m Q E"
  shows "hrun ok (\<lambda>fs h. A fs \<and> C h) m (\<lambda>x fs h. Q x fs \<and> C h) (\<lambda>fs h. E fs \<and> C h)"
proof (rule hrunI)
  fix w x w' assume w: "holds_in ok (\<lambda>fs h. A fs \<and> C h) w" "m w = (Inr x, w')"
  have "during ok (w_history w) A w" using w(1) by (simp add: holds_in_def during_def)
  from runD [OF assms this w(2)] show "holds_in ok (\<lambda>fs h. Q x fs \<and> C h) w'"
    using w(1) by (simp add: holds_in_def during_def)
next
  fix w e w' assume w: "holds_in ok (\<lambda>fs h. A fs \<and> C h) w" "m w = (Inl e, w')"
  have "during ok (w_history w) A w" using w(1) by (simp add: holds_in_def during_def)
  from runE [OF assms this w(2)] show "holds_in ok (\<lambda>fs h. E fs \<and> C h) w'"
    using w(1) by (simp add: holds_in_def during_def)
qed

subsection \<open>The history of a transaction\<close>

definition bound_record :: "manifest \<Rightarrow> hist_record option" where
  "bound_record m = Option.bind (mf_Record m) (record_decode False)"

definition bound_line :: "manifest \<Rightarrow> string" where
  "bound_line m = (case bound_record m of None \<Rightarrow> [] | Some r \<Rightarrow> json_bytes (record_json r) @ [newline])"

definition readable :: "ledger_file \<Rightarrow> bool" where
  "readable h \<longleftrightarrow> (case h of NoFile \<Rightarrow> True | Bytes _ \<Rightarrow> True | _ \<Rightarrow> False)"

definition unrecorded :: "ledger_file \<Rightarrow> ledger_file \<Rightarrow> bool" where
  "unrecorded h h' \<longleftrightarrow> readable h' \<and> bytes_of h' = bytes_of h"

definition recorded :: "manifest \<Rightarrow> ledger_file \<Rightarrow> ledger_file \<Rightarrow> bool" where
  "recorded m h h' \<longleftrightarrow> readable h' \<and> bytes_of h' = bytes_of h @ bound_line m"

definition cut_off :: "manifest \<Rightarrow> ledger_file \<Rightarrow> ledger_file \<Rightarrow> bool" where
  "cut_off m h h' \<longleftrightarrow> readable h' \<and>
     (\<exists>k. 0 < k \<and> k < length (bound_line m) \<and> bytes_of h' = bytes_of h @ take k (bound_line m))"

text \<open>Whether the record may be cut off is a parameter: without faults it is not when it was not before.\<close>

definition possible :: "manifest \<Rightarrow> ledger_file \<Rightarrow> bool \<Rightarrow> ledger_file \<Rightarrow> bool" where
  "possible m h c h' \<longleftrightarrow> unrecorded h h' \<or> recorded m h h' \<or> c \<and> cut_off m h h'"

text \<open>What is asked of the history before: it ends with a complete line, and it can take the record when the
  transaction has one.\<close>

definition recordable :: "owner \<Rightarrow> ledger_file \<Rightarrow> manifest \<Rightarrow> bool" where
  "recordable o' h m \<longleftrightarrow> readable h \<and> (bytes_of h = [] \<or> last (bytes_of h) = newline) \<and>
     (case mf_Record m of None \<Rightarrow> True
     | Some v \<Rightarrow> (case record_decode False v of None \<Rightarrow> False
        | Some r \<Rightarrow> record_Validate r = Inr () \<and> rc_Family r = FamilyHistory \<and> encodable r \<and>
            path_base (History o') = ''history.jsonl'' \<and>
            append_check (History o') FamilyHistory h r = Inr ()))"

lemma readable_Replay: "readable h \<Longrightarrow> Replay h path family = replay (bytes_of h) path family"
  by (cases h) (auto simp: readable_def Replay_def bytes_of_def replay_def)

lemma readable_append_check:
  assumes "readable h" and "readable h'" and "bytes_of h' = bytes_of h"
  shows "append_check path family h' r = append_check path family h r"
  using assms by (simp add: append_check_def readable_Replay)

lemma bytes_of_simps [simp]: "bytes_of (Bytes raw) = raw" "readable (Bytes raw)"
  by (simp_all add: bytes_of_def readable_def)

lemma recordable_line:
  assumes "recordable o' h m" and "bound_record m = Some r"
  obtains rs where "replay (bytes_of h) (History o') FamilyHistory = Inr (rs, [])"
    and "ledger_ok FamilyHistory (rs @ [r])" and "record_Validate r = Inr ()" and "rc_Family r = FamilyHistory"
    and "encodable r" and "path_base (History o') = ''history.jsonl''"
    and "append_check (History o') FamilyHistory h r = Inr ()"
    and "replay (bytes_of h @ bound_line m) (History o') FamilyHistory = Inr (rs @ [r], [])"
proof -
  have f: "readable h" "record_Validate r = Inr ()" "rc_Family r = FamilyHistory" "encodable r"
    "path_base (History o') = ''history.jsonl''" "append_check (History o') FamilyHistory h r = Inr ()"
    using assms by (auto simp: recordable_def bound_record_def split: option.splits)
  obtain rs where rs: "Replay h (History o') FamilyHistory = Inr (rs, [])" "rc_ID r \<notin> rc_ID ` set rs"
    "case (rc_Expected r, last_revision (rc_Change r) rs) of (Some e, Some w) \<Rightarrow> e = w | _ \<Rightarrow> True"
    by (rule append_check_Inr [OF f(6)])
  have raw: "replay (bytes_of h) (History o') FamilyHistory = Inr (rs, [])"
    using rs(1) readable_Replay [OF f(1)] by simp
  have ok: "ledger_ok FamilyHistory (rs @ [r])"
    using ledger_ok_snoc [OF replay_ledger_ok [OF raw] f(2,3)] rs(2,3) by blast
  have "line_of (json_bytes (record_json r)) r"
    using decodeStrict_line [OF f(2,4)] record_line_shape(2) [OF f(4)] by (simp add: line_of_def)
  then have "replay (bytes_of h @ bound_line m) (History o') FamilyHistory = Inr (rs @ [r], [])"
    using replay_append_line [OF raw _ record_line_shape(1) [OF f(4)] ok] assms(2) by (simp add: bound_line_def)
  then show thesis using that raw ok f by blast
qed

lemma cut_off_torn:
  assumes "recordable o' h m" and "cut_off m h h'"
  obtains r where "bound_record m = Some r" and "append_check (History o') FamilyHistory h' r \<noteq> Inr ()"
    and "\<And>rs. Replay h' path FamilyHistory \<noteq> Inr (rs, [])"
    and "\<And>e. append_check (History o') FamilyHistory h' r = Inl e \<Longrightarrow> \<not> IsCode e ''record-duplicate''"
proof -
  obtain k where k: "readable h'" "0 < k" "k < length (bound_line m)" "bytes_of h' = bytes_of h @ take k (bound_line m)"
    using assms(2) by (auto simp: cut_off_def)
  then obtain r where r: "bound_record m = Some r" by (cases "bound_record m") (auto simp: bound_line_def)
  obtain rs where f: "replay (bytes_of h) (History o') FamilyHistory = Inr (rs, [])"
    "ledger_ok FamilyHistory (rs @ [r])" "encodable r"
    using recordable_line [OF assms(1) r] by metis
  have line: "bound_line m = json_bytes (record_json r) @ [newline]" using r by (simp add: bound_line_def)
  have "last (take k (bound_line m)) \<noteq> newline"
  proof -
    have "take k (bound_line m) = take k (json_bytes (record_json r))" using k(3) line by simp
    moreover have "take k (json_bytes (record_json r)) \<noteq> []" using k(2,3) line by auto
    ultimately have "last (take k (bound_line m)) \<in> set (json_bytes (record_json r))"
      using in_set_takeD last_in_set by metis
    then show ?thesis using record_line_shape(1) [OF f(3)] by auto
  qed
  then have torn: "bytes_of h' \<noteq> []" "last (bytes_of h') \<noteq> newline"
    using k by (auto simp: last_append)
  have no: "Replay h' p FamilyHistory \<noteq> Inr (xs, [])" for p xs
    using replay_no_diag [of "bytes_of h'" p FamilyHistory xs] torn readable_Replay [OF k(1)] by auto
  have dup: "\<not> IsCode e ''record-duplicate''" if "append_check (History o') FamilyHistory h' r = Inl e" for e
    using append_cut [OF f k(4) [unfolded line]] no [of "History o'"] that readable_Replay [OF k(1)]
    by (auto simp: append_check_def record_refusal_def torn_tail_def)
  have "append_check (History o') FamilyHistory h' r \<noteq> Inr ()"
    using no by (auto elim!: append_check_Inr)
  then show thesis using that r no dup by blast
qed

subsection \<open>Appending the bound record\<close>

lemma append_unrecorded:
  assumes "recordable o' h m" and "bound_record m = Some r" and "unrecorded h (w_history w)"
    and root: "map_of (w_fs w) [] = Some NDir"
  shows "w_faults w (w_step w) = Fine \<Longrightarrow> \<exists>w'. Transaction.append_history o' r w = (Inr (), w') \<and>
      w_fs w' = w_fs w \<and> w_faults w' = w_faults w \<and> recorded m h (w_history w')"
    and "w_faults w (w_step w) = Fails n e \<Longrightarrow> \<exists>e' w'. Transaction.append_history o' r w = (Inl e', w') \<and>
      \<not> IsCode e' ''record-duplicate'' \<and>
      w_fs w' = w_fs w \<and> w_faults w' = w_faults w \<and> possible m h True (w_history w')"
proof -
  obtain rs where f: "record_Validate r = Inr ()" "rc_Family r = FamilyHistory"
    "path_base (History o') = ''history.jsonl''" "append_check (History o') FamilyHistory h r = Inr ()"
    using recordable_line [OF assms(1,2)] by metis
  have h: "readable h" "readable (w_history w)" "bytes_of (w_history w) = bytes_of h"
    using assms(1,3) by (auto simp: recordable_def unrecorded_def)
  have line: "bound_line m = json_bytes (record_json r) @ [newline]" using assms(2) by (simp add: bound_line_def)
  have "append_check (History o') FamilyHistory (w_history w) r = Inr ()"
    using readable_append_check [OF h] f(4) by simp
  then have under: "AppendUnderLock os out (history_parent (w_fs w)) (History o') FamilyHistory (w_history w) r =
      write_line os out (History o') (w_history w) (bound_line m)" for os out
    using f(1-3) h(2) root line
    by (cases "w_history w") (simp_all add: AppendUnderLock_def appendLocked_def validatePath_def history_parent_def
        lstat_def FamilyHistory_def readable_def)
  show "\<exists>w'. Transaction.append_history o' r w = (Inr (), w') \<and> w_fs w' = w_fs w \<and> w_faults w' = w_faults w \<and>
      recorded m h (w_history w')" if "w_faults w (w_step w) = Fine"
    using that h(3) by (simp add: Transaction.append_history_def under write_line_def append_os_def os_ok_def Let_def
        recorded_def split: fault.splits)
  assume fail: "w_faults w (w_step w) = Fails n e"
  have cut: "possible m h True (Bytes (bytes_of h @ take n (bound_line m)))"
  proof (cases "n = 0 \<or> length (bound_line m) \<le> n")
    case True
    then show ?thesis by (auto simp: possible_def unrecorded_def recorded_def)
  next
    case False
    then show ?thesis by (auto simp: possible_def cut_off_def)
  qed
  have kept: "possible m h True (Bytes (bytes_of h))" by (simp add: possible_def unrecorded_def)
  show "\<exists>e' w'. Transaction.append_history o' r w = (Inl e', w') \<and> \<not> IsCode e' ''record-duplicate'' \<and>
      w_fs w' = w_fs w \<and> w_faults w' = w_faults w \<and> possible m h True (w_history w')"
    using fail h(3) cut kept
    by (auto simp: Transaction.append_history_def under write_line_def append_os_def os_ok_def Let_def
        record_refusal_def IsCode_def refuse_def failure_New_def split: fault.splits)
qed

lemma append_refused:
  assumes "recordable o' h m" and "bound_record m = Some r" and "readable (w_history w)"
    and root: "map_of (w_fs w) [] = Some NDir" and no: "append_check (History o') FamilyHistory (w_history w) r = Inl e"
  shows "\<exists>w'. Transaction.append_history o' r w = (Inl e, w') \<and> w_fs w' = w_fs w \<and> w_faults w' = w_faults w \<and>
      w_history w' = w_history w"
proof -
  obtain rs where f: "record_Validate r = Inr ()" "rc_Family r = FamilyHistory"
    "path_base (History o') = ''history.jsonl''"
    using recordable_line [OF assms(1,2)] by metis
  have "AppendUnderLock os out (history_parent (w_fs w)) (History o') FamilyHistory (w_history w) r = (Inl e, w_history w)"
    for os out
    using f assms(3) root no
    by (cases "w_history w") (simp_all add: AppendUnderLock_def appendLocked_def validatePath_def history_parent_def
        lstat_def FamilyHistory_def readable_def)
  then show ?thesis by (simp add: Transaction.append_history_def Let_def)
qed

lemma recorded_duplicate:
  assumes "recordable o' h m" and "bound_record m = Some r" and "recorded m h h'"
  shows "\<exists>e. append_check (History o') FamilyHistory h' r = Inl e \<and> IsCode e ''record-duplicate''"
proof -
  obtain rs where "replay (bytes_of h @ bound_line m) (History o') FamilyHistory = Inr (rs @ [r], [])"
    using recordable_line [OF assms(1,2)] by metis
  then show ?thesis
    using assms(3) readable_Replay [of h'] by (simp add: append_check_def recorded_def record_refusal_def IsCode_def
        refuse_def failure_New_def)
qed

lemma hrun_append:
  assumes "recordable o' h m" and "sound_faults ok" and c: "may_fail ok \<Longrightarrow> c" and root: "\<And>fs. A fs \<Longrightarrow> map_of fs [] = Some NDir"
  shows "hrun ok (\<lambda>fs h'. A fs \<and> possible m h c h') (appendBoundRecord o' m) (\<lambda>_ fs h'. A fs \<and> recorded m h h')
    (\<lambda>fs h'. A fs \<and> possible m h c h' \<and> (may_fail ok \<or> c))"
  unfolding hrun_def
proof (intro allI impI)
  fix w assume w: "holds_in ok (\<lambda>fs h'. A fs \<and> possible m h c h') w"
  have d: "\<And>n. ok (w_faults w n)" "A (w_fs w)" "possible m h c (w_history w)" using w by (auto simp: holds_in_def)
  let ?goal = "case appendBoundRecord o' m w of
      (Inr x, w') \<Rightarrow> holds_in ok (\<lambda>fs h'. A fs \<and> recorded m h h') w'
    | (Inl _, w') \<Rightarrow> holds_in ok (\<lambda>fs h'. A fs \<and> possible m h c h' \<and> (may_fail ok \<or> c)) w'"
  show ?goal
  proof (cases "bound_record m")
    case None
    then have "mf_Record m = None" using assms(1) by (auto simp: recordable_def bound_record_def split: option.splits)
    moreover have "recorded m h (w_history w)"
      using d(3) None by (auto simp: possible_def unrecorded_def recorded_def cut_off_def bound_line_def)
    ultimately show ?thesis using d by (simp add: appendBoundRecord_def returnA_def holds_in_def)
  next
    case (Some r)
    then obtain v where v: "mf_Record m = Some v" "record_decode False v = Some r"
      by (cases "mf_Record m") (auto simp: bound_record_def)
    note def = appendBoundRecord_def v
    have rd: "readable (w_history w)" using d(3) by (auto simp: possible_def unrecorded_def recorded_def cut_off_def)
    consider "unrecorded h (w_history w)" | "recorded m h (w_history w)" | "cut_off m h (w_history w)" "c"
      using d(3) by (auto simp: possible_def)
    then show ?thesis
    proof cases
      case 1
      note u = append_unrecorded [OF assms(1) Some 1 root [OF d(2)]]
      show ?thesis
      proof (cases "w_faults w (w_step w)")
        case Fine
        then show ?thesis using u(1) d by (auto simp: def holds_in_def)
      next
        case (Fails n e)
        then have "may_fail ok" using d(1) [of "w_step w"] by (auto simp: may_fail_def)
        then have c using c by blast
        then show ?thesis using u(2) [OF Fails] d by (auto simp: def holds_in_def)
      next
        case (Late e)
        then show ?thesis using d(1) [of "w_step w"] assms(2) by (simp add: sound_faults_def)
      qed
    next
      case 2
      then obtain e where e: "append_check (History o') FamilyHistory (w_history w) r = Inl e" "IsCode e ''record-duplicate''"
        using recorded_duplicate [OF assms(1) Some] by blast
      show ?thesis using append_refused [OF assms(1) Some rd root [OF d(2)] e(1)] e(2) d 2 by (auto simp: def holds_in_def)
    next
      case 3
      note cut = 3(2)
      obtain r' where t: "bound_record m = Some r'" "append_check (History o') FamilyHistory (w_history w) r' \<noteq> Inr ()"
        "\<And>e. append_check (History o') FamilyHistory (w_history w) r' = Inl e \<Longrightarrow> \<not> IsCode e ''record-duplicate''"
        using cut_off_torn [OF assms(1) 3(1)] by metis
      then obtain e where e: "append_check (History o') FamilyHistory (w_history w) r = Inl e" "\<not> IsCode e ''record-duplicate''"
        using Some by (cases "append_check (History o') FamilyHistory (w_history w) r") auto
      show ?thesis using append_refused [OF assms(1) Some rd root [OF d(2)] e(1)] e(2) d 3 cut by (auto simp: def holds_in_def)
    qed
  qed
qed

end
