(* ===== verification/Commits.thy ===== *)
theory Commits
  imports LedgerRuns
begin

text \<open>
  Committing and recovering a whole transaction, with its bound record: every step, failing or not, keeps
  the tree and the history in one of the phases (uncommitted and unrecorded; committed, with the record not
  there, cut off or there; applied and recorded), and recovery without faults ends in the old or in the new
  state unless the record is cut off.
\<close>

subsection \<open>Applying a committed manifest\<close>

definition in_state :: "fs \<Rightarrow> manifest \<Rightarrow> ledger_file \<Rightarrow> bool \<Rightarrow> fs \<Rightarrow> ledger_file \<Rightarrow> bool" where
  "in_state base m h c fs h' \<longleftrightarrow> uncommitted base m fs \<and> unrecorded h h' \<or> committed base m fs \<and> possible m h c h' \<or>
     settled base m fs \<and> map_of fs (journal_of (mf_ID m)) = None \<and> recorded m h h'"

definition over :: "fs \<Rightarrow> manifest \<Rightarrow> (fault \<Rightarrow> bool) \<Rightarrow> fs \<Rightarrow> bool" where
  "over base m ok fs \<longleftrightarrow> settled base m fs \<and> no_stage m fs \<and> (may_fail ok \<or> map_of fs (journal_of (mf_ID m)) = None)"

lemma recorded_possible: "recorded m h h' \<Longrightarrow> possible m h c h'"
  by (simp add: possible_def)

lemma settled_state: "settled base m fs \<Longrightarrow> recorded m h h' \<Longrightarrow> in_state base m h c fs h'"
  using committed_settled(2) recorded_possible by (auto simp: in_state_def settled_def)

text \<open>What an error leaves: a state of the transaction, and a reason for it.\<close>

definition stopped :: "fs \<Rightarrow> manifest \<Rightarrow> ledger_file \<Rightarrow> bool \<Rightarrow> bool \<Rightarrow> fs \<Rightarrow> ledger_file \<Rightarrow> bool" where
  "stopped base m h c excuse fs h' \<longleftrightarrow> in_state base m h c fs h' \<and> (excuse \<or> c)"

lemma stopped_never [simp]: "stopped base m h False False = (\<lambda>_ _. False)"
  by (simp add: stopped_def fun_eq_iff)

lemma run_cleanup:
  assumes "startable base rq m" and "sound_faults ok"
  shows "run ok h (\<lambda>fs. settled base m fs \<and> journaled m fs)
    (bindA (callA hk ''before-cleanup'' p) (\<lambda>_. bindA (removeDurable o' (journal_of (mf_ID m))) (\<lambda>_.
     bindA (wrapA f (os_RemoveAll (stage_of (mf_ID m)))) (\<lambda>_. syncDir o' []))))
    (\<lambda>_. over base m ok) (\<lambda>fs. settled base m fs \<and> excused ok hk)"
proof -
  let ?E = "\<lambda>fs. settled base m fs \<and> excused ok hk" and ?J = "journal_of (mf_ID m)"
  let ?s = "\<lambda>fs. settled base m fs \<and> (may_fail ok \<or> map_of fs ?J = None)"
  have journal: "run ok h (\<lambda>fs. settled base m fs \<and> journaled m fs) (removeDurable o' ?J) (\<lambda>_. ?s) ?E"
    by (rule run_conseq [OF run_remove_journal [OF assms, of h o']]) (auto simp: excused_def)
  have stage: "run ok h ?s (os_RemoveAll (stage_of (mf_ID m))) (\<lambda>_. over base m ok) ?E"
  proof (rule run_conseq [OF run_remove_stage [OF assms(2), of ?s m h]])
    fix fs fs'
    assume "?s fs" "stage_ok m fs'" "\<And>p. \<not> under p (stage_of (mf_ID m)) \<Longrightarrow> map_of fs' p = map_of fs p"
    then show "?s fs'"
      using settled_remove [OF assms(1), of fs fs'] startable_names(1) [OF assms(1)] by simp
  qed (auto simp: over_def excused_def settled_def)
  have sync: "run ok h (over base m ok) (syncDir o' []) (\<lambda>_. over base m ok) ?E"
    by (rule run_sync [OF assms(2)]) (auto simp: over_def excused_def)
  have call: "run ok h (\<lambda>fs. settled base m fs \<and> journaled m fs) (callA hk ''before-cleanup'' p)
      (\<lambda>_ fs. settled base m fs \<and> journaled m fs) ?E"
    by (rule run_call) auto
  show ?thesis
    by (rule run_bind [OF call] run_bind [OF journal] run_bind [OF run_wrap [OF stage]] sync)+
qed

lemma hrun_apply_manifest:
  assumes "startable base rq m" and "checked o' base m" and "sound_faults ok" and "recordable o' h m" and c: "may_fail ok \<Longrightarrow> c"
  shows "hrun ok (\<lambda>fs h'. committed base m fs \<and> possible m h c h') (apply_manifest o' m hk)
    (\<lambda>_ fs h'. over base m ok fs \<and> recorded m h h') (stopped base m h c (excused ok hk))"
proof -
  let ?E = "stopped base m h c (excused ok hk)" and ?A = "\<lambda>fs. settled base m fs \<and> journaled m fs"
  have outs: "hrun ok (\<lambda>fs h'. committed base m fs \<and> possible m h c h') (apply_outputs o' m hk 0 (mf_Outputs m))
      (\<lambda>_ fs h'. ?A fs \<and> possible m h c h') ?E"
    by (rule hrun_conseq [OF hrun_run [OF run_apply_outputs [OF assms(1-3), of 0 _ hk, simplified], of "possible m h c"]])
       (auto simp: upto_done_def [of base m 0] committed_settled(1) stopped_def in_state_def)
  have append: "hrun ok (\<lambda>fs h'. ?A fs \<and> possible m h c h') (appendBoundRecord o' m) (\<lambda>_ fs h'. ?A fs \<and> recorded m h h') ?E"
    by (rule hrun_conseq [OF hrun_append [OF assms(4,3) c, of ?A]])
       (use frame_root [OF assms(1)] committed_settled(2) in \<open>auto simp: settled_def stopped_def in_state_def excused_def\<close>)
  have clean: "hrun ok (\<lambda>fs h'. ?A fs \<and> recorded m h h')
      (bindA (callA hk ''before-cleanup'' p) (\<lambda>_. bindA (removeDurable o' (journal_of (mf_ID m))) (\<lambda>_.
       bindA (wrapA f (os_RemoveAll (stage_of (mf_ID m)))) (\<lambda>_. syncDir o' []))))
      (\<lambda>_ fs h'. over base m ok fs \<and> recorded m h h') ?E" for p f
    by (rule hrun_conseq [OF hrun_run [OF run_cleanup [OF assms(1,3)], of "recorded m h"]])
       (auto simp: stopped_def settled_state)
  have idle: "apply_moves o' hk (mf_Moves m) = returnA ()"
    using startable_facts(1) [OF assms(1)] by simp
  show ?thesis
    unfolding apply_manifest_def Let_def idle bindA_return
    by (rule hrun_bind [OF outs] hrun_bind [OF append] clean)+
qed

subsection \<open>Recovering\<close>

definition tidy :: "manifest \<Rightarrow> fs \<Rightarrow> bool" where
  "tidy m fs \<longleftrightarrow> map_of fs [] = Some NDir \<and> stage_ok m fs \<and>
     (map_of fs (journal_of (mf_ID m)) = None \<or> journaled m fs) \<and>
     (\<forall>p. has_prefix p txn_prefix \<longrightarrow> map_of fs p \<noteq> None \<longrightarrow> under p (stage_of (mf_ID m)) \<or> p = journal_of (mf_ID m))"

lemma frame_tidy:
  assumes "startable base rq m" and "frame base m fs" and "stage_ok m fs"
    and "map_of fs (journal_of (mf_ID m)) = None \<or> journaled m fs"
  shows "tidy m fs"
proof -
  have dot: "q \<notin> targets m" "q \<notin> target_dirs m" if "has_prefix q txn_prefix" for q
    using that startable_facts(9) [OF assms(1)] valid_no_dot
    by (fastforce simp: targets_def target_dirs_def has_prefix_iff txn_prefix_def)+
  have "under p (stage_of (mf_ID m)) \<or> p = journal_of (mf_ID m)"
    if p: "has_prefix p txn_prefix" "map_of fs p \<noteq> None" for p
    using assms(2) p startable_facts(8) [OF assms(1) p(1)] dot [OF p(1)] unfolding frame_def by metis
  then show ?thesis using assms(3,4) frame_root [OF assms(1,2)] by (simp add: tidy_def)
qed

lemma uncommitted_frame: "uncommitted base m fs \<Longrightarrow> frame base m fs"
  by (auto simp: uncommitted_def frame_def)

lemma inspect_filter:
  "inspect_entries o' fs now js ds names =
     inspect_entries o' fs now js ds (filter (\<lambda>n. has_prefix n txn_prefix) names)"
  by (induction names arbitrary: js ds) (auto split: sum.splits simp: bindE_def)

lemma subset_two: "A \<subseteq> {a, b} \<Longrightarrow> A = {} \<or> A = {a} \<or> A = {b} \<or> A = {a, b}"
  by (cases "a \<in> A"; cases "b \<in> A") auto

lemma distinct_two: "distinct xs \<Longrightarrow> set xs = {a, b} \<Longrightarrow> a \<noteq> b \<Longrightarrow> xs = [a, b] \<or> xs = [b, a]"
proof -
  assume d: "distinct xs" "set xs = {a, b}" "a \<noteq> b"
  then have "length xs = 2" using distinct_card [OF d(1)] by simp
  then obtain x y where "xs = [x, y]" by (auto simp: length_Suc_conv numeral_2_eq_2)
  then show ?thesis using d(2) by (auto simp: doubleton_eq_iff)
qed

lemma distinct_one: "distinct xs \<Longrightarrow> set xs = {a} \<Longrightarrow> xs = [a]"
  by (cases xs; cases "tl xs") auto

definition rollback_of :: "manifest \<Rightarrow> pending" where
  "rollback_of m = \<lparr>pd_ID = mf_ID m, pd_Action = ''rollback'', pd_Manifest = None\<rparr>"

definition forward_of :: "manifest \<Rightarrow> pending" where
  "forward_of m = \<lparr>pd_ID = mf_ID m, pd_Action = ''roll_forward'', pd_Manifest = Some m\<rparr>"

definition clock_ok :: "manifest \<Rightarrow> string \<Rightarrow> bool" where
  "clock_ok m now \<longleftrightarrow> (\<exists>u t. time_Parse (mf_Timestamp m) = Some (u, t) \<and> t \<le> instant now)"

lemma readManifest_journal:
  assumes "startable base rq m" and "journaled m fs" and "clock_ok m now"
  shows "readManifest o' fs (journal_of (mf_ID m)) now = Inr m"
  using assms startable_facts(3,14) [OF assms(1)] read_journal [OF startable_facts(5) [OF assms(1)]]
  by (auto simp: readManifest_def readStaged_def lstat_def journaled_def clock_ok_def Let_def)

text \<open>What inspection reports in each phase: exactly one action, or none.\<close>

lemma inspect_tidy:
  assumes "startable base rq m" and "tidy m fs" and "clock_ok m now"
  shows "inspectLocked o' fs now = Inr (if journaled m fs then [forward_of m]
     else if no_stage m fs then [] else [rollback_of m])"
proof -
  let ?S = "stage_of (mf_ID m)" and ?J = "journal_of (mf_ID m)"
  obtain b where b: "mf_ID m = hash b" using startable_names(7) [OF assms(1)] by blast
  note names = stage_names [OF b]
  have ph: "map_of fs [] = Some NDir" "stage_ok m fs" "map_of fs ?J = None \<or> journaled m fs"
    "\<And>p. has_prefix p txn_prefix \<Longrightarrow> map_of fs p \<noteq> None \<Longrightarrow> under p ?S \<or> p = ?J"
    using assms(2) by (auto simp: tidy_def)
  define T where "T = filter (\<lambda>n. has_prefix n txn_prefix) (dir_names fs [])"
  have "distinct T" by (simp add: T_def distinct_dir_names)
  have S: "?S \<in> set T \<longleftrightarrow> \<not> no_stage m fs" "map_of fs ?S = None \<or> map_of fs ?S = Some NDir"
    using ph(2) names(1,7,10) stagedPath_simps(4) [of ?S]
    by (auto simp: T_def set_dir_names_root stage_ok_def no_stage_def simp del: stagedPath_simps)
  have J: "?J \<in> set T \<longleftrightarrow> journaled m fs"
    using ph(3) names(2,8,11) by (auto simp: T_def set_dir_names_root journaled_def)
  have only: "set T \<subseteq> {?S, ?J}"
  proof
    fix p assume "p \<in> set T"
    then have "has_prefix p txn_prefix" "map_of fs p \<noteq> None" "CHR ''/'' \<notin> set p"
      by (auto simp: T_def set_dir_names_root)
    with ph(4) [of p] show "p \<in> {?S, ?J}" by (auto simp: under_trans_prefix)
  qed
  have root: "lstat fs [] = Found NDir" using ph(1) by (simp add: lstat_def)
  note entry = names(3,4,6,7,8,9) readManifest_journal [OF assms(1) _ assms(3)] S J journaled_def
  have insp: "inspectLocked o' fs now = bindE (inspect_entries o' fs now [] [] T) (\<lambda>(journals, dirs).
       let forward = map (\<lambda>(i, m). \<lparr>pd_ID = i, pd_Action = ''roll_forward'', pd_Manifest = Some m\<rparr>) journals;
           back = map (\<lambda>i. \<lparr>pd_ID = i, pd_Action = ''rollback'', pd_Manifest = None\<rparr>)
             (filter (\<lambda>i. map_of journals i = None) (remdups dirs))
       in Inr (sort_key pd_ID (forward @ back)))"
    unfolding inspectLocked_def root T_def by (subst inspect_filter) simp
  consider "set T = {}" | "set T = {?S}" | "set T = {?J}" | "set T = {?S, ?J}"
    using subset_two [OF only] by metis
  then show ?thesis
  proof cases
    case 1
    then show ?thesis unfolding insp using S(1) J by simp
  next
    case 2
    then have "T = [?S]" by (rule distinct_one [OF \<open>distinct T\<close>])
    moreover have "\<not> journaled m fs" "\<not> no_stage m fs" using 2 S(1) J names(6) by auto
    moreover have "map_of fs ?S = Some NDir"
      using \<open>\<not> no_stage m fs\<close> ph(2) by (simp add: stage_ok_def)
    ultimately show ?thesis unfolding insp using names by (simp add: rollback_of_def)
  next
    case 3
    then have "T = [?J]" by (rule distinct_one [OF \<open>distinct T\<close>])
    moreover have "journaled m fs" using 3 J by auto
    ultimately show ?thesis unfolding insp using names readManifest_journal [OF assms(1) _ assms(3), of fs o']
      by (simp add: forward_of_def journaled_def)
  next
    case 4
    then have T: "T = [?S, ?J] \<or> T = [?J, ?S]" by (rule distinct_two [OF \<open>distinct T\<close> _ names(6)])
    have j: "journaled m fs" using 4 J by auto
    have "map_of fs ?S = Some NDir" using 4 S ph(2) by (auto simp: stage_ok_def no_stage_def)
    then show ?thesis unfolding insp using T j names readManifest_journal [OF assms(1) j assms(3), of o']
      by (auto simp: forward_of_def journaled_def)
  qed
qed

lemma uncommitted_no_stage:
  assumes "startable base rq m" and "uncommitted base m fs" and "no_stage m fs"
  shows "old_tree base m fs"
proof -
  have "map_of fs p = map_of base p" for p
    using assms(2,3) startable_names(6) [OF assms(1), of p]
    by (cases "under p (stage_of (mf_ID m))") (auto simp: uncommitted_def no_stage_def)
  then show ?thesis by (auto simp: old_tree_def)
qed

lemma old_tree_phase: "startable base rq m \<Longrightarrow> old_tree base m fs \<Longrightarrow> uncommitted base m fs \<and> no_stage m fs"
  using startable_names(6) by (auto simp: old_tree_def uncommitted_def stage_ok_def no_stage_def)

lemma uncommitted_remove:
  assumes "uncommitted base m fs" and "stage_ok m fs'"
    and "\<And>p. \<not> under p (stage_of (mf_ID m)) \<Longrightarrow> map_of fs' p = map_of fs p"
  shows "uncommitted base m fs'"
  using assms by (auto simp: uncommitted_def)

text \<open>Recovery, whatever fails in it, stays within the states; without a fault it ends in the old or in
  the new state, unless the record is cut off.\<close>

definition ended :: "fs \<Rightarrow> manifest \<Rightarrow> ledger_file \<Rightarrow> (fault \<Rightarrow> bool) \<Rightarrow> fs \<Rightarrow> ledger_file \<Rightarrow> bool" where
  "ended base m h ok fs h' \<longleftrightarrow> old_tree base m fs \<and> unrecorded h h' \<or> over base m ok fs \<and> recorded m h h'"

lemma hrun_recover_forward:
  assumes "startable base rq m" and "checked o' base m" and "sound_faults ok" and "clock_ok m now"
    and "recordable o' h m" and c: "may_fail ok \<Longrightarrow> c"
  shows "hrun ok (\<lambda>fs h'. committed base m fs \<and> possible m h c h') (recoverLocked o' now)
    (\<lambda>_. ended base m h ok) (stopped base m h c (may_fail ok))"
proof -
  let ?P = "\<lambda>fs h'. committed base m fs \<and> possible m h c h'"
  have forward: "hrun ok ?P (apply_manifest o' m None) (\<lambda>_. ended base m h ok) (stopped base m h c (may_fail ok))"
    by (rule hrun_conseq [OF hrun_apply_manifest [OF assms(1-3,5) c, of None]])
       (auto simp: excused_def ended_def stopped_def)
  have "hrun ok ?P (bindA (bindA (apply_manifest o' m None) (\<lambda>_. returnA ())) (\<lambda>_. returnA [forward_of m]))
      (\<lambda>_. ended base m h ok) (stopped base m h c (may_fail ok))"
    by (intro hrun_bind [OF hrun_bind [OF forward hrun_return] hrun_return]) auto
  moreover have "recoverLocked o' now w = bindA (bindA (apply_manifest o' m None) (\<lambda>_. returnA ()))
      (\<lambda>_. returnA [forward_of m]) w" if "committed base m (w_fs w)" for w
  proof -
    have "tidy m (w_fs w)" "journaled m (w_fs w)"
      using that frame_tidy [OF assms(1), of "w_fs w"] by (auto simp: committed_def)
    then have "inspectLocked o' (w_fs w) now = Inr [forward_of m]"
      using inspect_tidy [OF assms(1) _ assms(4)] by simp
    then show ?thesis by (simp add: recoverLocked_def bindA_def liftA_def forward_of_def)
  qed
  ultimately show ?thesis by (simp add: hrun_def holds_in_def)
qed

text \<open>Without a journal all that is left to do is to remove the stage.\<close>

lemma run_recover_back:
  assumes "startable base rq m" and "sound_faults ok" and "clock_ok m now"
    and B: "\<And>fs. B fs \<Longrightarrow> tidy m fs \<and> \<not> journaled m fs"
    and closed: "\<And>fs fs'. B fs \<Longrightarrow> stage_ok m fs' \<Longrightarrow>
      (\<And>p. \<not> under p (stage_of (mf_ID m)) \<Longrightarrow> map_of fs' p = map_of fs p) \<Longrightarrow> B fs'"
  shows "run ok h B (recoverLocked o' now) (\<lambda>_ fs. B fs \<and> no_stage m fs) (\<lambda>fs. B fs \<and> may_fail ok)"
  unfolding recoverLocked_def
proof (rule run_gets [where g = "\<lambda>fs. if no_stage m fs then [] else [rollback_of m]"])
  let ?Q = "\<lambda>_ fs. B fs \<and> no_stage m fs" and ?E = "\<lambda>fs. B fs \<and> may_fail ok"
  show "B fs \<Longrightarrow> inspectLocked o' fs now = Inr (if no_stage m fs then [] else [rollback_of m])" for fs
    using inspect_tidy [OF assms(1) _ assms(3)] B by simp
  have undo: "run ok h B (bindA (wrapA f (os_RemoveAll (stage_of (mf_ID m)))) (\<lambda>_. syncDir o' [])) ?Q ?E" for f
  proof (rule run_bind [OF run_wrap])
    show "run ok h B (os_RemoveAll (stage_of (mf_ID m))) ?Q ?E"
      by (rule run_remove_stage [OF assms(2) closed]) (use B in \<open>auto simp: tidy_def\<close>)
    show "run ok h (?Q u) (syncDir o' []) ?Q ?E" for u :: unit
      by (rule run_sync [OF assms(2)]) auto
  qed
  fix ps
  consider "ps = []" | "ps = [rollback_of m]" | "ps \<noteq> []" "ps \<noteq> [rollback_of m]" by blast
  then show "run ok h (\<lambda>fs. B fs \<and> (if no_stage m fs then [] else [rollback_of m]) = ps)
        (bindA (recover_items o' ps) (\<lambda>_. returnA ps)) ?Q ?E"
  proof cases
    case 1
    have "bindA (recover_items o' ps) (\<lambda>_. returnA ps) = returnA ps" by (simp add: 1 bindA_return)
    then show ?thesis using 1 by (auto intro!: run_return split: if_splits)
  next
    case 2
    then have "bindA (recover_items o' ps) (\<lambda>_. returnA ps) = bindA (bindA (bindA
        (wrapA (ioRefusal (abs_path o' (stage_of (mf_ID m)))) (os_RemoveAll (stage_of (mf_ID m))))
            (\<lambda>_. syncDir o' [])) (\<lambda>_. returnA ())) (\<lambda>_. returnA ps)"
      by (simp add: rollback_of_def)
    then show ?thesis
      by (simp, intro run_bind [OF run_bind [OF run_conseq [OF undo] run_return] run_return]) auto
  qed (auto simp: run_def during_def)
qed

lemma uncommitted_tidy:
  assumes "startable base rq m" and "uncommitted base m fs"
  shows "tidy m fs" and "\<not> journaled m fs"
proof -
  have none: "map_of fs (journal_of (mf_ID m)) = None"
    using assms startable_names(1,5) [OF assms(1)] by (auto simp: uncommitted_def)
  then show "\<not> journaled m fs" by (simp add: journaled_def)
  show "tidy m fs"
    using assms(2) none frame_tidy [OF assms(1) uncommitted_frame [OF assms(2)]] by (simp add: uncommitted_def)
qed

lemma settled_tidy:
  assumes "startable base rq m" and "settled base m fs"
  shows "tidy m fs"
  using assms(2) by (intro frame_tidy [OF assms(1)]) (auto simp: settled_def)

lemma hrun_recover:
  assumes "startable base rq m" and "checked o' base m" and "sound_faults ok" and "clock_ok m now"
    and "recordable o' h m" and c: "may_fail ok \<Longrightarrow> c"
  shows "hrun ok (in_state base m h c) (recoverLocked o' now) (\<lambda>_. ended base m h ok) (stopped base m h c (may_fail ok))"
proof -
  let ?R = "recoverLocked o' now" and ?Q = "\<lambda>_. ended base m h ok" and ?E = "stopped base m h c (may_fail ok)"
  let ?gone = "\<lambda>fs. settled base m fs \<and> map_of fs (journal_of (mf_ID m)) = None"
  have un: "hrun ok (\<lambda>fs h'. uncommitted base m fs \<and> unrecorded h h') ?R ?Q ?E"
    by (rule hrun_conseq [OF hrun_run [OF run_recover_back [OF assms(1,3,4), of "uncommitted base m"], of "unrecorded h"]])
       (use uncommitted_tidy [OF assms(1)] uncommitted_remove [of base m] uncommitted_no_stage [OF assms(1)]
        in \<open>auto simp: ended_def stopped_def in_state_def\<close>)
  have gone: "hrun ok (\<lambda>fs h'. ?gone fs \<and> recorded m h h') ?R ?Q ?E"
    by (rule hrun_conseq [OF hrun_run [OF run_recover_back [OF assms(1,3,4), of ?gone], of "recorded m h"]])
       (use settled_tidy [OF assms(1)] settled_remove [OF assms(1)] startable_names(1) [OF assms(1)]
        in \<open>auto simp: ended_def over_def stopped_def in_state_def journaled_def\<close>)
  show ?thesis
    by (rule hrun_conseq [OF hrun_split [OF un hrun_split [OF hrun_recover_forward [OF assms] gone]]])
       (auto simp: in_state_def)
qed

text \<open>With nothing pending, recovery does nothing.\<close>

lemma no_pending_recover:
  assumes "map_of fs [] = Some NDir" and "\<forall>p \<in> dom (map_of fs). \<not> has_prefix p txn_prefix" and "w_fs w = fs"
  shows "recoverLocked o' now w = (Inr [], w)"
proof -
  have "filter (\<lambda>n. has_prefix n txn_prefix) (dir_names fs []) = []"
    using assms(2) by (auto simp: filter_empty_conv set_dir_names_root)
  then have "inspect_entries o' fs now [] [] (dir_names fs []) = Inr ([], [])"
    by (subst inspect_filter) simp
  then have "inspectLocked o' fs now = Inr []"
    using assms(1) by (simp add: inspectLocked_def lstat_def)
  then show ?thesis
    using assms(3) by (simp add: recoverLocked_def bindA_def liftA_def returnA_def)
qed

subsection \<open>Committing\<close>

definition staging :: "fs \<Rightarrow> manifest \<Rightarrow> nat \<Rightarrow> fs \<Rightarrow> bool" where
  "staging base m i fs \<longleftrightarrow> uncommitted base m fs \<and> map_of fs (stage_of (mf_ID m)) = Some NDir \<and>
     (\<forall>j < i. staged m fs j) \<and>
     (\<forall>j. i \<le> j \<longrightarrow> map_of fs (stagedPath (stage_of (mf_ID m)) j) = None)"

lemma staging_phase: "staging base m i fs \<Longrightarrow> uncommitted base m fs"
  by (simp add: staging_def uncommitted_def)

lemma run_clear_stage:
  assumes "startable base rq m" and "sound_faults ok"
  shows "run ok h (old_tree base m) (os_RemoveAll (stage_of (mf_ID m))) (\<lambda>_. old_tree base m)
    (\<lambda>fs. uncommitted base m fs \<and> may_fail ok)"
proof (rule run_conseq [OF run_remove_stage [OF assms(2), of "uncommitted base m" m]])
  show "uncommitted base m fs \<and> no_stage m fs \<Longrightarrow> old_tree base m fs" for fs
    using uncommitted_no_stage [OF assms(1)] by blast
qed (use old_tree_phase [OF assms(1)] uncommitted_remove [of base m] in \<open>auto simp: uncommitted_def uncommitted_def\<close>)

lemma all_dirs_stage:
  assumes "startable base rq m"
  shows "all_dirs (stage_of (mf_ID m)) = [[], stage_of (mf_ID m)]"
    and "parent_of (stagedPath (stage_of (mf_ID m)) i) = stage_of (mf_ID m)"
    and "parent_of (journal_of (mf_ID m)) = []"
    and "parent_dirs (stagedPath (stage_of (mf_ID m)) i) = [[], stage_of (mf_ID m)]"
proof -
  obtain b where b: "mf_ID m = hash b" using startable_names(7) [OF assms] by blast
  have one: "path_prefixes s = [s]" if "CHR ''/'' \<notin> set s" for s
    using split_on_none [OF that] by (simp add: path_prefixes_def)
  show "all_dirs (stage_of (mf_ID m)) = [[], stage_of (mf_ID m)]"
    using stage_names(1,10) [OF b] one by (simp add: all_dirs_def)
  show "parent_of (journal_of (mf_ID m)) = []"
    using stage_names(2) [OF b] one by (simp add: parent_of_def parent_dirs_def)
  have "CHR ''/'' \<notin> set (four_digits i)"
    using show_nat_digits [of "CHR ''/''" i] by (auto simp: four_digits_def Let_def is_digit_def)
  then have "split_on CHR ''/'' (stagedPath (stage_of (mf_ID m)) i) = [stage_of (mf_ID m), four_digits i]"
    using stage_names(1) [OF b] by (simp add: stagedPath_def path_join_def split_on_append_sep split_on_none)
  then show "parent_dirs (stagedPath (stage_of (mf_ID m)) i) = [[], stage_of (mf_ID m)]"
    by (simp add: parent_dirs_def path_prefixes_def)
  then show "parent_of (stagedPath (stage_of (mf_ID m)) i) = stage_of (mf_ID m)"
    by (simp add: parent_of_def)
qed

lemma run_make_stage:
  assumes "startable base rq m" and "sound_faults ok"
  shows "run ok h (old_tree base m) (os_MkdirAll (stage_of (mf_ID m))) (\<lambda>_. staging base m 0)
    (\<lambda>fs. uncommitted base m fs \<and> may_fail ok)"
  unfolding os_MkdirAll_def make_dirs_def all_dirs_stage(1) [OF assms(1)]
proof (rule run_syscall [OF assms(2)])
  let ?S = "stage_of (mf_ID m)"
  fix fs assume old: "old_tree base m fs"
  have fs: "map_of fs [] = Some NDir" "map_of fs ?S = None" "\<And>p. under p ?S \<Longrightarrow> map_of fs p = None"
    using old startable_facts(7) [OF assms(1)] startable_names(6) [OF assms(1)] stagedPath_simps(4)
    by (auto simp: old_tree_def)
  have un: "uncommitted base m (mkdirs ds fs)" if "set ds \<subseteq> {[], ?S}" for ds
    using that old fs stagedPath_simps(4) [of ?S]
    by (auto simp: uncommitted_def old_tree_def stage_ok_def no_stage_def)
  have "staging base m 0 (mkdirs [[], ?S] fs)"
    using un [of "[[], ?S]"] fs(2) fs(3) [OF stagedPath_simps(2)] stagedPath_simps(3)
    by (auto simp: staging_def stagedPath_def path_join_def)
  then show "case if list_all (\<lambda>a. map_of fs a \<in> {None, Some NDir}) [[], ?S] then Inr (mkdirs [[], ?S] fs) else Inl not_dir of
      Inl _ \<Rightarrow> uncommitted base m fs \<and> may_fail ok | Inr fs' \<Rightarrow> staging base m 0 fs'"
    using fs by simp
  fix n assume "may_fail ok"
  moreover have "set (take n [[], ?S]) \<subseteq> {[], ?S}" using set_take_subset by fastforce
  ultimately show "uncommitted base m (if list_all (\<lambda>a. map_of fs a \<in> {None, Some NDir}) [[], ?S]
      then mkdirs (take n [[], ?S]) fs else fs) \<and> may_fail ok"
    using un fs by (simp add: uncommitted_def)
qed

lemma staged_write:
  assumes "startable base rq m" and "staging base m i fs"
  shows "uncommitted base m (AList.update (stagedPath (stage_of (mf_ID m)) i) n fs)"
    and "i < length (mf_Outputs m) \<Longrightarrow> staging base m (Suc i)
      (AList.update (stagedPath (stage_of (mf_ID m)) i)
        (NFile (staged_bytes (rq_Outputs rq) (ou_Path (mf_Outputs m ! i)))) fs)"
proof -
  let ?S = "stage_of (mf_ID m)"
  show un: "uncommitted base m (AList.update (stagedPath ?S i) n fs)" for n
    using assms(2) stagedPath_simps(2) [of ?S i] by (auto simp: staging_def uncommitted_def stage_ok_def)
  assume i: "i < length (mf_Outputs m)"
  let ?b = "staged_bytes (rq_Outputs rq) (ou_Path (mf_Outputs m ! i))"
  have "hash ?b = ou_After (mf_Outputs m ! i)" using startable_facts(10) [OF assms(1)] i by simp
  then show "staging base m (Suc i) (AList.update (stagedPath ?S i) (NFile ?b) fs)"
    using assms(2) un [of "NFile ?b"] by (auto simp: staging_def staged_def less_Suc_eq)
qed

lemma run_stage_outputs:
  assumes "startable base rq m" and "sound_faults ok" and "i \<le> length (mf_Outputs m)"
  shows "run ok h (staging base m i)
    (stage_outputs o' (rq_Outputs rq) (stage_of (mf_ID m)) i (drop i (mf_Outputs m)))
    (\<lambda>_. staging base m (length (mf_Outputs m))) (\<lambda>fs. uncommitted base m fs \<and> may_fail ok)"
  using assms(3)
proof (induction "length (mf_Outputs m) - i" arbitrary: i)
  case 0
  then show ?case by (auto intro!: run_return)
next
  case (Suc n)
  then have i: "i < length (mf_Outputs m)" by simp
  let ?E = "\<lambda>fs. uncommitted base m fs \<and> may_fail ok" and ?p = "stagedPath (stage_of (mf_ID m)) i"
  have one: "run ok h (staging base m i) (os_WriteNew ?p (staged_bytes (rq_Outputs rq) (ou_Path (mf_Outputs m ! i))))
      (\<lambda>_. staging base m (Suc i)) ?E"
    unfolding os_WriteNew_def
  proof (rule run_syscall [OF assms(2)], goal_cases)
    case (1 fs)
    then show ?case using staged_write(2) [OF assms(1) 1 i] all_dirs_stage(2) [OF assms(1)]
      by (simp add: staging_def)
  next
    case (2 fs k)
    then show ?case using staged_write(1) [OF assms(1) 2(1)] staging_phase by (auto simp: uncommitted_def)
  qed
  show ?case
    unfolding Cons_nth_drop_Suc [OF i, symmetric] stage_outputs.simps Let_def
    by (rule run_bind [OF run_wrap [OF one] Suc.hyps(1)]) (use Suc.hyps(2) i in auto)
qed

lemma run_atomic_write:
  assumes "sound_faults ok" and "\<And>fs. A fs \<Longrightarrow> map_of fs (parent_of p) = Some NDir \<and> map_of fs p = None"
    and "\<And>fs. A fs \<Longrightarrow> Q () (AList.update p (NFile data) fs)"
  shows "run ok h A (atomic_write p data) Q (\<lambda>fs. A fs \<and> may_fail ok)"
  unfolding run_def
proof (intro allI impI)
  fix w assume w: "during ok h A w"
  then have A: "map_of (w_fs w) (parent_of p) = Some NDir" "map_of (w_fs w) p = None"
    "Q () (AList.update p (NFile data) (w_fs w))" and f: "ok (w_faults w (w_step w))"
    using assms(2,3) by (auto simp: during_def)
  have same: "AList.delete p (w_fs w) = w_fs w"
    using A(2) by (intro AList.delete_id) (simp add: map_of_eq_None_iff)
  show "case atomic_write p data w of (Inr x, w') \<Rightarrow> during ok h (Q x) w' | (Inl _, w') \<Rightarrow> during ok h (\<lambda>fs. A fs \<and> may_fail ok) w'"
  proof (cases "w_faults w (w_step w)")
    case Fine
    then show ?thesis using A w by (simp add: atomic_write_def fault_os_def put_node_def during_def)
  next
    case (Fails n e)
    then have "AtomicReplace (fault_os (Fails n e)) None None (Some (NFile data)) =
        (Inl (Wrapped [Str ''write temporary state: ''] e), None)"
      by (simp add: AtomicReplace_def before_rename_def call_hook_def os_call_def fault_os_def os_ok_def)
    then show ?thesis using A w f Fails same
      by (auto simp: atomic_write_def put_node_def during_def may_fail_def)
  next
    case (Late e)
    then show ?thesis using f assms(1) by (simp add: sound_faults_def)
  qed
qed

lemma run_on_error:
  assumes "run ok h A m Q E1" and "run ok h E1 c (\<lambda>_. E) E"
  shows "run ok h A (on_errorA c m) Q E"
proof (rule runI)
  fix w x w' assume w: "during ok h A w" "on_errorA c m w = (Inr x, w')"
  then have "m w = (Inr x, w')" by (auto simp: on_errorA_def split: prod.splits sum.splits)
  then show "during ok h (Q x) w'" using runD [OF assms(1) w(1)] by blast
next
  fix w e w' assume w: "during ok h A w" "on_errorA c m w = (Inl e, w')"
  then obtain v where v: "m w = (Inl e, v)" "w' = snd (c v)"
    by (auto simp: on_errorA_def split: prod.splits sum.splits)
  have "during ok h E1 v" by (rule runE [OF assms(1) w(1) v(1)])
  then show "during ok h E w'"
    using runD [OF assms(2)] runE [OF assms(2)] unfolding v(2) by (cases "c v"; cases "fst (c v)") auto
qed

lemma journal_commits:
  assumes "startable base rq m" and "staging base m (length (mf_Outputs m)) fs"
  shows "committed base m (AList.update (journal_of (mf_ID m)) (NFile (journal_bytes m)) fs)"
proof -
  let ?J = "journal_of (mf_ID m)" and ?S = "stage_of (mf_ID m)"
  let ?g = "AList.update ?J (NFile (journal_bytes m)) fs"
  note names = startable_names(1,2) [OF assms(1)]
  have un: "\<And>p. \<not> under p ?S \<Longrightarrow> map_of fs p = map_of base p" and dir: "map_of fs ?S = Some NDir"
    using assms(2) by (auto simp: staging_def uncommitted_def)
  have "staged m ?g i \<and> map_of ?g (ou_Path (mf_Outputs m ! i)) = map_of base (ou_Path (mf_Outputs m ! i))"
    if i: "i < length (mf_Outputs m)" for i
  proof -
    have "stagedPath ?S i \<noteq> ?J" using names(1) stagedPath_simps(2) by metis
    then show ?thesis
      using assms(2) i un target_apart [OF assms(1) disjI1 [OF target_in [OF i]]]
      by (auto simp: staging_def staged_def)
  qed
  moreover have "stage_ok m ?g" "journaled m ?g" "frame base m ?g"
    using dir names un by (auto simp: stage_ok_def journaled_def frame_def)
  ultimately show ?thesis by (auto simp: committed_def)
qed

lemma run_write_journal:
  assumes "startable base rq m" and "sound_faults ok"
  shows "run ok h (staging base m (length (mf_Outputs m)))
    (write_journal o' m)
    (\<lambda>_. committed base m) (\<lambda>fs. uncommitted base m fs \<and> may_fail ok)"
  unfolding write_journal_def
proof (rule run_wrap, rule run_on_error [OF run_atomic_write [OF assms(2)]])
  have root: "map_of base [] = Some NDir" "\<not> under [] (stage_of (mf_ID m))"
    using startable_facts(7) [OF assms(1)] by (auto simp: under_trans_prefix stage_of_def txn_prefix_def)
  show "map_of fs (parent_of (journal_of (mf_ID m))) = Some NDir \<and> map_of fs (journal_of (mf_ID m)) = None"
    if "staging base m (length (mf_Outputs m)) fs" for fs
    using that root startable_names(1,5) [OF assms(1)] all_dirs_stage(3) [OF assms(1)]
    by (auto simp: staging_def uncommitted_def)
  show "committed base m (AList.update (journal_of (mf_ID m)) (NFile (journal_bytes m)) fs)"
    if "staging base m (length (mf_Outputs m)) fs" for fs
    by (rule journal_commits [OF assms(1) that])
  show "run ok h (\<lambda>fs. staging base m (length (mf_Outputs m)) fs \<and> may_fail ok) (os_RemoveAll (stage_of (mf_ID m)))
     (\<lambda>_ fs. uncommitted base m fs \<and> may_fail ok) (\<lambda>fs. uncommitted base m fs \<and> may_fail ok)"
    by (rule run_conseq [OF run_remove_stage [OF assms(2), of "\<lambda>fs. uncommitted base m fs \<and> may_fail ok" m]])
       (auto simp: staging_def uncommitted_def uncommitted_def)
qed

lemma check_outputs_facts:
  assumes "check_outputs o' fs b xs = Inr n" and "x \<in> set xs"
  shows "resolve o' fs (ou_Path x) = Inr (ou_Path x)"
    and "\<exists>h. readTarget o' fs (ou_Path x) = Inr h \<and> (h = ou_After x \<or> h = ou_Before x)"
proof -
  have one: "resolve o' fs p = Inr q \<Longrightarrow> q = p" for p q by (auto simp: resolve_def)
  have "resolve o' fs (ou_Path x) = Inr (ou_Path x) \<and>
     (\<exists>h. readTarget o' fs (ou_Path x) = Inr h \<and> (h = ou_After x \<or> h = ou_Before x))"
    using assms
  proof (induction xs arbitrary: b)
    case (Cons y ys)
    then obtain p h where y: "resolve o' fs (ou_Path y) = Inr p" "readTarget o' fs p = Inr h"
      by (auto simp: bindE_eq_Inr)
    then have "p = ou_Path y" using one by blast
    then show ?case using Cons y by (auto split: if_splits)
  qed simp
  then show "resolve o' fs (ou_Path x) = Inr (ou_Path x)"
    "\<exists>h. readTarget o' fs (ou_Path x) = Inr h \<and> (h = ou_After x \<or> h = ou_Before x)" by blast+
qed

lemma check_outputs_checked:
  assumes "startable base rq m" and "check_outputs o' base b (mf_Outputs m) = Inr n"
  shows "checked o' base m"
  unfolding checked_def
proof
  fix x assume x: "x \<in> set (mf_Outputs m)"
  note c = check_outputs_facts [OF assms(2) x]
  note v = validRelative_segments [OF startable_facts(9) [OF assms(1) x]]
  have "CheckWriteTarget o' base (ou_Path x) = Inr ()" using c(1) by (auto simp: resolve_def bindE_eq_Inr)
  moreover have "ou_Path x \<noteq> ''.''" using v by (auto simp: path_Clean_def)
  ultimately have "check_prefixes o' base ([] # path_prefixes (ou_Path x)) = Inr ()"
    using v valid_check_points [OF startable_facts(9) [OF assms(1) x]]
    by (auto simp: CheckWriteTarget_def Let_def simp del: check_points.simps split: if_splits)
  then show "clear base (ou_Path x) \<and> (\<exists>h. readTarget o' base (ou_Path x) = Inr h \<and> (h = ou_After x \<or> h = ou_Before x))"
    using c(2) v checks_clear [OF startable_facts(12,7) [OF assms(1)]] by blast
qed

lemma root_writable: "map_of fs [] = Some NDir \<Longrightarrow> CheckWriteTarget o' fs [] = Inr ()"
  by (simp add: CheckWriteTarget_def path_Clean_def lstat_def)

lemma check_outputs_noop:
  assumes "check_outputs o' fs b xs = Inr n"
  shows "n \<longleftrightarrow> b \<and> (\<forall>x \<in> set xs. readTarget o' fs (ou_Path x) = Inr (ou_After x))"
  using assms
proof (induction xs arbitrary: b)
  case (Cons y ys)
  then obtain p h where y: "resolve o' fs (ou_Path y) = Inr p" "readTarget o' fs p = Inr h"
    by (auto simp: bindE_eq_Inr)
  then have "p = ou_Path y" by (auto simp: resolve_def)
  then show ?case using Cons y by (auto split: if_splits)
qed simp

lemma readTarget_done:
  assumes "startable base rq m" and "x \<in> set (mf_Outputs m)" and "readTarget o' fs (ou_Path x) = Inr (ou_After x)"
  shows "done_out fs x"
  using assms(3) startable_facts(10) [OF assms(1,2)]
  by (auto simp: readTarget_def done_out_def lstat_def split: stat.splits node.splits option.splits if_splits)

subsection \<open>A whole commit\<close>

definition commit_ends :: "fs \<Rightarrow> manifest \<Rightarrow> ledger_file \<Rightarrow> (fault \<Rightarrow> bool) \<Rightarrow> txn_result \<Rightarrow> fs \<Rightarrow> ledger_file \<Rightarrow> bool" where
  "commit_ends base m h ok r fs h' \<longleftrightarrow> rs_Manifest r = m \<and> all_done m fs \<and> recorded m h h' \<and>
     (if rs_NoOp r then fs = base else over base m ok fs)"

lemma hrun_commit_writes:
  assumes "startable base rq m" and "checked o' base m" and "sound_faults ok" and "recordable o' h m" and c: "may_fail ok \<Longrightarrow> c"
  shows "hrun ok (\<lambda>fs h'. fs = base \<and> unrecorded h h') (commit_writes o' rq m) (commit_ends base m h ok)
    (stopped base m h c (excused ok (rq_Hook rq)))"
proof -
  let ?E = "\<lambda>fs. uncommitted base m fs \<and> excused ok (rq_Hook rq)" and ?N = "length (mf_Outputs m)"
  let ?S = "stopped base m h c (excused ok (rq_Hook rq))"
  note excuse = run_excuse [where hk = "rq_Hook rq"]
  have un: "staging base m i fs \<Longrightarrow> uncommitted base m fs" for i fs by (simp add: staging_def)
  have clear: "run ok h' (\<lambda>fs. fs = base) (os_RemoveAll (stage_of (mf_ID m))) (\<lambda>_. old_tree base m) ?E" for h'
    by (rule run_conseq [OF excuse [OF run_clear_stage [OF assms(1,3), of h']]]) (auto simp: old_tree_def)
  note make = excuse [OF run_make_stage [OF assms(1,3)]]
  note stage = excuse [OF run_stage_outputs [OF assms(1,3), of 0 _ o', simplified]]
  have sync: "run ok h' (staging base m ?N) (syncDir o' d) (\<lambda>_. staging base m ?N) ?E" for d h'
    by (rule run_sync [OF assms(3)]) (auto simp: un excused_def)
  have call1: "run ok h' (staging base m ?N) (callA (rq_Hook rq) s p) (\<lambda>_. staging base m ?N) ?E" for s p h'
    by (rule run_call) (auto simp: un)
  note journal = excuse [OF run_write_journal [OF assms(1,3), of _ o']]
  note lift = hrun_conseq [OF hrun_run [where C = "unrecorded h"]]
  have apart: "in_state base m h c fs h'" if "uncommitted base m fs" "unrecorded h h'" for fs h'
    using that by (simp add: in_state_def)
  have first: "hrun ok (\<lambda>fs h'. A fs \<and> unrecorded h h') a (\<lambda>x fs h'. R x fs \<and> unrecorded h h') ?S"
    if "\<And>h'. run ok h' A a R ?E" for A R and a :: "'x act"
    by (rule lift [OF that]) (auto simp: stopped_def apart)
  have call2: "hrun ok (\<lambda>fs h'. committed base m fs \<and> unrecorded h h') (callA (rq_Hook rq) s p)
      (\<lambda>_ fs h'. committed base m fs \<and> possible m h c h') ?S" for s p
    by (rule lift [OF run_call [where A = "committed base m" and Q = "\<lambda>_. committed base m" and ok = ok
          and E = "\<lambda>fs. committed base m fs \<and> excused ok (rq_Hook rq)"]])
       (auto simp: stopped_def in_state_def possible_def)
  note appl = hrun_apply_manifest [OF assms, of "rq_Hook rq"]
  have fin: "hrun ok (\<lambda>fs h'. over base m ok fs \<and> recorded m h h')
      (returnA \<lparr>rs_ID = mf_ID m, rs_Manifest = m, rs_NoOp = False\<rparr>) (commit_ends base m h ok) ?S"
    by (rule hrun_return) (auto simp: commit_ends_def over_def settled_def)
  show ?thesis
    unfolding commit_writes_def Let_def
    by ((rule hrun_bind [OF first [OF run_wrap [OF clear]]] hrun_bind [OF first [OF run_wrap [OF make]]]
          hrun_bind [OF first [OF stage]] hrun_bind [OF first [OF sync]] hrun_bind [OF first [OF call1]]
          hrun_bind [OF first [OF journal]] hrun_bind [OF call2] hrun_bind [OF appl] fin) | assumption)+
qed

lemma hrun_commit:
  assumes "startable base rq m" and "check_outputs o' base True (mf_Outputs m) = Inr n" and "sound_faults ok"
    and "recordable o' h m" and c: "may_fail ok \<Longrightarrow> c"
  shows "hrun ok (\<lambda>fs h'. fs = base \<and> unrecorded h h') (commitLocked o' rq m) (commit_ends base m h ok)
    (stopped base m h c (excused ok (rq_Hook rq)))"
proof -
  note writes = hrun_commit_writes [OF assms(1) check_outputs_checked [OF assms(1,2)] assms(3,4) c]
  have "all_done m base" if n
    using check_outputs_noop [OF assms(2)] that readTarget_done [OF assms(1)] by (auto simp: all_done_def)
  moreover have "recorded m h h'" if "unrecorded h h'" "mf_Record m = None" for h'
    using that by (simp add: unrecorded_def recorded_def bound_line_def bound_record_def)
  ultimately have idle: "hrun ok (\<lambda>fs h'. fs = base \<and> unrecorded h h')
      (returnA \<lparr>rs_ID = mf_ID m, rs_Manifest = m, rs_NoOp = True\<rparr>) (commit_ends base m h ok)
      (stopped base m h c (excused ok (rq_Hook rq)))" if n "mf_Record m = None"
    using that by (intro hrun_return) (auto simp: commit_ends_def)
  have "commitLocked o' rq m w = (if n \<and> mf_Record m = None then returnA \<lparr>rs_ID = mf_ID m, rs_Manifest = m, rs_NoOp = True\<rparr>
         else commit_writes o' rq m) w" if "w_fs w = base" for w
    using that assms(2) root_writable startable_facts(1,7) [OF assms(1)]
    by (simp add: commitLocked_def bindA_def liftA_def)
  then show ?thesis
    using writes idle by (cases "n \<and> mf_Record m = None") (auto simp: hrun_def holds_in_def)
qed

lemma commit_refused:
  assumes "startable base rq m" and "check_outputs o' base True (mf_Outputs m) = Inl e" and "w_fs w = base"
  shows "commitLocked o' rq m w = (Inl e, w)"
  using assms root_writable startable_facts(7) [OF assms(1)] by (simp add: commitLocked_def bindA_def liftA_def)

lemma commit_under_lock:
  assumes "startable base rq m" and "w_fs w = base"
  shows "CommitUnderRootLock o' rq w = commitLocked o' rq m w"
proof -
  have "recoverLocked o' (rq_Now rq) w = (Inr [], w)"
    using assms by (intro no_pending_recover [of base]) (auto simp: startable_def)
  then show ?thesis
    using assms(1) by (simp add: CommitUnderRootLock_def bindA_def liftA_def startable_def)
qed

subsection \<open>Interrupted runs\<close>

text \<open>A process starts over the tree and the history as they are. What a commit, and then any number of
  recoveries, can leave behind, when any of their system calls may fail with part of its effect (all of them
  from some point on when the process dies), and when an incomplete last line of the history is removed.\<close>

definition process :: "fs \<Rightarrow> ledger_file \<Rightarrow> (nat \<Rightarrow> fault) \<Rightarrow> world" where
  "process fs h f = \<lparr>w_fs = fs, w_history = h, w_faults = f, w_step = 0\<rparr>"

inductive leaves :: "owner \<Rightarrow> request \<Rightarrow> fs \<Rightarrow> ledger_file \<Rightarrow> fs \<Rightarrow> ledger_file \<Rightarrow> bool" for o' rq base h where
  committing: "CommitUnderRootLock o' rq (process base h f) = (res, w) \<Longrightarrow> \<forall>n. clean_fail (f n) \<Longrightarrow>
     leaves o' rq base h (w_fs w) (w_history w)"
| recovering: "leaves o' rq base h fs h' \<Longrightarrow> recoverLocked o' now (process fs h' f) = (res, w) \<Longrightarrow>
     \<forall>n. clean_fail (f n) \<Longrightarrow> instant (rq_Now rq) \<le> instant now \<Longrightarrow> leaves o' rq base h (w_fs w) (w_history w)"
| repairing: "leaves o' rq base h fs h' \<Longrightarrow> leaves o' rq base h fs (Bytes (complete_lines (bytes_of h')))"

inductive_cases leavesE: "leaves o' rq base h fs h'"

lemma holds_process: "(\<forall>n. ok (f n)) \<Longrightarrow> P fs h \<Longrightarrow> holds_in ok P (process fs h f)"
  by (simp add: holds_in_def process_def)

definition legal :: "owner \<Rightarrow> fs \<Rightarrow> manifest \<Rightarrow> ledger_file \<Rightarrow> fs \<Rightarrow> ledger_file \<Rightarrow> bool" where
  "legal o' base m h fs h' \<longleftrightarrow> fs = base \<and> unrecorded h h' \<or> checked o' base m \<and> in_state base m h True fs h'"

lemma ended_state: "startable base rq m \<Longrightarrow> ended base m h ok fs h' \<Longrightarrow> in_state base m h True fs h'"
  unfolding ended_def over_def using settled_state old_tree_phase by (metis in_state_def)

lemma recover_legal:
  assumes "startable base rq m" and "recordable o' h m" and "legal o' base m h fs h'" and "clock_ok m now"
    and "\<forall>n. clean_fail (f n)" and "recoverLocked o' now (process fs h' f) = (res, w)"
  shows "legal o' base m h (w_fs w) (w_history w)"
proof (cases "fs = base \<and> unrecorded h h'")
  case True
  have "recoverLocked o' now (process fs h' f) = (Inr [], process fs h' f)"
    using assms(1) True by (intro no_pending_recover [of base]) (auto simp: startable_def process_def)
  then show ?thesis using assms(6) True by (auto simp: legal_def process_def)
next
  case False
  then have ch: "checked o' base m" "in_state base m h True fs h'" using assms(3) by (auto simp: legal_def)
  note d = holds_process [of clean_fail f "in_state base m h True" fs h', OF assms(5) ch(2)]
  note r = hrun_recover [OF assms(1) ch(1) fault_kinds(2) assms(4,2) TrueI]
  have "in_state base m h True (w_fs w) (w_history w)"
  proof (cases res)
    case (Inl e)
    then show ?thesis using hrunE [OF r d] assms(6) by (auto simp: holds_in_def stopped_def)
  next
    case (Inr ps)
    then show ?thesis using hrunD [OF r d] assms(6) ended_state [OF assms(1)] by (auto simp: holds_in_def)
  qed
  then show ?thesis using ch(1) by (simp add: legal_def)
qed

lemma commit_legal:
  assumes "startable base rq m" and "recordable o' h m" and "\<forall>n. clean_fail (f n)"
    and "CommitUnderRootLock o' rq (process base h f) = (res, w)"
  shows "legal o' base m h (w_fs w) (w_history w)"
proof -
  have start: "unrecorded h h" using assms(2) by (simp add: recordable_def unrecorded_def)
  have c: "commitLocked o' rq m (process base h f) = (res, w)"
    using assms(4) commit_under_lock [OF assms(1), of "process base h f" o'] by (simp add: process_def)
  show ?thesis
  proof (cases "check_outputs o' base True (mf_Outputs m)")
    case (Inl e)
    then show ?thesis
      using commit_refused [OF assms(1) Inl, of "process base h f"] c start by (auto simp: legal_def process_def)
  next
    case (Inr n)
    note ch = check_outputs_checked [OF assms(1) Inr]
    note d = holds_process [of clean_fail f "\<lambda>fs h'. fs = base \<and> unrecorded h h'" base h, OF assms(3)]
    note r = hrun_commit [OF assms(1) Inr fault_kinds(2) assms(2) TrueI]
    have "in_state base m h True (w_fs w) (w_history w) \<or> w_fs w = base \<and> unrecorded h (w_history w)"
    proof (cases res)
      case (Inl e)
      then show ?thesis using hrunE [OF r d] c start by (auto simp: holds_in_def stopped_def)
    next
      case (Inr x)
      then have "commit_ends base m h clean_fail x (w_fs w) (w_history w)"
        using hrunD [OF r d] c start by (auto simp: holds_in_def)
      then have s: "recorded m h (w_history w)" "rs_NoOp x \<longrightarrow> w_fs w = base"
        "\<not> rs_NoOp x \<longrightarrow> settled base m (w_fs w)" "all_done m (w_fs w)"
        by (auto simp: commit_ends_def over_def)
      have "settled base m base" if "all_done m base"
        using that old_tree_phase [OF assms(1), of base] startable_names(5) [OF assms(1)]
        by (auto simp: settled_def old_tree_def uncommitted_def frame_def)
      then have "settled base m (w_fs w)" using s(2,3,4) by (cases "rs_NoOp x") auto
      then show ?thesis using settled_state s(1) by blast
    qed
    with ch show ?thesis by (auto simp: legal_def)
  qed
qed

text \<open>Removing an incomplete last line.\<close>

lemma complete_lines_id: "raw = [] \<or> last raw = newline \<Longrightarrow> complete_lines raw = raw"
  by (cases raw rule: rev_cases) (auto simp: complete_lines_def)

lemma complete_lines_cut: "x = [] \<or> last x = newline \<Longrightarrow> newline \<notin> set y \<Longrightarrow> complete_lines (x @ y) = x"
  using complete_lines_id [of x] by (auto simp: complete_lines_def dropWhile_append3 dropWhile_append dropWhile_eq_Nil_conv)

lemma complete_lines_append: "complete_lines (x @ y @ [newline]) = x @ y @ [newline]"
  by (simp add: complete_lines_def)

lemma repaired:
  assumes "recordable o' h m" and "possible m h True h'"
  shows "unrecorded h h' \<or> cut_off m h h' \<Longrightarrow> unrecorded h (Bytes (complete_lines (bytes_of h')))"
    and "recorded m h h' \<Longrightarrow> recorded m h (Bytes (complete_lines (bytes_of h')))"
proof -
  have whole: "bytes_of h = [] \<or> last (bytes_of h) = newline" using assms(1) by (auto simp: recordable_def)
  have line: "bound_line m = [] \<or> (\<exists>l. bound_line m = l @ [newline] \<and> newline \<notin> set l)"
  proof (cases "bound_record m")
    case (Some r)
    then obtain rs where "encodable r" using recordable_line [OF assms(1)] by metis
    then show ?thesis using record_line_shape(1) Some by (auto simp: bound_line_def)
  qed (simp add: bound_line_def)
  show "recorded m h (Bytes (complete_lines (bytes_of h')))" if "recorded m h h'"
    using that line complete_lines_id [OF whole] by (auto simp: recorded_def complete_lines_append)
  assume "unrecorded h h' \<or> cut_off m h h'"
  then show "unrecorded h (Bytes (complete_lines (bytes_of h')))"
  proof
    assume "unrecorded h h'"
    then show ?thesis using complete_lines_id [OF whole] by (simp add: unrecorded_def)
  next
    assume "cut_off m h h'"
    then obtain k where k: "k < length (bound_line m)" "bytes_of h' = bytes_of h @ take k (bound_line m)"
      by (auto simp: cut_off_def)
    then have "newline \<notin> set (take k (bound_line m))" using line by (auto dest: in_set_takeD)
    then show ?thesis using complete_lines_cut [OF whole] k(2) by (simp add: unrecorded_def)
  qed
qed

lemma repair_legal:
  assumes "recordable o' h m" and "legal o' base m h fs h'"
  shows "legal o' base m h fs (Bytes (complete_lines (bytes_of h')))"
proof -
  have "possible m h True h'" using assms(2) by (auto simp: legal_def in_state_def possible_def)
  note r = repaired [OF assms(1) this]
  show ?thesis
    using assms(2) r by (auto simp: legal_def in_state_def possible_def)
qed

definition clock_set :: "request \<Rightarrow> bool" where
  "clock_set rq \<longleftrightarrow> (\<exists>u t. time_Parse (rq_Now rq) = Some (u, t))"

lemma clock_later:
  assumes "startable base rq m" and "clock_set rq" and "instant (rq_Now rq) \<le> instant now"
  shows "clock_ok m now"
  using assms startable_facts(13) [OF assms(1)] by (auto simp: clock_ok_def clock_set_def instant_def [of "rq_Now rq"])

lemma leaves_legal:
  assumes "leaves o' rq base h fs h'" and "startable base rq m" and "recordable o' h m" and "clock_set rq"
  shows "legal o' base m h fs h'"
  using assms(1)
proof (induction rule: leaves.induct)
  case (committing f res w)
  then show ?case using commit_legal [OF assms(2,3)] by blast
next
  case (recovering fs h' now f res w)
  then show ?case using recover_legal [OF assms(2,3)] clock_later [OF assms(2,4)] by blast
next
  case (repairing fs h')
  then show ?case using repair_legal [OF assms(3)] by blast
qed

text \<open>From any of the states, with a history without an incomplete line, recovery without a fault ends the
  transaction in the tree and in the history.\<close>

lemma recover_ends:
  assumes "startable base rq m" and "recordable o' h m" and "legal o' base m h fs h'" and "clock_ok m now"
    and "Replay h' (History o') FamilyHistory = Inr (rs, [])"
  shows "\<exists>ps w. recoverLocked o' now (process fs h' (\<lambda>_. Fine)) = (Inr ps, w) \<and>
    (old_tree base m (w_fs w) \<and> unrecorded h (w_history w) \<or> new_tree base m (w_fs w) \<and> recorded m h (w_history w))"
proof (cases "fs = base \<and> unrecorded h h'")
  case True
  then have "recoverLocked o' now (process fs h' (\<lambda>_. Fine)) = (Inr [], process fs h' (\<lambda>_. Fine))"
    using assms(1) by (intro no_pending_recover [of base]) (auto simp: startable_def process_def)
  then show ?thesis using True by (auto simp: old_tree_def process_def)
next
  case False
  then have ch: "checked o' base m" "in_state base m h True fs h'"
    using assms(3) by (auto simp: legal_def)
  have "\<not> cut_off m h h'" using cut_off_torn [OF assms(2)] assms(5) by metis
  then have "in_state base m h False fs h'" using ch(2) by (auto simp: in_state_def possible_def)
  then have d: "holds_in no_fault (in_state base m h False) (process fs h' (\<lambda>_. Fine))"
    by (intro holds_process) (simp_all add: no_fault_def)
  have "\<not> may_fail no_fault" by (simp add: may_fail_def no_fault_def)
  then have r: "hrun no_fault (in_state base m h False) (recoverLocked o' now) (\<lambda>_. ended base m h no_fault) (\<lambda>_ _. False)"
    using hrun_recover [OF assms(1) ch(1) fault_kinds(1) assms(4) assms(2), of False]
    by (simp add: stopped_def)
  obtain res w where w: "recoverLocked o' now (process fs h' (\<lambda>_. Fine)) = (res, w)" by fastforce
  then obtain ps where ps: "res = Inr ps" using hrunE [OF r d] by (cases res) (auto simp: holds_in_def)
  then have "ended base m h no_fault (w_fs w) (w_history w)" using hrunD [OF r d] w by (auto simp: holds_in_def)
  then show ?thesis
    using w ps \<open>\<not> may_fail no_fault\<close> by (auto simp: ended_def over_def settled_def new_tree_def)
qed

text \<open>A history left behind is readable again once its incomplete line is gone.\<close>

lemma legal_repaired_reads:
  assumes "recordable o' h m" and "legal o' base m h fs h'"
    and "replay (bytes_of h) (History o') FamilyHistory = Inr (ps, [])"
  obtains rs where "Replay (Bytes (complete_lines (bytes_of h'))) (History o') FamilyHistory = Inr (rs, [])"
proof -
  let ?h = "Bytes (complete_lines (bytes_of h'))"
  have p: "possible m h True h'"
    using assms(1,2) by (auto simp: legal_def in_state_def possible_def)
  then have u: "unrecorded h ?h \<or> recorded m h ?h"
    using repaired [OF assms(1) p] by (auto simp: possible_def)
  have "\<exists>rs. replay (bytes_of h @ bound_line m) (History o') FamilyHistory = Inr (rs, [])"
  proof (cases "bound_record m")
    case None
    then show ?thesis using assms(3) by (simp add: bound_line_def)
  next
    case (Some r)
    show ?thesis by (rule recordable_line [OF assms(1) Some]) blast
  qed
  then have "\<exists>rs. Replay ?h (History o') FamilyHistory = Inr (rs, [])"
    using u assms(3) by (auto simp: Replay_def unrecorded_def recorded_def bytes_of_def [of "Bytes _"])
  then show thesis using that by blast
qed

end
