(* ===== verification/TransactionProps.thy ===== *)
theory TransactionProps
  imports Commits
begin

text \<open>
  The properties of the transaction of \<open>internal/core/transaction\<close>: all or nothing across any
  interruption, success without faults, refusal without effect, the identity of the manifest and the
  safety of its paths, and the one failure the code does not survive.
\<close>

text \<open>C2: A transaction is all or nothing, in the tree and in the history. Take a planned transaction of file
  outputs, none inside another, with or without a bound record, over a sound managed tree with nothing
  pending and a history that can take the record. Whatever a commit, any number of recoveries and the removal
  of an incomplete last line of the history leave behind, when any of the system calls fail (and may have had
  part of their effect, and all fail from some point on when the process dies): once the history has no
  incomplete line, one more recovery without a fault succeeds, and leaves either the tree and the history as
  they were before the transaction, or every output in place with its planned content, nothing else changed
  but for new directories above the outputs, no trace of the transaction, and the history with the record
  exactly once at its end.\<close>
theorem interrupted_transaction_atomic:
  assumes "startable base rq m" and "recordable o' h m" and "clock_set rq" and "leaves o' rq base h fs h'"
    and "instant (rq_Now rq) \<le> instant now" and "Replay h' (History o') FamilyHistory = Inr (rs, [])"
  shows "\<exists>ps w. recoverLocked o' now (process fs h' (\<lambda>_. Fine)) = (Inr ps, w) \<and>
    (old_tree base m (w_fs w) \<and> unrecorded h (w_history w) \<or> new_tree base m (w_fs w) \<and> recorded m h (w_history w))"
  by (rule recover_ends [OF assms(1,2) leaves_legal [OF assms(4,1,2,3)] clock_later [OF assms(1,3,5)] assms(6)])


text \<open>C7: A transaction never overwrites bytes it did not plan for: when an output holds neither the source
  content the plan recorded nor the planned content, the commit is refused and nothing at all has changed.\<close>
theorem drift_refused:
  assumes "plan rq = Inr m" and "map_of (w_fs w) [] = Some NDir"
    and "\<forall>p \<in> dom (map_of (w_fs w)). \<not> has_prefix p txn_prefix"
    and "x \<in> set (mf_Outputs m)" and "readTarget o' (w_fs w) (ou_Path x) = Inr c"
    and "c \<noteq> ou_After x" and "c \<noteq> ou_Before x"
  shows "\<exists>e. CommitUnderRootLock o' rq w = (Inl e, w)"
proof -
  have "\<nexists>n. check_outputs o' (w_fs w) True (mf_Outputs m) = Inr n"
    using check_outputs_facts(2) [OF _ assms(4)] assms(5-7) by fastforce
  then obtain e where e: "check_outputs o' (w_fs w) True (mf_Outputs m) = Inl e"
    by (cases "check_outputs o' (w_fs w) True (mf_Outputs m)") auto
  have "recoverLocked o' (rq_Now rq) w = (Inr [], w)"
    by (rule no_pending_recover [OF assms(2,3) refl])
  then have "CommitUnderRootLock o' rq w = (Inl e, w)"
    using assms(1,2) e root_writable by (simp add: CommitUnderRootLock_def commitLocked_def bindA_def liftA_def)
  then show ?thesis by blast
qed

subsection \<open>The manifest\<close>

lemma validHash_hash [simp]: "validHash (hash b)"
  using lower_hex_sha256 [of b] by (simp add: validHash_def hash_def lower_hex_def)

lemma validate_facts:
  assumes "manifest_validate m = Inr ()"
  shows "mf_SchemaVersion m = 1" and "mf_ID m = identity m" and "record_bound (mf_Record m) (mf_Change m)"
    and "validate_outputs [] (mf_Outputs m) = Inr ()" and "validate_moves [] (mf_Moves m) = Inr ()"
  using assms by (auto simp: manifest_validate_def bindE_eq_Inr split: if_splits)

lemma record_bound_not_null: "record_bound r c \<Longrightarrow> r \<noteq> Some JNull"
proof
  assume b: "record_bound r c" and "r = Some JNull"
  moreover have "\<exists>x. record_decode False JNull = Some x \<and> rc_SchemaVersion x = 0"
    by (simp add: record_decode_def decode_object_def field_getters field_opt_u64_def)
  ultimately obtain x where "record_Validate x = Inr ()" "rc_SchemaVersion x = 0" by (auto simp: record_bound_def)
  then show False using record_Validate_facts(1) by fastforce
qed

text \<open>C8: The journal reads back as the manifest that was committed, at any later clock.\<close>
theorem manifest_round_trip:
  assumes "manifest_validate m = Inr ()" and "json_ok (manifest_json m)" and "clock_ok m now"
    and "map_of fs (journal_of (mf_ID m)) = Some (NFile (journal_bytes m))"
  shows "readManifest o' fs (journal_of (mf_ID m)) now = Inr m"
proof -
  note v = validate_facts [OF assms(1)]
  have "manifest_of_json (manifest_json m) = Some m"
    by (rule manifest_round_trip_json [OF v(1) record_bound_not_null [OF v(3)]])
  then show ?thesis
    using assms read_journal [OF assms(2)]
    by (auto simp: readManifest_def readStaged_def lstat_def clock_ok_def Let_def)
qed

lemma manifest_json_inj:
  assumes "json_bytes (manifest_json m) = json_bytes (manifest_json n)"
    and "json_ok (manifest_json m)" and "json_ok (manifest_json n)"
    and "mf_SchemaVersion m = 1" "mf_SchemaVersion n = 1" "mf_Record m \<noteq> Some JNull" "mf_Record n \<noteq> Some JNull"
  shows "m = n"
proof -
  have "manifest_json m = manifest_json n"
    using read_text_bytes [OF assms(2), of "[]"] read_text_bytes [OF assms(3), of "[]"] assms(1) by (simp add: skip_ws_def)
  then have "Some m = Some n"
    by (simp only: manifest_round_trip_json [OF assms(4,6), symmetric] manifest_round_trip_json [OF assms(5,7), symmetric])
  then show ?thesis by simp
qed

text \<open>The text a manifest is identified by.\<close>

definition identity_text :: "manifest \<Rightarrow> string" where
  "identity_text m = json_bytes (manifest_json (m\<lparr>mf_ID := []\<rparr>))"

text \<open>C31: The transaction id binds the whole manifest: two valid manifests with the same id are the same
  manifest, unless the two texts hashed for it differ and are themselves a collision of SHA-256.\<close>
theorem identity_binds:
  assumes "manifest_validate m = Inr ()" and "manifest_validate n = Inr ()" and "mf_ID m = mf_ID n"
    and "json_ok (manifest_json (m\<lparr>mf_ID := []\<rparr>))" and "json_ok (manifest_json (n\<lparr>mf_ID := []\<rparr>))"
  shows "m = n \<or> identity_text m \<noteq> identity_text n \<and> sha256_hex (identity_text m) = sha256_hex (identity_text n)"
proof (cases "identity_text m = identity_text n")
  case True
  note vm = validate_facts [OF assms(1)] and vn = validate_facts [OF assms(2)]
  have "m\<lparr>mf_ID := []\<rparr> = n\<lparr>mf_ID := []\<rparr>"
    by (rule manifest_json_inj [OF True [unfolded identity_text_def] assms(4,5)])
       (use vm(1,3) vn(1,3) record_bound_not_null in auto)
  then have "m\<lparr>mf_ID := []\<rparr>\<lparr>mf_ID := mf_ID m\<rparr> = n\<lparr>mf_ID := []\<rparr>\<lparr>mf_ID := mf_ID n\<rparr>" using assms(3) by simp
  then show ?thesis by simp
next
  case False
  then show ?thesis
    using assms(3) validate_facts(2) [OF assms(1)] validate_facts(2) [OF assms(2)]
    by (simp add: identity_def hash_def identity_text_def)
qed

lemma validate_outputs_sorted:
  assumes "validate_outputs prev xs = Inr ()"
  shows "sorted_wrt (<) (map ou_Path xs)" and "\<forall>x \<in> set xs. prev < ou_Path x \<and> validRelative (ou_Path x) = Inr () \<and>
    validHash (ou_After x) \<and> (ou_Before x = [] \<or> validHash (ou_Before x))"
proof -
  have "sorted_wrt (<) (map ou_Path xs) \<and> (\<forall>x \<in> set xs. prev < ou_Path x \<and> validRelative (ou_Path x) = Inr () \<and>
    validHash (ou_After x) \<and> (ou_Before x = [] \<or> validHash (ou_Before x)))"
    using assms
  proof (induction xs arbitrary: prev)
    case (Cons x xs)
    then have x: "validRelative (ou_Path x) = Inr ()" "prev < ou_Path x"
      "validHash (ou_After x)" "ou_Before x = [] \<or> validHash (ou_Before x)" "validate_outputs (ou_Path x) xs = Inr ()"
      by (auto simp: bindE_eq_Inr not_le split: if_splits)
    then show ?case using Cons.IH [OF x(5)] by (auto intro: less_trans)
  qed simp
  then show "sorted_wrt (<) (map ou_Path xs)" "\<forall>x \<in> set xs. prev < ou_Path x \<and> validRelative (ou_Path x) = Inr () \<and>
    validHash (ou_After x) \<and> (ou_Before x = [] \<or> validHash (ou_Before x))" by blast+
qed

text \<open>A manifest that validates writes only inside the managed tree and away from what the harness
  keeps there: its outputs are in strict order without repetition, every path is relative and clean, no
  element of it is empty, a traversal or a dot name, and so no output is a lock, a journal or a stage.\<close>
theorem validated_paths_safe:
  assumes "manifest_validate m = Inr ()" and "x \<in> set (mf_Outputs m)"
  shows "sorted_wrt (<) (map ou_Path (mf_Outputs m)) \<and> path_Clean (ou_Path x) = ou_Path x \<and>
    (\<forall>s \<in> set (split_on CHR ''/'' (ou_Path x)). s \<noteq> [] \<and> s \<noteq> ''..'' \<and> \<not> has_prefix s ''.'') \<and>
    \<not> has_prefix (ou_Path x) txn_prefix \<and> validHash (ou_After x)"
proof -
  note o = validate_outputs_sorted [OF validate_facts(4) [OF assms(1)]]
  have v: "validRelative (ou_Path x) = Inr ()" "validHash (ou_After x)" using o(2) assms(2) by auto
  have "\<not> has_prefix (ou_Path x) ''.''" using valid_no_dot [OF v(1)] by blast
  then have "\<not> has_prefix (ou_Path x) txn_prefix" by (auto simp: has_prefix_iff txn_prefix_def)
  then show ?thesis using o(1) v validRelative_segments [OF v(1)] by auto
qed

subsection \<open>The failure that strands a transaction\<close>

lemma stuck_output:
  assumes "startable base rq m" and "checked o' base m" and "frame base m (w_fs w)" and "no_stage m (w_fs w)"
    and "\<forall>x \<in> set (mf_Outputs m). done_out (w_fs w) x \<or> map_of (w_fs w) (ou_Path x) = map_of base (ou_Path x)"
    and "set xs \<subseteq> set (mf_Outputs m)" and "\<exists>x \<in> set xs. \<not> done_out (w_fs w) x"
  shows "\<exists>e. apply_outputs o' m hk i xs w = (Inl e, w) \<and> IsCode e ''transaction_ambiguous''"
  using assms(6,7)
proof (induction xs arbitrary: i)
  case (Cons x xs)
  have x: "x \<in> set (mf_Outputs m)" using Cons.prems(1) by simp
  note reads = output_reads [OF assms(1-3) x] assms(5)
  have clear: "locate o' (w_fs w) m (ou_Path x) = Inr (ou_Path x)" using reads(1) assms(5) x by blast
  let ?s = "stagedPath (stage_of (mf_ID m)) i"
  show ?case
  proof (cases "done_out (w_fs w) x")
    case True
    then have "apply_output o' m hk i x w = (Inr (), w)"
      using clear reads(2) assms(5) x by (simp add: apply_output_def bindA_def liftA_def returnA_def)
    then show ?thesis using Cons.IH [of "Suc i"] Cons.prems True by (auto simp: bindA_def)
  next
    case False
    have "lstat (w_fs w) ?s = Absent"
    proof -
      have "map_of (w_fs w) ?s = None" "map_of (w_fs w) (stage_of (mf_ID m)) = None"
        using assms(4) by (auto simp: no_stage_def)
      then show ?thesis
        using frame_root [OF assms(1,3)] all_dirs_stage(4) [OF assms(1), of i] by (simp add: lstat_def)
    qed
    then have "\<exists>e. readStaged o' (w_fs w) ?s = Inl e \<and> IsCode e ''transaction_ambiguous''"
      by (simp add: readStaged_def txn_refuse_def refuse_def IsCode_def failure_New_def restore_def)
    then show ?thesis
      using False clear reads(2,3) assms(5) x
      by (auto simp: apply_output_def bindA_def liftA_def)
  qed
qed simp

text \<open>C32: The commit point has one failure the transaction does not survive: when the manifest is in place
  but the sync of its directory is reported as failed, the code takes the manifest for unwritten and removes
  the stage. The manifest is then committed without its staged bytes, nothing of it has been applied, and
  every later recovery that could be run is refused as ambiguous and changes nothing.\<close>
theorem late_journal_strands:
  assumes "startable base rq m" and "checked o' base m" and "staging base m (length (mf_Outputs m)) (w_fs w)"
    and "w_faults w (w_step w) = Late e" and "w_faults w (Suc (w_step w)) = Fine"
    and "x \<in> set (mf_Outputs m)" and "\<not> done_out base x"
  shows "\<exists>e' w'. write_journal o' m w = (Inl e', w') \<and> journaled m (w_fs w') \<and> no_stage m (w_fs w') \<and>
    (\<forall>now h f. clock_ok m now \<longrightarrow>
       (\<exists>e''. recoverLocked o' now (process (w_fs w') h f) = (Inl e'', process (w_fs w') h f) \<and>
              IsCode e'' ''transaction_ambiguous''))"
proof -
  let ?J = "journal_of (mf_ID m)" and ?S = "stage_of (mf_ID m)"
  note names = startable_names [OF assms(1)]
  define fs where "fs = remove_tree ?S (AList.update ?J (NFile (journal_bytes m)) (w_fs w))"
  have un: "\<And>p. \<not> under p ?S \<Longrightarrow> map_of (w_fs w) p = map_of base p"
    using assms(3) by (auto simp: staging_def uncommitted_def)
  have fs: "map_of fs p = (if under p ?S then None else if p = ?J then Some (NFile (journal_bytes m)) else map_of base p)" for p
    using un by (simp add: fs_def)
  have st: "no_stage m fs" "journaled m fs" "frame base m fs"
    using names(1) by (auto simp: no_stage_def journaled_def frame_def fs)
  have kept: "\<forall>x \<in> set (mf_Outputs m). map_of fs (ou_Path x) = map_of base (ou_Path x)"
    using target_apart [OF assms(1)] by (auto simp: fs targets_def)
  have "\<not> under [] ?S" by (simp add: under_trans_prefix stage_of_def txn_prefix_def)
  then have root: "map_of (w_fs w) (parent_of ?J) = Some NDir" "map_of (w_fs w) ?J = None"
    using un names(1,5) startable_facts(7) [OF assms(1)] all_dirs_stage(3) [OF assms(1)] by auto
  obtain e1 where rep: "AtomicReplace (fault_os (Late e)) None None (Some (NFile (journal_bytes m))) =
      (Inl e1, Some (NFile (journal_bytes m)))"
    by (cases "errors_Is e ErrInvalid")
       (auto simp: AtomicReplace_def before_rename_def call_hook_def os_call_def fault_os_def os_ok_def)
  have "\<exists>e' w'. write_journal o' m w = (Inl e', w') \<and> w_fs w' = fs"
    using root rep assms(4,5)
    by (simp add: write_journal_def wrapA_def on_errorA_def atomic_write_def os_RemoveAll_def syscall_def
        put_node_def fs_def Let_def)
  then obtain e' w' where w': "write_journal o' m w = (Inl e', w')" "w_fs w' = fs" by blast
  have "\<exists>e''. recoverLocked o' now (process fs h f) = (Inl e'', process fs h f) \<and> IsCode e'' ''transaction_ambiguous''"
    if c: "clock_ok m now" for now h f
  proof -
    have "tidy m fs" using st by (intro frame_tidy [OF assms(1) st(3)]) (simp_all add: stage_ok_def)
    then have insp: "inspectLocked o' fs now = Inr [forward_of m]"
      using inspect_tidy [OF assms(1) _ c] st(2) by simp
    have "\<not> done_out fs x" using assms(6,7) kept by (auto simp: done_out_def)
    then obtain e'' where e'': "apply_outputs o' m None 0 (mf_Outputs m) (process fs h f) = (Inl e'', process fs h f)"
      "IsCode e'' ''transaction_ambiguous''"
      using stuck_output [OF assms(1,2), of "process fs h f" "mf_Outputs m" None 0] st kept assms(6)
      by (auto simp: process_def)
    then have "apply_manifest o' m None (process fs h f) = (Inl e'', process fs h f)"
      by (simp add: apply_manifest_def bindA_def Let_def)
    then have "recoverLocked o' now (process fs h f) = (Inl e'', process fs h f)"
      using insp by (simp add: recoverLocked_def bindA_def liftA_def forward_of_def process_def)
    then show ?thesis using e''(2) by blast
  qed
  then show ?thesis using w' st(1,2) by auto
qed

subsection \<open>A concrete transaction\<close>

definition sample_request :: request where
  "sample_request = \<lparr>rq_Operation = ''sync'', rq_Change = ''add-x'', rq_Revision = 3,
     rq_Now = ''2026-01-02T03:04:05Z'',
     rq_Outputs = [\<lparr>wr_Path = ''specs/a/spec.md'', wr_Before = [], wr_Bytes = Some ''new''\<rparr>],
     rq_Moves = [], rq_Record = Some sample_record, rq_Hook = None\<rparr>"

definition sample_manifest :: manifest where
  "sample_manifest =
     (let m = \<lparr>mf_SchemaVersion = 1, mf_ID = [], mf_Operation = ''sync'', mf_Change = ''add-x'', mf_Revision = 3,
                mf_Timestamp = ''2026-01-02T03:04:05Z'',
                mf_Outputs = [\<lparr>ou_Path = ''specs/a/spec.md'', ou_Before = [], ou_After = hash ''new''\<rparr>],
                mf_Moves = [], mf_Record = Some (record_json sample_record)\<rparr>
      in m\<lparr>mf_ID := identity m\<rparr>)"

definition sample_tree :: fs where "sample_tree = [([], NDir)]"

lemma sample_path: "validRelative ''specs/a/spec.md'' = Inr ()" by code_simp

lemma sample_trim: "trim_space ''sync'' \<noteq> []" "trim_space ''add-x'' \<noteq> []" "trim_space ''2026-01-02T03:04:05Z'' \<noteq> []"
  by code_simp+

lemma sample_manifest_simps [simp]:
  "mf_Outputs sample_manifest = [\<lparr>ou_Path = ''specs/a/spec.md'', ou_Before = [], ou_After = hash ''new''\<rparr>]"
  "mf_SchemaVersion sample_manifest = 1" "mf_Moves sample_manifest = []" "mf_Record sample_manifest = Some (record_json sample_record)"
  "mf_ID sample_manifest = identity sample_manifest" "mf_Operation sample_manifest = ''sync''"
  "mf_Change sample_manifest = ''add-x''" "mf_Revision sample_manifest = 3"
  "mf_Timestamp sample_manifest = ''2026-01-02T03:04:05Z''"
  by (simp_all add: sample_manifest_def Let_def identity_def)

lemma sample_decodes: "record_decode False (record_json sample_record) = Some sample_record"
  by (rule record_decode_json) (simp_all)

lemma sample_validate: "manifest_validate sample_manifest = Inr ()"
  by (simp add: manifest_validate_def sample_trim sample_path record_bound_def sample_decodes sample_valid)

lemma sample_plan: "plan sample_request = Inr sample_manifest"
proof -
  let ?m = "\<lparr>mf_SchemaVersion = 1, mf_ID = [], mf_Operation = ''sync'', mf_Change = ''add-x'', mf_Revision = 3,
                mf_Timestamp = ''2026-01-02T03:04:05Z'',
                mf_Outputs = [\<lparr>ou_Path = ''specs/a/spec.md'', ou_Before = [], ou_After = hash ''new''\<rparr>],
                mf_Moves = [], mf_Record = Some (record_json sample_record)\<rparr>"
  have m: "sample_manifest = ?m\<lparr>mf_ID := identity ?m\<rparr>" by (simp add: sample_manifest_def Let_def)
  show ?thesis
    using sample_validate unfolding m
    by (simp add: plan_def sample_request_def sample_trim sample_path plan_record_def zero_time_def sample_valid Let_def)
qed

lemma json_ok_sample: "mf_ID m = [] \<or> (\<exists>b. mf_ID m = hash b) \<Longrightarrow>
  m = sample_manifest\<lparr>mf_ID := mf_ID m\<rparr> \<Longrightarrow> json_ok (manifest_json m)"
proof -
  assume id: "mf_ID m = [] \<or> (\<exists>b. mf_ID m = hash b)" and m: "m = sample_manifest\<lparr>mf_ID := mf_ID m\<rparr>"
  have u: "utf8_ok (mf_ID m)" "utf8_ok (hash b)" for b using id by (auto simp: hash_def)
  show ?thesis
    by (subst m) (simp add: manifest_json_def output_json_def json_int_def show_int_def json_u64_def json_nat_def u
      sample_encodable [unfolded encodable_def] del: utf8_ok.simps(2) identity_def, simp add: ascii_utf8_ok byte_def del: utf8_ok.simps(2))
qed

lemma sample_startable: "startable sample_tree sample_request sample_manifest"
proof -
  have "json_ok (manifest_json sample_manifest)"
    by (rule json_ok_sample) (auto simp: identity_def)
  then show ?thesis
    using sample_plan
    by (simp add: startable_def sample_request_def unnested_def targets_def tree_ok_def sample_tree_def txn_prefix_def)
qed

lemma sample_clock: "clock_set sample_request" "clock_ok sample_manifest ''2026-01-02T03:04:05Z''"
  using sample_time
  by (auto simp: clock_set_def clock_ok_def instant_def sample_request_def utc_time_def split: option.splits)

definition crash_at :: "nat \<Rightarrow> nat \<Rightarrow> fault" where
  "crash_at k n = (if n < k then Fine else Fails 0 (Failed [Str ''killed'']))"

lemma crash_clean: "\<forall>n. clean_fail (crash_at k n)"
  by (simp add: clean_fail_def crash_at_def)

definition crashed :: world where
  "crashed = snd (CommitUnderRootLock (mk_owner ''/r'') sample_request (process sample_tree NoFile (crash_at 7)))"

lemma sample_history: "path_base (History (mk_owner ''/r'')) = ''history.jsonl''"
  by code_simp

lemma sample_recordable: "recordable (mk_owner ''/r'') NoFile sample_manifest"
  by (simp add: recordable_def readable_def bytes_of_def sample_decodes sample_valid sample_encodable FamilyHistory_def
      sample_history append_check_def Replay_def last_revision_def find_last_def split: option.split)

lemma crashed_leaves: "leaves (mk_owner ''/r'') sample_request sample_tree NoFile (w_fs crashed)
    (Bytes (complete_lines (bytes_of (w_history crashed))))"
  unfolding crashed_def by (rule leaves.repairing [OF leaves.committing [OF surjective_pairing crash_clean]])

lemma crashed_history:
  obtains rs where "Replay (Bytes (complete_lines (bytes_of (w_history crashed)))) (History (mk_owner ''/r''))
    FamilyHistory = Inr (rs, [])"
proof -
  have "legal (mk_owner ''/r'') sample_tree sample_manifest NoFile (w_fs crashed) (w_history crashed)"
    unfolding crashed_def by (rule commit_legal [OF sample_startable sample_recordable crash_clean surjective_pairing])
  then show thesis
    by (rule legal_repaired_reads [OF sample_recordable, where ps = "[]"]) (simp_all add: bytes_of_def replay_def that)
qed

theorem interrupted_transaction_atomic_witness:
  "\<exists>ps w. recoverLocked (mk_owner ''/r'') ''2026-01-02T03:04:05Z''
     (process (w_fs crashed) (Bytes (complete_lines (bytes_of (w_history crashed)))) (\<lambda>_. Fine)) = (Inr ps, w) \<and>
    (old_tree sample_tree sample_manifest (w_fs w) \<and> unrecorded NoFile (w_history w) \<or>
     new_tree sample_tree sample_manifest (w_fs w) \<and> recorded sample_manifest NoFile (w_history w))"
proof -
  have "instant (rq_Now sample_request) \<le> instant ''2026-01-02T03:04:05Z''" by (simp add: sample_request_def)
  then show ?thesis
    using crashed_history interrupted_transaction_atomic [OF sample_startable sample_recordable sample_clock(1) crashed_leaves]
    by metis
qed

lemma sample_outputs_checked: "check_outputs o' sample_tree True (mf_Outputs sample_manifest) = Inr False"
proof -
  have "CheckWriteTarget o' sample_tree ''specs/a/spec.md'' = Inr ()"
    by (simp add: CheckWriteTarget_def path_Clean_def clean_step_def Let_def path_prefixes_def lstat_def sample_tree_def
        parent_dirs_def)
  moreover have "readTarget o' sample_tree ''specs/a/spec.md'' = Inr []"
    by (simp add: readTarget_def lstat_def sample_tree_def parent_dirs_def path_prefixes_def)
  ultimately show ?thesis by (simp add: resolve_def sample_path)
qed


lemma drifted_plan:
  "\<exists>m. plan (sample_request\<lparr>rq_Outputs := [\<lparr>wr_Path = ''specs/a/spec.md'', wr_Before = hash ''old'',
       wr_Bytes = Some ''new''\<rparr>]\<rparr>) = Inr m \<and>
     mf_Outputs m = [\<lparr>ou_Path = ''specs/a/spec.md'', ou_Before = hash ''old'', ou_After = hash ''new''\<rparr>]"
  by (simp add: plan_def sample_request_def sample_trim sample_path plan_record_def zero_time_def Let_def
      manifest_validate_def record_bound_def identity_def sample_valid sample_decodes)

theorem drift_refused_witness:
  "\<exists>e. CommitUnderRootLock (mk_owner ''/r'')
     (sample_request\<lparr>rq_Outputs := [\<lparr>wr_Path = ''specs/a/spec.md'', wr_Before = hash ''old'', wr_Bytes = Some ''new''\<rparr>]\<rparr>)
     (process sample_tree NoFile (\<lambda>_. Fine)) = (Inl e, process sample_tree NoFile (\<lambda>_. Fine))"
proof -
  obtain m where m: "plan (sample_request\<lparr>rq_Outputs := [\<lparr>wr_Path = ''specs/a/spec.md'', wr_Before = hash ''old'',
       wr_Bytes = Some ''new''\<rparr>]\<rparr>) = Inr m"
     "mf_Outputs m = [\<lparr>ou_Path = ''specs/a/spec.md'', ou_Before = hash ''old'', ou_After = hash ''new''\<rparr>]"
    using drifted_plan by blast
  show ?thesis
    by (rule drift_refused [OF m(1), where x = "\<lparr>ou_Path = ''specs/a/spec.md'', ou_Before = hash ''old'', ou_After = hash ''new''\<rparr>"
          and c = "[]"])
       (simp_all add: m(2) process_def sample_tree_def txn_prefix_def readTarget_def lstat_def parent_dirs_def path_prefixes_def)
qed

theorem manifest_round_trip_witness:
  "readManifest (mk_owner ''/r'') [(journal_of (mf_ID sample_manifest), NFile (journal_bytes sample_manifest))]
     (journal_of (mf_ID sample_manifest)) ''2026-01-02T03:04:05Z'' = Inr sample_manifest"
  by (rule manifest_round_trip [OF sample_validate _ sample_clock(2)])
     (use sample_startable in \<open>simp_all add: startable_def\<close>)

theorem identity_binds_witness:
  "sample_manifest = sample_manifest \<or> identity_text sample_manifest \<noteq> identity_text sample_manifest \<and>
     sha256_hex (identity_text sample_manifest) = sha256_hex (identity_text sample_manifest)"
  by (rule identity_binds [OF sample_validate sample_validate refl]) (rule json_ok_sample; simp)+

theorem validated_paths_safe_witness:
  "path_Clean ''specs/a/spec.md'' = ''specs/a/spec.md'' \<and> validHash (hash ''new'')"
  using validated_paths_safe [OF sample_validate, of "\<lparr>ou_Path = ''specs/a/spec.md'', ou_Before = [], ou_After = hash ''new''\<rparr>"]
  by simp

definition staged_tree :: fs where
  "staged_tree = [([], NDir), (stage_of (mf_ID sample_manifest), NDir),
     (stagedPath (stage_of (mf_ID sample_manifest)) 0, NFile ''new'')]"

lemma sample_staging: "staging sample_tree sample_manifest 1 staged_tree"
proof -
  let ?S = "stage_of (mf_ID sample_manifest)"
  have ne: "?S \<noteq> []" "stagedPath ?S i \<noteq> []" for i by (simp_all add: stage_of_def txn_prefix_def stagedPath_def path_join_def)
  show ?thesis
    using ne stagedPath_simps(2,3,4) [of ?S]
    by (auto simp: staging_def staged_tree_def uncommitted_def stage_ok_def staged_def sample_tree_def
        simp del: sample_manifest_simps(5))
qed

theorem late_journal_strands_witness:
  "\<exists>e' w'. write_journal (mk_owner ''/r'') sample_manifest
      (process staged_tree NoFile (\<lambda>n. if n = 0 then Late ErrInvalid else Fine)) = (Inl e', w') \<and>
    journaled sample_manifest (w_fs w') \<and> no_stage sample_manifest (w_fs w') \<and>
    (\<forall>now h f. clock_ok sample_manifest now \<longrightarrow>
       (\<exists>e''. recoverLocked (mk_owner ''/r'') now (process (w_fs w') h f) = (Inl e'', process (w_fs w') h f) \<and>
              IsCode e'' ''transaction_ambiguous''))"
  by (rule late_journal_strands [OF sample_startable check_outputs_checked [OF sample_startable sample_outputs_checked],
        where x = "\<lparr>ou_Path = ''specs/a/spec.md'', ou_Before = [], ou_After = hash ''new''\<rparr>"])
     (use sample_staging in \<open>simp_all add: process_def done_out_def sample_tree_def\<close>)

end
