(* ===== verification/PlanText.thy ===== *)
theory PlanText
  imports PlanModel Segments
begin

text \<open>
  Reading Markdown as the planner does (\<open>internal/plan/sections.go\<close>, \<open>diagnostic.go\<close> and the
  line helpers of \<open>deltas.go\<close>): lines with their byte offsets, fenced code, headings, locations,
  the regular expressions the planner matches, and the required sections of a proposal and a
  design. Offsets are \<open>nat\<close>: the code never forms a negative one. The patterns are matched by
  functions on the remaining bytes; \<open>re_space\<close> is the class \<open>\s\<close>, \<open>posix_space\<close> the class
  \<open>[:space:]\<close>.
\<close>

subsection \<open>Bytes and slices\<close>

abbreviation newline :: char where "newline \<equiv> CHR 0x0A"
abbreviation return :: char where "return \<equiv> CHR 0x0D"
abbreviation tick :: char where "tick \<equiv> CHR 0x60"

definition blank :: "char \<Rightarrow> bool" where
  "blank c \<longleftrightarrow> c = CHR '' '' \<or> c = CHR 0x09"

definition re_space :: "char \<Rightarrow> bool" where
  "re_space c \<longleftrightarrow> c \<in> {CHR '' '', CHR 0x09, newline, CHR 0x0C, return}"

definition posix_space :: "char \<Rightarrow> bool" where
  "posix_space c \<longleftrightarrow> re_space c \<or> c = CHR 0x0B"

definition word_char :: "char \<Rightarrow> bool" where
  "word_char c \<longleftrightarrow> is_lower c \<or> is_upper c \<or> is_digit c \<or> c = CHR ''_''"

text \<open>\<open>raw[from:to]\<close>, and the \<open>strings.TrimRight\<close>, \<open>HasPrefix\<close> and \<open>Fields\<close> of the library.\<close>

definition slice :: "string \<Rightarrow> nat \<Rightarrow> nat \<Rightarrow> string" where
  "slice raw from to = take (to - from) (drop from raw)"

definition trim_right :: "(char \<Rightarrow> bool) \<Rightarrow> string \<Rightarrow> string" where
  "trim_right P s = rev (dropWhile P (rev s))"

fun split_where :: "(char \<Rightarrow> bool) \<Rightarrow> string \<Rightarrow> string list" where
  "split_where P [] = [[]]"
| "split_where P (x # xs) =
     (if P x then [] # split_where P xs
      else (case split_where P xs of [] \<Rightarrow> [[x]] | w # ws \<Rightarrow> (x # w) # ws))"

definition strings_Fields :: "string \<Rightarrow> string list" where
  "strings_Fields s = filter (\<lambda>w. w \<noteq> []) (split_where is_space s)"

definition NormalizeRequirementIdentity :: "string \<Rightarrow> string" where
  "NormalizeRequirementIdentity name = lower_case (join_with CHR '' '' (strings_Fields name))"

subsection \<open>Lines\<close>

record source_line =
  ln_start :: nat
  ln_end :: nat
  ln_next :: nat
  ln_number :: nat
  ln_text :: string

definition is_line_byte :: "char \<Rightarrow> bool" where
  "is_line_byte c \<longleftrightarrow> c \<noteq> newline"

definition chop_return :: "string \<Rightarrow> string" where
  "chop_return s = (if s \<noteq> [] \<and> last s = return then butlast s else s)"

text \<open>One round of the loop of \<open>splitLines\<close>: the bytes before the newline, and those after it.\<close>

definition line_body :: "string \<Rightarrow> string" where
  "line_body raw = takeWhile is_line_byte raw"

definition line_rest :: "string \<Rightarrow> string" where
  "line_rest raw = drop 1 (dropWhile is_line_byte raw)"

lemma line_rest_shorter: "raw \<noteq> [] \<Longrightarrow> length (line_rest raw) < length raw"
  unfolding line_rest_def
  by (metis diff_less length_drop length_dropWhile_le length_greater_0_conv less_le_trans
      less_numeral_extra(1) linorder_not_less nat_less_le order.trans zero_less_diff)

function split_from :: "nat \<Rightarrow> nat \<Rightarrow> string \<Rightarrow> source_line list" where
  "split_from start number raw =
     (if raw = [] then []
      else let text = chop_return (line_body raw);
               next = start + (length raw - length (line_rest raw))
           in \<lparr>ln_start = start, ln_end = start + length text, ln_next = next,
               ln_number = number, ln_text = text\<rparr> # split_from next (Suc number) (line_rest raw))"
  by pat_completeness auto
termination
  by (relation "measure (\<lambda>(_, _, raw). length raw)") (auto simp: line_rest_shorter)

declare split_from.simps [simp del]

definition splitLines :: "string \<Rightarrow> source_line list" where
  "splitLines raw = split_from 0 1 raw"

definition trimIndent :: "string \<Rightarrow> string \<times> nat" where
  "trimIndent line = (let trimmed = dropWhile blank line in (trimmed, length line - length trimmed))"

definition markerLength :: "string \<Rightarrow> char \<Rightarrow> nat" where
  "markerLength line m = length (takeWhile (\<lambda>c. c = m) line)"

definition lineNumberAt :: "string \<Rightarrow> nat \<Rightarrow> nat" where
  "lineNumberAt raw offset = 1 + count_list (take offset raw) newline"

definition locationAt :: "string \<Rightarrow> string \<Rightarrow> nat \<Rightarrow> location" where
  "locationAt path raw offset =
     (let offset = min offset (length raw) in
      \<lparr>loc_Path = path, loc_Offset = offset, loc_Line = lineNumberAt raw offset,
       loc_Column = Suc (length (takeWhile is_line_byte (rev (take offset raw))))\<rparr>)"

subsection \<open>Fences and headings\<close>

text \<open>A fence is the marker byte and the length it was opened with; \<open>None\<close> is \<open>fence == 0\<close>.\<close>

type_synonym fence = "(char \<times> nat) option"

definition fence_opener :: "string \<Rightarrow> fence" where
  "fence_opener trimmed =
     (case trimmed of
        c # _ \<Rightarrow> if (c = tick \<or> c = CHR ''~'') \<and> 3 \<le> markerLength trimmed c
                 then Some (c, markerLength trimmed c) else None
      | [] \<Rightarrow> None)"

definition fence_closer :: "char \<Rightarrow> nat \<Rightarrow> string \<Rightarrow> bool" where
  "fence_closer c n trimmed \<longleftrightarrow>
     n \<le> markerLength trimmed c \<and> trim_space (drop (markerLength trimmed c) trimmed) = []"

record heading =
  hd_line :: source_line
  hd_level :: nat
  hd_title :: string

definition heading_text :: "string \<Rightarrow> (nat \<times> string) option" where
  "heading_text text =
     (let level = markerLength text CHR ''#'' in
      if level < 1 \<or> 6 < level \<or> length text \<le> level \<or> \<not> blank (text ! level) then None
      else let title = trim_space (drop level text) in
           if title = [] then None else Some (level, title))"

definition heading_of :: "source_line \<Rightarrow> heading list" where
  "heading_of line =
     (case heading_text (ln_text line) of
        None \<Rightarrow> []
      | Some (level, title) \<Rightarrow> [\<lparr>hd_line = line, hd_level = level, hd_title = title\<rparr>])"

fun scan_headings :: "fence \<Rightarrow> source_line option \<Rightarrow> source_line list
    \<Rightarrow> heading list \<times> source_line option" where
  "scan_headings fence opened [] = ([], opened)"
| "scan_headings fence opened (line # lines) =
     (let (trimmed, indent) = trimIndent (ln_text line) in
      case fence of
        Some (c, n) \<Rightarrow>
          if indent \<le> 3 \<and> fence_closer c n trimmed then scan_headings None None lines
          else scan_headings fence opened lines
      | None \<Rightarrow>
          if indent \<le> 3 \<and> fence_opener trimmed \<noteq> None then
            scan_headings (fence_opener trimmed) (Some line) lines
          else let (hs, op) = scan_headings None opened lines in (heading_of line @ hs, op))"

definition scanHeadings :: "source_line list \<Rightarrow> heading list \<times> source_line option" where
  "scanHeadings lines = scan_headings None None lines"

text \<open>\<open>visibleLinesAt\<close> of \<open>deltas.go\<close> closes and opens fences at any indentation.\<close>

fun visible_from :: "fence \<Rightarrow> source_line list \<Rightarrow> source_line list" where
  "visible_from fence [] = []"
| "visible_from fence (line # lines) =
     (let trimmed = dropWhile blank (ln_text line) in
      case fence of
        Some (c, n) \<Rightarrow> visible_from (if fence_closer c n trimmed then None else fence) lines
      | None \<Rightarrow>
          if fence_opener trimmed \<noteq> None then visible_from (fence_opener trimmed) lines
          else line # visible_from None lines)"

definition shift_line :: "nat \<Rightarrow> source_line \<Rightarrow> source_line" where
  "shift_line base line = line\<lparr>ln_start := ln_start line + base, ln_end := ln_end line + base,
     ln_next := ln_next line + base\<rparr>"

definition visibleLinesAt :: "string \<Rightarrow> nat \<Rightarrow> source_line list" where
  "visibleLinesAt raw base = visible_from None (map (shift_line base) (splitLines raw))"

definition visibleLines :: "string \<Rightarrow> source_line list" where
  "visibleLines raw = visibleLinesAt raw 0"

subsection \<open>Diagnostics\<close>

definition mk_diagnostic :: "string \<Rightarrow> location \<Rightarrow> string \<Rightarrow> string \<Rightarrow> diagnostic" where
  "mk_diagnostic code at message repair =
     \<lparr>dg_Code = code, dg_Location = at, dg_Message = message, dg_Repair = repair\<rparr>"

text \<open>The order of \<open>sortDiagnostics\<close>: by path, then offset, then code. The sort is stable.\<close>

datatype diag_key = Diag_key (dk_path: string) (dk_offset: nat) (dk_code: string)

instantiation diag_key :: linorder
begin

definition less_eq_diag_key :: "diag_key \<Rightarrow> diag_key \<Rightarrow> bool" where
  "less_eq_diag_key a b \<longleftrightarrow>
     dk_path a < dk_path b \<or>
     dk_path a = dk_path b \<and>
       (dk_offset a < dk_offset b \<or> dk_offset a = dk_offset b \<and> dk_code a \<le> dk_code b)"

definition less_diag_key :: "diag_key \<Rightarrow> diag_key \<Rightarrow> bool" where
  "less_diag_key a b \<longleftrightarrow>
     dk_path a < dk_path b \<or>
     dk_path a = dk_path b \<and>
       (dk_offset a < dk_offset b \<or> dk_offset a = dk_offset b \<and> dk_code a < dk_code b)"

instance
  by standard (auto simp: less_eq_diag_key_def less_diag_key_def intro: diag_key.expand)

end

definition diagnostic_key :: "diagnostic \<Rightarrow> diag_key" where
  "diagnostic_key d =
     Diag_key (loc_Path (dg_Location d)) (loc_Offset (dg_Location d)) (dg_Code d)"

definition sortDiagnostics :: "diagnostic list \<Rightarrow> diagnostic list" where
  "sortDiagnostics ds = sort_key diagnostic_key ds"

lemma set_sortDiagnostics [simp]: "set (sortDiagnostics ds) = set ds"
  by (simp add: sortDiagnostics_def)

lemma sortDiagnostics_empty [simp]: "sortDiagnostics ds = [] \<longleftrightarrow> ds = []"
  by (metis set_empty set_sortDiagnostics)

end
