(* ===== verification/PlanSections.thy ===== *)
theory PlanSections
  imports PlanText
begin

text \<open>
  The required sections of \<open>proposal.md\<close> and \<open>design.md\<close> and the requirement references of a
  design (\<open>internal/plan/sections.go\<close>): placeholder and reference patterns,
  \<open>parseRequiredSections\<close>, \<open>parseReferences\<close>, \<open>ParseProposal\<close> and \<open>ParseDesign\<close>.
\<close>

subsection \<open>Patterns\<close>

text \<open>A word \<open>w\<close> standing alone here: the byte before is not a word character, nor the one after.\<close>

definition word_here :: "(string \<Rightarrow> string) \<Rightarrow> string \<Rightarrow> string \<Rightarrow> bool" where
  "word_here norm w s \<longleftrightarrow> norm (take (length w) s) = w \<and>
     (case drop (length w) s of [] \<Rightarrow> True | c # _ \<Rightarrow> \<not> word_char c)"

definition angle_here :: "string \<Rightarrow> bool" where
  "angle_here s =
     (case s of
        c # cs \<Rightarrow> c = CHR ''<'' \<and>
          (let body = takeWhile (\<lambda>x. x \<notin> {CHR ''>'', return, newline}) cs in
           body \<noteq> [] \<and> has_prefix (drop (length body) cs) ''>'')
      | [] \<Rightarrow> False)"

text \<open>\<open>placeholderPattern\<close>: \<open>(?i)(<[^>\r\n]+>|\bTODO\b|\bTBD\b)\<close>, searched from a position whose
  previous byte is a word character or not.\<close>

fun placeholder_from :: "bool \<Rightarrow> string \<Rightarrow> bool" where
  "placeholder_from inside [] = False"
| "placeholder_from inside (c # cs) =
     (angle_here (c # cs) \<or>
      \<not> inside \<and> (word_here lower_case ''todo'' (c # cs) \<or> word_here lower_case ''tbd'' (c # cs)) \<or>
      placeholder_from (word_char c) cs)"

definition placeholderPattern :: "string \<Rightarrow> bool" where
  "placeholderPattern s = placeholder_from False s"

text \<open>\<open>referenceLike\<close>: a run without slash and space, \<open>/Requirement:\<close> in any case, and the rest of
  the line. All matches, left to right, with their offsets.\<close>

definition reference_run :: "string \<Rightarrow> string" where
  "reference_run s = takeWhile (\<lambda>c. c \<noteq> CHR ''/'' \<and> \<not> posix_space c) s"

definition requirement_sign :: string where
  "requirement_sign = ''/Requirement:''"

definition reference_here :: "string \<Rightarrow> string option" where
  "reference_here s =
     (let run = reference_run s; rest = drop (length run) s; k = length requirement_sign in
      if run \<noteq> [] \<and> lower_case (take k rest) = lower_case requirement_sign then
        Some (run @ take k rest @ takeWhile (\<lambda>c. c \<noteq> return \<and> c \<noteq> newline) (drop k rest))
      else None)"

lemma reference_here_ne: "reference_here s = Some m \<Longrightarrow> m \<noteq> []"
  by (auto simp: reference_here_def Let_def split: if_splits)

function referenceLike :: "nat \<Rightarrow> string \<Rightarrow> (nat \<times> string) list" where
  "referenceLike i s =
     (if s = [] then []
      else case reference_here s of
        None \<Rightarrow> referenceLike (Suc i) (tl s)
      | Some m \<Rightarrow> (i, m) # referenceLike (i + length m) (drop (length m) s))"
  by pat_completeness auto
termination
  by (relation "measure (\<lambda>(_, s). length s)") (auto dest: reference_here_ne)

declare referenceLike.simps [simp del]

text \<open>\<open>referencePattern\<close> matching all of \<open>raw\<close>, with a requirement that is not white space: the
  capability and the trimmed requirement.\<close>

definition referencePattern :: "string \<Rightarrow> (string \<times> string) option" where
  "referencePattern raw =
     (let run = reference_run raw; rest = drop (length run) raw; k = length requirement_sign;
          value = drop k rest; name = trim_space (dropWhile blank value) in
      if segmentPattern run \<and> has_prefix rest requirement_sign \<and>
         value \<noteq> [] \<and> blank (hd value) \<and> name \<noteq> []
      then Some (run, name) else None)"

subsection \<open>Required sections\<close>

record plan_section =
  sec_Name :: string
  sec_Heading :: string
  sec_Content :: string
  sec_Location :: location
  sec_ContentFrom :: location
  sec_Placeholder :: bool

record proposal =
  prop_Source :: source
  prop_Sections :: "plan_section list"
  prop_Diagnostics :: "diagnostic list"

record design =
  des_Source :: source
  des_Sections :: "plan_section list"
  des_References :: "requirement_reference list"
  des_Diagnostics :: "diagnostic list"

definition proposalSections :: "string list" where
  "proposalSections = [''Problem'', ''Outcome'', ''Scope'', ''Non-goals'', ''Affected capabilities'']"

definition designSections :: "string list" where
  "designSections = [''Boundaries'', ''Interfaces'', ''Invariants'', ''Failure behavior'',
     ''Integration'', ''Alternatives'', ''Owner'']"

definition requiredByName :: "string list \<Rightarrow> string \<rightharpoonup> string" where
  "requiredByName required = map_of (rev (map (\<lambda>n. (lower_case n, n)) required))"

text \<open>The section of a heading, which ends at the next heading of its level or above, and what is
  wrong with it.\<close>

definition next_start :: "nat \<Rightarrow> heading list \<Rightarrow> nat \<Rightarrow> nat" where
  "next_start level hs fallback =
     (case find (\<lambda>h. hd_level h \<le> level) hs of
        None \<Rightarrow> fallback
      | Some h \<Rightarrow> ln_start (hd_line h))"

definition heading_location :: "string \<Rightarrow> heading \<Rightarrow> location" where
  "heading_location path h =
     \<lparr>loc_Path = path, loc_Offset = ln_start (hd_line h), loc_Line = ln_number (hd_line h),
      loc_Column = 1\<rparr>"

definition section_at :: "source \<Rightarrow> string \<Rightarrow> heading \<Rightarrow> heading list \<Rightarrow> plan_section" where
  "section_at src canonical h rest =
     (let raw = src_Bytes src; from = ln_next (hd_line h);
          content = slice raw from (next_start (hd_level h) rest (length raw)) in
      \<lparr>sec_Name = canonical, sec_Heading = hd_title h, sec_Content = content,
       sec_Location = heading_location (src_Path src) h,
       sec_ContentFrom = locationAt (src_Path src) raw from,
       sec_Placeholder = placeholderPattern content\<rparr>)"

definition section_faults :: "plan_section \<Rightarrow> diagnostic list" where
  "section_faults s =
     (if trim_space (sec_Content s) = [] then
        [mk_diagnostic ''section_empty'' (sec_Location s) (sec_Name s @ '' section is empty'')
           (''add concrete content under ## '' @ sec_Name s)]
      else if sec_Placeholder s then
        [mk_diagnostic ''section_placeholder'' (sec_ContentFrom s)
           (sec_Name s @ '' section contains scaffold placeholder text'')
           ''replace placeholder with concrete content'']
      else [])"

text \<open>The loop over the headings, with the names seen and those found at a wrong level.\<close>

fun scan_sections :: "source \<Rightarrow> (string \<rightharpoonup> string) \<Rightarrow> string list \<Rightarrow> string list \<Rightarrow> heading list
    \<Rightarrow> plan_section list \<times> diagnostic list \<times> string list \<times> string list" where
  "scan_sections src wanted seen malformed [] = ([], [], seen, malformed)"
| "scan_sections src wanted seen malformed (h # hs) =
     (case wanted (lower_case (hd_title h)) of
        None \<Rightarrow> scan_sections src wanted seen malformed hs
      | Some canonical \<Rightarrow>
          let at = heading_location (src_Path src) h in
          if hd_level h \<noteq> 2 then
            let (ss, ds, ends) = scan_sections src wanted seen (canonical # malformed) hs in
            (ss, mk_diagnostic ''section_level'' at (canonical @ '' must use a level-two heading'')
                   (''change heading to ## '' @ canonical) # ds, ends)
          else if canonical \<in> set seen then
            let (ss, ds, ends) = scan_sections src wanted seen malformed hs in
            (ss, mk_diagnostic ''section_duplicate'' at
                   (canonical @ '' section appears more than once'')
                   (''keep exactly one ## '' @ canonical @ '' section'') # ds, ends)
          else
            let s = section_at src canonical h hs;
                (ss, ds, ends) = scan_sections src wanted (canonical # seen) malformed hs in
            (s # ss, section_faults s @ ds, ends))"

definition missing_sections :: "source \<Rightarrow> string list \<Rightarrow> string list \<Rightarrow> diagnostic list" where
  "missing_sections src required found =
     (let raw = src_Bytes src;
          at = \<lparr>loc_Path = src_Path src, loc_Offset = length raw,
                loc_Line = lineNumberAt raw (length raw), loc_Column = 1\<rparr> in
      map (\<lambda>name. mk_diagnostic ''section_missing'' at (name @ '' section is missing'')
             (''add ## '' @ name @ '' with concrete content''))
        (filter (\<lambda>name. name \<notin> set found) required))"

definition artifact_missing :: "source \<Rightarrow> diagnostic" where
  "artifact_missing src =
     mk_diagnostic ''artifact_missing''
       \<lparr>loc_Path = src_Path src, loc_Offset = 0, loc_Line = 1, loc_Column = 1\<rparr>
       ''required planning artifact is absent'' (''create '' @ src_Path src)"

definition unterminated_fence :: "source \<Rightarrow> source_line option \<Rightarrow> diagnostic list" where
  "unterminated_fence src opened =
     (case opened of
        None \<Rightarrow> []
      | Some line \<Rightarrow>
          [mk_diagnostic ''fence_unterminated''
             \<lparr>loc_Path = src_Path src, loc_Offset = ln_start line, loc_Line = ln_number line,
              loc_Column = 1\<rparr>
             ''fenced code block is not closed'' ''close the fenced code block''])"

definition parseRequiredSections :: "source \<Rightarrow> string list \<Rightarrow> plan_section list \<times> diagnostic list" where
  "parseRequiredSections src required =
     (if \<not> src_Present src then ([], [artifact_missing src])
      else
        let (hs, opened) = scanHeadings (splitLines (src_Bytes src));
            (ss, ds, seen, malformed) = scan_sections src (requiredByName required) [] [] hs in
        (ss, sortDiagnostics (ds @ missing_sections src required (seen @ malformed) @
               unterminated_fence src opened)))"

subsection \<open>References\<close>

definition line_references :: "source \<Rightarrow> plan_section \<Rightarrow> source_line
    \<Rightarrow> requirement_reference list \<times> diagnostic list" where
  "line_references src sec line =
     (let at = (\<lambda>i. locationAt (src_Path src) (src_Bytes src)
                      (loc_Offset (sec_ContentFrom sec) + ln_start line + i));
          found = referenceLike 0 (ln_text line) in
      (concat (map (\<lambda>(i, raw). case referencePattern raw of
           None \<Rightarrow> []
         | Some (cap, req) \<Rightarrow>
             [\<lparr>ref_Capability = cap, ref_Requirement = req, ref_Location = at i\<rparr>]) found),
       concat (map (\<lambda>(i, raw). case referencePattern raw of
           None \<Rightarrow> [mk_diagnostic ''reference_syntax'' (at i)
                     ''design requirement reference is not canonical''
                     ''use <capability>/Requirement: <authored name>'']
         | Some _ \<Rightarrow> []) found)))"

fun scan_references :: "source \<Rightarrow> plan_section \<Rightarrow> fence \<Rightarrow> source_line list
    \<Rightarrow> requirement_reference list \<times> diagnostic list" where
  "scan_references src sec fence [] = ([], [])"
| "scan_references src sec fence (line # lines) =
     (let (trimmed, indent) = trimIndent (ln_text line) in
      case fence of
        Some (c, n) \<Rightarrow>
          scan_references src sec
            (if indent \<le> 3 \<and> fence_closer c n trimmed then None else fence) lines
      | None \<Rightarrow>
          if indent \<le> 3 \<and> fence_opener trimmed \<noteq> None then
            scan_references src sec (fence_opener trimmed) lines
          else
            let (rs, ds) = line_references src sec line;
                (rs', ds') = scan_references src sec None lines in
            (rs @ rs', ds @ ds'))"

definition parseReferences :: "source \<Rightarrow> plan_section \<Rightarrow> requirement_reference list \<times> diagnostic list" where
  "parseReferences src sec = scan_references src sec None (splitLines (sec_Content sec))"

definition ParseProposal :: "source \<Rightarrow> proposal" where
  "ParseProposal src =
     (let (ss, ds) = parseRequiredSections src proposalSections in
      \<lparr>prop_Source = src, prop_Sections = ss, prop_Diagnostics = ds\<rparr>)"

definition ParseDesign :: "source \<Rightarrow> design" where
  "ParseDesign src =
     (let (ss, ds) = parseRequiredSections src designSections;
          found = map (parseReferences src) ss in
      \<lparr>des_Source = src, des_Sections = ss, des_References = concat (map fst found),
       des_Diagnostics = sortDiagnostics (ds @ concat (map snd found))\<rparr>)"

end
