(* ===== verification/Deltas.thy ===== *)
theory Deltas
  imports PlanSections
begin

text \<open>
  Capability deltas (\<open>internal/plan/deltas.go\<close>): the four kinds of operation, the parser of one
  \<open>spec.md\<close> and the identity checks. Where the code appends to the operations, the diagnostics
  and \<open>hasPlaceholder\<close> through pointers, the model returns what is appended, in order.
  \<open>DiscoverCapabilityDeltas\<close>, which reads the directories, is not modelled here.
\<close>

datatype delta_kind = Added | Modified | Removed | Renamed

fun kind_text :: "delta_kind \<Rightarrow> string" where
  "kind_text Added = ''ADDED''"
| "kind_text Modified = ''MODIFIED''"
| "kind_text Removed = ''REMOVED''"
| "kind_text Renamed = ''RENAMED''"

record scenario =
  scn_Name :: string
  scn_Raw :: string
  scn_Location :: location

record requirement =
  rqm_Name :: string
  rqm_Identity :: string
  rqm_Raw :: string
  rqm_Location :: location
  rqm_Scenarios :: "scenario list"

record delta_operation =
  dop_Kind :: delta_kind
  dop_Requirement :: "requirement option"
  dop_From :: string
  dop_To :: string
  dop_Reason :: string
  dop_Migration :: string
  dop_Raw :: string
  dop_Location :: location

record capability_delta =
  cd_Capability :: string
  cd_Purpose :: string
  cd_Source :: source
  cd_Operations :: "delta_operation list"
  cd_Diagnostics :: "diagnostic list"

subsection \<open>Patterns\<close>

text \<open>\<open>normativePattern\<close>: \<open>\b(?:MUST|SHALL)\b\<close>.\<close>

fun normative_from :: "bool \<Rightarrow> string \<Rightarrow> bool" where
  "normative_from inside [] = False"
| "normative_from inside (c # cs) =
     (\<not> inside \<and> (word_here id ''MUST'' (c # cs) \<or> word_here id ''SHALL'' (c # cs)) \<or>
      normative_from (word_char c) cs)"

definition normativePattern :: "string \<Rightarrow> bool" where
  "normativePattern s = normative_from False s"

definition strip :: "string \<Rightarrow> string \<Rightarrow> string option" where
  "strip p s = (if has_prefix s p then Some (drop (length p) s) else None)"

definition strip_opt :: "string \<Rightarrow> string \<Rightarrow> string" where
  "strip_opt p s = (if has_prefix s p then drop (length p) s else s)"

definition skip_spaces :: "string \<Rightarrow> string" where
  "skip_spaces s = dropWhile re_space s"

text \<open>\<open>stepPattern\<close>: a list item with a bold or plain step word, an optional colon and white space.
  The word, in lower case.\<close>

definition step_keyword :: "string \<Rightarrow> string option" where
  "step_keyword s = find (\<lambda>w. lower_case (take (length w) s) = w) [''given'', ''and'', ''when'', ''then'']"

definition step_tail :: "string \<Rightarrow> bool" where
  "step_tail s \<longleftrightarrow>
     (let after = strip_opt ''**'' s in
      (case strip '':'' (skip_spaces after) of
         Some (c # _) \<Rightarrow> re_space c
       | _ \<Rightarrow> False) \<or>
      (case after of c # _ \<Rightarrow> re_space c | [] \<Rightarrow> False))"

definition stepPattern :: "string \<Rightarrow> string option" where
  "stepPattern text =
     Option.bind (strip ''-'' (skip_spaces text)) (\<lambda>s.
       let s = strip_opt ''**'' (skip_spaces s) in
       Option.bind (step_keyword s) (\<lambda>w.
         if step_tail (drop (length w) s) then Some w else None))"

text \<open>\<open>fieldPattern\<close> and \<open>fromToPattern\<close> on one line: the field and its trimmed value.\<close>

definition fieldPattern :: "string \<Rightarrow> (string \<times> string) option" where
  "fieldPattern text =
     (let s = skip_spaces text;
          value = (\<lambda>name. case strip (''**'' @ name @ ''**:'') s of
                     Some (c # cs) \<Rightarrow> Some (name, trim_space (c # cs)) | _ \<Rightarrow> None) in
      case value ''Reason'' of Some r \<Rightarrow> Some r | None \<Rightarrow> value ''Migration'')"

definition heading_value :: "string \<Rightarrow> string option" where
  "heading_value s =
     (case skip_spaces s of
        [] \<Rightarrow> if s = [] then None else Some []
      | t \<Rightarrow>
          let core = trim_right re_space t in
          Some (trim_space (if last core = tick \<and> 2 \<le> length core then butlast core else core)))"

definition fromToPattern :: "string \<Rightarrow> (string \<times> string) option" where
  "fromToPattern text =
     (let s = skip_spaces (strip_opt ''-'' (skip_spaces text));
          value = (\<lambda>field.
            Option.bind (strip (field @ '':'') s) (\<lambda>s.
            Option.bind (strip ''###'' (strip_opt [tick] (skip_spaces s))) (\<lambda>s.
            if s = [] \<or> \<not> re_space (hd s) then None
            else Option.bind (strip ''Requirement:'' (skip_spaces s)) (\<lambda>s.
                 map_option (Pair field) (heading_value s))))) in
      case value ''FROM'' of Some r \<Rightarrow> Some r | None \<Rightarrow> value ''TO'')"

subsection \<open>Headings of a delta\<close>

definition canonicalOperation :: "string \<Rightarrow> delta_kind option" where
  "canonicalOperation title =
     find (\<lambda>k. lower_case (trim_space title) = lower_case (kind_text k @ '' Requirements''))
       [Added, Modified, Removed, Renamed]"

definition exactOperationHeading :: "string \<Rightarrow> delta_kind \<Rightarrow> bool" where
  "exactOperationHeading title kind \<longleftrightarrow> title = kind_text kind @ '' Requirements''"

definition sectionEnd :: "heading list \<Rightarrow> heading \<Rightarrow> nat \<Rightarrow> nat" where
  "sectionEnd hs current fallback =
     (case find (\<lambda>h. ln_start (hd_line current) < ln_start (hd_line h) \<and>
                     hd_level h \<le> hd_level current) hs of
        None \<Rightarrow> fallback
      | Some h \<Rightarrow> ln_start (hd_line h))"

definition headingsWithin :: "heading list \<Rightarrow> nat \<Rightarrow> nat \<Rightarrow> heading list" where
  "headingsWithin hs from to =
     filter (\<lambda>h. from \<le> ln_start (hd_line h) \<and> ln_start (hd_line h) < to) hs"

definition normativeIn :: "string \<Rightarrow> bool" where
  "normativeIn raw = list_ex (\<lambda>l. normativePattern (ln_text l)) (visibleLines raw)"

definition requirement_prefix :: string where "requirement_prefix = ''Requirement: ''"
definition scenario_prefix :: string where "scenario_prefix = ''Scenario: ''"

definition named_requirement :: "heading \<Rightarrow> bool" where
  "named_requirement h \<longleftrightarrow> hd_level h = 3 \<and> has_prefix (hd_title h) requirement_prefix"

definition requirement_name :: "string \<Rightarrow> string" where
  "requirement_name title = trim_space (strip_opt requirement_prefix title)"

definition scenario_like :: "heading \<Rightarrow> bool" where
  "scenario_like h \<longleftrightarrow> has_prefix (lower_case (hd_title h)) ''scenario:''"

definition heading_at :: "source \<Rightarrow> heading \<Rightarrow> location" where
  "heading_at src h = locationAt (src_Path src) (src_Bytes src) (ln_start (hd_line h))"

definition requirement_heading_fault :: "source \<Rightarrow> heading \<Rightarrow> diagnostic list" where
  "requirement_heading_fault src h =
     (if hd_level h = 3 \<and> has_prefix (lower_case (hd_title h)) ''requirement:'' then
        [mk_diagnostic ''requirement_heading'' (heading_at src h)
           ''requirement must use a named level-three heading''
           ''change heading to ### Requirement: <name>'']
      else [])"

subsection \<open>ADDED and MODIFIED\<close>

definition scenario_end :: "heading list \<Rightarrow> heading \<Rightarrow> nat \<Rightarrow> nat" where
  "scenario_end children h fallback =
     (case find (\<lambda>n. ln_start (hd_line h) < ln_start (hd_line n) \<and> hd_level n \<le> 4) children of
        None \<Rightarrow> fallback
      | Some n \<Rightarrow> ln_start (hd_line n))"

definition steps_in :: "string \<Rightarrow> string \<Rightarrow> bool" where
  "steps_in w raw = list_ex (\<lambda>l. stepPattern (ln_text l) = Some w) (visibleLines raw)"

text \<open>The loop over the headings inside one requirement: the scenarios, what is wrong, the end of the
  normative text, and whether the requirement stays valid.\<close>

fun scan_scenarios :: "source \<Rightarrow> heading list \<Rightarrow> nat \<Rightarrow> nat \<Rightarrow> bool \<Rightarrow> heading list
    \<Rightarrow> scenario list \<times> diagnostic list \<times> nat \<times> bool" where
  "scan_scenarios src children blockEnd bodyEnd valid [] = ([], [], bodyEnd, valid)"
| "scan_scenarios src children blockEnd bodyEnd valid (h # hs) =
     (if hd_level h \<noteq> 4 then
        scan_scenarios src children blockEnd bodyEnd (valid \<and> \<not> scenario_like h) hs
      else if \<not> has_prefix (hd_title h) scenario_prefix then
        let (ss, ds, r) = scan_scenarios src children blockEnd bodyEnd False hs in
        (ss, mk_diagnostic ''scenario_heading'' (heading_at src h)
               ''level-four heading must be Scenario'' ''change heading to #### Scenario: <name>'' # ds, r)
      else
        let start = ln_start (hd_line h);
            stop = scenario_end children h blockEnd;
            body = slice (src_Bytes src) (ln_next (hd_line h)) stop;
            complete = steps_in ''when'' body \<and> steps_in ''then'' body;
            (ss, ds, r) = scan_scenarios src children blockEnd
                            (if bodyEnd = blockEnd then start else bodyEnd) (valid \<and> complete) hs in
        (\<lparr>scn_Name = trim_space (strip_opt scenario_prefix (hd_title h)),
          scn_Raw = slice (src_Bytes src) start stop, scn_Location = heading_at src h\<rparr> # ss,
         (if complete then []
          else [mk_diagnostic ''scenario_steps'' (heading_at src h)
                  ''scenario requires WHEN and THEN steps'' ''add observable WHEN and THEN steps'']) @ ds,
         r))"

text \<open>The end of a requirement block, and whether the heading that ends it is a scenario.\<close>

definition block_end :: "heading list \<Rightarrow> nat \<Rightarrow> nat \<times> bool" where
  "block_end rest fallback =
     (case find (\<lambda>h. hd_level h \<le> 3) rest of
        None \<Rightarrow> (fallback, False)
      | Some h \<Rightarrow> (ln_start (hd_line h), scenario_like h))"

definition requirement_operation :: "source \<Rightarrow> delta_kind \<Rightarrow> heading list \<Rightarrow> nat \<Rightarrow> heading
    \<Rightarrow> heading list \<Rightarrow> delta_operation list \<times> diagnostic list \<times> bool" where
  "requirement_operation src kind children stop h rest =
     (let bytes = src_Bytes src; start = ln_start (hd_line h); from = ln_next (hd_line h);
          (blockEnd, wrong) = block_end rest stop;
          name = requirement_name (hd_title h);
          raw = slice bytes start blockEnd; at = heading_at src h;
          (scenarios, ds, bodyEnd, valid) =
            scan_scenarios src children blockEnd blockEnd (name \<noteq> [] \<and> \<not> wrong)
              (headingsWithin children from blockEnd);
          normative = normativeIn (slice bytes from bodyEnd);
          placeholder = placeholderPattern raw;
          faults =
            (if name = [] then
               [mk_diagnostic ''requirement_name'' at ''requirement name is empty'' ''add a requirement name'']
             else []) @ ds @
            (if normative then [] else
               [mk_diagnostic ''requirement_normative'' at
                  (kind_text kind @ '' requirement needs MUST or SHALL in its normative text'')
                  ''add observable MUST or SHALL behavior'']) @
            (if scenarios \<noteq> [] then [] else
               [mk_diagnostic ''requirement_scenario'' at
                  (kind_text kind @ '' requirement needs at least one scenario'')
                  ''add #### Scenario with WHEN and THEN'']) @
            (if \<not> placeholder then [] else
               [mk_diagnostic ''delta_placeholder'' at
                  (kind_text kind @ '' requirement contains scaffold placeholder text'')
                  ''replace placeholders with concrete behavior'']);
          requirement = \<lparr>rqm_Name = name, rqm_Identity = NormalizeRequirementIdentity name,
            rqm_Raw = raw, rqm_Location = at, rqm_Scenarios = scenarios\<rparr>
      in (if valid \<and> normative \<and> scenarios \<noteq> [] \<and> \<not> placeholder then
            [\<lparr>dop_Kind = kind, dop_Requirement = Some requirement, dop_From = [], dop_To = [],
              dop_Reason = [], dop_Migration = [], dop_Raw = raw, dop_Location = at\<rparr>]
          else [], faults, placeholder))"

fun scan_requirements :: "source \<Rightarrow> delta_kind \<Rightarrow> heading list \<Rightarrow> nat \<Rightarrow> heading list
    \<Rightarrow> delta_operation list \<times> diagnostic list \<times> bool" where
  "scan_requirements src kind children stop [] = ([], [], False)"
| "scan_requirements src kind children stop (h # rest) =
     (let (ops', ds', p') = scan_requirements src kind children stop rest in
      if \<not> named_requirement h then (ops', requirement_heading_fault src h @ ds', p')
      else let (ops, ds, p) = requirement_operation src kind children stop h rest in
           (ops @ ops', ds @ ds', p \<or> p'))"

definition parseRequirementOperations :: "source \<Rightarrow> delta_kind \<Rightarrow> heading \<Rightarrow> nat \<Rightarrow> heading list
    \<Rightarrow> delta_operation list \<times> diagnostic list \<times> bool" where
  "parseRequirementOperations src kind sect stop children =
     (let levels = map (\<lambda>h. mk_diagnostic ''scenario_level'' (heading_at src h)
              ''scenario must use a level-four heading'' ''change heading to #### Scenario: <name>'')
            (filter (\<lambda>h. scenario_like h \<and> hd_level h \<noteq> 4) children);
          (ops, ds, p) = scan_requirements src kind children stop children;
          none = (if list_ex named_requirement children then [] else
            [mk_diagnostic ''operation_empty'' (heading_at src sect)
               (kind_text kind @ '' section has no complete requirements'')
               ''add ### Requirement: <name> with normative text and scenario''])
      in (ops, levels @ ds @ none, p))"

subsection \<open>REMOVED and RENAMED\<close>

definition removed_operation :: "source \<Rightarrow> nat \<Rightarrow> heading \<Rightarrow> heading list
    \<Rightarrow> delta_operation list \<times> diagnostic list" where
  "removed_operation src stop h rest =
     (let start = ln_start (hd_line h);
          raw = slice (src_Bytes src) start (fst (block_end rest stop));
          fields = map_of (rev (List.map_filter (\<lambda>l. fieldPattern (ln_text l)) (visibleLinesAt raw start)));
          reason = map_get [] fields ''Reason''; migration = map_get [] fields ''Migration'';
          name = requirement_name (hd_title h); at = heading_at src h in
      if name \<noteq> [] \<and> reason \<noteq> [] \<and> migration \<noteq> [] then
        ([\<lparr>dop_Kind = Removed,
           dop_Requirement = Some \<lparr>rqm_Name = name, rqm_Identity = NormalizeRequirementIdentity name,
             rqm_Raw = raw, rqm_Location = at, rqm_Scenarios = []\<rparr>,
           dop_From = [], dop_To = [], dop_Reason = reason, dop_Migration = migration,
           dop_Raw = raw, dop_Location = at\<rparr>], [])
      else
        ([], [mk_diagnostic ''removed_incomplete'' at
                ''REMOVED requires identity, Reason, and Migration''
                ''add ### Requirement, **Reason**:, and **Migration**:'']))"

fun scan_removed :: "source \<Rightarrow> nat \<Rightarrow> heading list \<Rightarrow> delta_operation list \<times> diagnostic list" where
  "scan_removed src stop [] = ([], [])"
| "scan_removed src stop (h # rest) =
     (let (ops', ds') = scan_removed src stop rest in
      if \<not> named_requirement h then (ops', requirement_heading_fault src h @ ds')
      else let (ops, ds) = removed_operation src stop h rest in (ops @ ops', ds @ ds'))"

definition parseRemovedOperations :: "source \<Rightarrow> heading \<Rightarrow> nat \<Rightarrow> heading list
    \<Rightarrow> delta_operation list \<times> diagnostic list" where
  "parseRemovedOperations src sect stop children =
     (let (ops, ds) = scan_removed src stop children in
      (ops, ds @ (if list_ex named_requirement children then [] else
         [mk_diagnostic ''operation_empty'' (heading_at src sect)
            ''REMOVED section has no requirements'' ''add a complete removed requirement block''])))"

definition rename_incomplete :: "location \<Rightarrow> string \<Rightarrow> string \<Rightarrow> diagnostic" where
  "rename_incomplete at message repair = mk_diagnostic ''rename_incomplete'' at message repair"

text \<open>The pairs of a RENAMED section: the open FROM with its location. The last two results are the
  FROM still open and whether any line matched.\<close>

fun scan_renames :: "source \<Rightarrow> string \<Rightarrow> string \<Rightarrow> location \<Rightarrow> source_line list
    \<Rightarrow> delta_operation list \<times> diagnostic list \<times> string \<times> bool" where
  "scan_renames src raw from at [] = ([], [], from, False)"
| "scan_renames src raw from at (l # ls) =
     (let here = locationAt (src_Path src) (src_Bytes src) (ln_start l) in
      case fromToPattern (ln_text l) of
        None \<Rightarrow> scan_renames src raw from at ls
      | Some (field, value) \<Rightarrow>
          if field = ''FROM'' then
            let (ops, ds, open_from, _) = scan_renames src raw value here ls in
            (ops, (if from = [] then [] else
                     [mk_diagnostic ''rename_duplicate'' here ''RENAMED has duplicate FROM''
                        ''split into complete FROM/TO pairs'']) @ ds, open_from, True)
          else if from \<noteq> [] then
            let (ops, ds, open_from, _) = scan_renames src raw [] at ls in
            (\<lparr>dop_Kind = Renamed, dop_Requirement = None, dop_From = from, dop_To = value,
              dop_Reason = [], dop_Migration = [], dop_Raw = raw, dop_Location = at\<rparr> # ops,
             ds, open_from, True)
          else
            let (ops, ds, open_from, _) = scan_renames src raw from at ls in
            (ops, rename_incomplete here ''RENAMED TO has no preceding FROM''
                    ''place one FROM immediately before each TO'' # ds, open_from, True))"

definition parseRenameOperations :: "source \<Rightarrow> heading \<Rightarrow> nat \<Rightarrow> delta_operation list \<times> diagnostic list" where
  "parseRenameOperations src sect stop =
     (let from = ln_next (hd_line sect); raw = slice (src_Bytes src) from stop;
          (ops, ds, open_from, matched) =
            scan_renames src raw [] no_location (visibleLinesAt raw from) in
      (ops, ds @ (if open_from \<noteq> [] \<or> \<not> matched then
         [rename_incomplete (heading_at src sect) ''RENAMED requires complete FROM and TO identities''
            ''add matching FROM and TO requirement headers''] else [])))"

subsection \<open>Identities\<close>

text \<open>\<open>lineString\<close> fills a buffer from its end; it writes the decimal digits.\<close>

fun line_digits :: "nat \<Rightarrow> string \<Rightarrow> string" where
  "line_digits v out = (if v = 0 then out else line_digits (v div 10) (digit_char (v mod 10) # out))"

declare line_digits.simps [simp del]

definition lineString :: "nat \<Rightarrow> string" where
  "lineString v = (if v = 0 then ''0'' else line_digits v [])"

lemma line_digits_show: "0 < v \<Longrightarrow> line_digits v out = show_nat v @ out"
proof (induction v out rule: line_digits.induct)
  case (1 v out)
  show ?case
  proof (cases "v < 10")
    case True
    then show ?thesis
      using "1.prems" by (simp add: line_digits.simps [of v] line_digits.simps [of 0] show_nat.simps [of v])
  next
    case False
    then have "line_digits (v div 10) (digit_char (v mod 10) # out) =
        show_nat (v div 10) @ digit_char (v mod 10) # out"
      using 1 by simp
    then show ?thesis
      using "1.prems" False by (simp add: line_digits.simps [of v] show_nat.simps [of v])
  qed
qed

lemma lineString_show: "lineString v = show_nat v"
proof (cases "v = 0")
  case True
  then show ?thesis
    unfolding lineString_def by (subst show_nat.simps) (simp add: digit_char_def)
qed (simp add: lineString_def line_digits_show)

definition acceptedRequirementIdentities :: "source \<Rightarrow> string list" where
  "acceptedRequirementIdentities accepted =
     map NormalizeRequirementIdentity
       (filter (\<lambda>n. n \<noteq> [])
         (map (\<lambda>h. requirement_name (hd_title h))
           (filter named_requirement (fst (scanHeadings (splitLines (src_Bytes accepted)))))))"

definition operation_name :: "delta_operation \<Rightarrow> string" where
  "operation_name op = (case dop_Requirement op of None \<Rightarrow> dop_From op | Some r \<Rightarrow> rqm_Name r)"

definition accepted_fault :: "string list \<Rightarrow> delta_operation \<Rightarrow> diagnostic list" where
  "accepted_fault identities op =
     (let name = operation_name op; identity = NormalizeRequirementIdentity name in
      if identity = [] then []
      else if dop_Kind op = Added \<and> identity \<in> set identities then
        [mk_diagnostic ''requirement_exists'' (dop_Location op)
           (''ADDED requirement '' @ name @ '' already exists in the accepted capability spec'')
           ''move the requirement under ## MODIFIED Requirements'']
      else if dop_Kind op \<noteq> Added \<and> identity \<notin> set identities then
        [mk_diagnostic ''requirement_unknown'' (dop_Location op)
           (kind_text (dop_Kind op) @ '' requirement '' @ name @ '' is not in the accepted capability spec'')
           ''name an accepted requirement or move it under ## ADDED Requirements'']
      else [])"

definition validateAcceptedIdentities :: "source \<Rightarrow> delta_operation list \<Rightarrow> diagnostic list" where
  "validateAcceptedIdentities accepted ops =
     (if \<not> src_Present accepted then []
      else concat (map (accepted_fault (acceptedRequirementIdentities accepted)) ops))"

definition operation_keys :: "delta_operation \<Rightarrow> string list" where
  "operation_keys op =
     (case dop_Requirement op of
        Some r \<Rightarrow> [rqm_Identity r]
      | None \<Rightarrow> [NormalizeRequirementIdentity (dop_From op), NormalizeRequirementIdentity (dop_To op)])"

definition identity_fault :: "delta_operation \<Rightarrow> delta_operation \<Rightarrow> diagnostic" where
  "identity_fault previous op =
     (let same = (dop_Kind previous = dop_Kind op);
          message = (if same then ''requirement identity is duplicated in '' @ kind_text (dop_Kind op)
                     else ''requirement identity participates in both '' @ kind_text (dop_Kind previous) @
                          '' and '' @ kind_text (dop_Kind op)) in
      mk_diagnostic (if same then ''requirement_duplicate'' else ''requirement_conflict'') (dop_Location op)
        (message @ ''; first declared at '' @ loc_Path (dop_Location previous) @ '':'' @
           lineString (loc_Line (dop_Location previous)))
        ''keep one unambiguous operation for the requirement'')"

fun check_keys :: "(string \<rightharpoonup> delta_operation) \<Rightarrow> delta_operation \<Rightarrow> string list
    \<Rightarrow> (string \<rightharpoonup> delta_operation) \<times> diagnostic list" where
  "check_keys seen op [] = (seen, [])"
| "check_keys seen op (k # ks) =
     (case seen k of
        Some previous \<Rightarrow> let (s, ds) = check_keys seen op ks in (s, identity_fault previous op # ds)
      | None \<Rightarrow> check_keys (seen(k \<mapsto> op)) op ks)"

fun check_operations :: "(string \<rightharpoonup> delta_operation) \<Rightarrow> delta_operation list \<Rightarrow> diagnostic list" where
  "check_operations seen [] = []"
| "check_operations seen (op # ops) =
     (let (seen', ds) = check_keys seen op (operation_keys op) in ds @ check_operations seen' ops)"

definition validateOperationIdentities :: "delta_operation list \<Rightarrow> diagnostic list" where
  "validateOperationIdentities ops = check_operations Map.empty ops"

subsection \<open>One capability delta\<close>

definition section_levels :: "source \<Rightarrow> heading list \<Rightarrow> diagnostic list" where
  "section_levels src hs =
     map (\<lambda>h. mk_diagnostic ''delta_section_level'' (heading_at src h)
            (hd_title h @ '' must use a level-two heading'') (''change heading to ## '' @ hd_title h))
       (filter (\<lambda>h. (canonicalOperation (hd_title h) \<noteq> None \<or>
                     lower_case (hd_title h) = ''purpose'') \<and> hd_level h \<noteq> 2) hs)"

definition end_location :: "source \<Rightarrow> location" where
  "end_location src =
     (let raw = src_Bytes src in
      \<lparr>loc_Path = src_Path src, loc_Offset = length raw, loc_Line = lineNumberAt raw (length raw),
       loc_Column = 1\<rparr>)"

text \<open>The Purpose of the delta: its bytes, what is wrong, and whether it is a placeholder.\<close>

definition parse_purpose :: "source \<Rightarrow> source \<Rightarrow> heading list \<Rightarrow> string \<times> diagnostic list \<times> bool" where
  "parse_purpose src accepted hs =
     (case filter (\<lambda>h. lower_case (hd_title h) = ''purpose'' \<and> hd_level h = 2) hs of
        [] \<Rightarrow>
          ([], if src_Present accepted then [] else
                 [mk_diagnostic ''purpose_missing'' (end_location src)
                    ''new capability delta requires Purpose'' ''add ## Purpose with concrete content''],
           False)
      | p # others \<Rightarrow>
          let start = ln_next (hd_line p); at = heading_at src p;
              purpose = slice (src_Bytes src) start (sectionEnd hs p (length (src_Bytes src)));
              placeholder = placeholderPattern purpose in
          (purpose,
           (case others of [] \<Rightarrow> [] | second # _ \<Rightarrow>
              [mk_diagnostic ''purpose_duplicate'' (heading_at src second)
                 ''Purpose section appears more than once'' ''keep exactly one ## Purpose section'']) @
           (if trim_space purpose \<noteq> [] then [] else
              [mk_diagnostic ''purpose_empty'' at ''Purpose section is empty''
                 ''add concrete capability purpose'']) @
           (if \<not> src_Present accepted then [] else
              [mk_diagnostic ''purpose_existing'' at ''existing capability delta must not repeat Purpose''
                 ''remove the ## Purpose section'']) @
           (if \<not> placeholder then [] else
              [mk_diagnostic ''delta_placeholder'' (locationAt (src_Path src) (src_Bytes src) start)
                 ''Purpose contains scaffold placeholder text'' ''replace placeholder with concrete purpose'']),
           placeholder))"

definition parse_section :: "source \<Rightarrow> heading list \<Rightarrow> delta_kind \<Rightarrow> heading
    \<Rightarrow> delta_operation list \<times> diagnostic list \<times> bool" where
  "parse_section src hs kind sect =
     (let stop = sectionEnd hs sect (length (src_Bytes src));
          children = headingsWithin hs (ln_next (hd_line sect)) stop in
      case kind of
        Removed \<Rightarrow> let (ops, ds) = parseRemovedOperations src sect stop children in (ops, ds, False)
      | Renamed \<Rightarrow> let (ops, ds) = parseRenameOperations src sect stop in (ops, ds, False)
      | _ \<Rightarrow> parseRequirementOperations src kind sect stop children)"

fun parse_sections :: "source \<Rightarrow> source \<Rightarrow> heading list \<Rightarrow> heading list
    \<Rightarrow> delta_operation list \<times> diagnostic list \<times> bool" where
  "parse_sections src accepted hs [] = ([], [], False)"
| "parse_sections src accepted hs (sect # rest) =
     (let (ops', ds', p') = parse_sections src accepted hs rest in
      case canonicalOperation (hd_title sect) of
        None \<Rightarrow> (ops', ds', p')
      | Some kind \<Rightarrow>
          if hd_level sect \<noteq> 2 then (ops', ds', p')
          else if \<not> exactOperationHeading (hd_title sect) kind then
            (ops', mk_diagnostic ''delta_heading'' (heading_at src sect)
                     ''delta operation heading is not canonical''
                     (''change heading to ## '' @ kind_text kind @ '' Requirements'') # ds', p')
          else if \<not> src_Present accepted \<and> kind \<noteq> Added then
            (ops', mk_diagnostic ''operation_new_capability'' (heading_at src sect)
                     (kind_text kind @ '' is not valid for a new capability'')
                     ''use ADDED requirements or target an existing capability'' # ds', p')
          else
            let (ops, ds, p) = parse_section src hs kind sect in (ops @ ops', ds @ ds', p \<or> p'))"

definition delta_refused :: "string \<Rightarrow> source \<Rightarrow> diagnostic \<Rightarrow> capability_delta" where
  "delta_refused capability src d =
     \<lparr>cd_Capability = capability, cd_Purpose = [], cd_Source = src, cd_Operations = [],
      cd_Diagnostics = [d]\<rparr>"

definition first_line :: "string \<Rightarrow> location" where
  "first_line path = \<lparr>loc_Path = path, loc_Offset = 0, loc_Line = 1, loc_Column = 1\<rparr>"

definition ParseCapabilityDelta :: "source \<Rightarrow> string \<Rightarrow> source \<Rightarrow> capability_delta" where
  "ParseCapabilityDelta src capability accepted =
     (if \<not> isOk (ValidateSegment capability) then
        delta_refused capability src (mk_diagnostic ''capability_unsafe'' (first_line (src_Path src))
          ''capability must be one lowercase kebab-case segment''
          ''rename capability to lowercase kebab-case'')
      else if \<not> src_Present src then
        delta_refused capability src (mk_diagnostic ''delta_missing'' (first_line (src_Path src))
          ''capability delta is absent'' (''create '' @ src_Path src))
      else
        let (hs, opened) = scanHeadings (splitLines (src_Bytes src));
            fence_ds = (case opened of None \<Rightarrow> [] | Some l \<Rightarrow>
              [mk_diagnostic ''fence_unterminated'' (locationAt (src_Path src) (src_Bytes src) (ln_start l))
                 ''fenced code block is not closed'' ''close the fenced code block'']);
            (purpose, purpose_ds, p1) = parse_purpose src accepted hs;
            (ops, section_ds, p2) = parse_sections src accepted hs hs;
            empty_ds = (if ops \<noteq> [] \<or> p1 \<or> p2 then [] else
              [mk_diagnostic ''delta_empty'' (end_location src)
                 ''delta contains no valid operations'' ''add one complete delta operation''])
        in \<lparr>cd_Capability = capability, cd_Purpose = purpose, cd_Source = src, cd_Operations = ops,
            cd_Diagnostics = sortDiagnostics (fence_ds @ section_levels src hs @ purpose_ds @ section_ds @
              empty_ds @ validateAcceptedIdentities accepted ops @ validateOperationIdentities ops)\<rparr>)"

end
