(* ===== verification/TaskTable.thy ===== *)
theory TaskTable
  imports Deltas
begin

text \<open>
  The task table of \<open>tasks.md\<close> (\<open>internal/plan/tasks.go\<close>): cells and lists, the rows, the search
  for the table, and \<open>projectTaskWaves\<close>, which refuses duplicate, unknown, self and cyclic
  dependencies and lays the tasks out in waves. The Go code iterates over a map of declared ids
  where it looks for duplicates; the diagnostics are sorted afterwards, and the model takes the ids
  in the order of their first declaration.
\<close>

subsection \<open>Cells\<close>

text \<open>The loop of \<open>parseTableRow\<close>: the cell so far (reversed), the open run of backticks, and
  whether the byte before was a backslash.\<close>

function row_cells :: "string \<Rightarrow> nat \<Rightarrow> bool \<Rightarrow> string \<Rightarrow> string list" where
  "row_cells cell ticks escaped s =
     (case s of
        [] \<Rightarrow> [trim_space (rev cell)]
      | c # cs \<Rightarrow>
          if escaped then row_cells (c # cell) ticks False cs
          else if c = CHR 0x5C then row_cells (c # cell) ticks True cs
          else if c = tick then
            let run = markerLength s tick in
            row_cells (replicate run tick @ cell)
              (if ticks = 0 then run else if ticks = run then 0 else ticks) False (drop run s)
          else if c = CHR ''|'' \<and> ticks = 0 then trim_space (rev cell) # row_cells [] ticks False cs
          else row_cells (c # cell) ticks False cs)"
  by pat_completeness auto
termination
  by (relation "measure (\<lambda>(_, _, _, s). length s)") (auto simp: markerLength_def)

declare row_cells.simps [simp del]

definition parseTableRow :: "string \<Rightarrow> string list option" where
  "parseTableRow line =
     (let l = trim_space line in
      if length l < 2 \<or> hd l \<noteq> CHR ''|'' \<or> last l \<noteq> CHR ''|'' then None
      else Some (row_cells [] 0 False (butlast (tl l))))"

definition unwrapCodeSpan :: "string \<Rightarrow> string" where
  "unwrapCodeSpan value =
     (let v = trim_space value; n = markerLength v tick in
      if 0 < n \<and> 2 * n \<le> length v \<and> has_suffix v (replicate n tick)
      then trim_space (take (length v - 2 * n) (drop n v)) else v)"

text \<open>\<open>parseTaskList\<close>: the values so far, the item being read (reversed) and the escape flag.\<close>

definition list_empty :: "location \<Rightarrow> string \<Rightarrow> diagnostic" where
  "list_empty at field = mk_diagnostic ''task_list_empty'' at
     (field @ '' contains an empty list item'') ''remove the empty list item''"

fun list_items :: "location \<Rightarrow> string \<Rightarrow> string list \<Rightarrow> string \<Rightarrow> bool \<Rightarrow> string
    \<Rightarrow> string list \<times> diagnostic list" where
  "list_items at field values item escaped [] =
     (if escaped then
        (values, [mk_diagnostic ''task_list_escape'' at (field @ '' ends with an incomplete escape'')
                    (''escape a literal semicolon as '' @ [CHR 0x5C] @ '';'')])
      else let value = trim_space (rev item) in
        if value = [] then (values, [list_empty at field])
        else (values @ [unwrapCodeSpan value], []))"
| "list_items at field values item escaped (c # cs) =
     (if escaped then
        if c = CHR '';'' \<or> c = CHR 0x5C then list_items at field values (c # item) False cs
        else (values, [mk_diagnostic ''task_list_escape'' at (field @ '' contains unsupported escape'')
                         ''escape only literal semicolons or backslashes''])
      else if c = CHR 0x5C then list_items at field values item True cs
      else if c = CHR '';'' then
        let value = trim_space (rev item) in
        if value = [] then (values, [list_empty at field])
        else list_items at field (values @ [unwrapCodeSpan value]) [] False cs
      else list_items at field values (c # item) False cs)"

definition parseTaskList :: "string \<Rightarrow> location \<Rightarrow> string \<Rightarrow> string list \<times> diagnostic list" where
  "parseTaskList raw at field =
     (let s = trim_space raw in if s = [] then ([], []) else list_items at field [] [] False s)"

definition safeTaskFile :: "string \<Rightarrow> bool" where
  "safeTaskFile value \<longleftrightarrow>
     \<not> (value = [] \<or> value = ''.'' \<or> has_suffix value ''/'' \<or>
        list_ex (\<lambda>c. c \<in> set ''*?['') value \<or> CHR 0x5C \<in> set value \<or> has_prefix value ''/'' \<or>
        (2 \<le> length value \<and> value ! 1 = CHR '':'')) \<and>
     path_Clean value = value \<and> path_Clean value \<noteq> ''..'' \<and> \<not> has_prefix (path_Clean value) ''../''"

subsection \<open>Rows\<close>

definition taskColumns :: "string list" where
  "taskColumns = [''id'', ''role'', ''files'', ''depends-on'', ''refs'', ''verify'', ''acceptance'']"

definition task_id_char :: "char \<Rightarrow> bool" where
  "task_id_char c \<longleftrightarrow> is_lower c \<or> is_upper c \<or> is_digit c \<or> c \<in> set ''._-''"

text \<open>\<open>^[A-Za-z0-9][A-Za-z0-9._-]*$\<close>.\<close>

definition taskIDPattern :: "string \<Rightarrow> bool" where
  "taskIDPattern s \<longleftrightarrow>
     (case s of
        [] \<Rightarrow> False
      | c # cs \<Rightarrow> (is_lower c \<or> is_upper c \<or> is_digit c) \<and> list_all task_id_char cs)"

text \<open>\<open>taskReferencePattern\<close>: the capability and the rest, which starts with no white space and
  holds no newline.\<close>

definition taskReferencePattern :: "string \<Rightarrow> (string \<times> string) option" where
  "taskReferencePattern s =
     (let cap = takeWhile (\<lambda>c. c \<noteq> CHR ''/'') s in
      if \<not> segmentPattern cap then None
      else Option.bind (strip requirement_sign (drop (length cap) s)) (\<lambda>r.
        let value = dropWhile blank r in
        if r = value \<or> value = [] \<or> posix_space (hd value) \<or> newline \<in> set value then None
        else Some (cap, value)))"

definition required_fields :: "task \<Rightarrow> string list \<Rightarrow> (string \<times> string \<times> string) list" where
  "required_fields t cells =
     [(task_ID t, ''task_id_empty'', ''id''), (task_Role t, ''task_role_empty'', ''role''),
      (trim_space (cells ! 2), ''task_files_empty'', ''files''),
      (trim_space (cells ! 4), ''task_refs_empty'', ''refs''),
      (task_Verify t, ''task_verify_empty'', ''verify''),
      (task_Acceptance t, ''task_acceptance_empty'', ''acceptance'')]"

definition field_faults :: "location \<Rightarrow> task \<Rightarrow> string list \<Rightarrow> diagnostic list" where
  "field_faults at t cells =
     map (\<lambda>(_, code, name). mk_diagnostic code at (''task '' @ name @ '' is required'')
            (''add a non-empty '' @ name @ '' value''))
       (filter (\<lambda>(value, _). value = []) (required_fields t cells)) @
     (if task_Role t \<noteq> [] \<and> task_Role t \<noteq> ''builder'' then
        [mk_diagnostic ''task_role'' at ''task role must be builder'' ''change role to builder''] else []) @
     (if task_ID t \<noteq> [] \<and> \<not> taskIDPattern (task_ID t) then
        [mk_diagnostic ''task_id_syntax'' at ''task id must be one stable token''
           ''use letters, digits, dot, underscore, or hyphen''] else []) @
     (if task_Acceptance t \<noteq> [] \<and> placeholderPattern (task_Acceptance t) then
        [mk_diagnostic ''task_acceptance_placeholder'' at ''task acceptance contains placeholder text''
           ''replace it with an observable result''] else []) @
     (if task_Verify t \<noteq> [] \<and> placeholderPattern (task_Verify t) then
        [mk_diagnostic ''task_verify_placeholder'' at
           ''task verification command contains placeholder text''
           ''replace it with one exact verification command''] else [])"

definition file_faults :: "location \<Rightarrow> string list \<Rightarrow> diagnostic list" where
  "file_faults at files =
     map (\<lambda>f. mk_diagnostic ''task_file_unsafe'' at (''task file path '' @ f @ '' is unsafe or unbounded'')
            ''use one project-relative file path without traversal, glob, or directory syntax'')
       (filter (\<lambda>f. \<not> safeTaskFile f) files)"

definition dependency_faults :: "location \<Rightarrow> string list \<Rightarrow> diagnostic list" where
  "dependency_faults at deps =
     map (\<lambda>d. mk_diagnostic ''task_dependency_syntax'' at
            (''dependency '' @ d @ '' is not a stable task id'') ''use one valid task id token'')
       (filter (\<lambda>d. \<not> taskIDPattern d) deps)"

definition reference_faults :: "location \<Rightarrow> string list \<Rightarrow> diagnostic list" where
  "reference_faults at refs =
     map (\<lambda>r. mk_diagnostic ''task_ref_syntax'' at (''task reference '' @ r @ '' has invalid syntax'')
            ''use <capability>/Requirement: <authored name>'')
       (filter (\<lambda>r. taskReferencePattern r = None) refs)"

definition task_references :: "location \<Rightarrow> string list \<Rightarrow> requirement_reference list" where
  "task_references at refs =
     map (\<lambda>(cap, req). \<lparr>ref_Capability = cap, ref_Requirement = trim_space req, ref_Location = at\<rparr>)
       (List.map_filter taskReferencePattern refs)"

definition parseTaskRow :: "source \<Rightarrow> source_line \<Rightarrow> string list \<Rightarrow> task \<times> diagnostic list" where
  "parseTaskRow src line cells =
     (let at = locationAt (src_Path src) (src_Bytes src) (ln_start line);
          (files, ds1) = parseTaskList (cells ! 2) at ''files'';
          (deps, ds2) = parseTaskList (cells ! 3) at ''depends-on'';
          (refs, ds3) = parseTaskList (cells ! 4) at ''refs'';
          t = \<lparr>task_ID = trim_space (cells ! 0), task_Role = trim_space (cells ! 1),
               task_Files = files, task_DependsOn = deps, task_References = task_references at refs,
               task_Verify = unwrapCodeSpan (cells ! 5), task_Acceptance = trim_space (cells ! 6),
               task_Source = slice (src_Bytes src) (ln_start line) (ln_next line),
               task_Location = at, task_Valid = True\<rparr>;
          ds = field_faults at t cells @ ds1 @ file_faults at files @ ds2 @ dependency_faults at deps @
               ds3 @ reference_faults at refs
      in (if ds = [] then t
          else t\<lparr>task_Valid := False, task_Files := [], task_DependsOn := []\<rparr>, ds))"

definition isTaskHeader :: "string \<Rightarrow> bool" where
  "isTaskHeader line =
     (case parseTableRow line of
        None \<Rightarrow> False
      | Some cells \<Rightarrow> length cells = length taskColumns \<and> map trim_space cells = taskColumns)"

text \<open>\<open>strings.Trim(cell, "-") != ""\<close> is a byte other than the dash.\<close>

definition separator_cell :: "string \<Rightarrow> bool" where
  "separator_cell cell \<longleftrightarrow>
     (let c = trim_space cell;
          c = (if has_suffix c '':'' then butlast c else c);
          c = strip_opt '':'' c
      in 3 \<le> length c \<and> list_all (\<lambda>x. x = CHR ''-'') c)"

definition isTableSeparator :: "string \<Rightarrow> bool" where
  "isTableSeparator line =
     (case parseTableRow line of
        None \<Rightarrow> False
      | Some cells \<Rightarrow> length cells = length taskColumns \<and> list_all separator_cell cells)"

subsection \<open>Dependencies\<close>

definition invalidate :: "task \<Rightarrow> task" where
  "invalidate t = t\<lparr>task_Valid := False, task_Files := []\<rparr>"

text \<open>The rows that declare an id; rows without one are not in the map.\<close>

definition declared :: "task list \<Rightarrow> string \<Rightarrow> nat list" where
  "declared ts i = (if i = [] then [] else filter (\<lambda>k. task_ID (ts ! k) = i) [0..<length ts])"

definition invalidate_rows :: "nat list \<Rightarrow> task list \<Rightarrow> task list" where
  "invalidate_rows ks ts = foldl (\<lambda>ts k. ts[k := invalidate (ts ! k)]) ts ks"

fun refuse_duplicates :: "string list \<Rightarrow> task list \<Rightarrow> diagnostic list \<times> task list" where
  "refuse_duplicates [] ts = ([], ts)"
| "refuse_duplicates (i # is) ts =
     (case filter (\<lambda>k. task_Valid (ts ! k)) (declared ts i) of
        first # second # others \<Rightarrow>
          let (ds, ts') = refuse_duplicates is (invalidate_rows (first # second # others) ts) in
          (map (\<lambda>k. mk_diagnostic ''task_id_duplicate'' (task_Location (ts ! k))
                  (''task id '' @ i @ '' duplicates line '' @ lineString (loc_Line (task_Location (ts ! first))))
                  ''give every task a unique stable id'') (second # others) @ ds, ts')
      | _ \<Rightarrow> refuse_duplicates is ts)"

definition index_valid :: "task list \<Rightarrow> string \<rightharpoonup> nat" where
  "index_valid ts = map_of (rev (map (\<lambda>k. (task_ID (ts ! k), k)) (filter (\<lambda>k. task_Valid (ts ! k)) [0..<length ts])))"

fun dependency_row :: "(string \<rightharpoonup> nat) \<Rightarrow> (string \<Rightarrow> nat list) \<Rightarrow> task \<Rightarrow> string list
    \<Rightarrow> diagnostic list \<times> bool" where
  "dependency_row byID decl t [] = ([], True)"
| "dependency_row byID decl t (d # ds) =
     (let (rest, ok) = dependency_row byID decl t ds in
      if d = task_ID t then
        (mk_diagnostic ''task_dependency_self'' (task_Location t)
           (''task '' @ task_ID t @ '' depends on itself'') ''remove the self-dependency'' # rest, False)
      else if byID d = None \<and> decl d = [] then
        (mk_diagnostic ''task_dependency_unknown'' (task_Location t)
           (''task '' @ task_ID t @ '' depends on unknown task '' @ d)
           ''add the task or remove the dependency'' # rest, False)
      else (rest, ok))"

fun check_dependencies :: "(string \<rightharpoonup> nat) \<Rightarrow> (string \<Rightarrow> nat list) \<Rightarrow> task list
    \<Rightarrow> diagnostic list \<times> task list" where
  "check_dependencies byID decl [] = ([], [])"
| "check_dependencies byID decl (t # ts) =
     (let (ds', ts') = check_dependencies byID decl ts in
      if \<not> task_Valid t then (ds', t # ts')
      else let (ds, ok) = dependency_row byID decl t (task_DependsOn t) in
           (ds @ ds', (if ok then t else invalidate t) # ts'))"

text \<open>One pass of \<open>invalidateDependentTasks\<close>: a valid task with a dependency that is not declared
  exactly once by a valid row becomes invalid, and later rows see it.\<close>

definition broken_dependency :: "(string \<Rightarrow> nat list) \<Rightarrow> task list \<Rightarrow> string \<Rightarrow> bool" where
  "broken_dependency decl ts d \<longleftrightarrow>
     length (decl d) \<noteq> 1 \<or> \<not> task_Valid (ts ! hd (decl d))"

definition invalidate_at :: "(string \<Rightarrow> nat list) \<Rightarrow> task list \<Rightarrow> nat \<Rightarrow> task list" where
  "invalidate_at decl ts k =
     (if task_Valid (ts ! k) \<and> list_ex (broken_dependency decl ts) (task_DependsOn (ts ! k))
      then ts[k := invalidate (ts ! k)] else ts)"

definition invalidate_pass :: "(string \<Rightarrow> nat list) \<Rightarrow> task list \<Rightarrow> task list" where
  "invalidate_pass decl ts = foldl (invalidate_at decl) ts [0..<length ts]"

definition valid_count :: "task list \<Rightarrow> nat" where
  "valid_count ts = length (filter task_Valid ts)"

lemma valid_count_invalidate:
  assumes "k < length ts" and "task_Valid (ts ! k)"
  shows "valid_count (ts[k := invalidate (ts ! k)]) < valid_count ts"
proof -
  have split: "ts = take k ts @ ts ! k # drop (Suc k) ts"
    using assms(1) by (rule id_take_nth_drop)
  have "ts[k := invalidate (ts ! k)] = take k ts @ invalidate (ts ! k) # drop (Suc k) ts"
    using assms(1) by (rule upd_conv_take_nth_drop)
  then show ?thesis
    using assms(2) by (subst (2) split) (simp add: valid_count_def invalidate_def)
qed

lemma length_invalidate_at [simp]: "length (invalidate_at decl ts k) = length ts"
  by (simp add: invalidate_at_def)

lemma invalidate_at_count:
  "k < length ts \<Longrightarrow> invalidate_at decl ts k = ts \<or> valid_count (invalidate_at decl ts k) < valid_count ts"
  by (auto simp: invalidate_at_def valid_count_invalidate)

lemma invalidate_fold_count:
  assumes "\<forall>k \<in> set ks. k < length ts"
  shows "foldl (invalidate_at decl) ts ks = ts \<or>
    valid_count (foldl (invalidate_at decl) ts ks) < valid_count ts"
  using assms
proof (induction ks arbitrary: ts)
  case (Cons k ks)
  then have k: "k < length ts" by simp
  have "foldl (invalidate_at decl) (invalidate_at decl ts k) ks = invalidate_at decl ts k \<or>
      valid_count (foldl (invalidate_at decl) (invalidate_at decl ts k) ks) < valid_count (invalidate_at decl ts k)"
    using Cons by simp
  then show ?case
    using invalidate_at_count [OF k, of decl] by auto
qed simp

function invalidateDependentTasks :: "(string \<Rightarrow> nat list) \<Rightarrow> task list \<Rightarrow> task list" where
  "invalidateDependentTasks decl ts =
     (let ts' = invalidate_pass decl ts in
      if ts' = ts then ts else invalidateDependentTasks decl ts')"
  by pat_completeness auto
termination
proof (relation "measure (\<lambda>(_, ts). valid_count ts)")
  fix decl :: "string \<Rightarrow> nat list" and ts x
  assume "x = invalidate_pass decl ts" "x \<noteq> ts"
  then show "((decl, x), decl, ts) \<in> measure (\<lambda>(_, ts). valid_count ts)"
    using invalidate_fold_count [of "[0..<length ts]" ts decl] by (auto simp: invalidate_pass_def)
qed simp

declare invalidateDependentTasks.simps [simp del]

subsection \<open>The search for a cycle\<close>

text \<open>
  The closure \<open>visit\<close> of \<open>projectTaskWaves\<close> works on row numbers: a mark per row, the stack, and
  the cycle when one is found (\<open>True\<close>). As in the task graph the recursion has fuel.
\<close>

record wave_dfs =
  wd_mark :: "nat \<Rightarrow> nat"
  wd_stack :: "nat list"
  wd_cycle :: "nat list"

fun row_visit :: "nat \<Rightarrow> (string \<rightharpoonup> nat) \<Rightarrow> task list \<Rightarrow> nat \<Rightarrow> wave_dfs \<Rightarrow> (bool \<times> wave_dfs) option"
and row_visit_deps :: "nat \<Rightarrow> (string \<rightharpoonup> nat) \<Rightarrow> task list \<Rightarrow> nat \<Rightarrow> string list \<Rightarrow> wave_dfs
      \<Rightarrow> (bool \<times> wave_dfs) option" where
  "row_visit 0 byID ts k s = None"
| "row_visit (Suc fuel) byID ts k s =
     (case row_visit_deps fuel byID ts k (task_DependsOn (ts ! k))
             (s\<lparr>wd_mark := (wd_mark s)(k := 1), wd_stack := wd_stack s @ [k]\<rparr>) of
        None \<Rightarrow> None
      | Some (True, s') \<Rightarrow> Some (True, s')
      | Some (False, s') \<Rightarrow>
          Some (False, s'\<lparr>wd_stack := butlast (wd_stack s'), wd_mark := (wd_mark s')(k := 2)\<rparr>))"
| "row_visit_deps fuel byID ts k [] s = Some (False, s)"
| "row_visit_deps fuel byID ts k (d # ds) s =
     (case byID d of
        None \<Rightarrow> row_visit_deps fuel byID ts k ds s
      | Some next \<Rightarrow>
          if d = task_ID (ts ! k) then row_visit_deps fuel byID ts k ds s
          else if wd_mark s next = 1 then
            Some (True, s\<lparr>wd_cycle := dropWhile (\<lambda>x. x \<noteq> next) (wd_stack s) @ [next]\<rparr>)
          else if wd_mark s next = 0 then
            (case row_visit fuel byID ts next s of
               None \<Rightarrow> None
             | Some (True, s') \<Rightarrow> Some (True, s')
             | Some (False, s') \<Rightarrow> row_visit_deps fuel byID ts k ds s')
          else row_visit_deps fuel byID ts k ds s)"

fun row_roots :: "nat \<Rightarrow> (string \<rightharpoonup> nat) \<Rightarrow> task list \<Rightarrow> nat list \<Rightarrow> wave_dfs \<Rightarrow> nat list option" where
  "row_roots fuel byID ts [] s = Some []"
| "row_roots fuel byID ts (k # ks) s =
     (if task_Valid (ts ! k) \<and> wd_mark s k = 0 then
        (case row_visit fuel byID ts k s of
           None \<Rightarrow> None
         | Some (True, s') \<Rightarrow> Some (wd_cycle s')
         | Some (False, s') \<Rightarrow> row_roots fuel byID ts ks s')
      else row_roots fuel byID ts ks s)"

definition find_row_cycle :: "task list \<Rightarrow> nat list option" where
  "find_row_cycle ts =
     row_roots (Suc (length ts)) (index_valid ts) ts [0..<length ts]
       \<lparr>wd_mark = (\<lambda>_. 0), wd_stack = [], wd_cycle = []\<rparr>"

fun join_arrow :: "string list \<Rightarrow> string" where
  "join_arrow [] = []"
| "join_arrow [w] = w"
| "join_arrow (w # ws) = w @ '' -> '' @ join_arrow ws"

definition cycle_fault :: "task list \<Rightarrow> nat list \<Rightarrow> diagnostic" where
  "cycle_fault ts cyc =
     mk_diagnostic ''task_dependency_cycle'' (task_Location (ts ! hd cyc))
       (''task dependency cycle: '' @ join_arrow (map (\<lambda>k. task_ID (ts ! k)) cyc))
       ''remove one dependency from the reported cycle''"

subsection \<open>Waves\<close>

text \<open>A round takes the tasks whose dependencies are all placed; what it takes is placed after it.\<close>

function wave_rounds :: "nat \<Rightarrow> string list \<Rightarrow> task list \<Rightarrow> task_wave list" where
  "wave_rounds n placed remaining =
     (let ready = filter (\<lambda>t. list_all (\<lambda>d. d \<in> set placed) (task_DependsOn t)) remaining;
          next = filter (\<lambda>t. \<not> list_all (\<lambda>d. d \<in> set placed) (task_DependsOn t)) remaining in
      if remaining = [] \<or> ready = [] then []
      else \<lparr>tw_Number = n, tw_Tasks = map task_ID ready\<rparr> #
           wave_rounds (Suc n) (placed @ map task_ID ready) next)"
  by pat_completeness auto
termination
proof (relation "measure (\<lambda>(_, _, ts). length ts)")
  fix n placed remaining and ready rest :: "task list"
  assume "ready = filter (\<lambda>t. list_all (\<lambda>d. d \<in> set placed) (task_DependsOn t)) remaining"
    and "rest = filter (\<lambda>t. \<not> list_all (\<lambda>d. d \<in> set placed) (task_DependsOn t)) remaining"
    and "\<not> (remaining = [] \<or> ready = [])"
  then have "length ready + length rest = length remaining" "0 < length ready"
    by (simp_all add: sum_length_filter_compl)
  then have "length rest < length remaining" by linarith
  then show "((Suc n, placed @ map task_ID ready, rest), n, placed, remaining)
      \<in> measure (\<lambda>(_, _, ts). length ts)"
    by simp
qed simp

declare wave_rounds.simps [simp del]

text \<open>\<open>None\<close> is the cycle search running out of fuel, which \<open>find_row_cycle_enough\<close> excludes.\<close>

definition projectTaskWaves :: "task list \<Rightarrow> (diagnostic list \<times> task_wave list \<times> task list) option" where
  "projectTaskWaves ts0 =
     (let ids = remdups (filter (\<lambda>i. i \<noteq> []) (map task_ID ts0));
          (ds1, ts1) = refuse_duplicates ids ts0;
          (ds2, ts2) = check_dependencies ((index_valid ts1)([] := None)) (declared ts0) ts1;
          ts3 = invalidateDependentTasks (declared ts0) ts2 in
      case find_row_cycle ts3 of
        None \<Rightarrow> None
      | Some (k # ks) \<Rightarrow>
          let ts4 = invalidateDependentTasks (declared ts0) (invalidate_rows (k # ks) ts3) in
          Some (ds1 @ ds2 @ [cycle_fault ts3 (k # ks)], [], ts4)
      | Some [] \<Rightarrow>
          Some (ds1 @ ds2, if ds1 @ ds2 \<noteq> [] then [] else wave_rounds 0 [] (filter task_Valid ts3), ts3))"

subsection \<open>The file\<close>

text \<open>The lines that start a task table, outside fences of any indentation.\<close>

fun table_starts :: "fence \<Rightarrow> nat \<Rightarrow> source_line list \<Rightarrow> nat list" where
  "table_starts fence i [] = []"
| "table_starts fence i (line # lines) =
     (let trimmed = dropWhile blank (ln_text line) in
      case fence of
        Some (c, n) \<Rightarrow> table_starts (if fence_closer c n trimmed then None else fence) (Suc i) lines
      | None \<Rightarrow>
          if fence_opener trimmed \<noteq> None then table_starts (fence_opener trimmed) (Suc i) lines
          else (if lines \<noteq> [] \<and> isTaskHeader (ln_text line) \<and> isTableSeparator (ln_text (hd lines))
                then [i] else []) @ table_starts None (Suc i) lines)"

text \<open>The rows after the separator, up to the first line that is none.\<close>

fun table_rows :: "source \<Rightarrow> source_line list \<Rightarrow> task list \<times> diagnostic list" where
  "table_rows src [] = ([], [])"
| "table_rows src (line # lines) =
     (let at = locationAt (src_Path src) (src_Bytes src) (ln_start line) in
      case parseTableRow (ln_text line) of
        None \<Rightarrow>
          if trim_space (ln_text line) \<noteq> [] \<and> has_prefix (trim_space (ln_text line)) ''|'' then
            let (ts, ds) = table_rows src lines in
            (ts, mk_diagnostic ''task_row_malformed'' at ''task row is malformed''
                   ''use a pipe-delimited row with exactly seven columns'' # ds)
          else ([], [])
      | Some cells \<Rightarrow>
          let (ts, ds) = table_rows src lines in
          if length cells \<noteq> length taskColumns then
            (ts, mk_diagnostic ''task_columns'' at ''task row must contain exactly seven columns''
                   ''make the row match the task table header'' # ds)
          else let (t, ds1) = parseTaskRow src line cells in (t # ts, ds1 @ ds))"

definition table_missing :: "source \<Rightarrow> diagnostic" where
  "table_missing src =
     mk_diagnostic ''task_table_missing'' (end_location src)
       ''tasks.md has no exact seven-column task table''
       ''add one table with columns id | role | files | depends-on | refs | verify | acceptance''"

definition ParseTasks :: "source \<Rightarrow> tasks option" where
  "ParseTasks src =
     (let result = (\<lambda>ts ws ds. \<lparr>tasks_Source = src, tasks_Tasks = ts, tasks_Waves = ws,
                                 tasks_Diagnostics = ds\<rparr>);
          lines = splitLines (src_Bytes src);
          at = (\<lambda>i. locationAt (src_Path src) (src_Bytes src) (ln_start (lines ! i))) in
      if \<not> src_Present src then Some (result [] [] [artifact_missing src])
      else case table_starts None 0 lines of
        [] \<Rightarrow> Some (result [] [] [table_missing src])
      | table # others \<Rightarrow>
          let (ts, ds) = table_rows src (drop (table + 2) lines);
              extra = map (\<lambda>i. mk_diagnostic ''task_table_duplicate'' (at i)
                        ''tasks.md has more than one task table'' ''keep exactly one task table'') others;
              none = (if ts = [] then
                [mk_diagnostic ''task_table_empty'' (at table) ''task table contains no tasks''
                   ''add one atomic builder task''] else []) in
          map_option (\<lambda>(wave_ds, waves, ts'). result ts' waves (sortDiagnostics (extra @ ds @ none @ wave_ds)))
            (projectTaskWaves ts))"

end
