(* ===== verification/Trace.thy ===== *)
theory Trace
  imports TaskTable
begin

text \<open>
  The requirement trace of a change (\<open>projectTrace\<close> of \<open>internal/plan/parse.go\<close>): every
  requirement a delta declares, the tasks that cite it, and the citations that name none, or more
  than one. The targets are shared by pointer between the map and the ordered list of the code;
  here the list is the state, and the map is the selection of the targets with a key.
\<close>

record requirement_trace =
  rt_Capability :: string
  rt_Requirement :: string
  rt_Location :: location
  rt_Tasks :: "string list"

record task_trace =
  tt_TaskID :: string
  tt_Requirements :: "requirement_reference list"

record trace =
  tr_Requirements :: "requirement_trace list"
  tr_Tasks :: "task_trace list"

definition operationRequirementNames :: "delta_operation \<Rightarrow> string list" where
  "operationRequirementNames op =
     (case dop_Requirement op of
        Some r \<Rightarrow> [rqm_Name r]
      | None \<Rightarrow> if dop_Kind op = Renamed then [dop_To op] else [])"

definition traceKey :: "string \<Rightarrow> string \<Rightarrow> string" where
  "traceKey capability requirement =
     capability @ [CHR 0x00] @ NormalizeRequirementIdentity requirement"

definition target_key :: "requirement_trace \<Rightarrow> string" where
  "target_key t = traceKey (rt_Capability t) (rt_Requirement t)"

definition trace_targets :: "capability_delta list \<Rightarrow> requirement_trace list" where
  "trace_targets deltas =
     concat (map (\<lambda>delta. concat (map (\<lambda>op. map (\<lambda>name.
       \<lparr>rt_Capability = cd_Capability delta, rt_Requirement = name, rt_Location = dop_Location op,
        rt_Tasks = []\<rparr>) (operationRequirementNames op)) (cd_Operations delta))) deltas)"

definition matching :: "requirement_trace list \<Rightarrow> requirement_reference \<Rightarrow> nat list" where
  "matching targets r =
     filter (\<lambda>k. target_key (targets ! k) = traceKey (ref_Capability r) (ref_Requirement r))
       [0..<length targets]"

definition cite :: "string \<Rightarrow> requirement_trace \<Rightarrow> requirement_trace" where
  "cite taskID t =
     (if taskID = [] \<or> taskID \<in> set (rt_Tasks t) then t else t\<lparr>rt_Tasks := rt_Tasks t @ [taskID]\<rparr>)"

text \<open>The closure \<open>resolve\<close>, on the targets and for one citation.\<close>

definition resolve_reference :: "string \<Rightarrow> string \<Rightarrow> requirement_trace list \<Rightarrow> requirement_reference
    \<Rightarrow> requirement_trace list \<times> diagnostic list" where
  "resolve_reference owner taskID targets r =
     (case matching targets r of
        [] \<Rightarrow> (targets,
          [mk_diagnostic ''trace_unknown'' (ref_Location r)
             (owner @ '' cites unknown requirement '' @ ref_Capability r @ ''/Requirement: '' @ ref_Requirement r)
             ''cite one requirement declared by this change''])
      | [k] \<Rightarrow> (targets[k := cite taskID (targets ! k)], [])
      | _ \<Rightarrow> (targets,
          [mk_diagnostic ''trace_ambiguous'' (ref_Location r)
             (owner @ '' cites an ambiguous requirement identity'')
             ''remove duplicate or contradictory requirement operations'']))"

fun resolve_references :: "string \<Rightarrow> string \<Rightarrow> requirement_trace list \<Rightarrow> requirement_reference list
    \<Rightarrow> requirement_trace list \<times> diagnostic list" where
  "resolve_references owner taskID targets [] = (targets, [])"
| "resolve_references owner taskID targets (r # rs) =
     (let (targets', ds) = resolve_reference owner taskID targets r;
          (targets'', ds') = resolve_references owner taskID targets' rs in
      (targets'', ds @ ds'))"

fun trace_tasks :: "requirement_trace list \<Rightarrow> task list
    \<Rightarrow> requirement_trace list \<times> task_trace list \<times> diagnostic list" where
  "trace_tasks targets [] = (targets, [], [])"
| "trace_tasks targets (t # ts) =
     (if \<not> task_Valid t then trace_tasks targets ts
      else
        let (targets', ds) = resolve_references (''task '' @ task_ID t) (task_ID t) targets (task_References t);
            (targets'', rows, ds') = trace_tasks targets' ts in
        (targets'', \<lparr>tt_TaskID = task_ID t, tt_Requirements = task_References t\<rparr> # rows, ds @ ds'))"

definition uncovered :: "requirement_trace \<Rightarrow> diagnostic list" where
  "uncovered t =
     (if rt_Tasks t = [] then
        [mk_diagnostic ''trace_uncovered'' (rt_Location t)
           (rt_Capability t @ ''/Requirement: '' @ rt_Requirement t @ '' has no implementing task'')
           ''add the requirement reference to one task'']
      else [])"

definition design_citations :: "design \<Rightarrow> requirement_reference list" where
  "design_citations d = filter (\<lambda>r. \<not> placeholderPattern (ref_Requirement r)) (des_References d)"

definition projectTrace :: "capability_delta list \<Rightarrow> design \<Rightarrow> tasks \<Rightarrow> trace \<times> diagnostic list" where
  "projectTrace deltas d p =
     (let (targets1, ds1) = resolve_references ''design'' [] (trace_targets deltas) (design_citations d);
          (targets2, rows, ds2) = trace_tasks targets1 (tasks_Tasks p) in
      (\<lparr>tr_Requirements = targets2, tr_Tasks = rows\<rparr>,
       sortDiagnostics (ds1 @ ds2 @ concat (map uncovered targets2))))"

end
