(* ===== verification/Reconcile.thy ===== *)
theory Reconcile
  imports Deltas Sha256
begin

text \<open>
  Reconciliation (\<open>internal/reconcile/reconcile.go\<close>): the accepted document of a capability, cut
  into its requirement blocks, and the document rebuilt from it by the operations of a delta. A
  slice expression of the code that is not in range panics, and so does the use of the requirement
  of an operation that has none: both are \<open>None\<close>.
\<close>

subsection \<open>Headings of an accepted document\<close>

record heading_line =
  hl_start :: nat
  hl_textEnd :: nat
  hl_level :: nat
  hl_title :: string

fun marker :: "string \<Rightarrow> char \<Rightarrow> nat" where
  "marker [] value = 0"
| "marker (c # cs) value = (if c = value then Suc (marker cs value) else 0)"

text \<open>One line of \<open>headings\<close>: the fence after it, and the heading it is.\<close>

definition heading_step :: "fence \<Rightarrow> nat \<Rightarrow> string \<Rightarrow> fence \<times> heading_line list" where
  "heading_step fence start line =
     (let trimmed = dropWhile blank line; indent = length line - length trimmed in
      case fence of
        Some (c, n) \<Rightarrow>
          (if indent \<le> 3 \<and> n \<le> marker trimmed c \<and> trim_space (drop (marker trimmed c) trimmed) = []
           then None else fence, [])
      | None \<Rightarrow>
          if indent \<le> 3 \<and> trimmed \<noteq> [] \<and> (hd trimmed = tick \<or> hd trimmed = CHR ''~'') \<and>
             3 \<le> marker trimmed (hd trimmed)
          then (Some (hd trimmed, marker trimmed (hd trimmed)), [])
          else
            let level = marker line CHR ''#''; text = trim_space (drop level line) in
            (None,
             if 1 \<le> level \<and> level \<le> 6 \<and> level < length line \<and> blank (line ! level) \<and> text \<noteq> []
             then [\<lparr>hl_start = start, hl_textEnd = start + length line, hl_level = level, hl_title = text\<rparr>]
             else []))"

function headings_from :: "fence \<Rightarrow> nat \<Rightarrow> string \<Rightarrow> heading_line list" where
  "headings_from fence start raw =
     (if raw = [] then []
      else let (fence', hs) = heading_step fence start (chop_return (line_body raw)) in
           hs @ headings_from fence' (start + (length raw - length (line_rest raw))) (line_rest raw))"
  by pat_completeness auto
termination
  by (relation "measure (\<lambda>(_, _, raw). length raw)") (auto simp: line_rest_shorter)

declare headings_from.simps [simp del]

definition headings :: "string \<Rightarrow> heading_line list" where
  "headings raw = headings_from None 0 raw"

definition deltaHeading :: "string \<Rightarrow> bool" where
  "deltaHeading title =
     list_ex (\<lambda>k. lower_case (trim_space title) = lower_case (kind_text k) @ '' requirements'')
       [Added, Modified, Removed, Renamed]"

subsection \<open>The accepted document\<close>

record block =
  blk_start :: nat
  blk_headEnd :: nat
  blk_end :: nat
  blk_name :: string
  blk_identity :: string

record accepted_spec =
  acc_path :: string
  acc_present :: bool
  acc_bytes :: string
  acc_blocks :: "block list"

definition heading_name :: "heading_line \<Rightarrow> string" where
  "heading_name h = requirement_name (hl_title h)"

definition is_requirement :: "heading_line \<Rightarrow> bool" where
  "is_requirement h \<longleftrightarrow> hl_level h = 3 \<and> has_prefix (hl_title h) requirement_prefix"

definition block_stop :: "nat \<Rightarrow> heading_line list \<Rightarrow> nat" where
  "block_stop fallback hs =
     (case find (\<lambda>h. hl_level h \<le> 3) hs of None \<Rightarrow> fallback | Some h \<Rightarrow> hl_start h)"

fun read_blocks :: "string \<Rightarrow> string \<Rightarrow> heading_line list \<Rightarrow> block list \<times> diagnostic list" where
  "read_blocks path raw [] = ([], [])"
| "read_blocks path raw (h # hs) =
     (let (bs, ds) = read_blocks path raw hs; at = locationAt path raw (hl_start h) in
      if hl_level h = 2 \<and> deltaHeading (hl_title h) then
        (bs, mk_diagnostic ''accepted_delta_heading'' at
               (''accepted truth must not contain a '' @ hl_title h @ '' heading'')
               ''remove the delta heading from the accepted spec'' # ds)
      else if \<not> is_requirement h then (bs, ds)
      else if heading_name h = [] then
        (bs, mk_diagnostic ''accepted_requirement_name'' at ''accepted requirement has no name''
               ''name the requirement in the accepted spec'' # ds)
      else
        (\<lparr>blk_start = hl_start h, blk_headEnd = hl_textEnd h, blk_end = block_stop (length raw) hs,
          blk_name = heading_name h, blk_identity = NormalizeRequirementIdentity (heading_name h)\<rparr> # bs,
         ds))"

fun duplicate_blocks :: "string \<Rightarrow> string \<Rightarrow> string list \<Rightarrow> block list \<Rightarrow> diagnostic list" where
  "duplicate_blocks path raw seen [] = []"
| "duplicate_blocks path raw seen (b # bs) =
     (if blk_identity b \<in> set seen then
        [mk_diagnostic ''accepted_duplicate'' (locationAt path raw (blk_start b))
           (''accepted requirement '' @ blk_name b @ '' is declared more than once'')
           ''keep one block per requirement identity in the accepted spec'']
      else []) @ duplicate_blocks path raw (blk_identity b # seen) bs"

text \<open>What the operating system says of the path: nothing there, an error, something that is not a
  regular file, or the bytes of the file.\<close>

datatype lookup = No_file | Bad_file string | Odd_file | Raw_file string

definition readAccepted :: "string \<Rightarrow> lookup \<Rightarrow> accepted_spec \<times> diagnostic list" where
  "readAccepted path found =
     (let none = \<lparr>acc_path = path, acc_present = False, acc_bytes = [], acc_blocks = []\<rparr>;
          at = locationAt path [] 0 in
      case found of
        No_file \<Rightarrow> (none, [])
      | Bad_file message \<Rightarrow>
          (none, [mk_diagnostic ''accepted_unreadable'' at message ''repair the accepted spec path and retry''])
      | Odd_file \<Rightarrow>
          (none, [mk_diagnostic ''accepted_unsafe'' at ''accepted spec must be a regular non-symlink file''
                    ''replace it with a regular file inside .specd/specs''])
      | Raw_file raw \<Rightarrow>
          let (bs, ds) = read_blocks path raw (headings raw) in
          (\<lparr>acc_path = path, acc_present = True, acc_bytes = raw, acc_blocks = bs\<rparr>,
           ds @ duplicate_blocks path raw [] bs))"

subsection \<open>Rebuilding\<close>

definition text_space :: "char \<Rightarrow> bool" where
  "text_space c \<longleftrightarrow> c = CHR '' '' \<or> c = CHR 0x09 \<or> c = return \<or> c = newline"

definition slice_in :: "string \<Rightarrow> nat \<Rightarrow> nat \<Rightarrow> string option" where
  "slice_in raw from to = (if from \<le> to \<and> to \<le> length raw then Some (slice raw from to) else None)"

definition blankLine :: "string \<Rightarrow> string" where
  "blankLine raw =
     (if raw = [] then raw
      else raw @ replicate (2 - (length raw - length (trim_right (\<lambda>c. c = newline) raw))) newline)"

text \<open>The loop of \<open>insertBlocks\<close> over the blocks, from what is written so far.\<close>

fun append_blocks :: "string \<Rightarrow> string list \<Rightarrow> string" where
  "append_blocks out [] = out"
| "append_blocks out (raw # raws) =
     append_blocks (blankLine out @ trim_right text_space raw @ [newline]) raws"

definition insertBlocks :: "string \<Rightarrow> nat \<Rightarrow> string list \<Rightarrow> string option" where
  "insertBlocks document at blocks =
     (if blocks = [] then Some document
      else Option.bind (slice_in document 0 at) (\<lambda>before.
           Option.bind (slice_in document at (length document)) (\<lambda>tail.
             let out = append_blocks before blocks in
             Some (if trim_space tail \<noteq> [] then blankLine out @ tail else out))))"

definition replaceBlock :: "string \<Rightarrow> string \<Rightarrow> string" where
  "replaceBlock raw original =
     trim_right text_space raw @ drop (length (trim_right text_space original)) original"

definition to_upper :: "char \<Rightarrow> char" where
  "to_upper c =
     (if is_lower c
      then ''ABCDEFGHIJKLMNOPQRSTUVWXYZ'' ! position c ''abcdefghijklmnopqrstuvwxyz'' else c)"

definition title :: "string \<Rightarrow> string option" where
  "title capability =
     (let words = map (\<lambda>c. if c = CHR ''-'' then CHR '' '' else c) capability in
      case words of [] \<Rightarrow> None | c # cs \<Rightarrow> Some (to_upper c # cs))"

definition newDocument :: "capability_delta \<Rightarrow> string list \<Rightarrow> string option" where
  "newDocument delta added =
     Option.bind (title (cd_Capability delta)) (\<lambda>t.
       let purpose = trim_right text_space
             (dropWhile (\<lambda>c. c = return \<or> c = newline) (cd_Purpose delta));
           out = ''# '' @ t @ [newline, newline] @ ''## Purpose'' @ [newline, newline] @ purpose @ [newline]
       in insertBlocks out (length out) added)"

text \<open>The first loop of \<open>rebuild\<close>: the added blocks, the actions by identity, and the renamings to
  a requirement that is already there.\<close>

definition rename_exists :: "delta_operation \<Rightarrow> diagnostic" where
  "rename_exists op =
     mk_diagnostic ''rename_destination_exists'' (dop_Location op)
       (''RENAMED destination '' @ dop_To op @ '' already exists in the accepted capability spec'')
       ''choose a destination name that is not already accepted''"

fun plan_actions :: "string list \<Rightarrow> delta_operation gomap \<Rightarrow> delta_operation list
    \<Rightarrow> (string list \<times> delta_operation gomap \<times> diagnostic list) option" where
  "plan_actions existing actions [] = Some ([], actions, [])"
| "plan_actions existing actions (op # ops) =
     (case dop_Kind op of
        Added \<Rightarrow> map_option (\<lambda>(added, acts, ds). (dop_Raw op # added, acts, ds))
                   (plan_actions existing actions ops)
      | Renamed \<Rightarrow>
          if NormalizeRequirementIdentity (dop_To op) \<in> set existing then
            map_option (\<lambda>(added, acts, ds). (added, acts, rename_exists op # ds))
              (plan_actions existing actions ops)
          else
            plan_actions existing
              (AList.update (NormalizeRequirementIdentity (dop_From op)) op actions) ops
      | _ \<Rightarrow>
          Option.bind (dop_Requirement op) (\<lambda>r.
            plan_actions existing (AList.update (rqm_Identity r) op actions) ops))"

definition removed_count :: "delta_operation gomap \<Rightarrow> nat" where
  "removed_count actions = length (filter (\<lambda>(_, op). dop_Kind op = Removed) actions)"

definition rebuilt_block :: "delta_operation gomap \<Rightarrow> string \<Rightarrow> block \<Rightarrow> string option" where
  "rebuilt_block actions raw b =
     (let whole = slice_in raw (blk_start b) (blk_end b) in
      case map_of actions (blk_identity b) of
        None \<Rightarrow> whole
      | Some op \<Rightarrow>
          (case dop_Kind op of
             Removed \<Rightarrow> Some []
           | Modified \<Rightarrow> map_option (replaceBlock (dop_Raw op)) whole
           | Renamed \<Rightarrow> map_option (\<lambda>body. ''### Requirement: '' @ dop_To op @ body)
                          (slice_in raw (blk_headEnd b) (blk_end b))
           | Added \<Rightarrow> Some []))"

text \<open>The second loop: what is written, the cursor, and the length after the last block.\<close>

fun write_blocks :: "delta_operation gomap \<Rightarrow> string \<Rightarrow> string \<Rightarrow> nat \<Rightarrow> nat option \<Rightarrow> block list
    \<Rightarrow> (string \<times> nat \<times> nat option) option" where
  "write_blocks actions raw out cursor insertAt [] = Some (out, cursor, insertAt)"
| "write_blocks actions raw out cursor insertAt (b # bs) =
     Option.bind (slice_in raw cursor (blk_start b)) (\<lambda>between.
     Option.bind (rebuilt_block actions raw b) (\<lambda>body.
       let out' = out @ between @ body in
       write_blocks actions raw out' (blk_end b) (Some (length out')) bs))"

definition capability_empty :: "capability_delta \<Rightarrow> diagnostic" where
  "capability_empty delta =
     mk_diagnostic ''capability_empty'' (locationAt (src_Path (cd_Source delta)) (src_Bytes (cd_Source delta)) 0)
       (''removing the last requirement would leave capability '' @ cd_Capability delta @ '' empty'')
       ''keep at least one requirement in the capability''"

definition rebuild_document :: "delta_operation gomap \<Rightarrow> string list \<Rightarrow> accepted_spec \<Rightarrow> string option" where
  "rebuild_document actions added current =
     (let raw = acc_bytes current in
      Option.bind (write_blocks actions raw [] 0 None (acc_blocks current)) (\<lambda>(out, cursor, insertAt).
      Option.bind (slice_in raw cursor (length raw)) (\<lambda>tail.
        let document = out @ tail;
            at = (case insertAt of None \<Rightarrow> length document | Some n \<Rightarrow> n) in
        insertBlocks document at added)))"

definition rebuild :: "capability_delta \<Rightarrow> accepted_spec \<Rightarrow> (diagnostic list + string) option" where
  "rebuild delta current =
     Option.bind (plan_actions (map blk_identity (acc_blocks current)) [] (cd_Operations delta))
       (\<lambda>(added, actions, conflicts).
         let remaining = int (length (acc_blocks current) + length added) - int (removed_count actions);
             ds = conflicts @
               (if acc_present current \<and> remaining = 0 then [capability_empty delta] else []) in
         if ds \<noteq> [] then Some (Inl ds)
         else map_option Inr
           (if \<not> acc_present current then newDocument delta added
            else rebuild_document actions added current))"

end
