(* ===== verification/PlanTree.thy ===== *)
theory PlanTree
  imports Trace Reconcile FileTree
begin

text \<open>
  Reading a change from the managed tree (\<open>readPlanSource\<close> and \<open>ParseChange\<close> of
  \<open>internal/plan/parse.go\<close>, \<open>DiscoverCapabilityDeltas\<close> of \<open>deltas.go\<close>) and the plan of its
  reconciliation (\<open>Build\<close> of \<open>internal/reconcile/reconcile.go\<close>). The tree does not change
  while it is read, so the second look of \<open>readPlanSource\<close> at the file agrees with the first.
  Parameters of the model, in a record: the owner, the text of a formatted message, and whether
  the target of a symbolic link exists. A path is relative to the managed directory; diagnostics
  name the absolute one.
\<close>

record tree_env =
  te_owner :: owner
  te_text :: "msg \<Rightarrow> string"
  te_link :: "string \<Rightarrow> bool"

definition path_error :: "string \<Rightarrow> string \<Rightarrow> string \<Rightarrow> error" where
  "path_error op path reason = Failed [Str op, Str '' '', Str path, Str '': '', Str reason]"

definition os_error :: "string \<Rightarrow> string \<Rightarrow> error" where
  "os_error op path = path_error op path ''not a directory''"

definition pathDiagnostic :: "tree_env \<Rightarrow> string \<Rightarrow> string \<Rightarrow> error option \<Rightarrow> diagnostic" where
  "pathDiagnostic env code path err =
     mk_diagnostic code (first_line path)
       (case err of
          None \<Rightarrow> ''managed delta path is unsafe or unreadable''
        | Some e \<Rightarrow> te_text env (error_Error e))
       ''repair the managed path and retry''"

definition absent_source :: "string \<Rightarrow> source" where
  "absent_source path = \<lparr>src_Path = path, src_Bytes = [], src_Present = False\<rparr>"

subsection \<open>Artifacts\<close>

definition artifact_unsafe :: "string \<Rightarrow> diagnostic" where
  "artifact_unsafe path = mk_diagnostic ''artifact_unsafe'' (first_line path)
     ''planning artifact must be a regular non-symlink file''
     ''replace it with a regular file inside the change''"

definition readPlanSource :: "tree_env \<Rightarrow> fs \<Rightarrow> string \<Rightarrow> error option \<Rightarrow> source \<times> diagnostic list" where
  "readPlanSource env fs p err =
     (let path = abs_path (te_owner env) p; none = absent_source path in
      case err of
        Some e \<Rightarrow> (none, [pathDiagnostic env ''artifact_path'' path (Some e)])
      | None \<Rightarrow>
          (case lstat fs p of
             Absent \<Rightarrow> (none, [])
           | Blocked \<Rightarrow> (none, [pathDiagnostic env ''artifact_unreadable'' path (Some (os_error ''open'' path))])
           | Found NLink \<Rightarrow> (none, if te_link env p then [artifact_unsafe path] else [])
           | Found NDir \<Rightarrow> (none, [artifact_unsafe path])
           | Found (NFile raw) \<Rightarrow> (none\<lparr>src_Present := True, src_Bytes := raw\<rparr>, [])))"

subsection \<open>Capability deltas\<close>

definition capability_path :: "string \<Rightarrow> string \<Rightarrow> string \<Rightarrow> diagnostic" where
  "capability_path path message repair = mk_diagnostic ''capability_path'' (first_line path) message repair"

text \<open>The accepted spec a delta targets: its source, or what is wrong with the path.\<close>

definition accepted_source :: "tree_env \<Rightarrow> fs \<Rightarrow> string \<Rightarrow> diagnostic + source" where
  "accepted_source env fs capability =
     (case AcceptedSpec (te_owner env) fs capability of
        Inl e \<Rightarrow> Inl (pathDiagnostic env ''accepted_path'' [] (Some e))
      | Inr p \<Rightarrow>
          let path = abs_path (te_owner env) p in
          (case lstat fs p of
             Absent \<Rightarrow> Inr (absent_source path)
           | Blocked \<Rightarrow> Inl (pathDiagnostic env ''accepted_unreadable'' path (Some (os_error ''lstat'' path)))
           | Found (NFile raw) \<Rightarrow> Inr \<lparr>src_Path = path, src_Bytes = raw, src_Present = True\<rparr>
           | Found _ \<Rightarrow> Inl (pathDiagnostic env ''accepted_path'' path None)))"

text \<open>One entry of the directory \<open>specs\<close>: the delta, or its diagnostics.\<close>

definition discover_entry :: "tree_env \<Rightarrow> fs \<Rightarrow> string \<Rightarrow> string \<Rightarrow> string
    \<Rightarrow> diagnostic list + capability_delta" where
  "discover_entry env fs change specs name =
     (let entry = path_join specs name; entryPath = abs_path (te_owner env) entry in
      if name = ''spec.md'' \<or> \<not> isOk (ValidateSegment name) then
        Inl [capability_path entryPath ''delta must be specs/<one-kebab-case-capability>/spec.md''
               ''move delta to one valid capability directory'']
      else if lstat fs entry \<noteq> Found NDir then
        Inl [pathDiagnostic env ''capability_path'' entryPath None]
      else if dir_names fs entry \<noteq> [''spec.md''] then
        Inl [capability_path entryPath ''capability directory must contain only spec.md''
               ''remove nested or extra delta paths'']
      else case ChangeSpec (te_owner env) fs change name of
        Inl e \<Rightarrow> Inl [pathDiagnostic env ''capability_path'' entryPath (Some e)]
      | Inr target \<Rightarrow>
          let path = abs_path (te_owner env) target; (src, ds) = readPlanSource env fs target None in
          if ds \<noteq> [] \<or> \<not> src_Present src then
            Inl (if ds \<noteq> [] then ds
                 else [mk_diagnostic ''delta_missing'' (first_line path) ''capability delta is absent''
                         (''create '' @ path)])
          else case accepted_source env fs name of
            Inl d \<Rightarrow> Inl [d]
          | Inr accepted \<Rightarrow> Inr (ParseCapabilityDelta src name accepted))"

fun discover_entries :: "tree_env \<Rightarrow> fs \<Rightarrow> string \<Rightarrow> string \<Rightarrow> string list
    \<Rightarrow> capability_delta list \<times> diagnostic list" where
  "discover_entries env fs change specs [] = ([], [])"
| "discover_entries env fs change specs (name # names) =
     (let (deltas, ds) = discover_entries env fs change specs names in
      case discover_entry env fs change specs name of
        Inl ds' \<Rightarrow> (deltas, ds' @ ds)
      | Inr delta \<Rightarrow> (delta # deltas, ds))"

definition DiscoverCapabilityDeltas :: "tree_env \<Rightarrow> fs \<Rightarrow> string
    \<Rightarrow> capability_delta list \<times> diagnostic list" where
  "DiscoverCapabilityDeltas env fs change =
     (case ChangeSpecs (te_owner env) fs change of
        Inl e \<Rightarrow> ([], [pathDiagnostic env ''delta_path'' [] (Some e)])
      | Inr specs \<Rightarrow>
          let path = abs_path (te_owner env) specs in
          (case lstat fs specs of
             Absent \<Rightarrow> ([], [])
           | Blocked \<Rightarrow> ([], [pathDiagnostic env ''delta_path'' path (Some (os_error ''lstat'' path))])
           | Found NDir \<Rightarrow>
               let (deltas, ds) = discover_entries env fs change specs (dir_names fs specs) in
               (sort_key cd_Capability deltas, sortDiagnostics ds)
           | Found _ \<Rightarrow> ([], [pathDiagnostic env ''delta_path'' path None])))"

subsection \<open>The change\<close>

record change =
  ch_Root :: string
  ch_Name :: string
  ch_Proposal :: proposal
  ch_Deltas :: "capability_delta list"
  ch_Design :: design
  ch_Tasks :: tasks
  ch_Trace :: trace
  ch_Diagnostics :: "diagnostic list"

definition no_proposal :: "source \<Rightarrow> proposal" where
  "no_proposal src = \<lparr>prop_Source = src, prop_Sections = [], prop_Diagnostics = []\<rparr>"

definition no_design :: "source \<Rightarrow> design" where
  "no_design src = \<lparr>des_Source = src, des_Sections = [], des_References = [], des_Diagnostics = []\<rparr>"

definition no_tasks :: "source \<Rightarrow> tasks" where
  "no_tasks src = \<lparr>tasks_Source = src, tasks_Tasks = [], tasks_Waves = [], tasks_Diagnostics = []\<rparr>"

definition refused_change :: "tree_env \<Rightarrow> string \<Rightarrow> diagnostic \<Rightarrow> change" where
  "refused_change env name d =
     \<lparr>ch_Root = own_root (te_owner env), ch_Name = name, ch_Proposal = no_proposal (absent_source []),
      ch_Deltas = [], ch_Design = no_design (absent_source []), ch_Tasks = no_tasks (absent_source []),
      ch_Trace = \<lparr>tr_Requirements = [], tr_Tasks = []\<rparr>, ch_Diagnostics = [d]\<rparr>"

text \<open>An artifact of the change: its path, or the fallback beside the error of the owner.\<close>

definition read_artifact :: "tree_env \<Rightarrow> fs \<Rightarrow> (error + string) \<Rightarrow> string \<Rightarrow> source \<times> diagnostic list" where
  "read_artifact env fs found fallback =
     (case found of
        Inl e \<Rightarrow> readPlanSource env fs fallback (Some e)
      | Inr p \<Rightarrow> readPlanSource env fs p None)"

definition no_delta :: "tree_env \<Rightarrow> fs \<Rightarrow> string \<Rightarrow> diagnostic" where
  "no_delta env fs name =
     (case ChangeSpecs (te_owner env) fs name of
        Inl e \<Rightarrow> pathDiagnostic env ''delta_path'' [] (Some e)
      | Inr specs \<Rightarrow> mk_diagnostic ''delta_missing'' (first_line (abs_path (te_owner env) specs))
                     ''change has no capability delta'' ''create specs/<capability>/spec.md'')"

definition parse_artifacts :: "tree_env \<Rightarrow> fs \<Rightarrow> string \<Rightarrow> string \<Rightarrow> change option" where
  "parse_artifacts env fs name dir =
     (let o' = te_owner env;
          (psrc, pds) = read_artifact env fs (ChangeProposal o' fs name) (path_join dir ''proposal.md'');
          (dsrc, dds) = read_artifact env fs (ChangeDesign o' fs name) (path_join dir ''design.md'');
          (tsrc, tds) = read_artifact env fs (ChangeTasks o' fs name) (path_join dir ''tasks.md'');
          prop = (if pds = [] then ParseProposal psrc else no_proposal psrc);
          des = (if dds = [] then ParseDesign dsrc else no_design dsrc);
          (deltas, found) = DiscoverCapabilityDeltas env fs name;
          specs = abs_path o' (path_join dir ''specs'');
          found' = map (\<lambda>d. if loc_Path (dg_Location d) = []
                     then d\<lparr>dg_Location := (dg_Location d)\<lparr>loc_Path := specs\<rparr>\<rparr> else d) found;
          discovery = (if deltas = [] \<and> found = [] then [no_delta env fs name] else found')
      in map_option (\<lambda>tks.
           let (tr, trace_ds) = projectTrace deltas des tks in
           \<lparr>ch_Root = own_root o', ch_Name = name, ch_Proposal = prop, ch_Deltas = deltas,
            ch_Design = des, ch_Tasks = tks, ch_Trace = tr,
            ch_Diagnostics = sortDiagnostics (pds @ dds @ tds @ prop_Diagnostics prop @
              des_Diagnostics des @ tasks_Diagnostics tks @ discovery @
              concat (map cd_Diagnostics deltas) @ trace_ds)\<rparr>)
           (if tds = [] then ParseTasks tsrc else Some (no_tasks tsrc)))"

definition ParseChange :: "tree_env \<Rightarrow> fs \<Rightarrow> string \<Rightarrow> change option" where
  "ParseChange env fs name =
     (let o' = te_owner env in
      case ValidateSegment name of
        Inl e \<Rightarrow> Some (refused_change env name
          (mk_diagnostic ''change_unsafe'' (first_line name) (te_text env (error_Error e))
             ''choose a lowercase kebab-case change name''))
      | Inr _ \<Rightarrow>
          (case owner_Change o' fs name of
             Inl e \<Rightarrow> Some (refused_change env name
               (pathDiagnostic env ''change_path'' (path_join (Changes o') name) (Some e)))
           | Inr dir \<Rightarrow>
               (case lstat fs dir of
                  Found NDir \<Rightarrow> parse_artifacts env fs name dir
                | Found _ \<Rightarrow> Some (refused_change env name
                    (pathDiagnostic env ''change_path'' (abs_path o' dir) None))
                | Blocked \<Rightarrow> Some (refused_change env name
                    (pathDiagnostic env ''change_path'' (abs_path o' dir)
                       (Some (os_error ''lstat'' (abs_path o' dir)))))
                | Absent \<Rightarrow> Some (refused_change env name
                    (pathDiagnostic env ''change_path'' (abs_path o' dir)
                       (Some (path_error ''lstat'' (abs_path o' dir) ''no such file or directory'')))))))"

subsection \<open>The reconciliation plan\<close>

record reconcile_operation =
  rop_Kind :: delta_kind
  rop_Requirement :: string
  rop_From :: string

record capability =
  cap_Capability :: string
  cap_DeltaPath :: string
  cap_DeltaHash :: string
  cap_AcceptedPath :: string
  cap_AcceptedHash :: string
  cap_Created :: bool
  cap_Operations :: "reconcile_operation list"
  cap_Output :: string
  cap_OutputHash :: string
  cap_NoOp :: bool

record reconcile_plan =
  pl_Root :: string
  pl_Change :: string
  pl_Capabilities :: "capability list"
  pl_Diagnostics :: "diagnostic list"
  pl_Applicable :: bool
  pl_NoOp :: bool

definition operations :: "capability_delta \<Rightarrow> reconcile_operation list" where
  "operations delta = map (\<lambda>op. case dop_Requirement op of
       Some r \<Rightarrow> \<lparr>rop_Kind = dop_Kind op, rop_Requirement = rqm_Name r, rop_From = []\<rparr>
     | None \<Rightarrow> \<lparr>rop_Kind = dop_Kind op, rop_Requirement = dop_To op, rop_From = dop_From op\<rparr>)
     (cd_Operations delta)"

definition lookup_file :: "tree_env \<Rightarrow> fs \<Rightarrow> string \<Rightarrow> lookup" where
  "lookup_file env fs p =
     (case lstat fs p of
        Absent \<Rightarrow> No_file
      | Blocked \<Rightarrow> Bad_file (te_text env (error_Error (os_error ''lstat'' (abs_path (te_owner env) p))))
      | Found (NFile raw) \<Rightarrow> Raw_file raw
      | Found _ \<Rightarrow> Odd_file)"

text \<open>One capability of the plan and its diagnostics; \<open>None\<close> is the panic of \<open>rebuild\<close>.\<close>

definition build_capability :: "capability_delta \<Rightarrow> string \<Rightarrow> lookup
    \<Rightarrow> (capability \<times> diagnostic list) option" where
  "build_capability delta path found =
     (let (current, ds) = readAccepted path found;
          c = \<lparr>cap_Capability = cd_Capability delta, cap_DeltaPath = src_Path (cd_Source delta),
               cap_DeltaHash = sha256_hex (src_Bytes (cd_Source delta)), cap_AcceptedPath = path,
               cap_AcceptedHash = (if acc_present current then sha256_hex (acc_bytes current) else []),
               cap_Created = (\<not> acc_present current), cap_Operations = operations delta,
               cap_Output = [], cap_OutputHash = [], cap_NoOp = False\<rparr> in
      if ds \<noteq> [] then Some (c, ds)
      else map_option (\<lambda>r. case r of
          Inl conflicts \<Rightarrow> (c, conflicts)
        | Inr output \<Rightarrow>
            (c\<lparr>cap_Output := output, cap_OutputHash := sha256_hex output,
               cap_NoOp := acc_present current \<and> sha256_hex output = cap_AcceptedHash c\<rparr>, []))
        (rebuild delta current))"

fun build_capabilities :: "tree_env \<Rightarrow> fs \<Rightarrow> string list \<Rightarrow> capability_delta list
    \<Rightarrow> (capability list \<times> diagnostic list) option" where
  "build_capabilities env fs seen [] = Some ([], [])"
| "build_capabilities env fs seen (delta # deltas) =
     (let at = locationAt (src_Path (cd_Source delta)) [] 0;
          refused = (\<lambda>d. map_option (\<lambda>(cs, ds). (cs, cd_Diagnostics delta @ d # ds))
                       (build_capabilities env fs seen deltas)) in
      case AcceptedSpec (te_owner env) fs (cd_Capability delta) of
        Inl e \<Rightarrow> refused (mk_diagnostic ''accepted_path'' at (te_text env (error_Error e))
                            ''resolve the capability to one safe accepted spec path'')
      | Inr p \<Rightarrow>
          let path = abs_path (te_owner env) p in
          if path \<in> set seen then
            refused (mk_diagnostic ''capability_ambiguous'' at
                       (''two deltas resolve to the accepted spec '' @ path)
                       ''keep one delta directory per capability'')
          else
            Option.bind (build_capability delta path (lookup_file env fs p)) (\<lambda>(c, ds1).
            map_option (\<lambda>(cs, ds). (c # cs, cd_Diagnostics delta @ ds1 @ ds))
              (build_capabilities env fs (path # seen) deltas)))"

definition withhold :: "capability \<Rightarrow> capability" where
  "withhold c = c\<lparr>cap_Output := [], cap_OutputHash := [], cap_NoOp := False\<rparr>"

definition Build :: "tree_env \<Rightarrow> fs \<Rightarrow> string \<Rightarrow> reconcile_plan option" where
  "Build env fs change =
     (let (deltas, found) = DiscoverCapabilityDeltas env fs change;
          mk = (\<lambda>cs ds ok noop. \<lparr>pl_Root = own_root (te_owner env), pl_Change = change,
                 pl_Capabilities = cs, pl_Diagnostics = ds, pl_Applicable = ok, pl_NoOp = noop\<rparr>) in
      map_option (\<lambda>(cs, ds).
          let all = sortDiagnostics (found @ ds) in
          if all \<noteq> [] then mk (map withhold cs) all False False
          else mk cs [] True (list_all cap_NoOp cs))
        (build_capabilities env fs [] deltas))"

end
