(* ===== verification/MarkdownScan.thy ===== *)
theory MarkdownScan
  imports Reconcile
begin

text \<open>
  What the heading scanners of \<open>plan\<close> and \<open>reconcile\<close> see of a text. The two scanners agree
  (\<open>headings_scanHeadings\<close>). The headings of a text and the fence left open at its end do not depend
  on white space at its end, and compose at line boundaries: \<open>titles\<close> and \<open>fence_after\<close> give them
  without positions, \<open>headings_cut\<close> finds the place of a heading.
\<close>

named_theorems scan_simps \<open>how titles and open fences compose\<close>

subsection \<open>The two scanners agree\<close>

lemma marker_length: "marker s c = markerLength s c"
  by (induction s) (auto simp: markerLength_def)

lemma markerLength_le: "markerLength s c \<le> length s"
  by (simp add: markerLength_def length_takeWhile_le)

definition plain_heading :: "heading \<Rightarrow> heading_line" where
  "plain_heading h =
     \<lparr>hl_start = ln_start (hd_line h), hl_textEnd = ln_end (hd_line h), hl_level = hd_level h,
      hl_title = hd_title h\<rparr>"

lemma opener_iff:
  "fence_opener t = (if t \<noteq> [] \<and> (hd t = tick \<or> hd t = CHR ''~'') \<and> 3 \<le> marker t (hd t)
     then Some (hd t, marker t (hd t)) else None)"
  by (cases t) (auto simp: fence_opener_def marker_length)

lemma scan_headings_opened: "fst (scan_headings f op ls) = fst (scan_headings f op' ls)"
proof (induction ls arbitrary: f op op')
  case (Cons line lines)
  show ?case
    by (cases f) (auto simp: Let_def split: prod.splits intro: Cons.IH; metis Cons.IH fst_conv)+
qed simp

lemma heading_of_step:
  "map plain_heading (heading_of line) =
     (let level = marker (ln_text line) CHR ''#''; text = trim_space (drop level (ln_text line)) in
      if 1 \<le> level \<and> level \<le> 6 \<and> level < length (ln_text line) \<and> blank (ln_text line ! level) \<and> text \<noteq> []
      then [\<lparr>hl_start = ln_start line, hl_textEnd = ln_end line, hl_level = level, hl_title = text\<rparr>] else [])"
  by (auto simp: heading_of_def heading_text_def plain_heading_def marker_length Let_def)

lemma scan_step:
  assumes "ln_end line = ln_start line + length (ln_text line)"
    and "heading_step f (ln_start line) (ln_text line) = (f', hs)"
  shows "map plain_heading (fst (scan_headings f op (line # lines))) =
    hs @ map plain_heading (fst (scan_headings f' op lines))"
proof (cases f)
  case None
  show ?thesis
  proof (cases "length (ln_text line) - length (dropWhile blank (ln_text line)) \<le> 3 \<and>
      fence_opener (dropWhile blank (ln_text line)) \<noteq> None")
    case True
    then have "f' = fence_opener (dropWhile blank (ln_text line))" "hs = []"
      using assms(2) None by (auto simp: heading_step_def Let_def opener_iff split: if_splits)
    then show ?thesis
      using None True scan_headings_opened [of f' "Some line" lines op]
      by (auto simp: trimIndent_def Let_def)
  next
    case False
    then have "f' = None" "hs = map plain_heading (heading_of line)"
      using assms None
      by (auto simp: heading_step_def heading_of_step Let_def opener_iff split: if_splits)
    then show ?thesis
      using None False by (auto simp: trimIndent_def Let_def split: prod.splits)
  qed
next
  case (Some cn)
  obtain c n where cn: "cn = (c, n)" by (cases cn)
  show ?thesis
    using assms(2) Some cn scan_headings_opened [of None None lines op]
    by (auto simp: heading_step_def trimIndent_def Let_def fence_closer_def marker_length split: if_splits)
qed

lemma headings_split:
  "map plain_heading (fst (scan_headings f op (split_from start n raw))) = headings_from f start raw"
proof (induction f start raw arbitrary: op n rule: headings_from.induct)
  case (1 f start raw)
  show ?case
  proof (cases "raw = []")
    case False
    obtain f' hs where step: "heading_step f start (chop_return (line_body raw)) = (f', hs)"
      by (cases "heading_step f start (chop_return (line_body raw))")
    show ?thesis
      using False step 1 [OF False step [symmetric] refl]
      by (subst split_from.simps, subst headings_from.simps) (simp add: Let_def scan_step del: scan_headings.simps)
  qed (simp add: split_from.simps headings_from.simps)
qed

text \<open>C34: The heading scanner of the reconciler and that of the planner find the same headings, at the
  same places, with the same levels and titles, in every text.\<close>
theorem headings_scanHeadings:
  "headings raw = map plain_heading (fst (scanHeadings (splitLines raw)))"
  by (simp add: headings_def scanHeadings_def splitLines_def headings_split)

subsection \<open>Titles and open fences\<close>

definition step_fence :: "fence \<Rightarrow> string \<Rightarrow> fence" where
  "step_fence f line = fst (heading_step f 0 line)"

definition step_titles :: "fence \<Rightarrow> string \<Rightarrow> (nat \<times> string) list" where
  "step_titles f line = map (\<lambda>h. (hl_level h, hl_title h)) (snd (heading_step f 0 line))"

fun scan_texts :: "fence \<Rightarrow> string list \<Rightarrow> (nat \<times> string) list \<times> fence" where
  "scan_texts f [] = ([], f)"
| "scan_texts f (l # ls) =
     (step_titles f l @ fst (scan_texts (step_fence f l) ls), snd (scan_texts (step_fence f l) ls))"

definition titles :: "fence \<Rightarrow> string \<Rightarrow> (nat \<times> string) list" where
  "titles f raw = fst (scan_texts f (split_on newline raw))"

definition fence_after :: "fence \<Rightarrow> string \<Rightarrow> fence" where
  "fence_after f raw = snd (scan_texts f (split_on newline raw))"

definition fence_ok :: "fence \<Rightarrow> bool" where
  "fence_ok f \<longleftrightarrow> (case f of None \<Rightarrow> True | Some (c, n) \<Rightarrow> 3 \<le> n \<and> (c = tick \<or> c = CHR ''~''))"

lemma fence_ok_None [simp]: "fence_ok None"
  by (simp add: fence_ok_def)

lemma fst_heading_step: "fst (heading_step f s line) = step_fence f line"
  by (auto simp: step_fence_def heading_step_def Let_def split: option.splits)

lemma snd_heading_step:
  "map (\<lambda>h. (hl_level h, hl_title h)) (snd (heading_step f s line)) = step_titles f line"
  by (auto simp: step_titles_def heading_step_def Let_def split: option.splits)

lemma fence_ok_step [simp]: "fence_ok f \<Longrightarrow> fence_ok (step_fence f line)"
  by (auto simp: step_fence_def heading_step_def fence_ok_def Let_def split: option.splits)

lemma fence_ok_scan: "fence_ok f \<Longrightarrow> fence_ok (snd (scan_texts f ls))"
  by (induction ls arbitrary: f) auto

lemma scan_texts_append [scan_simps]:
  "scan_texts f (xs @ ys) =
     (fst (scan_texts f xs) @ fst (scan_texts (snd (scan_texts f xs)) ys),
      snd (scan_texts (snd (scan_texts f xs)) ys))"
  by (induction xs arbitrary: f) auto

lemma titles_newline [scan_simps]: "titles f (a @ newline # b) = titles f a @ titles (fence_after f a) b"
  by (simp add: titles_def fence_after_def split_on_append_sep scan_texts_append)

lemma fence_after_newline [scan_simps]: "fence_after f (a @ newline # b) = fence_after (fence_after f a) b"
  by (simp add: fence_after_def split_on_append_sep scan_texts_append)

text \<open>White space at the end of a line, and lines of white space, change nothing.\<close>

definition soft :: "string \<Rightarrow> bool" where
  "soft ws \<longleftrightarrow> list_all (\<lambda>c. blank c \<or> c = return) ws"

lemma soft_space: "soft ws \<Longrightarrow> list_all is_space ws"
  by (auto simp: soft_def list_all_iff blank_def is_space_def)

lemma trim_space_soft [simp]: "soft ws \<Longrightarrow> trim_space (s @ ws) = trim_space s"
proof -
  assume "soft ws"
  then have ws: "\<forall>c \<in> set ws. is_space c" using soft_space by (simp add: list_all_iff)
  show ?thesis
  proof (cases "\<forall>c \<in> set s. is_space c")
    case True
    then show ?thesis
      using ws trim_space_empty_iff [of s] trim_space_empty_iff [of "s @ ws"] by (auto simp: list_all_iff)
  next
    case False
    then have left: "trim_left (s @ ws) = trim_left s @ ws"
      unfolding trim_left_def by (auto simp: dropWhile_append1 dropWhile_append)
    have "dropWhile is_space (rev ws @ t) = dropWhile is_space t" for t
      using ws by (metis dropWhile_append2 set_rev)
    then show ?thesis
      unfolding trim_space_def left by (simp add: trim_left_def)
  qed
qed

lemma soft_marker: "soft ws \<Longrightarrow> c = tick \<or> c = CHR ''~'' \<or> c = CHR ''#'' \<Longrightarrow> marker ws c = 0"
  by (cases ws) (auto simp: soft_def blank_def)

lemma soft_dropWhile: "soft ws \<Longrightarrow> soft (dropWhile blank ws)"
  by (auto simp: soft_def list_all_iff dest: set_dropWhileD)

lemma step_soft_line:
  assumes "soft ws" and "fence_ok f"
  shows "step_fence f ws = f \<and> step_titles f ws = []"
proof -
  let ?t = "dropWhile blank ws"
  have m: "marker ?t tick = 0" "marker ?t CHR ''~'' = 0" "marker ws CHR ''#'' = 0"
    using soft_marker [OF soft_dropWhile [OF assms(1)]] soft_marker [OF assms(1)] by simp_all
  show ?thesis
  proof (cases f)
    case None
    have "\<not> ((hd ?t = tick \<or> hd ?t = CHR ''~'') \<and> 3 \<le> marker ?t (hd ?t))"
      using m(1,2) by (metis not_numeral_le_zero)
    then have "\<not> (length ws - length ?t \<le> 3 \<and> ?t \<noteq> [] \<and> (hd ?t = tick \<or> hd ?t = CHR ''~'') \<and>
        3 \<le> marker ?t (hd ?t))" by blast
    then show ?thesis
      using None m(3) by (simp add: step_fence_def step_titles_def heading_step_def Let_def)
  next
    case (Some cn)
    obtain c n where cn: "cn = (c, n)" by (cases cn)
    then have "marker ?t c = 0" "0 < n"
      using assms(2) Some m(1,2) by (auto simp: fence_ok_def)
    then show ?thesis
      using Some cn by (simp add: step_fence_def step_titles_def heading_step_def Let_def)
  qed
qed

lemma marker_append: "marker (s @ t) c = (if list_all (\<lambda>x. x = c) s then length s + marker t c else marker s c)"
  by (induction s) auto

lemma marker_le: "marker s c \<le> length s"
  by (simp add: marker_length markerLength_le)

lemma marker_soft:
  "soft ws \<Longrightarrow> c = tick \<or> c = CHR ''~'' \<or> c = CHR ''#'' \<Longrightarrow> marker (s @ ws) c = marker s c"
proof -
  assume a: "soft ws" "c = tick \<or> c = CHR ''~'' \<or> c = CHR ''#''"
  have "list_all (\<lambda>x. x = c) s \<Longrightarrow> marker s c = length s" by (induction s) auto
  then show ?thesis by (simp add: marker_append soft_marker [OF a])
qed

lemma trim_space_drop_soft:
  "soft ws \<Longrightarrow> n \<le> length s \<Longrightarrow> trim_space (drop n (s @ ws)) = trim_space (drop n s)"
  by simp

lemma soft_append [simp]: "soft (a @ b) \<longleftrightarrow> soft a \<and> soft b"
  by (simp add: soft_def)

definition line_heading :: "nat \<Rightarrow> string \<Rightarrow> heading_line list" where
  "line_heading start line =
     (let level = marker line CHR ''#''; text = trim_space (drop level line) in
      if 1 \<le> level \<and> level \<le> 6 \<and> level < length line \<and> blank (line ! level) \<and> text \<noteq> []
      then [\<lparr>hl_start = start, hl_textEnd = start + length line, hl_level = level, hl_title = text\<rparr>]
      else [])"

lemma heading_step_None:
  "heading_step None start line =
     (if length line - length (dropWhile blank line) \<le> 3 \<and> fence_opener (dropWhile blank line) \<noteq> None
      then (fence_opener (dropWhile blank line), []) else (None, line_heading start line))"
  by (auto simp: heading_step_def line_heading_def Let_def opener_iff)

lemma heading_step_Some:
  "heading_step (Some (c, n)) start line =
     (if length line - length (dropWhile blank line) \<le> 3 \<and> fence_closer c n (dropWhile blank line)
      then None else Some (c, n), [])"
  by (simp add: heading_step_def Let_def fence_closer_def marker_length)

lemma opener_soft: "soft ws \<Longrightarrow> t \<noteq> [] \<Longrightarrow> fence_opener (t @ ws) = fence_opener t"
  using marker_soft [of ws "hd t" t] by (cases t) (auto simp: fence_opener_def marker_length simp del: marker.simps)

lemma closer_soft:
  "soft ws \<Longrightarrow> c = tick \<or> c = CHR ''~'' \<Longrightarrow> fence_closer c n (t @ ws) = fence_closer c n t"
  using marker_soft [of ws c t] trim_space_drop_soft [OF _ marker_le, of ws t c]
  by (auto simp: fence_closer_def marker_length)

lemma line_heading_soft:
  "soft ws \<Longrightarrow> map (\<lambda>h. (hl_level h, hl_title h)) (line_heading s (line @ ws)) =
     map (\<lambda>h. (hl_level h, hl_title h)) (line_heading s line)"
proof -
  assume ws: "soft ws"
  let ?n = "marker line CHR ''#''"
  have n: "marker (line @ ws) CHR ''#'' = ?n" by (rule marker_soft [OF ws]) simp
  show ?thesis
  proof (cases "?n < length line")
    case True
    then show ?thesis
      using trim_space_drop_soft [OF ws marker_le, of line "CHR ''#''"]
      by (simp add: line_heading_def Let_def n nth_append del: drop_append)
  next
    case False
    then have "drop ?n line = []" by simp
    then have "trim_space (drop ?n (line @ ws)) = []"
      using trim_space_drop_soft [OF ws marker_le, of line "CHR ''#''"] by (simp del: drop_append)
    then show ?thesis using \<open>drop ?n line = []\<close> by (simp add: line_heading_def Let_def n del: drop_append)
  qed
qed

lemma step_soft:
  assumes "soft ws" and "fence_ok f"
  shows "step_fence f (line @ ws) = step_fence f line \<and> step_titles f (line @ ws) = step_titles f line"
proof (cases "dropWhile blank line = []")
  case True
  then have "soft line" by (auto simp: soft_def list_all_iff)
  then show ?thesis
    using step_soft_line [of line f] step_soft_line [of "line @ ws" f] assms by simp
next
  case False
  let ?t = "dropWhile blank line"
  have t: "dropWhile blank (line @ ws) = ?t @ ws"
    using False by (subst dropWhile_append) auto
  have len: "length (line @ ws) - length (?t @ ws) = length line - length ?t" by simp
  show ?thesis
  proof (cases f)
    case None
    show ?thesis
      unfolding None step_fence_def step_titles_def heading_step_None t len opener_soft [OF assms(1) False]
      by (auto simp: line_heading_soft [OF assms(1)] simp del: marker.simps)
  next
    case (Some cn)
    obtain c n where cn: "cn = (c, n)" by (cases cn)
    then have c: "c = tick \<or> c = CHR ''~''" using assms(2) Some by (auto simp: fence_ok_def)
    show ?thesis
      unfolding Some cn step_fence_def step_titles_def heading_step_Some t len closer_soft [OF assms(1) c]
      by simp
  qed
qed

lemma step_soft_fence [simp]: "soft ws \<Longrightarrow> fence_ok f \<Longrightarrow> step_fence f (line @ ws) = step_fence f line"
  by (simp add: step_soft)

lemma step_soft_titles [simp]: "soft ws \<Longrightarrow> fence_ok f \<Longrightarrow> step_titles f (line @ ws) = step_titles f line"
  by (simp add: step_soft)

lemma scan_soft_lines: "list_all soft ls \<Longrightarrow> fence_ok f \<Longrightarrow> scan_texts f ls = ([], f)"
  by (induction ls) (auto simp: step_soft_line)

lemma split_on_text_space: "list_all text_space ws \<Longrightarrow> list_all soft (split_on newline ws)"
proof (induction ws)
  case (Cons c ws)
  then show ?case
    by (cases "split_on newline ws") (auto simp: soft_def text_space_def blank_def)
qed (simp add: soft_def)

lemma split_on_append_last:
  "split_on c (a @ b) = butlast (split_on c a) @ (last (split_on c a) @ hd (split_on c b)) # tl (split_on c b)"
proof (induction a)
  case Nil
  show ?case by (cases "split_on c b") auto
next
  case (Cons x a)
  then show ?case by (cases "split_on c a") auto
qed

lemma scan_trailing:
  assumes "list_all text_space ws" and "fence_ok f"
  shows "scan_texts f (split_on newline (core @ ws)) = scan_texts f (split_on newline core)"
proof -
  let ?ls = "butlast (split_on newline core)" and ?l = "last (split_on newline core)"
  have core: "split_on newline core = ?ls @ [?l]" by simp
  obtain w ws' where w: "split_on newline ws = w # ws'" by (cases "split_on newline ws") auto
  then have "soft w" "list_all soft ws'" using split_on_text_space [OF assms(1)] by auto
  moreover have ok: "fence_ok (snd (scan_texts f ?ls))" using assms(2) fence_ok_scan by blast
  ultimately have "scan_texts (snd (scan_texts f ?ls)) ((?l @ w) # ws') = scan_texts (snd (scan_texts f ?ls)) [?l]"
    using scan_soft_lines by simp
  moreover have "split_on newline (core @ ws) = ?ls @ ((?l @ w) # ws')"
    by (simp add: split_on_append_last w)
  ultimately show ?thesis
    by (subst core) (simp only: scan_texts_append)
qed

lemma titles_trailing [scan_simps]:
  "list_all text_space ws \<Longrightarrow> fence_ok f \<Longrightarrow> titles f (core @ ws) = titles f core"
  by (simp add: titles_def scan_trailing)

lemma fence_after_trailing [scan_simps]:
  "list_all text_space ws \<Longrightarrow> fence_ok f \<Longrightarrow> fence_after f (core @ ws) = fence_after f core"
  by (simp add: fence_after_def scan_trailing)

subsection \<open>Headings and positions\<close>

definition ends :: "string \<Rightarrow> bool" where
  "ends a \<longleftrightarrow> a = [] \<or> last a = newline"

lemma ends_Nil [simp]: "ends []"
  by (simp add: ends_def)

lemma ends_snoc [simp]: "ends (a @ [newline])"
  by (simp add: ends_def)

lemma ends_append: "ends a \<Longrightarrow> ends b \<Longrightarrow> ends (a @ b)"
  by (cases "b = []") (auto simp: ends_def)

lemma ends_append_right: "b \<noteq> [] \<Longrightarrow> ends (a @ b) \<longleftrightarrow> ends b"
  by (auto simp: ends_def)

lemma endsE: "ends a \<Longrightarrow> (a = [] \<Longrightarrow> P) \<Longrightarrow> (\<And>a'. a = a' @ [newline] \<Longrightarrow> P) \<Longrightarrow> P"
  by (metis append_butlast_last_id ends_def)

lemma titles_Nil [simp]: "fence_ok f \<Longrightarrow> titles f [] = []"
  and fence_after_Nil [simp]: "fence_ok f \<Longrightarrow> fence_after f [] = f"
  using step_soft_line [of "[]" f] by (simp_all add: titles_def fence_after_def soft_def)

lemma fence_ok_after [simp]: "fence_ok f \<Longrightarrow> fence_ok (fence_after f a)"
  by (simp add: fence_after_def fence_ok_scan)

lemma newline_space: "list_all text_space [newline]"
  by (simp add: text_space_def)

lemma titles_ends [scan_simps]:
  "ends a \<Longrightarrow> fence_ok f \<Longrightarrow> titles f (a @ b) = titles f a @ titles (fence_after f a) b"
  using titles_newline titles_trailing [OF newline_space] fence_after_trailing [OF newline_space]
  by (auto elim!: endsE)

lemma fence_after_ends [scan_simps]:
  "ends a \<Longrightarrow> fence_ok f \<Longrightarrow> fence_after f (a @ b) = fence_after (fence_after f a) b"
  using fence_after_newline fence_after_trailing [OF newline_space] by (auto elim!: endsE)

lemma line_split:
  "newline \<in> set raw \<Longrightarrow> raw = line_body raw @ newline # line_rest raw"
  "newline \<notin> set raw \<Longrightarrow> line_body raw = raw \<and> line_rest raw = []"
proof -
  assume "newline \<in> set raw"
  then have "dropWhile is_line_byte raw \<noteq> []" by (auto simp: dropWhile_eq_Nil_conv is_line_byte_def)
  then have "dropWhile is_line_byte raw = newline # line_rest raw"
    unfolding line_rest_def by (metis drop_Suc drop_0 One_nat_def hd_Cons_tl hd_dropWhile is_line_byte_def)
  then show "raw = line_body raw @ newline # line_rest raw"
    unfolding line_body_def by (metis takeWhile_dropWhile_id)
next
  assume "newline \<notin> set raw"
  then have "\<forall>c \<in> set raw. is_line_byte c" by (auto simp: is_line_byte_def)
  then show "line_body raw = raw \<and> line_rest raw = []"
    unfolding line_body_def line_rest_def
    by (metis dropWhile_eq_Nil_conv drop_Nil takeWhile_eq_all_conv)
qed

lemma line_body_no_newline: "newline \<notin> set (line_body raw)"
  by (auto simp: line_body_def is_line_byte_def dest: set_takeWhileD)

lemma line_of_newline:
  "newline \<notin> set l \<Longrightarrow> line_body (l @ newline # r) = l \<and> line_rest (l @ newline # r) = r"
proof -
  assume "newline \<notin> set l"
  then have "\<forall>c \<in> set l. is_line_byte c" by (auto simp: is_line_byte_def)
  then show ?thesis by (simp add: line_body_def line_rest_def is_line_byte_def takeWhile_append2 dropWhile_append2)
qed

lemma chop_return_soft: "\<exists>ws. s = chop_return s @ ws \<and> soft ws"
proof (cases "s \<noteq> [] \<and> last s = return")
  case True
  then have "s = chop_return s @ [return]" unfolding chop_return_def by (metis append_butlast_last_id)
  then show ?thesis by (auto simp: soft_def)
qed (auto simp: chop_return_def soft_def)

lemma step_chop:
  "fence_ok f \<Longrightarrow> step_fence f (chop_return l) = step_fence f l \<and> step_titles f (chop_return l) = step_titles f l"
  by (metis chop_return_soft step_soft)

lemma titles_line:
  "newline \<notin> set l \<Longrightarrow> titles f l = step_titles f l \<and> fence_after f l = step_fence f l"
  by (simp add: titles_def fence_after_def split_on_none)

text \<open>The headings without their positions are the titles.\<close>

lemma titles_headings:
  "fence_ok f \<Longrightarrow> map (\<lambda>h. (hl_level h, hl_title h)) (headings_from f s raw) = titles f raw"
proof (induction f s raw rule: headings_from.induct)
  case (1 f s raw)
  show ?case
  proof (cases "raw = []")
    case False
    let ?l = "line_body raw"
    obtain f' hs where step: "heading_step f s (chop_return ?l) = (f', hs)"
      by (cases "heading_step f s (chop_return ?l)")
    then have f': "f' = step_fence f ?l" and hs: "map (\<lambda>h. (hl_level h, hl_title h)) hs = step_titles f ?l"
      using fst_heading_step [of f s "chop_return ?l"] snd_heading_step [of f s "chop_return ?l"]
        step_chop [OF "1.prems"] by auto
    have IH: "map (\<lambda>h. (hl_level h, hl_title h))
        (headings_from f' (s + (length raw - length (line_rest raw))) (line_rest raw)) = titles f' (line_rest raw)"
      using 1 False step f' by simp
    have "titles f raw = step_titles f ?l @ titles f' (line_rest raw)"
    proof (cases "newline \<in> set raw")
      case True
      show ?thesis
        by (subst line_split(1) [OF True])
          (simp add: titles_newline titles_line [OF line_body_no_newline] f')
    next
      case no: False
      then show ?thesis
        using line_split(2) [OF no] titles_line [OF no] "1.prems" f' by simp
    qed
    then show ?thesis
      using False step IH hs by (subst headings_from.simps) (simp add: Let_def)
  qed (use 1 in \<open>simp add: headings_from.simps\<close>)
qed

lemma headings_Nil [simp]: "headings_from f s [] = []"
  by (simp add: headings_from.simps)

lemma headings_line:
  assumes "newline \<notin> set l"
  shows "headings_from f s (l @ newline # r) =
    snd (heading_step f s (chop_return l)) @ headings_from (step_fence f (chop_return l)) (s + Suc (length l)) r"
  using line_of_newline [OF assms, of r] fst_heading_step [of f s "chop_return l"]
  by (subst headings_from.simps) (auto simp: Let_def split: prod.splits)

lemma headings_last:
  assumes "newline \<notin> set l"
  shows "headings_from f s l = (if l = [] then [] else snd (heading_step f s (chop_return l)))"
  using line_split(2) [OF assms] by (subst headings_from.simps) (auto simp: Let_def split: prod.splits)

lemma line_cases:
  obtains (last) "newline \<notin> set raw" | (line) l r where "raw = l @ newline # r" "newline \<notin> set l"
  using line_split(1) [of raw] line_body_no_newline by blast

lemma headings_append:
  assumes "ends a" and "fence_ok f"
  shows "headings_from f s (a @ b) = headings_from f s a @ headings_from (fence_after f a) (s + length a) b"
  using assms
proof (induction "length a" arbitrary: a f s rule: less_induct)
  case less
  show ?case
  proof (cases a rule: line_cases)
    case last
    then have "a = []" using less.prems(1) by (metis ends_def last_in_set)
    then show ?thesis using less.prems by simp
  next
    case (line l r)
    have r: "ends r" using less.prems(1) line by (auto simp: ends_def split: if_splits)
    have ok: "fence_ok (step_fence f (chop_return l))" using less.prems(2) by simp
    have "headings_from (step_fence f (chop_return l)) (s + Suc (length l)) (r @ b) =
        headings_from (step_fence f (chop_return l)) (s + Suc (length l)) r @
        headings_from (fence_after (step_fence f (chop_return l)) r) (s + Suc (length l) + length r) b"
      by (rule less.hyps) (use line r ok in auto)
    moreover have "fence_after f a = fence_after (step_fence f (chop_return l)) r"
      using line step_chop [OF less.prems(2)] by (simp add: fence_after_newline titles_line)
    ultimately show ?thesis
      using line by (simp add: headings_line add.assoc)
  qed
qed

lemma heading_step_cases:
  "snd (heading_step f s l) = [] \<or>
   f = None \<and> step_fence f l = None \<and>
   (\<exists>h. snd (heading_step f s l) = [h] \<and> hl_start h = s \<and> hl_textEnd h = s + length l)"
proof (cases f)
  case None
  then show ?thesis by (auto simp: heading_step_None line_heading_def Let_def step_fence_def)
next
  case (Some cn)
  then show ?thesis by (cases cn) (simp add: heading_step_Some)
qed

text \<open>A heading cuts the text before its line, where no fence is open.\<close>

definition cut :: "fence \<Rightarrow> nat \<Rightarrow> string \<Rightarrow> heading_line list \<Rightarrow> heading_line \<Rightarrow> heading_line list
    \<Rightarrow> string \<Rightarrow> string \<Rightarrow> bool" where
  "cut f s raw hs1 h hs2 a b \<longleftrightarrow>
     raw = a @ b \<and> ends a \<and> hl_start h = s + length a \<and> headings_from f s a = hs1 \<and>
     fence_after f a = None \<and> headings_from None (s + length a) b = h # hs2 \<and>
     snd (heading_step None (s + length a) (chop_return (line_body b))) = [h]"

lemma cut_exists:
  assumes "headings_from f s raw = hs1 @ h # hs2" and "fence_ok f"
  shows "\<exists>a b. cut f s raw hs1 h hs2 a b"
  using assms
proof (induction "length raw" arbitrary: raw f s hs1 rule: less_induct)
  case less
  show ?case
  proof (cases raw rule: line_cases)
    case last
    then have hs: "snd (heading_step f s (chop_return raw)) = hs1 @ h # hs2"
      using less.prems(1) by (auto simp: headings_last split: if_splits)
    then obtain h0 where h0: "f = None" "snd (heading_step f s (chop_return raw)) = [h0]" "hl_start h0 = s"
      using heading_step_cases [of f s "chop_return raw"] by auto
    then have "hs1 = [] \<and> h0 = h \<and> hs2 = []"
      using hs by (cases hs1) auto
    then have "cut f s raw hs1 h hs2 [] raw"
      using less.prems h0 line_split(2) [OF last] by (auto simp: cut_def)
    then show ?thesis by blast
  next
    case (line l r)
    let ?f = "step_fence f (chop_return l)" and ?s = "s + Suc (length l)"
    have eq: "snd (heading_step f s (chop_return l)) @ headings_from ?f ?s r = hs1 @ h # hs2"
      using less.prems(1) line by (simp add: headings_line)
    have rest: "\<exists>a b. cut f s raw (snd (heading_step f s (chop_return l)) @ hs1') h hs2 a b"
      if "headings_from ?f ?s r = hs1' @ h # hs2" for hs1'
    proof -
      have "\<exists>a b. cut ?f ?s r hs1' h hs2 a b"
        by (rule less.hyps) (use line that less.prems(2) in auto)
      then obtain a b where c: "cut ?f ?s r hs1' h hs2 a b" by blast
      have "fence_after f (l @ newline # a) = fence_after ?f a"
        using step_chop [OF less.prems(2)] by (simp add: fence_after_newline titles_line [OF line(2)])
      moreover have "ends (l @ newline # a)"
        using c by (auto simp: cut_def ends_def)
      ultimately have "cut f s raw (snd (heading_step f s (chop_return l)) @ hs1') h hs2 (l @ newline # a) b"
        using c line by (simp add: cut_def headings_line add.assoc)
      then show ?thesis by blast
    qed
    show ?thesis
    proof (cases "snd (heading_step f s (chop_return l)) = []")
      case True
      then show ?thesis using rest [of hs1] eq by simp
    next
      case False
      then obtain h0 where h0: "f = None" "?f = None" "snd (heading_step f s (chop_return l)) = [h0]" "hl_start h0 = s"
        using heading_step_cases [of f s "chop_return l"] by blast
      show ?thesis
      proof (cases hs1)
        case Nil
        then have "cut f s raw hs1 h hs2 [] raw"
          using h0 eq less.prems(1) line line_of_newline [OF line(2), of r] by (auto simp: cut_def)
        then show ?thesis by blast
      next
        case (Cons x hs1')
        then show ?thesis using rest [of hs1'] eq h0 by simp
      qed
    qed
  qed
qed

lemma cut_heading:
  assumes "cut f s raw hs1 h hs2 a b"
  shows "hl_textEnd h = hl_start h + length (chop_return (line_body b))"
    and "step_fence None (line_body b) = None"
    and "step_titles None (line_body b) = [(hl_level h, hl_title h)]"
    and "b \<noteq> []"
proof -
  let ?l = "chop_return (line_body b)"
  have h: "snd (heading_step None (s + length a) ?l) = [h]" and at: "hl_start h = s + length a"
    using assms by (simp_all add: cut_def)
  show "hl_textEnd h = hl_start h + length ?l"
    using heading_step_cases [of None "s + length a" ?l] h at by auto
  show "step_fence None (line_body b) = None"
    using heading_step_cases [of None "s + length a" ?l] h step_chop [of None "line_body b"] by auto
  show "step_titles None (line_body b) = [(hl_level h, hl_title h)]"
    using snd_heading_step [of None "s + length a" ?l] h step_chop [of None "line_body b"] by simp
  show "b \<noteq> []" using assms by (auto simp: cut_def)
qed

lemma cut_starts: "cut f s raw hs1 h hs2 a b \<Longrightarrow> hl_start h = s + length a \<and> length a \<le> length raw"
  by (auto simp: cut_def)

end
