(* ===== verification/Rebuild.thy ===== *)
theory Rebuild
  imports MarkdownScan
begin

text \<open>
  What \<open>rebuild\<close> makes of an accepted document: read back, the new document has the requirements of
  the old one with the operations applied, in order, followed by those added
  (\<open>rebuild_document_identities\<close>).
\<close>

subsection \<open>The requirements of a text\<close>

definition title_identity :: "nat \<times> string \<Rightarrow> string list" where
  "title_identity lt =
     (if fst lt = 3 \<and> has_prefix (snd lt) requirement_prefix \<and> requirement_name (snd lt) \<noteq> []
      then [NormalizeRequirementIdentity (requirement_name (snd lt))] else [])"

definition identities_from :: "fence \<Rightarrow> string \<Rightarrow> string list" where
  "identities_from f raw = concat (map title_identity (titles f raw))"

definition identities :: "string \<Rightarrow> string list" where
  "identities raw = identities_from None raw"

definition closed :: "string \<Rightarrow> bool" where
  "closed raw \<longleftrightarrow> fence_after None raw = None"

definition heading_identity :: "heading_line \<Rightarrow> string list" where
  "heading_identity h = title_identity (hl_level h, hl_title h)"

lemma identities_headings: "identities raw = concat (map heading_identity (headings_from None s raw))"
  by (simp add: identities_def identities_from_def titles_headings [of None s, symmetric]
      heading_identity_def [abs_def] comp_def)

lemma identities_Nil [simp]: "identities [] = []" "closed []"
  by (simp_all add: identities_def identities_from_def closed_def)

lemma identities_ends [scan_simps]: "ends a \<Longrightarrow> closed a \<Longrightarrow> identities (a @ b) = identities a @ identities b"
  by (simp add: identities_def identities_from_def titles_ends closed_def)

lemma closed_ends [scan_simps]: "ends a \<Longrightarrow> closed a \<Longrightarrow> closed (a @ b) \<longleftrightarrow> closed b"
  by (simp add: closed_def fence_after_ends)

lemma identities_trailing [scan_simps]: "list_all text_space ws \<Longrightarrow> identities (a @ ws) = identities a"
  by (simp add: identities_def identities_from_def titles_trailing)

lemma closed_trailing [scan_simps]: "list_all text_space ws \<Longrightarrow> closed (a @ ws) = closed a"
  by (simp add: closed_def fence_after_trailing)

lemma accepted_identities:
  "acceptedRequirementIdentities src = identities (src_Bytes src)"
proof -
  have "concat (map heading_identity (map plain_heading hs)) =
      map NormalizeRequirementIdentity (filter (\<lambda>n. n \<noteq> [])
        (map (\<lambda>h. requirement_name (hd_title h)) (filter named_requirement hs)))" for hs
    by (induction hs) (auto simp: heading_identity_def title_identity_def plain_heading_def named_requirement_def)
  then show ?thesis
    unfolding acceptedRequirementIdentities_def identities_headings [of _ 0]
    by (simp add: headings_scanHeadings [unfolded headings_def])
qed

lemma read_blocks_identities:
  "map blk_identity (fst (read_blocks path raw hs)) = concat (map heading_identity hs)"
  by (induction hs) (auto simp: heading_identity_def title_identity_def is_requirement_def heading_name_def
      Let_def split: prod.splits)

lemma read_blocks_skip:
  "list_all (\<lambda>h. heading_identity h = []) ks \<Longrightarrow>
   fst (read_blocks path raw (ks @ hs)) = fst (read_blocks path raw hs)"
  by (induction ks) (auto simp: heading_identity_def title_identity_def is_requirement_def heading_name_def
      Let_def split: prod.splits if_splits)

lemma read_blocks_block:
  assumes "heading_identity h = [i]"
  shows "fst (read_blocks path raw (h # hs)) =
    \<lparr>blk_start = hl_start h, blk_headEnd = hl_textEnd h, blk_end = block_stop (length raw) hs,
     blk_name = heading_name h, blk_identity = i\<rparr> # fst (read_blocks path raw hs)"
  using assms by (auto simp: heading_identity_def title_identity_def is_requirement_def heading_name_def
      Let_def split: prod.splits if_splits)

lemma heading_identity_cases: "heading_identity h = [] \<or> (\<exists>i. heading_identity h = [i] \<and> hl_level h = 3)"
  by (auto simp: heading_identity_def title_identity_def)

subsection \<open>White space\<close>

lemma trim_right_split: "\<exists>ws. s = trim_right P s @ ws \<and> list_all P ws \<and> drop (length (trim_right P s)) s = ws"
proof -
  have "rev s = takeWhile P (rev s) @ dropWhile P (rev s)" by simp
  then have "s = trim_right P s @ rev (takeWhile P (rev s))"
    unfolding trim_right_def by (metis rev_append rev_rev_ident)
  moreover have "list_all P (rev (takeWhile P (rev s)))" by (auto simp: list_all_iff dest: set_takeWhileD)
  ultimately show ?thesis by (metis append_eq_conv_conj)
qed

lemma trim_right_last: "trim_right P s = [] \<or> \<not> P (last (trim_right P s))"
  unfolding trim_right_def by (metis hd_dropWhile last_rev rev_is_Nil_conv)

lemma newlines_space: "list_all text_space (replicate n newline)"
  by (induction n) (simp_all add: text_space_def)

lemma blankLine_scan:
  "identities (blankLine out) = identities out \<and> closed (blankLine out) = closed out"
  by (simp add: blankLine_def identities_trailing closed_trailing newlines_space)

lemma blankLine_ends: "ends (blankLine out)"
proof (cases "out = []")
  case False
  let ?n = "2 - (length out - length (trim_right (\<lambda>c. c = newline) out))"
  show ?thesis
  proof (cases "?n = 0")
    case True
    obtain ws where ws: "out = trim_right (\<lambda>c. c = newline) out @ ws" "list_all (\<lambda>c. c = newline) ws"
      using trim_right_split by blast
    then have "length out = length (trim_right (\<lambda>c. c = newline) out) + length ws"
      by (metis length_append)
    then have "ws \<noteq> []" using True by auto
    then have "last out = last ws" by (subst ws(1)) simp
    then have "last out = newline" using \<open>ws \<noteq> []\<close> ws(2) by (simp add: list_all_iff)
    then show ?thesis using True by (simp add: blankLine_def ends_def)
  next
    case False
    then show ?thesis by (simp add: blankLine_def ends_def)
  qed
qed (simp add: blankLine_def)

lemma blankLine_append: "closed out \<Longrightarrow> identities (blankLine out @ t) = identities out @ identities t \<and>
    closed (blankLine out @ t) = closed t"
  using blankLine_scan [of out] by (simp add: identities_ends closed_ends blankLine_ends)

lemma trimmed_scan: "identities (trim_right text_space raw @ ws) = identities raw \<and>
    closed (trim_right text_space raw @ ws) = closed raw" if "list_all text_space ws"
  using trim_right_split [of raw text_space] that by (metis closed_trailing identities_trailing)

lemma append_blocks_scan:
  assumes "closed out" and "list_all closed raws"
  shows "identities (append_blocks out raws) = identities out @ concat (map identities raws) \<and>
    closed (append_blocks out raws)"
  using assms
proof (induction raws arbitrary: out)
  case (Cons raw raws)
  let ?out = "blankLine out @ trim_right text_space raw @ [newline]"
  have "identities ?out = identities out @ identities raw" "closed ?out"
    using Cons.prems blankLine_append [OF Cons.prems(1)] trimmed_scan [OF newline_space, of raw] by simp_all
  then show ?case using Cons.IH [of ?out] Cons.prems by simp
qed simp

text \<open>Inserting blocks at a place where no fence is open, with nothing that is a requirement behind it.\<close>

lemma insertBlocks_scan:
  assumes "document = before @ tail" and "closed before" and "closed tail"
    and "tail = [] \<or> ends before" and "list_all closed raws"
  shows "\<exists>out. insertBlocks document (length before) raws = Some out \<and> closed out \<and>
    (identities tail = [] \<longrightarrow> identities out = identities before @ concat (map identities raws))"
proof (cases "raws = []")
  case True
  then show ?thesis
    using assms by (auto simp: insertBlocks_def identities_ends closed_ends)
next
  case False
  let ?out = "append_blocks before raws"
  have out: "identities ?out = identities before @ concat (map identities raws)" "closed ?out"
    using append_blocks_scan [OF assms(2,5)] by simp_all
  have "insertBlocks document (length before) raws =
      Some (if trim_space tail \<noteq> [] then blankLine ?out @ tail else ?out)"
    using False assms(1) by (simp add: insertBlocks_def slice_in_def slice_def)
  then show ?thesis
    using out blankLine_append [OF out(2), of tail] assms(3) by simp
qed

subsection \<open>One block\<close>

lemma trim_space_ends:
  assumes "trim_space s = s" and "s \<noteq> []"
  shows "\<not> is_space (hd s)" and "\<not> is_space (last s)"
proof -
  have s: "s = rev (dropWhile is_space (rev (dropWhile is_space s)))"
    using assms(1) by (simp add: trim_space_def trim_left_def)
  then have "length (dropWhile is_space s) = length s"
    by (metis length_dropWhile_le length_rev le_antisym)
  then have l: "dropWhile is_space s = s"
    by (metis append_self_conv2 length_append add_cancel_right_left length_0_conv takeWhile_dropWhile_id)
  then show "\<not> is_space (hd s)" using assms(2) by (metis hd_dropWhile)
  have r: "dropWhile is_space (rev s) = rev s" using s l by (metis rev_rev_ident)
  then have "dropWhile is_space (rev s) \<noteq> []" using assms(2) by (metis rev_is_Nil_conv)
  then have "\<not> is_space (hd (dropWhile is_space (rev s)))" by (rule hd_dropWhile)
  then have "\<not> is_space (hd (rev s))" unfolding r .
  then show "\<not> is_space (last s)" by (metis hd_rev)
qed

lemma trim_space_prefix:
  assumes "list_all is_space p" and "\<not> is_space c" and "\<not> is_space (last (c # s))"
  shows "trim_space (p @ c # s) = c # s"
proof -
  have "dropWhile is_space (p @ c # s) = c # s"
    using assms(1,2) by (simp add: dropWhile_append2 list_all_iff)
  moreover have "dropWhile is_space (rev (c # s)) = rev (c # s)"
    by (rule dropWhile_hd) (use assms(3) in \<open>simp only: hd_rev simp_thms\<close>)
  ultimately show ?thesis by (simp only: trim_space_def trim_left_def rev_rev_ident)
qed

definition renamed_line :: "string \<Rightarrow> string" where
  "renamed_line to = ''### Requirement: '' @ to"

lemma renamed_line_step:
  assumes "trim_space to = to" and "to \<noteq> []"
  shows "step_fence None (renamed_line to) = None"
    and "step_titles None (renamed_line to) = [(3, requirement_prefix @ to)]"
proof -
  have last: "\<not> is_space (last (requirement_prefix @ to))"
    using trim_space_ends(2) [OF assms] assms(2) by simp
  have pre: "requirement_prefix @ to = CHR ''R'' # ''equirement: '' @ to"
    by (simp add: requirement_prefix_def)
  have trim: "trim_space (CHR '' '' # requirement_prefix @ to) = requirement_prefix @ to"
    unfolding pre by (rule trim_space_prefix [of "[CHR '' '']", simplified])
      (use last in \<open>simp_all add: is_space_def pre\<close>)
  have split: "renamed_line to = ''###'' @ CHR '' '' # requirement_prefix @ to"
    by (simp add: renamed_line_def requirement_prefix_def)
  have body: "dropWhile blank (renamed_line to) = renamed_line to"
    by (simp add: renamed_line_def blank_def)
  have open_none: "fence_opener (renamed_line to) = None"
    by (simp add: renamed_line_def fence_opener_def)
  have level: "marker (renamed_line to) CHR ''#'' = 3"
    by (simp add: split numeral_3_eq_3)
  have at: "renamed_line to ! 3 = CHR '' ''" "drop 3 (renamed_line to) = CHR '' '' # requirement_prefix @ to"
    by (simp_all add: split numeral_3_eq_3)
  have len: "3 < length (renamed_line to)" by (simp add: split)
  show "step_fence None (renamed_line to) = None"
    by (simp add: step_fence_def heading_step_None body open_none)
  show "step_titles None (renamed_line to) = [(3, requirement_prefix @ to)]"
    using len assms(2)
    by (simp add: step_titles_def heading_step_None body open_none line_heading_def level at trim blank_def)
qed

lemma requirement_name_renamed: "trim_space to = to \<Longrightarrow> requirement_name (requirement_prefix @ to) = to"
  by (simp add: requirement_name_def strip_opt_def has_prefix_iff)

text \<open>What a text needs to be the replacement of one requirement.\<close>

definition operation_ok :: "delta_operation \<Rightarrow> bool" where
  "operation_ok op \<longleftrightarrow>
     (case dop_Kind op of
        Renamed \<Rightarrow> dop_To op \<noteq> [] \<and> trim_space (dop_To op) = dop_To op \<and> newline \<notin> set (dop_To op)
      | Removed \<Rightarrow> dop_Requirement op \<noteq> None
      | _ \<Rightarrow> (\<exists>r. dop_Requirement op = Some r \<and> identities (dop_Raw op) = [rqm_Identity r] \<and>
                 closed (dop_Raw op)))"

definition action_key :: "delta_operation \<Rightarrow> string" where
  "action_key op =
     (case dop_Requirement op of
        Some r \<Rightarrow> rqm_Identity r
      | None \<Rightarrow> NormalizeRequirementIdentity (dop_From op))"

text \<open>What becomes of a requirement of the accepted document.\<close>

definition outcome :: "delta_operation gomap \<Rightarrow> string \<Rightarrow> string list" where
  "outcome actions i =
     (case map_of actions i of
        None \<Rightarrow> [i]
      | Some op \<Rightarrow>
          (case dop_Kind op of
             Removed \<Rightarrow> []
           | Renamed \<Rightarrow> [NormalizeRequirementIdentity (dop_To op)]
           | _ \<Rightarrow> [i]))"

definition actions_ok :: "delta_operation gomap \<Rightarrow> bool" where
  "actions_ok actions \<longleftrightarrow>
     (\<forall>i op. map_of actions i = Some op \<longrightarrow> operation_ok op \<and> dop_Kind op \<noteq> Added \<and>
        (dop_Kind op = Modified \<longrightarrow> identities (dop_Raw op) = [i]))"

text \<open>A block: its heading line, and no other requirement in it.\<close>

definition block_text :: "heading_line \<Rightarrow> string \<Rightarrow> string \<Rightarrow> bool" where
  "block_text h i b \<longleftrightarrow> b \<noteq> [] \<and> step_fence None (line_body b) = None \<and>
     step_titles None (line_body b) = [(hl_level h, hl_title h)] \<and>
     heading_identity h = [i] \<and> identities b = [i] \<and> closed b"

lemma line_parts:
  "\<exists>cr rest. line_body b = chop_return (line_body b) @ cr \<and> soft cr \<and>
     b = chop_return (line_body b) @ cr @ rest \<and> (rest = [] \<or> (\<exists>r. rest = newline # r))"
proof -
  obtain cr where cr: "line_body b = chop_return (line_body b) @ cr" "soft cr"
    using chop_return_soft by blast
  show ?thesis
  proof (cases "newline \<in> set b")
    case True
    have "b = (chop_return (line_body b) @ cr) @ newline # line_rest b"
      using line_split(1) [OF True] cr(1) by argo
    then show ?thesis using cr by (metis append.assoc)
  next
    case False
    have "b = (chop_return (line_body b) @ cr) @ []"
      using line_split(2) [OF False] cr(1) by simp
    then show ?thesis using cr by (metis append.assoc)
  qed
qed

lemma soft_no_newline: "soft ws \<Longrightarrow> newline \<notin> set ws"
  by (induction ws) (auto simp: soft_def blank_def)

lemma renamed_scan:
  assumes b: "block_text h i b" and to: "to \<noteq> []" "trim_space to = to" "newline \<notin> set to"
  defines "new \<equiv> renamed_line to @ drop (length (chop_return (line_body b))) b"
  shows "identities new = [NormalizeRequirementIdentity to] \<and> closed new \<and> (ends b \<longrightarrow> ends new)"
proof -
  obtain cr rest where cr: "line_body b = chop_return (line_body b) @ cr" "soft cr"
    and b': "b = chop_return (line_body b) @ cr @ rest" and rest: "rest = [] \<or> (\<exists>r. rest = newline # r)"
    using line_parts by blast
  have new: "new = (renamed_line to @ cr) @ rest"
    unfolding new_def by (subst (2) b') simp
  have plain: "newline \<notin> set (renamed_line to @ cr)"
    using to(3) soft_no_newline [OF cr(2)] by (simp add: renamed_line_def)
  have line: "titles None (renamed_line to @ cr) = [(3, requirement_prefix @ to)]"
    "fence_after None (renamed_line to @ cr) = None"
    using renamed_line_step [OF to(2,1)] cr(2) titles_line [OF plain] by (simp_all add: step_soft)
  have old: "titles None (line_body b) = [(hl_level h, hl_title h)]" "fence_after None (line_body b) = None"
    using b titles_line [OF line_body_no_newline] by (simp_all add: block_text_def)
  have sign: "title_identity (3, requirement_prefix @ to) = [NormalizeRequirementIdentity to]"
    using to by (simp add: title_identity_def requirement_name_renamed has_prefix_iff)
  have bb: "b = line_body b @ rest" using b' cr(1) by (metis append.assoc)
  show ?thesis
  proof (cases "rest = []")
    case True
    then have "new = renamed_line to @ cr" using new by simp
    moreover have "\<not> ends b"
      using bb True b line_body_no_newline [of b] by (metis append_Nil2 block_text_def ends_def last_in_set)
    ultimately show ?thesis
      using line sign by (simp add: identities_def identities_from_def closed_def)
  next
    case False
    then obtain r where r: "rest = newline # r" using rest by blast
    have "titles None b = (hl_level h, hl_title h) # titles None r" "fence_after None b = fence_after None r"
      by (subst bb, simp add: r titles_newline fence_after_newline old)+
    then have "concat (map title_identity (titles None r)) = []" "closed r"
      using b by (auto simp: block_text_def identities_def identities_from_def closed_def heading_identity_def)
    moreover have "titles None new = (3, requirement_prefix @ to) # titles None r"
      "fence_after None new = fence_after None r"
      unfolding new r by (simp_all add: titles_newline fence_after_newline line del: append_assoc)
    moreover have "ends b \<longrightarrow> ends new"
      unfolding new by (subst bb) (simp add: r ends_append_right)
    ultimately show ?thesis
      using sign by (simp add: identities_def identities_from_def closed_def)
  qed
qed

lemma replaced_scan:
  assumes "closed raw" and "b \<noteq> []"
  shows "identities (replaceBlock raw b) = identities raw \<and> closed (replaceBlock raw b) \<and>
    (ends b \<longrightarrow> ends (replaceBlock raw b))"
proof -
  obtain ws where ws: "b = trim_right text_space b @ ws" "list_all text_space ws"
      "drop (length (trim_right text_space b)) b = ws"
    using trim_right_split by blast
  have "ends (trim_right text_space raw @ ws)" if "ends b"
  proof (cases "ws = []")
    case True
    then have "b = trim_right text_space b" using ws(1) by simp
    then have "\<not> text_space (last b)" using trim_right_last [of text_space b] assms(2) by metis
    then show ?thesis using that assms(2) by (auto simp: ends_def text_space_def)
  next
    case False
    then have "last b = last ws" by (subst ws(1)) simp
    then show ?thesis using that assms(2) False by (simp add: ends_def)
  qed
  then show ?thesis
    using trimmed_scan [OF ws(2), of raw] assms(1) by (simp add: replaceBlock_def ws(3))
qed

lemma slice_middle [simp]: "slice (a @ b @ c) (length a) (length a + length b) = b"
  by (simp add: slice_def)

lemma slice_in_middle: "slice_in (a @ b @ c) (length a) (length a + length b) = Some b"
  by (simp add: slice_in_def)

lemma slice_in_suffix:
  "n \<le> length b \<Longrightarrow> slice_in (a @ b @ c) (length a + n) (length a + length b) = Some (drop n b)"
  by (simp add: slice_in_def slice_def)

lemma rebuilt_scan:
  assumes b: "block_text h i b" and ok: "actions_ok actions"
    and at: "blk_start k = length a" "blk_headEnd k = length a + length (chop_return (line_body b))"
      "blk_end k = length a + length b" "blk_identity k = i"
  shows "\<exists>body. rebuilt_block actions (a @ b @ c) k = Some body \<and> identities body = outcome actions i \<and>
    closed body \<and> (ends b \<longrightarrow> ends body)"
proof (cases "map_of actions i")
  case None
  then show ?thesis
    using b at by (simp add: rebuilt_block_def slice_in_middle outcome_def block_text_def)
next
  case (Some op)
  then have op: "operation_ok op" "dop_Kind op \<noteq> Added" "dop_Kind op = Modified \<longrightarrow> identities (dop_Raw op) = [i]"
    using ok by (auto simp: actions_ok_def)
  show ?thesis
  proof (cases "dop_Kind op")
    case Added
    then show ?thesis using op by simp
  next
    case Modified
    then have "closed (dop_Raw op)" "identities (dop_Raw op) = [i]"
      using op by (auto simp: operation_ok_def)
    then show ?thesis
      using Some Modified at replaced_scan [of "dop_Raw op" b] b
      by (simp add: rebuilt_block_def slice_in_middle outcome_def block_text_def)
  next
    case Removed
    then show ?thesis using Some at by (simp add: rebuilt_block_def outcome_def)
  next
    case Renamed
    then have to: "dop_To op \<noteq> []" "trim_space (dop_To op) = dop_To op" "newline \<notin> set (dop_To op)"
      using op by (simp_all add: operation_ok_def)
    have "length (chop_return (line_body b)) \<le> length b"
      using line_parts [of b] by (metis length_append le_add1)
    then have "rebuilt_block actions (a @ b @ c) k =
        Some (renamed_line (dop_To op) @ drop (length (chop_return (line_body b))) b)"
      using Some Renamed at by (simp add: rebuilt_block_def slice_in_suffix renamed_line_def)
    then show ?thesis
      using renamed_scan [OF b to] Some Renamed by (simp add: outcome_def)
  qed
qed

subsection \<open>All blocks\<close>

lemma line_body_append: "ends b \<Longrightarrow> b \<noteq> [] \<Longrightarrow> line_body (b @ c) = line_body b"
proof -
  assume "ends b" "b \<noteq> []"
  then have "newline \<in> set b" by (metis ends_def last_in_set)
  then have "b = line_body b @ newline # line_rest b" by (rule line_split)
  then show ?thesis using line_of_newline [OF line_body_no_newline] by (metis append.assoc append_Cons)
qed

lemma deep_headings: "list_all (\<lambda>h. 3 < hl_level h) ks \<Longrightarrow> list_all (\<lambda>h. heading_identity h = []) ks"
  by (auto simp: list_all_iff heading_identity_def title_identity_def)

lemma no_identities: "list_all (\<lambda>h. heading_identity h = []) ks \<Longrightarrow> concat (map heading_identity ks) = []"
  by (induction ks) auto

lemma find_None_all: "find P xs = None \<longleftrightarrow> list_all (\<lambda>x. \<not> P x) xs"
  by (induction xs) auto

lemma find_SomeE:
  assumes "find P xs = Some x"
  obtains ys zs where "xs = ys @ x # zs" "P x" "list_all (\<lambda>x. \<not> P x) ys"
proof -
  have "\<exists>ys zs. xs = ys @ x # zs \<and> P x \<and> list_all (\<lambda>x. \<not> P x) ys"
    using assms
  proof (induction xs)
    case (Cons y xs)
    show ?case
    proof (cases "P y")
      case True
      then show ?thesis using Cons.prems by (intro exI [of _ "[]"] exI [of _ xs]) simp
    next
      case False
      then obtain ys zs where "xs = ys @ x # zs" "P x" "list_all (\<lambda>x. \<not> P x) ys"
        using Cons by auto
      then have "y # xs = (y # ys) @ x # zs \<and> P x \<and> list_all (\<lambda>x. \<not> P x) (y # ys)" using False by simp
      then show ?thesis by blast
    qed
  qed simp
  then show ?thesis using that by blast
qed

text \<open>The text from a requirement heading to the next heading of its level or above, and the rest.\<close>

lemma block_cut:
  assumes hs: "headings_from None n b = h # rest" and cut0: "cut f s t hs1 h rest a0 b" "n = s + length a0"
    and i: "heading_identity h = [i]" and closed: "closed b" and len: "length t + s = m"
  shows "\<exists>b2 b3 rest2. b = b2 @ b3 \<and> block_text h i b2 \<and> (b3 = [] \<or> ends b2) \<and> closed b3 \<and>
    block_stop m rest = n + length b2 \<and> headings_from None (n + length b2) b3 = rest2 \<and>
    length rest2 \<le> length rest \<and> concat (map heading_identity rest) = concat (map heading_identity rest2) \<and>
    fst (read_blocks path raw rest) = fst (read_blocks path raw rest2) \<and> line_body b2 = line_body b"
proof (cases "find (\<lambda>h. hl_level h \<le> 3) rest")
  case None
  then have deep: "list_all (\<lambda>h. heading_identity h = []) rest"
    by (intro deep_headings) (simp add: find_None_all not_le)
  have "identities b = [i]"
    using hs i no_identities [OF deep] by (simp add: identities_headings [of b n])
  then have "block_text h i b"
    using cut_heading [OF cut0(1)] i closed by (simp add: block_text_def)
  moreover have "m = n + length b" using cut0 len by (auto simp: cut_def)
  moreover have "fst (read_blocks path raw rest) = fst (read_blocks path raw [])"
    using read_blocks_skip [OF deep, of path raw "[]"] by simp
  ultimately show ?thesis
    using no_identities [OF deep] None by (intro exI [of _ b] exI [of _ "[]"]) (simp add: block_stop_def)
next
  case (Some h2)
  then obtain ks rest2 where rest: "rest = ks @ h2 # rest2" and lv: "hl_level h2 \<le> 3"
    and ks: "list_all (\<lambda>h. \<not> hl_level h \<le> 3) ks" by (rule find_SomeE)
  then have deep: "list_all (\<lambda>h. heading_identity h = []) ks"
    by (intro deep_headings) (simp add: not_le)
  obtain b2 b3 where cut: "cut None n b (h # ks) h2 rest2 b2 b3"
    using cut_exists [of None n b "h # ks" h2 rest2] hs rest by auto
  have b2: "b2 \<noteq> []" using cut by (auto simp: cut_def)
  have body: "line_body b2 = line_body b"
    using cut b2 line_body_append [of b2 b3] by (simp add: cut_def)
  have "identities b2 = [i]"
    using cut i no_identities [OF deep] by (simp add: identities_headings [of b2 n] cut_def)
  moreover have cl: "closed b2" "ends b2" using cut by (simp_all add: cut_def closed_def)
  ultimately have "block_text h i b2"
    using cut_heading [OF cut0(1)] i b2 body by (simp add: block_text_def)
  moreover have "closed b3" using closed cl cut by (simp add: cut_def closed_ends)
  moreover have "block_stop m rest = n + length b2"
    using Some cut by (simp add: block_stop_def cut_def)
  moreover have "fst (read_blocks path raw rest) = fst (read_blocks path raw (h2 # rest2))"
    unfolding rest by (rule read_blocks_skip [OF deep])
  ultimately show ?thesis
    using cut cl body no_identities [OF deep] rest
    by (intro exI [of _ b2] exI [of _ b3] exI [of _ "h2 # rest2"]) (simp add: cut_def)
qed

text \<open>What the second loop of \<open>rebuild\<close> has done when it ends.\<close>

definition written :: "delta_operation gomap \<Rightarrow> string \<Rightarrow> string \<Rightarrow> nat \<Rightarrow> nat option \<Rightarrow> string list
    \<Rightarrow> bool \<Rightarrow> string \<times> nat \<times> nat option \<Rightarrow> bool" where
  "written actions raw out cursor ins ids none r \<longleftrightarrow>
     (case r of (out', cursor', ins') \<Rightarrow>
        cursor' \<le> length raw \<and> closed out' \<and> closed (drop cursor' raw) \<and>
        identities out' = identities out @ concat (map (outcome actions) ids) \<and>
        identities (drop cursor' raw) = [] \<and> (drop cursor' raw = [] \<or> ends out') \<and>
        (if none then out' = out \<and> cursor' = cursor \<and> ins' = ins else ins' = Some (length out')))"

lemma write_blocks_scan:
  assumes "raw = pre @ mid @ b" and "headings_from None (length pre + length mid) b = hs"
    and "closed b" and "actions_ok actions" and "identities mid = []" and "closed mid" and "ends mid"
    and "closed out" and "ends out"
  shows "\<exists>r. write_blocks actions raw out (length pre) ins (fst (read_blocks path raw hs)) = Some r \<and>
    written actions raw out (length pre) ins (concat (map heading_identity hs))
      (fst (read_blocks path raw hs) = []) r"
  using assms
proof (induction "length hs" arbitrary: hs pre mid b out ins rule: less_induct)
  case less
  note prem = less.prems
  let ?n = "length pre + length mid"
  show ?case
  proof (cases "find (\<lambda>h. heading_identity h \<noteq> []) hs")
    case None
    then have deep: "list_all (\<lambda>h. heading_identity h = []) hs" by (simp add: find_None_all)
    have none: "fst (read_blocks path raw hs) = []"
      using read_blocks_skip [OF deep, of path raw "[]"] by simp
    have "identities b = []"
      using prem(2) no_identities [OF deep] by (simp add: identities_headings [of b ?n])
    then have "identities (mid @ b) = []" "closed (mid @ b)"
      using prem by (simp_all add: identities_ends closed_ends)
    then show ?thesis
      using prem none no_identities [OF deep] by (simp add: written_def)
  next
    case (Some h)
    then obtain ks rest where hs: "hs = ks @ h # rest" and ne: "heading_identity h \<noteq> []"
      and ks: "list_all (\<lambda>h. \<not> heading_identity h \<noteq> []) ks" by (rule find_SomeE)
    obtain i where i: "heading_identity h = [i]" using ne heading_identity_cases by blast
    have deep: "list_all (\<lambda>h. heading_identity h = []) ks" using ks by simp
    obtain b0 b1 where cut: "cut None ?n b ks h rest b0 b1"
      using cut_exists [of None ?n b ks h rest] prem(2) hs by auto
    then have b: "b = b0 @ b1" and b0: "ends b0" "closed b0" and at: "hl_start h = ?n + length b0"
      and hb1: "headings_from None (?n + length b0) b1 = h # rest" and hb0: "headings_from None ?n b0 = ks"
      by (simp_all add: cut_def closed_def)
    have "closed b1" using prem(3) b b0 by (simp add: closed_ends)
    moreover have "length b + ?n = length raw" using prem(1) by simp
    ultimately obtain b2 b3 rest2 where c: "b1 = b2 @ b3" "block_text h i b2" "b3 = [] \<or> ends b2" "closed b3"
        "block_stop (length raw) rest = ?n + length b0 + length b2"
        "headings_from None (?n + length b0 + length b2) b3 = rest2" "length rest2 \<le> length rest"
        "concat (map heading_identity rest) = concat (map heading_identity rest2)"
        "fst (read_blocks path raw rest) = fst (read_blocks path raw rest2)" "line_body b2 = line_body b1"
      using block_cut [OF hb1 cut refl i, of "length raw" path raw] by blast
    let ?k = "\<lparr>blk_start = hl_start h, blk_headEnd = hl_textEnd h, blk_end = block_stop (length raw) rest,
      blk_name = heading_name h, blk_identity = i\<rparr>"
    let ?mid = "mid @ b0"
    have blocks: "fst (read_blocks path raw hs) = ?k # fst (read_blocks path raw rest2)"
      unfolding hs read_blocks_skip [OF deep] read_blocks_block [OF i] c(9) ..
    have raw: "raw = (pre @ ?mid) @ b2 @ b3" using prem(1) b c(1) by simp
    have mid: "identities ?mid = []" "closed ?mid" "ends ?mid"
      using prem b0 no_identities [OF deep] hb0
      by (simp_all add: identities_ends closed_ends ends_append identities_headings [of b0 ?n])
    have between: "slice_in raw (length pre) (blk_start ?k) = Some ?mid"
      using slice_in_middle [of pre ?mid "b2 @ b3"] raw at by (simp add: add.assoc)
    obtain body where body: "rebuilt_block actions raw ?k = Some body" "identities body = outcome actions i"
        "closed body" "ends b2 \<longrightarrow> ends body"
      using rebuilt_scan [OF c(2) prem(4), of ?k "pre @ ?mid" b3] raw at c(5,10) cut_heading(1) [OF cut]
      by (auto simp: add.assoc)
    let ?out = "out @ ?mid @ body"
    have out: "identities ?out = identities out @ outcome actions i" "closed ?out"
      using prem(8,9) identities_ends [OF mid(3,2), of body] closed_ends [OF mid(3,2), of body] mid(1) body(2,3)
      by (simp_all add: identities_ends closed_ends)
    have rounds: "write_blocks actions raw out (length pre) ins (fst (read_blocks path raw hs)) =
        write_blocks actions raw ?out (blk_end ?k) (Some (length ?out)) (fst (read_blocks path raw rest2))"
      unfolding blocks using between body(1) by (simp add: Let_def add.assoc)
    have ids: "concat (map heading_identity hs) = i # concat (map heading_identity rest2)"
      using hs i no_identities [OF deep] c(8) by simp
    have stop: "blk_end ?k = length (pre @ ?mid @ b2)" using c(5) by simp
    show ?thesis
    proof (cases "b3 = []")
      case True
      then have "rest2 = []" using c(6) by simp
      then show ?thesis
        using rounds blocks ids out raw True stop by (simp add: written_def)
    next
      case False
      have e: "ends ?out"
        using ends_append [OF prem(9) ends_append [OF mid(3), of body]] False c(3) body(4) by simp
      have "\<exists>r. write_blocks actions raw ?out (length (pre @ ?mid @ b2)) (Some (length ?out))
            (fst (read_blocks path raw rest2)) = Some r \<and>
          written actions raw ?out (length (pre @ ?mid @ b2)) (Some (length ?out))
            (concat (map heading_identity rest2)) (fst (read_blocks path raw rest2) = []) r"
        by (rule less.hyps [where mid = "[]" and b = b3])
          (use hs c raw out e prem(4) in \<open>auto simp: add.assoc\<close>)
      then show ?thesis
        using rounds blocks ids out stop by (auto simp: written_def split: if_splits)
    qed
  qed
qed

end
