(* ===== verification/ReconcileProps.thy ===== *)
theory ReconcileProps
  imports Rebuild
begin

text \<open>
  The operations a delta parser hands to the reconciler, and what the reconciled document means:
  parsing, rebuilding and reading back compose to applying the operations.
\<close>

subsection \<open>The lines and headings of a source\<close>

definition before :: "source_line \<Rightarrow> source_line \<Rightarrow> bool" where
  "before l m \<longleftrightarrow> ln_next l \<le> ln_start m"

lemma split_from_bounds:
  "l \<in> set (split_from s n raw) \<Longrightarrow> s \<le> ln_start l \<and> ln_start l < ln_next l \<and> ln_next l \<le> s + length raw"
proof (induction s n raw rule: split_from.induct)
  case (1 s n raw)
  show ?case
  proof (cases "raw = []")
    case False
    let ?k = "s + (length raw - length (line_rest raw))"
    have shorter: "length (line_rest raw) < length raw" using False by (rule line_rest_shorter)
    from "1.prems" consider "ln_start l = s" "ln_next l = ?k" | "l \<in> set (split_from ?k (Suc n) (line_rest raw))"
      using False by (subst (asm) split_from.simps) (auto simp: Let_def)
    then show ?thesis
    proof cases
      case 2
      then show ?thesis using "1.IH" [OF False refl refl 2] shorter by auto
    qed (use shorter in auto)
  qed (use 1 in \<open>simp add: split_from.simps\<close>)
qed

lemma split_from_sorted: "sorted_wrt before (split_from s n raw)"
proof (induction s n raw rule: split_from.induct)
  case (1 s n raw)
  show ?case
  proof (cases "raw = []")
    case False
    have "\<forall>m \<in> set (split_from k n r). k \<le> ln_start m" for k n r
      using split_from_bounds by blast
    then show ?thesis
      using "1.IH" [OF False refl refl] False
      by (subst split_from.simps) (simp add: Let_def before_def [abs_def])
  qed (simp add: split_from.simps)
qed

lemma heading_step_fence:
  "step_fence f l =
     (case f of
        None \<Rightarrow> if length l - length (dropWhile blank l) \<le> 3 \<and> fence_opener (dropWhile blank l) \<noteq> None
               then fence_opener (dropWhile blank l) else None
      | Some (c, n) \<Rightarrow> if length l - length (dropWhile blank l) \<le> 3 \<and> fence_closer c n (dropWhile blank l)
               then None else Some (c, n))"
  by (auto simp: step_fence_def heading_step_None heading_step_Some split: option.splits)

lemma scan_headings_step:
  obtains op' hs where "scan_headings f op (l # ls) =
      (hs @ fst (scan_headings (step_fence f (ln_text l)) op' ls),
       snd (scan_headings (step_fence f (ln_text l)) op' ls))"
    and "hs = [] \<or> hs = heading_of l"
    and "(f = None \<longleftrightarrow> op = None) \<Longrightarrow> (step_fence f (ln_text l) = None \<longleftrightarrow> op' = None)"
proof (cases f)
  case None
  let ?t = "dropWhile blank (ln_text l)"
  show ?thesis
  proof (cases "length (ln_text l) - length ?t \<le> 3 \<and> fence_opener ?t \<noteq> None")
    case True
    show ?thesis
      by (rule that [of "[]" "Some l"])
        (use None True in \<open>auto simp: heading_step_fence trimIndent_def Let_def\<close>)
  next
    case False
    show ?thesis
      by (rule that [of "heading_of l" op])
        (use None False in \<open>auto simp: heading_step_fence trimIndent_def Let_def case_prod_beta\<close>)
  qed
next
  case (Some cn)
  let ?t = "dropWhile blank (ln_text l)"
  show ?thesis
  proof (cases "length (ln_text l) - length ?t \<le> 3 \<and> fence_closer (fst cn) (snd cn) ?t")
    case True
    show ?thesis
      by (rule that [of "[]" None])
        (use Some True in \<open>auto simp: heading_step_fence trimIndent_def Let_def case_prod_beta\<close>)
  next
    case False
    show ?thesis
      by (rule that [of "[]" op])
        (use Some False in \<open>auto simp: heading_step_fence trimIndent_def Let_def case_prod_beta\<close>)
  qed
qed

lemma heading_of_line: "h \<in> set (heading_of l) \<Longrightarrow> hd_line h = l"
  by (auto simp: heading_of_def split: option.splits)

lemma scan_headings_lines: "h \<in> set (fst (scan_headings f op ls)) \<Longrightarrow> hd_line h \<in> set ls"
proof (induction ls arbitrary: f op)
  case (Cons l ls)
  obtain op' hs where hs: "hs = [] \<or> hs = heading_of l"
    and eq: "scan_headings f op (l # ls) =
      (hs @ fst (scan_headings (step_fence f (ln_text l)) op' ls),
       snd (scan_headings (step_fence f (ln_text l)) op' ls))" by (rule scan_headings_step)
  then show ?case using Cons heading_of_line by (auto simp del: scan_headings.simps)
qed simp

lemma scan_headings_sorted:
  "sorted_wrt before ls \<Longrightarrow> sorted_wrt (\<lambda>g h. before (hd_line g) (hd_line h)) (fst (scan_headings f op ls))"
proof (induction ls arbitrary: f op)
  case (Cons l ls)
  obtain op' hs where hs: "hs = [] \<or> hs = heading_of l"
    and eq: "scan_headings f op (l # ls) =
      (hs @ fst (scan_headings (step_fence f (ln_text l)) op' ls),
       snd (scan_headings (step_fence f (ln_text l)) op' ls))" by (rule scan_headings_step)
  have "sorted_wrt (\<lambda>g h. before (hd_line g) (hd_line h)) hs"
    using hs by (auto simp: heading_of_def split: option.splits)
  then show ?case
    unfolding eq fst_conv sorted_wrt_append
    using Cons hs heading_of_line scan_headings_lines [of _ "step_fence f (ln_text l)" op' ls] by auto
qed simp

text \<open>No fence is open at the end exactly when the scanner reports none.\<close>

lemma scan_headings_open:
  assumes "f = None \<longleftrightarrow> op = None" and "fence_ok f"
  shows "snd (scan_headings f op (split_from s n raw)) = None \<longleftrightarrow> fence_after f raw = None"
  using assms
proof (induction s n raw arbitrary: f op rule: split_from.induct)
  case (1 s n raw)
  show ?case
  proof (cases "raw = []")
    case False
    let ?l = "line_body raw" and ?r = "line_rest raw"
    let ?f = "step_fence f (chop_return ?l)"
    have after: "fence_after f raw = fence_after ?f ?r"
    proof (cases raw rule: line_cases)
      case last
      then show ?thesis
        using line_split(2) [OF last] step_chop [OF "1.prems"(2)] titles_line [OF last] "1.prems"(2) by simp
    next
      case (line l r)
      then show ?thesis
        using line_of_newline [OF line(2), of r] step_chop [OF "1.prems"(2)]
        by (simp add: fence_after_newline titles_line)
    qed
    obtain line where line: "ln_text line = chop_return ?l"
      "split_from s n raw = line # split_from (s + (length raw - length ?r)) (Suc n) ?r"
      using False split_from.simps [of s n raw] by (metis source_line.select_convs(5))
    obtain op' hs where step: "?f = None \<longleftrightarrow> op' = None"
      "snd (scan_headings f op (split_from s n raw)) =
       snd (scan_headings ?f op' (split_from (s + (length raw - length ?r)) (Suc n) ?r))"
      using scan_headings_step [of f op line "split_from (s + (length raw - length ?r)) (Suc n) ?r"]
        "1.prems"(1) line by (metis snd_conv)
    show ?thesis
      unfolding step(2) after by (rule "1.IH" [OF False refl refl step(1)]) (use "1.prems"(2) in simp)
  qed (use 1 in \<open>simp add: split_from.simps\<close>)
qed

lemma scanHeadings_open: "snd (scanHeadings (splitLines raw)) = None \<longleftrightarrow> closed raw"
  by (simp add: scanHeadings_def splitLines_def scan_headings_open closed_def)

text \<open>The headings of a source: each begins before the next line, in the text.\<close>

definition in_order :: "heading list \<Rightarrow> bool" where
  "in_order hs \<longleftrightarrow> sorted_wrt (\<lambda>g h. before (hd_line g) (hd_line h)) hs \<and>
     (\<forall>h \<in> set hs. ln_start (hd_line h) < ln_next (hd_line h))"

lemma in_order_scan: "in_order (fst (scanHeadings (splitLines raw)))"
  using scan_headings_sorted [OF split_from_sorted] scan_headings_lines split_from_bounds
  unfolding in_order_def scanHeadings_def splitLines_def by blast

lemma scan_in_text: "h \<in> set (fst (scanHeadings (splitLines raw))) \<Longrightarrow> ln_start (hd_line h) < length raw"
  unfolding scanHeadings_def splitLines_def
  using scan_headings_lines split_from_bounds by fastforce

subsection \<open>The sections of a delta\<close>

definition deep :: "heading \<Rightarrow> bool" where
  "deep h \<longleftrightarrow> 2 < hd_level h"

lemma in_order_after:
  assumes "in_order (pre @ sect # post)"
  shows "\<forall>g \<in> set pre. ln_start (hd_line g) < ln_start (hd_line sect)"
    and "\<forall>h \<in> set post. ln_next (hd_line sect) \<le> ln_start (hd_line h)"
    and "ln_start (hd_line sect) < ln_next (hd_line sect)"
    and "in_order post"
  using assms by (auto simp: in_order_def sorted_wrt_append before_def intro: less_le_trans)

lemma sectionEnd_first:
  assumes "in_order (pre @ sect # post)" and "hd_level sect = 2"
  shows "sectionEnd (pre @ sect # post) sect len =
    (case dropWhile deep post of [] \<Rightarrow> len | h # _ \<Rightarrow> ln_start (hd_line h))"
proof -
  let ?P = "\<lambda>h. ln_start (hd_line sect) < ln_start (hd_line h) \<and> hd_level h \<le> hd_level sect"
  have pre: "find ?P (gs @ sect # hs) = find ?P hs" if "\<forall>g \<in> set gs. ln_start (hd_line g) < ln_start (hd_line sect)"
    for gs hs using that by (induction gs) auto
  have post: "find ?P hs = (case dropWhile deep hs of [] \<Rightarrow> None | h # _ \<Rightarrow> Some h)"
    if "\<forall>h \<in> set hs. ln_start (hd_line sect) < ln_start (hd_line h)" for hs
    using that by (induction hs) (auto simp: deep_def assms(2))
  have "\<forall>h \<in> set post. ln_start (hd_line sect) < ln_start (hd_line h)"
    using in_order_after(2,3) [OF assms(1)] by fastforce
  then show ?thesis
    unfolding sectionEnd_def pre [OF in_order_after(1) [OF assms(1)]] using post
    by (cases "dropWhile deep post") (simp_all del: dropWhile_eq_Nil_conv)
qed

lemma children_first:
  assumes "in_order (pre @ sect # post)" and "hd_level sect = 2"
    and "\<forall>h \<in> set post. ln_start (hd_line h) < len"
  shows "headingsWithin (pre @ sect # post) (ln_next (hd_line sect))
      (sectionEnd (pre @ sect # post) sect len) = takeWhile deep post"
proof -
  let ?stop = "sectionEnd (pre @ sect # post) sect len"
  let ?P = "\<lambda>h. ln_next (hd_line sect) \<le> ln_start (hd_line h) \<and> ln_start (hd_line h) < ?stop"
  note order = in_order_after [OF assms(1)]
  have "filter ?P pre = []" using order(1,3) by (fastforce simp: filter_empty_conv)
  moreover have "\<not> ?P sect" using order(3) by simp
  moreover have "filter ?P (takeWhile deep post) = takeWhile deep post"
  proof (rule filter_True, rule ballI, intro conjI)
    fix h assume h: "h \<in> set (takeWhile deep post)"
    then show "ln_next (hd_line sect) \<le> ln_start (hd_line h)" using order(2) set_takeWhileD by metis
    show "ln_start (hd_line h) < ?stop"
    proof (cases "dropWhile deep post")
      case Nil
      then show ?thesis
        using sectionEnd_first [OF assms(1,2)] assms(3) set_takeWhileD [OF h] by (simp del: dropWhile_eq_Nil_conv)
    next
      case (Cons x xs)
      have "in_order (takeWhile deep post @ x # xs)" using order(4) by (simp flip: Cons)
      then show ?thesis
        using in_order_after(1) h sectionEnd_first [OF assms(1,2)] Cons by simp
    qed
  qed
  moreover have "filter ?P (dropWhile deep post) = []"
  proof (cases "dropWhile deep post")
    case (Cons x xs)
    then have tail: "in_order (takeWhile deep post @ x # xs)" using order(4) by (metis takeWhile_dropWhile_id)
    have "\<forall>h \<in> set (x # xs). ln_start (hd_line x) \<le> ln_start (hd_line h)"
      using in_order_after(2) [OF tail] in_order_after(3) [OF tail] by fastforce
    then show ?thesis
      using sectionEnd_first [OF assms(1,2)] Cons by (auto simp: filter_empty_conv not_less)
  qed (simp del: dropWhile_eq_Nil_conv)
  ultimately have "filter ?P (pre @ sect # takeWhile deep post @ dropWhile deep post) = takeWhile deep post"
    by (simp del: takeWhile_dropWhile_id)
  then show ?thesis by (simp add: headingsWithin_def)
qed

text \<open>A block of a delta ends where the reconciler ends it.\<close>

lemma block_end_stop:
  assumes "stop = (case others of [] \<Rightarrow> len | h # _ \<Rightarrow> ln_start (hd_line h))"
    and "others = [] \<or> hd_level (hd others) \<le> 3"
  shows "fst (block_end rest stop) = block_stop len (map plain_heading (rest @ others))"
proof (induction rest)
  case Nil
  then show ?case
    using assms by (cases others) (auto simp: block_end_def block_stop_def plain_heading_def)
next
  case (Cons h rest)
  then show ?case by (auto simp: block_end_def block_stop_def plain_heading_def split: option.splits)
qed

lemma delta_block:
  assumes hs: "fst (scanHeadings (splitLines raw)) = pre @ sect # post" and level: "hd_level sect = 2"
    and child: "headingsWithin (pre @ sect # post) (ln_next (hd_line sect))
        (sectionEnd (pre @ sect # post) sect (length raw)) = front @ h # rest"
    and named: "named_requirement h" "requirement_name (hd_title h) \<noteq> []" and "closed raw"
  defines "body \<equiv> slice raw (ln_start (hd_line h))
    (fst (block_end rest (sectionEnd (pre @ sect # post) sect (length raw))))"
  shows "identities body = [NormalizeRequirementIdentity (requirement_name (hd_title h))] \<and> closed body"
proof -
  let ?i = "NormalizeRequirementIdentity (requirement_name (hd_title h))"
  let ?others = "dropWhile deep post"
  have order: "in_order (pre @ sect # post)" using in_order_scan hs by metis
  have inside: "\<forall>h \<in> set post. ln_start (hd_line h) < length raw"
    using scan_in_text [of _ raw] hs by auto
  have post: "post = (front @ h # rest) @ ?others"
    using child children_first [OF order level inside] by (metis takeWhile_dropWhile_id)
  have others: "?others = [] \<or> hd_level (hd ?others) \<le> 3"
    using hd_dropWhile [of deep post] by (force simp: deep_def)
  let ?tail = "map plain_heading (rest @ ?others)"
  let ?front = "map plain_heading (pre @ sect # front)"
  have all: "headings_from None 0 raw = ?front @ plain_heading h # ?tail"
    using headings_scanHeadings [of raw] hs post unfolding headings_def
    by (metis append.assoc append_Cons list.simps(9) map_append)
  have i: "heading_identity (plain_heading h) = [?i]"
    using named by (auto simp: heading_identity_def title_identity_def plain_heading_def named_requirement_def)
  obtain a b where cut: "cut None 0 raw ?front (plain_heading h) ?tail a b"
    using cut_exists [OF all] by auto
  have b: "headings_from None (length a) b = plain_heading h # ?tail" "raw = a @ b"
    "hl_start (plain_heading h) = length a" "ends a" "closed a"
    using cut by (simp_all add: cut_def closed_def)
  have "closed b" using \<open>closed raw\<close> b by (simp add: closed_ends)
  then obtain b2 b3 where c: "b = b2 @ b3" "block_text (plain_heading h) ?i b2"
      "block_stop (length raw) ?tail = length a + length b2"
    using block_cut [OF b(1) cut _ i, of "length raw" "[]" "[]"] by auto
  have "body = slice (a @ b2 @ b3) (length a) (length a + length b2)"
    unfolding body_def
    using block_end_stop [OF sectionEnd_first [OF order level] others, of rest] b c
    by (simp add: plain_heading_def)
  then show ?thesis using c(2) by (simp add: block_text_def)
qed

subsection \<open>The operations of a delta\<close>

lemma scan_scenarios_valid:
  "scan_scenarios src children stop bodyEnd valid hs = (ss, ds, be, True) \<Longrightarrow> valid"
proof (induction hs arbitrary: bodyEnd valid ss ds)
  case (Cons h hs)
  show ?case
  proof (cases "hd_level h = 4 \<and> has_prefix (hd_title h) scenario_prefix")
    case False
    let ?v = "if hd_level h \<noteq> 4 then valid \<and> \<not> scenario_like h else False"
    obtain ss' ds' be' v' where "scan_scenarios src children stop bodyEnd ?v hs = (ss', ds', be', v')"
      by (metis prod_cases4)
    then show ?thesis using Cons False by (auto simp: Let_def split: if_splits)
  next
    case True
    define e where "e = (if bodyEnd = stop then ln_start (hd_line h) else bodyEnd)"
    define body where "body = slice (src_Bytes src) (ln_next (hd_line h)) (scenario_end children h stop)"
    let ?v = "valid \<and> steps_in ''when'' body \<and> steps_in ''then'' body"
    obtain ss' ds' be' v' where r: "scan_scenarios src children stop e ?v hs = (ss', ds', be', v')"
      by (metis prod_cases4)
    then have "be' = be \<and> v'"
      using Cons.prems True by (simp add: Let_def e_def [symmetric] body_def [symmetric])
    then show ?thesis using r Cons.IH [of e ?v ss' ds'] by simp
  qed
qed simp

lemma requirement_operation_shape:
  assumes "op \<in> set (fst (requirement_operation src kind children stop h rest))"
  shows "dop_Kind op = kind \<and> requirement_name (hd_title h) \<noteq> [] \<and>
    dop_Raw op = slice (src_Bytes src) (ln_start (hd_line h)) (fst (block_end rest stop)) \<and>
    (\<exists>r. dop_Requirement op = Some r \<and>
      rqm_Identity r = NormalizeRequirementIdentity (requirement_name (hd_title h)))"
proof -
  obtain e w where e: "block_end rest stop = (e, w)" by (cases "block_end rest stop")
  let ?v = "requirement_name (hd_title h) \<noteq> [] \<and> \<not> w"
  obtain ss ds be v where s: "scan_scenarios src children e e ?v
      (headingsWithin children (ln_next (hd_line h)) e) = (ss, ds, be, v)" by (metis prod_cases4)
  have v: "v \<Longrightarrow> ?v" using s scan_scenarios_valid [of src children e e ?v _ ss ds be] by (cases v) auto
  show ?thesis
    using assms v unfolding requirement_operation_def Let_def e s prod.case fst_conv
    by (auto split: if_split_asm)
qed

lemma scan_requirements_child:
  "op \<in> set (fst (scan_requirements src kind children stop hs)) \<Longrightarrow>
   \<exists>front h rest. hs = front @ h # rest \<and> named_requirement h \<and>
     op \<in> set (fst (requirement_operation src kind children stop h rest))"
proof (induction hs)
  case (Cons h hs)
  then consider "op \<in> set (fst (scan_requirements src kind children stop hs))"
    | "named_requirement h" "op \<in> set (fst (requirement_operation src kind children stop h hs))"
    by (auto simp: Let_def split: prod.splits if_splits)
  then show ?case
  proof cases
    case 1
    then obtain front h' rest where "hs = front @ h' # rest" "named_requirement h'"
      "op \<in> set (fst (requirement_operation src kind children stop h' rest))" using Cons.IH by blast
    then show ?thesis by (intro exI [of _ "h # front"]) auto
  next
    case 2
    then show ?thesis by (intro exI [of _ "[]"]) auto
  qed
qed simp

lemma scan_removed_shape:
  "op \<in> set (fst (scan_removed src stop hs)) \<Longrightarrow> dop_Kind op = Removed \<and> dop_Requirement op \<noteq> None"
  by (induction hs) (auto simp: removed_operation_def Let_def split: prod.splits if_splits)

lemma trimmed_name: "trim_space (trim_space s) = trim_space s"
  by simp

lemma trim_space_subset: "set (trim_space s) \<subseteq> set s"
  unfolding trim_space_def trim_left_def by (auto dest!: set_dropWhileD)

lemma heading_value_trimmed:
  assumes "heading_value s = Some v"
  shows "trim_space v = v \<and> set v \<subseteq> set s"
proof -
  have sub: "set (trim_right re_space t) \<subseteq> set t" for t
    unfolding trim_right_def by (auto dest!: set_dropWhileD)
  have skip: "set (skip_spaces s) \<subseteq> set s"
    unfolding skip_spaces_def by (auto dest!: set_dropWhileD)
  show ?thesis
  proof (cases "skip_spaces s")
    case Nil
    then show ?thesis using assms by (auto simp: heading_value_def split: if_splits)
  next
    case (Cons c t)
    let ?core = "trim_right re_space (c # t)"
    let ?u = "if last ?core = tick \<and> 2 \<le> length ?core then butlast ?core else ?core"
    have "set ?core \<subseteq> set s" using sub [of "c # t"] skip unfolding Cons by (rule order_trans)
    moreover have "set ?u \<subseteq> set ?core" by (auto dest: in_set_butlastD)
    ultimately have "set (trim_space ?u) \<subseteq> set s" using trim_space_subset [of ?u] by (meson order_trans)
    moreover have "v = trim_space ?u" using assms Cons by (simp add: heading_value_def Let_def)
    ultimately show ?thesis by (simp only: trim_space_idem simp_thms)
  qed
qed

lemma strip_subset: "strip p s = Some r \<Longrightarrow> set r \<subseteq> set s"
  by (auto simp: strip_def dest: in_set_dropD split: if_splits)

lemma strip_opt_subset: "set (strip_opt p s) \<subseteq> set s"
  by (auto simp: strip_opt_def dest: in_set_dropD)

lemma skip_spaces_subset: "set (skip_spaces s) \<subseteq> set s"
  by (auto simp: skip_spaces_def dest: set_dropWhileD)

lemma fromTo_value:
  assumes "fromToPattern text = Some (field, v)"
  shows "trim_space v = v \<and> set v \<subseteq> set text"
proof -
  let ?parse = "\<lambda>field. Option.bind (strip (field @ '':'') (skip_spaces (strip_opt ''-'' (skip_spaces text)))) (\<lambda>s.
      Option.bind (strip ''###'' (strip_opt [tick] (skip_spaces s))) (\<lambda>s.
      if s = [] \<or> \<not> re_space (hd s) then None
      else Option.bind (strip ''Requirement:'' (skip_spaces s)) (\<lambda>s. map_option (Pair field) (heading_value s))))"
  have one: "trim_space v = v \<and> set v \<subseteq> set text" if val: "?parse f = Some (f', v)" for f f'
  proof -
    obtain a b c where a: "strip (f @ '':'') (skip_spaces (strip_opt ''-'' (skip_spaces text))) = Some a"
      and b: "strip ''###'' (strip_opt [tick] (skip_spaces a)) = Some b"
      and c: "strip ''Requirement:'' (skip_spaces b) = Some c" and v: "heading_value c = Some v"
      using val by (auto simp: Option.bind_eq_Some_conv split: if_splits)
    have "set c \<subseteq> set b" "set b \<subseteq> set a" "set a \<subseteq> set text"
      using strip_subset [OF c] strip_subset [OF b] strip_subset [OF a] skip_spaces_subset strip_opt_subset
      by (meson order_trans)+
    then show ?thesis using heading_value_trimmed [OF v] by blast
  qed
  have "fromToPattern text = (case ?parse ''FROM'' of Some r \<Rightarrow> Some r | None \<Rightarrow> ?parse ''TO'')"
    by (simp only: fromToPattern_def Let_def)
  then have "?parse ''FROM'' = Some (field, v) \<or> ?parse ''TO'' = Some (field, v)"
    using assms by (auto split: option.splits)
  then show ?thesis using one by blast
qed

definition rename_shape :: "delta_operation \<Rightarrow> bool" where
  "rename_shape op \<longleftrightarrow> dop_Kind op = Renamed \<and> dop_Requirement op = None \<and>
     trim_space (dop_To op) = dop_To op \<and> newline \<notin> set (dop_To op)"

lemma scan_renames_shape:
  assumes "\<forall>l \<in> set ls. newline \<notin> set (ln_text l)"
  shows "\<forall>op \<in> set (fst (scan_renames src raw from at ls)). rename_shape op"
  using assms
proof (induction ls arbitrary: "from" at)
  case (Cons l ls)
  then have IH: "\<forall>op \<in> set (fst (scan_renames src raw from' at' ls)). rename_shape op" for from' at'
    by simp
  show ?case
  proof (cases "fromToPattern (ln_text l)")
    case None
    then show ?thesis using IH by simp
  next
    case (Some fv)
    obtain field v where fv: "fv = (field, v)" by (cases fv)
    have v: "trim_space v = v" "newline \<notin> set v"
      using fromTo_value [of "ln_text l" field v] Some fv Cons.prems by auto
    show ?thesis
      using IH v Some fv by (auto simp: Let_def case_prod_beta rename_shape_def)
  qed
qed simp

lemma split_from_text: "l \<in> set (split_from s n raw) \<Longrightarrow> newline \<notin> set (ln_text l)"
proof (induction s n raw rule: split_from.induct)
  case (1 s n raw)
  show ?case
  proof (cases "raw = []")
    case False
    have "set (chop_return t) \<subseteq> set t" for t
      by (auto simp: chop_return_def dest: in_set_butlastD)
    then have "newline \<notin> set (chop_return (line_body raw))" using line_body_no_newline by blast
    then show ?thesis
      using "1.prems" "1.IH" [OF False refl refl] False
      by (subst (asm) split_from.simps) (auto simp: Let_def)
  qed (use 1 in \<open>simp add: split_from.simps\<close>)
qed

lemma visible_from_lines: "set (visible_from f ls) \<subseteq> set ls"
proof (induction ls arbitrary: f)
  case (Cons l ls)
  have "set (visible_from f' ls) \<subseteq> set (l # ls)" for f' using Cons.IH by auto
  then show ?case by (cases f) (simp_all add: Let_def case_prod_beta)
qed simp

lemma visible_text: "l \<in> set (visibleLinesAt raw n) \<Longrightarrow> newline \<notin> set (ln_text l)"
  using visible_from_lines split_from_text
  by (fastforce simp: visibleLinesAt_def splitLines_def shift_line_def)

text \<open>What the parser promises of an operation.\<close>

definition parsed_ok :: "delta_operation \<Rightarrow> bool" where
  "parsed_ok op \<longleftrightarrow>
     (case dop_Kind op of
        Renamed \<Rightarrow> rename_shape op
      | Removed \<Rightarrow> dop_Requirement op \<noteq> None
      | _ \<Rightarrow> operation_ok op)"

lemma parse_section_ok:
  assumes hs: "fst (scanHeadings (splitLines (src_Bytes src))) = pre @ sect # post"
    and level: "hd_level sect = 2" and "closed (src_Bytes src)"
    and op: "op \<in> set (fst (parse_section src (pre @ sect # post) kind sect))"
  shows "parsed_ok op"
proof (cases "kind = Removed \<or> kind = Renamed")
  case True
  have "\<forall>l \<in> set (visibleLinesAt raw n). newline \<notin> set (ln_text l)" for raw n
    using visible_text by blast
  note renamed = scan_renames_shape [OF this, THEN bspec]
  from True show ?thesis
  proof
    assume "kind = Removed"
    then have "dop_Kind op = Removed \<and> dop_Requirement op \<noteq> None"
      using op scan_removed_shape
      by (auto simp: parse_section_def parseRemovedOperations_def Let_def case_prod_beta)
    then show ?thesis by (simp add: parsed_ok_def)
  next
    assume "kind = Renamed"
    then have "rename_shape op"
      using op by (auto simp: parse_section_def parseRenameOperations_def Let_def case_prod_beta intro: renamed)
    then show ?thesis by (simp add: parsed_ok_def rename_shape_def)
  qed
next
  case False
  let ?stop = "sectionEnd (pre @ sect # post) sect (length (src_Bytes src))"
  let ?children = "headingsWithin (pre @ sect # post) (ln_next (hd_line sect)) ?stop"
  have "op \<in> set (fst (scan_requirements src kind ?children ?stop ?children))"
    using False op by (cases kind)
      (auto simp: parse_section_def parseRequirementOperations_def Let_def case_prod_beta)
  then obtain front h rest where c: "?children = front @ h # rest" "named_requirement h"
      "op \<in> set (fst (requirement_operation src kind ?children ?stop h rest))"
    using scan_requirements_child by blast
  note shape = requirement_operation_shape [OF c(3)]
  have "identities (dop_Raw op) = [NormalizeRequirementIdentity (requirement_name (hd_title h))] \<and>
      closed (dop_Raw op)"
    using delta_block [OF hs level c(1,2) _ assms(3)] shape by simp
  then show ?thesis
    using shape False by (cases kind) (auto simp: parsed_ok_def operation_ok_def)
qed

lemma parse_sections_child:
  "op \<in> set (fst (parse_sections src accepted hs sects)) \<Longrightarrow>
   \<exists>sect \<in> set sects. hd_level sect = 2 \<and> (\<exists>kind. op \<in> set (fst (parse_section src hs kind sect)))"
proof (induction sects)
  case (Cons sect sects)
  then have "op \<in> set (fst (parse_sections src accepted hs sects)) \<or>
      hd_level sect = 2 \<and> (\<exists>kind. op \<in> set (fst (parse_section src hs kind sect)))"
    by (auto simp: Let_def case_prod_beta split: option.splits if_splits)
  then show ?case using Cons.IH by auto
qed simp

lemma parsed_operations_ok:
  assumes "cd_Diagnostics (ParseCapabilityDelta src capability accepted) = []"
    and "op \<in> set (cd_Operations (ParseCapabilityDelta src capability accepted))"
  shows "parsed_ok op"
proof -
  let ?raw = "src_Bytes src"
  obtain hs opened where scan: "scanHeadings (splitLines ?raw) = (hs, opened)" by (metis prod.collapse)
  have present: "src_Present src" "isOk (ValidateSegment capability)"
    using assms(1) by (auto simp: ParseCapabilityDelta_def delta_refused_def split: if_splits)
  have "opened = None"
    using assms(1) present scan
    by (auto simp: ParseCapabilityDelta_def Let_def case_prod_beta split: option.splits)
  then have closed: "closed ?raw" using scanHeadings_open [of ?raw] scan by simp
  have "op \<in> set (fst (parse_sections src accepted hs hs))"
    using assms(2) present scan by (simp add: ParseCapabilityDelta_def Let_def case_prod_beta)
  then obtain sect kind where "sect \<in> set hs" and level: "hd_level sect = 2"
      and op: "op \<in> set (fst (parse_section src hs kind sect))"
    using parse_sections_child by blast
  then obtain pre post where "hs = pre @ sect # post" by (meson split_list)
  then show ?thesis using parse_section_ok [OF _ level closed] op scan by simp
qed

subsection \<open>The rebuilt document\<close>

lemma rebuild_document_identities:
  assumes "acc_bytes current = raw" and "acc_blocks current = fst (read_blocks path raw (headings raw))"
    and "closed raw" and "actions_ok actions" and "list_all closed added"
  shows "\<exists>out. rebuild_document actions added current = Some out \<and> closed out \<and>
    identities out = concat (map (outcome actions) (identities raw)) @ concat (map identities added)"
proof -
  let ?blocks = "acc_blocks current"
  have ids: "concat (map heading_identity (headings raw)) = identities raw"
    by (simp add: identities_headings [of raw 0] headings_def)
  obtain out' cursor' ins' where loop: "write_blocks actions raw [] 0 None ?blocks = Some (out', cursor', ins')"
    and w: "written actions raw [] 0 None (identities raw) (?blocks = []) (out', cursor', ins')"
    using write_blocks_scan [of raw "[]" "[]" raw "headings raw" actions "[]" None path] assms ids
    by (auto simp: headings_def)
  let ?tail = "drop cursor' raw"
  have tail: "slice_in raw cursor' (length raw) = Some ?tail"
    using w by (simp add: written_def slice_in_def slice_def)
  have w': "closed out'" "closed ?tail" "identities ?tail = []" "?tail = [] \<or> ends out'"
      "identities out' = concat (map (outcome actions) (identities raw))"
    using w by (simp_all add: written_def)
  show ?thesis
  proof (cases "?blocks = []")
    case True
    then have e: "out' = []" "cursor' = 0" "ins' = None" using w by (simp_all add: written_def)
    obtain out where "insertBlocks raw (length raw) added = Some out \<and> closed out \<and>
        identities out = identities raw @ concat (map identities added)"
      using insertBlocks_scan [of raw raw "[]" added] assms by auto
    moreover have "identities raw = []" using w'(3) e by simp
    ultimately show ?thesis
      using loop tail assms e by (simp add: rebuild_document_def Let_def)
  next
    case False
    then have "ins' = Some (length out')" using w by (simp add: written_def)
    moreover obtain out where "insertBlocks (out' @ ?tail) (length out') added = Some out \<and> closed out \<and>
        identities out = identities out' @ concat (map identities added)"
      using insertBlocks_scan [of "out' @ ?tail" out' ?tail added] w' assms by auto
    ultimately show ?thesis
      using loop tail assms w' by (simp add: rebuild_document_def Let_def)
  qed
qed

subsection \<open>The actions\<close>

definition changes :: "delta_operation list \<Rightarrow> delta_operation list" where
  "changes ops = filter (\<lambda>op. dop_Kind op \<noteq> Added) ops"

definition additions :: "delta_operation list \<Rightarrow> delta_operation list" where
  "additions ops = filter (\<lambda>op. dop_Kind op = Added) ops"

text \<open>What an operation list makes of a requirement of the accepted document.\<close>

definition reconciled :: "delta_operation list \<Rightarrow> string \<Rightarrow> string list" where
  "reconciled ops i =
     (case find (\<lambda>op. dop_Kind op \<noteq> Added \<and> action_key op = i) ops of
        None \<Rightarrow> [i]
      | Some op \<Rightarrow>
          (case dop_Kind op of
             Removed \<Rightarrow> []
           | Renamed \<Rightarrow> [NormalizeRequirementIdentity (dop_To op)]
           | _ \<Rightarrow> [i]))"

definition rename_kinds :: "delta_operation list \<Rightarrow> bool" where
  "rename_kinds ops \<longleftrightarrow> (\<forall>op \<in> set ops. (dop_Kind op = Renamed) = (dop_Requirement op = None))"

lemma plan_actions_spec:
  assumes "rename_kinds ops" and "distinct (map action_key (changes ops))"
    and "\<forall>op \<in> set (changes ops). map_of actions (action_key op) = None"
  shows "\<exists>added actions' ds. plan_actions existing actions ops = Some (added, actions', ds) \<and>
    added = map dop_Raw (additions ops) \<and>
    (ds = [] \<longrightarrow> (\<forall>i. map_of actions' i =
       (case find (\<lambda>op. dop_Kind op \<noteq> Added \<and> action_key op = i) ops of
          None \<Rightarrow> map_of actions i | Some op \<Rightarrow> Some op)))"
  using assms
proof (induction ops arbitrary: actions)
  case (Cons op ops)
  have kinds: "rename_kinds ops" using Cons.prems(1) by (simp add: rename_kinds_def)
  show ?case
  proof (cases "dop_Kind op = Added")
    case True
    then obtain added actions' ds where "plan_actions existing actions ops = Some (added, actions', ds)"
      "added = map dop_Raw (additions ops)"
      "ds = [] \<longrightarrow> (\<forall>i. map_of actions' i =
         (case find (\<lambda>op. dop_Kind op \<noteq> Added \<and> action_key op = i) ops of
            None \<Rightarrow> map_of actions i | Some op \<Rightarrow> Some op))"
      using Cons.IH [OF kinds, of actions] Cons.prems by (auto simp: changes_def)
    then show ?thesis using True by (simp add: additions_def)
  next
    case False
    let ?acts = "AList.update (action_key op) op actions"
    have distinct: "distinct (map action_key (changes ops))" "action_key op \<notin> action_key ` set (changes ops)"
      using Cons.prems(2) False by (auto simp: changes_def)
    have free: "\<forall>o' \<in> set (changes ops). map_of ?acts (action_key o') = None"
    proof
      fix o' assume o': "o' \<in> set (changes ops)"
      then have "action_key o' \<noteq> action_key op" using distinct(2) by (metis image_eqI)
      then show "map_of ?acts (action_key o') = None"
        using Cons.prems(3) False o' by (simp add: changes_def)
    qed
    have free': "\<forall>o' \<in> set (changes ops). map_of actions (action_key o') = None"
      using Cons.prems(3) False by (auto simp: changes_def)
    have none: "find (\<lambda>o'. dop_Kind o' \<noteq> Added \<and> action_key o' = action_key op) ops = None"
      using distinct(2) by (fastforce simp: find_None_iff changes_def image_iff)
    have key: "dop_Kind op = Renamed \<Longrightarrow> action_key op = NormalizeRequirementIdentity (dop_From op)"
      "dop_Kind op \<noteq> Renamed \<Longrightarrow> \<exists>r. dop_Requirement op = Some r \<and> rqm_Identity r = action_key op"
      using Cons.prems(1) by (auto simp: rename_kinds_def action_key_def)
    show ?thesis
    proof (cases "dop_Kind op = Renamed \<and> NormalizeRequirementIdentity (dop_To op) \<in> set existing")
      case True
      then show ?thesis
        using Cons.IH [OF kinds distinct(1) free'] by (auto simp: additions_def)
    next
      case put: False
      have eq: "plan_actions existing actions (op # ops) = plan_actions existing ?acts ops"
        using put False key by (cases "dop_Kind op") auto
      show ?thesis
        unfolding eq
        using Cons.IH [OF kinds distinct(1) free] False none
        by (fastforce simp: additions_def split: option.splits)
    qed
  qed
qed (simp add: additions_def)

subsection \<open>The operations of a delta without diagnostics\<close>

lemma check_keys_none:
  "check_keys seen op ks = (seen', []) \<Longrightarrow>
   distinct ks \<and> set ks \<inter> dom seen = {} \<and> dom seen' = dom seen \<union> set ks"
proof (induction ks arbitrary: seen)
  case (Cons k ks)
  show ?case
  proof (cases "seen k")
    case None
    have "check_keys (seen(k \<mapsto> op)) op ks = (seen', [])" using Cons.prems None by simp
    from Cons.IH [OF this]
    have "distinct ks \<and> set ks \<inter> dom (seen(k \<mapsto> op)) = {} \<and> dom seen' = dom (seen(k \<mapsto> op)) \<union> set ks" .
    then show ?thesis using None by (simp add: domIff)
  next
    case (Some previous)
    then show ?thesis using Cons.prems by (auto split: prod.splits)
  qed
qed simp

lemma check_operations_none:
  "check_operations seen ops = [] \<Longrightarrow>
   distinct (concat (map operation_keys ops)) \<and> set (concat (map operation_keys ops)) \<inter> dom seen = {}"
proof (induction ops arbitrary: seen)
  case (Cons op ops)
  obtain seen' ds where k: "check_keys seen op (operation_keys op) = (seen', ds)"
    by (cases "check_keys seen op (operation_keys op)")
  then have "ds = []" "check_operations seen' ops = []" using Cons.prems by auto
  then show ?case using Cons.IH [of seen'] check_keys_none [of seen op "operation_keys op" seen'] k by auto
qed simp

lemma operation_keys_hd: "operation_keys op = action_key op # tl (operation_keys op)"
  by (auto simp: operation_keys_def action_key_def split: option.splits)

lemma distinct_heads:
  "distinct (concat (map operation_keys ops)) \<Longrightarrow> distinct (map action_key ops)"
proof (induction ops)
  case (Cons op ops)
  have "action_key op \<in> set (operation_keys op)" for op
    by (subst operation_keys_hd) simp
  then have "action_key op \<noteq> action_key x" if "x \<in> set ops" for x
    using Cons.prems that by (simp add: disjoint_iff) metis
  then show ?case using Cons by auto
qed simp

lemma delta_keys:
  assumes "cd_Diagnostics (ParseCapabilityDelta src capability accepted) = []"
  shows "distinct (concat (map operation_keys (cd_Operations (ParseCapabilityDelta src capability accepted))))"
  using assms check_operations_none [of Map.empty]
  by (auto simp: ParseCapabilityDelta_def delta_refused_def Let_def case_prod_beta
      validateOperationIdentities_def split: if_splits)

lemma parsed_rename_kinds: "\<forall>op \<in> set ops. parsed_ok op \<Longrightarrow> rename_kinds ops"
  unfolding rename_kinds_def
proof
  fix op assume "\<forall>op \<in> set ops. parsed_ok op" "op \<in> set ops"
  then have "parsed_ok op" by blast
  then show "(dop_Kind op = Renamed) = (dop_Requirement op = None)"
    by (cases "dop_Kind op") (auto simp: parsed_ok_def rename_shape_def operation_ok_def)
qed

lemma outcome_reconciled:
  assumes "\<forall>i. map_of actions i = find (\<lambda>op. dop_Kind op \<noteq> Added \<and> action_key op = i) ops"
  shows "outcome actions = reconciled ops"
  using assms by (auto simp: outcome_def reconciled_def fun_eq_iff)

lemma actions_parsed_ok:
  assumes "\<forall>i. map_of actions i = find (\<lambda>op. dop_Kind op \<noteq> Added \<and> action_key op = i) ops"
    and "\<forall>op \<in> set ops. parsed_ok op" and "\<forall>op \<in> set ops. dop_Kind op = Renamed \<longrightarrow> dop_To op \<noteq> []"
  shows "actions_ok actions"
  unfolding actions_ok_def
proof (intro allI impI)
  fix i op assume "map_of actions i = Some op"
  then have f: "find (\<lambda>op. dop_Kind op \<noteq> Added \<and> action_key op = i) ops = Some op" using assms(1) by simp
  then have op: "op \<in> set ops" "dop_Kind op \<noteq> Added" "action_key op = i" using find_Some_set [OF f] by auto
  then have "parsed_ok op" using assms(2) by blast
  then show "operation_ok op \<and> dop_Kind op \<noteq> Added \<and> (dop_Kind op = Modified \<longrightarrow> identities (dop_Raw op) = [i])"
    using op assms(3) by (cases "dop_Kind op") (auto simp: parsed_ok_def rename_shape_def operation_ok_def action_key_def)
qed

lemma additions_identities:
  assumes "\<forall>op \<in> set ops. parsed_ok op"
  shows "list_all closed (map dop_Raw (additions ops)) \<and>
    concat (map identities (map dop_Raw (additions ops))) = map action_key (additions ops)"
  using assms
proof (induction ops)
  case (Cons op ops)
  then show ?case
    by (cases "dop_Kind op") (auto simp: additions_def parsed_ok_def operation_ok_def action_key_def)
qed (simp add: additions_def)


subsection \<open>Examples\<close>

definition text_lines :: "string list \<Rightarrow> string" where
  "text_lines ls = concat (map (\<lambda>l. l @ [newline]) ls)"

definition sample_accepted :: source where
  "sample_accepted = \<lparr>src_Path = ''a'', src_Bytes = text_lines
     [''### Requirement: Login'', ''It MUST work.'', ''### Requirement: Logout'', ''It MUST stop.''],
     src_Present = True\<rparr>"

definition sample_delta :: source where
  "sample_delta = \<lparr>src_Path = ''d'', src_Bytes = text_lines
     [''## RENAMED Requirements'', ''FROM: ### Requirement: Login'', ''TO: ### Requirement: Sign in'',
      ''## REMOVED Requirements'', ''### Requirement: Logout'', ''**Reason**: old'', ''**Migration**: no'',
      ''## ADDED Requirements'', ''### Requirement: Export'', ''MUST'', ''#### Scenario: csv'',
      ''- WHEN a'', ''- THEN b''],
     src_Present = True\<rparr>"

text \<open>Everything an example needs, so that the delta is evaluated once: it parses without a diagnostic,
  the document can be rebuilt, and these are the requirements it ends with.\<close>

definition is_document :: "(diagnostic list + string) option \<Rightarrow> bool" where
  "is_document r = (case r of Some (Inr _) \<Rightarrow> True | _ \<Rightarrow> False)"

definition rebuilt_from :: "capability_delta \<Rightarrow> source \<Rightarrow> (diagnostic list + string) option" where
  "rebuilt_from d a = rebuild d (fst (readAccepted (src_Path a) (Raw_file (src_Bytes a))))"

definition expected :: "source \<Rightarrow> string list \<Rightarrow> capability_delta \<Rightarrow> bool" where
  "expected a ids d \<longleftrightarrow> cd_Diagnostics d = [] \<and> is_document (rebuilt_from d a) \<and>
     list_all (\<lambda>op. dop_Kind op = Renamed \<longrightarrow> dop_To op \<noteq> []) (cd_Operations d) \<and>
     concat (map (reconciled (cd_Operations d)) (acceptedRequirementIdentities a)) @
       map action_key (additions (cd_Operations d)) = ids"


subsection \<open>Where requirements are lost\<close>

definition accepted_text :: "string list \<Rightarrow> source" where
  "accepted_text ls = \<lparr>src_Path = ''a'', src_Bytes = text_lines ls, src_Present = True\<rparr>"

definition left_over :: "source \<Rightarrow> capability_delta \<Rightarrow> (diagnostic list + string list) option" where
  "left_over a d =
     (if cd_Diagnostics d \<noteq> [] then None
      else map_option (map_sum id (\<lambda>out. acceptedRequirementIdentities (a\<lparr>src_Bytes := out\<rparr>))) (rebuilt_from d a))"

definition nameless_delta :: source where
  "nameless_delta = accepted_text
     [''## RENAMED Requirements'', ''FROM: ### Requirement: Login'', ''TO: ### Requirement: '']"

definition added_delta :: source where
  "added_delta = accepted_text
     [''## ADDED Requirements'', ''### Requirement: Out'', ''MUST'', ''#### Scenario: s'', ''- WHEN a'', ''- THEN b'']"


end
