(* ===== verification/Gates.thy ===== *)
theory Gates
  imports PlanTree "HOL-Library.Product_Lexorder"
begin

text \<open>
  The planning gates (\<open>internal/core/gates/registry.go\<close>, \<open>planning.go\<close>): the registry and its
  validation, the evaluation of a snapshot and the eight evaluators. An evaluator is a function
  from the snapshot to its issues; \<open>None\<close> is the nil function. A gate evaluates a copy of the
  snapshot, which the code makes by way of JSON; the copy is the snapshot itself, its strings being
  UTF-8. Commands are read by byte: white space and letters are the single-byte ones.
\<close>

subsection \<open>Data\<close>

type_synonym gate_id = string

definition DefaultProfile :: string where "DefaultProfile = ''default''"
definition PlanningToApproved :: string where "PlanningToApproved = ''planning_to_approved''"
definition CoreRegistryVersion :: string where "CoreRegistryVersion = ''core-v2''"

record snapshot =
  sn_Plan :: change
  sn_Lifecycle :: string
  sn_StateRevision :: u64
  sn_Transition :: string
  sn_RegistryVersion :: string
  sn_PolicyDigest :: string

record issue =
  is_Location :: location
  is_Problem :: string
  is_Repair :: string

record finding =
  fi_Gate :: gate_id
  fi_Severity :: string
  fi_Location :: location
  fi_Problem :: string
  fi_Repair :: string

type_synonym evaluator = "snapshot \<Rightarrow> issue list"

record gate =
  gt_ID :: gate_id
  gt_Description :: string
  gt_Transition :: string
  gt_Profile :: string
  gt_Artifacts :: "string list"
  gt_Severity :: string
  gt_Evaluate :: "evaluator option"

record transition =
  tn_ID :: string
  tn_GateIDs :: "gate_id list"

record registry =
  rg_version :: string
  rg_gates :: "gate list"
  rg_byID :: "gate_id \<rightharpoonup> nat"
  rg_transitions :: "string \<rightharpoonup> gate_id list"
  rg_control :: gate

subsection \<open>The registry\<close>

definition registry_error :: "string \<Rightarrow> msg \<Rightarrow> string \<Rightarrow> error" where
  "registry_error kind what repair =
     Failed ([Str (''gate_registry_'' @ kind @ '': '')] @ what @ [Str (''; next: '' @ repair)])"

definition repair_metadata :: string where
  "repair_metadata = ''repair gate registry metadata''"

fun check_artifacts :: "gate_id \<Rightarrow> string list \<Rightarrow> string list \<Rightarrow> error + unit" where
  "check_artifacts g seen [] = Inr ()"
| "check_artifacts g seen (a # as) =
     (if a \<notin> {''proposal'', ''deltas'', ''design'', ''tasks'', ''state''} then
        Inl (registry_error ''invalid'' [Str ''gate '', Quo g, Str '' covers unknown artifact '', Quo a]
          ''use a registered artifact'')
      else if a \<in> set seen then
        Inl (registry_error ''duplicate'' [Str ''gate '', Quo g, Str '' repeats artifact '', Quo a]
          ''keep one artifact reference'')
      else check_artifacts g (a # seen) as)"

definition validateGate :: "gate \<Rightarrow> error + unit" where
  "validateGate g =
     (if gt_ID g = [] \<or> trim_space (gt_Description g) = [] \<or> gt_Transition g = [] \<or>
         gt_Profile g = [] \<or> gt_Artifacts g = [] \<or> gt_Evaluate g = None then
        Inl (registry_error ''invalid'' [Str ''gate '', Quo (gt_ID g), Str '' metadata is incomplete'']
          ''complete every gate metadata field'')
      else if gt_Profile g \<noteq> DefaultProfile then
        Inl (registry_error ''invalid''
          [Str ''gate '', Quo (gt_ID g), Str '' uses unsupported profile '', Quo (gt_Profile g)]
          ''use the default profile'')
      else if gt_Severity g \<noteq> ''error'' \<and> gt_Severity g \<noteq> ''warning'' then
        Inl (registry_error ''invalid''
          [Str ''gate '', Quo (gt_ID g), Str '' has invalid severity '', Quo (gt_Severity g)]
          ''use error or warning'')
      else check_artifacts (gt_ID g) [] (gt_Artifacts g))"

fun register_gates :: "nat \<Rightarrow> gate list \<Rightarrow> (gate_id \<rightharpoonup> nat) \<Rightarrow> error + (gate_id \<rightharpoonup> nat)" where
  "register_gates n [] byID = Inr byID"
| "register_gates n (g # gs) byID =
     bindE (validateGate g) (\<lambda>_.
     if byID (gt_ID g) \<noteq> None then
       Inl (registry_error ''duplicate'' [Str ''gate '', Quo (gt_ID g), Str '' appears more than once'']
         ''keep one gate definition'')
     else register_gates (Suc n) gs (byID(gt_ID g \<mapsto> n)))"

fun check_members :: "gate list \<Rightarrow> (gate_id \<rightharpoonup> nat) \<Rightarrow> string \<Rightarrow> gate_id list \<Rightarrow> gate_id list \<Rightarrow> error + unit" where
  "check_members gates byID t seen [] = Inr ()"
| "check_members gates byID t seen (i # is) = (case byID i of
     None \<Rightarrow> Inl (registry_error ''unknown''
       [Str ''transition '', Quo t, Str '' names unregistered gate '', Quo i]
       ''register the gate or remove the reference'')
   | Some n \<Rightarrow>
       if i \<in> set seen then
         Inl (registry_error ''duplicate'' [Str ''transition '', Quo t, Str '' repeats gate '', Quo i]
           ''keep one gate reference'')
       else if gt_Transition (gates ! n) \<noteq> t then
         Inl (registry_error ''invalid''
           [Str ''gate '', Quo i, Str '' transition metadata disagrees with '', Quo t] repair_metadata)
       else check_members gates byID t (i # seen) is)"

fun register_transitions :: "gate list \<Rightarrow> (gate_id \<rightharpoonup> nat) \<Rightarrow> transition list
    \<Rightarrow> (string \<rightharpoonup> gate_id list) \<Rightarrow> error + (string \<rightharpoonup> gate_id list)" where
  "register_transitions gates byID [] m = Inr m"
| "register_transitions gates byID (t # ts) m =
     (if tn_ID t = [] \<or> tn_GateIDs t = [] then
        Inl (registry_error ''invalid'' [Str ''transition id and gates are required''] repair_metadata)
      else if m (tn_ID t) \<noteq> None then
        Inl (registry_error ''duplicate'' [Str ''transition '', Quo (tn_ID t), Str '' appears more than once'']
          ''keep one transition definition'')
      else bindE (check_members gates byID (tn_ID t) [] (tn_GateIDs t)) (\<lambda>_.
        register_transitions gates byID ts (m(tn_ID t \<mapsto> tn_GateIDs t))))"

fun check_bound :: "(string \<rightharpoonup> gate_id list) \<Rightarrow> gate list \<Rightarrow> error + unit" where
  "check_bound m [] = Inr ()"
| "check_bound m (g # gs) =
     (if (case m (gt_Transition g) of None \<Rightarrow> True | Some is \<Rightarrow> gt_ID g \<notin> set is) then
        Inl (registry_error ''invalid''
          [Str ''gate '', Quo (gt_ID g), Str '' is not bound to transition '', Quo (gt_Transition g)]
          repair_metadata)
      else check_bound m gs)"

definition control_gate :: gate where
  "control_gate = \<lparr>gt_ID = ''gate_registry'', gt_Description = ''gate registry input is valid'',
     gt_Transition = [], gt_Profile = DefaultProfile, gt_Artifacts = [], gt_Severity = ''error'',
     gt_Evaluate = None\<rparr>"

definition newRegistry :: "string \<Rightarrow> gate list \<Rightarrow> transition list \<Rightarrow> error + registry" where
  "newRegistry version gates transitions =
     (if trim_space version = [] then
        Inl (registry_error ''invalid'' [Str ''version is required''] repair_metadata)
      else bindE (register_gates 0 gates Map.empty) (\<lambda>byID.
        bindE (register_transitions gates byID transitions Map.empty) (\<lambda>m.
        bindE (check_bound m gates) (\<lambda>_.
        Inr \<lparr>rg_version = version, rg_gates = gates, rg_byID = byID, rg_transitions = m,
             rg_control = control_gate\<rparr>))))"

subsection \<open>Evaluation\<close>

definition issue_key :: "issue \<Rightarrow> string \<times> nat \<times> nat \<times> nat \<times> string \<times> string" where
  "issue_key i = (let l = is_Location i in
     (loc_Path l, loc_Offset l, loc_Line l, loc_Column l, is_Problem i, is_Repair i))"

text \<open>The six comparisons in this order are the lexicographic order of the tuples.\<close>

definition sort_issues :: "issue list \<Rightarrow> issue list" where
  "sort_issues is = sort_key issue_key is"

definition registry_refusal :: "registry \<Rightarrow> string \<Rightarrow> string \<Rightarrow> finding" where
  "registry_refusal r problem repair =
     \<lparr>fi_Gate = gt_ID (rg_control r), fi_Severity = gt_Severity (rg_control r), fi_Location = no_location,
      fi_Problem = problem, fi_Repair = repair\<rparr>"

definition issue_finding :: "registry \<Rightarrow> gate \<Rightarrow> issue \<Rightarrow> finding" where
  "issue_finding r g i =
     (if trim_space (is_Problem i) = [] \<or> trim_space (is_Repair i) = [] then
        registry_refusal r (''gate '' @ gt_ID g @ '' returned a non-actionable issue'')
          ''repair the gate evaluator to return one problem and one repair''
      else \<lparr>fi_Gate = gt_ID g, fi_Severity = gt_Severity g, fi_Location = is_Location i,
            fi_Problem = is_Problem i, fi_Repair = is_Repair i\<rparr>)"

definition gate_findings :: "registry \<Rightarrow> snapshot \<Rightarrow> gate \<Rightarrow> finding list" where
  "gate_findings r s g = (case gt_Evaluate g of
     None \<Rightarrow> [] | Some f \<Rightarrow> map (issue_finding r g) (sort_issues (f s)))"

definition Evaluate :: "registry \<Rightarrow> snapshot \<Rightarrow> finding list" where
  "Evaluate r s = (case rg_transitions r (sn_Transition s) of
     None \<Rightarrow> [registry_refusal r ''transition has no registered gate set''
                ''select a registered lifecycle transition'']
   | Some ids \<Rightarrow>
       (if sn_RegistryVersion s \<noteq> rg_version r then
          [registry_refusal r ''snapshot registry version does not match active registry''
             (''reassemble the snapshot with registry version '' @ rg_version r)] else []) @
       concat (map (gate_findings r s) (filter (\<lambda>g. gt_ID g \<in> set ids) (rg_gates r))))"

definition core_definitions :: "(gate_id \<times> string \<times> string list) list" where
  "core_definitions =
     [(''proposal'', ''proposal is complete'', [''proposal'']),
      (''deltas'', ''capability deltas are structurally valid'', [''deltas'']),
      (''design'', ''design is complete and references resolve'', [''design'', ''deltas'']),
      (''tasks'', ''task table and dependency graph are valid'', [''tasks'']),
      (''trace'', ''requirements and tasks trace both directions'', [''deltas'', ''tasks'']),
      (''verification'', ''verification commands are structurally executable'', [''tasks'']),
      (''approval_prerequisite'', ''approval prerequisites are satisfied'',
         [''proposal'', ''deltas'', ''design'', ''tasks'', ''state'']),
      (''lifecycle'', ''lifecycle transition is legal'', [''state''])]"

definition CoreRegistry :: "evaluator gomap \<Rightarrow> error + registry" where
  "CoreRegistry evaluators =
     (let gates = map (\<lambda>(i, description, artifacts).
            \<lparr>gt_ID = i, gt_Description = description, gt_Transition = PlanningToApproved,
             gt_Profile = DefaultProfile, gt_Artifacts = artifacts, gt_Severity = ''error'',
             gt_Evaluate = map_of evaluators i\<rparr>) core_definitions
      in if length evaluators \<noteq> length core_definitions then
           Inl (registry_error ''invalid'' [Str ''evaluator inventory differs from core gates'']
             ''register exactly the core gate evaluators'')
         else newRegistry CoreRegistryVersion gates
           [\<lparr>tn_ID = PlanningToApproved, tn_GateIDs = map fst core_definitions\<rparr>])"

subsection \<open>The evaluators\<close>

definition issueFromDiagnostic :: "diagnostic \<Rightarrow> issue" where
  "issueFromDiagnostic d =
     \<lparr>is_Location = dg_Location d, is_Problem = dg_Message d, is_Repair = dg_Repair d\<rparr>"

definition diagnosticIssues :: "diagnostic list \<Rightarrow> issue list" where
  "diagnosticIssues ds = map issueFromDiagnostic ds"

definition has_any_prefix :: "string list \<Rightarrow> string \<Rightarrow> bool" where
  "has_any_prefix ps code \<longleftrightarrow> list_ex (has_prefix code) ps"

definition matchingPlanIssues :: "diagnostic list \<Rightarrow> string list \<Rightarrow> issue list" where
  "matchingPlanIssues ds ps = map issueFromDiagnostic (filter (\<lambda>d. has_any_prefix ps (dg_Code d)) ds)"

definition plan_issue :: "string \<Rightarrow> string \<Rightarrow> issue" where
  "plan_issue problem repair = \<lparr>is_Location = no_location, is_Problem = problem, is_Repair = repair\<rparr>"

definition proposalIssues :: evaluator where
  "proposalIssues s = diagnosticIssues (prop_Diagnostics (ch_Proposal (sn_Plan s)))"

definition delta_prefixes :: "string list" where
  "delta_prefixes = [''delta_'', ''capability_'', ''purpose_'', ''operation_'', ''requirement_'',
     ''scenario_'', ''rename_'']"

text \<open>\<open>appendMatching\<close>: the diagnostics not seen before whose code has a delta prefix.\<close>

fun append_matching :: "diagnostic list \<Rightarrow> diagnostic set \<Rightarrow> issue list" where
  "append_matching [] seen = []"
| "append_matching (d # ds) seen =
     (if d \<in> seen \<or> \<not> has_any_prefix delta_prefixes (dg_Code d) then append_matching ds seen
      else issueFromDiagnostic d # append_matching ds (insert d seen))"

definition deltaIssues :: evaluator where
  "deltaIssues s = append_matching
     (concat (map cd_Diagnostics (ch_Deltas (sn_Plan s))) @ ch_Diagnostics (sn_Plan s)) {}"

definition designIssues :: evaluator where
  "designIssues s = diagnosticIssues (des_Diagnostics (ch_Design (sn_Plan s)))"

definition taskIssues :: evaluator where
  "taskIssues s = diagnosticIssues (tasks_Diagnostics (ch_Tasks (sn_Plan s)))"

definition traceIssues :: evaluator where
  "traceIssues s = matchingPlanIssues (ch_Diagnostics (sn_Plan s)) [''trace_'']"

text \<open>\<open>shellAssignment\<close>: a name, an equals sign, anything.\<close>

definition assignment_char :: "bool \<Rightarrow> char \<Rightarrow> bool" where
  "assignment_char first c \<longleftrightarrow>
     c = CHR ''_'' \<or> is_lower c \<or> is_upper c \<or> \<not> first \<and> is_digit c"

definition shellAssignment :: "string \<Rightarrow> bool" where
  "shellAssignment token = (case takeWhile ((\<noteq>) CHR ''='') token of
     [] \<Rightarrow> False
   | c # cs \<Rightarrow> CHR ''='' \<in> set token \<and> assignment_char True c \<and> list_all (assignment_char False) cs)"

text \<open>The scan of \<open>commandProblem\<close>: the open quote, whether an escape is pending, and the current
  token when one has started, read backwards.\<close>

record command_scan =
  cs_quote :: "char option"
  cs_escaped :: bool
  cs_token :: "string option"
  cs_tokens :: "string list"

definition scan_flush :: "command_scan \<Rightarrow> command_scan" where
  "scan_flush s = (case cs_token s of
     None \<Rightarrow> s | Some t \<Rightarrow> s\<lparr>cs_token := None, cs_tokens := cs_tokens s @ [rev t]\<rparr>)"

definition scan_put :: "char \<Rightarrow> command_scan \<Rightarrow> command_scan" where
  "scan_put c s = s\<lparr>cs_token := Some (c # (case cs_token s of None \<Rightarrow> [] | Some t \<Rightarrow> t))\<rparr>"

definition scan_start :: "command_scan \<Rightarrow> command_scan" where
  "scan_start s = s\<lparr>cs_token := Some (case cs_token s of None \<Rightarrow> [] | Some t \<Rightarrow> t)\<rparr>"

definition single_quote :: char where "single_quote = CHR 0x27"
definition double_quote :: char where "double_quote = CHR 0x22"
definition backslash :: char where "backslash = CHR 0x5C"

definition scan_char :: "char \<Rightarrow> command_scan \<Rightarrow> string + command_scan" where
  "scan_char c s =
     (if c = CHR 0x00 \<or> c = CHR 0x0A \<or> c = CHR 0x0D then Inl ''contains a line break or NUL''
      else if cs_escaped s then Inr (scan_put c (s\<lparr>cs_escaped := False\<rparr>))
      else if c = backslash \<and> cs_quote s \<noteq> Some single_quote then Inr (s\<lparr>cs_escaped := True\<rparr>)
      else if cs_quote s \<noteq> None then
        (if cs_quote s = Some c then Inr (s\<lparr>cs_quote := None\<rparr>) else Inr (scan_put c s))
      else if c = single_quote \<or> c = double_quote then Inr (scan_start (s\<lparr>cs_quote := Some c\<rparr>))
      else if c \<in> set '';&|<>$()'' \<or> c = CHR 0x60 then Inl ''uses unsupported shell control syntax''
      else if is_space c then Inr (scan_flush s)
      else Inr (scan_put c s))"

fun scan_command :: "string \<Rightarrow> command_scan \<Rightarrow> string + command_scan" where
  "scan_command [] s = Inr s"
| "scan_command (c # cs) s = bindE (scan_char c s) (scan_command cs)"

definition commandProblem :: "string \<Rightarrow> string" where
  "commandProblem command =
     (let command = trim_space command in
      if command = [] then ''is empty''
      else case scan_command command \<lparr>cs_quote = None, cs_escaped = False, cs_token = None, cs_tokens = []\<rparr> of
        Inl problem \<Rightarrow> problem
      | Inr s \<Rightarrow>
          if cs_quote s \<noteq> None \<or> cs_escaped s then ''has an unterminated quote or escape''
          else (case dropWhile shellAssignment (cs_tokens (scan_flush s)) of
              [] \<Rightarrow> ''has no executable token''
            | t # _ \<Rightarrow> if t = [] \<or> has_prefix t ''#'' then ''has no executable token'' else []))"

definition verificationIssues :: evaluator where
  "verificationIssues s =
     (let placeholder = map dg_Location
            (filter (\<lambda>d. dg_Code d = ''task_verify_placeholder'') (ch_Diagnostics (sn_Plan s)))
      in map (\<lambda>t. \<lparr>is_Location = task_Location t,
             is_Problem = ''task '' @ task_ID t @ '' verification command '' @ commandProblem (task_Verify t),
             is_Repair = ''use one non-empty simple executable command without shell control operators''\<rparr>)
           (filter (\<lambda>t. task_Location t \<notin> set placeholder \<and> commandProblem (task_Verify t) \<noteq> [])
             (tasks_Tasks (ch_Tasks (sn_Plan s)))))"

definition classifiedDiagnostic :: "string \<Rightarrow> bool" where
  "classifiedDiagnostic code = has_any_prefix
     [''artifact_'', ''section_'', ''fence_'', ''delta_'', ''capability_'', ''purpose_'', ''operation_'',
      ''requirement_'', ''scenario_'', ''rename_'', ''task_'', ''trace_'', ''reference_''] code"

definition approvalPrerequisiteIssues :: evaluator where
  "approvalPrerequisiteIssues s =
     (if sn_StateRevision s = 0 then
        [plan_issue ''state revision is unavailable'' ''reload valid change state before approval''] else []) @
     (if trim_space (sn_PolicyDigest s) = [] then
        [plan_issue ''policy digest is unavailable'' ''assemble the default policy digest before approval'']
      else []) @
     map issueFromDiagnostic (filter (\<lambda>d.
         dg_Code d \<in> {''change_unsafe'', ''artifact_path'', ''artifact_unsafe'', ''artifact_unreadable''} \<or>
         \<not> classifiedDiagnostic (dg_Code d)) (ch_Diagnostics (sn_Plan s)))"

definition lifecycleIssues :: evaluator where
  "lifecycleIssues s =
     (if sn_Transition s \<noteq> PlanningToApproved then
        [plan_issue ''requested lifecycle transition is not planning to approved''
           ''request the planning_to_approved transition'']
      else if sn_Lifecycle s \<noteq> ''planning'' then
        [plan_issue ''change lifecycle is not planning'' ''select a planning change for approval'']
      else [])"

definition planning_evaluators :: "evaluator gomap" where
  "planning_evaluators =
     [(''proposal'', proposalIssues), (''deltas'', deltaIssues), (''design'', designIssues),
      (''tasks'', taskIssues), (''trace'', traceIssues), (''verification'', verificationIssues),
      (''approval_prerequisite'', approvalPrerequisiteIssues), (''lifecycle'', lifecycleIssues)]"

definition PlanningRegistry :: "error + registry" where
  "PlanningRegistry = CoreRegistry planning_evaluators"

end
