(* ===== verification/TaskTableProps.thy ===== *)
theory TaskTableProps
  imports PlanTree
begin

text \<open>
  The parser of the task table always returns: the search for a dependency cycle marks one more row
  with every nested call, so the fuel it is given is never used up.
\<close>

definition open_rows :: "nat \<Rightarrow> wave_dfs \<Rightarrow> nat set" where
  "open_rows n s = {k. k < n \<and> wd_mark s k = 0}"

lemma finite_open_rows [simp]: "finite (open_rows n s)"
  by (simp add: open_rows_def)

lemma row_visit_marks:
  shows "row_visit fuel byID ts k s = Some (b, s') \<Longrightarrow> wd_mark s' j = 0 \<Longrightarrow> wd_mark s j = 0"
    and "row_visit_deps fuel byID ts k ds s = Some (b, s') \<Longrightarrow> wd_mark s' j = 0 \<Longrightarrow> wd_mark s j = 0"
proof (induction fuel byID ts k s and fuel byID ts k ds s arbitrary: b s' and b s'
    rule: row_visit_row_visit_deps.induct)
  case (2 fuel byID ts k s)
  obtain b1 s1 where v: "row_visit_deps fuel byID ts k (task_DependsOn (ts ! k))
      (s\<lparr>wd_mark := (wd_mark s)(k := 1), wd_stack := wd_stack s @ [k]\<rparr>) = Some (b1, s1)"
    using 2(2) by (auto split: option.splits)
  then show ?case
    using 2(1) [OF v] 2(2,3) by (cases b1) (auto split: if_splits)
next
  case (4 fuel byID ts k d ds s)
  show ?case
  proof (cases "byID d = None \<or> d = task_ID (ts ! k)")
    case True
    then show ?thesis using 4(1,2) 4(6,7) by (auto split: option.splits)
  next
    case False
    then obtain m where m: "byID d = Some m" "d \<noteq> task_ID (ts ! k)" by auto
    show ?thesis
    proof (cases "wd_mark s m = 0")
      case True
      then obtain b1 s1 where v: "row_visit fuel byID ts m s = Some (b1, s1)"
        using 4(6) m by (auto split: option.splits)
      then show ?thesis
        using 4(3) [OF m _ True v] 4(4) [OF m _ True v] 4(6,7) m True by (cases b1) auto
    next
      case False
      then show ?thesis using 4(5) [OF m] 4(6,7) m by (auto split: if_splits)
    qed
  qed
qed auto

lemma row_visit_enough:
  assumes "ran byID \<subseteq> {..<length ts}"
  shows "k < length ts \<Longrightarrow> wd_mark s k = 0 \<Longrightarrow> card (open_rows (length ts) s) \<le> fuel \<Longrightarrow>
      row_visit fuel byID ts k s \<noteq> None"
    and "card (open_rows (length ts) s) \<le> fuel \<Longrightarrow> row_visit_deps fuel byID ts k ds s \<noteq> None"
  using assms
proof (induction fuel byID ts k s and fuel byID ts k ds s rule: row_visit_row_visit_deps.induct)
  case (1 byID ts k s)
  then have "k \<in> open_rows (length ts) s" by (simp add: open_rows_def)
  then have "0 < card (open_rows (length ts) s)" by (auto simp: card_gt_0_iff)
  then show ?case using 1 by simp
next
  case (2 fuel byID ts k s)
  let ?s1 = "s\<lparr>wd_mark := (wd_mark s)(k := 1), wd_stack := wd_stack s @ [k]\<rparr>"
  have "open_rows (length ts) ?s1 = open_rows (length ts) s - {k}" by (auto simp: open_rows_def)
  moreover have "k \<in> open_rows (length ts) s" using 2 by (simp add: open_rows_def)
  ultimately have "card (open_rows (length ts) ?s1) \<le> fuel" using 2 by simp
  then show ?case using 2 by (auto split: option.splits bool.splits)
next
  case (4 fuel byID ts k d ds s)
  show ?case
  proof (cases "byID d = None \<or> d = task_ID (ts ! k)")
    case True
    then show ?thesis using 4(1,2) 4(6,7) by (auto split: option.splits)
  next
    case False
    then obtain m where m: "byID d = Some m" "d \<noteq> task_ID (ts ! k)" by auto
    show ?thesis
    proof (cases "wd_mark s m = 0")
      case True
      have "m < length ts" using m 4(7) by (auto simp: ran_def)
      then have "row_visit fuel byID ts m s \<noteq> None" using 4(3) [OF m _ True] 4(6,7) True by simp
      then obtain b1 s1 where v: "row_visit fuel byID ts m s = Some (b1, s1)" by fastforce
      have "open_rows (length ts) s1 \<subseteq> open_rows (length ts) s"
        using row_visit_marks(1) [OF v] by (auto simp: open_rows_def)
      then have "card (open_rows (length ts) s1) \<le> fuel"
        using 4(6) by (meson card_mono finite_open_rows le_trans)
      then have "b1 \<or> row_visit_deps fuel byID ts k ds s1 \<noteq> None"
        using 4(4) [OF m _ True v refl] 4(7) True by auto
      then show ?thesis using v True m by (cases b1) auto
    next
      case False
      then show ?thesis using 4(5) [OF m] 4(6,7) m by auto
    qed
  qed
qed simp_all

lemma row_roots_enough:
  assumes "ran byID \<subseteq> {..<length ts}" and "length ts \<le> fuel"
  shows "set ks \<subseteq> {..<length ts} \<Longrightarrow> row_roots fuel byID ts ks s \<noteq> None"
proof (induction ks arbitrary: s)
  case (Cons k ks)
  have "open_rows (length ts) s \<subseteq> {..<length ts}" by (auto simp: open_rows_def)
  then have "card (open_rows (length ts) s) \<le> fuel"
    using card_mono [of "{..<length ts}" "open_rows (length ts) s"] assms(2) by simp
  then have "wd_mark s k = 0 \<Longrightarrow> row_visit fuel byID ts k s \<noteq> None"
    using row_visit_enough(1) [OF assms(1)] Cons.prems by auto
  then show ?case using Cons by (cases "wd_mark s k = 0") (auto split: option.splits bool.splits)
qed simp

lemma index_valid_range: "ran (index_valid ts) \<subseteq> {..<length ts}"
  by (auto simp: index_valid_def ran_def dest!: map_of_SomeD)

lemma find_row_cycle_enough: "find_row_cycle ts \<noteq> None"
  unfolding find_row_cycle_def by (rule row_roots_enough [OF index_valid_range]) auto

lemma ParseTasks_total: "ParseTasks src \<noteq> None"
proof -
  have "projectTaskWaves ts \<noteq> None" for ts
    by (simp add: projectTaskWaves_def Let_def case_prod_beta find_row_cycle_enough split: option.split list.split)
  then show ?thesis
    by (auto simp: ParseTasks_def Let_def case_prod_beta split: list.splits)
qed

lemma ParseChange_total: "ParseChange env fs name \<noteq> None"
proof -
  have "parse_artifacts env fs name dir \<noteq> None" for dir
    using ParseTasks_total by (auto simp: parse_artifacts_def Let_def case_prod_beta)
  then show ?thesis
    by (auto simp: ParseChange_def Let_def split: sum.splits stat.splits node.splits)
qed

text \<open>C36: Parsing a change terminates with a result, whatever the tree holds: every cycle search of the task
  table ends within the fuel it is given.\<close>
theorem ParseChange_returns: "\<exists>c. ParseChange env fs name = Some c"
  using ParseChange_total by auto

end
