(* ===== verification/Checks.thy ===== *)
theory Checks
  imports Gates TaskTableProps StateDoc
begin

text \<open>
  \<open>internal/core/check.go\<close>: reading the state file of a change, the snapshot the gates see, and the
  result of a check. The snapshot is assembled under the change lock; the reads are of one tree.
  \<open>plan_of\<close> is \<open>plan.ParseChange\<close>, which always returns (\<open>ParseChange_returns\<close>).
\<close>

definition plan_of :: "tree_env \<Rightarrow> fs \<Rightarrow> string \<Rightarrow> change" where
  "plan_of env fs name = (case ParseChange env fs name of
     Some c \<Rightarrow> c
   | None \<Rightarrow> refused_change env name (mk_diagnostic [] (first_line []) [] []))"

lemma plan_of_parses: "ParseChange env fs name = Some (plan_of env fs name)"
  using ParseChange_total [of env fs name] by (auto simp: plan_of_def)

definition DefaultPolicyDigest :: string where
  "DefaultPolicyDigest = sha256_hex ''specd-v2-default-policy-v1''"

subsection \<open>The state file\<close>

definition unreadableState :: "string \<Rightarrow> msg \<Rightarrow> error" where
  "unreadableState path reason =
     refuse ''check_state'' [] path reason [Str ''choose an existing change with valid state'']"

definition readCheckState :: "tree_env \<Rightarrow> fs \<Rightarrow> string \<Rightarrow> error + string" where
  "readCheckState env fs p =
     (let path = abs_path (te_owner env) p;
          gone = unreadableState path (error_Error (path_error ''open'' path ''no such file or directory''));
          odd = unreadableState path [Str ''state must be a regular non-symlink file''] in
      case lstat fs p of
        Absent \<Rightarrow> Inl gone
      | Blocked \<Rightarrow> Inl (unreadableState path (error_Error (os_error ''open'' path)))
      | Found NLink \<Rightarrow> Inl (if te_link env p then odd else gone)
      | Found NDir \<Rightarrow> Inl odd
      | Found (NFile raw) \<Rightarrow> Inr raw)"

text \<open>The path and the state every operation starts from.\<close>

definition load_state :: "tree_env \<Rightarrow> fs \<Rightarrow> string \<Rightarrow> error + string \<times> state" where
  "load_state env fs change =
     bindE (ChangeState (te_owner env) fs change) (\<lambda>p.
     bindE (readCheckState env fs p) (\<lambda>raw.
     bindE (state_Decode (read_text raw) change) (\<lambda>s. Inr (p, s))))"

subsection \<open>The check\<close>

record check_snapshot =
  ck_root :: string
  ck_change :: string
  ck_snapshot :: snapshot
  ck_registry :: registry

record check_result =
  cr_Root :: string
  cr_Change :: string
  cr_StateRevision :: u64
  cr_RegistryVersion :: string
  cr_PolicyDigest :: string
  cr_Findings :: "finding list"
  cr_Success :: bool

definition assembleCheckLocked :: "tree_env \<Rightarrow> fs \<Rightarrow> string \<Rightarrow> string \<Rightarrow> error + check_snapshot" where
  "assembleCheckLocked env fs change policyDigest =
     bindE (load_state env fs change) (\<lambda>(_, current).
     bindE (map_err (\<lambda>e. refuse ''check_registry'' (own_root (te_owner env)) [] (error_Error e)
              [Str ''repair gate registry metadata'']) PlanningRegistry) (\<lambda>registry.
     Inr \<lparr>ck_root = own_root (te_owner env), ck_change = change,
          ck_snapshot = \<lparr>sn_Plan = plan_of env fs change, sn_Lifecycle = st_Stage current,
            sn_StateRevision = st_Revision current, sn_Transition = PlanningToApproved,
            sn_RegistryVersion = rg_version registry, sn_PolicyDigest = policyDigest\<rparr>,
          ck_registry = registry\<rparr>))"

text \<open>\<open>AssembleCheck\<close> around it: the policy guard, and the change lock with what taking it returns.\<close>

definition AssembleCheck :: "tree_env \<Rightarrow> fs \<Rightarrow> (string \<Rightarrow> error option) \<Rightarrow> string \<Rightarrow> string
    \<Rightarrow> error + check_snapshot" where
  "AssembleCheck env fs lock change policyDigest =
     (if policyDigest \<noteq> DefaultPolicyDigest then
        Inl (refuse ''check_policy'' (own_root (te_owner env)) [] [Str ''unsupported policy digest'']
          [Str ''use the canonical default policy digest''])
      else bindE (ChangeLock (te_owner env) fs change) (\<lambda>p. case lock p of
          Some e \<Rightarrow> Inl e
        | None \<Rightarrow> assembleCheckLocked env fs change policyDigest))"

definition newCheckResult :: "check_snapshot \<Rightarrow> finding list \<Rightarrow> check_result" where
  "newCheckResult c findings =
     \<lparr>cr_Root = ck_root c, cr_Change = ck_change c, cr_StateRevision = sn_StateRevision (ck_snapshot c),
      cr_RegistryVersion = rg_version (ck_registry c), cr_PolicyDigest = sn_PolicyDigest (ck_snapshot c),
      cr_Findings = findings, cr_Success = (\<not> list_ex (\<lambda>f. fi_Severity f = ''error'') findings)\<rparr>"

definition EvaluateCheck :: "check_snapshot \<Rightarrow> check_result" where
  "EvaluateCheck c = newCheckResult c (Evaluate (ck_registry c) (ck_snapshot c))"

definition RunCheck :: "tree_env \<Rightarrow> fs \<Rightarrow> (string \<Rightarrow> error option) \<Rightarrow> string \<Rightarrow> string
    \<Rightarrow> error + check_result" where
  "RunCheck env fs lock change policyDigest =
     bindE (AssembleCheck env fs lock change policyDigest) (\<lambda>c. Inr (EvaluateCheck c))"

subsection \<open>The planning registry\<close>

definition planning_gates :: "gate list" where
  "planning_gates = map (\<lambda>(i, description, artifacts).
     \<lparr>gt_ID = i, gt_Description = description, gt_Transition = PlanningToApproved,
      gt_Profile = DefaultProfile, gt_Artifacts = artifacts, gt_Severity = ''error'',
      gt_Evaluate = map_of planning_evaluators i\<rparr>) core_definitions"

end
