(* ===== verification/CheckProps.thy ===== *)
theory CheckProps
  imports Checks
begin

text \<open>
  What a successful check means. The evaluators pick the diagnostics of the parser by their codes;
  the lemmas here say which codes every part of the parser uses, so that it can be said which
  diagnostics no gate reports.
\<close>

named_theorems codes

definition codes_in :: "string set \<Rightarrow> diagnostic list \<Rightarrow> bool" where
  "codes_in C ds \<longleftrightarrow> (\<forall>d \<in> set ds. dg_Code d \<in> C)"

lemma codes_in_simps [simp]:
  "codes_in C []"
  "codes_in C (d # ds) \<longleftrightarrow> dg_Code d \<in> C \<and> codes_in C ds"
  "codes_in C (ds @ es) \<longleftrightarrow> codes_in C ds \<and> codes_in C es"
  "codes_in C (sortDiagnostics ds) \<longleftrightarrow> codes_in C ds"
  "codes_in C (concat (map f xs)) \<longleftrightarrow> (\<forall>x \<in> set xs. codes_in C (f x))"
  by (auto simp: codes_in_def)

lemma codes_in_map [simp]: "codes_in C (map f xs) \<longleftrightarrow> (\<forall>x \<in> set xs. dg_Code (f x) \<in> C)"
  by (auto simp: codes_in_def)

lemma code_of_diagnostic [simp]: "dg_Code (mk_diagnostic c at m r) = c"
  by (simp add: mk_diagnostic_def)

lemma codes_in_mono: "codes_in C ds \<Longrightarrow> C \<subseteq> D \<Longrightarrow> codes_in D ds"
  by (auto simp: codes_in_def)

subsection \<open>The codes of a delta\<close>

definition delta_codes :: "string set" where
  "delta_codes = {''capability_unsafe'', ''delta_missing'', ''delta_empty'', ''delta_heading'',
     ''delta_placeholder'', ''delta_section_level'', ''fence_unterminated'', ''operation_empty'',
     ''operation_new_capability'', ''purpose_duplicate'', ''purpose_empty'', ''purpose_existing'',
     ''purpose_missing'', ''removed_incomplete'', ''rename_duplicate'', ''rename_incomplete'',
     ''requirement_conflict'', ''requirement_duplicate'', ''requirement_exists'', ''requirement_heading'',
     ''requirement_name'', ''requirement_normative'', ''requirement_scenario'', ''requirement_unknown'',
     ''scenario_heading'', ''scenario_level'', ''scenario_steps''}"

lemma delta_code_mem [simp]:
  "''capability_unsafe'' \<in> delta_codes"
  "''delta_missing'' \<in> delta_codes"
  "''delta_empty'' \<in> delta_codes"
  "''delta_heading'' \<in> delta_codes"
  "''delta_placeholder'' \<in> delta_codes"
  "''delta_section_level'' \<in> delta_codes"
  "''fence_unterminated'' \<in> delta_codes"
  "''operation_empty'' \<in> delta_codes"
  "''operation_new_capability'' \<in> delta_codes"
  "''purpose_duplicate'' \<in> delta_codes"
  "''purpose_empty'' \<in> delta_codes"
  "''purpose_existing'' \<in> delta_codes"
  "''purpose_missing'' \<in> delta_codes"
  "''removed_incomplete'' \<in> delta_codes"
  "''rename_duplicate'' \<in> delta_codes"
  "''rename_incomplete'' \<in> delta_codes"
  "''requirement_conflict'' \<in> delta_codes"
  "''requirement_duplicate'' \<in> delta_codes"
  "''requirement_exists'' \<in> delta_codes"
  "''requirement_heading'' \<in> delta_codes"
  "''requirement_name'' \<in> delta_codes"
  "''requirement_normative'' \<in> delta_codes"
  "''requirement_scenario'' \<in> delta_codes"
  "''requirement_unknown'' \<in> delta_codes"
  "''scenario_heading'' \<in> delta_codes"
  "''scenario_level'' \<in> delta_codes"
  "''scenario_steps'' \<in> delta_codes"
  by (simp_all add: delta_codes_def)

lemma codes_heading_fault [codes]: "codes_in delta_codes (requirement_heading_fault src h)"
  by (simp add: requirement_heading_fault_def)

lemma codes_scenarios [codes]:
  "codes_in delta_codes (fst (snd (scan_scenarios src children stop body valid hs)))"
  by (induction src children stop body valid hs rule: scan_scenarios.induct)
    (simp_all add: Let_def case_prod_beta)

lemma codes_requirement [codes]:
  "codes_in delta_codes (fst (snd (requirement_operation src kind children stop h rest)))"
  unfolding requirement_operation_def Let_def case_prod_beta fst_conv snd_conv codes_in_simps
  using codes_scenarios by simp

lemma codes_requirements [codes]:
  "codes_in delta_codes (fst (snd (scan_requirements src kind children stop hs)))"
  by (induction hs) (simp_all add: Let_def case_prod_beta codes)

lemma codes_parse_requirements [codes]:
  "codes_in delta_codes (fst (snd (parseRequirementOperations src kind sect stop children)))"
  unfolding parseRequirementOperations_def Let_def case_prod_beta fst_conv snd_conv codes_in_simps
  using codes_requirements by simp

lemma codes_removed [codes]: "codes_in delta_codes (snd (parseRemovedOperations src sect stop children))"
proof -
  have "codes_in delta_codes (snd (removed_operation src stop h rest))" for h rest
    by (simp add: removed_operation_def Let_def)
  then have "codes_in delta_codes (snd (scan_removed src stop hs))" for hs
    by (induction hs) (simp_all add: Let_def case_prod_beta codes)
  then show ?thesis
    by (simp add: parseRemovedOperations_def case_prod_beta)
qed

lemma codes_renames [codes]: "codes_in delta_codes (snd (parseRenameOperations src sect stop))"
proof -
  have "codes_in delta_codes (fst (snd (scan_renames src raw f at ls)))" for raw f at ls
  proof (induction ls arbitrary: f at)
    case (Cons l ls)
    then show ?case
      by (cases "fromToPattern (ln_text l)") (simp_all add: Let_def case_prod_beta rename_incomplete_def)
  qed simp
  then show ?thesis
    by (simp add: parseRenameOperations_def Let_def case_prod_beta rename_incomplete_def)
qed

lemma codes_sections [codes]: "codes_in delta_codes (fst (snd (parse_sections src accepted hs ss)))"
proof -
  have "codes_in delta_codes (fst (snd (parse_section src hs kind sect)))" for kind sect
    using codes by (simp add: parse_section_def Let_def case_prod_beta split: delta_kind.split)
  then show ?thesis
    by (induction ss) (simp_all add: Let_def case_prod_beta split: option.split)
qed

lemma codes_purpose [codes]: "codes_in delta_codes (fst (snd (parse_purpose src accepted hs)))"
  by (simp add: parse_purpose_def Let_def delta_codes_def split: list.split)

lemma codes_accepted [codes]: "codes_in delta_codes (validateAcceptedIdentities accepted ops)"
proof -
  have "codes_in delta_codes (accepted_fault is op)" for "is" op
    by (simp add: accepted_fault_def Let_def)
  then show ?thesis by (simp add: validateAcceptedIdentities_def)
qed

lemma codes_identities [codes]: "codes_in delta_codes (validateOperationIdentities ops)"
proof -
  have "dg_Code (identity_fault p op) \<in> delta_codes" for p op
    by (simp add: identity_fault_def Let_def)
  then have keys: "codes_in delta_codes (snd (check_keys seen op ks))" for seen op ks
    by (induction seen op ks rule: check_keys.induct) (simp_all add: case_prod_beta split: option.split)
  have "codes_in delta_codes (check_operations seen ops)" for seen
    using keys by (induction ops arbitrary: seen) (simp_all add: case_prod_beta)
  then show ?thesis by (simp add: validateOperationIdentities_def)
qed

lemma codes_delta: "codes_in delta_codes (cd_Diagnostics (ParseCapabilityDelta src capability accepted))"
proof -
  have "codes_in delta_codes (section_levels src hs)" for hs
    by (simp add: section_levels_def)
  then show ?thesis
    using codes_sections codes_purpose codes_accepted codes_identities
    by (simp add: ParseCapabilityDelta_def delta_refused_def Let_def case_prod_beta split: option.split)
qed

subsection \<open>The diagnostics a gate reports by their code\<close>

definition reported :: "string \<Rightarrow> bool" where
  "reported code \<longleftrightarrow> has_any_prefix delta_prefixes code \<or> has_prefix code ''trace_'' \<or>
     code \<in> {''change_unsafe'', ''artifact_path'', ''artifact_unsafe'', ''artifact_unreadable''} \<or>
     \<not> classifiedDiagnostic code"

lemmas reported_defs = reported_def has_any_prefix_def delta_prefixes_def classifiedDiagnostic_def

definition tree_codes :: "string set" where
  "tree_codes = {''change_unsafe'', ''change_path'', ''artifact_path'', ''artifact_unsafe'',
     ''artifact_unreadable'', ''capability_path'', ''delta_missing'', ''delta_path'', ''accepted_path'',
     ''accepted_unreadable'', ''trace_unknown'', ''trace_ambiguous'', ''trace_uncovered''}"

lemma tree_code_mem [simp]:
  "''change_unsafe'' \<in> tree_codes" "''change_path'' \<in> tree_codes" "''artifact_path'' \<in> tree_codes"
  "''artifact_unsafe'' \<in> tree_codes" "''artifact_unreadable'' \<in> tree_codes"
  "''capability_path'' \<in> tree_codes" "''delta_missing'' \<in> tree_codes" "''delta_path'' \<in> tree_codes"
  "''accepted_path'' \<in> tree_codes" "''accepted_unreadable'' \<in> tree_codes"
  "''trace_unknown'' \<in> tree_codes" "''trace_ambiguous'' \<in> tree_codes" "''trace_uncovered'' \<in> tree_codes"
  by (simp_all add: tree_codes_def)

lemma tree_codes_reported: "code \<in> tree_codes \<Longrightarrow> reported code"
  unfolding tree_codes_def by (elim insertE emptyE) (simp_all add: reported_defs)

lemma delta_codes_reported:
  "code \<in> delta_codes \<Longrightarrow> reported code \<or> code = ''fence_unterminated''"
  unfolding delta_codes_def by (elim insertE emptyE) (simp_all add: reported_defs)

lemma fence_not_reported: "\<not> reported ''fence_unterminated''"
  by (simp add: reported_defs)

lemma code_pathDiagnostic [simp]: "dg_Code (pathDiagnostic env c p e) = c"
  by (simp add: pathDiagnostic_def)

lemma codes_plan_source [codes]: "codes_in tree_codes (snd (readPlanSource env fs p e))"
  by (auto simp: readPlanSource_def Let_def artifact_unsafe_def split: option.split stat.split node.split)

lemma codes_read_artifact [codes]: "codes_in tree_codes (snd (read_artifact env fs found p))"
  by (simp add: read_artifact_def codes split: sum.split)

lemma codes_entry:
  "(\<forall>ds. discover_entry env fs change specs name = Inl ds \<longrightarrow> codes_in tree_codes ds) \<and>
   (\<forall>delta. discover_entry env fs change specs name = Inr delta \<longrightarrow> codes_in delta_codes (cd_Diagnostics delta))"
  using codes_plan_source [of env fs] codes_delta
  by (auto simp: discover_entry_def Let_def capability_path_def accepted_source_def case_prod_beta
      split: if_splits sum.splits stat.splits node.splits)

lemma codes_entries:
  "codes_in tree_codes (snd (discover_entries env fs change specs names)) \<and>
   (\<forall>delta \<in> set (fst (discover_entries env fs change specs names)). codes_in delta_codes (cd_Diagnostics delta))"
proof (induction names)
  case (Cons name names)
  then show ?case
    using codes_entry [of env fs change specs name]
    by (cases "discover_entry env fs change specs name") (auto simp: case_prod_beta)
qed simp

lemma codes_discovery:
  "codes_in tree_codes (snd (DiscoverCapabilityDeltas env fs change)) \<and>
   (\<forall>delta \<in> set (fst (DiscoverCapabilityDeltas env fs change)). codes_in delta_codes (cd_Diagnostics delta))"
  using codes_entries
  by (auto simp: DiscoverCapabilityDeltas_def Let_def case_prod_beta split: sum.split stat.split node.split)

lemma codes_trace: "codes_in tree_codes (snd (projectTrace deltas d p))"
proof -
  have one: "codes_in tree_codes (snd (resolve_reference owner i targets r))" for owner i targets r
    by (simp add: resolve_reference_def split: list.split)
  have refs: "codes_in tree_codes (snd (resolve_references owner i targets rs))" for owner i targets rs
    by (induction rs arbitrary: targets) (simp_all add: case_prod_beta one)
  have "codes_in tree_codes (snd (snd (trace_tasks targets ts)))" for targets ts
    by (induction ts arbitrary: targets) (simp_all add: Let_def case_prod_beta refs)
  then show ?thesis
    using refs by (simp add: projectTrace_def Let_def case_prod_beta uncovered_def)
qed

lemma codes_no_delta: "dg_Code (no_delta env fs name) \<in> tree_codes"
  by (simp add: no_delta_def split: sum.split)

text \<open>Where a diagnostic of a parsed change comes from.\<close>

definition move_to :: "string \<Rightarrow> diagnostic \<Rightarrow> diagnostic" where
  "move_to p d = (if loc_Path (dg_Location d) = [] then d\<lparr>dg_Location := (dg_Location d)\<lparr>loc_Path := p\<rparr>\<rparr> else d)"

lemma code_move_to [simp]: "dg_Code (move_to p d) = dg_Code d"
  by (simp add: move_to_def)

lemma gather_diagnostics:
  "D \<subseteq> M \<Longrightarrow> A \<union> (B \<union> (C \<union> (P \<union> (Q \<union> (T \<union> (D \<union> (S \<union> X))))))) \<subseteq>
    A \<union> B \<union> C \<union> P \<union> Q \<union> T \<union> M \<union> S \<union> X" for A :: "'a set"
  by blast

lemma artifact_diagnostics:
  assumes "parse_artifacts env fs name dir = Some c"
  obtains a1 a2 a3 p where
    "set (ch_Diagnostics c) \<subseteq> set (snd (read_artifact env fs (ChangeProposal (te_owner env) fs name) a1)) \<union>
       set (snd (read_artifact env fs (ChangeDesign (te_owner env) fs name) a2)) \<union>
       set (snd (read_artifact env fs (ChangeTasks (te_owner env) fs name) a3)) \<union>
       set (prop_Diagnostics (ch_Proposal c)) \<union> set (des_Diagnostics (ch_Design c)) \<union>
       set (tasks_Diagnostics (ch_Tasks c)) \<union>
       insert (no_delta env fs name) (move_to p ` set (snd (DiscoverCapabilityDeltas env fs name))) \<union>
       (\<Union>ds \<in> cd_Diagnostics ` set (ch_Deltas c). set ds) \<union>
       set (snd (projectTrace (ch_Deltas c) (ch_Design c) (ch_Tasks c)))"
    and "ch_Deltas c = fst (DiscoverCapabilityDeltas env fs name)"
proof -
  have pick: "set (if b then [x] else map f ds) \<subseteq> insert x (f ` set ds)" for b and x :: diagnostic and f ds
    by auto
  have moves: "(\<lambda>d. if loc_Path (dg_Location d) = [] then d\<lparr>dg_Location := (dg_Location d)\<lparr>loc_Path := p\<rparr>\<rparr> else d) =
      move_to p" for p
    by (rule ext) (simp add: move_to_def)
  show thesis
    using assms unfolding parse_artifacts_def Let_def case_prod_beta map_option_eq_Some
    apply (elim exE conjE)
    apply (hypsubst)
    apply (rule that)
     apply (simp only: change.select_convs set_sortDiagnostics set_append moves set_concat set_map)
     apply (rule gather_diagnostics)
     apply (rule pick)
    apply simp
    done
qed

lemma ParseChange_cases:
  assumes "ParseChange env fs name = Some c"
  obtains (refused) d where "c = refused_change env name d" "dg_Code d \<in> tree_codes"
    | (parsed) dir where "parse_artifacts env fs name dir = Some c"
  using assms by (auto simp: ParseChange_def Let_def split: sum.splits stat.splits node.splits)

lemma parsed_diagnostics:
  assumes "ParseChange env fs name = Some c" and "d \<in> set (ch_Diagnostics c)"
  shows "d \<in> set (prop_Diagnostics (ch_Proposal c)) \<or> d \<in> set (des_Diagnostics (ch_Design c)) \<or>
    d \<in> set (tasks_Diagnostics (ch_Tasks c)) \<or> dg_Code d \<in> tree_codes \<or>
    (dg_Code d \<in> delta_codes \<and> (\<exists>delta \<in> set (ch_Deltas c). d \<in> set (cd_Diagnostics delta)))"
proof -
  from assms(1) show ?thesis
  proof (cases rule: ParseChange_cases)
    case refused
    then show ?thesis using assms(2) by (simp add: refused_change_def)
  next
    case parsed
    from artifact_diagnostics [OF parsed] show ?thesis
    proof cases
      case (1 a1 a2 a3 p)
      have "dg_Code d \<in> tree_codes" if "d \<in> set (snd (read_artifact env fs x q))" for x q
        using codes_read_artifact that by (auto simp: codes_in_def)
      moreover have "dg_Code d \<in> tree_codes" if "d \<in> set (snd (projectTrace x y z))" for x y z
        using codes_trace that by (auto simp: codes_in_def)
      moreover have "dg_Code d \<in> tree_codes"
        if "d \<in> insert (no_delta env fs name) (move_to p ` set (snd (DiscoverCapabilityDeltas env fs name)))"
        using codes_no_delta codes_discovery [of env fs name] that by (auto simp: codes_in_def)
      moreover have "dg_Code d \<in> delta_codes" if "\<exists>delta \<in> set (ch_Deltas c). d \<in> set (cd_Diagnostics delta)"
        using codes_discovery [of env fs name] that 1(2) by (auto simp: codes_in_def)
      ultimately show ?thesis using subsetD [OF 1(1) assms(2)] by blast
    qed
  qed
qed

subsection \<open>The planning registry\<close>

lemma register_gates_ok:
  assumes "\<forall>g \<in> set gs. validateGate g = Inr ()" and "distinct (map gt_ID gs)"
    and "\<forall>g \<in> set gs. byID (gt_ID g) = None"
  shows "\<exists>m. register_gates n gs byID = Inr m \<and> (\<forall>k < length gs. m (gt_ID (gs ! k)) = Some (n + k)) \<and>
    (\<forall>i. i \<notin> gt_ID ` set gs \<longrightarrow> m i = byID i)"
  using assms
proof (induction gs arbitrary: n byID)
  case (Cons g gs)
  have fresh: "\<forall>g' \<in> set gs. (byID(gt_ID g \<mapsto> n)) (gt_ID g') = None"
    using Cons.prems(2,3) by (metis distinct.simps(2) fun_upd_other image_eqI list.set_intros(2) list.set_map list.simps(9))
  obtain m where m: "register_gates (Suc n) gs (byID(gt_ID g \<mapsto> n)) = Inr m"
      "\<forall>k < length gs. m (gt_ID (gs ! k)) = Some (Suc n + k)"
      "\<forall>i. i \<notin> gt_ID ` set gs \<longrightarrow> m i = (byID(gt_ID g \<mapsto> n)) i"
    using Cons.IH [OF _ _ fresh, of "Suc n"] Cons.prems(1,2) by fastforce
  moreover have "m (gt_ID g) = Some n" using m(3) Cons.prems(2) by auto
  ultimately show ?case
    using Cons.prems by (auto simp: nth_Cons' intro!: exI [of _ m])
qed simp

lemma check_members_ok:
  assumes "\<forall>i \<in> set is. \<exists>n. byID i = Some n \<and> gt_Transition (gates ! n) = t"
    and "distinct (is @ seen)"
  shows "check_members gates byID t seen is = Inr ()"
  using assms by (induction "is" arbitrary: seen) auto

lemma check_bound_ok:
  "\<forall>g \<in> set gs. \<exists>is. m (gt_Transition g) = Some is \<and> gt_ID g \<in> set is \<Longrightarrow> check_bound m gs = Inr ()"
  by (induction gs) auto

lemma planning_gates_valid: "\<forall>g \<in> set planning_gates. validateGate g = Inr ()"
  by (simp add: planning_gates_def core_definitions_def planning_evaluators_def validateGate_def
      DefaultProfile_def PlanningToApproved_def trim_space_empty_iff is_space_def)

lemma planning_gate_ids: "map gt_ID planning_gates = map fst core_definitions"
  by (simp add: planning_gates_def case_prod_beta)

lemma core_ids_distinct: "distinct (map fst core_definitions)"
  by (simp add: core_definitions_def)

lemma planning_transition: "g \<in> set planning_gates \<Longrightarrow> gt_Transition g = PlanningToApproved"
  by (auto simp: planning_gates_def)

lemma PlanningRegistry_ok:
  "\<exists>m. PlanningRegistry = Inr \<lparr>rg_version = CoreRegistryVersion, rg_gates = planning_gates, rg_byID = m,
     rg_transitions = [PlanningToApproved \<mapsto> map fst core_definitions], rg_control = control_gate\<rparr>"
proof -
  obtain m where m: "register_gates 0 planning_gates Map.empty = Inr m"
      "\<forall>k < length planning_gates. m (gt_ID (planning_gates ! k)) = Some k"
    using register_gates_ok [OF planning_gates_valid, of Map.empty 0] core_ids_distinct
    by (auto simp: planning_gate_ids)
  have "\<exists>n. m i = Some n \<and> gt_Transition (planning_gates ! n) = PlanningToApproved"
    if "i \<in> set (map fst core_definitions)" for i
  proof -
    have "i \<in> set (map gt_ID planning_gates)" using that by (simp only: planning_gate_ids)
    then obtain n where "n < length planning_gates" "i = gt_ID (planning_gates ! n)"
      by (auto simp: in_set_conv_nth)
    then show ?thesis using m(2) planning_transition by auto
  qed
  then have "check_members planning_gates m PlanningToApproved [] (map fst core_definitions) = Inr ()"
    using core_ids_distinct by (intro check_members_ok) auto
  moreover have "check_bound [PlanningToApproved \<mapsto> map fst core_definitions] planning_gates = Inr ()"
    using planning_transition planning_gate_ids
    by (intro check_bound_ok) (metis (no_types) fun_upd_same image_eqI list.set_map)
  moreover have "length planning_evaluators = length core_definitions" "core_definitions \<noteq> []"
      "trim_space CoreRegistryVersion \<noteq> []" "PlanningToApproved \<noteq> []"
    by (simp_all add: planning_evaluators_def core_definitions_def CoreRegistryVersion_def
        PlanningToApproved_def trim_space_empty_iff is_space_def)
  ultimately show ?thesis
    using m(1) by (simp add: PlanningRegistry_def CoreRegistry_def newRegistry_def
        planning_gates_def [symmetric] del: map_map)
qed

lemma sort_issues_Nil [simp]: "sort_issues is = [] \<longleftrightarrow> is = []"
  unfolding sort_issues_def by (metis set_empty set_sort)

text \<open>A check succeeds exactly when no evaluator has an issue.\<close>

lemma EvaluateCheck_success:
  assumes "assembleCheckLocked env fs change digest = Inr ck"
  shows "cr_Success (EvaluateCheck ck) \<longleftrightarrow> (\<forall>(i, f) \<in> set planning_evaluators. f (ck_snapshot ck) = [])"
proof -
  obtain m where reg: "ck_registry ck = \<lparr>rg_version = CoreRegistryVersion, rg_gates = planning_gates,
      rg_byID = m, rg_transitions = [PlanningToApproved \<mapsto> map fst core_definitions],
      rg_control = control_gate\<rparr>"
    and snap: "sn_Transition (ck_snapshot ck) = PlanningToApproved"
      "sn_RegistryVersion (ck_snapshot ck) = CoreRegistryVersion"
  proof -
    obtain m where m: "PlanningRegistry = Inr \<lparr>rg_version = CoreRegistryVersion, rg_gates = planning_gates,
        rg_byID = m, rg_transitions = [PlanningToApproved \<mapsto> map fst core_definitions],
        rg_control = control_gate\<rparr>"
      using PlanningRegistry_ok by blast
    show thesis
      by (rule that) (use assms in \<open>auto simp: m assembleCheckLocked_def case_prod_beta bindE_eq_Inr\<close>)
  qed
  have errors: "fi_Severity f = ''error''" if "f \<in> set (gate_findings r s g)" "g \<in> set planning_gates"
      "rg_control r = control_gate" for r s g f
    using that by (auto simp: gate_findings_def issue_finding_def registry_refusal_def control_gate_def
        planning_gates_def split: option.splits if_splits)
  have none: "gate_findings r s g = [] \<longleftrightarrow> (case gt_Evaluate g of None \<Rightarrow> True | Some f \<Rightarrow> f s = [])" for r s g
    by (simp add: gate_findings_def split: option.split)
  have ids: "filter (\<lambda>g. gt_ID g \<in> set (map fst core_definitions)) planning_gates = planning_gates"
    using planning_gate_ids by (metis (no_types, lifting) filter_True image_eqI list.set_map)
  have "cr_Success (EvaluateCheck ck) \<longleftrightarrow>
      concat (map (gate_findings (ck_registry ck) (ck_snapshot ck)) planning_gates) = []"
    using errors [of _ "ck_registry ck" "ck_snapshot ck"] ids
    by (fastforce simp: EvaluateCheck_def newCheckResult_def Evaluate_def reg snap list_ex_iff)
  also have "\<dots> \<longleftrightarrow> (\<forall>(i, f) \<in> set planning_evaluators. f (ck_snapshot ck) = [])"
    by (simp add: none planning_gates_def core_definitions_def planning_evaluators_def)
  finally show ?thesis .
qed

subsection \<open>What a successful check means\<close>

lemma append_matching_Nil:
  "append_matching ds seen = [] \<longleftrightarrow>
     (\<forall>d \<in> set ds. d \<in> seen \<or> \<not> has_any_prefix delta_prefixes (dg_Code d))"
  by (induction ds seen rule: append_matching.induct) auto

lemma evaluators_silent:
  "(\<forall>(i, f) \<in> set planning_evaluators. f s = []) \<longleftrightarrow>
     sn_Transition s = PlanningToApproved \<and> sn_Lifecycle s = ''planning'' \<and> sn_StateRevision s \<noteq> 0 \<and>
     trim_space (sn_PolicyDigest s) \<noteq> [] \<and> proposalIssues s = [] \<and> designIssues s = [] \<and>
     taskIssues s = [] \<and> verificationIssues s = [] \<and>
     (\<forall>d \<in> set (concat (map cd_Diagnostics (ch_Deltas (sn_Plan s)))).
        \<not> has_any_prefix delta_prefixes (dg_Code d)) \<and>
     (\<forall>d \<in> set (ch_Diagnostics (sn_Plan s)). \<not> reported (dg_Code d))"
  by (auto simp: planning_evaluators_def deltaIssues_def append_matching_Nil traceIssues_def
      matchingPlanIssues_def approvalPrerequisiteIssues_def lifecycleIssues_def reported_def
      has_any_prefix_def [of "[''trace_'']"] filter_empty_conv split: if_splits)

lemma plan_of_deltas:
  "set (ch_Deltas (plan_of env fs name)) \<subseteq> set (fst (DiscoverCapabilityDeltas env fs name))"
  using plan_of_parses [of env fs name]
proof (cases rule: ParseChange_cases)
  case parsed
  then show ?thesis by (rule artifact_diagnostics) auto
qed (simp add: refused_change_def)

text \<open>The diagnostics of the deltas are among those of the change.\<close>

lemma delta_in_change:
  assumes "ParseChange env fs name = Some c" and "delta \<in> set (ch_Deltas c)"
  shows "set (cd_Diagnostics delta) \<subseteq> set (ch_Diagnostics c)"
  using assms(1)
proof (cases rule: ParseChange_cases)
  case parsed
  then show ?thesis
    using assms(2) by (auto simp: parse_artifacts_def Let_def case_prod_beta)
qed (use assms(2) in \<open>simp add: refused_change_def\<close>)

lemma check_success:
  assumes "assembleCheckLocked env fs change digest = Inr ck" and "trim_space digest \<noteq> []"
  shows "cr_Success (EvaluateCheck ck) \<longleftrightarrow>
    (let s = ck_snapshot ck; p = sn_Plan s in
     sn_Lifecycle s = ''planning'' \<and> sn_StateRevision s \<noteq> 0 \<and>
     prop_Diagnostics (ch_Proposal p) = [] \<and> des_Diagnostics (ch_Design p) = [] \<and>
     tasks_Diagnostics (ch_Tasks p) = [] \<and>
     (\<forall>t \<in> set (tasks_Tasks (ch_Tasks p)). commandProblem (task_Verify t) = []) \<and>
     (\<forall>d \<in> set (ch_Diagnostics p). dg_Code d = ''fence_unterminated'' \<and>
        (\<exists>delta \<in> set (ch_Deltas p). d \<in> set (cd_Diagnostics delta))))"
proof -
  let ?s = "ck_snapshot ck" and ?p = "sn_Plan (ck_snapshot ck)"
  have parsed: "ParseChange env fs change = Some ?p" and trans: "sn_Transition ?s = PlanningToApproved"
    and digest: "sn_PolicyDigest ?s = digest"
    using assms(1) plan_of_parses [of env fs change]
    by (auto simp: assembleCheckLocked_def case_prod_beta bindE_eq_Inr)
  have only_fences: "dg_Code d = ''fence_unterminated'' \<and> (\<exists>delta \<in> set (ch_Deltas ?p). d \<in> set (cd_Diagnostics delta))"
    if "proposalIssues ?s = []" "designIssues ?s = []" "taskIssues ?s = []"
      "\<forall>d \<in> set (ch_Diagnostics ?p). \<not> reported (dg_Code d)" "d \<in> set (ch_Diagnostics ?p)" for d
    using parsed_diagnostics [OF parsed that(5)] that tree_codes_reported delta_codes_reported
    by (fastforce simp: proposalIssues_def designIssues_def taskIssues_def diagnosticIssues_def)
  have no_placeholder: "verificationIssues ?s = [] \<longleftrightarrow>
      (\<forall>t \<in> set (tasks_Tasks (ch_Tasks ?p)). commandProblem (task_Verify t) = [])"
    if "\<forall>d \<in> set (ch_Diagnostics ?p). dg_Code d = ''fence_unterminated''"
  proof -
    have "filter (\<lambda>d. dg_Code d = ''task_verify_placeholder'') (ch_Diagnostics ?p) = []"
      using that by (auto simp: filter_empty_conv)
    then show ?thesis by (auto simp: verificationIssues_def filter_empty_conv)
  qed
  have deltas: "\<not> has_any_prefix delta_prefixes (dg_Code d)"
    if "\<forall>d \<in> set (ch_Diagnostics ?p). dg_Code d = ''fence_unterminated''"
      "d \<in> set (concat (map cd_Diagnostics (ch_Deltas ?p)))" for d
  proof -
    have "dg_Code d = ''fence_unterminated''" using that delta_in_change [OF parsed] by fastforce
    then show ?thesis using fence_not_reported by (auto simp: reported_def)
  qed
  have silent: "(\<forall>d \<in> set (ch_Diagnostics ?p). \<not> reported (dg_Code d)) \<longleftrightarrow>
      (\<forall>d \<in> set (ch_Diagnostics ?p). dg_Code d = ''fence_unterminated'' \<and>
        (\<exists>delta \<in> set (ch_Deltas ?p). d \<in> set (cd_Diagnostics delta)))"
    if "proposalIssues ?s = []" "designIssues ?s = []" "taskIssues ?s = []"
    using only_fences [OF that] fence_not_reported by metis
  have empty: "proposalIssues ?s = [] \<longleftrightarrow> prop_Diagnostics (ch_Proposal ?p) = []"
      "designIssues ?s = [] \<longleftrightarrow> des_Diagnostics (ch_Design ?p) = []"
      "taskIssues ?s = [] \<longleftrightarrow> tasks_Diagnostics (ch_Tasks ?p) = []"
    by (simp_all add: proposalIssues_def designIssues_def taskIssues_def diagnosticIssues_def)
  show ?thesis
    unfolding EvaluateCheck_success [OF assms(1)] evaluators_silent trans digest Let_def empty
    using assms(2) silent [unfolded empty] no_placeholder deltas by blast
qed

text \<open>C11: What a successful check guarantees. The planning gates pass exactly when the change is in planning
  at a revision, its proposal, design and tasks have no diagnostic, every verification command is
  one executable command, and the only diagnostics left anywhere in the plan are open code fences
  of its deltas, which no gate reports.\<close>
theorem check_success_iff:
  assumes "assembleCheckLocked env fs change digest = Inr ck" and "trim_space digest \<noteq> []"
  shows "cr_Success (EvaluateCheck ck) \<longleftrightarrow>
    (let s = ck_snapshot ck; p = sn_Plan s in
     sn_Lifecycle s = ''planning'' \<and> sn_StateRevision s \<noteq> 0 \<and>
     prop_Diagnostics (ch_Proposal p) = [] \<and> des_Diagnostics (ch_Design p) = [] \<and>
     tasks_Diagnostics (ch_Tasks p) = [] \<and>
     (\<forall>t \<in> set (tasks_Tasks (ch_Tasks p)). commandProblem (task_Verify t) = []) \<and>
     (\<forall>d \<in> set (ch_Diagnostics p). dg_Code d = ''fence_unterminated'' \<and>
        (\<exists>delta \<in> set (ch_Deltas p). d \<in> set (cd_Diagnostics delta))))"
  by (rule check_success [OF assms])

subsection \<open>Diagnostics no gate reports\<close>

definition sample_env :: tree_env where
  "sample_env = \<lparr>te_owner = \<lparr>own_root = ''/p'', own_managed = ''/p/.specd''\<rparr>,
     te_text = (\<lambda>_. ''error''), te_link = (\<lambda>_. False)\<rparr>"

definition doc :: "string list \<Rightarrow> node" where
  "doc ls = NFile (concat (map (\<lambda>l. l @ [CHR 0x0A]) ls))"

definition section_lines :: "string list \<Rightarrow> string list" where
  "section_lines names = concat (map (\<lambda>n. [''## '' @ n, ''ok'']) names)"

text \<open>A change with one new capability and one task; the given lines end the delta.\<close>

definition sample_tree :: "string list \<Rightarrow> fs" where
  "sample_tree rest =
     [([], NDir), (''changes'', NDir), (''changes/c'', NDir),
      (''changes/c/state.json'', NFile (json_bytes (state_json (Initial ''c'' ''i'')))),
      (''changes/c/proposal.md'', doc (section_lines proposalSections)),
      (''changes/c/design.md'', doc (section_lines designSections)),
      (''changes/c/tasks.md'', doc
         [''| id | role | files | depends-on | refs | verify | acceptance |'',
          ''|---|---|---|---|---|---|---|'',
          ''| t | builder | a.go |  | x/Requirement: R | go test | ok |'']),
      (''changes/c/specs'', NDir), (''changes/c/specs/x'', NDir),
      (''changes/c/specs/x/spec.md'', doc
         ([''## Purpose'', ''p'', ''## ADDED Requirements'', ''### Requirement: R'', ''MUST'',
           ''#### Scenario: s'', ''- WHEN a'', ''- THEN b''] @ rest))]"

definition clean_but_fences :: "nat \<Rightarrow> change option \<Rightarrow> bool" where
  "clean_but_fences n r = (case r of None \<Rightarrow> False | Some c \<Rightarrow>
     prop_Diagnostics (ch_Proposal c) = [] \<and> des_Diagnostics (ch_Design c) = [] \<and>
     tasks_Diagnostics (ch_Tasks c) = [] \<and>
     list_all (\<lambda>t. commandProblem (task_Verify t) = []) (tasks_Tasks (ch_Tasks c)) \<and>
     length (ch_Diagnostics c) = n \<and>
     list_all (\<lambda>d. dg_Code d = ''fence_unterminated'' \<and> list_ex (\<lambda>delta. d \<in> set (cd_Diagnostics delta)) (ch_Deltas c))
       (ch_Diagnostics c))"

lemma sample_state:
  "load_state sample_env (sample_tree rest) ''c'' =
     Inr (''changes/c/state.json'', norm_state (Initial ''c'' ''i''))"
proof -
  have valid: "state_Validate (Initial ''c'' ''i'') ''c'' = Inr ()" "state_writable (Initial ''c'' ''i'')"
    by (simp_all add: state_Validate_iff Initial_def SchemaVersion_def validStage_def
        state_writable_def state_raws_def gomap_ok_def)
  have "json_ok (state_json (Initial ''c'' ''i''))" by code_simp
  then have "read_text (json_bytes (state_json (Initial ''c'' ''i''))) = ([state_json (Initial ''c'' ''i'')], True)"
    using read_text_bytes [of _ "[]"] by simp
  then have "state_Decode (read_text (json_bytes (state_json (Initial ''c'' ''i'')))) ''c'' =
      Inr (norm_state (Initial ''c'' ''i''))"
    by (simp add: state_Decode_json [OF valid])
  moreover have "ChangeState (te_owner sample_env) (sample_tree rest) ''c'' = Inr ''changes/c/state.json''"
    unfolding sample_tree_def doc_def by code_simp
  moreover have "readCheckState sample_env (sample_tree rest) ''changes/c/state.json'' =
      Inr (json_bytes (state_json (Initial ''c'' ''i'')))"
    by (simp add: readCheckState_def lstat_def sample_tree_def)
  ultimately show ?thesis by (simp add: load_state_def)
qed

lemma sample_snapshot:
  obtains ck where "assembleCheckLocked sample_env (sample_tree rest) ''c'' digest = Inr ck"
    and "sn_Plan (ck_snapshot ck) = plan_of sample_env (sample_tree rest) ''c''"
    and "sn_Lifecycle (ck_snapshot ck) = ''planning''" and "sn_StateRevision (ck_snapshot ck) \<noteq> 0"
proof -
  obtain m where reg: "PlanningRegistry = Inr \<lparr>rg_version = CoreRegistryVersion, rg_gates = planning_gates,
      rg_byID = m, rg_transitions = [PlanningToApproved \<mapsto> map fst core_definitions],
      rg_control = control_gate\<rparr>"
    using PlanningRegistry_ok by blast
  have "\<exists>ck. assembleCheckLocked sample_env (sample_tree rest) ''c'' digest = Inr ck \<and>
      sn_Plan (ck_snapshot ck) = plan_of sample_env (sample_tree rest) ''c'' \<and>
      sn_Lifecycle (ck_snapshot ck) = ''planning'' \<and> sn_StateRevision (ck_snapshot ck) \<noteq> 0"
    by (simp add: assembleCheckLocked_def sample_state reg Initial_def norm_state_def)
  then show thesis using that by blast
qed

lemma clean_plan:
  assumes "clean_but_fences n (ParseChange env fs name)"
  shows "prop_Diagnostics (ch_Proposal (plan_of env fs name)) = [] \<and>
    des_Diagnostics (ch_Design (plan_of env fs name)) = [] \<and>
    tasks_Diagnostics (ch_Tasks (plan_of env fs name)) = [] \<and>
    (\<forall>t \<in> set (tasks_Tasks (ch_Tasks (plan_of env fs name))). commandProblem (task_Verify t) = []) \<and>
    (\<forall>d \<in> set (ch_Diagnostics (plan_of env fs name)). dg_Code d = ''fence_unterminated'' \<and>
       (\<exists>delta \<in> set (ch_Deltas (plan_of env fs name)). d \<in> set (cd_Diagnostics delta))) \<and>
    length (ch_Diagnostics (plan_of env fs name)) = n"
  using assms unfolding plan_of_parses option.case clean_but_fences_def
  by (simp add: list_all_iff list_ex_iff)

theorem check_success_iff_witness:
  "\<exists>ck. assembleCheckLocked sample_env (sample_tree []) ''c'' ''policy'' = Inr ck \<and>
     cr_Success (EvaluateCheck ck)"
proof -
  obtain ck where ck: "assembleCheckLocked sample_env (sample_tree []) ''c'' ''policy'' = Inr ck"
      "sn_Plan (ck_snapshot ck) = plan_of sample_env (sample_tree []) ''c''"
      "sn_Lifecycle (ck_snapshot ck) = ''planning''" "sn_StateRevision (ck_snapshot ck) \<noteq> 0"
    by (rule sample_snapshot)
  have digest: "trim_space ''policy'' \<noteq> []" by (simp add: trim_space_empty_iff is_space_def)
  have "clean_but_fences 0 (ParseChange sample_env (sample_tree []) ''c'')" by code_simp
  from clean_plan [OF this] ck check_success_iff [OF ck(1) digest] show ?thesis
    unfolding Let_def by metis
qed

text \<open>\<open>Build\<close> refuses every plan whose deltas have a diagnostic.\<close>

lemma build_capabilities_diagnostics:
  assumes "build_capabilities env fs seen deltas = Some (cs, ds)" and "delta \<in> set deltas"
  shows "set (cd_Diagnostics delta) \<subseteq> set ds"
  using assms
proof (induction deltas arbitrary: seen cs ds)
  case (Cons d deltas)
  have "\<exists>seen cs' ds' ds1. build_capabilities env fs seen deltas = Some (cs', ds') \<and>
      ds = cd_Diagnostics d @ ds1 @ ds'"
    using Cons.prems(1)
    by (auto simp: Let_def Option.bind_eq_Some_conv split: sum.splits if_splits)
      (metis append.assoc append_Cons append_Nil)+
  then show ?case using Cons.IH Cons.prems(2) by fastforce
qed simp

lemma Build_withheld:
  assumes "delta \<in> set (fst (DiscoverCapabilityDeltas env fs name))" and "cd_Diagnostics delta \<noteq> []"
  shows "case Build env fs name of None \<Rightarrow> True | Some p \<Rightarrow> \<not> pl_Applicable p"
proof (cases "build_capabilities env fs [] (fst (DiscoverCapabilityDeltas env fs name))")
  case (Some r)
  then obtain cs ds where r: "build_capabilities env fs [] (fst (DiscoverCapabilityDeltas env fs name)) = Some (cs, ds)"
    by (cases r) auto
  have "ds \<noteq> []" using build_capabilities_diagnostics [OF r assms(1)] assms(2) by auto
  then show ?thesis by (simp add: Build_def case_prod_beta Let_def r)
qed (simp add: Build_def case_prod_beta Let_def)

definition fenced :: fs where
  "fenced = sample_tree [''~~~'']"

text \<open>C37: The gap is real. A delta that leaves a code fence open passes the check, although the parser
  reports it and the reconciliation of the change, which can only be tried after the approval and
  the whole execution, refuses it.\<close>
theorem check_misses_open_fence:
  "\<exists>ck. assembleCheckLocked sample_env fenced ''c'' DefaultPolicyDigest = Inr ck \<and>
     cr_Success (EvaluateCheck ck) \<and> ch_Diagnostics (sn_Plan (ck_snapshot ck)) \<noteq> [] \<and>
     (case Build sample_env fenced ''c'' of None \<Rightarrow> True | Some p \<Rightarrow> \<not> pl_Applicable p)"
proof -
  obtain ck where ck: "assembleCheckLocked sample_env fenced ''c'' DefaultPolicyDigest = Inr ck"
      "sn_Plan (ck_snapshot ck) = plan_of sample_env fenced ''c''"
      "sn_Lifecycle (ck_snapshot ck) = ''planning''" "sn_StateRevision (ck_snapshot ck) \<noteq> 0"
    unfolding fenced_def by (rule sample_snapshot)
  have digest: "trim_space DefaultPolicyDigest \<noteq> []"
    by (simp add: DefaultPolicyDigest_def trim_space_sha256)
  have "clean_but_fences 1 (ParseChange sample_env fenced ''c'')" by code_simp
  note facts = clean_plan [OF this]
  from facts obtain d delta where d: "d \<in> set (ch_Diagnostics (plan_of sample_env fenced ''c''))"
      "delta \<in> set (ch_Deltas (plan_of sample_env fenced ''c''))" "d \<in> set (cd_Diagnostics delta)"
    by (cases "ch_Diagnostics (plan_of sample_env fenced ''c'')") auto
  then have "delta \<in> set (fst (DiscoverCapabilityDeltas sample_env fenced ''c''))"
    using plan_of_deltas by blast
  moreover have "cr_Success (EvaluateCheck ck)"
    using facts ck(2-4) unfolding check_success [OF ck(1) digest] Let_def by metis
  moreover have "cd_Diagnostics delta \<noteq> []" "ch_Diagnostics (sn_Plan (ck_snapshot ck)) \<noteq> []"
    using d ck(2) by auto
  ultimately show ?thesis using ck(1) Build_withheld by blast
qed

end
