(* ===== verification/VerifyRun.thy ===== *)
theory VerifyRun
  imports Gates JsonText
begin

text \<open>
  Verification commands (\<open>internal/core/verify/run.go\<close>): how the authored command becomes an argument
  vector or a shell command, its identity, the bounded capture of its output, and the facts a run
  reports. The process itself is a parameter: what it wrote, how it ended and when. The redaction of
  an excerpt, five regular expressions, is a parameter too. Text is taken as bytes where the code
  ranges over runes, so it is read as valid UTF-8.
\<close>

subsection \<open>The command\<close>

record verify_request =
  vq_Dir :: string
  vq_Argv :: "string list"
  vq_Shell :: string
  vq_Timeout :: int
  vq_OutputLimit :: int

definition command_request :: "string list \<Rightarrow> string \<Rightarrow> verify_request" where
  "command_request argv shell =
     \<lparr>vq_Dir = [], vq_Argv = argv, vq_Shell = shell, vq_Timeout = 0, vq_OutputLimit = 0\<rparr>"

definition argv_operators :: string where
  "argv_operators = ''|&;<>()$'' @ [CHR 0x60] @ ''*?[]{}~'' @ [CHR 0x0A, CHR 0x0D]"

text \<open>One character of the split. The scan keeps the word in progress, none when no word has started.\<close>

definition split_char :: "char \<Rightarrow> command_scan \<Rightarrow> error + command_scan" where
  "split_char c s =
     (if cs_escaped s then Inr (scan_put c (s\<lparr>cs_escaped := False\<rparr>))
      else if c = backslash \<and> cs_quote s \<noteq> Some single_quote then Inr (scan_start (s\<lparr>cs_escaped := True\<rparr>))
      else if cs_quote s \<noteq> None then
        (if cs_quote s = Some c then Inr (scan_start (s\<lparr>cs_quote := None\<rparr>)) else Inr (scan_put c s))
      else if c = single_quote \<or> c = double_quote then Inr (scan_start (s\<lparr>cs_quote := Some c\<rparr>))
      else if c \<in> set argv_operators then
        Inl (Failed [Str ''shell operator '', Str [single_quote, c, single_quote],
          Str '' requires explicit shell: semantics''])
      else if c = CHR '' '' \<or> c = CHR 0x09 then Inr (scan_flush s)
      else Inr (scan_put c s))"

fun split_scan :: "string \<Rightarrow> command_scan \<Rightarrow> error + command_scan" where
  "split_scan [] s = Inr s"
| "split_scan (c # cs) s = bindE (split_char c s) (split_scan cs)"

definition start_scan :: command_scan where
  "start_scan = \<lparr>cs_quote = None, cs_escaped = False, cs_token = None, cs_tokens = []\<rparr>"

definition splitArgv :: "string \<Rightarrow> error + string list" where
  "splitArgv s =
     bindE (split_scan s start_scan) (\<lambda>e.
     if cs_escaped e \<or> cs_quote e \<noteq> None then Inl (failed ''malformed quoted argv'')
     else case cs_tokens (scan_flush e) of
       [] \<Rightarrow> Inl (failed ''argv is empty'')
     | t # ts \<Rightarrow> if trim_space t = [] then Inl (failed ''argv is empty'') else Inr (t # ts))"

definition ParseCommand :: "string \<Rightarrow> error + verify_request" where
  "ParseCommand authored =
     (if has_prefix authored ''shell:'' then
        (let command = trim_space (drop 6 authored) in
         if command = [] then Inl (failed ''explicit shell command is empty'')
         else Inr (command_request [] command))
      else bindE (splitArgv authored) (\<lambda>argv. Inr (command_request argv [])))"

definition shellCommand :: "string \<Rightarrow> string \<times> string list" where
  "shellCommand command = (''/bin/sh'', [''-c'', command])"

text \<open>The executable, its arguments and the mode.\<close>

definition verify_command :: "verify_request \<Rightarrow> error + string \<times> string list \<times> string" where
  "verify_command q = (case vq_Argv q of
     a # as \<Rightarrow>
       if vq_Shell q \<noteq> [] then Inl (failed ''verify command must choose argv or explicit shell semantics'')
       else if list_ex (\<lambda>v. CHR 0x00 \<in> set v) (a # as) then Inl (failed ''verify argv contains NUL'')
       else if trim_space a = [] then Inl (failed ''verify executable is empty'')
       else Inr (a, as, ''argv'')
   | [] \<Rightarrow>
       if vq_Shell q = [] then Inl (failed ''verify command is required'')
       else if CHR 0x00 \<in> set (vq_Shell q) then Inl (failed ''verify shell command contains NUL'')
       else if trim_space (vq_Shell q) = [] then Inl (failed ''verify shell command is empty'')
       else let (name, arguments) = shellCommand (vq_Shell q) in Inr (name, arguments, ''shell''))"

definition command_bytes :: "string \<Rightarrow> string list \<Rightarrow> string \<Rightarrow> string" where
  "command_bytes mode argv shell =
     mode @ [CHR 0x00] @ (if mode = ''shell'' then shell else concat (map (\<lambda>v. v @ [CHR 0x00]) argv))"

definition commandDigest :: "string \<Rightarrow> string list \<Rightarrow> string \<Rightarrow> string" where
  "commandDigest mode argv shell = sha256_hex (command_bytes mode argv shell)"

definition CommandDigest :: "verify_request \<Rightarrow> error + string" where
  "CommandDigest q =
     bindE (verify_command q) (\<lambda>(_, _, mode). Inr (commandDigest mode (vq_Argv q) (vq_Shell q)))"

subsection \<open>Bounded output\<close>

definition MaximumOutputLimit :: nat where "MaximumOutputLimit = 1048576"
definition DefaultOutputLimit :: nat where "DefaultOutputLimit = 32768"

text \<open>The running digest is the bytes it has taken.\<close>

record bounded_digest =
  bd_limit :: nat
  bd_captured :: string
  bd_observed :: string
  bd_digested :: string
  bd_truncated :: bool
  bd_total :: nat

definition newBoundedDigest :: "nat \<Rightarrow> bounded_digest" where
  "newBoundedDigest limit = \<lparr>bd_limit = limit, bd_captured = [], bd_observed = [], bd_digested = [],
     bd_truncated = False, bd_total = 0\<rparr>"

definition Write :: "string \<Rightarrow> bounded_digest \<Rightarrow> bounded_digest" where
  "Write chunk w =
     (let total = bd_total w + length chunk;
          observed = (if length (bd_observed w) < MaximumOutputLimit
            then bd_observed w @ take (MaximumOutputLimit - length (bd_observed w)) chunk
            else bd_observed w);
          captured = (if length (bd_captured w) < bd_limit w
            then bd_captured w @ take (bd_limit w - length (bd_captured w)) chunk
            else bd_captured w) in
      w\<lparr>bd_digested := bd_digested w @ chunk, bd_total := total, bd_observed := observed,
        bd_captured := captured, bd_truncated := length captured < total\<rparr>)"

definition write_all :: "nat \<Rightarrow> string list \<Rightarrow> bounded_digest" where
  "write_all limit chunks = foldl (\<lambda>w chunk. Write chunk w) (newBoundedDigest limit) chunks"

definition digest :: "bounded_digest \<Rightarrow> string" where
  "digest w = sha256_hex (bd_digested w)"

subsection \<open>What a Go test run shows\<close>

definition trim_right_of :: "string \<Rightarrow> string \<Rightarrow> string" where
  "trim_right_of cutset s = rev (dropWhile (\<lambda>c. c \<in> set cutset) (rev s))"

definition plain_ran :: "string \<Rightarrow> bool" where
  "plain_ran line \<longleftrightarrow> has_prefix line ''=== RUN'' \<or> has_prefix line ''--- PASS:'' \<or> has_prefix line ''--- FAIL:''"

definition tabbed :: "string \<Rightarrow> string \<Rightarrow> bool" where
  "tabbed line mark \<longleftrightarrow> has_prefix line (mark @ '' '') \<or> has_prefix line (mark @ [CHR 0x09])"

fun plain_lines :: "bool \<Rightarrow> string list \<Rightarrow> bool \<times> bool" where
  "plain_lines vacuous [] = (False, vacuous)"
| "plain_lines vacuous (l # ls) =
     (let line = trim_right_of [CHR '' '', CHR 0x09, CHR 0x0D] l in
      if plain_ran line then (True, False)
      else if tabbed line ''ok'' then
        (if has_suffix line ''[no tests to run]'' then plain_lines True ls else (True, False))
      else if tabbed line ''?'' then plain_lines True ls
      else plain_lines vacuous ls)"

definition output_lines :: "string list \<Rightarrow> string list" where
  "output_lines outputs = concat (map (split_on CHR 0x0A) outputs)"

definition goPlainFacts :: "string list \<Rightarrow> bool \<times> bool" where
  "goPlainFacts outputs = plain_lines False (output_lines outputs)"

fun hasRunSelector :: "string list \<Rightarrow> bool" where
  "hasRunSelector [] = False"
| "hasRunSelector (a # as) \<longleftrightarrow>
     has_prefix a ''-run='' \<and> 5 < length a \<or>
     a = ''-run'' \<and> (case as of b # _ \<Rightarrow> b \<noteq> [] | [] \<Rightarrow> False) \<or> hasRunSelector as"

definition hasArgument :: "string list \<Rightarrow> string \<Rightarrow> bool" where
  "hasArgument arguments wanted = list_ex (\<lambda>a. a = wanted \<or> has_prefix a (wanted @ ''='')) arguments"

text \<open>A line of \<open>go test -json\<close> that reports a started test.\<close>

definition run_event :: "string \<Rightarrow> bool" where
  "run_event line = (case read_text line of
     ([v], True) \<Rightarrow> (case decode_object False [''Action'', ''Test''] v of
         None \<Rightarrow> False
       | Some m \<Rightarrow> field_string m ''Action'' = Some ''run'' \<and>
           (case field_string m ''Test'' of None \<Rightarrow> False | Some t \<Rightarrow> t \<noteq> []))
   | _ \<Rightarrow> False)"

definition filepath_Base :: "string \<Rightarrow> string" where
  "filepath_Base p =
     (let q = trim_right_of ''/'' p in
      if p = [] then ''.'' else if q = [] then ''/'' else last (split_on CHR ''/'' q))"

definition trim_suffix :: "string \<Rightarrow> string \<Rightarrow> string" where
  "trim_suffix s t = (if has_suffix s t then take (length s - length t) s else s)"

definition goRunFacts :: "string \<Rightarrow> string list \<Rightarrow> string list \<Rightarrow> bool \<times> bool \<times> bool" where
  "goRunFacts mode argv outputs = (case argv of
     program # sub # rest \<Rightarrow>
       if mode \<noteq> ''argv'' \<or> trim_suffix (filepath_Base program) ''.exe'' \<noteq> ''go'' \<or> sub \<noteq> ''test'' \<or>
          \<not> hasRunSelector rest then (False, True, False)
       else if \<not> hasArgument rest ''-json'' then (True, goPlainFacts outputs)
       else if list_ex run_event (output_lines outputs) then (True, True, False)
       else (True, False, True)
   | _ \<Rightarrow> (False, True, False))"

subsection \<open>The run\<close>

text \<open>Durations are in nanoseconds.\<close>

definition DefaultTimeout :: int where "DefaultTimeout = 120000000000"
definition MaximumTimeout :: int where "MaximumTimeout = 600000000000"

datatype run_end = Deadline | Cancelled | Exited int | Undone error

record process_report =
  pr_Started :: string
  pr_Ended :: string
  pr_Stdout :: "string list"
  pr_Stderr :: "string list"
  pr_End :: run_end
  pr_Stranded :: "error option"

record verify_result =
  vr_CommandDigest :: string
  vr_StartedAt :: string
  vr_EndedAt :: string
  vr_ExitCode :: int
  vr_Passed :: bool
  vr_TimedOut :: bool
  vr_Interrupted :: bool
  vr_NonVacuous :: bool
  vr_GoRunSelector :: bool
  vr_ZeroMatch :: bool
  vr_StdoutDigest :: string
  vr_StderrDigest :: string
  vr_StdoutExcerpt :: string
  vr_StderrExcerpt :: string
  vr_StdoutTruncated :: bool
  vr_StderrTruncated :: bool

text \<open>The exit code and whether the run was cut off by its deadline or by its caller.\<close>

definition run_exit :: "run_end \<Rightarrow> error + int \<times> bool \<times> bool" where
  "run_exit e = (case e of
     Deadline \<Rightarrow> Inr (124, True, False)
   | Cancelled \<Rightarrow> Inr (130, False, True)
   | Exited code \<Rightarrow> Inr (if code < 0 then 1 else code, False, False)
   | Undone e \<Rightarrow> Inl (Wrapped [Str ''await verification process: ''] e))"

definition classify_run :: "(string \<Rightarrow> string) \<Rightarrow> verify_request \<Rightarrow> string \<Rightarrow> nat \<Rightarrow> process_report
    \<Rightarrow> error + verify_result" where
  "classify_run redact q mode limit report =
     (let out = write_all limit (pr_Stdout report); err = write_all limit (pr_Stderr report) in
      bindE (run_exit (pr_End report)) (\<lambda>(code, timed, stopped).
      let (selector, facts, zero) = goRunFacts mode (vq_Argv q) [bd_observed out, bd_observed err];
          nonVacuous = (facts \<and> \<not> timed \<and> \<not> stopped \<and> code = 0);
          exitCode = (if code = 0 \<and> selector \<and> \<not> nonVacuous then 126 else code) in
      Inr \<lparr>vr_CommandDigest = commandDigest mode (vq_Argv q) (vq_Shell q), vr_StartedAt = pr_Started report,
           vr_EndedAt = pr_Ended report, vr_ExitCode = exitCode,
           vr_Passed = (exitCode = 0 \<and> nonVacuous \<and> \<not> timed \<and> \<not> stopped),
           vr_TimedOut = timed, vr_Interrupted = stopped, vr_NonVacuous = nonVacuous,
           vr_GoRunSelector = selector, vr_ZeroMatch = zero,
           vr_StdoutDigest = digest out, vr_StderrDigest = digest err,
           vr_StdoutExcerpt = redact (bd_captured out), vr_StderrExcerpt = redact (bd_captured err),
           vr_StdoutTruncated = bd_truncated out, vr_StderrTruncated = bd_truncated err\<rparr>))"

definition canonicalDir :: "(string \<Rightarrow> error + string \<times> bool) \<Rightarrow> string \<Rightarrow> error + string" where
  "canonicalDir eval_links dir =
     (if trim_space dir = [] then Inl (failed ''verify project directory is required'')
      else if \<not> has_prefix dir ''/'' then Inl (failed ''verify project directory must be absolute'')
      else bindE (eval_links (path_Clean dir)) (\<lambda>(canonical, is_dir).
        if is_dir then Inr canonical else Inl (failed ''verify project directory is not a directory'')))"

definition run_limits :: "verify_request \<Rightarrow> error + int \<times> nat" where
  "run_limits q =
     (let timeout = (if vq_Timeout q = 0 then DefaultTimeout else vq_Timeout q);
          limit = (if vq_OutputLimit q = 0 then int DefaultOutputLimit else vq_OutputLimit q) in
      if timeout < 0 \<or> MaximumTimeout < timeout then
        Inl (failed ''verify timeout must be between 1ns and 10m0s'')
      else if limit < 0 \<or> int MaximumOutputLimit < limit then
        Inl (failed ''verify output limit must be between 1 and 1048576 bytes'')
      else Inr (timeout, nat limit))"

definition Run :: "(string \<Rightarrow> string) \<Rightarrow> (string \<Rightarrow> error + string \<times> bool)
    \<Rightarrow> (string \<Rightarrow> string \<Rightarrow> string list \<Rightarrow> int \<Rightarrow> process_report) \<Rightarrow> verify_request \<Rightarrow> error + verify_result" where
  "Run redact eval_links process q =
     bindE (verify_command q) (\<lambda>(name, arguments, mode).
     bindE (canonicalDir eval_links (vq_Dir q)) (\<lambda>dir.
     bindE (run_limits q) (\<lambda>(timeout, limit).
     let report = process dir name arguments timeout in
     case pr_Stranded report of
       Some e \<Rightarrow> Inl (Wrapped [Str ''terminate verification process tree: ''] e)
     | None \<Rightarrow> classify_run redact q mode limit report)))"

end
