(* ===== verification/EvidenceRecs.thy ===== *)
theory EvidenceRecs
  imports VerifyRun Records
begin

text \<open>
  Evidence (\<open>internal/core/evidence\<close>: \<open>evidence.go\<close>, \<open>production.go\<close>, \<open>review.go\<close>): the payload of a
  test run and of a production observation, what makes one well formed, what it proves of a subject,
  and the proof that is missing. The present is an instant that the functions take as an argument.
\<close>

definition ClassTestRun :: string where "ClassTestRun = ''test-run''"
definition ClassBuild :: string where "ClassBuild = ''build''"
definition ClassLint :: string where "ClassLint = ''lint''"
definition ClassReview :: string where "ClassReview = ''review''"

lemmas class_defs = ClassTestRun_def ClassBuild_def ClassLint_def ClassReview_def

subsection \<open>Test runs\<close>

record test_run =
  tru_SchemaVersion :: int
  tru_Class :: string
  tru_Change :: string
  tru_TaskID :: string
  tru_AttemptID :: string
  tru_HEAD :: string
  tru_TaskHash :: string
  tru_CommandHash :: string
  tru_ApprovalHash :: string
  tru_StateRevision :: u64
  tru_StartedAt :: string
  tru_EndedAt :: string
  tru_ExitCode :: int
  tru_Passed :: bool
  tru_TimedOut :: bool
  tru_Interrupted :: bool
  tru_NonVacuous :: bool
  tru_ZeroMatch :: bool
  tru_StdoutDigest :: string
  tru_StderrDigest :: string
  tru_StdoutCut :: bool
  tru_StderrCut :: bool

record subject =
  sb_Change :: string
  sb_TaskID :: string
  sb_AttemptID :: string
  sb_HEAD :: string
  sb_TaskHash :: string
  sb_CommandHash :: string
  sb_ApprovalHash :: string
  sb_StateRevision :: u64

definition hexValue :: "string \<Rightarrow> nat list \<Rightarrow> bool" where
  "hexValue v lengths \<longleftrightarrow> length v \<in> set lengths \<and> lower_hex v"

text \<open>Both times are in UTC and the end is not before the start.\<close>

definition ordered_times :: "string \<Rightarrow> string \<Rightarrow> bool" where
  "ordered_times started ended = (case (utc_time started, utc_time ended) of
     (Some s, Some e) \<Rightarrow> s \<le> e | _ \<Rightarrow> False)"

definition TestRun_Validate :: "test_run \<Rightarrow> error + unit" where
  "TestRun_Validate v =
     (if tru_SchemaVersion v \<noteq> 1 \<or> tru_Class v \<noteq> ClassTestRun then
        Inl (failed ''unsupported evidence schema or class'')
      else if tru_Change v = [] \<or> tru_TaskID v = [] \<or> tru_AttemptID v = [] then
        Inl (failed ''change, task, and attempt are required'')
      else if \<not> hexValue (tru_HEAD v) [40, 64] then Inl (failed ''HEAD is malformed'')
      else if \<not> hexValue (tru_TaskHash v) [64] \<or> \<not> hexValue (tru_CommandHash v) [64] \<or>
              \<not> hexValue (tru_ApprovalHash v) [64] \<or> \<not> hexValue (tru_StdoutDigest v) [64] \<or>
              \<not> hexValue (tru_StderrDigest v) [64] then Inl (failed ''evidence digest is malformed'')
      else if tru_StateRevision v = 0 \<or> \<not> ordered_times (tru_StartedAt v) (tru_EndedAt v) then
        Inl (failed ''evidence revision or time is malformed'')
      else if tru_Passed v \<noteq> (tru_ExitCode v = 0 \<and> tru_NonVacuous v \<and> \<not> tru_TimedOut v \<and>
              \<not> tru_Interrupted v \<and> \<not> tru_ZeroMatch v) then
        Inl (failed ''evidence result facts disagree'')
      else if (tru_TimedOut v \<or> tru_Interrupted v \<or> tru_ZeroMatch v) \<and> tru_NonVacuous v then
        Inl (failed ''failed observation cannot be non-vacuous'')
      else Inr ())"

definition test_run_of :: "subject \<Rightarrow> verify_result \<Rightarrow> test_run" where
  "test_run_of s r =
     \<lparr>tru_SchemaVersion = 1, tru_Class = ClassTestRun, tru_Change = sb_Change s, tru_TaskID = sb_TaskID s,
      tru_AttemptID = sb_AttemptID s, tru_HEAD = sb_HEAD s, tru_TaskHash = sb_TaskHash s,
      tru_CommandHash = sb_CommandHash s, tru_ApprovalHash = sb_ApprovalHash s,
      tru_StateRevision = sb_StateRevision s, tru_StartedAt = vr_StartedAt r, tru_EndedAt = vr_EndedAt r,
      tru_ExitCode = vr_ExitCode r, tru_Passed = vr_Passed r, tru_TimedOut = vr_TimedOut r,
      tru_Interrupted = vr_Interrupted r, tru_NonVacuous = vr_NonVacuous r, tru_ZeroMatch = vr_ZeroMatch r,
      tru_StdoutDigest = vr_StdoutDigest r, tru_StderrDigest = vr_StderrDigest r,
      tru_StdoutCut = vr_StdoutTruncated r, tru_StderrCut = vr_StderrTruncated r\<rparr>"

definition NewTestRun :: "subject \<Rightarrow> verify_result \<Rightarrow> error + test_run" where
  "NewTestRun s r = (let v = test_run_of s r in bindE (TestRun_Validate v) (\<lambda>_. Inr v))"

definition TestRun_Matches :: "test_run \<Rightarrow> subject \<Rightarrow> bool" where
  "TestRun_Matches v s \<longleftrightarrow>
     isOk (TestRun_Validate v) \<and> tru_Class v = ClassTestRun \<and> tru_Change v = sb_Change s \<and>
     tru_TaskID v = sb_TaskID s \<and> tru_AttemptID v = sb_AttemptID s \<and> tru_HEAD v = sb_HEAD s \<and>
     tru_TaskHash v = sb_TaskHash s \<and> tru_CommandHash v = sb_CommandHash s \<and>
     tru_ApprovalHash v = sb_ApprovalHash s \<and> tru_StateRevision v = sb_StateRevision s"

definition not_future :: "int \<Rightarrow> string \<Rightarrow> bool" where
  "not_future now t = (case utc_time t of None \<Rightarrow> False | Some e \<Rightarrow> e \<le> now)"

definition TestRun_Applicable :: "int \<Rightarrow> test_run \<Rightarrow> subject \<Rightarrow> bool" where
  "TestRun_Applicable now v s \<longleftrightarrow>
     not_future now (tru_EndedAt v) \<and> TestRun_Matches v s \<and> tru_Passed v \<and> tru_ExitCode v = 0 \<and> tru_NonVacuous v"

definition test_run_names :: "string list" where
  "test_run_names = [''schema_version'', ''class'', ''change'', ''task'', ''attempt'', ''head'', ''task_hash'',
     ''command_hash'', ''approval_hash'', ''state_revision'', ''started_at'', ''ended_at'', ''exit_code'',
     ''passed'', ''timed_out'', ''interrupted'', ''non_vacuous'', ''zero_match'', ''stdout_digest'',
     ''stderr_digest'', ''stdout_truncated'', ''stderr_truncated'']"

definition test_run_json :: "test_run \<Rightarrow> json" where
  "test_run_json v = JObj
     [(''schema_version'', json_int (tru_SchemaVersion v)), (''class'', JStr (tru_Class v)),
      (''change'', JStr (tru_Change v)), (''task'', JStr (tru_TaskID v)), (''attempt'', JStr (tru_AttemptID v)),
      (''head'', JStr (tru_HEAD v)), (''task_hash'', JStr (tru_TaskHash v)),
      (''command_hash'', JStr (tru_CommandHash v)), (''approval_hash'', JStr (tru_ApprovalHash v)),
      (''state_revision'', json_u64 (tru_StateRevision v)), (''started_at'', JStr (tru_StartedAt v)),
      (''ended_at'', JStr (tru_EndedAt v)), (''exit_code'', json_int (tru_ExitCode v)),
      (''passed'', JBool (tru_Passed v)), (''timed_out'', JBool (tru_TimedOut v)),
      (''interrupted'', JBool (tru_Interrupted v)), (''non_vacuous'', JBool (tru_NonVacuous v)),
      (''zero_match'', JBool (tru_ZeroMatch v)), (''stdout_digest'', JStr (tru_StdoutDigest v)),
      (''stderr_digest'', JStr (tru_StderrDigest v)), (''stdout_truncated'', JBool (tru_StdoutCut v)),
      (''stderr_truncated'', JBool (tru_StderrCut v))]"

definition test_run_of_json :: "json \<Rightarrow> test_run option" where
  "test_run_of_json v = do {
     m \<leftarrow> decode_object True test_run_names v;
     sv \<leftarrow> field_int m ''schema_version'';
     cl \<leftarrow> field_string m ''class'';
     ch \<leftarrow> field_string m ''change'';
     t \<leftarrow> field_string m ''task'';
     a \<leftarrow> field_string m ''attempt'';
     h \<leftarrow> field_string m ''head'';
     th \<leftarrow> field_string m ''task_hash'';
     co \<leftarrow> field_string m ''command_hash'';
     ah \<leftarrow> field_string m ''approval_hash'';
     rv \<leftarrow> field_u64 m ''state_revision'';
     sa \<leftarrow> field_string m ''started_at'';
     ea \<leftarrow> field_string m ''ended_at'';
     ec \<leftarrow> field_int m ''exit_code'';
     pa \<leftarrow> field_bool m ''passed'';
     ti \<leftarrow> field_bool m ''timed_out'';
     it \<leftarrow> field_bool m ''interrupted'';
     nv \<leftarrow> field_bool m ''non_vacuous'';
     zm \<leftarrow> field_bool m ''zero_match'';
     od \<leftarrow> field_string m ''stdout_digest'';
     ed \<leftarrow> field_string m ''stderr_digest'';
     oc \<leftarrow> field_bool m ''stdout_truncated'';
     ct \<leftarrow> field_bool m ''stderr_truncated'';
     Some \<lparr>tru_SchemaVersion = sv, tru_Class = cl, tru_Change = ch, tru_TaskID = t, tru_AttemptID = a,
       tru_HEAD = h, tru_TaskHash = th, tru_CommandHash = co, tru_ApprovalHash = ah, tru_StateRevision = rv,
       tru_StartedAt = sa, tru_EndedAt = ea, tru_ExitCode = ec, tru_Passed = pa, tru_TimedOut = ti,
       tru_Interrupted = it, tru_NonVacuous = nv, tru_ZeroMatch = zm, tru_StdoutDigest = od,
       tru_StderrDigest = ed, tru_StdoutCut = oc, tru_StderrCut = ct\<rparr> }"

text \<open>A payload is one JSON value, so nothing can follow it; an empty payload does not decode.\<close>

definition unique_keys :: "json option \<Rightarrow> error + json" where
  "unique_keys raw = (case raw of
     None \<Rightarrow> Inl json_error
   | Some v \<Rightarrow> bindE (walk (Suc (length (tokens v))) (tokens v)) (\<lambda>_. Inr v))"

definition evidence_Decode :: "json option \<Rightarrow> error + test_run" where
  "evidence_Decode raw =
     bindE (unique_keys raw) (\<lambda>v. case test_run_of_json v of
       None \<Rightarrow> Inl json_error
     | Some t \<Rightarrow> bindE (TestRun_Validate t) (\<lambda>_. Inr t))"

text \<open>The record that \<open>Append\<close> adds to the evidence ledger.\<close>

definition observation_record :: "string \<Rightarrow> string \<Rightarrow> string \<Rightarrow> json \<Rightarrow> error + hist_record" where
  "observation_record change ended actor payload =
     NewRecord \<lparr>rc_SchemaVersion = 0, rc_ID = [], rc_Family = FamilyEvidence, rc_Kind = ''observed'',
       rc_Change = change, rc_Expected = None, rc_Resulting = None, rc_Timestamp = ended,
       rc_Actor = actor, rc_Payload = Some payload\<rparr>"

definition evidence_record :: "string \<Rightarrow> test_run \<Rightarrow> error + hist_record" where
  "evidence_record actor v =
     bindE (TestRun_Validate v) (\<lambda>_.
     if trim_space actor = [] then Inl (failed ''evidence actor is required'')
     else observation_record (tru_Change v) (tru_EndedAt v) actor (test_run_json v))"

text \<open>\<open>Project\<close>: all observations, and the last one for the subject when it is a pass.\<close>

fun project_items :: "string list \<Rightarrow> hist_record list \<Rightarrow> error + test_run list" where
  "project_items seen [] = Inr []"
| "project_items seen (r # rs) =
     (if rc_ID r \<in> set seen then Inl (failed ''duplicate evidence record'')
      else case evidence_Decode (rc_Payload r) of
        Inl e \<Rightarrow> Inl (failed ''malformed or unknown evidence record'')
      | Inr v \<Rightarrow>
          if rc_Change r \<noteq> tru_Change v \<or> rc_Timestamp r \<noteq> tru_EndedAt v then
            Inl (failed ''malformed or unknown evidence record'')
          else bindE (project_items (rc_ID r # seen) rs) (\<lambda>vs. Inr (v # vs)))"

definition evidence_Project :: "int \<Rightarrow> hist_record list \<times> record_diagnostic list \<Rightarrow> subject
    \<Rightarrow> error + test_run list \<times> test_run option" where
  "evidence_Project now replayed s = (case replayed of (items, diagnostics) \<Rightarrow> (case diagnostics of
     d # _ \<Rightarrow> Inl (Failed [Str ''evidence has incomplete record at line '', Dec (rd_Line d)])
   | [] \<Rightarrow> bindE (project_items [] items) (\<lambda>values.
       Inr (values, case find_last (\<lambda>v. TestRun_Matches v s) values of
         None \<Rightarrow> None
       | Some v \<Rightarrow> if TestRun_Applicable now v s then Some v else None))))"

subsection \<open>Production observations\<close>

record required_check =
  rq_Class :: string
  rq_CheckID :: string

definition check_String :: "required_check \<Rightarrow> string" where
  "check_String c = rq_Class c @ ''/'' @ rq_CheckID c"

definition knownClass :: "string \<Rightarrow> bool" where
  "knownClass c \<longleftrightarrow> c \<in> set [ClassTestRun, ClassBuild, ClassLint, ClassReview]"

definition checkIDPattern :: "string \<Rightarrow> bool" where
  "checkIDPattern s = list_all (\<lambda>g. g \<noteq> [] \<and> list_all (\<lambda>c. is_lower c \<or> is_digit c) g) (split_on CHR ''-'' s)"

definition check_Valid :: "required_check \<Rightarrow> bool" where
  "check_Valid c \<longleftrightarrow> knownClass (rq_Class c) \<and> length (rq_CheckID c) \<le> 64 \<and> checkIDPattern (rq_CheckID c)"

definition Runnable :: "string \<Rightarrow> bool" where
  "Runnable c \<longleftrightarrow> c = ClassTestRun \<or> c = ClassBuild \<or> c = ClassLint"

record production =
  pro_SchemaVersion :: int
  pro_Class :: string
  pro_CheckID :: string
  pro_PolicyDigest :: string
  pro_Change :: string
  pro_TaskID :: string
  pro_AttemptID :: string
  pro_HEAD :: string
  pro_TaskHash :: string
  pro_CommandHash :: string
  pro_Reviewer :: string
  pro_Findings :: string
  pro_EvidenceSet :: string
  pro_PacketHash :: string
  pro_ApprovalHash :: string
  pro_StateRevision :: u64
  pro_StartedAt :: string
  pro_EndedAt :: string
  pro_ExitCode :: int
  pro_Passed :: bool
  pro_TimedOut :: bool
  pro_Interrupted :: bool
  pro_StdoutDigest :: string
  pro_StderrDigest :: string
  pro_StdoutCut :: bool
  pro_StderrCut :: bool

record production_subject =
  ps_Subject :: subject
  ps_Check :: required_check
  ps_PolicyDigest :: string
  ps_EvidenceSet :: string
  ps_PacketHash :: string

definition validate_runnable :: "production \<Rightarrow> error + unit" where
  "validate_runnable v =
     (if pro_Reviewer v \<noteq> [] then Inl (failed ''runnable evidence cannot carry a reviewer'')
      else if pro_Findings v \<noteq> [] \<or> pro_EvidenceSet v \<noteq> [] \<or> pro_PacketHash v \<noteq> [] then
        Inl (failed ''runnable evidence cannot carry review bindings'')
      else if \<not> hexValue (pro_CommandHash v) [64] then Inl (failed ''runnable evidence requires a command digest'')
      else if \<not> hexValue (pro_StdoutDigest v) [64] \<or> \<not> hexValue (pro_StderrDigest v) [64] then
        Inl (failed ''evidence digest is malformed'')
      else Inr ())"

definition validate_review :: "production \<Rightarrow> error + unit" where
  "validate_review v =
     (if pro_CommandHash v \<noteq> [] \<or> pro_StdoutDigest v \<noteq> [] \<or> pro_StderrDigest v \<noteq> [] \<or>
         pro_StdoutCut v \<or> pro_StderrCut v then Inl (failed ''review evidence never executes a command'')
      else if pro_Reviewer v = [] \<or> 320 < length (pro_Reviewer v) \<or> trim_space (pro_Reviewer v) \<noteq> pro_Reviewer v \<or>
              list_ex (\<lambda>c. c \<in> {CHR 0x0A, CHR 0x0D, CHR 0x09}) (pro_Reviewer v) then
        Inl (failed ''review evidence requires one bounded reviewer identity'')
      else if 2048 < length (pro_Findings v) \<or> CHR 0x00 \<in> set (pro_Findings v) then
        Inl (failed ''review findings are unbounded or malformed'')
      else if (pro_EvidenceSet v \<noteq> [] \<and> \<not> hexValue (pro_EvidenceSet v) [64]) \<or>
              (pro_PacketHash v \<noteq> [] \<and> \<not> hexValue (pro_PacketHash v) [64]) then
        Inl (failed ''review binding digest is malformed'')
      else Inr ())"

definition Production_Validate :: "production \<Rightarrow> error + unit" where
  "Production_Validate v =
     (if pro_SchemaVersion v \<noteq> 1 then Inl (failed ''unsupported evidence schema'')
      else if pro_Class v = ClassTestRun then Inl (failed ''test-run evidence uses the stage-5 payload'')
      else if \<not> check_Valid \<lparr>rq_Class = pro_Class v, rq_CheckID = pro_CheckID v\<rparr> then
        Inl (failed ''evidence class or check id is unknown'')
      else if \<not> hexValue (pro_PolicyDigest v) [64] then Inl (failed ''evidence policy digest is malformed'')
      else if pro_Change v = [] \<or> pro_TaskID v = [] \<or> pro_AttemptID v = [] then
        Inl (failed ''change, task, and attempt are required'')
      else if \<not> hexValue (pro_HEAD v) [40, 64] then Inl (failed ''HEAD is malformed'')
      else if \<not> hexValue (pro_TaskHash v) [64] \<or> \<not> hexValue (pro_ApprovalHash v) [64] then
        Inl (failed ''evidence digest is malformed'')
      else if pro_StateRevision v = 0 \<or> \<not> ordered_times (pro_StartedAt v) (pro_EndedAt v) then
        Inl (failed ''evidence revision or time is malformed'')
      else if pro_Passed v \<noteq> (pro_ExitCode v = 0 \<and> \<not> pro_TimedOut v \<and> \<not> pro_Interrupted v) then
        Inl (failed ''evidence result facts disagree'')
      else if Runnable (pro_Class v) then validate_runnable v
      else validate_review v)"

definition production_of :: "production_subject \<Rightarrow> verify_result \<Rightarrow> production" where
  "production_of p r = (let s = ps_Subject p in
     \<lparr>pro_SchemaVersion = 1, pro_Class = rq_Class (ps_Check p), pro_CheckID = rq_CheckID (ps_Check p),
      pro_PolicyDigest = ps_PolicyDigest p, pro_Change = sb_Change s, pro_TaskID = sb_TaskID s,
      pro_AttemptID = sb_AttemptID s, pro_HEAD = sb_HEAD s, pro_TaskHash = sb_TaskHash s,
      pro_CommandHash = sb_CommandHash s, pro_Reviewer = [], pro_Findings = [], pro_EvidenceSet = [],
      pro_PacketHash = [], pro_ApprovalHash = sb_ApprovalHash s, pro_StateRevision = sb_StateRevision s,
      pro_StartedAt = vr_StartedAt r, pro_EndedAt = vr_EndedAt r, pro_ExitCode = vr_ExitCode r,
      pro_Passed = vr_Passed r, pro_TimedOut = vr_TimedOut r, pro_Interrupted = vr_Interrupted r,
      pro_StdoutDigest = vr_StdoutDigest r, pro_StderrDigest = vr_StderrDigest r,
      pro_StdoutCut = vr_StdoutTruncated r, pro_StderrCut = vr_StderrTruncated r\<rparr>)"

definition NewProduction :: "production_subject \<Rightarrow> verify_result \<Rightarrow> error + production" where
  "NewProduction p r =
     (let v = production_of p r in
      if pro_Passed v \<and> (vr_TimedOut r \<or> vr_Interrupted r \<or> \<not> vr_NonVacuous r) then
        Inl (failed ''interrupted or vacuous observation cannot pass'')
      else bindE (Production_Validate v) (\<lambda>_. Inr v))"

definition review_of :: "production_subject \<Rightarrow> string \<Rightarrow> bool \<Rightarrow> string \<Rightarrow> production" where
  "review_of p reviewer passed stamp = (let s = ps_Subject p in
     \<lparr>pro_SchemaVersion = 1, pro_Class = rq_Class (ps_Check p), pro_CheckID = rq_CheckID (ps_Check p),
      pro_PolicyDigest = ps_PolicyDigest p, pro_Change = sb_Change s, pro_TaskID = sb_TaskID s,
      pro_AttemptID = sb_AttemptID s, pro_HEAD = sb_HEAD s, pro_TaskHash = sb_TaskHash s,
      pro_CommandHash = [], pro_Reviewer = trim_space reviewer, pro_Findings = [],
      pro_EvidenceSet = ps_EvidenceSet p, pro_PacketHash = ps_PacketHash p,
      pro_ApprovalHash = sb_ApprovalHash s, pro_StateRevision = sb_StateRevision s,
      pro_StartedAt = stamp, pro_EndedAt = stamp, pro_ExitCode = (if passed then 0 else 1),
      pro_Passed = passed, pro_TimedOut = False, pro_Interrupted = False,
      pro_StdoutDigest = [], pro_StderrDigest = [], pro_StdoutCut = False, pro_StderrCut = False\<rparr>)"

definition NewReview :: "production_subject \<Rightarrow> string \<Rightarrow> bool \<Rightarrow> string \<Rightarrow> error + production" where
  "NewReview p reviewer passed stamp =
     (let v = review_of p reviewer passed stamp in bindE (Production_Validate v) (\<lambda>_. Inr v))"

definition Production_Matches :: "production \<Rightarrow> production_subject \<Rightarrow> bool" where
  "Production_Matches v p \<longleftrightarrow> (let s = ps_Subject p in
     \<not> (pro_Class v = ClassReview \<and> ps_EvidenceSet p \<noteq> [] \<and> ps_PacketHash p \<noteq> [] \<and>
        (pro_EvidenceSet v \<noteq> ps_EvidenceSet p \<or> pro_PacketHash v \<noteq> ps_PacketHash p)) \<and>
     isOk (Production_Validate v) \<and> pro_Class v = rq_Class (ps_Check p) \<and>
     pro_CheckID v = rq_CheckID (ps_Check p) \<and> pro_PolicyDigest v = ps_PolicyDigest p \<and>
     pro_Change v = sb_Change s \<and> pro_TaskID v = sb_TaskID s \<and> pro_AttemptID v = sb_AttemptID s \<and>
     pro_HEAD v = sb_HEAD s \<and> pro_TaskHash v = sb_TaskHash s \<and> pro_ApprovalHash v = sb_ApprovalHash s \<and>
     pro_StateRevision v = sb_StateRevision s)"

definition Production_Applicable :: "int \<Rightarrow> production \<Rightarrow> production_subject \<Rightarrow> bool" where
  "Production_Applicable now v p \<longleftrightarrow>
     not_future now (pro_EndedAt v) \<and> Production_Matches v p \<and> pro_Passed v \<and> pro_ExitCode v = 0"

definition production_names :: "string list" where
  "production_names = [''schema_version'', ''class'', ''check'', ''policy_digest'', ''change'', ''task'',
     ''attempt'', ''head'', ''task_hash'', ''command_hash'', ''reviewer'', ''findings'', ''evidence_set'',
     ''packet_hash'', ''approval_hash'', ''state_revision'', ''started_at'', ''ended_at'', ''exit_code'',
     ''passed'', ''timed_out'', ''interrupted'', ''stdout_digest'', ''stderr_digest'', ''stdout_truncated'',
     ''stderr_truncated'']"

definition production_json :: "production \<Rightarrow> json" where
  "production_json v = JObj (
     [(''schema_version'', json_int (pro_SchemaVersion v)), (''class'', JStr (pro_Class v)),
      (''check'', JStr (pro_CheckID v)), (''policy_digest'', JStr (pro_PolicyDigest v)),
      (''change'', JStr (pro_Change v)), (''task'', JStr (pro_TaskID v)), (''attempt'', JStr (pro_AttemptID v)),
      (''head'', JStr (pro_HEAD v)), (''task_hash'', JStr (pro_TaskHash v)),
      (''command_hash'', JStr (pro_CommandHash v)), (''reviewer'', JStr (pro_Reviewer v))] @
     omit_empty ''findings'' (pro_Findings v) @ omit_empty ''evidence_set'' (pro_EvidenceSet v) @
     omit_empty ''packet_hash'' (pro_PacketHash v) @
     [(''approval_hash'', JStr (pro_ApprovalHash v)), (''state_revision'', json_u64 (pro_StateRevision v)),
      (''started_at'', JStr (pro_StartedAt v)), (''ended_at'', JStr (pro_EndedAt v)),
      (''exit_code'', json_int (pro_ExitCode v)), (''passed'', JBool (pro_Passed v)),
      (''timed_out'', JBool (pro_TimedOut v)), (''interrupted'', JBool (pro_Interrupted v)),
      (''stdout_digest'', JStr (pro_StdoutDigest v)), (''stderr_digest'', JStr (pro_StderrDigest v)),
      (''stdout_truncated'', JBool (pro_StdoutCut v)), (''stderr_truncated'', JBool (pro_StderrCut v))])"

definition production_of_json :: "json \<Rightarrow> production option" where
  "production_of_json v = do {
     m \<leftarrow> decode_object True production_names v;
     sv \<leftarrow> field_int m ''schema_version'';
     cl \<leftarrow> field_string m ''class'';
     ci \<leftarrow> field_string m ''check'';
     pd \<leftarrow> field_string m ''policy_digest'';
     ch \<leftarrow> field_string m ''change'';
     t \<leftarrow> field_string m ''task'';
     a \<leftarrow> field_string m ''attempt'';
     h \<leftarrow> field_string m ''head'';
     th \<leftarrow> field_string m ''task_hash'';
     co \<leftarrow> field_string m ''command_hash'';
     re \<leftarrow> field_string m ''reviewer'';
     fi \<leftarrow> field_string m ''findings'';
     es \<leftarrow> field_string m ''evidence_set'';
     ph \<leftarrow> field_string m ''packet_hash'';
     ah \<leftarrow> field_string m ''approval_hash'';
     rv \<leftarrow> field_u64 m ''state_revision'';
     sa \<leftarrow> field_string m ''started_at'';
     ea \<leftarrow> field_string m ''ended_at'';
     ec \<leftarrow> field_int m ''exit_code'';
     pa \<leftarrow> field_bool m ''passed'';
     ti \<leftarrow> field_bool m ''timed_out'';
     it \<leftarrow> field_bool m ''interrupted'';
     od \<leftarrow> field_string m ''stdout_digest'';
     ed \<leftarrow> field_string m ''stderr_digest'';
     oc \<leftarrow> field_bool m ''stdout_truncated'';
     ct \<leftarrow> field_bool m ''stderr_truncated'';
     Some \<lparr>pro_SchemaVersion = sv, pro_Class = cl, pro_CheckID = ci, pro_PolicyDigest = pd, pro_Change = ch,
       pro_TaskID = t, pro_AttemptID = a, pro_HEAD = h, pro_TaskHash = th, pro_CommandHash = co,
       pro_Reviewer = re, pro_Findings = fi, pro_EvidenceSet = es, pro_PacketHash = ph,
       pro_ApprovalHash = ah, pro_StateRevision = rv, pro_StartedAt = sa, pro_EndedAt = ea,
       pro_ExitCode = ec, pro_Passed = pa, pro_TimedOut = ti, pro_Interrupted = it,
       pro_StdoutDigest = od, pro_StderrDigest = ed, pro_StdoutCut = oc, pro_StderrCut = ct\<rparr> }"

definition DecodeProduction :: "json option \<Rightarrow> error + production" where
  "DecodeProduction raw =
     bindE (unique_keys raw) (\<lambda>v. case production_of_json v of
       None \<Rightarrow> Inl json_error
     | Some p \<Rightarrow> bindE (Production_Validate p) (\<lambda>_. Inr p))"

definition ClassOf :: "json option \<Rightarrow> error + string" where
  "ClassOf raw =
     (case Option.bind raw (\<lambda>v. Option.bind (decode_object False [''class''] v) (\<lambda>m. field_string m ''class'')) of
        None \<Rightarrow> Inl (failed ''evidence payload is malformed'')
      | Some c \<Rightarrow> if knownClass c then Inr c else Inl (Failed [Str ''unknown evidence class '', Quo c]))"

definition production_record :: "string \<Rightarrow> production \<Rightarrow> error + hist_record" where
  "production_record who v =
     bindE (Production_Validate v) (\<lambda>_.
     let actor = trim_space who in
     if actor = [] then Inl (failed ''evidence actor is required'')
     else if pro_Class v = ClassReview \<and> pro_Reviewer v = actor then
       Inl (failed ''review evidence requires a separate reviewer identity'')
     else observation_record (pro_Change v) (pro_EndedAt v) actor (production_json v))"

text \<open>\<open>MissingProduction\<close>: the declarations, the production records, and for each declaration whether a
  record proves it, with the first digest of another policy that a record proves it under.\<close>

fun check_required :: "required_check list \<Rightarrow> error + unit" where
  "check_required [] = Inr ()"
| "check_required (c # cs) =
     (if rq_Class c = ClassTestRun then Inl (failed ''test-run proof is owned by the core completion path'')
      else if \<not> check_Valid c then Inl (Failed [Str ''unknown production check '', Quo (check_String c)])
      else check_required cs)"

fun production_values :: "hist_record list \<Rightarrow> error + production list" where
  "production_values [] = Inr []"
| "production_values (r # rs) =
     bindE (ClassOf (rc_Payload r)) (\<lambda>class.
     if class = ClassTestRun then production_values rs
     else case DecodeProduction (rc_Payload r) of
       Inl e \<Rightarrow> Inl (failed ''malformed or unknown production evidence record'')
     | Inr v \<Rightarrow>
         if rc_Change r \<noteq> pro_Change v \<or> rc_Timestamp r \<noteq> pro_EndedAt v then
           Inl (failed ''malformed or unknown production evidence record'')
         else bindE (production_values rs) (\<lambda>vs. Inr (v # vs)))"

fun prove_check :: "int \<Rightarrow> production_subject \<Rightarrow> string \<Rightarrow> production list \<Rightarrow> bool \<times> string" where
  "prove_check now want prior [] = (False, prior)"
| "prove_check now want prior (v # vs) =
     (if Production_Applicable now v want then (True, prior)
      else prove_check now want
        (if prior = [] \<and> pro_PolicyDigest v \<noteq> ps_PolicyDigest want \<and> pro_Passed v \<and>
            Production_Applicable now v (want\<lparr>ps_PolicyDigest := pro_PolicyDigest v\<rparr>)
         then pro_PolicyDigest v else prior) vs)"

definition production_want :: "subject \<Rightarrow> required_check \<Rightarrow> string \<Rightarrow> string \<Rightarrow> production_subject" where
  "production_want s c policyDigest evidenceSet = \<lparr>ps_Subject = s, ps_Check = c,
     ps_PolicyDigest = policyDigest, ps_EvidenceSet = evidenceSet, ps_PacketHash = []\<rparr>"

fun missing_checks :: "int \<Rightarrow> subject \<Rightarrow> string \<Rightarrow> production list \<Rightarrow> string \<Rightarrow> required_check list
    \<Rightarrow> required_check list \<times> string" where
  "missing_checks now s policyDigest values prior [] = ([], prior)"
| "missing_checks now s policyDigest values prior (c # cs) =
     (case prove_check now (production_want s c policyDigest []) prior values of (ok, prior) \<Rightarrow>
      (case missing_checks now s policyDigest values prior cs of (missing, prior) \<Rightarrow>
        (if ok then missing else c # missing, prior)))"

definition MissingProduction :: "int \<Rightarrow> hist_record list \<Rightarrow> required_check list \<Rightarrow> subject \<Rightarrow> string
    \<Rightarrow> error + required_check list \<times> string" where
  "MissingProduction now items required s policyDigest =
     bindE (check_required required) (\<lambda>_.
     bindE (production_values items) (\<lambda>values.
     Inr (missing_checks now s policyDigest values [] required)))"

subsection \<open>Reviews\<close>

fun runnable_ids :: "string \<Rightarrow> hist_record list \<Rightarrow> error + string list" where
  "runnable_ids change [] = Inr []"
| "runnable_ids change (r # rs) =
     (if rc_Change r \<noteq> change then runnable_ids change rs
      else bindE (ClassOf (rc_Payload r)) (\<lambda>class.
        if class = ClassReview then runnable_ids change rs
        else bindE (runnable_ids change rs) (\<lambda>ids. Inr (rc_ID r # ids))))"

definition EvidenceSetHash :: "hist_record list \<Rightarrow> string \<Rightarrow> error + string" where
  "EvidenceSetHash items change =
     bindE (runnable_ids change items) (\<lambda>ids. Inr (sha256_hex (join_with CHR 0x0A (sort ids))))"

record review_binding =
  rb_Subject :: production_subject
  rb_Approver :: string
  rb_Implementer :: string

record review_verdict =
  rv_State :: string
  rv_Reviewer :: string
  rv_Findings :: string
  rv_RecordID :: string
  rv_ObservedAt :: string
  rv_PriorDigest :: string
  rv_Reason :: string

definition sameActor :: "string \<Rightarrow> string \<Rightarrow> bool" where
  "sameActor l r \<longleftrightarrow> lower_case (trim_space l) = lower_case (trim_space r)"

definition checkReviewer :: "review_binding \<Rightarrow> string \<Rightarrow> error + unit" where
  "checkReviewer b who =
     (let reviewer = trim_space who in
      if reviewer = [] then Inl (failed ''reviewer identity is unknown'')
      else if trim_space (rb_Approver b) = [] \<or> trim_space (rb_Implementer b) = [] then
        Inl (failed ''the approver and implementing actor must be resolvable to review'')
      else if sameActor reviewer (rb_Approver b) then
        Inl (failed ''the approver of a change cannot review it'')
      else if sameActor reviewer (rb_Implementer b) then
        Inl (failed ''the implementing actor cannot review its own task'')
      else Inr ())"

text \<open>The verdict and the record \<open>RecordReview\<close> appends.\<close>

definition RecordReview :: "string \<Rightarrow> review_binding \<Rightarrow> string \<Rightarrow> string \<Rightarrow> bool \<Rightarrow> string
    \<Rightarrow> error + production \<times> hist_record" where
  "RecordReview actor b reviewer findings approved stamp =
     (let p = rb_Subject b in
      if rq_Class (ps_Check p) \<noteq> ClassReview then Inl (failed ''a verdict binds the review class only'')
      else if ps_EvidenceSet p = [] \<or> ps_PacketHash p = [] then
        Inl (failed ''a verdict binds the evidence set and packet it was taken against'')
      else bindE (checkReviewer b reviewer) (\<lambda>_.
      if \<not> approved \<and> trim_space findings = [] then
        Inl (failed ''a reject verdict requires actionable findings'')
      else bindE (NewReview p reviewer approved stamp) (\<lambda>v0.
      let v = v0\<lparr>pro_Findings := findings\<rparr> in
      bindE (Production_Validate v) (\<lambda>_.
      bindE (production_record actor v) (\<lambda>r. Inr (v, r))))))"

definition priorVerdict :: "production \<Rightarrow> review_binding \<Rightarrow> bool" where
  "priorVerdict v b \<longleftrightarrow> pro_TaskID v = sb_TaskID (ps_Subject (rb_Subject b)) \<and>
     pro_CheckID v = rq_CheckID (ps_Check (rb_Subject b))"

definition no_verdict :: review_verdict where
  "no_verdict = \<lparr>rv_State = ''missing'', rv_Reviewer = [], rv_Findings = [], rv_RecordID = [],
     rv_ObservedAt = [], rv_PriorDigest = [], rv_Reason = []\<rparr>"

definition verdict_of :: "hist_record \<Rightarrow> production \<Rightarrow> review_verdict" where
  "verdict_of r v = \<lparr>rv_State = (if pro_Passed v then ''approved'' else ''rejected''),
     rv_Reviewer = pro_Reviewer v, rv_Findings = pro_Findings v, rv_RecordID = rc_ID r,
     rv_ObservedAt = pro_EndedAt v, rv_PriorDigest = [],
     rv_Reason = (if pro_Passed v then [] else ''the reviewer rejected this subject'')\<rparr>"

text \<open>One review record of the change: malformed or future, about something else, or a verdict.\<close>

definition review_step :: "int \<Rightarrow> review_binding \<Rightarrow> hist_record \<Rightarrow> review_verdict \<times> bool \<times> bool
    \<Rightarrow> error + review_verdict \<times> bool \<times> bool" where
  "review_step now b r acc =
     (case DecodeProduction (rc_Payload r) of
        Inl e \<Rightarrow> Inl (failed ''review evidence record is malformed'')
      | Inr v \<Rightarrow>
          if rc_Change r \<noteq> pro_Change v \<or> rc_Timestamp r \<noteq> pro_EndedAt v then
            Inl (failed ''review evidence record is malformed'')
          else if \<not> not_future now (pro_EndedAt v) then
            Inl (failed ''review evidence is dated in the future'')
          else if \<not> Production_Matches v (rb_Subject b) then
            (if priorVerdict v b then
               Inr ((fst acc)\<lparr>rv_PriorDigest := pro_PolicyDigest v, rv_Reason := ''the bound identity changed''\<rparr>,
                 False, True)
             else Inr acc)
          else bindE (checkReviewer b (pro_Reviewer v)) (\<lambda>_. Inr (verdict_of r v, True, False)))"

fun review_items :: "int \<Rightarrow> review_binding \<Rightarrow> hist_record list \<Rightarrow> review_verdict \<times> bool \<times> bool
    \<Rightarrow> error + review_verdict \<times> bool \<times> bool" where
  "review_items now b [] acc = Inr acc"
| "review_items now b (r # rs) acc =
     (if rc_Change r \<noteq> sb_Change (ps_Subject (rb_Subject b)) then review_items now b rs acc
      else bindE (ClassOf (rc_Payload r)) (\<lambda>class.
        if class \<noteq> ClassReview then review_items now b rs acc
        else bindE (review_step now b r acc) (review_items now b rs)))"

definition CurrentReview :: "int \<Rightarrow> hist_record list \<Rightarrow> review_binding \<Rightarrow> error + review_verdict" where
  "CurrentReview now items b =
     (if rq_Class (ps_Check (rb_Subject b)) \<noteq> ClassReview then
        Inl (failed ''a verdict binds the review class only'')
      else bindE (review_items now b items (no_verdict, False, False)) (\<lambda>(verdict, found, drifted).
        if found \<and> drifted then
          Inr (verdict\<lparr>rv_State := ''stale'', rv_Reason := ''evidence was recorded after the verdict''\<rparr>)
        else if \<not> found \<and> drifted then Inr (verdict\<lparr>rv_State := ''stale''\<rparr>)
        else Inr verdict))"

end
