(* ===== verification/VerifyProps.thy ===== *)
theory VerifyProps
  imports EvidenceRecs
begin

text \<open>
  What verification guarantees: the output kept of a run is bounded and does not depend on how the
  process wrote it, a finished run of a well-formed subject always makes valid evidence, and how the
  verification gate and the command parser compare.
\<close>

subsection \<open>Bounded output\<close>

lemma kept_more:
  "(if length (take n xs) < n then take n xs @ take (n - length (take n xs)) ys else take n xs) = take n (xs @ ys)"
  by (cases "length xs < n") simp_all

text \<open>The writer after any writes, told from their concatenation alone.\<close>

definition written :: "nat \<Rightarrow> string \<Rightarrow> bounded_digest" where
  "written limit all = \<lparr>bd_limit = limit, bd_captured = take limit all,
     bd_observed = take MaximumOutputLimit all, bd_digested = all,
     bd_truncated = (limit < length all), bd_total = length all\<rparr>"

lemma Write_written: "Write chunk (written limit all) = written limit (all @ chunk)"
proof -
  have "(length (take limit (all @ chunk)) < length all + length chunk) = (limit < length (all @ chunk))" by auto
  then show ?thesis
    by (simp only: Write_def written_def Let_def bounded_digest.simps kept_more length_append)
qed

lemma write_all_written: "write_all limit chunks = written limit (concat chunks)"
proof -
  have "foldl (\<lambda>w chunk. Write chunk w) (written limit all) chunks = written limit (all @ concat chunks)" for all
    by (induction chunks arbitrary: all) (simp_all add: Write_written)
  from this [of "[]"] show ?thesis
    by (simp add: write_all_def newBoundedDigest_def written_def MaximumOutputLimit_def)
qed

text \<open>C38: However a process splits its output into writes, no more than the limit is kept for the excerpt
  and no more than one mebibyte is kept for reading test results, what is kept is the beginning of the
  output, truncation is reported exactly when the excerpt is not all of it, and the digest is that of
  the whole output.\<close>
theorem output_bounded:
  "(let w = write_all limit chunks; all = concat chunks in
      length (bd_captured w) \<le> limit \<and> length (bd_observed w) \<le> 1048576 \<and>
      bd_captured w = take limit all \<and> bd_observed w = take 1048576 all \<and>
      (bd_truncated w \<longleftrightarrow> bd_captured w \<noteq> all) \<and> bd_total w = length all \<and> digest w = sha256_hex all)"
  by (auto simp: write_all_written written_def digest_def Let_def MaximumOutputLimit_def)


subsection \<open>Runs make evidence\<close>

definition subject_ok :: "subject \<Rightarrow> bool" where
  "subject_ok s \<longleftrightarrow> sb_Change s \<noteq> [] \<and> sb_TaskID s \<noteq> [] \<and> sb_AttemptID s \<noteq> [] \<and>
     hexValue (sb_HEAD s) [40, 64] \<and> hexValue (sb_TaskHash s) [64] \<and> hexValue (sb_CommandHash s) [64] \<and>
     hexValue (sb_ApprovalHash s) [64] \<and> sb_StateRevision s \<noteq> 0"

lemma hexValue_sha256 [simp]: "hexValue (sha256_hex m) [64]"
  by (simp add: hexValue_def)

lemma plain_lines_facts: "plain_lines vacuous ls = (shown, zero) \<Longrightarrow> \<not> (shown \<and> zero)"
  by (induction vacuous ls rule: plain_lines.induct) (auto simp: Let_def split: if_splits)

lemma goRunFacts_exclusive: "goRunFacts mode argv outputs = (selector, shown, zero) \<Longrightarrow> \<not> (shown \<and> zero)"
  by (auto simp: goRunFacts_def goPlainFacts_def dest: plain_lines_facts split: list.splits if_splits)

text \<open>The facts of a classified run agree with each other.\<close>

lemma classify_run_facts:
  assumes "classify_run redact q mode limit report = Inr r"
  shows "vr_Passed r \<longleftrightarrow> vr_ExitCode r = 0 \<and> vr_NonVacuous r \<and> \<not> vr_TimedOut r \<and> \<not> vr_Interrupted r"
    and "vr_NonVacuous r \<Longrightarrow> vr_ExitCode r = 0 \<and> \<not> vr_TimedOut r \<and> \<not> vr_Interrupted r \<and> \<not> vr_ZeroMatch r"
    and "vr_ExitCode r = 0 \<Longrightarrow> pr_End report = Exited 0"
    and "vr_StdoutDigest r = sha256_hex (concat (pr_Stdout report))"
    and "vr_StderrDigest r = sha256_hex (concat (pr_Stderr report))"
    and "vr_StartedAt r = pr_Started report" "vr_EndedAt r = pr_Ended report"
proof -
  define out err where "out = write_all limit (pr_Stdout report)" and "err = write_all limit (pr_Stderr report)"
  obtain code timed stopped where e: "run_exit (pr_End report) = Inr (code, timed, stopped)"
    using assms by (auto simp: classify_run_def Let_def bindE_eq_Inr)
  obtain selector facts zero where f: "goRunFacts mode (vq_Argv q) [bd_observed out, bd_observed err] = (selector, facts, zero)"
    by (cases "goRunFacts mode (vq_Argv q) [bd_observed out, bd_observed err]")
  have excl: "\<not> (facts \<and> zero)" by (rule goRunFacts_exclusive [OF f])
  note r = assms [unfolded classify_run_def Let_def, folded out_def err_def, unfolded e bindE_simps case_prod_conv f,
      unfolded case_prod_conv]
  show "vr_Passed r \<longleftrightarrow> vr_ExitCode r = 0 \<and> vr_NonVacuous r \<and> \<not> vr_TimedOut r \<and> \<not> vr_Interrupted r"
    using r by auto
  show "vr_NonVacuous r \<Longrightarrow> vr_ExitCode r = 0 \<and> \<not> vr_TimedOut r \<and> \<not> vr_Interrupted r \<and> \<not> vr_ZeroMatch r"
    using r excl by auto
  show "vr_ExitCode r = 0 \<Longrightarrow> pr_End report = Exited 0"
    using r e by (auto simp: run_exit_def split: run_end.splits if_splits)
  show "vr_StdoutDigest r = sha256_hex (concat (pr_Stdout report))"
    "vr_StderrDigest r = sha256_hex (concat (pr_Stderr report))"
    using r by (auto simp: digest_def out_def err_def write_all_written written_def)
  show "vr_StartedAt r = pr_Started report" "vr_EndedAt r = pr_Ended report" using r by auto
qed

lemma Run_classified:
  assumes "Run redact eval_links process q = Inr r"
  obtains dir name arguments timeout mode limit where
    "verify_command q = Inr (name, arguments, mode)" "run_limits q = Inr (timeout, limit)"
    "classify_run redact q mode limit (process dir name arguments timeout) = Inr r"
  using assms by (auto simp: Run_def Let_def bindE_eq_Inr split: option.splits)

lemma run_evidence:
  assumes "classify_run redact q mode limit report = Inr r" and "subject_ok s"
    and "ordered_times (vr_StartedAt r) (vr_EndedAt r)"
  shows "NewTestRun s r = Inr (test_run_of s r)" and "TestRun_Matches (test_run_of s r) s"
proof -
  note facts = classify_run_facts [OF assms(1)]
  have "TestRun_Validate (test_run_of s r) = Inr ()"
    using assms(2,3) facts(1,2) unfolding TestRun_Validate_def test_run_of_def
    by (auto simp: subject_ok_def facts(4,5))
  then show "NewTestRun s r = Inr (test_run_of s r)" "TestRun_Matches (test_run_of s r) s"
    by (simp_all add: NewTestRun_def Let_def TestRun_Matches_def isOk_def, simp_all add: test_run_of_def)
qed


definition sample_process :: "string \<Rightarrow> string \<Rightarrow> string list \<Rightarrow> int \<Rightarrow> process_report" where
  "sample_process dir name arguments timeout =
     \<lparr>pr_Started = ''2026-01-02T03:04:05Z'', pr_Ended = ''2026-01-02T03:04:06Z'',
      pr_Stdout = [''ok '', ''pkg''], pr_Stderr = [], pr_End = Exited 0, pr_Stranded = None\<rparr>"

definition sample_subject :: subject where
  "sample_subject = \<lparr>sb_Change = ''c'', sb_TaskID = ''t'', sb_AttemptID = sha256_hex ''a'', sb_HEAD = sha256_hex ''h'',
     sb_TaskHash = sha256_hex ''t'', sb_CommandHash = sha256_hex ''v'', sb_ApprovalHash = sha256_hex ''p'',
     sb_StateRevision = 3\<rparr>"

lemma sample_subject_ok: "subject_ok sample_subject"
  by (simp add: sample_subject_def subject_ok_def hexValue_def)

definition sample_request :: verify_request where
  "sample_request = \<lparr>vq_Dir = ''/p'', vq_Argv = [''go'', ''test''], vq_Shell = [], vq_Timeout = 0,
     vq_OutputLimit = 0\<rparr>"

lemma sample_run:
  obtains r where "Run id (\<lambda>d. Inr (d, True)) sample_process sample_request = Inr r"
    "vr_StartedAt r = ''2026-01-02T03:04:05Z''" "vr_EndedAt r = ''2026-01-02T03:04:06Z''"
proof -
  let ?report = "sample_process (path_Clean ''/p'') ''go'' [''test''] 120000000000"
  obtain r where c: "classify_run id sample_request ''argv'' 32768 ?report = Inr r"
    by (simp add: classify_run_def sample_process_def run_exit_def Let_def case_prod_beta)
  have "verify_command sample_request = Inr (''go'', [''test''], ''argv'')"
    by (simp add: verify_command_def sample_request_def trim_space_def trim_left_def is_space_def)
  moreover have "canonicalDir (\<lambda>d. Inr (d, True)) (vq_Dir sample_request) = Inr (path_Clean ''/p'')"
    by (simp add: canonicalDir_def sample_request_def trim_space_def trim_left_def is_space_def)
  moreover have "run_limits sample_request = Inr (120000000000, 32768)"
    by (simp add: run_limits_def sample_request_def DefaultTimeout_def MaximumTimeout_def Let_def
        DefaultOutputLimit_def MaximumOutputLimit_def)
  moreover have "pr_Stranded ?report = None" by (simp add: sample_process_def)
  ultimately have "Run id (\<lambda>d. Inr (d, True)) sample_process sample_request = Inr r"
    using c by (simp add: Run_def)
  moreover have "vr_StartedAt r = ''2026-01-02T03:04:05Z''" "vr_EndedAt r = ''2026-01-02T03:04:06Z''"
    using classify_run_facts(6,7) [OF c] by (simp_all add: sample_process_def)
  ultimately show thesis using that by blast
qed

lemma sample_times: "ordered_times ''2026-01-02T03:04:05Z'' ''2026-01-02T03:04:06Z''"
  by (simp add: ordered_times_def utc_time_def time_Parse_def two_digits_def one_or_two_digits_def expect_def
      is_digit_def digit_val_def position_def parse_fraction_def parse_zone_def days_in_def has_suffix_def)


subsection \<open>The gate and the parser\<close>

text \<open>What the gate asks of the words of a command once leading assignments are dropped.\<close>

definition executable :: "string list \<Rightarrow> bool" where
  "executable words = (case dropWhile shellAssignment words of
     [] \<Rightarrow> False | t # _ \<Rightarrow> t \<noteq> [] \<and> \<not> has_prefix t ''#'')"

text \<open>The scan of the parser is that of the gate, except that a word starts at a backslash.\<close>

definition started :: "command_scan \<Rightarrow> command_scan" where
  "started s = (if cs_escaped s then scan_start s else s)"

definition scan_ok :: "command_scan \<Rightarrow> bool" where
  "scan_ok s \<longleftrightarrow> (cs_quote s \<noteq> None \<longrightarrow> cs_token s \<noteq> None)"

definition uncommon :: string where
  "uncommon = ''*?[]{}~'' @ [CHR 0x00, CHR 0x0A, CHR 0x0D, CHR 0x0B, CHR 0x0C]"

definition common_char :: "char \<Rightarrow> bool" where
  "common_char c \<longleftrightarrow> c \<notin> set uncommon"

definition shell_operators :: string where
  "shell_operators = '';&|<>$()'' @ [CHR 0x60]"

lemma uncommon_sets:
  "set argv_operators - set uncommon = set shell_operators - set uncommon"
  "Set.filter is_space {CHR '' '', CHR 0x09, CHR 0x0A, CHR 0x0B, CHR 0x0C, CHR 0x0D} - set uncommon =
     {CHR '' '', CHR 0x09} - set uncommon"
  "{CHR 0x00, CHR 0x0A, CHR 0x0D} \<subseteq> set uncommon"
  by code_simp+

lemma common_classes:
  assumes "common_char c"
  shows "c \<in> set argv_operators \<longleftrightarrow> c \<in> set '';&|<>$()'' \<or> c = CHR 0x60"
    and "c = CHR '' '' \<or> c = CHR 0x09 \<longleftrightarrow> is_space c"
    and "\<not> (c = CHR 0x00 \<or> c = CHR 0x0A \<or> c = CHR 0x0D)"
proof -
  have c: "c \<notin> set uncommon" using assms by (simp add: common_char_def)
  have "set shell_operators = set '';&|<>$()'' \<union> {CHR 0x60}" unfolding shell_operators_def set_append by simp
  then show "c \<in> set argv_operators \<longleftrightarrow> c \<in> set '';&|<>$()'' \<or> c = CHR 0x60"
    using c uncommon_sets(1) by (metis Diff_iff Un_iff singleton_iff)
  have "is_space c \<longleftrightarrow> c \<in> Set.filter is_space {CHR '' '', CHR 0x09, CHR 0x0A, CHR 0x0B, CHR 0x0C, CHR 0x0D}"
    by (auto simp: is_space_def)
  then show "c = CHR '' '' \<or> c = CHR 0x09 \<longleftrightarrow> is_space c"
    using c uncommon_sets(2) by (metis Diff_iff insert_iff empty_iff)
  show "\<not> (c = CHR 0x00 \<or> c = CHR 0x0A \<or> c = CHR 0x0D)"
    using c uncommon_sets(3) by (metis insert_iff insert_subset)
qed

lemma scan_simps [simp]:
  "cs_escaped (scan_start s) = cs_escaped s" "cs_quote (scan_start s) = cs_quote s"
  "cs_escaped (scan_put c s) = cs_escaped s" "cs_quote (scan_put c s) = cs_quote s"
  "cs_escaped (scan_flush s) = cs_escaped s" "cs_quote (scan_flush s) = cs_quote s"
  "cs_token (scan_start s) \<noteq> None" "cs_token (scan_put c s) \<noteq> None"
  by (simp_all add: scan_start_def scan_put_def scan_flush_def split: option.split)

lemma scan_start_id: "cs_token s \<noteq> None \<Longrightarrow> scan_start s = s"
  by (auto simp: scan_start_def)

lemma scan_put_start: "scan_put c ((scan_start s)\<lparr>cs_escaped := e\<rparr>) = scan_put c (s\<lparr>cs_escaped := e\<rparr>)"
  by (simp add: scan_put_def scan_start_def split: option.split)

lemma split_char_sim:
  assumes "common_char c" and "scan_ok s"
  shows "case scan_char c s of
      Inl _ \<Rightarrow> (\<exists>e. split_char c (started s) = Inl e)
    | Inr s' \<Rightarrow> split_char c (started s) = Inr (started s') \<and> scan_ok s'"
proof -
  note kinds = common_classes [OF assms(1)]
  define op where "op \<longleftrightarrow> c \<in> set '';&|<>$()'' \<or> c = CHR 0x60"
  note unf = scan_char_def split_char_def if_not_P [OF kinds(3)] kinds(1,2) op_def [symmetric]
  show ?thesis
  proof (cases "cs_escaped s")
    case True
    then show ?thesis unfolding unf by (simp add: started_def scan_ok_def scan_put_start)
  next
    case False
    then have started: "started s = s" by (simp add: started_def)
    show ?thesis
    proof (cases "c = backslash \<and> cs_quote s \<noteq> Some single_quote")
      case True
      then show ?thesis using False assms(2) unfolding unf started
        by (simp add: started_def scan_ok_def scan_start_def)
    next
      case not_backslash: False
      show ?thesis
      proof (cases "cs_quote s")
        case None
        then show ?thesis unfolding unf started if_not_P [OF False] if_not_P [OF not_backslash]
          by (simp add: started_def scan_ok_def False)
      next
        case (Some q)
        then have "cs_token s \<noteq> None" using assms(2) by (simp add: scan_ok_def)
        then show ?thesis using Some unfolding unf started if_not_P [OF False] if_not_P [OF not_backslash]
          by (simp add: started_def scan_ok_def scan_start_id False)
      qed
    qed
  qed
qed

lemma split_scan_sim:
  assumes "\<forall>c \<in> set cs. common_char c" and "scan_ok s"
  shows "case scan_command cs s of
      Inl _ \<Rightarrow> (\<exists>e. split_scan cs (started s) = Inl e)
    | Inr s' \<Rightarrow> split_scan cs (started s) = Inr (started s') \<and> scan_ok s'"
  using assms
proof (induction cs arbitrary: s)
  case (Cons c cs)
  note step = split_char_sim [of c s]
  show ?case
  proof (cases "scan_char c s")
    case (Inl p)
    then show ?thesis using step Cons.prems by auto
  next
    case (Inr s1)
    then have "split_char c (started s) = Inr (started s1)" "scan_ok s1" using step Cons.prems by auto
    then show ?thesis using Inr Cons.IH [of s1] Cons.prems by (cases "scan_command cs s1") auto
  qed
qed simp

lemma started_flags: "cs_escaped (started s) = cs_escaped s" "cs_quote (started s) = cs_quote s"
  by (simp_all add: started_def)

lemma commandProblem_scan:
  assumes "trim_space c = c"
  shows "commandProblem c = [] \<longleftrightarrow> (\<exists>s. scan_command c start_scan = Inr s \<and>
    cs_quote s = None \<and> \<not> cs_escaped s \<and> executable (cs_tokens (scan_flush s)))"
proof (cases "c = []")
  case True
  then show ?thesis using assms by (simp add: commandProblem_def executable_def start_scan_def scan_flush_def)
next
  case False
  have nonempty: "scan_command cs s = Inl problem \<Longrightarrow> problem \<noteq> []" for cs s problem
    by (induction cs arbitrary: s) (auto simp: bindE_eq_Inl scan_char_def split: if_splits)
  have words: "(case ws of [] \<Rightarrow> ''has no executable token''
      | t # _ \<Rightarrow> if t = [] \<or> has_prefix t ''#'' then ''has no executable token'' else []) = [] \<longleftrightarrow>
    (case ws of [] \<Rightarrow> False | t # _ \<Rightarrow> t \<noteq> [] \<and> \<not> has_prefix t ''#'')" for ws
    by (cases ws) simp_all
  show ?thesis unfolding commandProblem_def assms start_scan_def [symmetric] Let_def executable_def if_not_P [OF False]
    by (cases "scan_command c start_scan") (auto simp: words dest: nonempty)
qed

lemma ParseCommand_scan:
  assumes "\<not> has_prefix c ''shell:''" and "split_scan c start_scan = Inr s"
    and "cs_quote s = None" "\<not> cs_escaped s"
  shows "ParseCommand c = (let words = cs_tokens (scan_flush s) in
    if words = [] \<or> trim_space (hd words) = [] then Inl (failed ''argv is empty'')
    else Inr (command_request words []))"
  using assms by (simp add: ParseCommand_def splitArgv_def Let_def split: list.split)




end
