(* ===== verification/Workspace.thy ===== *)
theory Workspace
  imports Checks Readiness Records
begin

text \<open>
  What the operations of \<open>internal/core\<close> work on, and the two writes they share. The workspace is the
  managed tree with the two ledgers; the environment holds what comes from outside: the answers of
  Git (by the moment they are asked at), the tree of the project outside the managed directory,
  whether two names are one file, what reading through a symbolic link gives, what taking a lock
  returns, the clock, and the outcomes of the system calls of the two writes. An operation decides without an
  effect, and then commits: it appends one record to the history and replaces the state of its
  change, or only replaces the state when an earlier run was interrupted between the two. The file
  \<open>state.json\<close> is the compact text of the document; its indentation is not modelled.
\<close>

record workspace =
  ws_fs :: fs
  ws_history :: ledger_file
  ws_evidence :: ledger_file

record core_env =
  ce_tree :: tree_env
  ce_same :: "string \<Rightarrow> string \<Rightarrow> bool"
  ce_lock :: "string \<Rightarrow> error option"
  ce_git :: "nat \<Rightarrow> string list \<Rightarrow> error + string"
  ce_project :: fs
  ce_follow :: "string \<Rightarrow> error + string"
  ce_now :: string
  ce_parent :: "error + bool"
  ce_append :: os_calls
  ce_write :: write_outcome
  ce_replace :: os_calls

abbreviation ce_owner :: "core_env \<Rightarrow> owner" where
  "ce_owner env \<equiv> te_owner (ce_tree env)"

definition clock :: "core_env \<Rightarrow> int" where
  "clock env = (case utc_time (ce_now env) of None \<Rightarrow> 0 | Some t \<Rightarrow> t)"

subsection \<open>Locks\<close>

text \<open>\<open>lock.With\<close> on the lock of a change, around a body.\<close>

definition with_change_lock :: "core_env \<Rightarrow> workspace \<Rightarrow> string \<Rightarrow> error + 'a \<Rightarrow> error + 'a" where
  "with_change_lock env w change body =
     bindE (ChangeLock (ce_owner env) (ws_fs w) change) (\<lambda>p. case ce_lock env p of
       Some e \<Rightarrow> Inl e
     | None \<Rightarrow> body)"

definition with_ledger_lock :: "core_env \<Rightarrow> error + 'a \<Rightarrow> error + 'a" where
  "with_ledger_lock env body = (case ce_lock env ''.records.lock'' of Some e \<Rightarrow> Inl e | None \<Rightarrow> body)"

subsection \<open>Reading\<close>

text \<open>\<open>os.ReadFile\<close>, which follows a link, and the state of a change with the refusal an operation
  makes of an undecodable one.\<close>

definition os_ReadFile :: "core_env \<Rightarrow> fs \<Rightarrow> string \<Rightarrow> error + string" where
  "os_ReadFile env fs p =
     (let path = abs_path (ce_owner env) p in case lstat fs p of
        Absent \<Rightarrow> Inl (path_error ''open'' path ''no such file or directory'')
      | Blocked \<Rightarrow> Inl (os_error ''open'' path)
      | Found NDir \<Rightarrow> Inl (path_error ''read'' path ''is a directory'')
      | Found NLink \<Rightarrow> ce_follow env p
      | Found (NFile raw) \<Rightarrow> Inr raw)"

definition change_state :: "core_env \<Rightarrow> workspace \<Rightarrow> string \<Rightarrow> error + string \<times> state" where
  "change_state env w change =
     bindE (ChangeState (ce_owner env) (ws_fs w) change) (\<lambda>p.
     bindE (readCheckState (ce_tree env) (ws_fs w) p) (\<lambda>raw.
     bindE (map_err (\<lambda>e. refuse ''plan_invalid'' [] (abs_path (ce_owner env) p) (error_Error e)
              [Str ''run status and repair state'']) (state_Decode (read_text raw) change)) (\<lambda>s. Inr (p, s))))"

definition task_states :: "state \<Rightarrow> json gomap" where
  "task_states s = (case st_Tasks s of None \<Rightarrow> [] | Some m \<Rightarrow> m)"

text \<open>\<open>current.Tasks[id] = raw\<close>, which panics on a nil map.\<close>

definition set_task :: "string \<Rightarrow> json \<Rightarrow> state \<Rightarrow> error + state" where
  "set_task i raw s = (case st_Tasks s of
     None \<Rightarrow> Inl (Panicked [Str ''assignment to entry in nil map''])
   | Some m \<Rightarrow> Inr (s\<lparr>st_Tasks := Some (AList.update i raw m)\<rparr>))"

definition advance :: "string \<Rightarrow> state \<Rightarrow> state" where
  "advance history s = s\<lparr>st_Revision := st_Revision s + 1, st_LastTransition := history\<rparr>"

text \<open>The project as one tree: what lies outside the managed directory, and the managed tree with the
  two ledgers under \<open>.specd\<close>.\<close>

definition ledger_entry :: "string \<Rightarrow> ledger_file \<Rightarrow> fs" where
  "ledger_entry name f = (case f of
     NoFile \<Rightarrow> [] | Symlink \<Rightarrow> [(name, NLink)] | _ \<Rightarrow> [(name, NFile (bytes_of f))])"

definition project_tree :: "core_env \<Rightarrow> workspace \<Rightarrow> fs" where
  "project_tree env w =
     map (\<lambda>(p, n). (if p = [] then ''.specd'' else ''.specd/'' @ p, n)) (ws_fs w) @
     ledger_entry ''.specd/history.jsonl'' (ws_history w) @
     ledger_entry ''.specd/evidence.jsonl'' (ws_evidence w) @ ce_project env"

text \<open>Replaying a ledger an operation needs complete: an incomplete tail is its own refusal.\<close>

definition history_of :: "core_env \<Rightarrow> workspace \<Rightarrow> error \<Rightarrow> error + hist_record list" where
  "history_of env w torn =
     bindE (Replay (ws_history w) (History (ce_owner env)) FamilyHistory) (\<lambda>(records, diagnostics).
     if diagnostics = [] then Inr records else Inl torn)"

definition evidence_of :: "core_env \<Rightarrow> workspace \<Rightarrow> error \<Rightarrow> error + hist_record list" where
  "evidence_of env w torn =
     bindE (Replay (ws_evidence w) (Evidence (ce_owner env)) FamilyEvidence) (\<lambda>(records, diagnostics).
     if diagnostics = [] then Inr records else Inl torn)"

text \<open>The walk backwards to the last record of a kind that takes the change on from a revision.\<close>

definition pending_record :: "string \<Rightarrow> hist_record list \<Rightarrow> string \<Rightarrow> u64 \<Rightarrow> hist_record option" where
  "pending_record kind records change revision = find_last (\<lambda>r.
     rc_Change r = change \<and> rc_Kind r = kind \<and> rc_Expected r = Some revision \<and>
     rc_Resulting r = Some (revision + 1)) records"

definition historyActor :: "hist_record list \<Rightarrow> string \<Rightarrow> string" where
  "historyActor records i = (case find (\<lambda>r. rc_ID r = i) records of None \<Rightarrow> [] | Some r \<Rightarrow> rc_Actor r)"

definition stale_refusal :: "string \<Rightarrow> u64 \<Rightarrow> u64 \<Rightarrow> error" where
  "stale_refusal path expected current =
     refuse ''stale_revision'' [] path
       [Str ''expected revision '', Dec (unat expected), Str '', current '', Dec (unat current)]
       [Str ''run status and retry from revision '', Dec (unat current)]"

subsection \<open>Writing\<close>

definition append_history :: "core_env \<Rightarrow> bool \<Rightarrow> hist_record \<Rightarrow> workspace \<Rightarrow> (error + unit) \<times> workspace" where
  "append_history env locked r w =
     (case (if locked then None else ce_lock env ''.records.lock'') of
        Some e \<Rightarrow> (Inl e, w)
      | None \<Rightarrow>
          (case AppendUnderLock (ce_append env) (ce_write env) (ce_parent env) (History (ce_owner env))
                  FamilyHistory (ws_history w) r of
             (res, f) \<Rightarrow> (res, w\<lparr>ws_history := f\<rparr>)))"

definition state_bytes :: "state \<Rightarrow> string" where
  "state_bytes s = json_bytes (state_json s) @ [CHR 0x0A]"

text \<open>\<open>state.Encode\<close> and \<open>persist.AtomicReplace\<close>, the end of every operation.\<close>

definition persist_state :: "core_env \<Rightarrow> string \<Rightarrow> state \<Rightarrow> workspace \<Rightarrow> (error + unit) \<times> workspace" where
  "persist_state env p s w = (case state_Encode s of
     Inl e \<Rightarrow> (Inl e, w)
   | Inr _ \<Rightarrow>
       (case AtomicReplace (ce_replace env) None (map_of (ws_fs w) p) (Some (NFile (state_bytes s))) of
          (res, n) \<Rightarrow> (res, w\<lparr>ws_fs := put_node p n (ws_fs w)\<rparr>)))"

text \<open>What an operation decided: the state file, the record to append (none when it is in the history
  already), whether the ledger lock is held, the next state, which may still be refused after the
  append, and the result. The hook of the request runs between the two writes; the operation wraps
  its error.\<close>

record 'r commit =
  cm_path :: string
  cm_record :: "hist_record option"
  cm_locked :: bool
  cm_hook :: "error \<Rightarrow> error"
  cm_state :: "error + state"
  cm_result :: 'r

definition persist_commit :: "core_env \<Rightarrow> 'r commit \<Rightarrow> workspace \<Rightarrow> (error + 'r) \<times> workspace" where
  "persist_commit env c w = (case cm_state c of
     Inl e \<Rightarrow> (Inl e, w)
   | Inr s \<Rightarrow> (case persist_state env (cm_path c) s w of
       (Inl e, w') \<Rightarrow> (Inl e, w')
     | (Inr _, w') \<Rightarrow> (Inr (cm_result c), w')))"

definition commit :: "core_env \<Rightarrow> error option \<Rightarrow> 'r commit \<Rightarrow> workspace \<Rightarrow> (error + 'r) \<times> workspace" where
  "commit env interrupted c w = (case cm_record c of
     None \<Rightarrow> persist_commit env c w
   | Some r \<Rightarrow> (case append_history env (cm_locked c) r w of
       (Inl e, w') \<Rightarrow> (Inl e, w')
     | (Inr _, w') \<Rightarrow> (case interrupted of
         Some e \<Rightarrow> (Inl (cm_hook c e), w')
       | None \<Rightarrow> persist_commit env c w')))"

definition run_operation :: "(core_env \<Rightarrow> workspace \<Rightarrow> error + 'r commit) \<Rightarrow> core_env \<Rightarrow> error option
    \<Rightarrow> workspace \<Rightarrow> (error + 'r) \<times> workspace" where
  "run_operation decide env interrupted w = (case decide env w of
     Inl e \<Rightarrow> (Inl e, w) | Inr c \<Rightarrow> commit env interrupted c w)"

end
