(* ===== verification/ApprovalState.thy ===== *)
theory ApprovalState
  imports Workspace
begin

text \<open>
  The approval of a change (\<open>internal/core/approval_status.go\<close>, the identity functions of
  \<open>approve.go\<close> and \<open>approval.go\<close>): the approval the history holds, whether the records after it are
  nothing but its own task activity, the identity of the authored plan, and the projection that
  says whether the approval still covers the plan and, if not, why.
\<close>

subsection \<open>Relative paths\<close>

text \<open>\<open>filepath.Rel\<close> on slash-separated paths.\<close>

fun drop_common :: "string list \<Rightarrow> string list \<Rightarrow> string list \<times> string list" where
  "drop_common (x # xs) (y # ys) = (if x = y then drop_common xs ys else (x # xs, y # ys))"
| "drop_common xs ys = (xs, ys)"

definition path_segments :: "string \<Rightarrow> string list" where
  "path_segments p = filter (\<lambda>s. s \<noteq> [] \<and> s \<noteq> ''.'') (split_on CHR ''/'' (path_Clean p))"

definition filepath_Rel :: "string \<Rightarrow> string \<Rightarrow> error + string" where
  "filepath_Rel base target =
     (if has_prefix base ''/'' \<noteq> has_prefix target ''/'' then
        Inl (Failed [Str ''Rel: can't make '', Str target, Str '' relative to '', Str base])
      else
        let (up, down) = drop_common (path_segments base) (path_segments target) in
        if ''..'' \<in> set up then
          Inl (Failed [Str ''Rel: can't make '', Str target, Str '' relative to '', Str base])
        else if up = [] \<and> down = [] then Inr ''.''
        else Inr (join_with CHR ''/'' (map (\<lambda>_. ''..'') up @ down)))"

subsection \<open>Task transitions in the history\<close>

record task_transition =
  ttr_SchemaVersion :: int
  ttr_TaskID :: string
  ttr_From :: task_activity
  ttr_To :: task_activity

definition task_transition_json :: "task_transition \<Rightarrow> json" where
  "task_transition_json t = JObj [(''schema_version'', json_int (ttr_SchemaVersion t)),
     (''task'', JStr (ttr_TaskID t)), (''from'', JStr (ttr_From t)), (''to'', JStr (ttr_To t))]"

definition task_transition_of_json :: "json \<Rightarrow> task_transition option" where
  "task_transition_of_json v = do {
     m \<leftarrow> decode_object True [''schema_version'', ''task'', ''from'', ''to''] v;
     sv \<leftarrow> field_int m ''schema_version'';
     t \<leftarrow> field_string m ''task'';
     f \<leftarrow> field_string m ''from'';
     to \<leftarrow> field_string m ''to'';
     Some \<lparr>ttr_SchemaVersion = sv, ttr_TaskID = t, ttr_From = f, ttr_To = to\<rparr> }"

definition decodeTaskTransition :: "json option \<Rightarrow> error + task_transition" where
  "decodeTaskTransition raw = (case Option.bind raw task_transition_of_json of
     None \<Rightarrow> Inl json_error
   | Some t \<Rightarrow>
       if ttr_SchemaVersion t \<noteq> 1 \<or> ttr_TaskID t = [] \<or> \<not> activity_Valid (ttr_From t) \<or>
          \<not> activity_Valid (ttr_To t) \<or> \<not> CanTransitionTaskActivity (ttr_From t) (ttr_To t)
       then Inl (failed ''task transition payload is invalid'') else Inr t)"

subsection \<open>The approval in the history\<close>

definition validateApprovalEnvelope :: "hist_record \<Rightarrow> approval_record \<Rightarrow> error + unit" where
  "validateApprovalEnvelope item a =
     bindE (map_err (Wrapped [Str ''validate approval history: '']) (ApprovalRecord_Validate a)) (\<lambda>_.
     if rc_Change item \<noteq> ap_Change a \<or> rc_Expected item \<noteq> Some (ap_RevisionBefore a) \<or>
        rc_Resulting item \<noteq> Some (ap_RevisionAfter a) \<or> rc_Actor item \<noteq> ap_Approver a \<or>
        rc_Timestamp item \<noteq> ap_Timestamp a
     then Inl (failed ''approval history envelope does not match payload'') else Inr ())"

definition decode_approval :: "bool \<Rightarrow> hist_record \<Rightarrow> error + approval_record" where
  "decode_approval strict item = (case Option.bind (rc_Payload item) (approval_of_json strict) of
     None \<Rightarrow> Inl (Wrapped [Str ''decode approval history: ''] json_error)
   | Some a \<Rightarrow> bindE (validateApprovalEnvelope item a) (\<lambda>_. Inr a))"

definition latestApproval :: "hist_record list \<Rightarrow> string \<Rightarrow> error + (approval_record \<times> string) option" where
  "latestApproval records change =
     (case find_last (\<lambda>r. rc_Change r = change \<and> rc_Kind r = ''approved'') records of
        None \<Rightarrow> Inr None
      | Some item \<Rightarrow> bindE (decode_approval True item) (\<lambda>a. Inr (Some (a, rc_ID item))))"

text \<open>A record of the task activity an approval covers; an observation takes no part in it.\<close>

definition activity_record :: "hist_record \<Rightarrow> bool" where
  "activity_record r \<longleftrightarrow>
     rc_Kind r = ''task_transition'' \<and> isOk (decodeTaskTransition (rc_Payload r)) \<or>
     rc_Kind r = ''attempt'' \<and> isOk (DecodeAttemptPayload (rc_Payload r)) \<or>
     rc_Kind r = ''completion'' \<and> isOk (DecodeCompletionPayload (rc_Payload r))"

fun activity_tail :: "string \<Rightarrow> state \<Rightarrow> u64 \<Rightarrow> string \<Rightarrow> hist_record list \<Rightarrow> (u64 \<times> string) option" where
  "activity_tail change current revision prev [] = Some (revision, prev)"
| "activity_tail change current revision prev (r # rs) =
     (if rc_Change r \<noteq> change \<or> rc_Kind r = ''friction'' then activity_tail change current revision prev rs
      else if \<not> activity_record r then None
      else if rc_Expected r = Some (st_Revision current) \<and> st_LastTransition current = prev then
        Some (revision, prev)
      else if rc_Expected r \<noteq> Some revision \<or> rc_Resulting r \<noteq> Some (revision + 1) then None
      else activity_tail change current (revision + 1) (rc_ID r) rs)"

definition approvalActivityTailCurrent :: "hist_record list \<Rightarrow> string \<Rightarrow> string \<Rightarrow> approval_record \<Rightarrow> state \<Rightarrow> bool" where
  "approvalActivityTailCurrent records change i a current =
     (case dropWhile (\<lambda>r. rc_ID r \<noteq> i) records of
        [] \<Rightarrow> False
      | _ # rs \<Rightarrow>
          activity_tail change current (ap_RevisionAfter a) i rs =
            Some (st_Revision current, st_LastTransition current))"

subsection \<open>The identity of the authored plan\<close>

definition plan_sources :: "change \<Rightarrow> source list" where
  "plan_sources c = [prop_Source (ch_Proposal c), des_Source (ch_Design c), tasks_Source (ch_Tasks c)] @
     map cd_Source (ch_Deltas c)"

fun plan_artifacts :: "string \<Rightarrow> string list \<Rightarrow> source list \<Rightarrow> error + approval_artifact list" where
  "plan_artifacts root seen [] = Inr []"
| "plan_artifacts root seen (s # ss) =
     (let unsafe = failed ''canonical plan contains an unsafe or absent approval artifact'' in
      case filepath_Rel root (src_Path s) of
        Inl _ \<Rightarrow> Inl unsafe
      | Inr rel \<Rightarrow>
          if \<not> src_Present s \<or> \<not> safeApprovalPath rel \<or> rel \<in> set seen then Inl unsafe
          else bindE (plan_artifacts root (rel # seen) ss) (\<lambda>as. Inr (artifact_of rel (src_Bytes s) # as)))"

definition identity_of :: "approval_artifact list \<Rightarrow> approval_identity" where
  "identity_of as = \<lparr>ai_Artifacts = as, ai_AggregateHash = aggregateApprovalHash as\<rparr>"

definition approvalIdentityFromPlan :: "string \<Rightarrow> change \<Rightarrow> error + approval_identity" where
  "approvalIdentityFromPlan root authored =
     bindE (plan_artifacts root [] (plan_sources authored)) (\<lambda>as. Inr (identity_of (sort_key aa_Path as)))"

fun covered_paths :: "(string \<Rightarrow> bool) \<Rightarrow> string \<Rightarrow> source list \<Rightarrow> error + string list" where
  "covered_paths outside root [] = Inr []"
| "covered_paths outside root (s # ss) =
     (case filepath_Rel root (src_Path s) of
        Inl _ \<Rightarrow> Inl (failed ''planning artifact escapes change root'')
      | Inr rel \<Rightarrow>
          if outside rel then Inl (failed ''planning artifact escapes change root'')
          else bindE (covered_paths outside root ss) (\<lambda>ps. Inr (rel # ps)))"

definition statusCoveredPaths :: "string \<Rightarrow> change \<Rightarrow> error + string list" where
  "statusCoveredPaths root authored =
     bindE (covered_paths (\<lambda>rel. rel = ''.'' \<or> rel = ''..'' \<or> has_prefix rel ''../'') root (plan_sources authored))
       (\<lambda>ps. Inr (sort ps))"

definition approvalCoveredPaths :: "string \<Rightarrow> change \<Rightarrow> error + string list" where
  "approvalCoveredPaths root authored =
     covered_paths (\<lambda>rel. rel = ''.'' \<or> has_prefix rel ''..'') root (plan_sources authored)"

fun first_difference :: "string list \<Rightarrow> string list \<Rightarrow> string" where
  "first_difference [] [] = []"
| "first_difference [] (c # cs) = c"
| "first_difference (r # rs) [] = r"
| "first_difference (r # rs) (c # cs) =
     (if r \<noteq> c then (if r < c then r else c) else first_difference rs cs)"

definition firstPathDifference :: "string list \<Rightarrow> string list \<Rightarrow> string" where
  "firstPathDifference recorded current = first_difference (sort recorded) (sort current)"

definition firstAbsentPlanArtifact :: "string \<Rightarrow> change \<Rightarrow> string" where
  "firstAbsentPlanArtifact root authored =
     (case List.map_filter (\<lambda>s. if src_Present s then None
             else (case filepath_Rel root (src_Path s) of Inl _ \<Rightarrow> None | Inr rel \<Rightarrow> Some rel))
           (plan_sources authored) of
        [] \<Rightarrow> [] | rel # _ \<Rightarrow> rel)"

text \<open>The comparison of the hashes by position. An index past the end of the current artifacts would
  panic.\<close>

fun changed_artifact :: "approval_artifact list \<Rightarrow> approval_artifact list \<Rightarrow> error + string option" where
  "changed_artifact [] current = Inr None"
| "changed_artifact (a # as) [] = Inl (Panicked [Str ''index out of range''])"
| "changed_artifact (a # as) (c # cs) =
     (if aa_Hash c \<noteq> aa_Hash a then Inr (Some (aa_Path a)) else changed_artifact as cs)"

subsection \<open>The projection\<close>

definition approval_status_of :: "string \<Rightarrow> approval_record option \<Rightarrow> approval_status" where
  "approval_status_of change a = \<lparr>aps_Change = change, aps_Current = False, aps_Approval = a,
     aps_BlockingArtifact = [], aps_Reason = [], aps_Recovery = []\<rparr>"

definition stale :: "approval_status \<Rightarrow> string \<Rightarrow> string \<Rightarrow> string \<Rightarrow> approval_status" where
  "stale status reason artifact recovery =
     status\<lparr>aps_Current := False, aps_Reason := reason, aps_BlockingArtifact := artifact, aps_Recovery := recovery\<rparr>"

definition recheck :: string where
  "recheck = ''rerun check, then obtain fresh human approval''"

text \<open>The part of the projection that looks at the plan.\<close>

definition plan_covered :: "approval_status \<Rightarrow> string \<Rightarrow> change \<Rightarrow> approval_record \<Rightarrow> error + approval_status" where
  "plan_covered status root authored a =
     bindE (statusCoveredPaths root authored) (\<lambda>current.
     let differs = firstPathDifference (map aa_Path (ap_Artifacts a)) current in
     if differs \<noteq> [] then
       Inr (stale status ''artifact_set_changed'' differs
         ''restore planning artifacts, rerun check, then obtain fresh human approval'')
     else case approvalIdentityFromPlan root authored of
       Inl _ \<Rightarrow> Inr (stale status ''artifact_missing_or_unsafe'' (firstAbsentPlanArtifact root authored)
         ''restore the artifact, rerun check, then obtain fresh human approval'')
     | Inr identity \<Rightarrow>
         bindE (changed_artifact (ap_Artifacts a) (ai_Artifacts identity)) (\<lambda>r. case r of
           Some path \<Rightarrow> Inr (stale status ''artifact_changed'' path recheck)
         | None \<Rightarrow> Inr (status\<lparr>aps_Current := True\<rparr>)))"

definition projectApprovalStatusForPlanLocked :: "core_env \<Rightarrow> workspace \<Rightarrow> string \<Rightarrow> string \<Rightarrow> string \<Rightarrow> change
    \<Rightarrow> error + approval_status" where
  "projectApprovalStatusForPlanLocked env w change registryVersion policyDigest authored =
     bindE (load_state (ce_tree env) (ws_fs w) change) (\<lambda>(_, current).
     bindE (Replay (ws_history w) (History (ce_owner env)) FamilyHistory) (\<lambda>(records, diagnostics).
     case diagnostics of
       d # _ \<Rightarrow> Inl (Failed [Str ''history has incomplete record at line '', Dec (rd_Line d)])
     | [] \<Rightarrow>
         bindE (latestApproval records change) (\<lambda>found. case found of
           None \<Rightarrow> Inr (stale (approval_status_of change None) ''approval_missing'' []
                      ''run check, then obtain fresh human approval'')
         | Some (a, i) \<Rightarrow>
             let status = approval_status_of change (Some a) in
             if st_Stage current \<noteq> ap_LifecycleTo a then
               Inr (stale status ''approval_not_applicable'' [] recheck)
             else if \<not> approvalActivityTailCurrent records change i a current then
               Inr (stale status ''state_revision_changed'' [] recheck)
             else if registryVersion \<noteq> ap_RegistryVersion a then
               Inr (stale status ''registry_version_changed'' [] recheck)
             else if policyDigest \<noteq> ap_PolicyDigest a then
               Inr (stale status ''policy_digest_changed'' [] recheck)
             else bindE (owner_Change (ce_owner env) (ws_fs w) change) (\<lambda>dir.
               plan_covered status (abs_path (ce_owner env) dir) authored a))))"

definition projectApprovalStatusLocked :: "core_env \<Rightarrow> workspace \<Rightarrow> string \<Rightarrow> string \<Rightarrow> string
    \<Rightarrow> error + approval_status" where
  "projectApprovalStatusLocked env w change registryVersion policyDigest =
     projectApprovalStatusForPlanLocked env w change registryVersion policyDigest
       (plan_of (ce_tree env) (ws_fs w) change)"

definition ProjectApprovalStatus :: "core_env \<Rightarrow> workspace \<Rightarrow> string \<Rightarrow> string \<Rightarrow> string
    \<Rightarrow> error + approval_status" where
  "ProjectApprovalStatus env w change registryVersion policyDigest =
     with_change_lock env w change
       (projectApprovalStatusLocked env w change registryVersion policyDigest)"

definition CurrentApprovalStatus :: "core_env \<Rightarrow> workspace \<Rightarrow> string \<Rightarrow> error + approval_status" where
  "CurrentApprovalStatus env w change =
     bindE PlanningRegistry (\<lambda>registry.
       ProjectApprovalStatus env w change (rg_version registry) DefaultPolicyDigest)"

end
