(* ===== verification/TaskTransitions.thy ===== *)
theory TaskTransitions
  imports ApprovalState
begin

text \<open>
  Moving a task from one activity to another (\<open>internal/core/tasktransition.go\<close>): the checks under
  the change lock in the order of the code, and the commit they decide on.
\<close>

record task_transition_request =
  ttq_TaskID :: string
  ttq_To :: task_activity
  ttq_actor :: string
  ttq_ExpectedRevision :: u64

definition trustedTaskTransitionAuthority :: "string \<Rightarrow> string" where
  "trustedTaskTransitionAuthority actor = trim_space actor"

definition taskTransitionFailure :: "string \<Rightarrow> string \<Rightarrow> msg \<Rightarrow> string \<Rightarrow> error" where
  "taskTransitionFailure code path reason next' = refuse code [] path reason [Str next']"

definition recoverableTaskTransition :: "hist_record list \<Rightarrow> string \<Rightarrow> u64
    \<Rightarrow> error + (task_transition \<times> string) option" where
  "recoverableTaskTransition records change revision =
     (case pending_record ''task_transition'' records change revision of
        None \<Rightarrow> Inr None
      | Some item \<Rightarrow> (case decodeTaskTransition (rc_Payload item) of
          Inl e \<Rightarrow> Inl (taskTransitionFailure ''task_history'' [] (error_Error e)
                     ''repair history and run status'')
        | Inr t \<Rightarrow> Inr (Some (t, rc_ID item))))"

definition taskCanStart :: "string \<Rightarrow> task_activity \<Rightarrow> tasks \<Rightarrow> state \<Rightarrow> approval_status \<Rightarrow> bool" where
  "taskCanStart i frm ts current approval =
     (let model = ProjectReadiness ts (task_states current) (st_Stage current) approval in
      if frm = TaskPending then InFrontier model i
      else if frm = TaskFailed then CanRetry model i
      else False)"

definition taskTransitionNextAction :: "string \<Rightarrow> task_activity \<Rightarrow> msg" where
  "taskTransitionNextAction i frm =
     (if NextTaskActivities frm = [] then [Str ''run status; task '', Quo i, Str '' has no legal successor'']
      else [Str ''run status and transition task '', Quo i, Str '' to one of: ''] @
        intersperse_comma (NextTaskActivities frm))"

definition persistTaskTransitionState :: "state \<Rightarrow> task_transition \<Rightarrow> string \<Rightarrow> error + state" where
  "persistTaskTransitionState current t history =
     bindE (set_task (ttr_TaskID t) (JStr (ttr_To t)) current) (\<lambda>s. Inr (advance history s))"

text \<open>A record of the history for a transition of this change at this revision.\<close>

definition transition_record :: "string \<Rightarrow> string \<Rightarrow> u64 \<Rightarrow> string \<Rightarrow> string \<Rightarrow> json \<Rightarrow> error + hist_record" where
  "transition_record kind change revision now actor payload =
     NewRecord \<lparr>rc_SchemaVersion = 0, rc_ID = [], rc_Family = FamilyHistory, rc_Kind = kind,
       rc_Change = change, rc_Expected = Some revision, rc_Resulting = Some (revision + 1),
       rc_Timestamp = now, rc_Actor = actor, rc_Payload = Some payload\<rparr>"

text \<open>The checks on the task: it is canonical, the step is one of the activity machine, completion is
  not asked for, and a start is of a task that can start.\<close>

definition check_transition :: "core_env \<Rightarrow> workspace \<Rightarrow> string \<Rightarrow> task_transition_request \<Rightarrow> string
    \<Rightarrow> state \<Rightarrow> error + task_activity" where
  "check_transition env w change q statePath current =
     (let ts = ch_Tasks (plan_of (ce_tree env) (ws_fs w) change) in
      bindE (BuildTaskGraph ts) (\<lambda>graph.
      if Wave graph (ttq_TaskID q) = None then
        Inl (taskTransitionFailure ''task_unknown'' (src_Path (tasks_Source ts))
          [Str ''task '', Quo (ttq_TaskID q), Str '' is not canonical''] ''choose a task reported by status'')
      else bindE (ProjectTaskActivities (AuthoredOrder graph) (task_states current)) (\<lambda>rows.
      let frm = map_get [] (index_activities Map.empty rows) (ttq_TaskID q) in
      if \<not> CanTransitionTaskActivity frm (ttq_To q) then
        Inl (refuse ''task_transition'' [] statePath
          [Str ''task '', Quo (ttq_TaskID q), Str '' cannot transition from '', Quo frm, Str '' to '', Quo (ttq_To q)]
          (taskTransitionNextAction (ttq_TaskID q) frm))
      else if ttq_To q = TaskCompleted then
        Inl (taskTransitionFailure ''task_evidence_required'' statePath
          [Str ''task completion requires current passing evidence'']
          ''run verify and complete through the stage 5 harness'')
      else bindE PlanningRegistry (\<lambda>registry.
      bindE (projectApprovalStatusLocked env w change (rg_version registry) DefaultPolicyDigest) (\<lambda>approval.
      if ttq_To q = TaskInProgress \<and> \<not> taskCanStart (ttq_TaskID q) frm ts current approval then
        Inl (taskTransitionFailure ''task_not_ready'' statePath
          [Str ''task '', Quo (ttq_TaskID q), Str '' is not in the current frontier'']
          ''run status and choose a ready task'')
      else Inr frm)))))"

text \<open>What the operation does with the pending transition it found, or without one.\<close>

definition resolve_transition :: "core_env \<Rightarrow> string \<Rightarrow> task_transition_request \<Rightarrow> string \<Rightarrow> string
    \<Rightarrow> state \<Rightarrow> hist_record list \<Rightarrow> (task_transition \<times> string) option \<Rightarrow> task_activity
    \<Rightarrow> error + task_transition commit" where
  "resolve_transition env change q actor p current records recovered frm =
     (let history = History (ce_owner env);
          hook = (\<lambda>e. taskTransitionFailure ''task_interrupted'' history (error_Error e)
             ''run status to recover the pending transition'') in
      case recovered of
        Some (t, i) \<Rightarrow>
          if ttr_TaskID t \<noteq> ttq_TaskID q \<or> ttr_From t \<noteq> frm \<or> ttr_To t \<noteq> ttq_To q \<or>
             historyActor records i \<noteq> actor then
            Inl (taskTransitionFailure ''task_recovery'' history
              [Str ''pending transition differs from current request or state'']
              ''run status to recover the pending transition'')
          else Inr \<lparr>cm_path = p, cm_record = None, cm_locked = False, cm_hook = hook,
                 cm_state = persistTaskTransitionState current t i, cm_result = t\<rparr>
      | None \<Rightarrow>
          let t = \<lparr>ttr_SchemaVersion = 1, ttr_TaskID = ttq_TaskID q, ttr_From = frm, ttr_To = ttq_To q\<rparr> in
          bindE (transition_record ''task_transition'' change (st_Revision current) (ce_now env) actor
            (task_transition_json t)) (\<lambda>r.
          Inr \<lparr>cm_path = p, cm_record = Some r, cm_locked = False, cm_hook = hook,
            cm_state = persistTaskTransitionState current t (rc_ID r), cm_result = t\<rparr>))"

definition transition_locked :: "core_env \<Rightarrow> workspace \<Rightarrow> string \<Rightarrow> task_transition_request \<Rightarrow> string
    \<Rightarrow> error + task_transition commit" where
  "transition_locked env w change q actor =
     (let history = History (ce_owner env) in
      bindE (change_state env w change) (\<lambda>(p, current).
      let statePath = abs_path (ce_owner env) p in
      if st_Revision current \<noteq> ttq_ExpectedRevision q then
        Inl (stale_refusal statePath (ttq_ExpectedRevision q) (st_Revision current))
      else bindE (history_of env w (taskTransitionFailure ''task_history'' history
                    [Str ''history has an incomplete tail''] ''repair history and run status'')) (\<lambda>records.
      bindE (recoverableTaskTransition records change (st_Revision current)) (\<lambda>recovered.
      bindE (check_transition env w change q statePath current) (\<lambda>frm.
      resolve_transition env change q actor p current records recovered frm)))))"

definition decide_transition :: "string \<Rightarrow> task_transition_request \<Rightarrow> core_env \<Rightarrow> workspace
    \<Rightarrow> error + task_transition commit" where
  "decide_transition change q env w =
     (let actor = trim_space (ttq_actor q) in
      if actor = [] then
        Inl (taskTransitionFailure ''task_unauthorized'' [] [Str ''task transition actor is unauthorized'']
          ''request the transition through an authorized harness operation'')
      else with_change_lock env w change (transition_locked env w change q actor))"

definition TransitionTaskActivity :: "string \<Rightarrow> task_transition_request \<Rightarrow> core_env \<Rightarrow> error option
    \<Rightarrow> workspace \<Rightarrow> (error + task_transition) \<times> workspace" where
  "TransitionTaskActivity change q = run_operation (decide_transition change q)"

end
