(* ===== verification/StoredPayloads.thy ===== *)
theory StoredPayloads
  imports TaskTransitions
begin

text \<open>
  The history stores a payload in its canonical form, with the members of every object sorted. A
  stored payload decodes to the payload it was made from.
\<close>

lemma canon_fields_distinct:
  "distinct (map fst kvs) \<Longrightarrow> fst ` set kvs \<inter> fst ` set acc = {} \<Longrightarrow>
     canon_fields kvs acc = acc @ map (\<lambda>(k, v). (k, json_canon v)) kvs"
proof (induction kvs arbitrary: acc)
  case (Cons e kvs)
  obtain k v where e: "e = (k, v)" by (cases e)
  have new: "k \<notin> fst ` set acc" using Cons.prems e by auto
  then have "AList.update k (json_canon v) acc = acc @ [(k, json_canon v)]"
    by (induction acc) auto
  moreover have "canon_fields kvs (acc @ [(k, json_canon v)]) =
      (acc @ [(k, json_canon v)]) @ map (\<lambda>(k, v). (k, json_canon v)) kvs"
    by (rule Cons.IH) (use Cons.prems e in auto)
  ultimately show ?case using e by simp
qed simp

lemma json_canon_object:
  "distinct (map fst kvs) \<Longrightarrow> json_canon (JObj kvs) = JObj (sort_key fst (map (\<lambda>(k, v). (k, json_canon v)) kvs))"
  using canon_fields_distinct [of kvs "[]"] by simp

lemma json_canon_flat:
  assumes "distinct (map fst kvs)" and "\<forall>(k, v) \<in> set kvs. json_canon v = v"
  shows "json_canon (JObj kvs) = JObj (sort_key fst kvs)"
proof -
  have "map (\<lambda>(k, v). (k, json_canon v)) kvs = kvs" using assms(2) by (induction kvs) auto
  then show ?thesis using json_canon_object [OF assms(1)] by simp
qed

lemma map_of_eq_by_set:
  assumes "distinct (map fst xs)" and "distinct (map fst ys)" and "set xs = set ys"
  shows "map_of xs k = map_of ys k"
proof (cases "map_of xs k")
  case None
  then have "map_of ys k = None" unfolding map_of_eq_None_iff using assms(3) by simp
  then show ?thesis using None by simp
next
  case (Some v)
  then have "(k, v) \<in> set ys" using assms(3) by (auto dest: map_of_SomeD)
  then show ?thesis using Some assms(2) by simp
qed

lemma map_of_sorted: "distinct (map fst kvs) \<Longrightarrow> map_of (sort_key fst kvs) = map_of kvs"
proof (rule ext)
  fix k assume d: "distinct (map fst kvs)"
  have "distinct (map fst (sort_key fst kvs))"
    using d by (metis distinct_map distinct_sort set_sort)
  then show "map_of (sort_key fst kvs) k = map_of kvs k"
    using d by (intro map_of_eq_by_set) simp_all
qed

lemma decode_object_sorted:
  assumes "distinct (map fst kvs)" and "set (map fst kvs) \<subseteq> set names" and "\<forall>(k, v) \<in> set kvs. v \<noteq> JNull"
  shows "decode_object strict names (JObj (sort_key fst kvs)) = Some (sort_key fst kvs)"
  using assms
  by (intro decode_object_distinct) (simp_all add: distinct_map)

lemma json_canon_strings [simp]: "json_canon (json_strings ss) = json_strings ss"
proof -
  have "canon_items (map JStr ss) = map JStr ss" by (induction ss) auto
  then show ?thesis by (simp add: json_strings_def)
qed

lemma json_canon_numbers [simp]: "json_canon (json_int i) = json_int i" "json_canon (json_u64 n) = json_u64 n"
  by (simp_all add: json_int_def json_u64_def json_nat_def)

lemma json_numbers_not_null [simp]: "json_int i \<noteq> JNull" "json_u64 n \<noteq> JNull" "json_strings ss \<noteq> JNull"
  by (simp_all add: json_int_def json_u64_def json_nat_def json_strings_def)

lemmas stored_object = json_canon_flat decode_object_sorted map_of_sorted

lemmas getters = field_string_def field_int_def field_u64_def field_strings_def

lemma attempt_stored:
  assumes "atp_SchemaVersion p = 1"
  shows "attempt_payload_of_json (json_canon (attempt_payload_json p)) = Some p"
  using assms unfolding attempt_payload_json_def attempt_payload_of_json_def
  by (subst json_canon_flat; (subst decode_object_sorted)?)
     (simp_all add: attempt_payload_names_def getters map_of_sorted del: sort_key_simps,
      simp_all add: json_int_def json_u64_def json_nat_def json_strings_def)

lemma completion_stored:
  assumes "cmp_SchemaVersion p = 1"
  shows "completion_payload_of_json (json_canon (completion_payload_json p)) = Some p"
  using assms unfolding completion_payload_json_def completion_payload_of_json_def
  by (subst json_canon_flat; (subst decode_object_sorted)?)
     (simp_all add: completion_payload_names_def getters map_of_sorted del: sort_key_simps,
      simp_all add: json_int_def json_u64_def json_nat_def)

lemma reopened_stored:
  assumes "rop_SchemaVersion p = 1"
  shows "reopened_payload_of_json (json_canon (reopened_payload_json p)) = Some p"
  using assms unfolding reopened_payload_json_def reopened_payload_of_json_def
  by (cases "rop_AttemptID p = []"; subst json_canon_flat; (subst decode_object_sorted)?)
     (simp_all add: reopened_payload_names_def getters map_of_sorted del: sort_key_simps,
      simp_all add: json_int_def json_u64_def json_nat_def)

lemma transition_stored:
  assumes "ttr_SchemaVersion t = 1"
  shows "task_transition_of_json (json_canon (task_transition_json t)) = Some t"
  using assms unfolding task_transition_json_def task_transition_of_json_def
  by (subst json_canon_flat; (subst decode_object_sorted)?)
     (simp_all add: getters map_of_sorted del: sort_key_simps,
      simp_all add: json_int_def json_u64_def json_nat_def)

text \<open>An approval holds its artifacts as objects, each stored with its members sorted.\<close>

lemma artifact_stored: "artifact_of_json strict (json_canon (artifact_json a)) = Some a"
  unfolding artifact_json_def artifact_of_json_def
  by (subst json_canon_flat; (subst decode_object_sorted)?)
     (simp_all add: getters map_of_sorted del: sort_key_simps)

lemma artifacts_stored: "artifacts_of_json strict (canon_items (map artifact_json as)) = Some as"
  by (induction as) (simp_all add: artifact_stored)

lemma approval_stored:
  assumes "ap_SchemaVersion r = 1"
  shows "approval_of_json strict (json_canon (approval_json r)) = Some r"
  using assms unfolding approval_json_def approval_of_json_def
  by (subst json_canon_object; (subst decode_object_sorted)?)
     (simp_all add: approval_names_def getters map_of_sorted artifacts_stored del: sort_key_simps,
      simp_all add: json_int_def json_u64_def json_nat_def)

end
