(* ===== verification/Attempts.thy ===== *)
theory Attempts
  imports TaskTransitions
begin

text \<open>
  Starting an attempt (\<open>internal/core/attempt.go\<close>): the bound attempts in the state, the hash of the
  state outside what an attempt owns, the hash of a task contract, the files of a task as write
  authority, a clean worktree at a commit, and the operation.
\<close>

definition attemptExtensionKey :: string where "attemptExtensionKey = ''attempts''"

definition AttemptAssurance :: string where "AttemptAssurance = ''advisory''"

record attempt_request =
  atq_TaskID :: string
  atq_actor :: string
  atq_ExpectedRevision :: u64

record start_attempt_intent =
  sai_TaskID :: string
  sai_ExpectedRevision :: u64
  sai_Actor :: string

definition attemptFailure :: "string \<Rightarrow> string \<Rightarrow> msg \<Rightarrow> string \<Rightarrow> error" where
  "attemptFailure code path reason next' = refuse code [] path reason [Str next']"

subsection \<open>Bound attempts\<close>

fun attempt_entries :: "(string \<times> json) list \<Rightarrow> error + attempt_payload gomap" where
  "attempt_entries [] = Inr []"
| "attempt_entries ((i, v) # kvs) =
     (let malformed = Inl (failed ''persisted attempt map is malformed'') in
      case DecodeAttemptPayload (Some v) of
        Inl e \<Rightarrow> malformed
      | Inr a \<Rightarrow> if atp_TaskID a \<noteq> i then malformed
          else bindE (attempt_entries kvs) (\<lambda>m. Inr ((i, a) # m)))"

definition decodeAttempts :: "json option \<Rightarrow> error + attempt_payload gomap" where
  "decodeAttempts raw = (case raw of
     None \<Rightarrow> Inr []
   | Some v \<Rightarrow> (case decode_map [] v of
       None \<Rightarrow> Inl json_error
     | Some None \<Rightarrow> Inr []
     | Some (Some m) \<Rightarrow> attempt_entries m))"

definition bound_attempts :: "state \<Rightarrow> error + attempt_payload gomap" where
  "bound_attempts s = decodeAttempts (map_of (st_Extensions s) attemptExtensionKey)"

definition CurrentAttempt :: "state \<Rightarrow> string \<Rightarrow> error + attempt_payload option" where
  "CurrentAttempt current i = bindE (bound_attempts current) (\<lambda>m. Inr (map_of m i))"

definition attempts_json :: "attempt_payload gomap \<Rightarrow> json" where
  "attempts_json m = json_of_map (map (\<lambda>(i, a). (i, attempt_payload_json a)) m)"

text \<open>The state with only what an attempt at the task leaves alone, and its hash.\<close>

definition drop_attempt :: "string \<Rightarrow> json gomap \<Rightarrow> json gomap" where
  "drop_attempt i ext =
     (let m = (case decodeAttempts (map_of ext attemptExtensionKey) of Inl _ \<Rightarrow> [] | Inr m \<Rightarrow> m);
          rest = AList.delete i m in
      if rest = [] then AList.delete attemptExtensionKey ext
      else AList.update attemptExtensionKey (attempts_json rest) ext)"

definition guarded_state :: "state \<Rightarrow> string \<Rightarrow> state" where
  "guarded_state s i = s\<lparr>st_Revision := 0, st_LastTransition := [],
     st_Tasks := Some (AList.delete i (task_states s)),
     st_Extensions := drop_attempt i (st_Extensions s)\<rparr>"

definition attemptStateGuardHash :: "state \<Rightarrow> string \<Rightarrow> string" where
  "attemptStateGuardHash s i = sha256_hex (json_bytes (state_json (guarded_state s i)))"

definition canonicalTask :: "task list \<Rightarrow> string \<Rightarrow> task option" where
  "canonicalTask ts i = find (\<lambda>t. task_ID t = i) ts"

text \<open>A cloned list that is empty is a nil slice, as the table parser leaves it.\<close>

definition clone_json :: "string list \<Rightarrow> json" where
  "clone_json ss = (if ss = [] then JNull else json_strings ss)"

definition TaskContractHash :: "task \<Rightarrow> string" where
  "TaskContractHash t = sha256_hex (json_bytes (JObj
     [(''ID'', JStr (task_ID t)), (''Role'', JStr (task_Role t)), (''Verify'', JStr (task_Verify t)),
      (''Acceptance'', JStr (task_Acceptance t)), (''Files'', clone_json (task_Files t)),
      (''DependsOn'', clone_json (task_DependsOn t)),
      (''References'', JArr (map (\<lambda>r. json_strings [ref_Capability r, ref_Requirement r]) (task_References t)))]))"

subsection \<open>Declared files\<close>

fun reject_links :: "fs \<Rightarrow> string \<Rightarrow> string list \<Rightarrow> error + unit" where
  "reject_links fs relative [] = Inr ()"
| "reject_links fs relative (p # ps) = (case lstat fs p of
     Absent \<Rightarrow> Inr ()
   | Blocked \<Rightarrow> Inl (attemptFailure ''attempt_scope'' relative (error_Error (os_error ''lstat'' p))
                  ''repair the declared path and rerun check'')
   | Found NLink \<Rightarrow> Inl (attemptFailure ''attempt_scope'' relative
                  [Str ''declared task file traverses a symlink'']
                  ''replace the symlink with an exact repository file and obtain fresh approval'')
   | Found _ \<Rightarrow> reject_links fs relative ps)"

definition rejectAttemptSymlink :: "fs \<Rightarrow> string \<Rightarrow> error + unit" where
  "rejectAttemptSymlink fs relative = reject_links fs relative (path_prefixes relative)"

text \<open>The walk over a managed directory: it fails when the directory is absent, and when a regular file
  in it is the declared file.\<close>

definition regular_files :: "fs \<Rightarrow> string \<Rightarrow> string list" where
  "regular_files fs root = filter (\<lambda>p. under p root \<and> (case map_of fs p of Some (NFile _) \<Rightarrow> True | _ \<Rightarrow> False))
     (map fst fs)"

definition walk_managed :: "core_env \<Rightarrow> fs \<Rightarrow> string \<Rightarrow> string \<Rightarrow> error + unit" where
  "walk_managed env fs relative managed = (case lstat fs managed of
     Absent \<Rightarrow> Inl (path_error ''lstat'' managed ''no such file or directory'')
   | Blocked \<Rightarrow> Inl (os_error ''lstat'' managed)
   | Found _ \<Rightarrow>
       if list_ex (ce_same env relative) (regular_files fs managed)
       then Inl (failed ''declared path aliases managed harness or Git content'') else Inr ())"

definition rejectManagedAlias :: "core_env \<Rightarrow> fs \<Rightarrow> string \<Rightarrow> error + unit" where
  "rejectManagedAlias env fs relative =
     (let irregular = Inl (attemptFailure ''attempt_scope'' relative
            [Str ''existing declared path must be one regular file'']
            ''repair the declared path and rerun check'') in
      case lstat fs relative of
        Absent \<Rightarrow> Inr ()
      | Found (NFile _) \<Rightarrow>
          map_err (\<lambda>e. attemptFailure ''attempt_scope'' relative (error_Error e)
              ''replace the alias with an independent file and obtain fresh approval'')
            (bindE (walk_managed env fs relative ''.specd'') (\<lambda>_. walk_managed env fs relative ''.git''))
      | _ \<Rightarrow> irregular)"

definition managed_or_git :: "string \<Rightarrow> bool" where
  "managed_or_git p \<longleftrightarrow> p = ''.specd'' \<or> has_prefix p ''.specd/'' \<or> p = ''.git'' \<or> has_prefix p ''.git/''"

fun check_files :: "core_env \<Rightarrow> fs \<Rightarrow> string option \<Rightarrow> string list \<Rightarrow> error + unit" where
  "check_files env fs prev [] = Inr ()"
| "check_files env fs prev (p # ps) =
     (if managed_or_git p then
        Inl (attemptFailure ''attempt_scope'' p
          [Str ''managed harness or Git paths cannot be task write authority'']
          ''remove managed paths from the task and obtain fresh approval'')
      else if prev = Some p then
        Inl (attemptFailure ''attempt_scope'' p [Str ''declared task file is duplicated'']
          ''deduplicate task files and obtain fresh approval'')
      else bindE (rejectAttemptSymlink fs p) (\<lambda>_. bindE (rejectManagedAlias env fs p) (\<lambda>_.
        check_files env fs (Some p) ps)))"

definition validateAttemptFiles :: "core_env \<Rightarrow> fs \<Rightarrow> string list \<Rightarrow> error + string list" where
  "validateAttemptFiles env fs authored =
     (let files = sort authored in
      bindE (check_files env fs None files) (\<lambda>_.
      if files = [] then
        Inl (attemptFailure ''attempt_scope'' [] [Str ''task has no declared implementation files'']
          ''declare exact task files and obtain fresh approval'')
      else Inr files))"

subsection \<open>The baseline\<close>

definition gitOutput :: "core_env \<Rightarrow> nat \<Rightarrow> string list \<Rightarrow> error + string" where
  "gitOutput env at arguments = bindE (ce_git env at arguments) (\<lambda>raw. Inr (trim_space raw))"

definition git_head :: "core_env \<Rightarrow> nat \<Rightarrow> error + string" where
  "git_head env at = gitOutput env at [''rev-parse'', ''--verify'', ''HEAD^{commit}'']"

definition git_untracked :: "core_env \<Rightarrow> nat \<Rightarrow> error + string" where
  "git_untracked env at = ce_git env at [''ls-files'', ''--others'', ''--exclude-standard'', ''-z'']"

definition attemptManagedPath :: "string \<Rightarrow> bool" where
  "attemptManagedPath v \<longleftrightarrow> v = ''.specd'' \<or> has_prefix v ''.specd/''"

definition dirty_paths :: "string list \<Rightarrow> string \<Rightarrow> string \<Rightarrow> string list" where
  "dirty_paths allowedDirty tracked untracked =
     filter (\<lambda>p. p \<noteq> [] \<and> p \<notin> set allowedDirty \<and> \<not> attemptManagedPath p)
       (split_on CHR 0x00 tracked @ split_on CHR 0x00 untracked)"

definition cleanGitBaseline :: "core_env \<Rightarrow> string list \<Rightarrow> error + string" where
  "cleanGitBaseline env allowedDirty =
     (let root = own_root (ce_owner env);
          git = (\<lambda>e. attemptFailure ''attempt_git'' root (error_Error e) ''repair the Git worktree and run status'');
          unresolved = Inl (attemptFailure ''attempt_git'' root
            [Str ''project root is not a resolvable Git worktree root'']
            ''initialize and commit the project at its selected root'');
          commitless = Inl (attemptFailure ''attempt_commitless'' root
            [Str ''Git HEAD does not resolve to a commit'']
            ''commit the project before starting execution'') in
      case gitOutput env 0 [''rev-parse'', ''--show-toplevel''] of
        Inl e \<Rightarrow> unresolved
      | Inr worktree \<Rightarrow> if path_Clean worktree \<noteq> path_Clean root then unresolved
      else case git_head env 0 of
        Inl e \<Rightarrow> commitless
      | Inr head \<Rightarrow> if length head < 40 then commitless
      else bindE (map_err git (ce_git env 0 [''diff'', ''--name-only'', ''-z'', ''HEAD'', ''--''])) (\<lambda>tracked.
      bindE (map_err git (git_untracked env 0)) (\<lambda>untracked.
      let dirty = dirty_paths allowedDirty tracked untracked in
      if dirty \<noteq> [] then
        Inl (attemptFailure ''attempt_dirty'' root ([Str ''Git worktree is not clean: ''] @ intersperse_comma dirty)
          ''make the Git worktree clean, then retry'')
      else Inr head)))"

subsection \<open>The operation\<close>

definition attempt_envelope :: "hist_record \<Rightarrow> attempt_payload \<Rightarrow> bool" where
  "attempt_envelope item a \<longleftrightarrow> atp_Change a = rc_Change item \<and> rc_Expected item = Some (atp_RevisionBefore a) \<and>
     rc_Resulting item = Some (atp_RevisionAfter a) \<and> atp_Actor a = rc_Actor item"

definition recoverableAttempt :: "hist_record list \<Rightarrow> string \<Rightarrow> u64 \<Rightarrow> error + (attempt_payload \<times> string) option" where
  "recoverableAttempt records change revision =
     (let mismatch = Inl (attemptFailure ''attempt_history'' []
            [Str ''attempt history envelope does not match payload''] ''repair history and run status'') in
      case pending_record ''attempt'' records change revision of
        None \<Rightarrow> Inr None
      | Some item \<Rightarrow> (case DecodeAttemptPayload (rc_Payload item) of
          Inl e \<Rightarrow> mismatch
        | Inr a \<Rightarrow> if attempt_envelope item a then Inr (Some (a, rc_ID item)) else mismatch))"

definition persistAttemptState :: "state \<Rightarrow> attempt_payload gomap \<Rightarrow> attempt_payload \<Rightarrow> string \<Rightarrow> error + state" where
  "persistAttemptState current attempts a history =
     bindE (set_task (atp_TaskID a) (JStr ''in_progress'')
       (current\<lparr>st_Extensions := AList.update attemptExtensionKey
          (attempts_json (AList.update (atp_TaskID a) a attempts)) (st_Extensions current)\<rparr>)) (\<lambda>s.
     Inr (advance history s))"

text \<open>No attempt is bound to the task, and the bound attempts belong to completed tasks. The code ranges
  over the map in any order; the list is one.\<close>

fun attempts_terminal :: "string \<Rightarrow> json gomap \<Rightarrow> string list \<Rightarrow> error + unit" where
  "attempts_terminal statePath persisted [] = Inr ()"
| "attempts_terminal statePath persisted (i # is) =
     bindE (ProjectTaskActivity persisted i) (\<lambda>activity.
     if activity \<noteq> TaskCompleted then
       Inl (attemptFailure ''attempt_exists'' statePath
         [Str ''task '', Quo i, Str '' has a non-terminal bound attempt''] ''run status and finish the active attempt'')
     else attempts_terminal statePath persisted is)"

definition check_attempts :: "string \<Rightarrow> string \<Rightarrow> state \<Rightarrow> error + attempt_payload gomap" where
  "check_attempts statePath i current =
     bindE (map_err (\<lambda>e. attemptFailure ''plan_invalid'' statePath (error_Error e) ''run status and repair state'')
       (bound_attempts current)) (\<lambda>attempts.
     if map_of attempts i \<noteq> None then
       Inl (attemptFailure ''attempt_exists'' statePath [Str ''task already has a bound attempt'']
         ''run status and continue the active attempt'')
     else bindE (attempts_terminal statePath (task_states current) (map fst attempts)) (\<lambda>_. Inr attempts))"

definition not_ready_reason :: "string \<Rightarrow> readiness_model \<Rightarrow> approval_status \<Rightarrow> msg" where
  "not_ready_reason i model approval =
     [Str ''task '', Quo i, Str '' is not in the current frontier''] @
     (case Option.bind (model_Task model i) tr_Blocker of
        None \<Rightarrow> [] | Some b \<Rightarrow> [Str '': '', Str (rb_Code b)]) @
     (if aps_Reason approval = [] then [] else [Str '': '', Str (aps_Reason approval)])"

text \<open>The task as the plan, the project and the approval have it: its row, its sorted files and the
  approval that covers it.\<close>

definition check_start :: "core_env \<Rightarrow> workspace \<Rightarrow> string \<Rightarrow> string \<Rightarrow> string \<Rightarrow> state
    \<Rightarrow> error + task \<times> string list \<times> approval_record" where
  "check_start env w change i statePath current =
     (let ts = ch_Tasks (plan_of (ce_tree env) (ws_fs w) change);
          stale_approval = attemptFailure ''approval_stale'' statePath
            [Str ''attempt requires current human approval''] ''rerun check, then obtain fresh human approval'' in
      bindE (BuildTaskGraph ts) (\<lambda>_. case canonicalTask (tasks_Tasks ts) i of
        None \<Rightarrow> Inl (attemptFailure ''task_unknown'' (src_Path (tasks_Source ts))
                   [Str ''task '', Quo i, Str '' is not canonical''] ''choose a task reported by status'')
      | Some t \<Rightarrow>
          bindE (validateAttemptFiles env (project_tree env w) (task_Files t)) (\<lambda>files.
          bindE PlanningRegistry (\<lambda>registry.
          bindE (projectApprovalStatusLocked env w change (rg_version registry) DefaultPolicyDigest) (\<lambda>approval.
          let model = ProjectReadiness ts (task_states current) (st_Stage current) approval in
          if \<not> InFrontier model i then
            Inl (attemptFailure ''attempt_not_ready'' statePath (not_ready_reason i model approval)
              ''run status and choose a ready task'')
          else case aps_Approval approval of
            None \<Rightarrow> Inl stale_approval
          | Some a \<Rightarrow>
              if \<not> aps_Current approval then Inl stale_approval
              else case ProjectTaskActivity (task_states current) i of
                Inl e \<Rightarrow> Inl (attemptFailure ''attempt_transition'' statePath
                  [Str ''task '', Quo i, Str '' cannot start from '', Quo []]
                  ''run status and choose a pending ready task'')
              | Inr activity \<Rightarrow>
                  if CanTransitionTaskActivity activity TaskInProgress then Inr (t, files, a)
                  else Inl (attemptFailure ''attempt_transition'' statePath
                    [Str ''task '', Quo i, Str '' cannot start from '', Quo activity]
                    ''run status and choose a pending ready task''))))))"

definition bind_attempt :: "string \<Rightarrow> string \<Rightarrow> state \<Rightarrow> task \<Rightarrow> string list \<Rightarrow> approval_record \<Rightarrow> string
    \<Rightarrow> error + attempt_payload" where
  "bind_attempt change actor current t files a head =
     NewAttemptPayload \<lparr>atp_SchemaVersion = 0, atp_ID = [], atp_Change = change, atp_TaskID = task_ID t,
       atp_BaselineHEAD = head, atp_RevisionBefore = st_Revision current,
       atp_RevisionAfter = st_Revision current + 1, atp_ContractHash = TaskContractHash t,
       atp_ApprovalHash = ap_AggregateHash a, atp_StateGuardHash = attemptStateGuardHash current (task_ID t),
       atp_DeclaredFiles = files, atp_Actor = actor, atp_Assurance = AttemptAssurance,
       atp_ActivityFrom = TaskPending, atp_ActivityTo = TaskInProgress\<rparr>"

definition resolve_attempt :: "core_env \<Rightarrow> string \<Rightarrow> string \<Rightarrow> string \<Rightarrow> state \<Rightarrow> attempt_payload gomap
    \<Rightarrow> hist_record list \<Rightarrow> (attempt_payload \<times> string) option \<Rightarrow> attempt_payload
    \<Rightarrow> error + attempt_payload commit" where
  "resolve_attempt env change actor p current attempts records recovered started =
     (let history = History (ce_owner env);
          hook = (\<lambda>e. attemptFailure ''attempt_interrupted'' history (error_Error e)
             ''run status to recover the pending attempt'') in
      case recovered of
        Some (prior, i) \<Rightarrow>
          if atp_ID prior \<noteq> atp_ID started \<or> historyActor records i \<noteq> actor then
            Inl (attemptFailure ''attempt_recovery'' history
              [Str ''pending attempt differs from current request or inputs'']
              ''run status to recover the pending attempt'')
          else Inr \<lparr>cm_path = p, cm_record = None, cm_locked = False, cm_hook = hook,
                 cm_state = persistAttemptState current attempts prior i, cm_result = prior\<rparr>
      | None \<Rightarrow>
          bindE (transition_record ''attempt'' change (st_Revision current) (ce_now env) (atp_Actor started)
            (attempt_payload_json started)) (\<lambda>r.
          Inr \<lparr>cm_path = p, cm_record = Some r, cm_locked = False, cm_hook = hook,
            cm_state = persistAttemptState current attempts started (rc_ID r), cm_result = started\<rparr>))"

definition start_locked :: "core_env \<Rightarrow> workspace \<Rightarrow> string \<Rightarrow> attempt_request \<Rightarrow> string
    \<Rightarrow> error + attempt_payload commit" where
  "start_locked env w change q actor =
     bindE (change_state env w change) (\<lambda>(p, current).
     let statePath = abs_path (ce_owner env) p in
     if st_Revision current \<noteq> atq_ExpectedRevision q then
       Inl (stale_refusal statePath (atq_ExpectedRevision q) (st_Revision current))
     else bindE (check_attempts statePath (atq_TaskID q) current) (\<lambda>attempts.
     bindE (check_start env w change (atq_TaskID q) statePath current) (\<lambda>(t, files, a).
     bindE (history_of env w (attemptFailure ''attempt_history'' (History (ce_owner env))
              [Str ''history has an incomplete tail''] ''repair history and run status'')) (\<lambda>records.
     bindE (recoverableAttempt records change (st_Revision current)) (\<lambda>recovered.
     bindE (cleanGitBaseline env (if recovered = None then [] else [''.specd/history.jsonl''])) (\<lambda>head.
     bindE (bind_attempt change actor current t files a head) (\<lambda>started.
     resolve_attempt env change actor p current attempts records recovered started)))))))"

definition decide_attempt :: "string \<Rightarrow> attempt_request \<Rightarrow> core_env \<Rightarrow> workspace
    \<Rightarrow> error + attempt_payload commit" where
  "decide_attempt change q env w =
     (let actor = trim_space (atq_actor q) in
      if actor = [] then
        Inl (attemptFailure ''attempt_unauthorized'' [] [Str ''attempt actor is unauthorized'']
          ''request context through an authorized harness operation'')
      else with_change_lock env w change (start_locked env w change q actor))"

definition StartAttempt :: "string \<Rightarrow> attempt_request \<Rightarrow> core_env \<Rightarrow> error option
    \<Rightarrow> workspace \<Rightarrow> (error + attempt_payload) \<times> workspace" where
  "StartAttempt change q = run_operation (decide_attempt change q)"

definition StartTaskAttempt :: "string \<Rightarrow> start_attempt_intent \<Rightarrow> core_env
    \<Rightarrow> workspace \<Rightarrow> (error + attempt_payload) \<times> workspace" where
  "StartTaskAttempt change intent env =
     StartAttempt change \<lparr>atq_TaskID = sai_TaskID intent,
       atq_actor = trustedTaskTransitionAuthority (sai_Actor intent),
       atq_ExpectedRevision = sai_ExpectedRevision intent\<rparr> env None"

end
