(* ===== verification/Resuming.thy ===== *)
theory Resuming
  imports StoredPayloads Attempts
begin

text \<open>
  What an operation relies on to be retried after an interruption. The contract of a resumable
  operation is a locale: once its record is in the history it decides the same commit without the
  record, and a decision without a record is stable. From it follows that an interrupted run, then
  retried, ends where the uninterrupted run ends.
\<close>

subsection \<open>Records of an operation\<close>

lemma canonicalPayload_Inr: "canonicalPayload (Some v) = Inr p \<Longrightarrow> p = json_canon v"
  by (auto simp: canonicalPayload_def split: if_splits json.splits)

lemma NewRecord_Inr:
  assumes "NewRecord r = Inr r'" and "rc_Payload r = Some v"
  obtains i where "record_Validate r' = Inr ()"
    and "r' = r\<lparr>rc_SchemaVersion := 1, rc_ID := i, rc_Payload := Some (json_canon v)\<rparr>"
proof -
  obtain p where p: "canonicalPayload (rc_Payload r) = Inr p"
    using assms(1) by (auto simp: NewRecord_def Let_def bindE_eq_Inr)
  then have "p = json_canon v" using assms(2) by (auto dest!: canonicalPayload_Inr)
  moreover obtain i where "record_Validate r' = Inr ()"
    "r' = r\<lparr>rc_SchemaVersion := 1, rc_Payload := Some p, rc_ID := i\<rparr>"
    using assms(1) p by (auto simp: NewRecord_def Let_def bindE_eq_Inr)
  ultimately show thesis using that [of i] by simp
qed

lemma transition_record_Inr:
  assumes "transition_record kind change revision now actor payload = Inr r"
  shows "record_Validate r = Inr ()" "rc_Family r = FamilyHistory" "rc_Kind r = kind" "rc_Change r = change"
    "rc_Expected r = Some revision" "rc_Resulting r = Some (revision + 1)" "rc_Timestamp r = now"
    "rc_Actor r = actor" "rc_Payload r = Some (json_canon payload)"
  by (rule NewRecord_Inr [OF assms [unfolded transition_record_def]]; simp)+

lemma pending_record_snoc:
  "rc_Change r = change \<Longrightarrow> rc_Kind r = kind \<Longrightarrow> rc_Expected r = Some revision \<Longrightarrow>
     rc_Resulting r = Some (revision + 1) \<Longrightarrow> pending_record kind (rs @ [r]) change revision = Some r"
  by (simp add: pending_record_def find_last_snoc)

lemma historyActor_snoc:
  assumes "rc_ID r \<notin> rc_ID ` set rs"
  shows "historyActor (rs @ [r]) (rc_ID r) = rc_Actor r"
proof -
  have "find (\<lambda>x. rc_ID x = rc_ID r) (rs @ [r]) = Some r"
    using assms by (induction rs) auto
  then show ?thesis by (simp add: historyActor_def)
qed

text \<open>The history before and after a record was appended to it.\<close>

lemma append_history_Inr:
  assumes "append_history env locked r w = (Inr (), w')" and "encodable r"
  obtains rs where "Replay (ws_history w) (History (ce_owner env)) FamilyHistory = Inr (rs, [])"
    and "Replay (ws_history w') (History (ce_owner env)) FamilyHistory = Inr (rs @ [r], [])"
    and "rc_ID r \<notin> rc_ID ` set rs" and "ws_fs w' = ws_fs w" and "ws_evidence w' = ws_evidence w"
    and "\<exists>raw. ws_history w' = Bytes raw"
    and "case (rc_Expected r, last_revision (rc_Change r) rs) of (Some e, Some v) \<Rightarrow> e = v | _ \<Rightarrow> True"
proof -
  from assms(1) obtain f where a: "AppendUnderLock (ce_append env) (ce_write env) (ce_parent env)
      (History (ce_owner env)) FamilyHistory (ws_history w) r = (Inr (), f)" and w': "w' = w\<lparr>ws_history := f\<rparr>"
    by (auto simp: append_history_def split: option.splits prod.splits if_splits)
  obtain rs where rs: "Replay (ws_history w) (History (ce_owner env)) FamilyHistory = Inr (rs, [])"
    "Replay f (History (ce_owner env)) FamilyHistory = Inr (rs @ [r], [])"
    using append_reads_back [OF a assms(2)] by blast
  obtain rs' where "Replay (ws_history w) (History (ce_owner env)) FamilyHistory = Inr (rs', [])"
    and rs': "rc_ID r \<notin> rc_ID ` set rs'"
      "case (rc_Expected r, last_revision (rc_Change r) rs') of (Some e, Some v) \<Rightarrow> e = v | _ \<Rightarrow> True"
    using append_check_Inr [OF AppendUnderLock_Inr(3) [OF a]] by blast
  then have "rs' = rs" using rs(1) by simp
  then show thesis using that [OF rs(1)] rs rs' w' AppendUnderLock_Inr(4) [OF a] by simp
qed

lemma history_of_complete:
  "Replay (ws_history w) (History (ce_owner env)) FamilyHistory = Inr (rs, []) \<Longrightarrow> history_of env w torn = Inr rs"
  by (simp add: history_of_def)

lemma history_of_Inr:
  "history_of env w torn = Inr rs \<Longrightarrow> Replay (ws_history w) (History (ce_owner env)) FamilyHistory = Inr (rs, [])"
  by (auto simp: history_of_def bindE_eq_Inr split: if_splits)

subsection \<open>The surroundings of a retry\<close>

text \<open>A later run sees the same tree, locks and project; the outcomes of the system calls of the
  append and what Git says about managed paths may differ, and the clock does not go back.\<close>

definition unmanaged :: "string \<Rightarrow> string list" where
  "unmanaged out = filter (\<lambda>p. p \<noteq> [] \<and> \<not> attemptManagedPath p) (split_on CHR 0x00 out)"

fun same_paths :: "error + string \<Rightarrow> error + string \<Rightarrow> bool" where
  "same_paths (Inr a) (Inr b) = (unmanaged a = unmanaged b)"
| "same_paths (Inl d) (Inl e) = True"
| "same_paths x y = False"

definition git_toplevel :: "core_env \<Rightarrow> error + string" where
  "git_toplevel env = gitOutput env 0 [''rev-parse'', ''--show-toplevel'']"

definition git_tracked :: "core_env \<Rightarrow> error + string" where
  "git_tracked env = ce_git env 0 [''diff'', ''--name-only'', ''-z'', ''HEAD'', ''--'']"

definition same_git :: "core_env \<Rightarrow> core_env \<Rightarrow> bool" where
  "same_git env env' \<longleftrightarrow> git_toplevel env' = git_toplevel env \<and> git_head env' 0 = git_head env 0 \<and>
     same_paths (git_tracked env) (git_tracked env') \<and> same_paths (git_untracked env 0) (git_untracked env' 0)"

definition same_places :: "core_env \<Rightarrow> core_env \<Rightarrow> bool" where
  "same_places env env' \<longleftrightarrow> ce_tree env' = ce_tree env \<and> ce_same env' = ce_same env \<and> ce_lock env' = ce_lock env \<and>
     ce_project env' = ce_project env \<and> ce_follow env' = ce_follow env \<and> ce_replace env' = ce_replace env \<and> clock env \<le> clock env'"

definition retry_env :: "core_env \<Rightarrow> core_env \<Rightarrow> bool" where
  "retry_env env env' \<longleftrightarrow> same_places env env' \<and> same_git env env'"

lemma retry_env_simps:
  assumes "retry_env env env'"
  shows "ce_tree env' = ce_tree env" "ce_same env' = ce_same env" "ce_lock env' = ce_lock env"
    "ce_project env' = ce_project env" "ce_follow env' = ce_follow env" "ce_replace env' = ce_replace env"
    "git_head env' 0 = git_head env 0" "clock env \<le> clock env'"
  using assms by (simp_all add: retry_env_def same_places_def same_git_def)

subsection \<open>The contract\<close>

text \<open>What a run would record next can be written as text: it is well-formed UTF-8.\<close>

definition records_text :: "(core_env \<Rightarrow> workspace \<Rightarrow> error + 'r commit) \<Rightarrow> core_env \<Rightarrow> workspace \<Rightarrow> bool" where
  "records_text decide env w = (case decide env w of
     Inl _ \<Rightarrow> True
   | Inr c \<Rightarrow> (case cm_record c of None \<Rightarrow> True | Some r \<Rightarrow> encodable r))"

locale resumable =
  fixes decide :: "core_env \<Rightarrow> workspace \<Rightarrow> error + 'r commit"
  assumes resumes: "decide env w = Inr c \<Longrightarrow> cm_record c = Some r \<Longrightarrow> encodable r \<Longrightarrow>
      append_history env (cm_locked c) r w = (Inr (), w') \<Longrightarrow> retry_env env env' \<Longrightarrow>
      decide env' w' = Inr (c\<lparr>cm_record := None\<rparr>)"
begin

lemma retried:
  assumes full: "run_operation decide env None w = (Inr a, w1)"
    and stopped: "run_operation decide env (Some e) w = (Inl x, w')"
    and "retry_env env env'" and "records_text decide env w"
  shows "run_operation decide env' None w' = (Inr a, w1)"
proof -
  obtain c where c: "decide env w = Inr c" "commit env None c w = (Inr a, w1)"
    using full by (auto simp: run_operation_def split: sum.splits)
  have s: "commit env (Some e) c w = (Inl x, w')" using stopped c(1) by (simp add: run_operation_def)
  obtain r where r: "cm_record c = Some r"
    using s c(2) by (cases "cm_record c") (auto simp: commit_def)
  obtain w2 where w2: "append_history env (cm_locked c) r w = (Inr (), w2)"
    using c(2) r by (auto simp: commit_def split: prod.splits sum.splits)
  have "w' = w2" and full': "persist_commit env c w2 = (Inr a, w1)"
    using s c(2) by (simp_all add: commit_def r w2)
  have "encodable r" using assms(4) c(1) r by (simp add: records_text_def)
  then have "decide env' w' = Inr (c\<lparr>cm_record := None\<rparr>)"
    using resumes [OF c(1) r _ w2 assms(3)] \<open>w' = w2\<close> by simp
  moreover have "persist_commit env' (c\<lparr>cm_record := None\<rparr>) w2 = persist_commit env c w2"
    using retry_env_simps(6) [OF assms(3)] by (simp add: persist_commit_def persist_state_def cong: sum.case_cong)
  ultimately show ?thesis using full' \<open>w' = w2\<close> by (simp add: run_operation_def commit_def)
qed

end

subsection \<open>What does not depend on the history\<close>

lemma with_change_lock_retry:
  "retry_env env env' \<Longrightarrow> ws_fs w' = ws_fs w \<Longrightarrow>
     with_change_lock env w change b = Inr x \<Longrightarrow> (b = Inr x \<Longrightarrow> b' = Inr y) \<Longrightarrow>
     with_change_lock env' w' change b' = Inr y"
  by (auto simp: with_change_lock_def retry_env_simps bindE_eq_Inr split: option.splits)

lemma change_state_retry:
  "retry_env env env' \<Longrightarrow> ws_fs w' = ws_fs w \<Longrightarrow> change_state env' w' change = change_state env w change"
  by (simp add: change_state_def retry_env_simps)

lemma os_ReadFile_retry:
  assumes "retry_env env env'"
  shows "os_ReadFile env' = os_ReadFile env"
  by (intro ext) (simp only: os_ReadFile_def retry_env_simps [OF assms])

text \<open>A baseline that was clean stays clean, with the same commit.\<close>

lemma cleanGitBaseline_retry:
  assumes "retry_env env env'" and "cleanGitBaseline env [] = Inr head"
  shows "cleanGitBaseline env' allowed = Inr head"
proof -
  have dirty: "dirty_paths allowed a b = filter (\<lambda>p. p \<notin> set allowed) (unmanaged a @ unmanaged b)" for allowed a b
    by (simp add: dirty_paths_def unmanaged_def conj_commute conj_left_commute)
  have git: "git_toplevel env' = git_toplevel env" "git_head env' 0 = git_head env 0"
    "same_paths (git_tracked env) (git_tracked env')" "same_paths (git_untracked env 0) (git_untracked env' 0)"
    using assms(1) by (simp_all add: retry_env_def same_git_def)
  from assms(2) obtain top where top: "git_toplevel env = Inr top" "path_Clean top = path_Clean (own_root (ce_owner env))"
    by (auto simp: cleanGitBaseline_def Let_def git_toplevel_def [symmetric] split: sum.splits if_splits)
  with assms(2) obtain t u where "git_head env 0 = Inr head" "40 \<le> length head" "git_tracked env = Inr t"
    "git_untracked env 0 = Inr u" "unmanaged t @ unmanaged u = []"
    by (auto simp: cleanGitBaseline_def Let_def git_toplevel_def [symmetric] git_tracked_def [symmetric]
        bindE_eq_Inr dirty map_err_def split: sum.splits if_splits)
  moreover from this obtain t' u' where "git_tracked env' = Inr t'" "git_untracked env' 0 = Inr u'"
    "unmanaged t' = unmanaged t" "unmanaged u' = unmanaged u"
    using git(3,4) by (cases "git_tracked env'"; cases "git_untracked env' 0") auto
  ultimately show ?thesis using top git(1,2) assms(1)
    by (simp add: cleanGitBaseline_def Let_def git_toplevel_def [symmetric] git_tracked_def [symmetric] dirty
        retry_env_simps)
qed

end
