(* ===== verification/Recording.thy ===== *)
theory Recording
  imports StoredPayloads Resuming
begin

text \<open>
  When a record can be made and appended: any object with text in it can be stored, and a record of a
  step whose payload has no type of its own is valid as soon as its envelope is.
\<close>

subsection \<open>Canonical values\<close>

lemma members_ok_iff: "members_ok kvs \<longleftrightarrow> (\<forall>(k, v) \<in> set kvs. utf8_ok k \<and> json_ok v)"
  by (induction kvs) auto

lemma fields_distinct_iff: "fields_distinct kvs \<longleftrightarrow> (\<forall>(k, v) \<in> set kvs. keys_distinct v)"
  by (induction kvs) auto

lemma set_AList_update: "distinct (map fst m) \<Longrightarrow> set (AList.update k v m) \<subseteq> insert (k, v) (set m)"
  by (induction m) auto

lemma canon_ok:
  "json_ok v \<Longrightarrow> json_ok (json_canon v)"
  "items_ok vs \<Longrightarrow> items_ok (canon_items vs)"
  "members_ok kvs \<Longrightarrow> members_ok acc \<Longrightarrow> distinct (map fst acc) \<Longrightarrow> members_ok (canon_fields kvs acc)"
proof (induction v and vs and kvs acc rule: json_canon_canon_items_canon_fields.induct)
  case (2 kvs)
  then show ?case by (simp add: members_ok_iff)
next
  case (10 k v kvs acc)
  have "members_ok (AList.update k (json_canon v) acc)"
    using set_AList_update [OF "10.prems"(3), of k "json_canon v"] "10.prems" "10.IH"(1)
    by (fastforce simp: members_ok_iff)
  then show ?case using "10.IH"(2) "10.prems" by (simp add: distinct_update)
qed simp_all

lemma canon_distinct:
  "keys_distinct (json_canon v)"
  "items_distinct (canon_items vs)"
  "fields_distinct acc \<Longrightarrow> distinct (map fst acc) \<Longrightarrow>
     fields_distinct (canon_fields kvs acc) \<and> distinct (map fst (canon_fields kvs acc))"
proof (induction v and vs and kvs acc rule: json_canon_canon_items_canon_fields.induct)
  case (2 kvs)
  then have "distinct (map fst (sort_key fst (canon_fields kvs [])))"
    by (metis distinct_map distinct_sort fields_distinct.simps(1) list.map(1) distinct.simps(1) set_sort)
  then show ?case using 2 by (simp add: fields_distinct_iff)
next
  case (10 k v kvs acc)
  have "fields_distinct (AList.update k (json_canon v) acc)"
    using set_AList_update [OF "10.prems"(2), of k "json_canon v"] "10.prems" "10.IH"(1)
    by (fastforce simp: fields_distinct_iff)
  then show ?case using "10.IH"(2) "10.prems" by (simp add: distinct_update)
qed simp_all

subsection \<open>New records\<close>

lemma canonicalPayload_object:
  assumes "keys_distinct (JObj kvs)"
  shows "canonicalPayload (Some (JObj kvs)) = Inr (json_canon (JObj kvs))"
  using rejectDuplicateKeys_tokens [OF assms] by (simp add: canonicalPayload_def del: json_canon.simps tokens.simps)

text \<open>The record of a step is made whenever its envelope is sound and its payload, as stored, decodes to
  what repeats the envelope.\<close>

lemma transition_record_made:
  assumes "keys_distinct (JObj kvs)"
    and "kind \<in> set transition_kinds" and "trim_space change \<noteq> []" and "trim_space actor \<noteq> []"
    and "utc_time now \<noteq> None" and "trim_space now \<noteq> []"
    and typed: "\<And>r. rc_Kind r = kind \<Longrightarrow> rc_Change r = change \<Longrightarrow> rc_Actor r = actor \<Longrightarrow>
      rc_Expected r = Some revision \<Longrightarrow> rc_Resulting r = Some (revision + 1) \<Longrightarrow>
      rc_Payload r = Some (json_canon (JObj kvs)) \<Longrightarrow> validate_typed_payload r = Inr ()"
  shows "\<exists>r. transition_record kind change revision now actor (JObj kvs) = Inr r \<and> rc_ID r = sha256_hex
    (json_bytes (record_json (r\<lparr>rc_ID := [], rc_Payload := Some (json_canon (json_canon (JObj kvs)))\<rparr>)))"
proof -
  obtain kvs' where c: "json_canon (JObj kvs) = JObj kvs'" by (simp add: json_canon.simps(2))
  have d: "keys_distinct (JObj kvs')" using canon_distinct(1) [of "JObj kvs"] unfolding c .
  note can = canonicalPayload_object [OF assms(1)] canonicalPayload_object [OF d]
  define r0 where "r0 = \<lparr>rc_SchemaVersion = 1, rc_ID = [], rc_Family = FamilyHistory, rc_Kind = kind,
       rc_Change = change, rc_Expected = Some revision, rc_Resulting = Some (revision + 1),
       rc_Timestamp = now, rc_Actor = actor, rc_Payload = Some (JObj kvs')\<rparr>"
  define i where "i = sha256_hex (json_bytes (record_json (r0\<lparr>rc_Payload := Some (json_canon (JObj kvs'))\<rparr>)))"
  have "Identity r0 = Inr i" "Identity (r0\<lparr>rc_ID := i\<rparr>) = Inr i"
    by (simp_all add: Identity_def r0_def can i_def del: json_canon.simps)
  moreover have "kind \<noteq> ''created''" using assms(2) by (auto simp: transition_kinds_def)
  then have "validateFamilyKind (r0\<lparr>rc_ID := i\<rparr>) = Inr ()" using assms(2) by (simp add: validateFamilyKind_def r0_def)
  moreover have "validate_typed_payload (r0\<lparr>rc_ID := i\<rparr>) = Inr ()" by (rule typed) (simp_all add: r0_def c del: json_canon.simps)
  moreover have "trim_space i \<noteq> []" by (simp add: i_def)
  ultimately have "record_Validate (r0\<lparr>rc_ID := i\<rparr>) = Inr ()"
    using assms(3-6) by (auto simp: record_Validate_def r0_def can simp del: json_canon.simps)
  then have made: "transition_record kind change revision now actor (JObj kvs) = Inr (r0\<lparr>rc_ID := i\<rparr>)"
    using \<open>Identity r0 = Inr i\<close>
    by (simp add: transition_record_def NewRecord_def can(1) Let_def c r0_def del: json_canon.simps)
  show ?thesis
    by (rule exI [of _ "r0\<lparr>rc_ID := i\<rparr>"]) (simp add: made i_def c r0_def del: json_canon.simps)
qed

lemma transition_encodable:
  assumes "transition_record kind change revision now actor payload = Inr r" and "json_ok payload"
    and "utf8_ok kind" "utf8_ok change" "utf8_ok now" "utf8_ok actor"
  shows "encodable r"
proof -
  note f = transition_record_Inr [OF assms(1)]
  have "rc_SchemaVersion r = 1" using record_Validate_facts(1) [OF f(1)] .
  moreover have "\<exists>m. rc_ID r = sha256_hex m"
    using record_Validate_facts(2) [OF f(1), symmetric] by (auto simp: Identity_def bindE_def split: sum.splits)
  ultimately show ?thesis
    using f assms(2-6) canon_ok(1) [OF assms(2)]
    by (auto simp: encodable_def record_json_def opt_u64_def json_int_def show_int_def json_u64_def json_nat_def
        FamilyHistory_def ascii_utf8_ok byte_def simp del: utf8_ok.simps(2))
qed

text \<open>Appending to a history that stands at the expected revision, when no system call fails.\<close>

lemma append_history_succeeds:
  assumes "ce_append env = os_ok" "ce_write env = Written" "ce_parent env = Inr True"
    and "path_base (History (ce_owner env)) = ''history.jsonl''" and "ce_lock env ''.records.lock'' = None"
    and r: "record_Validate r = Inr ()" "rc_Family r = FamilyHistory"
    and rs: "Replay (ws_history w) (History (ce_owner env)) FamilyHistory = Inr (rs, [])"
    and "rc_ID r \<notin> rc_ID ` set rs"
    and "case (rc_Expected r, last_revision (rc_Change r) rs) of (Some e, Some v) \<Rightarrow> e = v | _ \<Rightarrow> True"
  shows "append_history env locked r w = (Inr (), w\<lparr>ws_history :=
    Bytes (bytes_of (ws_history w) @ json_bytes (record_json r) @ [newline])\<rparr>)"
proof -
  have "append_check (History (ce_owner env)) FamilyHistory (ws_history w) r = Inr ()"
    using assms(9,10) by (auto simp: append_check_def rs image_iff split: option.splits)
  moreover have "ws_history w \<noteq> Symlink" using rs by (auto simp: Replay_def)
  ultimately have "AppendUnderLock os_ok Written (Inr True) (History (ce_owner env)) FamilyHistory (ws_history w) r =
      (Inr (), Bytes (bytes_of (ws_history w) @ json_bytes (record_json r) @ [newline]))"
    using assms(4) r
    by (cases "ws_history w") (simp_all add: AppendUnderLock_def validatePath_def appendLocked_def write_line_def
        os_ok_def FamilyHistory_def Let_def)
  then show ?thesis using assms(1-3,5) by (simp add: append_history_def)
qed

end
