(* ===== verification/ScopeCheck.thy ===== *)
theory ScopeCheck
  imports Attempts
begin

text \<open>
  What an attempt changed and whether it was allowed to (\<open>internal/core/scope.go\<close>): the output of Git
  as changes, the paths an attempt may touch, the binding of an attempt to the history, and the check.
\<close>

record scope_result =
  sr_AttemptID :: string
  sr_BaselineHEAD :: string
  sr_ChangedPaths :: "string list"
  sr_DeclaredFiles :: "string list"
  sr_Assurance :: string
  sr_Valid :: bool

record scope_change =
  sc_Kind :: char
  sc_Path :: string
  sc_PreviousPath :: string

definition scopeFailure :: "string \<Rightarrow> string \<Rightarrow> msg \<Rightarrow> string \<Rightarrow> error" where
  "scopeFailure code path reason next' = attemptFailure code path reason next'"

subsection \<open>The changes Git reports\<close>

definition validGitScopeStatus :: "string \<Rightarrow> bool" where
  "validGitScopeStatus status = (case status of
     [] \<Rightarrow> False
   | kind # score \<Rightarrow>
       if kind \<noteq> CHR ''R'' \<and> kind \<noteq> CHR ''C'' then score = [] \<and> kind \<in> set ''AMDTUXB''
       else score \<noteq> [] \<and> list_all is_digit score)"

definition normalizeScopePath :: "string \<Rightarrow> error + string" where
  "normalizeScopePath raw =
     (if raw = [] \<or> \<not> utf8_ok raw then
        Inl (scopeFailure ''scope_path'' [] [Str ''Git path is empty or invalid UTF-8'']
          ''repair Git paths and regenerate task context'')
      else if CHR 0x5C \<in> set raw \<or> has_prefix raw ''/'' \<or> path_Clean raw \<noteq> raw \<or> raw = ''.'' \<or> raw = ''..'' \<or>
              has_prefix raw ''../'' then
        Inl (scopeFailure ''scope_path'' raw [Str ''Git path is unsafe'']
          ''repair Git paths and regenerate task context'')
      else Inr raw)"

text \<open>A status and its path, or its two paths for a rename or a copy.\<close>

fun status_fields :: "string list \<Rightarrow> error + scope_change list" where
  "status_fields [] = Inr []"
| "status_fields [status] =
     (if validGitScopeStatus status then Inl (failed ''malformed Git changed path'')
      else Inl (failed ''malformed Git change status''))"
| "status_fields (status # p # more_fields) =
     (if \<not> validGitScopeStatus status then Inl (failed ''malformed Git change status'')
      else bindE (normalizeScopePath p) (\<lambda>first.
        if hd status = CHR ''R'' \<or> hd status = CHR ''C'' then
          (case more_fields of
             [] \<Rightarrow> Inl (failed ''malformed Git rename paths'')
           | q # rest \<Rightarrow>
               bindE (normalizeScopePath q) (\<lambda>path.
               bindE (status_fields rest) (\<lambda>cs.
               Inr (\<lparr>sc_Kind = hd status, sc_Path = path, sc_PreviousPath = first\<rparr> # cs))))
        else bindE (status_fields more_fields) (\<lambda>cs.
               Inr (\<lparr>sc_Kind = hd status, sc_Path = first, sc_PreviousPath = []\<rparr> # cs))))"

definition parseGitNameStatus :: "string \<Rightarrow> error + scope_change list" where
  "parseGitNameStatus raw =
     (if raw = [] then Inr []
      else if last raw \<noteq> CHR 0x00 then Inl (failed ''malformed Git name-status output'')
      else status_fields (split_on CHR 0x00 (butlast raw)))"

fun untracked_changes :: "string list \<Rightarrow> error + scope_change list" where
  "untracked_changes [] = Inr []"
| "untracked_changes (p # ps) =
     (if p = [] then untracked_changes ps
      else bindE (normalizeScopePath p) (\<lambda>path.
        bindE (untracked_changes ps) (\<lambda>cs.
        Inr (\<lparr>sc_Kind = CHR ''A'', sc_Path = path, sc_PreviousPath = []\<rparr> # cs))))"

definition scope_key :: "scope_change \<Rightarrow> string \<times> string" where
  "scope_key c = (sc_Path c, sc_PreviousPath c)"

definition deriveScopeChanges :: "core_env \<Rightarrow> nat \<Rightarrow> string \<Rightarrow> error + scope_change list" where
  "deriveScopeChanges env at baseline =
     (let git = (\<lambda>e. scopeFailure ''scope_git'' (own_root (ce_owner env)) (error_Error e)
            ''repair Git state and regenerate task context'') in
      bindE (map_err git (ce_git env at [''diff'', ''--name-status'', ''-z'', ''--find-renames'', baseline, ''--''])) (\<lambda>raw.
      bindE (map_err git (parseGitNameStatus raw)) (\<lambda>changes.
      bindE (map_err git (git_untracked env at)) (\<lambda>untracked.
      bindE (untracked_changes (split_on CHR 0x00 untracked)) (\<lambda>added.
      Inr (sort_key scope_key (changes @ added)))))))"

subsection \<open>What an attempt may touch\<close>

definition managedScopePath :: "string \<Rightarrow> bool" where
  "managedScopePath p \<longleftrightarrow> managed_or_git p"

definition managedLockPath :: "string \<Rightarrow> bool" where
  "managedLockPath p \<longleftrightarrow> managedScopePath p \<and> has_suffix p ''.lock''"

definition itemPaths :: "scope_change \<Rightarrow> string list" where
  "itemPaths c = (if sc_PreviousPath c = [] then [sc_Path c] else [sc_PreviousPath c, sc_Path c])"

definition sortedUnique :: "string list \<Rightarrow> string list" where
  "sortedUnique ss = remdups_adj (sort ss)"

fun reject_scope_links :: "fs \<Rightarrow> string \<Rightarrow> string list \<Rightarrow> error + unit" where
  "reject_scope_links fs relative [] = Inr ()"
| "reject_scope_links fs relative (p # ps) = (case lstat fs p of
     Absent \<Rightarrow> Inr ()
   | Blocked \<Rightarrow> Inl (scopeFailure ''scope_path'' relative (error_Error (os_error ''lstat'' p))
                  ''repair the path and regenerate task context'')
   | Found NLink \<Rightarrow> Inl (scopeFailure ''scope_path'' relative [Str ''changed path traverses a symlink'']
                  ''replace the symlink and regenerate task context'')
   | Found _ \<Rightarrow> reject_scope_links fs relative ps)"

definition rejectScopeSymlink :: "fs \<Rightarrow> string \<Rightarrow> error + unit" where
  "rejectScopeSymlink fs relative = reject_scope_links fs relative (path_prefixes relative)"

definition rel_of :: "core_env \<Rightarrow> string \<Rightarrow> string" where
  "rel_of env p = (case filepath_Rel (own_root (ce_owner env)) p of Inl _ \<Rightarrow> [] | Inr r \<Rightarrow> r)"

definition validatedAttemptManagedPaths :: "core_env \<Rightarrow> workspace \<Rightarrow> string \<Rightarrow> error + string list" where
  "validatedAttemptManagedPaths env w change =
     bindE (ChangeState (ce_owner env) (ws_fs w) change) (\<lambda>p.
     bindE (evidence_of env w (scopeFailure ''scope_history'' (Evidence (ce_owner env))
              [Str ''evidence has an incomplete tail''] ''repair evidence and run status'')) (\<lambda>_.
     Inr [rel_of env (abs_path (ce_owner env) p), rel_of env (History (ce_owner env)),
       rel_of env (Evidence (ce_owner env))]))"

text \<open>One changed path of an added or modified file: passed over, changed, or offending.\<close>

datatype path_verdict = Passed | Changed | Offending

definition judge_path :: "core_env \<Rightarrow> fs \<Rightarrow> string list \<Rightarrow> string list \<Rightarrow> string \<Rightarrow> error + path_verdict" where
  "judge_path env fs files allowed p =
     (if managedLockPath p then Inr Passed
      else if managedScopePath p then Inr (if p \<in> set allowed then Passed else Offending)
      else if p \<notin> set files then Inr Offending
      else bindE (rejectScopeSymlink fs p) (\<lambda>_. bindE (rejectManagedAlias env fs p) (\<lambda>_. Inr Changed)))"

fun judge_paths :: "core_env \<Rightarrow> fs \<Rightarrow> string list \<Rightarrow> string list \<Rightarrow> string list
    \<Rightarrow> error + string list \<times> string list" where
  "judge_paths env fs files allowed [] = Inr ([], [])"
| "judge_paths env fs files allowed (p # ps) =
     bindE (judge_path env fs files allowed p) (\<lambda>v.
     bindE (judge_paths env fs files allowed ps) (\<lambda>(changed, offending).
     Inr (if v = Changed then (p # changed, offending)
          else if v = Offending then (changed, p # offending)
          else (changed, offending))))"

definition judge_change :: "core_env \<Rightarrow> fs \<Rightarrow> string list \<Rightarrow> string list \<Rightarrow> scope_change
    \<Rightarrow> error + string list \<times> string list" where
  "judge_change env fs files allowed c =
     (if sc_Kind c \<noteq> CHR ''A'' \<and> sc_Kind c \<noteq> CHR ''M'' then Inr ([], itemPaths c)
      else judge_paths env fs files allowed (itemPaths c))"

fun judge_changes :: "core_env \<Rightarrow> fs \<Rightarrow> string list \<Rightarrow> string list \<Rightarrow> scope_change list
    \<Rightarrow> error + string list \<times> string list" where
  "judge_changes env fs files allowed [] = Inr ([], [])"
| "judge_changes env fs files allowed (c # cs) =
     bindE (judge_change env fs files allowed c) (\<lambda>(changed, offending).
     bindE (judge_changes env fs files allowed cs) (\<lambda>(changed', offending').
     Inr (changed @ changed', offending @ offending')))"

text \<open>The derivation of the changes, the managed paths and the judgement, as both the check and the
  completion go through them.\<close>

definition scope_of :: "core_env \<Rightarrow> workspace \<Rightarrow> nat \<Rightarrow> string \<Rightarrow> attempt_payload
    \<Rightarrow> error + string list \<times> string list" where
  "scope_of env w at change a =
     bindE (deriveScopeChanges env at (atp_BaselineHEAD a)) (\<lambda>changes.
     bindE (validatedAttemptManagedPaths env w change) (\<lambda>allowed.
     bindE (judge_changes env (project_tree env w) (atp_DeclaredFiles a) allowed changes) (\<lambda>(changed, offending).
     Inr (sortedUnique changed, sortedUnique offending))))"

subsection \<open>The attempt in the history\<close>

definition attempt_bound :: "attempt_payload \<Rightarrow> hist_record \<Rightarrow> bool" where
  "attempt_bound a item \<longleftrightarrow> rc_Kind item = ''attempt'' \<and> rc_Change item = atp_Change a \<and> rc_Actor item = atp_Actor a \<and>
     rc_Expected item = Some (atp_RevisionBefore a) \<and> rc_Resulting item = Some (atp_RevisionAfter a) \<and>
     (case DecodeAttemptPayload (rc_Payload item) of Inl _ \<Rightarrow> False | Inr r \<Rightarrow> atp_ID r = atp_ID a)"

fun find_bound :: "state \<Rightarrow> attempt_payload \<Rightarrow> error \<Rightarrow> bool \<Rightarrow> hist_record list \<Rightarrow> error + bool" where
  "find_bound current a later found [] = Inr found"
| "find_bound current a later found (item # items) =
     (if found \<and> rc_Change item = atp_Change a then Inl later
      else if rc_ID item \<noteq> st_LastTransition current then find_bound current a later found items
      else if attempt_bound a item then find_bound current a later True items
      else Inr found)"

definition validateAttemptHistory :: "core_env \<Rightarrow> workspace \<Rightarrow> state \<Rightarrow> attempt_payload \<Rightarrow> error + unit" where
  "validateAttemptHistory env w current a =
     (let history = History (ce_owner env);
          later = scopeFailure ''scope_history'' history
            [Str ''attempt is not the latest transition for its change''] ''run status and repair attempt history'' in
      bindE (history_of env w (scopeFailure ''scope_history'' history
               [Str ''history has an incomplete tail''] ''repair history and run status'')) (\<lambda>records.
      bindE (find_bound current a later False records) (\<lambda>found.
      if found then Inr ()
      else Inl (scopeFailure ''scope_history'' history
        [Str ''attempt state is not bound to exact history''] ''run status and repair attempt history''))))"

subsection \<open>The check\<close>

definition drifted :: "string \<Rightarrow> string \<Rightarrow> string \<Rightarrow> error" where
  "drifted path reason next' = scopeFailure ''scope_drift'' path [Str reason] next'"

text \<open>The state still holds the attempt and nothing outside it has moved.\<close>

definition active_attempt :: "string \<Rightarrow> string \<Rightarrow> string \<Rightarrow> string \<Rightarrow> state \<Rightarrow> error + attempt_payload" where
  "active_attempt statePath change i attemptID current =
     (let again = ''run status and regenerate task context'' in
      bindE (map_err (\<lambda>e. scopeFailure ''scope_attempt'' statePath (error_Error e) ''regenerate task context'')
        (CurrentAttempt current i)) (\<lambda>found. case found of
        None \<Rightarrow> Inl (scopeFailure ''scope_attempt'' statePath [Str ''state has no active attempt'']
                   ''regenerate task context'')
      | Some a \<Rightarrow>
          if atp_Change a \<noteq> change \<or> atp_ID a \<noteq> attemptID \<or> atp_TaskID a \<noteq> i then
            Inl (scopeFailure ''scope_attempt'' statePath
              [Str ''active attempt identity is missing or mismatched''] ''regenerate task context'')
          else if st_Revision current \<noteq> atp_RevisionAfter a then
            Inl (drifted statePath ''state revision no longer matches attempt'' again)
          else if attemptStateGuardHash current i \<noteq> atp_StateGuardHash a then
            Inl (drifted statePath ''state outside the attempt-owned fields changed'' again)
          else if ProjectTaskActivity (task_states current) (atp_TaskID a) \<noteq> Inr TaskInProgress then
            Inl (drifted statePath ''attempt task is not active'' again)
          else Inr a))"

text \<open>The plan, the approval and the commit are still those of the attempt.\<close>

definition attempt_current :: "core_env \<Rightarrow> workspace \<Rightarrow> string \<Rightarrow> string \<Rightarrow> attempt_payload \<Rightarrow> error + unit" where
  "attempt_current env w change statePath a =
     (let ts = ch_Tasks (plan_of (ce_tree env) (ws_fs w) change); tasksPath = src_Path (tasks_Source ts);
          revise = ''revise the plan and obtain fresh human approval'';
          moved = Inl (drifted (own_root (ce_owner env)) ''Git HEAD no longer matches attempt baseline''
            ''regenerate task context at the current commit'') in
      bindE (BuildTaskGraph ts) (\<lambda>_. case canonicalTask (tasks_Tasks ts) (atp_TaskID a) of
        None \<Rightarrow> Inl (drifted tasksPath ''attempt task is no longer canonical'' revise)
      | Some t \<Rightarrow>
          bindE (validateAttemptFiles env (project_tree env w) (task_Files t)) (\<lambda>files.
          if TaskContractHash t \<noteq> atp_ContractHash a \<or> files \<noteq> atp_DeclaredFiles a then
            Inl (drifted tasksPath ''task contract no longer matches attempt'' revise)
          else bindE PlanningRegistry (\<lambda>registry.
          bindE (projectApprovalStatusLocked env w change (rg_version registry) DefaultPolicyDigest) (\<lambda>approval.
          if \<not> aps_Current approval \<or> map_option ap_AggregateHash (aps_Approval approval) \<noteq> Some (atp_ApprovalHash a) then
            Inl (drifted statePath ''human approval no longer matches attempt''
              ''rerun check, then obtain fresh human approval'')
          else case git_head env 0 of
            Inl e \<Rightarrow> moved
          | Inr head \<Rightarrow> if head \<noteq> atp_BaselineHEAD a then moved else Inr ())))))"

definition scope_outside :: "string list \<Rightarrow> error" where
  "scope_outside offending = scopeFailure ''scope_outside'' (concat (
       case offending of [] \<Rightarrow> [] | p # ps \<Rightarrow> p # map (\<lambda>q. '', '' @ q) ps))
     (Str ''advisory scope check did not contain the process; changed paths exceed exact attempt authority: '' #
       intersperse_comma offending) ''revise the plan and obtain fresh human approval''"

definition check_scope_locked :: "core_env \<Rightarrow> workspace \<Rightarrow> string \<Rightarrow> string \<Rightarrow> string \<Rightarrow> error + scope_result" where
  "check_scope_locked env w change i attemptID =
     bindE (ChangeState (ce_owner env) (ws_fs w) change) (\<lambda>p.
     let statePath = abs_path (ce_owner env) p in
     bindE (readCheckState (ce_tree env) (ws_fs w) p) (\<lambda>raw.
     bindE (map_err (\<lambda>e. scopeFailure ''scope_state'' statePath (error_Error e) ''run status and repair state'')
       (state_Decode (read_text raw) change)) (\<lambda>current.
     bindE (active_attempt statePath change i attemptID current) (\<lambda>a.
     bindE (validateAttemptHistory env w current a) (\<lambda>_.
     bindE (attempt_current env w change statePath a) (\<lambda>_.
     bindE (scope_of env w 0 change a) (\<lambda>(changed, offending).
     if offending \<noteq> [] then Inl (scope_outside offending)
     else Inr \<lparr>sr_AttemptID = atp_ID a, sr_BaselineHEAD = atp_BaselineHEAD a, sr_ChangedPaths = changed,
            sr_DeclaredFiles = atp_DeclaredFiles a, sr_Assurance = AttemptAssurance, sr_Valid = True\<rparr>)))))))"

definition CheckScope :: "core_env \<Rightarrow> workspace \<Rightarrow> string \<Rightarrow> string \<Rightarrow> string \<Rightarrow> error + scope_result" where
  "CheckScope env w change i attemptID =
     with_change_lock env w change (check_scope_locked env w change i attemptID)"

end
