(* ===== verification/Policies.thy ===== *)
theory Policies
  imports EvidenceRecs Checks
begin

text \<open>
  The built-in policies (\<open>internal/core/policy.go\<close>) and the planning rules the production policy adds
  (\<open>internal/core/gates/production.go\<close>).
\<close>

subsection \<open>Policies\<close>

record policy =
  po_Profile :: string
  po_FullDesign :: bool
  po_BidirectionalTrace :: bool
  po_AcceptanceReach :: bool
  po_RequiredChecks :: "required_check list"

record policy_transition =
  pt_From :: string
  pt_To :: string
  pt_Approver :: string
  pt_Reason :: string

definition ProfileDefault :: string where "ProfileDefault = ''default''"
definition ProfileProduction :: string where "ProfileProduction = ''production''"

definition DefaultPolicy :: policy where
  "DefaultPolicy = \<lparr>po_Profile = ProfileDefault, po_FullDesign = False, po_BidirectionalTrace = False,
     po_AcceptanceReach = False, po_RequiredChecks = []\<rparr>"

definition ProductionPolicy :: policy where
  "ProductionPolicy = \<lparr>po_Profile = ProfileProduction, po_FullDesign = True, po_BidirectionalTrace = True,
     po_AcceptanceReach = True, po_RequiredChecks =
       [\<lparr>rq_Class = ClassBuild, rq_CheckID = ''compile''\<rparr>, \<lparr>rq_Class = ClassLint, rq_CheckID = ''go-vet''\<rparr>,
        \<lparr>rq_Class = ClassReview, rq_CheckID = ''change-review''\<rparr>]\<rparr>"

definition ResolveProfile :: "string \<Rightarrow> error + policy" where
  "ResolveProfile name =
     (let profile = trim_space name in
      if profile = [] \<or> profile = ProfileDefault then Inr DefaultPolicy
      else if profile = ProfileProduction then Inr ProductionPolicy
      else Inl (refuse ''policy_unknown'' [] []
        [Str ''profile '', Quo name, Str '' is not a known policy; current default policy digest '',
         Str DefaultPolicyDigest] [Str ''select the default or production profile'']))"

definition policy_Production :: "policy \<Rightarrow> bool" where
  "policy_Production p \<longleftrightarrow> po_Profile p = ProfileProduction"

definition Rules :: "policy \<Rightarrow> string list" where
  "Rules p = sort (
     (if po_FullDesign p then [''rule=full-design''] else []) @
     (if po_BidirectionalTrace p then [''rule=bidirectional-trace''] else []) @
     (if po_AcceptanceReach p then [''rule=acceptance-reach''] else []) @
     map (\<lambda>c. ''check='' @ check_String c) (po_RequiredChecks p))"

definition policy_Validate :: "policy \<Rightarrow> error + unit" where
  "policy_Validate p =
     (if po_Profile p \<noteq> ProfileDefault \<and> po_Profile p \<noteq> ProfileProduction then
        Inl (refuse ''policy_unknown'' [] [] [Str ''profile '', Quo (po_Profile p), Str '' is not a known policy'']
          [Str ''select the default or production profile''])
      else if \<not> policy_Production p \<and> Rules p \<noteq> [] then
        Inl (refuse ''policy_invalid'' [] [] [Str ''the default profile carries no production rules'']
          [Str ''select the production profile to apply production rules''])
      else case find (\<lambda>c. \<not> check_Valid c \<or> rq_Class c = ClassTestRun) (po_RequiredChecks p) of
        Some c \<Rightarrow> Inl (refuse ''policy_invalid'' [] []
          [Str ''required check '', Quo (check_String c), Str '' is not a known production check'']
          [Str ''declare build, lint, or review checks with stable check ids''])
      | None \<Rightarrow> Inr ())"

definition policy_Digest :: "policy \<Rightarrow> string" where
  "policy_Digest p =
     (if \<not> policy_Production p then DefaultPolicyDigest
      else sha256_hex (''profile=production'' @ [CHR 0x0A] @ join_with CHR 0x0A (Rules p)))"

definition CheckPolicyTransition :: "string \<Rightarrow> policy \<Rightarrow> policy_transition option \<Rightarrow> error + unit" where
  "CheckPolicyTransition recorded current transition =
     (let target = policy_Digest current;
          next' = [Str ''record an explicit human policy transition from '', Str recorded, Str '' to '', Str target] in
      if recorded = target then Inr ()
      else case transition of
        None \<Rightarrow> Inl (refuse ''policy_drift'' [] [] [Str ''recorded work is bound to policy digest '', Str recorded,
                   Str '', current policy digest is '', Str target] next')
      | Some t \<Rightarrow>
          if pt_From t \<noteq> recorded \<or> pt_To t \<noteq> target \<or> trim_space (pt_Approver t) = [] \<or>
             trim_space (pt_Reason t) = [] then
            Inl (refuse ''policy_transition'' [] []
              [Str ''policy transition does not bind the recorded and current policy digests with an approver and reason'']
              next')
          else Inr ())"

subsection \<open>Paths in acceptance text\<close>

definition path_char :: "char \<Rightarrow> bool" where
  "path_char c \<longleftrightarrow> is_lower c \<or> is_upper c \<or> is_digit c \<or> c \<in> set ''_.-''"

definition ext_char :: "char \<Rightarrow> bool" where
  "ext_char c \<longleftrightarrow> is_lower c \<or> is_upper c \<or> is_digit c"

text \<open>The expression wants an element, one or more elements after a slash, and an extension. Its
  repetitions are greedy: the extension is taken at the last dot of the last element that has one.\<close>

definition ext_end :: "string \<Rightarrow> nat option" where
  "ext_end seg =
     (let dots = filter (\<lambda>j. seg ! j = CHR ''.'' \<and> ext_char (seg ! Suc j)) [1..<length seg - 1] in
      if dots = [] then None
      else Some (let j = last dots in Suc j + length (takeWhile ext_char (drop (Suc j) seg))))"

fun tail_match :: "nat \<Rightarrow> string \<Rightarrow> nat option" where
  "tail_match 0 s = None"
| "tail_match (Suc fuel) s = (case s of
     [] \<Rightarrow> None
   | c # r \<Rightarrow>
       let seg = takeWhile path_char r in
       if c \<noteq> CHR ''/'' \<or> seg = [] then None
       else case tail_match fuel (drop (length seg) r) of
         Some n \<Rightarrow> Some (Suc (length seg) + n)
       | None \<Rightarrow> map_option Suc (ext_end seg))"

definition path_match :: "string \<Rightarrow> nat option" where
  "path_match s =
     (let seg = takeWhile path_char s in
      if seg = [] then None
      else map_option ((+) (length seg)) (tail_match (length s) (drop (length seg) s)))"

fun find_paths :: "nat \<Rightarrow> string \<Rightarrow> string list" where
  "find_paths 0 s = []"
| "find_paths (Suc fuel) s = (case s of
     [] \<Rightarrow> []
   | _ # r \<Rightarrow> (case path_match s of
       Some n \<Rightarrow> take n s # find_paths fuel (drop n s)
     | None \<Rightarrow> find_paths fuel r))"

definition acceptance_paths :: "string \<Rightarrow> string list" where
  "acceptance_paths s = find_paths (length s) s"

subsection \<open>Production rules\<close>

definition path_Dir :: "string \<Rightarrow> string" where
  "path_Dir p = (if CHR ''/'' \<in> set p
     then path_Clean (rev (dropWhile (\<lambda>c. c \<noteq> CHR ''/'') (rev p))) else ''.'')"

definition declaredCanProduce :: "string \<Rightarrow> string list \<Rightarrow> bool" where
  "declaredCanProduce token files = list_ex (\<lambda>f. f = token \<or> path_Dir f = path_Dir token) files"

definition plain_issue :: "string \<Rightarrow> string \<Rightarrow> issue" where
  "plain_issue problem repair = \<lparr>is_Location = no_location, is_Problem = problem, is_Repair = repair\<rparr>"

text \<open>One declaration after the ones seen: the issue it raises, or that it is proper.\<close>

definition check_issue :: "string list \<Rightarrow> required_check \<Rightarrow> issue option" where
  "check_issue seen c =
     (if \<not> check_Valid c then
        Some (plain_issue (''production check '' @ check_String c @ '' has an unknown class or malformed check id'')
          ''declare build, lint, or review with one lowercase check id'')
      else if rq_Class c = ClassTestRun then
        Some (plain_issue (''production check '' @ check_String c @ '' redeclares test-run proof'')
          ''leave test-run proof to the approved task verification command'')
      else if check_String c \<in> set seen then
        Some (plain_issue (''production check '' @ check_String c @ '' is declared more than once'')
          ''declare each production check exactly once'')
      else None)"

fun scan_checks :: "string list \<Rightarrow> bool \<Rightarrow> required_check list \<Rightarrow> issue list \<times> bool" where
  "scan_checks seen runnable [] = ([], runnable)"
| "scan_checks seen runnable (c # cs) = (case check_issue seen c of
     Some i \<Rightarrow> (case scan_checks seen runnable cs of (issues, r) \<Rightarrow> (i # issues, r))
   | None \<Rightarrow> scan_checks (check_String c # seen) (runnable \<or> Runnable (rq_Class c)) cs)"

definition productionCheckIssues :: "required_check list \<Rightarrow> issue list" where
  "productionCheckIssues required =
     (if required = [] then [plain_issue ''production policy declares no required proof''
        ''declare at least one runnable production check'']
      else case scan_checks [] False required of (issues, runnable) \<Rightarrow>
        if \<not> runnable \<and> issues = [] then [plain_issue ''production policy declares no runnable proof''
          ''declare at least one build or lint check beside review'']
        else issues)"

definition referenceKey :: "string \<Rightarrow> string \<Rightarrow> string" where
  "referenceKey capability requirement = capability @ [CHR 0x00] @ NormalizeRequirementIdentity requirement"

definition requirement_name :: "requirement_trace \<Rightarrow> string" where
  "requirement_name r = rt_Capability r @ ''/Requirement: '' @ rt_Requirement r"

definition productionDesignIssues :: "change \<Rightarrow> issue list" where
  "productionDesignIssues c =
     (if \<not> src_Present (des_Source (ch_Design c)) then []
      else let cited = map (\<lambda>r. referenceKey (ref_Capability r) (ref_Requirement r)) (des_References (ch_Design c)) in
        map (\<lambda>r. \<lparr>is_Location = rt_Location r, is_Problem = ''design does not cite '' @ requirement_name r,
               is_Repair = ''cite '' @ requirement_name r @ '' in design.md''\<rparr>)
          (filter (\<lambda>r. referenceKey (rt_Capability r) (rt_Requirement r) \<notin> set cited)
            (tr_Requirements (ch_Trace c))))"

text \<open>The number of files of the last valid task with the id, as later rows overwrite the map.\<close>

definition declared_files :: "task list \<Rightarrow> string \<Rightarrow> nat" where
  "declared_files ts i = (case find_last (\<lambda>t. task_Valid t \<and> task_ID t = i) ts of
     None \<Rightarrow> 0 | Some t \<Rightarrow> length (task_Files t))"

definition productionTraceIssues :: "change \<Rightarrow> issue list" where
  "productionTraceIssues c =
     (let ts = tasks_Tasks (ch_Tasks c) in
      map (\<lambda>t. \<lparr>is_Location = task_Location t, is_Problem = ''task '' @ task_ID t @ '' cites no requirement'',
             is_Repair = ''cite one <capability>/Requirement: <name> in the task refs column''\<rparr>)
        (filter (\<lambda>t. task_Valid t \<and> task_References t = []) ts) @
      map (\<lambda>r. \<lparr>is_Location = rt_Location r,
             is_Problem = requirement_name r @ '' has no implementing task with declared files'',
             is_Repair = ''declare the files one implementing task writes''\<rparr>)
        (filter (\<lambda>r. rt_Tasks r \<noteq> [] \<and> \<not> list_ex (\<lambda>i. 0 < declared_files ts i) (rt_Tasks r))
          (tr_Requirements (ch_Trace c))))"

definition unreachable_paths :: "task \<Rightarrow> string list" where
  "unreachable_paths t =
     sort (remdups (filter (\<lambda>p. \<not> declaredCanProduce p (task_Files t)) (acceptance_paths (task_Acceptance t))))"

definition productionAcceptanceIssues :: "change \<Rightarrow> issue list" where
  "productionAcceptanceIssues c = concat (map (\<lambda>t. map (\<lambda>p. \<lparr>is_Location = task_Location t,
       is_Problem = ''task '' @ task_ID t @ '' acceptance names '' @ p @ '', which no declared file can produce'',
       is_Repair = ''declare '' @ p @ '' in the task files column or state acceptance within declared scope''\<rparr>)
     (unreachable_paths t)) (filter task_Valid (tasks_Tasks (ch_Tasks c))))"

definition production_findings :: "string \<Rightarrow> issue list \<Rightarrow> finding list" where
  "production_findings i issues = map (\<lambda>x. \<lparr>fi_Gate = i, fi_Severity = ''error'', fi_Location = is_Location x,
     fi_Problem = is_Problem x, fi_Repair = is_Repair x\<rparr>) issues"

definition gates_Production :: "snapshot \<Rightarrow> required_check list \<Rightarrow> finding list" where
  "gates_Production s required =
     (if trim_space (sn_PolicyDigest s) = [] then
        production_findings ''production_policy'' [plain_issue ''production policy digest is unavailable''
          ''resolve the production policy before evaluating production gates'']
      else production_findings ''production_checks'' (productionCheckIssues required) @
        production_findings ''production_design'' (productionDesignIssues (sn_Plan s)) @
        production_findings ''production_trace'' (productionTraceIssues (sn_Plan s)) @
        production_findings ''production_acceptance'' (productionAcceptanceIssues (sn_Plan s)))"

end
