(* ===== verification/Reopening.thy ===== *)
theory Reopening
  imports Attempts
begin

text \<open>
  Reopening an approved change (\<open>internal/core/reopen.go\<close>): the stage goes back to planning and what
  was bound to the approval, the task states, the attempts and the completions, is dropped.
\<close>

definition completionExtensionKey :: string where "completionExtensionKey = ''completions''"

record reopen_intent =
  roi_ExpectedRevision :: u64
  roi_Actor :: string
  roi_Reason :: string

record reopen_result =
  ror_Payload :: reopened_payload
  ror_HistoryID :: string

definition reopenFailure :: "string \<Rightarrow> string \<Rightarrow> msg \<Rightarrow> string \<Rightarrow> error" where
  "reopenFailure code path reason next' = refuse code [] path reason [Str next']"

definition reopenApprovalMatchesState :: "state \<Rightarrow> approval_record \<Rightarrow> bool" where
  "reopenApprovalMatchesState current a = (case st_Approvals current of
     None \<Rightarrow> False
   | Some vs \<Rightarrow> vs \<noteq> [] \<and> (case approval_of_json True (last vs) of
       None \<Rightarrow> False
     | Some persisted \<Rightarrow> isOk (ApprovalRecord_Validate persisted) \<and> ap_ID persisted = ap_ID a))"

text \<open>The record the state was last moved by binds the attempt.\<close>

definition binds_attempt :: "state \<Rightarrow> attempt_payload \<Rightarrow> hist_record \<Rightarrow> bool" where
  "binds_attempt current a item \<longleftrightarrow>
     rc_ID item = st_LastTransition current \<and> rc_Kind item = ''attempt'' \<and>
     (case DecodeAttemptPayload (rc_Payload item) of Inl _ \<Rightarrow> False | Inr r \<Rightarrow> atp_ID r = atp_ID a)"

definition reopenAttemptID :: "hist_record list \<Rightarrow> state \<Rightarrow> error + string" where
  "reopenAttemptID records current =
     (let ambiguous = Inl (reopenFailure ''reopen_state'' []
            [Str ''active attempt state is malformed or ambiguous''] ''repair state and run status'') in
      case bound_attempts current of
        Inl e \<Rightarrow> ambiguous
      | Inr [] \<Rightarrow> Inr []
      | Inr [(i, a)] \<Rightarrow>
          if list_ex (binds_attempt current a) records then Inr (atp_ID a)
          else Inl (reopenFailure ''reopen_history'' []
            [Str ''active attempt is not bound to exact history''] ''repair history and run status'')
      | Inr _ \<Rightarrow> ambiguous)"

definition recoverableReopen :: "hist_record list \<Rightarrow> string \<Rightarrow> u64 \<Rightarrow> error + (reopened_payload \<times> string) option" where
  "recoverableReopen records change revision =
     (case pending_record ''reopened'' records change revision of
        None \<Rightarrow> Inr None
      | Some item \<Rightarrow> (case DecodeReopenedPayload (rc_Payload item) of
          Inl e \<Rightarrow> Inl (reopenFailure ''reopen_history'' [] (error_Error e) ''repair history and run status'')
        | Inr r \<Rightarrow> Inr (Some (r, rc_ID item))))"

definition persistReopenedState :: "state \<Rightarrow> string \<Rightarrow> state" where
  "persistReopenedState current history = advance history (current\<lparr>st_Stage := LifecyclePlanning, st_Tasks := Some [],
     st_Extensions := AList.delete completionExtensionKey
       (AList.delete attemptExtensionKey (st_Extensions current))\<rparr>)"

definition reopen_state :: "core_env \<Rightarrow> workspace \<Rightarrow> string \<Rightarrow> reopen_intent \<Rightarrow> error + string \<times> state" where
  "reopen_state env w change q =
     bindE (ChangeState (ce_owner env) (ws_fs w) change) (\<lambda>p.
     bindE (os_ReadFile env (ws_fs w) p) (\<lambda>raw.
     bindE (state_Decode (read_text raw) change) (\<lambda>current.
     let statePath = abs_path (ce_owner env) p in
     if st_Revision current \<noteq> roi_ExpectedRevision q then
       Inl (stale_refusal statePath (roi_ExpectedRevision q) (st_Revision current))
     else if st_Stage current = LifecycleApproved then Inr (p, current)
     else if st_Stage current = LifecyclePlanning then
       Inl (reopenFailure ''reopen_lifecycle'' statePath [Str ''change is already planning'']
         ''continue authoring and run check'')
     else Inl (reopenFailure ''reopen_lifecycle'' statePath
       [Str ''cannot reopen lifecycle '', Quo (st_Stage current)] ''plan any further behavior as a new change''))))"

definition reopened_of :: "string \<Rightarrow> string \<Rightarrow> string \<Rightarrow> state \<Rightarrow> approval_record \<Rightarrow> string \<Rightarrow> string
    \<Rightarrow> error + reopened_payload" where
  "reopened_of change actor reason current a attempt head =
     NewReopenedPayload \<lparr>rop_SchemaVersion = 0, rop_Change = change, rop_Actor = actor, rop_Reason = reason,
       rop_LifecycleFrom = LifecycleApproved, rop_LifecycleTo = LifecyclePlanning, rop_ApprovalID = ap_ID a,
       rop_AttemptID = attempt, rop_ObservedHEAD = head, rop_RevisionBefore = st_Revision current,
       rop_RevisionAfter = st_Revision current + 1\<rparr>"

definition reopen_commit :: "core_env \<Rightarrow> string \<Rightarrow> hist_record option \<Rightarrow> state \<Rightarrow> reopened_payload \<Rightarrow> string
    \<Rightarrow> reopen_result commit" where
  "reopen_commit env p r current payload i =
     \<lparr>cm_path = p, cm_record = r, cm_locked = False,
      cm_hook = (\<lambda>e. reopenFailure ''reopen_interrupted'' (History (ce_owner env)) (error_Error e)
        ''retry reopen to recover the pending transition''),
      cm_state = Inr (persistReopenedState current i),
      cm_result = \<lparr>ror_Payload = payload, ror_HistoryID = i\<rparr>\<rparr>"

definition resolve_reopen :: "core_env \<Rightarrow> string \<Rightarrow> string \<Rightarrow> state \<Rightarrow> hist_record list
    \<Rightarrow> approval_record \<Rightarrow> string \<Rightarrow> reopened_payload \<Rightarrow> (reopened_payload \<times> string) option
    \<Rightarrow> error + reopen_result commit" where
  "resolve_reopen env change p current records a approvalID payload recovered =
     (let history = History (ce_owner env) in case recovered of
        Some (prior, i) \<Rightarrow>
          if prior \<noteq> payload then
            Inl (reopenFailure ''reopen_recovery'' history
              [Str ''pending reopen differs from current request or state'']
              ''run status to recover the pending transition'')
          else Inr (reopen_commit env p None current prior i)
      | None \<Rightarrow>
          if \<not> approvalActivityTailCurrent records change approvalID a current then
            Inl (reopenFailure ''reopen_history'' history
              [Str ''approved state is not bound to exact history''] ''repair history and run status'')
          else bindE (transition_record ''reopened'' change (st_Revision current) (ce_now env)
                 (rop_Actor payload) (reopened_payload_json payload)) (\<lambda>r.
            Inr (reopen_commit env p (Some r) current payload (rc_ID r))))"

definition reopen_locked :: "core_env \<Rightarrow> workspace \<Rightarrow> string \<Rightarrow> reopen_intent \<Rightarrow> string \<Rightarrow> string
    \<Rightarrow> error + reopen_result commit" where
  "reopen_locked env w change q actor reason =
     (let history = History (ce_owner env);
          unbound = Inl (reopenFailure ''reopen_history'' history
            [Str ''approved state is not bound to exact approval history''] ''repair history and run status'') in
      bindE (reopen_state env w change q) (\<lambda>(p, current).
      bindE (history_of env w (reopenFailure ''reopen_history'' history
               [Str ''history has an incomplete tail''] ''repair history and run status'')) (\<lambda>records.
      bindE (latestApproval records change) (\<lambda>found. case found of
        None \<Rightarrow> unbound
      | Some (a, approvalID) \<Rightarrow>
          if \<not> reopenApprovalMatchesState current a then unbound
          else bindE (reopenAttemptID records current) (\<lambda>attempt.
          bindE (cleanGitBaseline env []) (\<lambda>head.
          bindE (reopened_of change actor reason current a attempt head) (\<lambda>payload.
          bindE (recoverableReopen records change (st_Revision current)) (\<lambda>recovered.
          resolve_reopen env change p current records a approvalID payload recovered))))))))"

definition decide_reopen :: "string \<Rightarrow> reopen_intent \<Rightarrow> core_env \<Rightarrow> workspace
    \<Rightarrow> error + reopen_result commit" where
  "decide_reopen change q env w =
     (let actor = trim_space (roi_Actor q); reason = trim_space (roi_Reason q) in
      if actor = [] \<or> reason = [] then
        Inl (reopenFailure ''reopen_intent'' [] [Str ''actor and reason are required'']
          ''supply a non-empty reason and retry'')
      else with_change_lock env w change (reopen_locked env w change q actor reason))"

definition Reopen :: "string \<Rightarrow> reopen_intent \<Rightarrow> core_env \<Rightarrow> error option
    \<Rightarrow> workspace \<Rightarrow> (error + reopen_result) \<times> workspace" where
  "Reopen change q = run_operation (decide_reopen change q)"

end
