(* ===== verification/Completion.thy ===== *)
theory Completion
  imports ScopeCheck Policies Reopening
begin

text \<open>
  Completing a task (\<open>internal/core/complete.go\<close>): the evidence it rests on, the guards in the order of
  the code, those checked again at the commit boundary, the production guards, the recovery of an
  interrupted completion and the next state. The ledger lock is held throughout.
\<close>

record complete_request =
  coq_TaskID :: string
  coq_ExpectedRevision :: u64
  coq_actor :: string
  coq_Profile :: string
  coq_PolicyTransition :: "policy_transition option"
  coq_BeforeHistory :: "error option"

record completion =
  cpl_SchemaVersion :: int
  cpl_Change :: string
  cpl_TaskID :: string
  cpl_AttemptID :: string
  cpl_EvidenceID :: string
  cpl_RevisionBefore :: u64
  cpl_RevisionAfter :: u64
  cpl_HistoryID :: string

record completion_binding =
  cb_AttemptID :: string
  cb_EvidenceID :: string
  cb_HistoryID :: string

definition completionFailure :: "string \<Rightarrow> string \<Rightarrow> msg \<Rightarrow> string \<Rightarrow> error" where
  "completionFailure code path reason next' = refuse code [] path reason [Str next']"

subsection \<open>The bindings in the state\<close>

definition completionDigest :: "string \<Rightarrow> bool" where
  "completionDigest v \<longleftrightarrow> length v = 64 \<and> lower_hex v"

definition binding_json :: "completion_binding \<Rightarrow> json" where
  "binding_json b = JObj [(''attempt'', JStr (cb_AttemptID b)), (''evidence'', JStr (cb_EvidenceID b)),
     (''history'', JStr (cb_HistoryID b))]"

definition binding_of_json :: "json \<Rightarrow> completion_binding option" where
  "binding_of_json v = do {
     m \<leftarrow> decode_object True [''attempt'', ''evidence'', ''history''] v;
     a \<leftarrow> field_string m ''attempt'';
     e \<leftarrow> field_string m ''evidence'';
     h \<leftarrow> field_string m ''history'';
     Some \<lparr>cb_AttemptID = a, cb_EvidenceID = e, cb_HistoryID = h\<rparr> }"

fun binding_entries :: "(string \<times> json) list \<Rightarrow> completion_binding gomap option" where
  "binding_entries [] = Some []"
| "binding_entries ((k, v) # kvs) =
     (case binding_of_json v of None \<Rightarrow> None | Some b \<Rightarrow> map_option (\<lambda>m. (k, b) # m) (binding_entries kvs))"

definition binding_ok :: "string \<times> completion_binding \<Rightarrow> bool" where
  "binding_ok e \<longleftrightarrow> fst e \<noteq> [] \<and> completionDigest (cb_AttemptID (snd e)) \<and>
     completionDigest (cb_EvidenceID (snd e)) \<and> completionDigest (cb_HistoryID (snd e))"

definition decodeCompletionBindings :: "json option \<Rightarrow> error + completion_binding gomap" where
  "decodeCompletionBindings raw = (case raw of
     None \<Rightarrow> Inr []
   | Some v \<Rightarrow> (case decode_map [] v of
       None \<Rightarrow> Inl json_error
     | Some m \<Rightarrow> (case binding_entries (case m of None \<Rightarrow> [] | Some m \<Rightarrow> m) of
         None \<Rightarrow> Inl json_error
       | Some bs \<Rightarrow> if list_all binding_ok bs then Inr bs
           else Inl (failed ''completion binding is malformed''))))"

definition bindings_json :: "completion_binding gomap \<Rightarrow> json" where
  "bindings_json m = json_of_map (map (\<lambda>(i, b). (i, binding_json b)) m)"

text \<open>The extensions are nil when the state has none, and an assignment to them panics.\<close>

definition persistCompletionState :: "string \<Rightarrow> state \<Rightarrow> completion_payload \<Rightarrow> string \<Rightarrow> error + state" where
  "persistCompletionState statePath current c history =
     bindE (decodeCompletionBindings (map_of (st_Extensions current) completionExtensionKey)) (\<lambda>bindings.
     if map_of bindings (cmp_TaskID c) \<noteq> None then
       Inl (completionFailure ''complete_replay'' statePath [Str ''task already has completion proof''] ''run status'')
     else
       let b = \<lparr>cb_AttemptID = cmp_AttemptID c, cb_EvidenceID = cmp_EvidenceID c, cb_HistoryID = history\<rparr>;
           raw = bindings_json (AList.update (cmp_TaskID c) b bindings) in
       bindE (bound_attempts current) (\<lambda>attempts.
       let rest = AList.delete (cmp_TaskID c) attempts in
       if st_Extensions current = [] then Inl (Panicked [Str ''assignment to entry in nil map''])
       else
         let ext = AList.update completionExtensionKey raw (st_Extensions current);
             ext' = (if rest = [] then AList.delete attemptExtensionKey ext
               else AList.update attemptExtensionKey (attempts_json rest) ext) in
         bindE (set_task (cmp_TaskID c) (JStr ''completed'') (current\<lparr>st_Extensions := ext'\<rparr>)) (\<lambda>s.
         Inr (advance history s))))"

definition completionResult :: "completion_payload \<Rightarrow> string \<Rightarrow> completion" where
  "completionResult c history =
     \<lparr>cpl_SchemaVersion = 1, cpl_Change = cmp_Change c, cpl_TaskID = cmp_TaskID c,
      cpl_AttemptID = cmp_AttemptID c, cpl_EvidenceID = cmp_EvidenceID c,
      cpl_RevisionBefore = cmp_RevisionBefore c, cpl_RevisionAfter = cmp_RevisionAfter c,
      cpl_HistoryID = history\<rparr>"

subsection \<open>Evidence\<close>

text \<open>The last matching test run of the ledger; every record of it has to be well formed.\<close>

fun latest_match :: "error \<Rightarrow> subject \<Rightarrow> (hist_record \<times> test_run) option \<Rightarrow> hist_record list
    \<Rightarrow> error + (hist_record \<times> test_run) option" where
  "latest_match bad s best [] = Inr best"
| "latest_match bad s best (r # rs) = (case ClassOf (rc_Payload r) of
     Inl e \<Rightarrow> Inl bad
   | Inr class \<Rightarrow>
       if class \<noteq> ClassTestRun then latest_match bad s best rs
       else case evidence_Decode (rc_Payload r) of
         Inl e \<Rightarrow> Inl bad
       | Inr v \<Rightarrow>
           if tru_Change v \<noteq> rc_Change r \<or> tru_EndedAt v \<noteq> rc_Timestamp r then Inl bad
           else latest_match bad s (if TestRun_Matches v s then Some (r, v) else best) rs)"

definition latestCompletionEvidence :: "core_env \<Rightarrow> workspace \<Rightarrow> subject
    \<Rightarrow> error + (hist_record \<times> test_run) option" where
  "latestCompletionEvidence env w s =
     (let path = Evidence (ce_owner env) in
      bindE (evidence_of env w (completionFailure ''complete_evidence'' path
               [Str ''evidence has an incomplete tail''] ''repair evidence and run verify'')) (\<lambda>items.
      bindE (latest_match (completionFailure ''complete_evidence'' path
               [Str ''evidence contains a malformed or unknown record''] ''repair evidence and run verify'')
               s None items) (\<lambda>found. case found of
        None \<Rightarrow> Inr None
      | Some (r, v) \<Rightarrow> Inr (if TestRun_Applicable (clock env) v s then Some (r, v) else None))))"

definition evidenceAlreadyConsumed :: "hist_record list \<Rightarrow> string \<Rightarrow> string \<Rightarrow> bool" where
  "evidenceAlreadyConsumed records evidenceID pendingID = list_ex (\<lambda>r.
     rc_Kind r = ''completion'' \<and> rc_ID r \<noteq> pendingID \<and>
     (case DecodeCompletionPayload (rc_Payload r) of Inl _ \<Rightarrow> False | Inr c \<Rightarrow> cmp_EvidenceID c = evidenceID)) records"

definition subject_of_run :: "test_run \<Rightarrow> subject" where
  "subject_of_run v = \<lparr>sb_Change = tru_Change v, sb_TaskID = tru_TaskID v, sb_AttemptID = tru_AttemptID v,
     sb_HEAD = tru_HEAD v, sb_TaskHash = tru_TaskHash v, sb_CommandHash = tru_CommandHash v,
     sb_ApprovalHash = tru_ApprovalHash v, sb_StateRevision = tru_StateRevision v\<rparr>"

definition proves_pending :: "int \<Rightarrow> completion_payload \<Rightarrow> hist_record \<Rightarrow> bool" where
  "proves_pending now c r \<longleftrightarrow> ClassOf (rc_Payload r) = Inr ClassTestRun \<and>
     (case evidence_Decode (rc_Payload r) of
        Inl _ \<Rightarrow> False
      | Inr v \<Rightarrow> rc_Change r = cmp_Change c \<and> tru_Change v = cmp_Change c \<and> tru_TaskID v = cmp_TaskID c \<and>
          tru_AttemptID v = cmp_AttemptID c \<and> rc_Timestamp r = tru_EndedAt v \<and>
          TestRun_Applicable now v (subject_of_run v))"

definition validatePendingCompletionEvidence :: "core_env \<Rightarrow> workspace \<Rightarrow> completion_payload \<Rightarrow> error + unit" where
  "validatePendingCompletionEvidence env w c =
     (let path = Evidence (ce_owner env);
          unbound = Inl (completionFailure ''complete_recovery'' path
            [Str ''pending completion is not bound to exact passing evidence''] ''repair evidence and run status'') in
      bindE (evidence_of env w (completionFailure ''complete_recovery'' path
               [Str ''pending completion evidence has an incomplete tail''] ''repair evidence and run status'')) (\<lambda>items.
      case find (\<lambda>r. rc_ID r = cmp_EvidenceID c) items of
        None \<Rightarrow> unbound
      | Some r \<Rightarrow> if proves_pending (clock env) c r then Inr () else unbound))"

definition recoverableCompletion :: "hist_record list \<Rightarrow> string \<Rightarrow> u64
    \<Rightarrow> error + (completion_payload \<times> string) option" where
  "recoverableCompletion records change revision =
     (case pending_record ''completion'' records change revision of
        None \<Rightarrow> Inr None
      | Some item \<Rightarrow> (case DecodeCompletionPayload (rc_Payload item) of
          Inl e \<Rightarrow> Inl (completionFailure ''complete_history'' [] (error_Error e) ''repair history and run status'')
        | Inr c \<Rightarrow> Inr (Some (c, rc_ID item))))"

subsection \<open>Guards\<close>

definition validateCompletionScope :: "core_env \<Rightarrow> workspace \<Rightarrow> nat \<Rightarrow> string \<Rightarrow> attempt_payload \<Rightarrow> error + unit" where
  "validateCompletionScope env w at change a =
     bindE (scope_of env w at change a) (\<lambda>(_, offending).
     if offending \<noteq> [] then
       Inl (completionFailure ''scope_outside'' (concat (case offending of [] \<Rightarrow> [] | p # ps \<Rightarrow> p # map (\<lambda>q. '', '' @ q) ps))
         (Str ''changed paths exceed exact attempt authority: '' # intersperse_comma offending)
         ''revise the plan and obtain fresh human approval'')
     else Inr ())"

definition check_head :: "core_env \<Rightarrow> nat \<Rightarrow> attempt_payload \<Rightarrow> string \<Rightarrow> error + unit" where
  "check_head env at a reason =
     (if git_head env at = Inr (atp_BaselineHEAD a) then Inr ()
      else Inl (completionFailure ''complete_head'' (own_root (ce_owner env)) [Str reason]
        ''regenerate task context at current HEAD''))"

text \<open>The task is canonical and in progress, and what it depends on is completed.\<close>

definition check_task :: "string \<Rightarrow> tasks \<Rightarrow> string \<Rightarrow> state \<Rightarrow> error + task" where
  "check_task statePath ts i current =
     bindE (BuildTaskGraph ts) (\<lambda>graph. case canonicalTask (tasks_Tasks ts) i of
       None \<Rightarrow> Inl (completionFailure ''complete_task'' (src_Path (tasks_Source ts))
                  [Str ''completion task is not canonical''] ''run status and choose the active task'')
     | Some t \<Rightarrow>
         bindE (ProjectTaskActivities (AuthoredOrder graph) (task_states current)) (\<lambda>rows.
         let acts = index_activities Map.empty rows in
         if acts i \<noteq> Some TaskInProgress then
           Inl (completionFailure ''complete_activity'' statePath [Str ''task is not in progress'']
             ''run status and choose the active task'')
         else case find (\<lambda>d. acts d \<noteq> Some TaskCompleted) (Dependencies graph i) of
           Some d \<Rightarrow> Inl (completionFailure ''dependency_incomplete'' statePath
                       [Str ''dependency '', Quo d, Str '' is incomplete''] ''complete the dependency first'')
         | None \<Rightarrow> Inr t))"

text \<open>The attempt of the task, which the state, the contract and the history still match.\<close>

definition check_bound :: "core_env \<Rightarrow> workspace \<Rightarrow> string \<Rightarrow> string \<Rightarrow> task \<Rightarrow> state \<Rightarrow> error + attempt_payload" where
  "check_bound env w change statePath t current =
     (let i = task_ID t;
          missing = Inl (completionFailure ''complete_attempt'' statePath
            [Str ''current task attempt is missing or malformed''] ''regenerate task context'') in
      case CurrentAttempt current i of
        Inl e \<Rightarrow> missing
      | Inr None \<Rightarrow> missing
      | Inr (Some a) \<Rightarrow>
          if atp_Change a \<noteq> change \<or> atp_TaskID a \<noteq> i \<or> atp_RevisionAfter a \<noteq> st_Revision current \<or>
             attemptStateGuardHash current i \<noteq> atp_StateGuardHash a \<or> TaskContractHash t \<noteq> atp_ContractHash a then
            Inl (completionFailure ''complete_attempt'' statePath
              [Str ''task attempt no longer matches canonical state''] ''regenerate task context'')
          else bindE (validateAttemptHistory env w current a) (\<lambda>_. Inr a))"

definition check_approved :: "core_env \<Rightarrow> workspace \<Rightarrow> string \<Rightarrow> string \<Rightarrow> change \<Rightarrow> attempt_payload
    \<Rightarrow> error + registry" where
  "check_approved env w change statePath authored a =
     bindE PlanningRegistry (\<lambda>registry.
     bindE (projectApprovalStatusForPlanLocked env w change (rg_version registry) DefaultPolicyDigest authored) (\<lambda>approval.
     if \<not> aps_Current approval \<or> map_option ap_AggregateHash (aps_Approval approval) \<noteq> Some (atp_ApprovalHash a) then
       Inl (completionFailure ''complete_approval'' statePath [Str ''human approval is stale'']
         ''rerun check and obtain fresh human approval'')
     else Inr registry))"

definition completion_subject :: "string \<Rightarrow> task \<Rightarrow> attempt_payload \<Rightarrow> string \<Rightarrow> state \<Rightarrow> subject" where
  "completion_subject change t a commandHash current =
     \<lparr>sb_Change = change, sb_TaskID = task_ID t, sb_AttemptID = atp_ID a, sb_HEAD = atp_BaselineHEAD a,
      sb_TaskHash = TaskContractHash t, sb_CommandHash = commandHash, sb_ApprovalHash = atp_ApprovalHash a,
      sb_StateRevision = st_Revision current\<rparr>"

definition check_evidence :: "core_env \<Rightarrow> workspace \<Rightarrow> hist_record list \<Rightarrow> subject \<Rightarrow> error + hist_record" where
  "check_evidence env w records s =
     bindE (latestCompletionEvidence env w s) (\<lambda>found. case found of
       None \<Rightarrow> Inl (completionFailure ''complete_evidence'' (Evidence (ce_owner env))
                  [Str ''no current passing test-run evidence exists''] ''run verify'')
     | Some (r, v) \<Rightarrow>
         if evidenceAlreadyConsumed records (rc_ID r) [] then
           Inl (completionFailure ''complete_replay'' (History (ce_owner env))
             [Str ''evidence was already consumed''] ''run verify'')
         else Inr r)"

subsection \<open>The production guards\<close>

definition production_refusal :: "core_env \<Rightarrow> msg \<Rightarrow> string \<Rightarrow> error" where
  "production_refusal env reason next' =
     completionFailure ''production_evidence'' (Evidence (ce_owner env)) reason next'"

definition policy_note :: "string \<Rightarrow> string \<Rightarrow> msg" where
  "policy_note i policyDigest = [Str '' (task '', Str i, Str '', policy digest '', Str policyDigest, Str '')'']"

definition review_current :: "int \<Rightarrow> production_subject \<Rightarrow> hist_record \<Rightarrow> bool" where
  "review_current now want r \<longleftrightarrow> ClassOf (rc_Payload r) = Inr ClassReview \<and>
     (case DecodeProduction (rc_Payload r) of
        Inl _ \<Rightarrow> False
      | Inr v \<Rightarrow> pro_EvidenceSet v = ps_EvidenceSet want \<and> Production_Applicable now v want)"

definition validateReviewEvidenceSet :: "core_env \<Rightarrow> policy \<Rightarrow> string \<Rightarrow> subject \<Rightarrow> hist_record list \<Rightarrow> error + unit" where
  "validateReviewEvidenceSet env policy i s items =
     (let policyDigest = policy_Digest policy in
      case EvidenceSetHash items (sb_Change s) of
        Inl e \<Rightarrow> Inl (production_refusal env (error_Error e @ policy_note i policyDigest)
                   ''repair evidence and run verify'')
      | Inr evidenceSet \<Rightarrow>
          (case find (\<lambda>c. rq_Class c = ClassReview \<and>
                  \<not> list_ex (review_current (clock env) (production_want s c policyDigest evidenceSet)) items)
                (po_RequiredChecks policy) of
             None \<Rightarrow> Inr ()
           | Some c \<Rightarrow> Inl (production_refusal env
               [Str ''review proof '', Str (check_String c), Str '' for task '', Str i,
                Str '' is not bound to current evidence set '', Str evidenceSet, Str '' at policy digest '',
                Str policyDigest]
               (''record a fresh review for check '' @ check_String c @ '' on this task''))))"

definition validateProductionCompletion :: "core_env \<Rightarrow> workspace \<Rightarrow> policy \<Rightarrow> complete_request \<Rightarrow> snapshot
    \<Rightarrow> subject \<Rightarrow> error + unit" where
  "validateProductionCompletion env w policy q snap s =
     (let policyDigest = policy_Digest policy; i = coq_TaskID q in
      case gates_Production snap (po_RequiredChecks policy) of
        f # _ \<Rightarrow> Inl (completionFailure ''production_plan'' (loc_Path (fi_Location f))
          ([Str (fi_Gate f), Str '': '', Str (fi_Problem f)] @ policy_note i policyDigest) (fi_Repair f))
      | [] \<Rightarrow>
          bindE (evidence_of env w (production_refusal env [Str ''evidence has an incomplete tail'']
                   ''repair evidence and run verify'')) (\<lambda>items.
          case MissingProduction (clock env) items (po_RequiredChecks policy) s policyDigest of
            Inl e \<Rightarrow> Inl (production_refusal env (error_Error e @ policy_note i policyDigest)
                       ''run verify for the required production check'')
          | Inr ([], prior) \<Rightarrow> validateReviewEvidenceSet env policy i s items
          | Inr (c # cs, prior) \<Rightarrow>
              bindE (if prior = [] then Inr () else CheckPolicyTransition prior policy (coq_PolicyTransition q)) (\<lambda>_.
              Inl (production_refusal env
                [Str ''required '', Str (check_String c), Str '' proof for task '', Str i,
                 Str '' is missing at policy digest '', Str policyDigest]
                (''run verify for check '' @ check_String c @ '' on this task'')))))"

subsection \<open>The operation\<close>

definition completion_hook :: "core_env \<Rightarrow> error \<Rightarrow> error" where
  "completion_hook env e = completionFailure ''complete_interrupted'' (History (ce_owner env)) (error_Error e)
     ''retry complete at the same revision''"

definition completion_commit :: "core_env \<Rightarrow> string \<Rightarrow> hist_record option \<Rightarrow> state \<Rightarrow> completion_payload \<Rightarrow> string
    \<Rightarrow> completion commit" where
  "completion_commit env p r current c i =
     \<lparr>cm_path = p, cm_record = r, cm_locked = True, cm_hook = completion_hook env,
      cm_state = persistCompletionState (abs_path (ce_owner env) p) current c i,
      cm_result = completionResult c i\<rparr>"

definition recover_completion :: "core_env \<Rightarrow> workspace \<Rightarrow> complete_request \<Rightarrow> string \<Rightarrow> state
    \<Rightarrow> completion_payload \<Rightarrow> string \<Rightarrow> error + completion commit" where
  "recover_completion env w q p current c i =
     (if cmp_TaskID c \<noteq> coq_TaskID q then
        Inl (completionFailure ''complete_recovery'' (History (ce_owner env))
          [Str ''pending completion differs from the requested task'']
          ''run status to recover the pending completion'')
      else bindE (validatePendingCompletionEvidence env w c) (\<lambda>_.
        Inr (completion_commit env p None current c i)))"

text \<open>All guards of a first attempt at the completion: what the task is, the attempt and the evidence.\<close>

definition check_completion :: "core_env \<Rightarrow> workspace \<Rightarrow> string \<Rightarrow> complete_request \<Rightarrow> policy \<Rightarrow> string \<Rightarrow> state
    \<Rightarrow> hist_record list \<Rightarrow> error + attempt_payload \<times> hist_record" where
  "check_completion env w change q policy statePath current records =
     (let authored = plan_of (ce_tree env) (ws_fs w) change; ts = ch_Tasks authored;
          bad_command = (\<lambda>e. completionFailure ''complete_command'' (src_Path (tasks_Source ts)) (error_Error e)
            ''repair the plan and obtain fresh human approval'') in
      bindE (check_task statePath ts (coq_TaskID q) current) (\<lambda>t.
      bindE (check_bound env w change statePath t current) (\<lambda>a.
      bindE (check_approved env w change statePath authored a) (\<lambda>registry.
      bindE (check_head env 0 a ''Git HEAD no longer matches the attempt'') (\<lambda>_.
      bindE (validateCompletionScope env w 0 change a) (\<lambda>_.
      bindE (map_err bad_command (bindE (ParseCommand (task_Verify t)) CommandDigest)) (\<lambda>commandHash.
      let s = completion_subject change t a commandHash current in
      bindE (check_evidence env w records s) (\<lambda>r.
      bindE (if policy_Production policy
             then validateProductionCompletion env w policy q
               \<lparr>sn_Plan = authored, sn_Lifecycle = st_Stage current, sn_StateRevision = st_Revision current,
                sn_Transition = PlanningToApproved, sn_RegistryVersion = rg_version registry,
                sn_PolicyDigest = policy_Digest policy\<rparr> s
             else Inr ()) (\<lambda>_.
      Inr (a, r))))))))))"

definition new_completion :: "string \<Rightarrow> string \<Rightarrow> state \<Rightarrow> attempt_payload \<Rightarrow> hist_record \<Rightarrow> error + completion_payload" where
  "new_completion change actor current a r =
     NewCompletionPayload \<lparr>cmp_SchemaVersion = 0, cmp_Change = change, cmp_TaskID = atp_TaskID a,
       cmp_AttemptID = atp_ID a, cmp_EvidenceID = rc_ID r, cmp_Actor = actor, cmp_ActivityFrom = TaskInProgress,
       cmp_ActivityTo = TaskCompleted, cmp_RevisionBefore = st_Revision current,
       cmp_RevisionAfter = st_Revision current + 1\<rparr>"

text \<open>The record, and the guards on what other programs may have changed meanwhile.\<close>

definition finish_completion :: "core_env \<Rightarrow> workspace \<Rightarrow> string \<Rightarrow> complete_request \<Rightarrow> string \<Rightarrow> string \<Rightarrow> state
    \<Rightarrow> attempt_payload \<Rightarrow> hist_record \<Rightarrow> error + completion commit" where
  "finish_completion env w change q actor p current a r =
     bindE (new_completion change actor current a r) (\<lambda>c.
     bindE (transition_record ''completion'' change (st_Revision current) (ce_now env) actor
       (completion_payload_json c)) (\<lambda>h.
     case coq_BeforeHistory q of
       Some e \<Rightarrow> Inl (completion_hook env e)
     | None \<Rightarrow>
         bindE (check_head env 1 a ''Git HEAD changed before completion commit'') (\<lambda>_.
         bindE (validateCompletionScope env w 1 change a) (\<lambda>_.
         Inr (completion_commit env p (Some h) current c (rc_ID h))))))"

definition complete_locked :: "core_env \<Rightarrow> workspace \<Rightarrow> string \<Rightarrow> complete_request \<Rightarrow> policy \<Rightarrow> string
    \<Rightarrow> error + completion commit" where
  "complete_locked env w change q policy actor =
     bindE (ChangeState (ce_owner env) (ws_fs w) change) (\<lambda>p.
     let statePath = abs_path (ce_owner env) p in
     bindE (readCheckState (ce_tree env) (ws_fs w) p) (\<lambda>raw.
     bindE (map_err (\<lambda>e. completionFailure ''complete_state'' statePath (error_Error e) ''run status and repair state'')
       (state_Decode (read_text raw) change)) (\<lambda>current.
     if st_Revision current \<noteq> coq_ExpectedRevision q then
       Inl (stale_refusal statePath (coq_ExpectedRevision q) (st_Revision current))
     else with_ledger_lock env (
       bindE (history_of env w (completionFailure ''complete_history'' (History (ce_owner env))
                [Str ''history has an incomplete tail''] ''repair history and run status'')) (\<lambda>records.
       bindE (recoverableCompletion records change (st_Revision current)) (\<lambda>recovered. case recovered of
         Some (c, i) \<Rightarrow> recover_completion env w q p current c i
       | None \<Rightarrow>
           bindE (check_completion env w change q policy statePath current records) (\<lambda>(a, r).
           finish_completion env w change q actor p current a r)))))))"

definition decide_completion :: "string \<Rightarrow> complete_request \<Rightarrow> core_env \<Rightarrow> workspace \<Rightarrow> error + completion commit" where
  "decide_completion change q env w =
     (let actor = trim_space (coq_actor q) in
      if actor = [] then
        Inl (completionFailure ''complete_unauthorized'' [] [Str ''completion actor is required'']
          ''retry through an authorized complete operation'')
      else bindE (ResolveProfile (coq_Profile q)) (\<lambda>policy.
      bindE (policy_Validate policy) (\<lambda>_.
      with_change_lock env w change (complete_locked env w change q policy actor))))"

definition CompleteTask :: "string \<Rightarrow> complete_request \<Rightarrow> core_env \<Rightarrow> error option
    \<Rightarrow> workspace \<Rightarrow> (error + completion) \<times> workspace" where
  "CompleteTask change q = run_operation (decide_completion change q)"

end
