(* ===== verification/Approving.thy ===== *)
theory Approving
  imports Attempts
begin

text \<open>
  Human approval (\<open>internal/core/approve.go\<close>, and the identity of the covered artifacts in
  \<open>approval.go\<close>): who approves, what is covered as it lies in the tree, and the operation.
\<close>

subsection \<open>The approver\<close>

definition ApprovalRouteHumanTerminal :: string where "ApprovalRouteHumanTerminal = ''human_terminal''"
definition ApprovalRouteAgentCapable :: string where "ApprovalRouteAgentCapable = ''agent_capable''"

definition AuthorizeAgentCapableRoute :: error where
  "AuthorizeAgentCapableRoute = refuse ''human_approval_required'' [] []
     [Str ''approve is human-only and cannot use an agent-capable route'']
     [Str ''hand off approval to a human terminal'']"

record approve_intent =
  aqi_GitEmail :: string
  aqi_EnvironmentApprover :: string
  aqi_ClaimedApprover :: string
  aqi_Reason :: string
  aqi_Interactive :: bool
  aqi_Confirmed :: bool
  aqi_Route :: string

definition approve_refusal :: "string \<Rightarrow> string \<Rightarrow> string \<Rightarrow> error" where
  "approve_refusal code reason next' = refuse code [] [] [Str reason] [Str next']"

definition ResolveApprovalIdentity :: "string \<Rightarrow> string \<Rightarrow> error + string" where
  "ResolveApprovalIdentity gitEmail environment =
     (let email = trim_space gitEmail; setting = trim_space environment in
      if email = [] \<and> setting = [] then
        Inl (approve_refusal ''approval_identity'' ''trusted identity is missing''
          ''set git user.email or SPECD_APPROVER'')
      else if email \<noteq> [] \<and> setting \<noteq> [] \<and> email \<noteq> setting then
        Inl (approve_refusal ''approval_identity'' ''trusted identity sources disagree''
          ''make git user.email and SPECD_APPROVER agree'')
      else if setting \<noteq> [] then Inr setting else Inr email)"

definition validateApproveIntent :: "approve_intent \<Rightarrow> error + string" where
  "validateApproveIntent q =
     (let differs = ''claimed approver differs from trusted identity'' in
      if aqi_Route q \<noteq> ApprovalRouteHumanTerminal then Inl AuthorizeAgentCapableRoute
      else bindE (ResolveApprovalIdentity (aqi_GitEmail q) (aqi_EnvironmentApprover q)) (\<lambda>identity.
      if trim_space (aqi_Reason q) = [] then
        Inl (approve_refusal ''approval_intent'' ''approval reason is missing'' ''supply a non-empty reason'')
      else if aqi_Interactive q then
        (if \<not> aqi_Confirmed q then
           Inl (approve_refusal ''approval_intent'' ''approval was not confirmed''
             ''confirm approval in the human terminal'')
         else if aqi_ClaimedApprover q \<noteq> [] \<and> aqi_ClaimedApprover q \<noteq> identity then
           Inl (approve_refusal ''approval_identity'' differs ''remove or correct the approver claim'')
         else Inr identity)
      else if trim_space (aqi_ClaimedApprover q) = [] then
        Inl (approve_refusal ''approval_intent'' ''non-interactive approver is missing''
          ''supply --approver matching trusted identity'')
      else if aqi_ClaimedApprover q \<noteq> identity then
        Inl (approve_refusal ''approval_identity'' differs ''supply --approver matching trusted identity'')
      else Inr identity))"

subsection \<open>The covered artifacts as they lie in the tree\<close>

definition approvalArtifactError :: "string \<Rightarrow> error \<Rightarrow> error" where
  "approvalArtifactError path e =
     refuse ''approval_artifact'' [] path (error_Error e) [Str ''repair covered artifacts and rerun check'']"

fun approval_components :: "owner \<Rightarrow> fs \<Rightarrow> string list \<Rightarrow> error + unit" where
  "approval_components o' fs [] = Inr ()"
| "approval_components o' fs (p # ps) = (case lstat fs p of
     Absent \<Rightarrow> Inl (path_error ''lstat'' (abs_path o' p) ''no such file or directory'')
   | Blocked \<Rightarrow> Inl (os_error ''lstat'' (abs_path o' p))
   | Found NLink \<Rightarrow> Inl (failed ''covered path contains a symlink'')
   | Found _ \<Rightarrow> approval_components o' fs ps)"

definition readApprovalArtifact :: "owner \<Rightarrow> fs \<Rightarrow> string \<Rightarrow> string \<Rightarrow> error + string" where
  "readApprovalArtifact o' fs dir relative =
     bindE (approval_components o' fs (map (path_join dir) (path_prefixes relative))) (\<lambda>_.
     case lstat fs (path_join dir relative) of
       Found (NFile raw) \<Rightarrow> Inr raw
     | _ \<Rightarrow> Inl (failed ''covered artifact must be a regular file''))"

definition in_project :: "string \<Rightarrow> string" where
  "in_project p = ''.specd/'' @ p"

fun read_covered :: "core_env \<Rightarrow> fs \<Rightarrow> string \<Rightarrow> string list \<Rightarrow> string list \<Rightarrow> error + approval_artifact list" where
  "read_covered env fs dir seen [] = Inr []"
| "read_covered env fs dir seen (r # rs) =
     (if \<not> safeApprovalPath r \<or> r \<in> set seen then
        Inl (approvalArtifactError r (failed ''covered path is unsafe or aliases another path''))
      else bindE (map_err (approvalArtifactError r) (readApprovalArtifact (ce_owner env) fs dir r)) (\<lambda>raw.
        if list_ex (\<lambda>s. ce_same env (in_project (path_join dir s)) (in_project (path_join dir r))) seen then
          Inl (approvalArtifactError r (failed ''covered path aliases another artifact''))
        else bindE (read_covered env fs dir (r # seen) rs) (\<lambda>as. Inr (artifact_of r raw # as))))"

definition ComputeApprovalIdentity :: "core_env \<Rightarrow> fs \<Rightarrow> string \<Rightarrow> string list \<Rightarrow> error + approval_identity" where
  "ComputeApprovalIdentity env fs dir covered =
     (let root = abs_path (ce_owner env) dir in case lstat fs dir of
        Found NDir \<Rightarrow>
          if covered = [] then Inl (approvalArtifactError root (failed ''covered artifacts are required''))
          else bindE (read_covered env fs dir [] (sort covered)) (\<lambda>as. Inr (identity_of as))
      | _ \<Rightarrow> Inl (approvalArtifactError root (failed ''change root must be a safe directory'')))"

definition delta_covered :: "fs \<Rightarrow> string \<Rightarrow> string \<Rightarrow> (string \<times> bool)" where
  "delta_covered fs specs entry =
     (let d = path_join specs entry in
      (path_join (path_join ''specs'' entry) ''spec.md'',
       lstat fs d = Found NDir \<and> dir_names fs d = [''spec.md''] \<and>
       (case lstat fs (path_join d ''spec.md'') of Found (NFile _) \<Rightarrow> True | _ \<Rightarrow> False)))"

definition currentApprovalCoveredPaths :: "core_env \<Rightarrow> fs \<Rightarrow> string \<Rightarrow> error + string list" where
  "currentApprovalCoveredPaths env fs dir =
     (let specs = path_join dir ''specs'' in case lstat fs specs of
        Found NDir \<Rightarrow>
          let entries = map (delta_covered fs specs) (dir_names fs specs) in
          if list_all snd entries then
            Inr (sort ([''proposal.md'', ''design.md'', ''tasks.md''] @ map fst entries))
          else Inl (failed ''delta artifact set is unsafe'')
      | _ \<Rightarrow> Inl (os_error ''open'' (abs_path (ce_owner env) specs)))"

subsection \<open>The operation\<close>

text \<open>The pending approval. This decoding accepts unknown members.\<close>

definition recoverableApproval :: "hist_record list \<Rightarrow> string \<Rightarrow> u64 \<Rightarrow> (approval_record \<times> string) option" where
  "recoverableApproval records change revision =
     (case pending_record ''approved'' records change revision of
        None \<Rightarrow> None
      | Some item \<Rightarrow> (case decode_approval False item of
          Inl e \<Rightarrow> None
        | Inr a \<Rightarrow> if ap_Change a \<noteq> change \<or> ap_RevisionBefore a \<noteq> revision then None
            else Some (a, rc_ID item)))"

definition persistApprovalState :: "state \<Rightarrow> approval_record \<Rightarrow> string \<Rightarrow> state" where
  "persistApprovalState current a history = advance history (current\<lparr>st_Stage := LifecycleApproved,
     st_Approvals := Some ((case st_Approvals current of None \<Rightarrow> [] | Some vs \<Rightarrow> vs) @ [approval_json a])\<rparr>)"

definition new_approval :: "core_env \<Rightarrow> string \<Rightarrow> string \<Rightarrow> string \<Rightarrow> approval_identity \<Rightarrow> registry \<Rightarrow> state
    \<Rightarrow> approval_record" where
  "new_approval env change approver reason identity registry current =
     \<lparr>ap_SchemaVersion = 1,
      ap_ID = ''approval:'' @ take 16 (ai_AggregateHash identity) @ '':'' @ show_nat (unat (st_Revision current)),
      ap_Change = change, ap_Gate = ''planning_to_approved'', ap_LifecycleFrom = LifecyclePlanning,
      ap_LifecycleTo = LifecycleApproved, ap_Approver = approver, ap_ActorClass = ''human'',
      ap_Artifacts = ai_Artifacts identity, ap_AggregateHash = ai_AggregateHash identity,
      ap_RegistryVersion = rg_version registry, ap_PolicyDigest = DefaultPolicyDigest,
      ap_RevisionBefore = st_Revision current, ap_RevisionAfter = st_Revision current + 1,
      ap_Timestamp = ce_now env, ap_Reason = trim_space reason, ap_Assurance = ''advisory''\<rparr>"

text \<open>The checks up to the ledgers: the change is planning, its gates pass, its state is the one checked,
  and what the plan covers is what lies in the tree, with the same contents.\<close>

definition check_approve :: "core_env \<Rightarrow> workspace \<Rightarrow> string
    \<Rightarrow> error + string \<times> state \<times> registry \<times> approval_identity" where
  "check_approve env w change =
     (let o' = ce_owner env; fs = ws_fs w; root = own_root o';
          drift = (\<lambda>reason. Inl (refuse ''approval_drift'' root [] [Str reason]
            [Str ''rerun check, then approve fresh content''])) in
      bindE (assembleCheckLocked (ce_tree env) fs change DefaultPolicyDigest) (\<lambda>snapshot.
      if sn_Lifecycle (ck_snapshot snapshot) \<noteq> LifecyclePlanning then
        Inl (refuse ''lifecycle_transition'' root [] [Str ''approval requires planning lifecycle'']
          [Str ''continue with the next legal lifecycle action''])
      else if \<not> cr_Success (EvaluateCheck snapshot) then
        Inl (refuse ''approval_gates'' root [] [Str ''planning gates failed''] [Str ''repair findings and rerun check''])
      else bindE (owner_Change o' fs change) (\<lambda>dir.
      let changeRoot = abs_path o' dir; authored = sn_Plan (ck_snapshot snapshot) in
      bindE (approvalCoveredPaths changeRoot authored) (\<lambda>covered.
      bindE (approvalIdentityFromPlan changeRoot authored) (\<lambda>identity.
      bindE (ChangeState o' fs change) (\<lambda>p.
      bindE (os_ReadFile env fs p) (\<lambda>raw.
      bindE (state_Decode (read_text raw) change) (\<lambda>current.
      if st_Revision current \<noteq> sn_StateRevision (ck_snapshot snapshot) \<or> st_Stage current \<noteq> LifecyclePlanning then
        Inl (refuse ''stale_revision'' root (abs_path o' p)
          [Str ''approval snapshot no longer matches planning state'']
          [Str ''rerun check, then obtain fresh human approval''])
      else if currentApprovalCoveredPaths env fs dir \<noteq> Inr (sort covered) then
        drift ''covered artifact set changed during approval''
      else case ComputeApprovalIdentity env fs dir covered of
        Inl e \<Rightarrow> drift ''covered artifacts changed during approval''
      | Inr again \<Rightarrow>
          if ai_AggregateHash again \<noteq> ai_AggregateHash identity then
            drift ''covered artifacts changed during approval''
          else Inr (p, current, ck_registry snapshot, identity)))))))))"

definition resolve_approval :: "core_env \<Rightarrow> string \<Rightarrow> string \<Rightarrow> string \<Rightarrow> string \<Rightarrow> state \<Rightarrow> registry
    \<Rightarrow> approval_identity \<Rightarrow> hist_record list \<Rightarrow> error + approval_record commit" where
  "resolve_approval env change approver reason p current registry identity records =
     (let root = own_root (ce_owner env); history = History (ce_owner env) in
      case recoverableApproval records change (st_Revision current) of
        Some (prior, i) \<Rightarrow>
          if ap_AggregateHash prior \<noteq> ai_AggregateHash identity \<or>
             ap_RegistryVersion prior \<noteq> rg_version registry \<or> ap_PolicyDigest prior \<noteq> DefaultPolicyDigest then
            Inl (refuse ''approval_recovery'' root history
              [Str ''interrupted approval no longer matches current inputs'']
              [Str ''rerun check, then approve fresh content''])
          else if ap_Approver prior \<noteq> approver then
            Inl (refuse ''approval_recovery'' root history
              [Str ''interrupted approval belongs to another approver '', Quo (ap_Approver prior)]
              [Str ''have '', Str (ap_Approver prior), Str '' complete the interrupted approval''])
          else Inr \<lparr>cm_path = p, cm_record = None, cm_locked = False, cm_hook = (\<lambda>e. e),
                 cm_state = Inr (persistApprovalState current prior i), cm_result = prior\<rparr>
      | None \<Rightarrow>
          let a = new_approval env change approver reason identity registry current in
          bindE (ApprovalRecord_Validate a) (\<lambda>_.
          bindE (transition_record ''approved'' change (st_Revision current) (ce_now env) approver
            (approval_json a)) (\<lambda>r.
          Inr \<lparr>cm_path = p, cm_record = Some r, cm_locked = False, cm_hook = (\<lambda>e. e),
            cm_state = Inr (persistApprovalState current a (rc_ID r)), cm_result = a\<rparr>)))"

definition approve_locked :: "core_env \<Rightarrow> workspace \<Rightarrow> string \<Rightarrow> approve_intent \<Rightarrow> string
    \<Rightarrow> error + approval_record commit" where
  "approve_locked env w change q approver =
     bindE (check_approve env w change) (\<lambda>(p, current, registry, identity).
     bindE (history_of env w (refuse ''approval_history'' (own_root (ce_owner env)) (History (ce_owner env))
              [Str ''history has an incomplete tail''] [Str ''restore history, rerun check, then approve''])) (\<lambda>records.
     resolve_approval env change approver (aqi_Reason q) p current registry identity records))"

definition decide_approve :: "string \<Rightarrow> approve_intent \<Rightarrow> core_env \<Rightarrow> workspace
    \<Rightarrow> error + approval_record commit" where
  "decide_approve change q env w =
     bindE (validateApproveIntent q) (\<lambda>approver.
     with_change_lock env w change (approve_locked env w change q approver))"

definition Approve :: "string \<Rightarrow> approve_intent \<Rightarrow> core_env \<Rightarrow> error option
    \<Rightarrow> workspace \<Rightarrow> (error + approval_record) \<times> workspace" where
  "Approve change q = run_operation (decide_approve change q)"

end
