(* ===== verification/Resumption.thy ===== *)
theory Resumption
  imports Resuming Completion Approving
begin

text \<open>
  Every operation on a change is resumable: the record an interrupted run left in the history is
  found again, decodes to what the run had decided, and leads to the same next state.
\<close>

subsection \<open>Approval\<close>

lemma read_covered_retry:
  assumes "retry_env env env'"
  shows "read_covered env' = read_covered env"
proof (intro ext)
  fix fs dir seen rs
  show "read_covered env' fs dir seen rs = read_covered env fs dir seen rs"
    by (induction rs arbitrary: seen) (simp_all only: read_covered.simps retry_env_simps [OF assms])
qed

lemma check_approve_retry:
  assumes "retry_env env env'" and "ws_fs w' = ws_fs w"
  shows "check_approve env' w' change = check_approve env w change"
  by (simp only: check_approve_def ComputeApprovalIdentity_def currentApprovalCoveredPaths_def
      read_covered_retry [OF assms(1)] os_ReadFile_retry [OF assms(1)] retry_env_simps [OF assms(1)] assms(2))

lemma decode_approval_stored:
  assumes "transition_record ''approved'' change (ap_RevisionBefore a) (ap_Timestamp a) (ap_Approver a)
      (approval_json a) = Inr r"
    and "ApprovalRecord_Validate a = Inr ()" and "ap_Change a = change"
  shows "decode_approval strict r = Inr a"
proof -
  note r = transition_record_Inr [OF assms(1)]
  have "ap_SchemaVersion a = 1" "ap_RevisionAfter a = ap_RevisionBefore a + 1"
    using assms(2) by (auto simp: ApprovalRecord_Validate_def split: if_splits)
  then show ?thesis using r assms(2,3)
    by (simp add: decode_approval_def approval_stored validateApprovalEnvelope_def)
qed

lemma new_approval_simps [simp]:
  "ap_RevisionBefore (new_approval env change approver reason identity registry current) = st_Revision current"
  "ap_Timestamp (new_approval env change approver reason identity registry current) = ce_now env"
  "ap_Approver (new_approval env change approver reason identity registry current) = approver"
  "ap_Change (new_approval env change approver reason identity registry current) = change"
  "ap_AggregateHash (new_approval env change approver reason identity registry current) = ai_AggregateHash identity"
  "ap_RegistryVersion (new_approval env change approver reason identity registry current) = rg_version registry"
  "ap_PolicyDigest (new_approval env change approver reason identity registry current) = DefaultPolicyDigest"
  by (simp_all add: new_approval_def)

lemma resolve_approval_resumes:
  assumes c: "resolve_approval env change approver reason p current registry identity rs = Inr c"
    and r: "cm_record c = Some r" and "retry_env env env'"
  shows "resolve_approval env' change approver reason p current registry identity (rs @ [r]) =
    Inr (c\<lparr>cm_record := None\<rparr>)"
proof -
  define a where "a = new_approval env change approver reason identity registry current"
  have none: "recoverableApproval rs change (st_Revision current) = None"
    using c r by (auto simp: resolve_approval_def Let_def split: option.splits if_splits)
  obtain v: "ApprovalRecord_Validate a = Inr ()"
    and t: "transition_record ''approved'' change (st_Revision current) (ce_now env) approver (approval_json a) = Inr r"
    and ce: "c = \<lparr>cm_path = p, cm_record = Some r, cm_locked = False, cm_hook = (\<lambda>e. e),
      cm_state = Inr (persistApprovalState current a (rc_ID r)), cm_result = a\<rparr>"
    using c r by (auto simp: resolve_approval_def Let_def none bindE_eq_Inr a_def)
  note f = transition_record_Inr [OF t]
  have "decode_approval False r = Inr a"
    by (rule decode_approval_stored [OF _ v]) (use t in \<open>simp_all add: a_def\<close>)
  then have "recoverableApproval (rs @ [r]) change (st_Revision current) = Some (a, rc_ID r)"
    using f by (simp add: recoverableApproval_def pending_record_snoc a_def)
  then show ?thesis by (simp add: resolve_approval_def Let_def a_def ce)
qed

interpretation approving: resumable "decide_approve change q"
proof
  fix env w c r w' env'
  assume d: "decide_approve change q env w = Inr c" and r: "cm_record c = Some r" and e: "encodable r"
    and a: "append_history env (cm_locked c) r w = (Inr (), w')" and retry: "retry_env env env'"
  obtain rs where rs: "Replay (ws_history w) (History (ce_owner env)) FamilyHistory = Inr (rs, [])"
    "Replay (ws_history w') (History (ce_owner env)) FamilyHistory = Inr (rs @ [r], [])"
    "ws_fs w' = ws_fs w"
    by (rule append_history_Inr [OF a e])
  obtain approver where q: "validateApproveIntent q = Inr approver"
    and body: "with_change_lock env w change (approve_locked env w change q approver) = Inr c"
    using d by (auto simp: decide_approve_def bindE_eq_Inr)
  have "approve_locked env' w' change q approver = Inr (c\<lparr>cm_record := None\<rparr>)"
    if locked: "approve_locked env w change q approver = Inr c"
  proof -
    obtain p current registry identity where k: "check_approve env w change = Inr (p, current, registry, identity)"
      and res: "resolve_approval env change approver (aqi_Reason q) p current registry identity rs = Inr c"
      using locked history_of_complete [OF rs(1)] by (auto simp: approve_locked_def bindE_eq_Inr)
    show ?thesis
      using resolve_approval_resumes [OF res r retry] k check_approve_retry [OF retry rs(3)] rs(2)
        history_of_complete [of w' env' "rs @ [r]"] retry_env_simps(1) [OF retry]
      by (simp add: approve_locked_def)
  qed
  then show "decide_approve change q env' w' = Inr (c\<lparr>cm_record := None\<rparr>)"
    by (simp add: decide_approve_def q with_change_lock_retry [OF retry rs(3) body])
qed

subsection \<open>The approval after a record of task activity\<close>

definition takes_on :: "string \<Rightarrow> state \<Rightarrow> hist_record \<Rightarrow> bool" where
  "takes_on change current r \<longleftrightarrow> rc_Change r = change \<and> rc_Kind r \<noteq> ''friction'' \<and> rc_Kind r \<noteq> ''approved'' \<and>
     activity_record r \<and> rc_Expected r = Some (st_Revision current) \<and>
     rc_Resulting r = Some (st_Revision current + 1)"

lemma activity_tail_snoc:
  assumes "takes_on change current r"
  shows "activity_tail change current v i (rs @ [r]) = Some (st_Revision current, st_LastTransition current) \<longleftrightarrow>
    activity_tail change current v i rs = Some (st_Revision current, st_LastTransition current)"
proof (induction rs arbitrary: v i)
  case Nil
  have "st_Revision current + 1 \<noteq> st_Revision current" by simp
  then show ?case using assms by (auto simp: takes_on_def)
qed simp

lemma tail_current_snoc:
  assumes "takes_on change current r" and "i \<in> rc_ID ` set rs"
  shows "approvalActivityTailCurrent (rs @ [r]) change i a current = approvalActivityTailCurrent rs change i a current"
proof -
  obtain x xs where x: "dropWhile (\<lambda>r. rc_ID r \<noteq> i) rs = x # xs"
    using assms(2) by (cases "dropWhile (\<lambda>r. rc_ID r \<noteq> i) rs") (auto simp: dropWhile_eq_Nil_conv)
  have "dropWhile (\<lambda>r. rc_ID r \<noteq> i) (rs @ [r]) = x # xs @ [r]"
    using assms(2) x by (auto simp: dropWhile_append1)
  then show ?thesis using x activity_tail_snoc [OF assms(1)] by (simp add: approvalActivityTailCurrent_def)
qed

lemma latestApproval_snoc:
  "rc_Kind r \<noteq> ''approved'' \<Longrightarrow> latestApproval (rs @ [r]) change = latestApproval rs change"
  by (simp add: latestApproval_def find_last_snoc)

lemma latestApproval_in: "latestApproval rs change = Inr (Some (a, i)) \<Longrightarrow> i \<in> rc_ID ` set rs"
  by (auto simp: latestApproval_def bindE_eq_Inr dest!: find_last_Some split: option.splits)

lemma change_state_load:
  "change_state env w change = Inr (p, s) \<Longrightarrow> load_state (ce_tree env) (ws_fs w) change = Inr (p, s)"
  by (auto simp: change_state_def load_state_def bindE_eq_Inr)

text \<open>The projection is the same with a pending record of task activity as without it.\<close>

lemma projectApproval_pending:
  assumes retry: "retry_env env env'" and "ws_fs w' = ws_fs w"
    and rs: "Replay (ws_history w) (History (ce_owner env)) FamilyHistory = Inr (rs, [])"
      "Replay (ws_history w') (History (ce_owner env)) FamilyHistory = Inr (rs @ [r], [])"
    and s: "change_state env w change = Inr (p, current)" and r: "takes_on change current r"
  shows "projectApprovalStatusLocked env' w' change v d = projectApprovalStatusLocked env w change v d"
proof -
  note e = retry_env_simps [OF retry]
  have kind: "rc_Kind r \<noteq> ''approved''" using r by (simp add: takes_on_def)
  show ?thesis
  proof (cases "latestApproval rs change")
    case (Inl x)
    then show ?thesis using change_state_load [OF s]
      by (simp add: projectApprovalStatusLocked_def projectApprovalStatusForPlanLocked_def e assms(2) rs
          latestApproval_snoc [OF kind])
  next
    case (Inr found)
    have "approvalActivityTailCurrent (rs @ [r]) change i a current = approvalActivityTailCurrent rs change i a current"
      if f: "found = Some (a, i)" for a i
      by (rule tail_current_snoc [OF r latestApproval_in [OF Inr [unfolded f]]])
    moreover have "latestApproval (rs @ [r]) change = Inr found"
      using Inr latestApproval_snoc [OF kind] by simp
    ultimately show ?thesis using Inr
      unfolding projectApprovalStatusLocked_def projectApprovalStatusForPlanLocked_def e assms(2)
        change_state_load [OF s] rs bindE_simps case_prod_conv list.case
      by (cases found) (simp_all add: split_paired_all Let_def)
  qed
qed

subsection \<open>Trees that differ in the contents of files\<close>

fun same_kind :: "node \<Rightarrow> node \<Rightarrow> bool" where
  "same_kind (NFile a) (NFile b) = True"
| "same_kind m n = (m = n)"

definition same_shape :: "fs \<Rightarrow> fs \<Rightarrow> bool" where
  "same_shape fs fs' \<longleftrightarrow> list_all2 (\<lambda>(p, m) (q, n). p = q \<and> same_kind m n) fs fs'"

lemma same_kind_refl [simp]: "same_kind n n"
  by (cases n) simp_all

lemma same_shape_refl: "same_shape fs fs"
  unfolding same_shape_def by (rule list_all2_refl) auto

lemma same_shape_map_of: "same_shape fs fs' \<Longrightarrow> rel_option same_kind (map_of fs p) (map_of fs' p)"
  unfolding same_shape_def by (induction rule: list_all2_induct) auto

lemma same_shape_files:
  "same_shape fs fs' \<Longrightarrow>
     (case map_of fs p of Some (NFile _) \<Rightarrow> True | _ \<Rightarrow> False) = (case map_of fs' p of Some (NFile _) \<Rightarrow> True | _ \<Rightarrow> False)"
  by (drule same_shape_map_of [of _ _ p]) (auto simp: rel_option_iff split: option.splits node.splits)

fun stat_kind :: "stat \<Rightarrow> stat" where
  "stat_kind (Found (NFile _)) = Found (NFile [])"
| "stat_kind s = s"

lemma same_shape_lstat: "same_shape fs fs' \<Longrightarrow> stat_kind (lstat fs' p) = stat_kind (lstat fs p)"
proof -
  assume s: "same_shape fs fs'"
  have "same_kind m n \<Longrightarrow> stat_kind (Found n) = stat_kind (Found m)" for m n
    by (cases m; cases n) simp_all
  then show ?thesis using same_shape_map_of [OF s, of p] same_shape_files [OF s]
    by (cases "map_of fs p"; cases "map_of fs' p") (simp_all add: lstat_def)
qed

lemma stat_kind_cases:
  "stat_kind s' = stat_kind s \<Longrightarrow> s' = s \<or> (\<exists>a b. s' = Found (NFile a) \<and> s = Found (NFile b))"
  by (cases s' rule: stat_kind.cases; cases s rule: stat_kind.cases) auto

lemma same_shape_names: "same_shape fs fs' \<Longrightarrow> map fst fs' = map fst fs"
  unfolding same_shape_def by (induction rule: list_all2_induct) auto

lemma validateAttemptFiles_shape:
  assumes retry: "retry_env env env'" and s: "same_shape fs fs'"
  shows "validateAttemptFiles env' fs' files = validateAttemptFiles env fs files"
proof -
  note kinds = stat_kind_cases [OF same_shape_lstat [OF s]]
  have links: "reject_links fs' relative ps = reject_links fs relative ps" for relative ps
  proof (induction ps)
    case (Cons p ps)
    then show ?case using kinds [of p] by (auto split: stat.splits node.splits)
  qed simp
  have regular: "regular_files fs' root = regular_files fs root" for root
    unfolding regular_files_def same_shape_names [OF s]
    by (rule filter_cong) (simp_all add: same_shape_files [OF s])
  have walk: "walk_managed env' fs' relative managed = walk_managed env fs relative managed" for relative managed
    using kinds [of managed] by (auto simp: walk_managed_def regular retry_env_simps [OF retry] split: stat.splits)
  have aliased: "rejectManagedAlias env' fs' p = rejectManagedAlias env fs p" for p
    using kinds [of p] by (auto simp: rejectManagedAlias_def walk Let_def split: stat.splits node.splits)
  have "check_files env' fs' prev ps = check_files env fs prev ps" for prev ps
    by (induction ps arbitrary: prev) (simp_all only: check_files.simps rejectAttemptSymlink_def links aliased)
  then show ?thesis by (simp add: validateAttemptFiles_def)
qed

lemma project_tree_shape:
  assumes "retry_env env env'" and "ws_fs w' = ws_fs w" and "ws_evidence w' = ws_evidence w"
    and "ws_history w = Bytes a" and "ws_history w' = Bytes b"
  shows "same_shape (project_tree env w) (project_tree env' w')"
  unfolding project_tree_def assms(2-5) retry_env_simps [OF assms(1)] ledger_entry_def same_shape_def
  by (intro list_all2_appendI list_all2_refl) (auto simp: list_all2_refl)

subsection \<open>Starting an attempt\<close>

lemma bind_attempt_Inr:
  assumes "bind_attempt change actor current t files a head = Inr started"
  shows "AttemptPayload_Validate started = Inr ()" "atp_SchemaVersion started = 1" "atp_Actor started = actor"
    "atp_Change started = change" "atp_RevisionBefore started = st_Revision current"
    "atp_RevisionAfter started = st_Revision current + 1" "atp_TaskID started = task_ID t"
  using assms by (auto simp: bind_attempt_def NewAttemptPayload_def Let_def bindE_eq_Inr)

lemma attempt_decodes:
  assumes "AttemptPayload_Validate a = Inr ()"
  shows "keys_distinct (json_canon (attempt_payload_json a)) \<Longrightarrow>
    DecodeAttemptPayload (Some (json_canon (attempt_payload_json a))) = Inr a"
proof -
  have "atp_SchemaVersion a = 1" using assms by (auto simp: AttemptPayload_Validate_def split: if_splits)
  then show "keys_distinct (json_canon (attempt_payload_json a)) \<Longrightarrow> ?thesis"
    using assms by (simp add: DecodeAttemptPayload_def decode_payload_ok attempt_stored)
qed

lemma stored_payload_distinct:
  assumes "record_Validate r = Inr ()" and "rc_Payload r = Some v"
  shows "keys_distinct v"
  using record_Validate_facts(4) [OF assms(1)] assms(2) by auto

lemma resolve_attempt_resumes:
  assumes c: "resolve_attempt env change actor p current attempts rs None started = Inr c"
    and r: "cm_record c = Some r" and v: "bind_attempt change actor current t files a head = Inr started"
    and fresh: "rc_ID r \<notin> rc_ID ` set rs" and retry: "retry_env env env'"
  shows "recoverableAttempt (rs @ [r]) change (st_Revision current) = Inr (Some (started, rc_ID r)) \<and>
    takes_on change current r \<and>
    resolve_attempt env' change actor p current attempts (rs @ [r]) (Some (started, rc_ID r)) started =
      Inr (c\<lparr>cm_record := None\<rparr>)"
proof -
  note b = bind_attempt_Inr [OF v]
  have t: "transition_record ''attempt'' change (st_Revision current) (ce_now env) actor
      (attempt_payload_json started) = Inr r"
    using c r b(3) by (auto simp: resolve_attempt_def Let_def bindE_eq_Inr)
  note f = transition_record_Inr [OF t]
  have "DecodeAttemptPayload (rc_Payload r) = Inr started"
    using attempt_decodes [OF b(1) stored_payload_distinct [OF f(1,9)]] f(9) by simp
  moreover have "historyActor (rs @ [r]) (rc_ID r) = actor" using historyActor_snoc [OF fresh] f(8) by simp
  ultimately show ?thesis using f b c t
    by (auto simp: recoverableAttempt_def pending_record_snoc attempt_envelope_def takes_on_def activity_record_def
        isOk_def resolve_attempt_def Let_def retry_env_simps [OF retry])
qed

lemma check_start_approved:
  assumes "check_start env w change i path current = Inr (t, files, a)"
  obtains st v d where "projectApprovalStatusLocked env w change v d = Inr st" "aps_Current st"
  using assms by (auto simp: check_start_def Let_def bindE_eq_Inr split: option.splits if_splits)

lemma current_approval_ledger:
  assumes "projectApprovalStatusLocked env w change v d = Inr st" and "aps_Current st"
    and rs: "Replay (ws_history w) (History (ce_owner env)) FamilyHistory = Inr (rs, [])"
  shows "\<exists>raw. ws_history w = Bytes raw"
proof -
  have "rs \<noteq> []"
  proof
    assume "rs = []"
    then show False using assms
      by (auto simp: projectApprovalStatusLocked_def projectApprovalStatusForPlanLocked_def bindE_eq_Inr
          latestApproval_def find_last_def stale_def)
  qed
  then show ?thesis using rs by (cases "ws_history w") (auto simp: Replay_def)
qed

lemma check_start_retry:
  assumes retry: "retry_env env env'" and fs: "ws_fs w' = ws_fs w"
    and tree: "same_shape (project_tree env w) (project_tree env' w')"
    and approval: "\<And>v d. projectApprovalStatusLocked env' w' change v d = projectApprovalStatusLocked env w change v d"
  shows "check_start env' w' change i path current = check_start env w change i path current"
  by (simp only: check_start_def validateAttemptFiles_shape [OF retry tree] approval fs retry_env_simps [OF retry])

interpretation starting: resumable "decide_attempt change q"
proof
  fix env w c r w' env'
  assume d: "decide_attempt change q env w = Inr c" and r: "cm_record c = Some r" and e: "encodable r"
    and a: "append_history env (cm_locked c) r w = (Inr (), w')" and retry: "retry_env env env'"
  obtain rs where rs: "Replay (ws_history w) (History (ce_owner env)) FamilyHistory = Inr (rs, [])"
    "Replay (ws_history w') (History (ce_owner env)) FamilyHistory = Inr (rs @ [r], [])"
    and fresh: "rc_ID r \<notin> rc_ID ` set rs"
    and w': "ws_fs w' = ws_fs w" "ws_evidence w' = ws_evidence w" "\<exists>raw. ws_history w' = Bytes raw"
    by (rule append_history_Inr [OF a e])
  define actor where "actor = trim_space (atq_actor q)"
  have actor: "actor \<noteq> []" and body: "with_change_lock env w change (start_locked env w change q actor) = Inr c"
    using d by (auto simp: decide_attempt_def Let_def actor_def split: if_splits)
  have "start_locked env' w' change q actor = Inr (c\<lparr>cm_record := None\<rparr>)"
    if locked: "start_locked env w change q actor = Inr c"
  proof -
    obtain p current where s: "change_state env w change = Inr (p, current)"
      using locked by (auto simp: start_locked_def bindE_eq_Inr)
    have expected: "st_Revision current = atq_ExpectedRevision q"
      using locked by (auto simp: start_locked_def s Let_def split: if_splits)
    obtain attempts t files ap recovered head started where
      k: "check_attempts (abs_path (ce_owner env) p) (atq_TaskID q) current = Inr attempts"
        "check_start env w change (atq_TaskID q) (abs_path (ce_owner env) p) current = Inr (t, files, ap)"
        "recoverableAttempt rs change (st_Revision current) = Inr recovered"
        "cleanGitBaseline env (if recovered = None then [] else [''.specd/history.jsonl'']) = Inr head"
        "bind_attempt change actor current t files ap head = Inr started"
        "resolve_attempt env change actor p current attempts rs recovered started = Inr c"
      using locked history_of_complete [OF rs(1)] expected
      by (auto simp: start_locked_def s bindE_eq_Inr Let_def split del: if_split)
    have none: "recovered = None"
      using k(6) r by (auto simp: resolve_attempt_def Let_def split: option.splits if_splits prod.splits)
    note res = resolve_attempt_resumes [OF k(6) [unfolded none] r k(5) fresh retry]
    obtain raw where "ws_history w = Bytes raw"
      using check_start_approved [OF k(2)] current_approval_ledger rs(1) by metis
    then have tree: "same_shape (project_tree env w) (project_tree env' w')"
      using project_tree_shape [OF retry w'(1,2)] w'(3) by blast
    have "takes_on change current r" using res by blast
    note approval = projectApproval_pending [OF retry w'(1) rs s this]
    have "history_of env' w' torn = Inr (rs @ [r])" for torn
      using history_of_complete [of w' env' "rs @ [r]"] rs(2) retry_env_simps(1) [OF retry] by simp
    moreover have "cleanGitBaseline env' [''.specd/history.jsonl''] = Inr head"
      using cleanGitBaseline_retry [OF retry] k(4) none by simp
    ultimately show ?thesis
      using res k(1,2,5) expected check_start_retry [OF retry w'(1) tree approval]
      by (simp add: start_locked_def change_state_retry [OF retry w'(1)] s Let_def retry_env_simps [OF retry])
  qed
  then show "decide_attempt change q env' w' = Inr (c\<lparr>cm_record := None\<rparr>)"
    using actor by (simp add: decide_attempt_def actor_def [symmetric] with_change_lock_retry [OF retry w'(1) body])
qed

subsection \<open>Task transitions\<close>

lemma transition_payload_distinct [simp]: "keys_distinct (task_transition_json t)"
  by (simp add: task_transition_json_def json_int_def json_nat_def)

lemma check_transition_retry:
  assumes retry: "retry_env env env'" and fs: "ws_fs w' = ws_fs w"
    and approval: "\<And>v d. projectApprovalStatusLocked env' w' change v d = projectApprovalStatusLocked env w change v d"
  shows "check_transition env' w' change q path current = check_transition env w change q path current"
  by (simp only: check_transition_def approval fs retry_env_simps [OF retry])

lemma canonical_nonempty:
  assumes "BuildTaskGraph ts = Inr g" and "Wave g i \<noteq> None"
  shows "i \<noteq> []"
proof (rule BuildTaskGraph_cases [of ts])
  fix g' assume "plan_wellformed ts" "BuildTaskGraph ts = Inr g'" "graph_ok (tasks_Tasks ts) g'"
  then have "i \<in> task_ID ` set (tasks_Tasks ts)" "rows_ok (tasks_Tasks ts)"
    using assms by (auto simp: Wave_def graph_ok_def waves_agree_def plan_wellformed_def)
  then show ?thesis by (auto simp: rows_ok_def)
qed (use assms(1) in simp_all)

lemma check_transition_Inr:
  assumes "check_transition env w change q path current = Inr frm"
  shows "CanTransitionTaskActivity frm (ttq_To q)" "ttq_TaskID q \<noteq> []"
  using assms canonical_nonempty
  by (auto simp: check_transition_def Let_def bindE_eq_Inr split: if_splits)

lemma transition_decodes:
  "ttr_SchemaVersion t = 1 \<Longrightarrow> ttr_TaskID t \<noteq> [] \<Longrightarrow> CanTransitionTaskActivity (ttr_From t) (ttr_To t) \<Longrightarrow>
     decodeTaskTransition (Some (json_canon (task_transition_json t))) = Inr t"
  by (simp add: decodeTaskTransition_def transition_stored CanTransitionTaskActivity_def)

lemma resolve_transition_resumes:
  assumes c: "resolve_transition env change q actor p current rs None frm = Inr c" and r: "cm_record c = Some r"
    and v: "CanTransitionTaskActivity frm (ttq_To q)" "ttq_TaskID q \<noteq> []"
    and fresh: "rc_ID r \<notin> rc_ID ` set rs" and retry: "retry_env env env'"
  shows "\<exists>t. recoverableTaskTransition (rs @ [r]) change (st_Revision current) = Inr (Some (t, rc_ID r)) \<and>
    takes_on change current r \<and>
    resolve_transition env' change q actor p current (rs @ [r]) (Some (t, rc_ID r)) frm = Inr (c\<lparr>cm_record := None\<rparr>)"
proof -
  define t where "t = \<lparr>ttr_SchemaVersion = 1, ttr_TaskID = ttq_TaskID q, ttr_From = frm, ttr_To = ttq_To q\<rparr>"
  have tr: "transition_record ''task_transition'' change (st_Revision current) (ce_now env) actor
      (task_transition_json t) = Inr r"
    using c r by (auto simp: resolve_transition_def Let_def bindE_eq_Inr t_def)
  note f = transition_record_Inr [OF tr]
  have "decodeTaskTransition (rc_Payload r) = Inr t"
    unfolding f(9) by (rule transition_decodes) (use v in \<open>simp_all add: t_def\<close>)
  moreover have "historyActor (rs @ [r]) (rc_ID r) = actor" using historyActor_snoc [OF fresh] f(8) by simp
  ultimately have "recoverableTaskTransition (rs @ [r]) change (st_Revision current) = Inr (Some (t, rc_ID r)) \<and>
    takes_on change current r \<and>
    resolve_transition env' change q actor p current (rs @ [r]) (Some (t, rc_ID r)) frm = Inr (c\<lparr>cm_record := None\<rparr>)"
    using f c tr
    by (auto simp: recoverableTaskTransition_def pending_record_snoc takes_on_def activity_record_def
        isOk_def resolve_transition_def Let_def retry_env_simps [OF retry] t_def)
  then show ?thesis by blast
qed

interpretation moving: resumable "decide_transition change q"
proof
  fix env w c r w' env'
  assume d: "decide_transition change q env w = Inr c" and r: "cm_record c = Some r" and e: "encodable r"
    and a: "append_history env (cm_locked c) r w = (Inr (), w')" and retry: "retry_env env env'"
  obtain rs where rs: "Replay (ws_history w) (History (ce_owner env)) FamilyHistory = Inr (rs, [])"
    "Replay (ws_history w') (History (ce_owner env)) FamilyHistory = Inr (rs @ [r], [])"
    and fresh: "rc_ID r \<notin> rc_ID ` set rs" and w': "ws_fs w' = ws_fs w"
    by (rule append_history_Inr [OF a e])
  define actor where "actor = trim_space (ttq_actor q)"
  have actor: "actor \<noteq> []" and body: "with_change_lock env w change (transition_locked env w change q actor) = Inr c"
    using d by (auto simp: decide_transition_def Let_def actor_def split: if_splits)
  have "transition_locked env' w' change q actor = Inr (c\<lparr>cm_record := None\<rparr>)"
    if locked: "transition_locked env w change q actor = Inr c"
  proof -
    obtain p current where s: "change_state env w change = Inr (p, current)"
      using locked by (auto simp: transition_locked_def Let_def bindE_eq_Inr)
    have expected: "st_Revision current = ttq_ExpectedRevision q"
      using locked by (auto simp: transition_locked_def s Let_def split: if_splits)
    obtain recovered frm where
      k: "recoverableTaskTransition rs change (st_Revision current) = Inr recovered"
        "check_transition env w change q (abs_path (ce_owner env) p) current = Inr frm"
        "resolve_transition env change q actor p current rs recovered frm = Inr c"
      using locked history_of_complete [OF rs(1)] expected
      by (auto simp: transition_locked_def s bindE_eq_Inr Let_def)
    have none: "recovered = None"
      using k(3) r by (auto simp: resolve_transition_def Let_def split: option.splits if_splits prod.splits)
    obtain t where res: "recoverableTaskTransition (rs @ [r]) change (st_Revision current) = Inr (Some (t, rc_ID r))"
      "takes_on change current r"
      "resolve_transition env' change q actor p current (rs @ [r]) (Some (t, rc_ID r)) frm = Inr (c\<lparr>cm_record := None\<rparr>)"
      using resolve_transition_resumes [OF k(3) [unfolded none] r check_transition_Inr [OF k(2)] fresh retry] by blast
    note approval = projectApproval_pending [OF retry w' rs s res(2)]
    have "history_of env' w' torn = Inr (rs @ [r])" for torn
      using history_of_complete [of w' env' "rs @ [r]"] rs(2) retry_env_simps(1) [OF retry] by simp
    then show ?thesis
      using res k(2) expected check_transition_retry [OF retry w' approval]
      by (simp add: transition_locked_def change_state_retry [OF retry w'] s Let_def retry_env_simps [OF retry])
  qed
  then show "decide_transition change q env' w' = Inr (c\<lparr>cm_record := None\<rparr>)"
    using actor by (simp add: decide_transition_def actor_def [symmetric] with_change_lock_retry [OF retry w' body])
qed

subsection \<open>Reopening\<close>

lemma reopened_decodes:
  assumes "reopened_of change actor reason current a attempt head = Inr payload"
    and "keys_distinct (json_canon (reopened_payload_json payload))"
  shows "DecodeReopenedPayload (Some (json_canon (reopened_payload_json payload))) = Inr payload"
    and "rop_Actor payload = actor"
  using assms
  by (auto simp: reopened_of_def NewReopenedPayload_def Let_def bindE_eq_Inr DecodeReopenedPayload_def
      intro!: decode_payload_ok reopened_stored)

lemma reopenAttemptID_snoc:
  assumes "rc_Kind r \<noteq> ''attempt''"
  shows "reopenAttemptID (rs @ [r]) current = reopenAttemptID rs current"
proof -
  have "list_ex (binds_attempt current a) (rs @ [r]) = list_ex (binds_attempt current a) rs" for a
    using assms by (simp add: binds_attempt_def)
  then show ?thesis by (simp only: reopenAttemptID_def)
qed

interpretation reopening: resumable "decide_reopen change q"
proof
  fix env w c r w' env'
  assume d: "decide_reopen change q env w = Inr c" and r: "cm_record c = Some r" and e: "encodable r"
    and a: "append_history env (cm_locked c) r w = (Inr (), w')" and retry: "retry_env env env'"
  obtain rs where rs: "Replay (ws_history w) (History (ce_owner env)) FamilyHistory = Inr (rs, [])"
    "Replay (ws_history w') (History (ce_owner env)) FamilyHistory = Inr (rs @ [r], [])"
    and w': "ws_fs w' = ws_fs w"
    by (rule append_history_Inr [OF a e])
  define actor reason where "actor = trim_space (roi_Actor q)" and "reason = trim_space (roi_Reason q)"
  have intent: "actor \<noteq> []" "reason \<noteq> []"
    and body: "with_change_lock env w change (reopen_locked env w change q actor reason) = Inr c"
    using d by (auto simp: decide_reopen_def Let_def actor_def reason_def split: if_splits)
  have "reopen_locked env' w' change q actor reason = Inr (c\<lparr>cm_record := None\<rparr>)"
    if locked: "reopen_locked env w change q actor reason = Inr c"
  proof -
    obtain p current found where k0: "reopen_state env w change q = Inr (p, current)" "latestApproval rs change = Inr found"
      using locked history_of_complete [OF rs(1)] by (auto simp: reopen_locked_def bindE_eq_Inr Let_def)
    then obtain ap i where
      k1: "reopen_state env w change q = Inr (p, current)" "latestApproval rs change = Inr (Some (ap, i))"
        "reopenApprovalMatchesState current ap"
      using locked history_of_complete [OF rs(1)]
      by (cases found) (auto simp: reopen_locked_def Let_def split: if_splits)
    obtain attempt head payload recovered where
      k2: "reopenAttemptID rs current = Inr attempt"
        "cleanGitBaseline env [] = Inr head" "reopened_of change actor reason current ap attempt head = Inr payload"
        "recoverableReopen rs change (st_Revision current) = Inr recovered"
        "resolve_reopen env change p current rs ap i payload recovered = Inr c"
      using locked history_of_complete [OF rs(1)] k1 by (auto simp: reopen_locked_def bindE_eq_Inr Let_def)
    note k = k1 k2
    have none: "recovered = None"
      using k(8) r by (auto simp: resolve_reopen_def reopen_commit_def Let_def split: option.splits if_splits prod.splits)
    have t: "transition_record ''reopened'' change (st_Revision current) (ce_now env) (rop_Actor payload)
        (reopened_payload_json payload) = Inr r"
      and c: "c = reopen_commit env p (Some r) current payload (rc_ID r)"
      using k(8) r by (auto simp: none resolve_reopen_def reopen_commit_def Let_def bindE_eq_Inr split: if_splits)
    note f = transition_record_Inr [OF t]
    have "DecodeReopenedPayload (rc_Payload r) = Inr payload"
      using reopened_decodes(1) [OF k(6) stored_payload_distinct [OF f(1,9)]] f(9) by simp
    then have "recoverableReopen (rs @ [r]) change (st_Revision current) = Inr (Some (payload, rc_ID r))"
      using f by (simp add: recoverableReopen_def pending_record_snoc)
    moreover have "resolve_reopen env' change p current (rs @ [r]) ap i payload (Some (payload, rc_ID r)) =
        Inr (c\<lparr>cm_record := None\<rparr>)"
      by (simp add: resolve_reopen_def Let_def reopen_commit_def c retry_env_simps [OF retry])
    moreover have "reopen_state env' w' change q = reopen_state env w change q"
      by (simp only: reopen_state_def os_ReadFile_retry [OF retry] w' retry_env_simps [OF retry])
    moreover have "history_of env' w' torn = Inr (rs @ [r])" for torn
      using history_of_complete [of w' env' "rs @ [r]"] rs(2) retry_env_simps(1) [OF retry] by simp
    moreover have "latestApproval (rs @ [r]) change = Inr (Some (ap, i))" "reopenAttemptID (rs @ [r]) current = Inr attempt"
      using f(3) k(2,4) by (simp_all add: latestApproval_snoc reopenAttemptID_snoc)
    ultimately show ?thesis
      using k cleanGitBaseline_retry [OF retry k(5)] by (simp add: reopen_locked_def Let_def)
  qed
  then show "decide_reopen change q env' w' = Inr (c\<lparr>cm_record := None\<rparr>)"
    using intent
    by (simp add: decide_reopen_def actor_def [symmetric] reason_def [symmetric]
        with_change_lock_retry [OF retry w' body])
qed

subsection \<open>Completion\<close>

definition proves_run :: "subject \<Rightarrow> hist_record \<Rightarrow> test_run \<Rightarrow> bool" where
  "proves_run s x v \<longleftrightarrow> ClassOf (rc_Payload x) = Inr ClassTestRun \<and> evidence_Decode (rc_Payload x) = Inr v \<and>
     tru_Change v = rc_Change x \<and> tru_EndedAt v = rc_Timestamp x \<and> TestRun_Matches v s"

lemma latest_match_Some:
  "latest_match bad s best items = Inr (Some (x, v)) \<Longrightarrow>
     best = Some (x, v) \<or> (x \<in> set items \<and> proves_run s x v)"
proof (induction items arbitrary: best)
  case (Cons r rs)
  then obtain best' where "latest_match bad s best' rs = Inr (Some (x, v))"
    "best' = best \<or> (\<exists>u. best' = Some (r, u) \<and> proves_run s r u)"
    by (auto simp: proves_run_def split: sum.splits if_splits)
  with Cons.IH [OF this(1)] show ?case by auto
qed simp

lemma latestCompletionEvidence_Some:
  assumes "latestCompletionEvidence env w s = Inr (Some (x, v))"
  obtains items where "Replay (ws_evidence w) (Evidence (ce_owner env)) FamilyEvidence = Inr (items, [])"
    and "x \<in> set items" and "proves_run s x v" and "TestRun_Applicable (clock env) v s"
proof -
  obtain items bad where i: "Replay (ws_evidence w) (Evidence (ce_owner env)) FamilyEvidence = Inr (items, [])"
    "latest_match bad s None items = Inr (Some (x, v))" "TestRun_Applicable (clock env) v s"
    using assms
    by (auto simp: latestCompletionEvidence_def Let_def evidence_of_def bindE_eq_Inr
        split: option.splits if_splits prod.splits)
  then show thesis using that latest_match_Some [OF i(2)] by simp
qed

lemma check_evidence_Inr:
  assumes "check_evidence env w rs s = Inr x"
  obtains v where "latestCompletionEvidence env w s = Inr (Some (x, v))"
    and "\<not> evidenceAlreadyConsumed rs (rc_ID x) []"
  using assms by (auto simp: check_evidence_def bindE_eq_Inr split: option.splits if_splits)

lemma canonicalTask_Some: "canonicalTask ts i = Some t \<Longrightarrow> t \<in> set ts \<and> task_ID t = i"
  by (auto simp: canonicalTask_def dest!: find_Some_set)

lemma check_task_Inr:
  assumes "check_task path ts i current = Inr t"
  shows "task_ID t = i"
proof -
  have "canonicalTask (tasks_Tasks ts) i = Some t"
    using assms by (auto simp: check_task_def bindE_eq_Inr Let_def split: option.splits if_splits)
  then show ?thesis using canonicalTask_Some by blast
qed

lemma check_bound_Inr:
  assumes "check_bound env w change path t current = Inr a"
  shows "atp_Change a = change" "atp_TaskID a = task_ID t" "atp_RevisionAfter a = st_Revision current"
    "attemptStateGuardHash current (task_ID t) = atp_StateGuardHash a" "TaskContractHash t = atp_ContractHash a"
    "validateAttemptHistory env w current a = Inr ()" "CurrentAttempt current (task_ID t) = Inr (Some a)"
  using assms by (auto simp: check_bound_def Let_def bindE_eq_Inr split: sum.splits option.splits if_splits)

lemma check_completion_Inr:
  assumes "check_completion env w change q policy path current rs = Inr (a, x)"
  obtains t commandHash registry where
    "check_task path (ch_Tasks (plan_of (ce_tree env) (ws_fs w) change)) (coq_TaskID q) current = Inr t"
    "check_bound env w change path t current = Inr a"
    "check_approved env w change path (plan_of (ce_tree env) (ws_fs w) change) a = Inr registry"
    "check_head env 0 a ''Git HEAD no longer matches the attempt'' = Inr ()"
    "validateCompletionScope env w 0 change a = Inr ()"
    "check_evidence env w rs (completion_subject change t a commandHash current) = Inr x"
  using assms by (auto simp: check_completion_def Let_def bindE_eq_Inr)

lemma find_by_id:
  "distinct (map rc_ID items) \<Longrightarrow> x \<in> set items \<Longrightarrow> find (\<lambda>r. rc_ID r = rc_ID x) items = Some x"
  by (induction items) force+

text \<open>The evidence the first run checked still proves the completion when it is recovered.\<close>

lemma pending_evidence_valid:
  assumes k: "check_completion env w change q policy path current rs = Inr (a, x)"
    and c: "new_completion change actor current a x = Inr c"
    and retry: "retry_env env env'" and w': "ws_evidence w' = ws_evidence w"
  shows "validatePendingCompletionEvidence env' w' c = Inr ()" and "cmp_TaskID c = coq_TaskID q"
proof -
  obtain t commandHash registry where
    t: "check_task path (ch_Tasks (plan_of (ce_tree env) (ws_fs w) change)) (coq_TaskID q) current = Inr t"
    and b: "check_bound env w change path t current = Inr a"
    and ev: "check_evidence env w rs (completion_subject change t a commandHash current) = Inr x"
    by (rule check_completion_Inr [OF k])
  let ?s = "completion_subject change t a commandHash current"
  obtain v where v: "latestCompletionEvidence env w ?s = Inr (Some (x, v))" by (rule check_evidence_Inr [OF ev])
  obtain items where items: "Replay (ws_evidence w) (Evidence (ce_owner env)) FamilyEvidence = Inr (items, [])"
    and x: "x \<in> set items" "proves_run ?s x v" and app: "TestRun_Applicable (clock env) v ?s"
    by (rule latestCompletionEvidence_Some [OF v])
  have dist: "distinct (map rc_ID items)"
  proof (cases "ws_evidence w")
    case (Bytes raw)
    then show ?thesis using items replay_ledger_ok by (auto simp: Replay_def ledger_ok_def)
  qed (use items in \<open>simp_all add: Replay_def\<close>)
  have cf: "cmp_Change c = change" "cmp_TaskID c = atp_TaskID a" "cmp_AttemptID c = atp_ID a" "cmp_EvidenceID c = rc_ID x"
    using c by (auto simp: new_completion_def NewCompletionPayload_def Let_def bindE_eq_Inr)
  have "not_future (clock env') (tru_EndedAt v)"
    using app retry_env_simps(8) [OF retry]
    by (auto simp: TestRun_Applicable_def not_future_def split: option.splits)
  then have "proves_pending (clock env') c x"
    using x(2) app cf check_bound_Inr(2) [OF b]
    by (auto simp: proves_pending_def proves_run_def TestRun_Applicable_def TestRun_Matches_def subject_of_run_def
        completion_subject_def)
  moreover have "evidence_of env' w' torn = Inr items" for torn
    using items by (simp add: evidence_of_def w' retry_env_simps [OF retry])
  moreover have "find (\<lambda>r. rc_ID r = rc_ID x) items = Some x" by (rule find_by_id [OF dist x(1)])
  ultimately show "validatePendingCompletionEvidence env' w' c = Inr ()"
    by (simp add: validatePendingCompletionEvidence_def Let_def cf)
  show "cmp_TaskID c = coq_TaskID q" using cf check_bound_Inr(2) [OF b] check_task_Inr [OF t] by simp
qed

lemma completion_decodes:
  assumes "new_completion change actor current a x = Inr c"
    and "keys_distinct (json_canon (completion_payload_json c))"
  shows "DecodeCompletionPayload (Some (json_canon (completion_payload_json c))) = Inr c"
  using assms
  by (auto simp: new_completion_def NewCompletionPayload_def Let_def bindE_eq_Inr DecodeCompletionPayload_def
      intro!: decode_payload_ok completion_stored)

text \<open>What a completion that goes on to record itself has checked.\<close>

lemma complete_locked_records:
  assumes locked: "complete_locked env w change q policy actor = Inr c" and r: "cm_record c = Some r"
    and rs: "Replay (ws_history w) (History (ce_owner env)) FamilyHistory = Inr (rs, [])"
  obtains p raw current ap x y where
    "ChangeState (ce_owner env) (ws_fs w) change = Inr p"
    "readCheckState (ce_tree env) (ws_fs w) p = Inr raw" "state_Decode (read_text raw) change = Inr current"
    "ce_lock env ''.records.lock'' = None" "st_Revision current = coq_ExpectedRevision q"
    "check_completion env w change q policy (abs_path (ce_owner env) p) current rs = Inr (ap, x)"
    "finish_completion env w change q actor p current ap x = Inr c"
    "new_completion change actor current ap x = Inr y"
    "transition_record ''completion'' change (st_Revision current) (ce_now env) actor
        (completion_payload_json y) = Inr r"
    "c = completion_commit env p (Some r) current y (rc_ID r)"
proof -
  obtain p raw where s0: "ChangeState (ce_owner env) (ws_fs w) change = Inr p"
    "readCheckState (ce_tree env) (ws_fs w) p = Inr raw"
    using locked by (auto simp: complete_locked_def bindE_eq_Inr Let_def)
  then obtain current where s: "ChangeState (ce_owner env) (ws_fs w) change = Inr p"
    "readCheckState (ce_tree env) (ws_fs w) p = Inr raw" "state_Decode (read_text raw) change = Inr current"
    using locked by (cases "state_Decode (read_text raw) change") (auto simp: complete_locked_def Let_def)
  have lock: "ce_lock env ''.records.lock'' = None" and expected: "st_Revision current = coq_ExpectedRevision q"
    using locked by (auto simp: complete_locked_def with_ledger_lock_def s Let_def split: if_splits option.splits)
  let ?path = "abs_path (ce_owner env) p"
  obtain recovered where rec: "recoverableCompletion rs change (st_Revision current) = Inr recovered"
    using locked history_of_complete [OF rs] expected
    by (auto simp: complete_locked_def with_ledger_lock_def s Let_def lock bindE_eq_Inr)
  have none: "recovered = None"
  proof (rule ccontr)
    assume "recovered \<noteq> None"
    then obtain x i where x: "recovered = Some (x, i)" by auto
    have "recover_completion env w q p current x i = Inr c"
      using locked history_of_complete [OF rs] expected
      by (simp add: complete_locked_def with_ledger_lock_def s Let_def lock rec [unfolded expected] x)
    then show False using r by (auto simp: recover_completion_def completion_commit_def bindE_eq_Inr split: if_splits)
  qed
  obtain ap x where k: "check_completion env w change q policy ?path current rs = Inr (ap, x)"
    and fin: "finish_completion env w change q actor p current ap x = Inr c"
    using locked history_of_complete [OF rs] expected
    by (auto simp: complete_locked_def with_ledger_lock_def s Let_def lock rec [unfolded expected] none bindE_eq_Inr)
  obtain y where "new_completion change actor current ap x = Inr y"
    "transition_record ''completion'' change (st_Revision current) (ce_now env) actor (completion_payload_json y) = Inr r"
    "c = completion_commit env p (Some r) current y (rc_ID r)"
    using fin r by (auto simp: finish_completion_def completion_commit_def bindE_eq_Inr split: option.splits)
  then show thesis by (rule that [OF s lock expected k fin])
qed

interpretation completing: resumable "decide_completion change q"
proof
  fix env w c r w' env'
  assume d: "decide_completion change q env w = Inr c" and r: "cm_record c = Some r" and e: "encodable r"
    and a: "append_history env (cm_locked c) r w = (Inr (), w')" and retry: "retry_env env env'"
  note env' = retry_env_simps [OF retry]
  obtain rs where rs: "Replay (ws_history w) (History (ce_owner env)) FamilyHistory = Inr (rs, [])"
    "Replay (ws_history w') (History (ce_owner env)) FamilyHistory = Inr (rs @ [r], [])"
    and w': "ws_fs w' = ws_fs w" "ws_evidence w' = ws_evidence w"
    by (rule append_history_Inr [OF a e])
  define actor where "actor = trim_space (coq_actor q)"
  obtain policy where actor: "actor \<noteq> []" "ResolveProfile (coq_Profile q) = Inr policy" "policy_Validate policy = Inr ()"
    and body: "with_change_lock env w change (complete_locked env w change q policy actor) = Inr c"
    using d by (auto simp: decide_completion_def Let_def actor_def bindE_eq_Inr split: if_splits)
  have "complete_locked env' w' change q policy actor = Inr (c\<lparr>cm_record := None\<rparr>)"
    if locked: "complete_locked env w change q policy actor = Inr c"
  proof (rule complete_locked_records [OF locked r rs(1)])
    fix p raw current ap x y
    assume s: "ChangeState (ce_owner env) (ws_fs w) change = Inr p"
      "readCheckState (ce_tree env) (ws_fs w) p = Inr raw" "state_Decode (read_text raw) change = Inr current"
      and lock: "ce_lock env ''.records.lock'' = None" and expected: "st_Revision current = coq_ExpectedRevision q"
      and k: "check_completion env w change q policy (abs_path (ce_owner env) p) current rs = Inr (ap, x)"
      and y: "new_completion change actor current ap x = Inr y"
      and t: "transition_record ''completion'' change (st_Revision current) (ce_now env) actor
        (completion_payload_json y) = Inr r"
      and c: "c = completion_commit env p (Some r) current y (rc_ID r)"
    note f = transition_record_Inr [OF t]
    note ev = pending_evidence_valid [OF k y retry w'(2)]
    have "DecodeCompletionPayload (rc_Payload r) = Inr y"
      using completion_decodes [OF y stored_payload_distinct [OF f(1,9)]] f(9) by simp
    then have "recoverableCompletion (rs @ [r]) change (st_Revision current) = Inr (Some (y, rc_ID r))"
      using f by (simp add: recoverableCompletion_def pending_record_snoc)
    moreover have "recover_completion env' w' q p current y (rc_ID r) = Inr (c\<lparr>cm_record := None\<rparr>)"
      using ev by (simp add: recover_completion_def completion_commit_def completion_hook_def [abs_def] c env')
    moreover have "history_of env' w' torn = Inr (rs @ [r])" for torn
      using history_of_complete [of w' env' "rs @ [r]"] rs(2) env' by simp
    ultimately show ?thesis using s lock expected
      by (simp add: complete_locked_def with_ledger_lock_def Let_def w' env')
  qed
  then show "decide_completion change q env' w' = Inr (c\<lparr>cm_record := None\<rparr>)"
    using actor
    by (simp add: decide_completion_def Let_def actor_def [symmetric] with_change_lock_retry [OF retry w'(1) body])
qed

end
