(* ===== verification/Operations.thy ===== *)
theory Operations
  imports Resumption "HOL-Library.Sublist"
begin

text \<open>
  The operations on a change as one step relation, and what holds of every history they leave: an
  interrupted operation can be resumed, and no evidence is consumed twice.
\<close>

datatype operation =
    Approval_by approve_intent
  | Transition_by task_transition_request
  | Attempt_by attempt_request
  | Completion_by complete_request
  | Reopening_by reopen_intent

datatype operation_result =
    Approved approval_record
  | Moved task_transition
  | Started attempt_payload
  | Completed completion
  | Reopened reopen_result

fun operate :: "string \<Rightarrow> operation \<Rightarrow> core_env \<Rightarrow> error option \<Rightarrow> workspace
    \<Rightarrow> (error + operation_result) \<times> workspace" where
  "operate change (Approval_by q) env e w = apfst (map_sum id Approved) (Approve change q env e w)"
| "operate change (Transition_by q) env e w = apfst (map_sum id Moved) (TransitionTaskActivity change q env e w)"
| "operate change (Attempt_by q) env e w = apfst (map_sum id Started) (StartAttempt change q env e w)"
| "operate change (Completion_by q) env e w = apfst (map_sum id Completed) (CompleteTask change q env e w)"
| "operate change (Reopening_by q) env e w = apfst (map_sum id Reopened) (Reopen change q env e w)"

text \<open>The record an operation is about to write is well-formed text.\<close>

fun operation_text :: "string \<Rightarrow> operation \<Rightarrow> core_env \<Rightarrow> workspace \<Rightarrow> bool" where
  "operation_text change (Approval_by q) env w = records_text (decide_approve change q) env w"
| "operation_text change (Transition_by q) env w = records_text (decide_transition change q) env w"
| "operation_text change (Attempt_by q) env w = records_text (decide_attempt change q) env w"
| "operation_text change (Completion_by q) env w = records_text (decide_completion change q) env w"
| "operation_text change (Reopening_by q) env w = records_text (decide_reopen change q) env w"

subsection \<open>Resumption\<close>

lemma wrapped_Inr: "apfst (map_sum id f) y = (Inr a, w) \<Longrightarrow> \<exists>b. y = (Inr b, w) \<and> a = f b"
  by (cases y; cases "fst y") auto

lemma wrapped_Inl: "apfst (map_sum id f) y = (Inl a, w) \<Longrightarrow> y = (Inl a, w)"
  by (cases y; cases "fst y") auto

lemma operation_resumes:
  assumes "operate change op env None w = (Inr a, w1)" and "operate change op env (Some e) w = (Inl x, w')"
    and "retry_env env env'" and "operation_text change op env w"
  shows "operate change op env' None w' = (Inr a, w1)"
proof (cases op)
  case (Approval_by q)
  then show ?thesis
    using approving.retried [OF _ _ assms(3)] assms(1,2,4)
    by (auto simp: Approve_def dest!: wrapped_Inr wrapped_Inl)
next
  case (Transition_by q)
  then show ?thesis
    using moving.retried [OF _ _ assms(3)] assms(1,2,4)
    by (auto simp: TransitionTaskActivity_def dest!: wrapped_Inr wrapped_Inl)
next
  case (Attempt_by q)
  then show ?thesis
    using starting.retried [OF _ _ assms(3)] assms(1,2,4)
    by (auto simp: StartAttempt_def dest!: wrapped_Inr wrapped_Inl)
next
  case (Completion_by q)
  then show ?thesis
    using completing.retried [OF _ _ assms(3)] assms(1,2,4)
    by (auto simp: CompleteTask_def dest!: wrapped_Inr wrapped_Inl)
next
  case (Reopening_by q)
  then show ?thesis
    using reopening.retried [OF _ _ assms(3)] assms(1,2,4)
    by (auto simp: Reopen_def dest!: wrapped_Inr wrapped_Inl)
qed

subsection \<open>What an operation appends\<close>

lemma with_change_lock_Inr: "with_change_lock env w change b = Inr x \<Longrightarrow> b = Inr x"
  by (auto simp: with_change_lock_def bindE_eq_Inr split: option.splits)

text \<open>The evidence a list of records consumes, in order.\<close>

definition consumed :: "hist_record list \<Rightarrow> string list" where
  "consumed rs = List.map_filter (\<lambda>r. if rc_Kind r = ''completion'' then
     (case DecodeCompletionPayload (rc_Payload r) of Inl _ \<Rightarrow> None | Inr c \<Rightarrow> Some (cmp_EvidenceID c)) else None) rs"

lemma consumed_simps:
  "consumed [] = []"
  "consumed (r # rs) = (if rc_Kind r = ''completion'' then
     (case DecodeCompletionPayload (rc_Payload r) of Inl _ \<Rightarrow> consumed rs | Inr c \<Rightarrow> cmp_EvidenceID c # consumed rs)
     else consumed rs)"
  by (simp_all add: consumed_def map_filter_simps split: sum.split)

lemma consumed_append: "consumed (rs @ ss) = consumed rs @ consumed ss"
  by (induction rs) (simp_all add: consumed_simps split: sum.split)

lemma consumed_other: "rc_Kind r \<noteq> ''completion'' \<Longrightarrow> consumed [r] = []"
  by (simp add: consumed_simps)

lemma already_consumed:
  "(\<forall>r \<in> set rs. rc_ID r \<noteq> []) \<Longrightarrow> evidenceAlreadyConsumed rs i [] \<longleftrightarrow> i \<in> set (consumed rs)"
  by (induction rs) (auto simp: evidenceAlreadyConsumed_def consumed_simps split: sum.splits)

text \<open>The record of an operation consumes no evidence, or evidence that no record consumed before.\<close>

definition consumes_fresh :: "core_env \<Rightarrow> workspace \<Rightarrow> 'r commit \<Rightarrow> bool" where
  "consumes_fresh env w c = (case cm_record c of None \<Rightarrow> True
   | Some r \<Rightarrow> (case Replay (ws_history w) (History (ce_owner env)) FamilyHistory of
       Inl _ \<Rightarrow> True | Inr (rs, _) \<Rightarrow> distinct (consumed rs) \<longrightarrow> distinct (consumed (rs @ [r]))))"

lemma fresh_other:
  "(\<And>r. cm_record c = Some r \<Longrightarrow> rc_Kind r \<noteq> ''completion'') \<Longrightarrow> consumes_fresh env w c"
  by (auto simp: consumes_fresh_def consumed_append consumed_other split: option.split sum.split)

lemma resolve_kinds:
  "resolve_approval env change who reason p s g h rs = Inr c \<Longrightarrow> cm_record c = Some r \<Longrightarrow> rc_Kind r = ''approved''"
  "resolve_transition env change tq actor p s rs rec1 frm = Inr c1 \<Longrightarrow> cm_record c1 = Some r \<Longrightarrow>
     rc_Kind r = ''task_transition''"
  "resolve_attempt env change actor p s as rs rec2 st = Inr c2 \<Longrightarrow> cm_record c2 = Some r \<Longrightarrow> rc_Kind r = ''attempt''"
  "resolve_reopen env change p s rs a i pl rec3 = Inr c3 \<Longrightarrow> cm_record c3 = Some r \<Longrightarrow> rc_Kind r = ''reopened''"
proof -
  show "resolve_approval env change who reason p s g h rs = Inr c \<Longrightarrow> cm_record c = Some r \<Longrightarrow> rc_Kind r = ''approved''"
    by (cases "recoverableApproval rs change (st_Revision s)")
      (auto simp: resolve_approval_def Let_def bindE_eq_Inr dest: transition_record_Inr(3) split: if_splits)
  show "resolve_transition env change tq actor p s rs rec1 frm = Inr c1 \<Longrightarrow> cm_record c1 = Some r \<Longrightarrow>
     rc_Kind r = ''task_transition''"
    by (cases rec1)
      (auto simp: resolve_transition_def Let_def bindE_eq_Inr dest: transition_record_Inr(3) split: if_splits)
  show "resolve_attempt env change actor p s as rs rec2 st = Inr c2 \<Longrightarrow> cm_record c2 = Some r \<Longrightarrow> rc_Kind r = ''attempt''"
    by (cases rec2)
      (auto simp: resolve_attempt_def Let_def bindE_eq_Inr dest: transition_record_Inr(3) split: if_splits)
  show "resolve_reopen env change p s rs a i pl rec3 = Inr c3 \<Longrightarrow> cm_record c3 = Some r \<Longrightarrow> rc_Kind r = ''reopened''"
    by (cases rec3)
      (auto simp: resolve_reopen_def reopen_commit_def Let_def bindE_eq_Inr dest: transition_record_Inr(3) split: if_splits)
qed

lemma approve_fresh:
  assumes "decide_approve change q env w = Inr c"
  shows "consumes_fresh env w c"
proof -
  obtain who p s g h rs where "resolve_approval env change who (aqi_Reason q) p s g h rs = Inr c"
    using assms by (auto simp: decide_approve_def approve_locked_def bindE_eq_Inr dest!: with_change_lock_Inr)
  from resolve_kinds(1) [OF this] show ?thesis by (intro fresh_other) simp
qed

lemma transition_fresh:
  assumes "decide_transition change q env w = Inr c"
  shows "consumes_fresh env w c"
proof -
  obtain actor p s rs rec frm where "resolve_transition env change q actor p s rs rec frm = Inr c"
    using assms
    by (auto simp: decide_transition_def transition_locked_def bindE_eq_Inr Let_def dest!: with_change_lock_Inr
        split: if_splits)
  from resolve_kinds(2) [OF this] show ?thesis by (intro fresh_other) simp
qed

lemma attempt_fresh:
  assumes "decide_attempt change q env w = Inr c"
  shows "consumes_fresh env w c"
proof -
  obtain actor p s as rs rec st where "resolve_attempt env change actor p s as rs rec st = Inr c"
    using assms
    by (auto simp: decide_attempt_def start_locked_def bindE_eq_Inr Let_def dest!: with_change_lock_Inr
        split: if_splits)
  from resolve_kinds(3) [OF this] show ?thesis by (intro fresh_other) simp
qed

lemma reopen_fresh:
  assumes "decide_reopen change q env w = Inr c"
  shows "consumes_fresh env w c"
proof -
  obtain actor reason where locked: "reopen_locked env w change q actor reason = Inr c"
    using assms by (auto simp: decide_reopen_def Let_def dest!: with_change_lock_Inr split: if_splits)
  obtain p s rs found where f: "reopen_state env w change q = Inr (p, s)"
    "history_of env w (reopenFailure ''reopen_history'' (History (ce_owner env))
       [Str ''history has an incomplete tail''] ''repair history and run status'') = Inr rs"
    "latestApproval rs change = Inr found"
    using locked by (auto simp: reopen_locked_def bindE_eq_Inr Let_def)
  obtain a i pl rec where "resolve_reopen env change p s rs a i pl rec = Inr c"
    using locked f by (cases found) (auto simp: reopen_locked_def bindE_eq_Inr Let_def split: if_splits)
  from resolve_kinds(4) [OF this] show ?thesis by (intro fresh_other) simp
qed

lemma completion_fresh:
  assumes "decide_completion change q env w = Inr c"
  shows "consumes_fresh env w c"
proof (cases "cm_record c")
  case (Some r)
  show ?thesis
  proof (cases "Replay (ws_history w) (History (ce_owner env)) FamilyHistory")
    case (Inr x)
    obtain rs ds where x: "x = (rs, ds)" by (cases x)
    obtain policy actor where locked: "complete_locked env w change q policy actor = Inr c"
      using assms by (auto simp: decide_completion_def Let_def bindE_eq_Inr dest!: with_change_lock_Inr split: if_splits)
    have "ds = []"
      using locked Inr x
      by (auto simp: complete_locked_def bindE_eq_Inr Let_def with_ledger_lock_def history_of_def
          split: if_splits option.splits)
    then have rs: "Replay (ws_history w) (History (ce_owner env)) FamilyHistory = Inr (rs, [])" using Inr x by simp
    show ?thesis
    proof (rule complete_locked_records [OF locked Some rs])
      fix p raw current ap e y
      assume k: "check_completion env w change q policy (abs_path (ce_owner env) p) current rs = Inr (ap, e)"
        and y: "new_completion change actor current ap e = Inr y"
        and t: "transition_record ''completion'' change (st_Revision current) (ce_now env) actor
          (completion_payload_json y) = Inr r"
      note f = transition_record_Inr [OF t]
      have "DecodeCompletionPayload (rc_Payload r) = Inr y"
        using completion_decodes [OF y stored_payload_distinct [OF f(1,9)]] f(9) by simp
      moreover have "cmp_EvidenceID y = rc_ID e"
        using y by (auto simp: new_completion_def NewCompletionPayload_def Let_def bindE_eq_Inr)
      ultimately have new: "consumed [r] = [rc_ID e]" using f(3) by (simp add: consumed_simps)
      obtain s where "check_evidence env w rs s = Inr e" by (rule check_completion_Inr [OF k])
      then have "\<not> evidenceAlreadyConsumed rs (rc_ID e) []" by (rule check_evidence_Inr)
      moreover have "\<forall>r \<in> set rs. rc_ID r \<noteq> []"
      proof (cases "ws_history w")
        case (Bytes bs)
        then have "ledger_ok FamilyHistory rs" using rs replay_ledger_ok by (simp add: Replay_def)
        then show ?thesis by (auto simp: ledger_ok_def record_Validate_def trim_space_def trim_left_def split: if_splits)
      qed (use rs in \<open>simp_all add: Replay_def\<close>)
      ultimately have "rc_ID e \<notin> set (consumed rs)" using already_consumed by blast
      then show ?thesis by (simp add: consumes_fresh_def Some rs consumed_append new)
    qed
  qed (simp add: consumes_fresh_def Some)
qed (simp add: consumes_fresh_def)

subsection \<open>Histories that can be reached\<close>

text \<open>One step of anything on a workspace: an operation with any surroundings, stopped or not, another
  record in the history, or any change to what is not the history (plans, states, evidence).\<close>

inductive ledger_step :: "workspace \<Rightarrow> workspace \<Rightarrow> bool" where
  operated: "operation_text change op env w \<Longrightarrow> operate change op env e w = (res, w') \<Longrightarrow> ledger_step w w'"
| recorded: "rc_Kind r \<noteq> ''completion'' \<Longrightarrow> encodable r \<Longrightarrow>
    AppendUnderLock os out parent path FamilyHistory (ws_history w) r = (res, f) \<Longrightarrow>
    ledger_step w (w\<lparr>ws_history := f\<rparr>)"
| edited: "ws_history w' = ws_history w \<Longrightarrow> ledger_step w w'"

text \<open>What can be read does not depend on the path that messages name.\<close>

lemma Replay_path:
  assumes "Replay f path family = Inr (rs, ds)"
  shows "\<exists>ds'. Replay f path' family = Inr (rs, ds')"
proof (cases f)
  case (Bytes raw)
  have lines: "replay_lines path family 0 [] Map.empty [] ls = Inr rs \<Longrightarrow>
      replay_lines path' family 0 [] Map.empty [] ls = Inr rs" for ls
    by (simp add: replay_lines_iff)
  show ?thesis using assms Bytes lines
    by (auto simp: Replay_def replay_def Let_def bindE_eq_Inr split: if_splits)
qed (use assms in \<open>simp_all add: Replay_def\<close>)

text \<open>One step keeps the records and consumes no evidence twice.\<close>

definition extends :: "ledger_file \<Rightarrow> ledger_file \<Rightarrow> bool" where
  "extends f f' \<longleftrightarrow> (\<forall>path rs' ds'. Replay f' path FamilyHistory = Inr (rs', ds') \<longrightarrow>
     (\<exists>rs ds. Replay f path FamilyHistory = Inr (rs, ds) \<and> prefix rs rs' \<and>
        (distinct (consumed rs) \<longrightarrow> distinct (consumed rs'))))"

lemma extends_refl [simp]: "extends f f"
  by (auto simp: extends_def)

lemma extends_trans: "extends f g \<Longrightarrow> extends g h \<Longrightarrow> extends f h"
  unfolding extends_def by (fast intro: prefix_order.trans)

lemma append_extends:
  assumes a: "AppendUnderLock os out parent path FamilyHistory f r = (res, f')" and e: "encodable r"
    and fresh: "\<And>rs ds. Replay f path FamilyHistory = Inr (rs, ds) \<Longrightarrow> distinct (consumed rs) \<Longrightarrow>
      distinct (consumed (rs @ [r]))"
  shows "extends f f'"
  unfolding extends_def
proof (intro allI impI)
  fix path' rs' ds' assume "Replay f' path' FamilyHistory = Inr (rs', ds')"
  then obtain ds'' where "Replay f' path FamilyHistory = Inr (rs', ds'')" using Replay_path by blast
  from append_outcome [OF a e this] obtain rs ds where rs: "Replay f path FamilyHistory = Inr (rs, ds)"
    "rs' = rs \<or> rs' = rs @ [r]" by blast
  obtain ds0 where "Replay f path' FamilyHistory = Inr (rs, ds0)" using Replay_path [OF rs(1)] by blast
  then show "\<exists>rs ds. Replay f path' FamilyHistory = Inr (rs, ds) \<and> prefix rs rs' \<and>
        (distinct (consumed rs) \<longrightarrow> distinct (consumed rs'))"
    using rs(2) fresh [OF rs(1)] by auto
qed

lemma run_operation_extends:
  assumes "\<And>c. decide env w = Inr c \<Longrightarrow> consumes_fresh env w c" and "records_text decide env w"
    and "run_operation decide env e w = (res, w')"
  shows "extends (ws_history w) (ws_history w')"
proof (cases "decide env w")
  case (Inr c)
  note fresh = assms(1) [OF Inr]
  have persisted: "ws_history (snd (persist_commit env c v)) = ws_history v" for v
    by (auto simp: persist_commit_def persist_state_def split: sum.splits prod.splits)
  show ?thesis
  proof (cases "cm_record c")
    case None
    then show ?thesis using persisted [of w] assms(3) Inr by (simp add: run_operation_def commit_def)
  next
    case (Some r)
    have enc: "encodable r" using assms(2) Inr Some by (simp add: records_text_def)
    obtain res1 w1 where a: "append_history env (cm_locked c) r w = (res1, w1)" by (cases "append_history env (cm_locked c) r w")
    have "extends (ws_history w) (ws_history w1)"
    proof (cases "if cm_locked c then None else ce_lock env ''.records.lock''")
      case None
      with a obtain f where "AppendUnderLock (ce_append env) (ce_write env) (ce_parent env)
          (History (ce_owner env)) FamilyHistory (ws_history w) r = (res1, f)" "w1 = w\<lparr>ws_history := f\<rparr>"
        by (auto simp: append_history_def split: prod.splits)
      moreover have "distinct (consumed (rs @ [r]))"
        if "Replay (ws_history w) (History (ce_owner env)) FamilyHistory = Inr (rs, ds)" "distinct (consumed rs)" for rs ds
        using fresh that by (simp add: consumes_fresh_def Some)
      ultimately show ?thesis using append_extends enc by simp
    qed (use a in \<open>simp add: append_history_def\<close>)
    moreover have "ws_history w' = ws_history w1"
      using assms(3) Inr Some a persisted [of w1]
      by (auto simp: run_operation_def commit_def split: sum.splits option.splits)
    ultimately show ?thesis by simp
  qed
qed (use assms(3) in \<open>simp add: run_operation_def\<close>)

lemma operate_extends:
  assumes "operation_text change op env w" and "operate change op env e w = (res, w')"
  shows "extends (ws_history w) (ws_history w')"
proof (cases op)
  case (Approval_by q)
  then show ?thesis using assms run_operation_extends [of "decide_approve change q" env w e, OF approve_fresh]
    by (auto simp: Approve_def apfst_def map_prod_def split: prod.splits)
next
  case (Transition_by q)
  then show ?thesis using assms run_operation_extends [of "decide_transition change q" env w e, OF transition_fresh]
    by (auto simp: TransitionTaskActivity_def apfst_def map_prod_def split: prod.splits)
next
  case (Attempt_by q)
  then show ?thesis using assms run_operation_extends [of "decide_attempt change q" env w e, OF attempt_fresh]
    by (auto simp: StartAttempt_def apfst_def map_prod_def split: prod.splits)
next
  case (Completion_by q)
  then show ?thesis using assms run_operation_extends [of "decide_completion change q" env w e, OF completion_fresh]
    by (auto simp: CompleteTask_def apfst_def map_prod_def split: prod.splits)
next
  case (Reopening_by q)
  then show ?thesis using assms run_operation_extends [of "decide_reopen change q" env w e, OF reopen_fresh]
    by (auto simp: Reopen_def apfst_def map_prod_def split: prod.splits)
qed

lemma ledger_step_extends: "ledger_step w w' \<Longrightarrow> extends (ws_history w) (ws_history w')"
proof (induction rule: ledger_step.induct)
  case (operated change op env w e res w')
  then show ?case by (rule operate_extends)
next
  case (recorded r os out parent path w res f)
  have "distinct (consumed (rs @ [r]))" if "distinct (consumed rs)" for rs
    using that recorded(1) by (simp add: consumed_append consumed_other)
  then show ?case using append_extends [OF recorded(3,2)] by simp
qed simp

lemma ledger_steps_extend: "ledger_step\<^sup>*\<^sup>* w w' \<Longrightarrow> extends (ws_history w) (ws_history w')"
  by (induction rule: rtranclp_induct) (auto intro: extends_trans dest: ledger_step_extends)

end
