(* ===== verification/Deciding.thy ===== *)
theory Deciding
  imports Operations
begin

text \<open>
  What every decision of an operation has in common: it rests on the state of the change and a complete
  history, it either records one step from the revision of the state or takes up the last such record
  of its own kind, and the next state is that step.
\<close>

definition advances :: "state \<Rightarrow> string \<Rightarrow> error + state \<Rightarrow> bool" where
  "advances s i next' \<longleftrightarrow> (case next' of Inl _ \<Rightarrow> True
     | Inr t \<Rightarrow> st_Revision t = st_Revision s + 1 \<and> st_LastTransition t = i \<and> st_Change t = st_Change s \<and>
         st_SchemaVersion t = st_SchemaVersion s)"

text \<open>A record that takes the change one revision on from a state.\<close>

definition takes_step :: "string \<Rightarrow> string \<Rightarrow> state \<Rightarrow> hist_record \<Rightarrow> bool" where
  "takes_step kind change s r \<longleftrightarrow> rc_Kind r = kind \<and> rc_Change r = change \<and>
     rc_Expected r = Some (st_Revision s) \<and> rc_Resulting r = Some (st_Revision s + 1)"

definition decided :: "string \<Rightarrow> string \<Rightarrow> core_env \<Rightarrow> workspace \<Rightarrow> string \<Rightarrow> state \<Rightarrow> 'r commit \<Rightarrow> bool" where
  "decided kind change env w p s c \<longleftrightarrow> cm_path c = p \<and>
     (case Replay (ws_history w) (History (ce_owner env)) FamilyHistory of
        Inr (rs, []) \<Rightarrow> (case cm_record c of
            None \<Rightarrow> (case pending_record kind rs change (st_Revision s) of
                None \<Rightarrow> False | Some x \<Rightarrow> advances s (rc_ID x) (cm_state c))
          | Some r \<Rightarrow> takes_step kind change s r \<and> advances s (rc_ID r) (cm_state c))
      | _ \<Rightarrow> False)"

text \<open>The state of a change, read from a regular file.\<close>

definition holds_state :: "core_env \<Rightarrow> workspace \<Rightarrow> string \<Rightarrow> string \<Rightarrow> state \<Rightarrow> bool" where
  "holds_state env w change p s \<longleftrightarrow> ChangeState (ce_owner env) (ws_fs w) change = Inr p \<and>
     (case lstat (ws_fs w) p of
        Found (NFile raw) \<Rightarrow> state_Decode (read_text raw) change = Inr s
      | _ \<Rightarrow> False)"

lemma holds_state_change_state: "holds_state env w change p s \<Longrightarrow> change_state env w change = Inr (p, s)"
  by (auto simp: holds_state_def change_state_def readCheckState_def split: stat.splits node.splits)

lemma transition_takes_step:
  "transition_record kind change (st_Revision s) now actor payload = Inr r \<Longrightarrow> takes_step kind change s r"
  using transition_record_Inr by (auto simp: takes_step_def)

lemma decided_new:
  "Replay (ws_history w) (History (ce_owner env)) FamilyHistory = Inr (rs, []) \<Longrightarrow> cm_record c = Some r \<Longrightarrow>
     takes_step kind change s r \<Longrightarrow> cm_path c = p \<Longrightarrow> advances s (rc_ID r) (cm_state c) \<Longrightarrow>
     decided kind change env w p s c"
  by (simp add: decided_def)

lemma decided_pending:
  "Replay (ws_history w) (History (ce_owner env)) FamilyHistory = Inr (rs, []) \<Longrightarrow> cm_record c = None \<Longrightarrow>
     pending_record kind rs change (st_Revision s) = Some x \<Longrightarrow> cm_path c = p \<Longrightarrow>
     advances s (rc_ID x) (cm_state c) \<Longrightarrow> decided kind change env w p s c"
  by (simp add: decided_def)

subsection \<open>The next states\<close>

lemma set_task_fields:
  "set_task i raw s = Inr t \<Longrightarrow> st_Revision t = st_Revision s \<and> st_Change t = st_Change s \<and>
     st_SchemaVersion t = st_SchemaVersion s \<and> st_Stage t = st_Stage s"
  by (auto simp: set_task_def split: option.splits)

lemma advance_fields [simp]:
  "st_Revision (advance h s) = st_Revision s + 1" "st_LastTransition (advance h s) = h"
  "st_Change (advance h s) = st_Change s" "st_SchemaVersion (advance h s) = st_SchemaVersion s"
  by (simp_all add: advance_def)

lemma next_states:
  "advances s h (persistTaskTransitionState s t h)"
  "advances s h (persistAttemptState s as a h)"
  "advances s h (Inr (persistApprovalState s ap h))"
  "advances s h (Inr (persistReopenedState s h))"
  "advances s h (persistCompletionState path s c h)"
  by (auto simp: advances_def persistTaskTransitionState_def persistAttemptState_def persistApprovalState_def
      persistReopenedState_def persistCompletionState_def bindE_eq_Inr Let_def
      dest: set_task_fields split: sum.splits if_splits)

subsection \<open>The decisions\<close>

lemma approve_decided:
  assumes "decide_approve change q env w = Inr c" and h: "holds_state env w change p s"
  shows "decided ''approved'' change env w p s c"
proof -
  obtain who where locked: "approve_locked env w change q who = Inr c"
    using assms(1) by (auto simp: decide_approve_def bindE_eq_Inr dest!: with_change_lock_Inr)
  obtain p' s' g i rs where k: "check_approve env w change = Inr (p', s', g, i)"
    and rs: "Replay (ws_history w) (History (ce_owner env)) FamilyHistory = Inr (rs, [])"
    and res: "resolve_approval env change who (aqi_Reason q) p' s' g i rs = Inr c"
    using locked by (auto simp: approve_locked_def bindE_eq_Inr dest: history_of_Inr)
  have "p' = p" "s' = s"
    using k h by (auto simp: check_approve_def Let_def bindE_eq_Inr holds_state_def os_ReadFile_def
        split: if_splits stat.splits node.splits sum.splits)
  note res = res [unfolded this]
  show ?thesis
  proof (cases "recoverableApproval rs change (st_Revision s)")
    case None
    then show ?thesis using res
      by (auto simp: resolve_approval_def Let_def bindE_eq_Inr next_states
          intro!: decided_new [OF rs] transition_takes_step)
  next
    case (Some x)
    then obtain item where "pending_record ''approved'' rs change (st_Revision s) = Some item" "snd x = rc_ID item"
      by (auto simp: recoverableApproval_def split: option.splits sum.splits if_splits)
    then show ?thesis using res Some
      by (cases x) (auto simp: resolve_approval_def Let_def next_states split: if_splits
          intro!: decided_pending [OF rs])
  qed
qed

lemma transition_decided:
  assumes "decide_transition change q env w = Inr c" and h: "holds_state env w change p s"
  shows "decided ''task_transition'' change env w p s c"
proof -
  obtain actor rs rec frm where rs: "Replay (ws_history w) (History (ce_owner env)) FamilyHistory = Inr (rs, [])"
    and rec: "recoverableTaskTransition rs change (st_Revision s) = Inr rec"
    and res: "resolve_transition env change q actor p s rs rec frm = Inr c"
    using assms(1) holds_state_change_state [OF h]
    by (auto simp: decide_transition_def transition_locked_def bindE_eq_Inr Let_def dest!: with_change_lock_Inr
        dest: history_of_Inr split: if_splits)
  show ?thesis
  proof (cases rec)
    case None
    then show ?thesis using res
      by (auto simp: resolve_transition_def Let_def bindE_eq_Inr next_states
          intro!: decided_new [OF rs] transition_takes_step)
  next
    case (Some x)
    then obtain item where "pending_record ''task_transition'' rs change (st_Revision s) = Some item" "snd x = rc_ID item"
      using rec by (auto simp: recoverableTaskTransition_def split: option.splits sum.splits)
    then show ?thesis using res Some
      by (cases x) (auto simp: resolve_transition_def Let_def next_states split: if_splits
          intro!: decided_pending [OF rs])
  qed
qed

lemma attempt_decided:
  assumes "decide_attempt change q env w = Inr c" and h: "holds_state env w change p s"
  shows "decided ''attempt'' change env w p s c"
proof -
  obtain actor as rs rec st where rs: "Replay (ws_history w) (History (ce_owner env)) FamilyHistory = Inr (rs, [])"
    and rec: "recoverableAttempt rs change (st_Revision s) = Inr rec"
    and res: "resolve_attempt env change actor p s as rs rec st = Inr c"
    using assms(1) holds_state_change_state [OF h]
    by (auto simp: decide_attempt_def start_locked_def bindE_eq_Inr Let_def dest!: with_change_lock_Inr
        dest: history_of_Inr split: if_splits)
  show ?thesis
  proof (cases rec)
    case None
    then show ?thesis using res
      by (auto simp: resolve_attempt_def Let_def bindE_eq_Inr next_states
          intro!: decided_new [OF rs] transition_takes_step)
  next
    case (Some x)
    then obtain item where "pending_record ''attempt'' rs change (st_Revision s) = Some item" "snd x = rc_ID item"
      using rec by (auto simp: recoverableAttempt_def Let_def split: option.splits sum.splits if_splits)
    then show ?thesis using res Some
      by (cases x) (auto simp: resolve_attempt_def Let_def next_states split: if_splits
          intro!: decided_pending [OF rs])
  qed
qed

lemma reopen_decided:
  assumes "decide_reopen change q env w = Inr c" and h: "holds_state env w change p s"
  shows "decided ''reopened'' change env w p s c"
proof -
  obtain actor reason where locked: "reopen_locked env w change q actor reason = Inr c"
    using assms(1) by (auto simp: decide_reopen_def Let_def dest!: with_change_lock_Inr split: if_splits)
  obtain p' s' rs found where f: "reopen_state env w change q = Inr (p', s')"
    "history_of env w (reopenFailure ''reopen_history'' (History (ce_owner env))
       [Str ''history has an incomplete tail''] ''repair history and run status'') = Inr rs"
    "latestApproval rs change = Inr found"
    using locked by (auto simp: reopen_locked_def bindE_eq_Inr Let_def)
  note rs = history_of_Inr [OF f(2)]
  have "p' = p" "s' = s"
    using f(1) h by (auto simp: reopen_state_def Let_def bindE_eq_Inr holds_state_def os_ReadFile_def
        split: if_splits stat.splits node.splits)
  note f = f [unfolded this]
  obtain a i pl rec where rec: "recoverableReopen rs change (st_Revision s) = Inr rec"
    and res: "resolve_reopen env change p s rs a i pl rec = Inr c"
    using locked f by (cases found) (auto simp: reopen_locked_def bindE_eq_Inr Let_def split: if_splits)
  show ?thesis
  proof (cases rec)
    case None
    then show ?thesis using res
      by (auto simp: resolve_reopen_def reopen_commit_def Let_def bindE_eq_Inr next_states split: if_splits
          intro!: decided_new [OF rs] transition_takes_step)
  next
    case (Some x)
    then obtain item where "pending_record ''reopened'' rs change (st_Revision s) = Some item" "snd x = rc_ID item"
      using rec by (auto simp: recoverableReopen_def split: option.splits sum.splits)
    then show ?thesis using res Some
      by (cases x) (auto simp: resolve_reopen_def reopen_commit_def Let_def next_states split: if_splits
          intro!: decided_pending [OF rs])
  qed
qed

lemma complete_locked_decided:
  assumes locked: "complete_locked env w change q policy actor = Inr c" and h: "holds_state env w change p s"
  shows "decided ''completion'' change env w p s c"
proof -
  obtain raw where raw: "ChangeState (ce_owner env) (ws_fs w) change = Inr p"
    "readCheckState (ce_tree env) (ws_fs w) p = Inr raw" "state_Decode (read_text raw) change = Inr s"
    using h by (auto simp: holds_state_def readCheckState_def split: stat.splits node.splits)
  have lock: "ce_lock env ''.records.lock'' = None" and expected: "st_Revision s = coq_ExpectedRevision q"
    using locked raw by (auto simp: complete_locked_def with_ledger_lock_def Let_def split: if_splits option.splits)
  obtain rs rec where f: "history_of env w (completionFailure ''complete_history'' (History (ce_owner env))
                [Str ''history has an incomplete tail''] ''repair history and run status'') = Inr rs"
    and rec: "recoverableCompletion rs change (coq_ExpectedRevision q) = Inr rec"
    using locked raw expected
    by (auto simp: complete_locked_def with_ledger_lock_def Let_def lock bindE_eq_Inr)
  note rs = history_of_Inr [OF f]
  show ?thesis
  proof (cases rec)
    case None
    obtain ap x where "finish_completion env w change q actor p s ap x = Inr c"
      using locked raw expected f rec None
      by (auto simp: complete_locked_def with_ledger_lock_def Let_def lock bindE_eq_Inr)
    then obtain y r where t: "transition_record ''completion'' change (st_Revision s) (ce_now env) actor
        (completion_payload_json y) = Inr r" and c: "c = completion_commit env p (Some r) s y (rc_ID r)"
      by (auto simp: finish_completion_def bindE_eq_Inr split: option.splits)
    show ?thesis
      by (rule decided_new [OF rs _ transition_takes_step [OF t]]) (simp_all add: c completion_commit_def next_states)
  next
    case (Some x)
    obtain y i where x: "x = (y, i)" by (cases x)
    then obtain item where item: "pending_record ''completion'' rs change (st_Revision s) = Some item" "i = rc_ID item"
      using rec Some expected by (auto simp: recoverableCompletion_def split: option.splits sum.splits)
    have "recover_completion env w q p s y i = Inr c"
      using locked raw expected f rec Some x by (simp add: complete_locked_def with_ledger_lock_def Let_def lock)
    then have "c = completion_commit env p None s y i"
      by (auto simp: recover_completion_def bindE_eq_Inr split: if_splits)
    then show ?thesis
      by (intro decided_pending [OF rs _ item(1)]) (simp_all add: completion_commit_def next_states item(2))
  qed
qed

lemma completion_decided:
  assumes "decide_completion change q env w = Inr c" and h: "holds_state env w change p s"
  shows "decided ''completion'' change env w p s c"
  using assms(1) complete_locked_decided [OF _ h]
  by (auto simp: decide_completion_def Let_def bindE_eq_Inr dest!: with_change_lock_Inr split: if_splits)

subsection \<open>One step at a time\<close>

fun operation_kind :: "operation \<Rightarrow> string" where
  "operation_kind (Approval_by q) = ''approved''"
| "operation_kind (Transition_by q) = ''task_transition''"
| "operation_kind (Attempt_by q) = ''attempt''"
| "operation_kind (Completion_by q) = ''completion''"
| "operation_kind (Reopening_by q) = ''reopened''"

text \<open>Where the history holds a step of the change from the revision of its state that is not the
  operation's own, the operation fails and leaves everything as it is: it cannot record a second
  step from that revision, and it does not take up the step of another.\<close>

lemma stuck_run:
  assumes dec: "\<And>c. decide env w = Inr c \<Longrightarrow> decided kind change env w p s c"
    and rs: "Replay (ws_history w) (History (ce_owner env)) FamilyHistory = Inr (rs, [])"
    and ahead: "last_revision change rs = Some (st_Revision s + 1)"
    and none: "pending_record kind rs change (st_Revision s) = None"
  shows "\<exists>x. run_operation decide env e w = (Inl x, w)"
proof (cases "decide env w")
  case (Inr c)
  from dec [OF Inr] obtain r where r: "cm_record c = Some r" "takes_step kind change s r"
    by (auto simp: decided_def rs none split: option.splits)
  have "append_check (History (ce_owner env)) FamilyHistory (ws_history w) r \<noteq> Inr ()"
    using r(2) ahead by (auto simp: append_check_def rs takes_step_def split: if_splits)
  then have refused: "\<exists>x. AppendUnderLock os out parent (History (ce_owner env)) FamilyHistory (ws_history w) r =
      (Inl x, ws_history w)" for os out parent
    by (auto simp: AppendUnderLock_def appendLocked_def split: sum.splits ledger_file.splits)
  have "\<exists>x. append_history env (cm_locked c) r w = (Inl x, w)"
    using refused [of "ce_append env" "ce_write env" "ce_parent env"]
    by (cases "if cm_locked c then None else ce_lock env ''.records.lock''") (auto simp: append_history_def)
  then show ?thesis using Inr r(1) by (auto simp: run_operation_def commit_def)
qed (simp add: run_operation_def)

lemma stuck_operation:
  assumes h: "holds_state env w change p s"
    and rs: "Replay (ws_history w) (History (ce_owner env)) FamilyHistory = Inr (rs, [])"
    and ahead: "last_revision change rs = Some (st_Revision s + 1)"
    and none: "pending_record (operation_kind op) rs change (st_Revision s) = None"
  shows "\<exists>x. operate change op env e w = (Inl x, w)"
proof (cases op)
  case (Approval_by q)
  have "\<exists>x. run_operation (decide_approve change q) env e w = (Inl x, w)"
    by (rule stuck_run [OF approve_decided [OF _ h] rs ahead]) (use none in \<open>simp_all add: Approval_by\<close>)
  then show ?thesis by (auto simp: Approval_by Approve_def)
next
  case (Transition_by q)
  have "\<exists>x. run_operation (decide_transition change q) env e w = (Inl x, w)"
    by (rule stuck_run [OF transition_decided [OF _ h] rs ahead]) (use none in \<open>simp_all add: Transition_by\<close>)
  then show ?thesis by (auto simp: Transition_by TransitionTaskActivity_def)
next
  case (Attempt_by q)
  have "\<exists>x. run_operation (decide_attempt change q) env e w = (Inl x, w)"
    by (rule stuck_run [OF attempt_decided [OF _ h] rs ahead]) (use none in \<open>simp_all add: Attempt_by\<close>)
  then show ?thesis by (auto simp: Attempt_by StartAttempt_def)
next
  case (Completion_by q)
  have "\<exists>x. run_operation (decide_completion change q) env e w = (Inl x, w)"
    by (rule stuck_run [OF completion_decided [OF _ h] rs ahead]) (use none in \<open>simp_all add: Completion_by\<close>)
  then show ?thesis by (auto simp: Completion_by CompleteTask_def)
next
  case (Reopening_by q)
  have "\<exists>x. run_operation (decide_reopen change q) env e w = (Inl x, w)"
    by (rule stuck_run [OF reopen_decided [OF _ h] rs ahead]) (use none in \<open>simp_all add: Reopening_by\<close>)
  then show ?thesis by (auto simp: Reopening_by Reopen_def)
qed

end
