(* ===== verification/Scenario.thy ===== *)
theory Scenario
  imports Recording Deciding CheckProps
begin

text \<open>
  One change taken through its operations on a concrete workspace, with hashes left as they are.
\<close>

definition tree_of :: "string \<Rightarrow> fs" where
  "tree_of raw =
     [([], NDir), (''changes'', NDir), (''changes/c'', NDir),
      (''changes/c/state.json'', NFile raw),
      (''changes/c/proposal.md'', doc (section_lines proposalSections)),
      (''changes/c/design.md'', doc (section_lines designSections)),
      (''changes/c/tasks.md'', doc
         [''| id | role | files | depends-on | refs | verify | acceptance |'',
          ''|---|---|---|---|---|---|---|'',
          ''| t | builder | a.go |  | x/Requirement: R | go test | ok |'']),
      (''changes/c/specs'', NDir), (''changes/c/specs/x'', NDir),
      (''changes/c/specs/x/spec.md'', doc
         [''## Purpose'', ''p'', ''## ADDED Requirements'', ''### Requirement: R'', ''MUST'',
           ''#### Scenario: s'', ''- WHEN a'', ''- THEN b''])]"

definition file_bytes :: "node \<Rightarrow> string" where
  "file_bytes n = (case n of NFile b \<Rightarrow> b | _ \<Rightarrow> [])"

definition text_at :: "string \<Rightarrow> string" where
  "text_at p = (case map_of (tree_of []) p of Some n \<Rightarrow> file_bytes n | None \<Rightarrow> [])"

definition artifact_names :: "string list" where
  "artifact_names = [''proposal.md'', ''design.md'', ''tasks.md'', ''specs/x/spec.md'']"

definition plan_as_expected :: "change option \<Rightarrow> bool" where
  "plan_as_expected r \<longleftrightarrow> clean_but_fences 0 r \<and> (case r of None \<Rightarrow> False | Some c \<Rightarrow>
     map (\<lambda>s. (src_Path s, src_Present s, src_Bytes s)) (plan_sources c) =
       map (\<lambda>p. (''/p/.specd/changes/c/'' @ p, True, text_at (''changes/c/'' @ p))) artifact_names)"

lemma tree_plan: "plan_as_expected (ParseChange sample_env (tree_of raw) ''c'')"
  by code_simp

lemma tree_paths:
  "ChangeState (te_owner sample_env) (tree_of raw) ''c'' = Inr ''changes/c/state.json''"
  "owner_Change (te_owner sample_env) (tree_of raw) ''c'' = Inr ''changes/c''"
  "lstat (tree_of raw) ''changes/c/state.json'' = Found (NFile raw)"
  "lstat (tree_of raw) ''changes/c'' = Found NDir"
  "ChangeLock (te_owner sample_env) (tree_of raw) ''c'' = Inr ''changes/c/.lock'' \<or>
   isOk (ChangeLock (te_owner sample_env) (tree_of raw) ''c'')"
  by code_simp+

abbreviation tree_plan_of :: "string \<Rightarrow> change" where
  "tree_plan_of raw \<equiv> plan_of sample_env (tree_of raw) ''c''"

lemma tree_plan_clean: "clean_but_fences 0 (ParseChange sample_env (tree_of raw) ''c'')"
  using tree_plan [of raw] by (simp add: plan_as_expected_def)

lemma tree_sources:
  "map (\<lambda>s. (src_Path s, src_Present s, src_Bytes s)) (plan_sources (tree_plan_of raw)) =
     map (\<lambda>p. (''/p/.specd/changes/c/'' @ p, True, text_at (''changes/c/'' @ p))) artifact_names"
  using tree_plan [of raw] unfolding plan_of_parses plan_as_expected_def by simp

subsection \<open>What the approval covers\<close>

definition covered_artifacts :: "approval_artifact list" where
  "covered_artifacts = map (\<lambda>p. artifact_of p (text_at (''changes/c/'' @ p)))
     [''design.md'', ''proposal.md'', ''specs/x/spec.md'', ''tasks.md'']"

text \<open>The functions over the sources of a plan read their paths, presence and bytes alone.\<close>

lemma covered_paths_map:
  "map src_Path ss = map src_Path ss' \<Longrightarrow> covered_paths out root ss = covered_paths out root ss'"
proof (induction ss arbitrary: ss')
  case (Cons s ss)
  then obtain t ts where "ss' = t # ts" by (cases ss') auto
  then show ?case using Cons by (cases "filepath_Rel root (src_Path t)") auto
qed simp

fun artifacts_from :: "string \<Rightarrow> string list \<Rightarrow> (string \<times> bool \<times> string) list \<Rightarrow> error + approval_artifact list" where
  "artifacts_from root seen [] = Inr []"
| "artifacts_from root seen ((p, here, raw) # ss) =
     (let unsafe = failed ''canonical plan contains an unsafe or absent approval artifact'' in
      case filepath_Rel root p of
        Inl _ \<Rightarrow> Inl unsafe
      | Inr rel \<Rightarrow>
          if \<not> here \<or> \<not> safeApprovalPath rel \<or> rel \<in> set seen then Inl unsafe
          else bindE (artifacts_from root (rel # seen) ss) (\<lambda>as. Inr (artifact_of rel raw # as)))"

lemma plan_artifacts_map:
  "plan_artifacts root seen ss = artifacts_from root seen (map (\<lambda>s. (src_Path s, src_Present s, src_Bytes s)) ss)"
proof (induction ss arbitrary: seen)
  case (Cons s ss)
  then show ?case by (cases "filepath_Rel root (src_Path s)") (simp_all add: Let_def)
qed simp

lemma sort_artifacts:
  "sort_key aa_Path (map (\<lambda>p. artifact_of p (f p)) ps) = map (\<lambda>p. artifact_of p (f p)) (sort ps)"
proof (induction ps)
  case (Cons p ps)
  have "insort_key aa_Path (artifact_of p (f p)) (map (\<lambda>p. artifact_of p (f p)) xs) =
      map (\<lambda>p. artifact_of p (f p)) (insort p xs)" for xs
    by (induction xs) (simp_all add: artifact_of_def)
  then show ?case using Cons by simp
qed simp

lemma tree_identity:
  "approvalIdentityFromPlan ''/p/.specd/changes/c'' (tree_plan_of raw) = Inr (identity_of covered_artifacts)"
proof -
  have rel: "filepath_Rel ''/p/.specd/changes/c'' (''/p/.specd/changes/c/'' @ p) = Inr p \<and> safeApprovalPath p"
    if "p \<in> set artifact_names" for p
  proof -
    have "\<forall>p \<in> set artifact_names.
        filepath_Rel ''/p/.specd/changes/c'' (''/p/.specd/changes/c/'' @ p) = Inr p \<and> safeApprovalPath p" by code_simp
    then show ?thesis using that by blast
  qed
  have names: "distinct artifact_names" by code_simp
  have "artifacts_from ''/p/.specd/changes/c'' seen (map (\<lambda>p. (''/p/.specd/changes/c/'' @ p, True, f p)) ps) =
      Inr (map (\<lambda>p. artifact_of p (f p)) ps)"
    if "set ps \<subseteq> set artifact_names" "distinct ps" "set seen \<inter> set ps = {}" for ps seen f
    using that
  proof (induction ps arbitrary: seen)
    case (Cons p ps)
    then have "artifacts_from ''/p/.specd/changes/c'' (p # seen)
        (map (\<lambda>p. (''/p/.specd/changes/c/'' @ p, True, f p)) ps) = Inr (map (\<lambda>p. artifact_of p (f p)) ps)" by auto
    then show ?case using Cons.prems rel [of p] by simp
  qed simp
  from this [of artifact_names "[]"] names
  have "plan_artifacts ''/p/.specd/changes/c'' [] (plan_sources (tree_plan_of raw)) =
      Inr (map (\<lambda>p. artifact_of p (text_at (''changes/c/'' @ p))) artifact_names)"
    by (simp add: plan_artifacts_map tree_sources)
  moreover have "sort artifact_names = [''design.md'', ''proposal.md'', ''specs/x/spec.md'', ''tasks.md'']" by code_simp
  ultimately show ?thesis
    by (simp add: approvalIdentityFromPlan_def sort_artifacts covered_artifacts_def)
qed

lemma tree_covered:
  "approvalCoveredPaths ''/p/.specd/changes/c'' (tree_plan_of raw) = Inr artifact_names"
  "statusCoveredPaths ''/p/.specd/changes/c'' (tree_plan_of raw) = Inr (sort artifact_names)"
proof -
  define some where "some = map (\<lambda>p. \<lparr>src_Path = ''/p/.specd/changes/c/'' @ p, src_Bytes = [], src_Present = True\<rparr>) artifact_names"
  have "map fst (map (\<lambda>s. (src_Path s, src_Present s, src_Bytes s)) (plan_sources (tree_plan_of raw))) = map src_Path some"
    unfolding tree_sources some_def by simp
  then have paths: "map src_Path (plan_sources (tree_plan_of raw)) = map src_Path some" by (simp add: comp_def)
  have "covered_paths (\<lambda>rel. rel = ''.'' \<or> has_prefix rel ''..'') ''/p/.specd/changes/c'' some = Inr artifact_names"
    "covered_paths (\<lambda>rel. rel = ''.'' \<or> rel = ''..'' \<or> has_prefix rel ''../'') ''/p/.specd/changes/c'' some = Inr artifact_names"
    unfolding some_def by code_simp+
  then show "approvalCoveredPaths ''/p/.specd/changes/c'' (tree_plan_of raw) = Inr artifact_names"
    "statusCoveredPaths ''/p/.specd/changes/c'' (tree_plan_of raw) = Inr (sort artifact_names)"
    by (simp_all add: approvalCoveredPaths_def statusCoveredPaths_def covered_paths_map [OF paths])
qed

definition sample_git :: "nat \<Rightarrow> string list \<Rightarrow> error + string" where
  "sample_git at arguments =
     (if arguments = [''rev-parse'', ''--show-toplevel''] then Inr ''/p''
      else if arguments = [''rev-parse'', ''--verify'', ''HEAD^{commit}''] then Inr (replicate 40 CHR ''a'')
      else Inr [])"

definition sample_core :: core_env where
  "sample_core = \<lparr>ce_tree = sample_env, ce_same = (\<lambda>_ _. False), ce_lock = (\<lambda>_. None), ce_git = sample_git,
     ce_project = [(''.git'', NDir)], ce_follow = (\<lambda>_. Inl json_error), ce_now = ''2026-01-02T03:04:05Z'',
     ce_parent = Inr True, ce_append = os_ok, ce_write = Written, ce_replace = os_ok\<rparr>"

lemma tree_current:
  "currentApprovalCoveredPaths sample_core (tree_of raw) ''changes/c'' = Inr (sort artifact_names)"
  unfolding sample_core_def by code_simp

lemma tree_read:
  "p \<in> set artifact_names \<Longrightarrow> readApprovalArtifact (te_owner sample_env) (tree_of raw) ''changes/c'' p =
     Inr (text_at (''changes/c/'' @ p))"
proof -
  have "\<forall>p \<in> set artifact_names. readApprovalArtifact (te_owner sample_env) (tree_of raw) ''changes/c'' p =
     Inr (text_at (''changes/c/'' @ p))" by code_simp
  then show "p \<in> set artifact_names \<Longrightarrow> readApprovalArtifact (te_owner sample_env) (tree_of raw) ''changes/c'' p =
     Inr (text_at (''changes/c/'' @ p))" by blast
qed

lemma tree_computed:
  "ComputeApprovalIdentity sample_core (tree_of raw) ''changes/c'' artifact_names = Inr (identity_of covered_artifacts)"
proof -
  have safe: "\<forall>p \<in> set artifact_names. safeApprovalPath p" by code_simp
  have read: "read_covered sample_core (tree_of raw) ''changes/c'' seen ps =
      Inr (map (\<lambda>p. artifact_of p (text_at (''changes/c/'' @ p))) ps)"
    if "set ps \<subseteq> set artifact_names" "distinct ps" "set seen \<inter> set ps = {}" for ps seen
    using that
  proof (induction ps arbitrary: seen)
    case (Cons p ps)
    then have "read_covered sample_core (tree_of raw) ''changes/c'' (p # seen) ps =
      Inr (map (\<lambda>p. artifact_of p (text_at (''changes/c/'' @ p))) ps)" by auto
    moreover have "\<not> list_ex (\<lambda>s. ce_same sample_core (in_project (path_join ''changes/c'' s))
        (in_project (path_join ''changes/c'' p))) seen" by (simp add: sample_core_def list_ex_iff)
    ultimately show ?case using Cons.prems safe tree_read [of p raw] by (simp add: sample_core_def)
  qed simp
  have names: "distinct (sort artifact_names)" "artifact_names \<noteq> []"
    "sort artifact_names = [''design.md'', ''proposal.md'', ''specs/x/spec.md'', ''tasks.md'']" by code_simp+
  have "read_covered sample_core (tree_of raw) ''changes/c'' [] (sort artifact_names) =
      Inr (map (\<lambda>p. artifact_of p (text_at (''changes/c/'' @ p))) (sort artifact_names))"
    by (rule read) (use names(1) in simp_all)
  then have "read_covered sample_core (tree_of raw) ''changes/c'' [] (sort artifact_names) = Inr covered_artifacts"
    by (simp only: names(3) covered_artifacts_def)
  then show ?thesis using names(2) by (simp add: ComputeApprovalIdentity_def Let_def tree_paths)
qed

subsection \<open>Approving\<close>

text \<open>A workspace with the sample plan, a state file and two ledgers.\<close>

definition space_of :: "string \<Rightarrow> ledger_file \<Rightarrow> ledger_file \<Rightarrow> workspace" where
  "space_of raw history evidence = \<lparr>ws_fs = tree_of raw, ws_history = history, ws_evidence = evidence\<rparr>"

lemma space_simps [simp]:
  "ws_fs (space_of raw history evidence) = tree_of raw" "ws_history (space_of raw history evidence) = history"
  "ws_evidence (space_of raw history evidence) = evidence"
  by (simp_all add: space_of_def)

lemma core_simps [simp]:
  "ce_tree sample_core = sample_env" "ce_lock sample_core = (\<lambda>_. None)" "ce_now sample_core = ''2026-01-02T03:04:05Z''"
  "ce_append sample_core = os_ok" "ce_write sample_core = Written" "ce_parent sample_core = Inr True"
  "ce_replace sample_core = os_ok" "ce_git sample_core = sample_git"
  by (simp_all add: sample_core_def)

definition sample_registry :: registry where
  "sample_registry = (case PlanningRegistry of Inr g \<Rightarrow> g | Inl _ \<Rightarrow> \<lparr>rg_version = [], rg_gates = [], rg_byID = Map.empty,
     rg_transitions = Map.empty, rg_control = control_gate\<rparr>)"

lemma sample_registry: "PlanningRegistry = Inr sample_registry" "rg_version sample_registry = CoreRegistryVersion"
proof -
  obtain m where reg: "PlanningRegistry = Inr \<lparr>rg_version = CoreRegistryVersion, rg_gates = planning_gates,
      rg_byID = m, rg_transitions = [PlanningToApproved \<mapsto> map fst core_definitions],
      rg_control = control_gate\<rparr>"
    using PlanningRegistry_ok by blast
  show "PlanningRegistry = Inr sample_registry" "rg_version sample_registry = CoreRegistryVersion"
    unfolding sample_registry_def unfolding reg by simp_all
qed

lemma policy_digest_text: "trim_space DefaultPolicyDigest \<noteq> []"
  by (simp add: DefaultPolicyDigest_def)

lemma sample_check:
  assumes "state_Decode (read_text raw) ''c'' = Inr s" and "st_Stage s = LifecyclePlanning" and "st_Revision s \<noteq> 0"
  shows "check_approve sample_core (space_of raw history evidence) ''c'' =
    Inr (''changes/c/state.json'', s, sample_registry, identity_of covered_artifacts)"
proof -
  have read: "readCheckState sample_env (tree_of raw) ''changes/c/state.json'' = Inr raw"
    by (simp add: readCheckState_def tree_paths)
  have load: "load_state sample_env (tree_of raw) ''c'' = Inr (''changes/c/state.json'', s)"
    using assms(1) by (simp add: load_state_def tree_paths read)
  obtain ck where ck: "assembleCheckLocked sample_env (tree_of raw) ''c'' DefaultPolicyDigest = Inr ck"
    "sn_Plan (ck_snapshot ck) = tree_plan_of raw" "sn_Lifecycle (ck_snapshot ck) = LifecyclePlanning"
    "sn_StateRevision (ck_snapshot ck) = st_Revision s" "ck_registry ck = sample_registry"
    using assms(2) by (simp add: assembleCheckLocked_def load sample_registry(1))
  have "cr_Success (EvaluateCheck ck)"
    using clean_plan [OF tree_plan_clean] ck assms(3)
    by (simp add: check_success [OF ck(1) policy_digest_text] Let_def lifecycle_defs)
  moreover have "os_ReadFile sample_core (tree_of raw) ''changes/c/state.json'' = Inr raw"
    by (simp add: os_ReadFile_def tree_paths)
  moreover have "abs_path (te_owner sample_env) ''changes/c'' = ''/p/.specd/changes/c''" by code_simp
  ultimately show ?thesis
    using ck assms by (simp add: check_approve_def Let_def tree_paths tree_covered tree_identity tree_current tree_computed)
qed

lemma id_chars_hash: "list_all (\<lambda>x. id_char x \<or> x \<in> set ''._:-'') (take n (sha256_hex m))"
proof -
  have "\<forall>c \<in> set ''0123456789abcdef''. id_char c" by code_simp
  then show ?thesis using sha256_hex_digits [of m] set_take_subset [of n "sha256_hex m"]
    by (auto simp: list_all_iff)
qed

lemma id_chars_nat: "list_all (\<lambda>x. id_char x \<or> x \<in> set ''._:-'') (show_nat n)"
  using show_nat_digits by (auto simp: list_all_iff id_char_def)

definition sample_record_of :: "u64 \<Rightarrow> approval_record" where
  "sample_record_of revision = new_approval sample_core ''c'' ''a@b'' ''ok'' (identity_of covered_artifacts)
     sample_registry (Initial ''c'' ''i''\<lparr>st_Revision := revision\<rparr>)"

lemma valid_artifacts: "validate_artifacts i None covered_artifacts = Inr ()"
proof -
  have "\<forall>p \<in> {''design.md'', ''proposal.md'', ''specs/x/spec.md'', ''tasks.md''}. safeApprovalPath p"
    "''design.md'' < ''proposal.md''" "''proposal.md'' < ''specs/x/spec.md''" "''specs/x/spec.md'' < ''tasks.md''"
    by code_simp+
  moreover have "hex_decode (sha256_hex m) \<noteq> None" for m
    using lower_hex_sha256 [of m] by (simp add: lower_hex_def)
  ultimately show ?thesis
    by (simp add: covered_artifacts_def artifact_of_def not_le)
qed

lemma sample_approval_valid:
  assumes "revision \<noteq> 0"
  shows "ApprovalRecord_Validate (sample_record_of revision) = Inr ()"
proof -
  have "recordIDPattern (''approval:'' @ take 16 (sha256_hex m) @ '':'' @ show_nat n)" for m n
    using id_chars_hash [of 16 m] id_chars_nat [of n]
    by (simp add: recordIDPattern_def id_char_def is_lower_def)
  moreover have "isOk (ValidateSegment ''c'')" "registryPattern CoreRegistryVersion"
    "isOk (ValidateApprovalTransition LifecyclePlanning LifecycleApproved)"
    "approvalGate LifecyclePlanning LifecycleApproved = ''planning_to_approved''" by code_simp+
  moreover have "time_Parse ''2026-01-02T03:04:05Z'' \<noteq> None"
    using sample_time by (simp add: utc_time_def split: option.splits)
  moreover have "hex_decode (sha256_hex m) \<noteq> None" for m
    using lower_hex_sha256 [of m] by (simp add: lower_hex_def)
  moreover have "trim_space ''a@b'' \<noteq> []" "trim_space ''ok'' = ''ok''" by code_simp+
  moreover have "covered_artifacts \<noteq> []" by (simp add: covered_artifacts_def)
  ultimately show ?thesis using assms valid_artifacts
    by (simp add: ApprovalRecord_Validate_def sample_record_of_def new_approval_def identity_of_def
        sample_registry(2) validSHA256_def DefaultPolicyDigest_def aggregateApprovalHash_def
        covered_artifacts_def [symmetric])
qed

definition initial_space :: "ledger_file \<Rightarrow> workspace" where
  "initial_space evidence = space_of (state_bytes (Initial ''c'' ''i'')) NoFile evidence"

definition sample_intent :: approve_intent where
  "sample_intent = \<lparr>aqi_GitEmail = ''a@b'', aqi_EnvironmentApprover = [], aqi_ClaimedApprover = ''a@b'',
     aqi_Reason = ''ok'', aqi_Interactive = False, aqi_Confirmed = False, aqi_Route = ApprovalRouteHumanTerminal\<rparr>"

text \<open>A valid state is read back from its file.\<close>

lemma state_reads_back:
  assumes "state_Validate s c = Inr ()" and "state_writable s" and "json_ok (state_json s)"
  shows "state_Decode (read_text (state_bytes s)) c = Inr (norm_state s)"
proof -
  have "read_text (json_bytes (state_json s) @ [CHR 0x0A]) = ([state_json s], True)"
    by (rule read_text_bytes [OF assms(3)]) code_simp
  then show ?thesis by (simp add: state_bytes_def state_Decode_json [OF assms(1,2)])
qed

lemma initial_decodes: "state_Decode (read_text (state_bytes (Initial ''c'' ''i''))) ''c'' = Inr (Initial ''c'' ''i'')"
proof -
  have "state_Validate (Initial ''c'' ''i'') ''c'' = Inr ()" "state_writable (Initial ''c'' ''i'')"
    "json_ok (state_json (Initial ''c'' ''i''))" "norm_state (Initial ''c'' ''i'') = Initial ''c'' ''i''"
    by code_simp+
  then show ?thesis using state_reads_back [of "Initial ''c'' ''i''" "''c''"] by simp
qed

lemma approval_shape: "\<exists>kvs. approval_json a = JObj kvs"
  by (simp add: approval_json_def)

lemma artifacts_distinct [simp]: "items_distinct (map artifact_json as)"
  by (induction as) (simp_all add: artifact_json_def)

lemma approval_distinct [simp]: "keys_distinct (approval_json a)"
  by (simp add: approval_json_def json_int_def json_u64_def json_nat_def)

lemma sample_approval_text: "json_ok (approval_json (sample_record_of revision))"
proof -
  have hash: "utf8_ok (take n (sha256_hex m))" for n m
    using sha256_hex_digits [of m] set_take_subset [of n "sha256_hex m"]
    by (intro ascii_utf8_ok) (auto simp: byte_def)
  have nat: "utf8_ok (show_nat n)" for n
    by (intro ascii_utf8_ok) (auto simp: byte_def is_digit_def dest!: show_nat_digits)
  have id: "utf8_ok (''approval:'' @ take n (sha256_hex m) @ '':'' @ show_nat k)" for n m k
    using sha256_hex_digits [of m] set_take_subset [of n "sha256_hex m"]
    by (intro ascii_utf8_ok) (auto simp: byte_def is_digit_def dest!: show_nat_digits)
  show ?thesis
    using id [of 16 "aggregate_bytes covered_artifacts" "unat revision"]
    by (simp add: approval_json_def sample_record_of_def new_approval_def identity_of_def aggregateApprovalHash_def
        json_int_def show_int_def json_u64_def json_nat_def sample_registry(2) DefaultPolicyDigest_def
        lifecycle_defs CoreRegistryVersion_def covered_artifacts_def artifact_json_def artifact_of_def
        del: utf8_ok.simps(2) append_Cons)
      (simp add: ascii_utf8_ok byte_def trim_space_def trim_left_def is_space_def del: utf8_ok.simps(2))
qed

lemma sample_approval_record:
  assumes "revision \<noteq> 0"
  obtains r where "transition_record ''approved'' ''c'' revision ''2026-01-02T03:04:05Z'' ''a@b''
      (approval_json (sample_record_of revision)) = Inr r" and "encodable r"
proof -
  obtain kvs where kvs: "approval_json (sample_record_of revision) = JObj kvs" using approval_shape by blast
  have "keys_distinct (JObj kvs)" unfolding kvs [symmetric] by simp
  then have "\<exists>r. transition_record ''approved'' ''c'' revision ''2026-01-02T03:04:05Z'' ''a@b'' (JObj kvs) = Inr r"
    using transition_record_made [of kvs "''approved''" "''c''" "''a@b''" "''2026-01-02T03:04:05Z''" revision] sample_time
    by (auto simp: transition_kinds_def validate_typed_payload_def trim_space_empty_iff is_space_def)
  then obtain r where r: "transition_record ''approved'' ''c'' revision ''2026-01-02T03:04:05Z'' ''a@b''
      (approval_json (sample_record_of revision)) = Inr r" using kvs by auto
  have "encodable r" by (rule transition_encodable [OF r sample_approval_text]) code_simp+
  then show thesis by (rule that [OF r])
qed

definition line_of_record :: "hist_record \<Rightarrow> string" where
  "line_of_record r = json_bytes (record_json r) @ [newline]"

definition approved_state :: "hist_record \<Rightarrow> state" where
  "approved_state r = persistApprovalState (Initial ''c'' ''i'') (sample_record_of 1) (rc_ID r)"

lemma intent_valid: "validateApproveIntent sample_intent = Inr ''a@b''"
  by code_simp

lemma history_path: "path_base (History (te_owner sample_env)) = ''history.jsonl''"
  by code_simp

lemma locked_sample: "with_change_lock sample_core (space_of raw h e) ''c'' body = body"
proof -
  have "isOk (ChangeLock (te_owner sample_env) (tree_of raw) ''c'')" by code_simp
  then obtain p where "ChangeLock (te_owner sample_env) (tree_of raw) ''c'' = Inr p"
    by (cases "ChangeLock (te_owner sample_env) (tree_of raw) ''c''") (simp_all add: isOk_def)
  then show ?thesis by (simp add: with_change_lock_def)
qed

lemma sample_approve_decision:
  assumes "transition_record ''approved'' ''c'' 1 ''2026-01-02T03:04:05Z'' ''a@b''
      (approval_json (sample_record_of 1)) = Inr r"
  shows "decide_approve ''c'' sample_intent sample_core (initial_space e) =
    Inr \<lparr>cm_path = ''changes/c/state.json'', cm_record = Some r, cm_locked = False, cm_hook = (\<lambda>e. e),
      cm_state = Inr (approved_state r), cm_result = sample_record_of 1\<rparr>"
proof -
  have k: "check_approve sample_core (initial_space e) ''c'' =
      Inr (''changes/c/state.json'', Initial ''c'' ''i'', sample_registry, identity_of covered_artifacts)"
    unfolding initial_space_def by (rule sample_check [OF initial_decodes]) (simp_all add: Initial_def lifecycle_defs)
  have new: "new_approval sample_core ''c'' ''a@b'' ''ok'' (identity_of covered_artifacts) sample_registry
      (Initial ''c'' ''i'') = sample_record_of 1"
    by (simp add: sample_record_of_def new_approval_def Initial_def)
  have "Replay (ws_history (initial_space e)) p FamilyHistory = Inr ([], [])" for p
    by (simp add: initial_space_def Replay_def)
  then have "history_of sample_core (initial_space e) torn = Inr []" for torn
    by (simp add: history_of_def)
  moreover have "recoverableApproval [] ''c'' v = None" for v
    by (simp add: recoverableApproval_def pending_record_def find_last_def)
  moreover have "ApprovalRecord_Validate (sample_record_of 1) = Inr ()" by (rule sample_approval_valid) simp
  moreover have "st_Revision (Initial ''c'' ''i'') = 1" "aqi_Reason sample_intent = ''ok''"
    by (simp_all add: Initial_def sample_intent_def)
  ultimately show ?thesis
    using k new assms locked_sample [of "state_bytes (Initial ''c'' ''i'')" NoFile e]
    by (simp add: decide_approve_def intent_valid approve_locked_def resolve_approval_def Let_def approved_state_def
        initial_space_def)
qed

lemma approved_state_valid: "state_Validate (approved_state r) ''c'' = Inr () \<longleftrightarrow> rc_ID r \<noteq> []"
  by (auto simp: state_Validate_iff approved_state_def persistApprovalState_def advance_def Initial_def
      SchemaVersion_def validStage_def lifecycle_defs)

lemma put_tree: "put_node ''changes/c/state.json'' (Some (NFile raw')) (tree_of raw) = tree_of raw'"
  by (simp add: put_node_def tree_of_def)

text \<open>The state of the sample is replaced when it is valid.\<close>

lemma persist_sample:
  assumes "state_Validate s ''c'' = Inr ()"
  shows "persist_state sample_core ''changes/c/state.json'' s (space_of raw h e) = (Inr (), space_of (state_bytes s) h e)"
proof -
  have "st_Change s = ''c''" using assms by (simp add: state_Validate_iff)
  then have "state_Encode s = Inr ([state_json s], True)" using assms by (simp add: state_Encode_def)
  moreover have "AtomicReplace os_ok None x y = (Inr (), y)" for x y :: "node option"
    by (simp add: AtomicReplace_def before_rename_def os_ok_def os_call_def call_hook_def)
  ultimately show ?thesis using put_tree by (simp add: persist_state_def space_of_def)
qed

lemma sample_approves:
  assumes r: "transition_record ''approved'' ''c'' 1 ''2026-01-02T03:04:05Z'' ''a@b''
      (approval_json (sample_record_of 1)) = Inr r"
  shows "Approve ''c'' sample_intent sample_core None (initial_space e) =
      (Inr (sample_record_of 1), space_of (state_bytes (approved_state r)) (Bytes (line_of_record r)) e)"
    and "Approve ''c'' sample_intent sample_core (Some x) (initial_space e) =
      (Inl x, space_of (state_bytes (Initial ''c'' ''i'')) (Bytes (line_of_record r)) e)"
proof -
  note f = transition_record_Inr [OF r]
  have "rc_ID r \<noteq> []" using f(1) by (auto simp: record_Validate_def trim_space_def trim_left_def split: if_splits)
  then have valid: "state_Validate (approved_state r) ''c'' = Inr ()" by (simp add: approved_state_valid)
  have "Replay (ws_history (initial_space e)) (History (te_owner sample_env)) FamilyHistory = Inr ([], [])"
    by (simp add: initial_space_def Replay_def)
  then have "append_history sample_core False r (initial_space e) =
      (Inr (), initial_space e\<lparr>ws_history := Bytes (bytes_of (ws_history (initial_space e)) @ json_bytes (record_json r) @ [newline])\<rparr>)"
    using f by (intro append_history_succeeds [where rs = "[]"]) (simp_all add: history_path last_revision_def find_last_def)
  then have a: "append_history sample_core False r (initial_space e) =
      (Inr (), space_of (state_bytes (Initial ''c'' ''i'')) (Bytes (line_of_record r)) e)"
    by (simp add: initial_space_def space_of_def bytes_of_def line_of_record_def)
  show "Approve ''c'' sample_intent sample_core None (initial_space e) =
      (Inr (sample_record_of 1), space_of (state_bytes (approved_state r)) (Bytes (line_of_record r)) e)"
    "Approve ''c'' sample_intent sample_core (Some x) (initial_space e) =
      (Inl x, space_of (state_bytes (Initial ''c'' ''i'')) (Bytes (line_of_record r)) e)"
    by (simp_all add: Approve_def run_operation_def sample_approve_decision [OF r] commit_def a persist_commit_def
        persist_sample [OF valid])
qed

text \<open>The approved state is read back as it is.\<close>

lemma hash_id: "record_Validate r = Inr () \<Longrightarrow> \<exists>m. rc_ID r = sha256_hex m"
  using record_Validate_facts(2) [of r] by (auto simp: Identity_def bindE_def split: sum.splits) metis

lemma approved_decodes:
  assumes r: "transition_record ''approved'' ''c'' 1 ''2026-01-02T03:04:05Z'' ''a@b''
      (approval_json (sample_record_of 1)) = Inr r" and "encodable r"
  shows "state_Decode (read_text (state_bytes (approved_state r))) ''c'' = Inr (approved_state r)"
proof -
  note f = transition_record_Inr [OF r]
  obtain m where m: "rc_ID r = sha256_hex m" using hash_id [OF f(1)] by blast
  have valid: "state_Validate (approved_state r) ''c'' = Inr ()" by (simp add: approved_state_valid m)
  have fields: "st_Tasks (approved_state r) = Some []" "st_Extensions (approved_state r) = []"
    "st_Approvals (approved_state r) = Some [approval_json (sample_record_of 1)]"
    by (simp_all add: approved_state_def persistApprovalState_def advance_def Initial_def)
  have "state_writable (approved_state r)"
    by (simp add: state_writable_def state_raws_def fields gomap_ok_def)
  moreover have "json_ok (state_json (approved_state r))"
    using sample_approval_text [of 1] m
    by (simp add: state_json_def approved_state_def persistApprovalState_def advance_def Initial_def json_of_map_def
        SchemaVersion_def show_int_def json_u64_def json_nat_def lifecycle_defs gomap_keys_def del: utf8_ok.simps(2))
      (simp add: ascii_utf8_ok byte_def del: utf8_ok.simps(2))
  moreover have "norm_state (approved_state r) = approved_state r"
    by (simp add: norm_state_def approved_state_def persistApprovalState_def advance_def Initial_def norm_map_def
        gomap_keys_def)
  ultimately show ?thesis using state_reads_back [OF valid] by simp
qed

end
