(* ===== verification/Stranding.thy ===== *)
theory Stranding
  imports Deciding
begin

text \<open>
  What an interrupted approval leaves: a pending step that only the same approval can take up. Every other
  operation on the change fails and changes nothing.
\<close>

text \<open>The pending approval is taken up only by its approver, and only while the plan has the contents that
  it covers.\<close>

definition taken_up_by :: "string \<Rightarrow> core_env \<Rightarrow> workspace \<Rightarrow> approval_record \<Rightarrow> operation \<Rightarrow> bool" where
  "taken_up_by change env w a op = (case op of
     Approval_by q \<Rightarrow> validateApproveIntent q = Inr (ap_Approver a) \<and>
       (case check_approve env w change of Inl x \<Rightarrow> False | Inr (p, s, g, i) \<Rightarrow>
          ai_AggregateHash i = ap_AggregateHash a \<and> rg_version g = ap_RegistryVersion a)
   | _ \<Rightarrow> False)"

definition awaits_approval :: "string \<Rightarrow> core_env \<Rightarrow> workspace \<Rightarrow> state \<Rightarrow> approval_record \<Rightarrow> bool" where
  "awaits_approval change env w s a \<longleftrightarrow> (\<exists>xs r. 
     Replay (ws_history w) (History (ce_owner env)) FamilyHistory = Inr (xs @ [r], []) \<and>
     takes_step ''approved'' change s r \<and> decode_approval False r = Inr a \<and> ap_Change a = change \<and>
     ap_RevisionBefore a = st_Revision s \<and>
     (\<forall>x \<in> set xs. rc_Change x = change \<longrightarrow> rc_Expected x \<noteq> Some (st_Revision s)))"

lemma awaiting:
  assumes "awaits_approval change env w s a"
  obtains rs i where "Replay (ws_history w) (History (ce_owner env)) FamilyHistory = Inr (rs, [])"
    and "last_revision change rs = Some (st_Revision s + 1)"
    and "recoverableApproval rs change (st_Revision s) = Some (a, i)"
    and "\<And>kind. kind \<noteq> ''approved'' \<Longrightarrow> pending_record kind rs change (st_Revision s) = None"
proof -
  obtain xs r where f: "Replay (ws_history w) (History (ce_owner env)) FamilyHistory = Inr (xs @ [r], [])"
    "takes_step ''approved'' change s r" "decode_approval False r = Inr a" "ap_Change a = change"
    "ap_RevisionBefore a = st_Revision s"
    and none: "\<And>x. x \<in> set xs \<Longrightarrow> rc_Change x = change \<Longrightarrow> rc_Expected x \<noteq> Some (st_Revision s)"
    using assms unfolding awaits_approval_def by blast
  have "pending_record kind (xs @ [r]) change (st_Revision s) = None" if "kind \<noteq> ''approved''" for kind
    using that f(2) none
    by (auto simp: pending_record_def find_last_snoc takes_step_def find_last_def find_None_iff)
  moreover have "last_revision change (xs @ [r]) = Some (st_Revision s + 1)"
    using f(2) by (simp add: last_revision_def find_last_snoc takes_step_def)
  moreover have "recoverableApproval (xs @ [r]) change (st_Revision s) = Some (a, rc_ID r)"
    using f pending_record_snoc [of r change "''approved''" "st_Revision s" xs]
    by (simp add: recoverableApproval_def takes_step_def)
  ultimately show thesis using that f(1) by blast
qed

lemma approval_stranded:
  assumes h: "holds_state env w change p s" and "awaits_approval change env w s a"
    and "\<not> taken_up_by change env w a (Approval_by q)"
  shows "\<exists>x. decide_approve change q env w = Inl x"
proof (rule ccontr)
  obtain rs i where rs: "Replay (ws_history w) (History (ce_owner env)) FamilyHistory = Inr (rs, [])"
    and rec: "recoverableApproval rs change (st_Revision s) = Some (a, i)"
    using awaiting [OF assms(2)] by metis
  assume "\<nexists>x. decide_approve change q env w = Inl x"
  then obtain c where c: "decide_approve change q env w = Inr c"
    by (cases "decide_approve change q env w") auto
  obtain who where who: "validateApproveIntent q = Inr who" and locked: "approve_locked env w change q who = Inr c"
    using c by (auto simp: decide_approve_def bindE_eq_Inr dest!: with_change_lock_Inr)
  obtain p' s' g h' rs' where k: "check_approve env w change = Inr (p', s', g, h')"
    and rs': "Replay (ws_history w) (History (ce_owner env)) FamilyHistory = Inr (rs', [])"
    and res: "resolve_approval env change who (aqi_Reason q) p' s' g h' rs' = Inr c"
    using locked by (auto simp: approve_locked_def bindE_eq_Inr dest: history_of_Inr)
  have "s' = s"
    using k h by (auto simp: check_approve_def Let_def bindE_eq_Inr holds_state_def os_ReadFile_def
        split: if_splits stat.splits node.splits sum.splits)
  then have "ai_AggregateHash h' = ap_AggregateHash a \<and> rg_version g = ap_RegistryVersion a \<and> ap_Approver a = who"
    using res rs rs' rec by (auto simp: resolve_approval_def Let_def split: if_splits)
  then show False using assms(3) who k by (simp add: taken_up_by_def)
qed

lemma strands:
  assumes h: "holds_state env w change p s" and a: "awaits_approval change env w s a"
    and other: "\<not> taken_up_by change env w a op"
  shows "\<exists>x. operate change op env e w = (Inl x, w)"
proof (cases "\<exists>q. op = Approval_by q")
  case True
  then obtain q where q: "op = Approval_by q" by blast
  then obtain x where "decide_approve change q env w = Inl x" using approval_stranded [OF h a, of q] other by blast
  then show ?thesis by (simp add: q Approve_def run_operation_def)
next
  case False
  then have "operation_kind op \<noteq> ''approved''" by (cases op) simp_all
  then show ?thesis using awaiting [OF a] stuck_operation [OF h] by metis
qed

end
