(* ===== verification/OperationProps.thy ===== *)
theory OperationProps
  imports Scenario Stranding VerifyProps
begin

text \<open>
  Properties of the operations on a change, and the sample workspace they are applied to.
\<close>

subsection \<open>The history\<close>

text \<open>C10: Nothing that happens to a workspace loses a record. However operations run, are stopped between
  their writes or have their system calls fail, whatever else is recorded and however plans, states and
  evidence are edited meanwhile: what can be read of the history later begins with what could be read
  before.\<close>
theorem audit_trail_kept:
  assumes "ledger_step\<^sup>*\<^sup>* w w'" and "Replay (ws_history w') path FamilyHistory = Inr (rs', ds')"
  shows "\<exists>rs ds. Replay (ws_history w) path FamilyHistory = Inr (rs, ds) \<and> prefix rs rs'"
  using ledger_steps_extend [OF assms(1)] assms(2) unfolding extends_def by blast

text \<open>C9: From an empty history no sequence of operations, interrupted, failing or not, consumes the same
  evidence for two completions, even when states, plans and evidence are edited in between.\<close>
theorem evidence_consumed_once:
  assumes "ledger_step\<^sup>*\<^sup>* w w'" and "ws_history w = NoFile"
    and "Replay (ws_history w') path FamilyHistory = Inr (rs, ds)"
  shows "distinct (consumed rs)"
  using ledger_steps_extend [OF assms(1)] assms(2,3) unfolding extends_def
  by (auto simp: Replay_def consumed_simps)

definition blank :: workspace where
  "blank = \<lparr>ws_fs = [], ws_history = NoFile, ws_evidence = NoFile\<rparr>"

definition first_history :: ledger_file where
  "first_history = Bytes (json_bytes (record_json sample_record) @ [newline])"

lemma first_step: "ledger_step\<^sup>*\<^sup>* blank (blank\<lparr>ws_history := first_history\<rparr>)"
proof -
  have "ledger_step blank (blank\<lparr>ws_history := first_history\<rparr>)"
    using sample_appended sample_encodable
    by (intro ledger_step.recorded [of sample_record os_ok Written "Inr True" "''.specd/history.jsonl''" _ "Inr ()"])
       (simp_all add: blank_def first_history_def FamilyHistory_def)
  then show ?thesis by blast
qed

lemma first_replay: "Replay first_history ''.specd/history.jsonl'' FamilyHistory = Inr ([sample_record], [])"
  using sample_appended append_reads_back sample_encodable by (fastforce simp: first_history_def FamilyHistory_def Replay_def)

theorem audit_trail_kept_witness:
  "\<exists>rs ds. Replay (ws_history blank) ''.specd/history.jsonl'' FamilyHistory = Inr (rs, ds) \<and> prefix rs [sample_record]"
  by (rule audit_trail_kept [OF first_step]) (simp add: first_replay)

theorem evidence_consumed_once_witness: "distinct (consumed [sample_record])"
  by (rule evidence_consumed_once [OF first_step, of "''.specd/history.jsonl''"])
     (simp_all add: first_replay, simp add: blank_def)

subsection \<open>Interruption\<close>

text \<open>C1: An operation that is stopped after its record was written and before the state was, and then run
  again, at any later time and with any changes to what Git says of managed files, gives the result and
  leaves the workspace that the uninterrupted run gives and leaves. This holds of approvals, task
  transitions, attempts, completions and reopenings.\<close>
theorem interrupted_operation_resumes:
  assumes "operate change op env None w = (Inr a, w1)" and "operate change op env (Some e) w = (Inl x, w')"
    and "retry_env env env'" and "operation_text change op env w"
  shows "operate change op env' None w' = (Inr a, w1)"
  by (rule operation_resumes [OF assms])

definition later_core :: core_env where
  "later_core = sample_core\<lparr>ce_now := ''2026-01-02T03:04:06Z''\<rparr>"

lemma later_retry: "retry_env sample_core later_core"
proof -
  have "clock sample_core \<le> clock later_core"
    using sample_times by (auto simp: clock_def later_core_def ordered_times_def split: option.splits)
  moreover have "same_paths (Inr v) (Inr v)" for v :: string by simp
  ultimately show ?thesis
    by (simp add: retry_env_def same_places_def same_git_def later_core_def git_toplevel_def gitOutput_def
        git_head_def git_tracked_def git_untracked_def sample_git_def)
qed

theorem interrupted_operation_resumes_witness:
  "\<exists>w w' a w1 e. operate ''c'' (Approval_by sample_intent) sample_core (Some e) w = (Inl e, w') \<and> w' \<noteq> w1 \<and>
     operate ''c'' (Approval_by sample_intent) later_core None w' = (Inr a, w1)"
proof -
  obtain r where r: "transition_record ''approved'' ''c'' 1 ''2026-01-02T03:04:05Z'' ''a@b''
      (approval_json (sample_record_of 1)) = Inr r" "encodable r"
    by (rule sample_approval_record [of 1]) simp
  let ?w = "initial_space NoFile" and ?w' = "space_of (state_bytes (Initial ''c'' ''i'')) (Bytes (line_of_record r)) NoFile"
    and ?w1 = "space_of (state_bytes (approved_state r)) (Bytes (line_of_record r)) NoFile"
  have full: "operate ''c'' (Approval_by sample_intent) sample_core None ?w = (Inr (Approved (sample_record_of 1)), ?w1)"
    and cut: "operate ''c'' (Approval_by sample_intent) sample_core (Some json_error) ?w = (Inl json_error, ?w')"
    by (simp_all add: sample_approves [OF r(1)])
  have "operation_text ''c'' (Approval_by sample_intent) sample_core ?w"
    using r(2) by (simp add: records_text_def sample_approve_decision [OF r(1)])
  from interrupted_operation_resumes [OF full cut later_retry this]
  have again: "operate ''c'' (Approval_by sample_intent) later_core None ?w' = (Inr (Approved (sample_record_of 1)), ?w1)" .
  have "?w' \<noteq> ?w1"
  proof
    assume "?w' = ?w1"
    then have "state_bytes (Initial ''c'' ''i'') = state_bytes (approved_state r)"
      by (simp add: space_of_def tree_of_def)
    then have "state_Decode (read_text (state_bytes (approved_state r))) ''c'' = Inr (Initial ''c'' ''i'')"
      using initial_decodes by simp
    then show False using approved_decodes [OF r] by (simp add: approved_state_def persistApprovalState_def Initial_def advance_def)
  qed
  then show ?thesis using cut again by blast
qed

subsection \<open>An interruption that is not taken up\<close>

text \<open>C14: While the history ends in an approval that the state has not taken yet, every operation on the
  change other than the same approver's approval of the same contents fails and changes nothing: when the
  plan was edited after the interruption, neither a fresh approval nor any other operation is possible.\<close>
theorem pending_approval_strands:
  assumes "holds_state env w change p s" and "awaits_approval change env w s a"
    and "\<not> taken_up_by change env w a op"
  shows "\<exists>x. operate change op env e w = (Inl x, w)"
  by (rule strands [OF assms])

definition other_intent :: approve_intent where
  "other_intent = sample_intent\<lparr>aqi_GitEmail := ''b@c'', aqi_ClaimedApprover := ''b@c''\<rparr>"

lemma interrupted_replay:
  assumes "record_Validate r = Inr ()" and "rc_Family r = FamilyHistory" and "encodable r"
  shows "Replay (Bytes (line_of_record r)) path FamilyHistory = Inr ([r], [])"
proof -
  have "ledger_ok FamilyHistory [r]"
    using ledger_ok_snoc [of FamilyHistory "[]" r] assms(1,2)
    by (simp add: ledger_ok_def last_revision_def find_last_def split: option.split)
  moreover have "line_of (json_bytes (record_json r)) r"
    using decodeStrict_line [OF assms(1,3)] record_line_shape(2) [OF assms(3)] by (simp add: line_of_def)
  ultimately have "replay ([] @ json_bytes (record_json r) @ [newline]) path FamilyHistory = Inr ([] @ [r], [])"
    by (intro replay_append_line record_line_shape(1) [OF assms(3)]) (simp_all add: replay_def)
  then show ?thesis by (simp add: Replay_def line_of_record_def)
qed

lemma interrupted_awaits:
  assumes r: "transition_record ''approved'' ''c'' 1 ''2026-01-02T03:04:05Z'' ''a@b''
      (approval_json (sample_record_of 1)) = Inr r" and "encodable r"
  shows "awaits_approval ''c'' sample_core (space_of raw (Bytes (line_of_record r)) e) (Initial ''c'' ''i'') (sample_record_of 1)"
proof -
  note f = transition_record_Inr [OF r]
  have s: "ap_Change (sample_record_of 1) = ''c''" "ap_RevisionBefore (sample_record_of 1) = 1"
    "ap_Timestamp (sample_record_of 1) = ''2026-01-02T03:04:05Z''" "ap_Approver (sample_record_of 1) = ''a@b''"
    "st_Revision (Initial ''c'' ''i'') = 1"
    by (simp_all add: sample_record_of_def new_approval_def Initial_def sample_core_def)
  have "decode_approval False r = Inr (sample_record_of 1)"
    by (rule decode_approval_stored [of "''c''"]) (use r sample_approval_valid [of 1] s in simp_all)
  moreover have "takes_step ''approved'' ''c'' (Initial ''c'' ''i'') r"
    using transition_takes_step [of "''approved''" "''c''" "Initial ''c'' ''i''"] r s(5) by metis
  ultimately show ?thesis
    using interrupted_replay [OF f(1,2) assms(2)] s
    by (auto simp: awaits_approval_def intro!: exI [of _ "[]"] exI [of _ r])
qed

theorem pending_approval_strands_witness:
  "\<exists>w'. (\<forall>e. operate ''c'' (Approval_by sample_intent) sample_core (Some e) (initial_space NoFile) = (Inl e, w')) \<and>
     (\<exists>x. operate ''c'' (Approval_by other_intent) sample_core None w' = (Inl x, w'))"
proof -
  obtain r where r: "transition_record ''approved'' ''c'' 1 ''2026-01-02T03:04:05Z'' ''a@b''
      (approval_json (sample_record_of 1)) = Inr r" "encodable r"
    by (rule sample_approval_record [of 1]) simp
  let ?w = "space_of (state_bytes (Initial ''c'' ''i'')) (Bytes (line_of_record r)) NoFile"
  have "holds_state sample_core ?w ''c'' ''changes/c/state.json'' (Initial ''c'' ''i'')"
    using initial_decodes by (simp add: holds_state_def sample_core_def tree_paths)
  moreover have "\<not> taken_up_by ''c'' sample_core ?w (sample_record_of 1) (Approval_by other_intent)"
  proof -
    have "validateApproveIntent other_intent = Inr ''b@c''" by code_simp
    then show ?thesis by (simp add: taken_up_by_def sample_record_of_def new_approval_def)
  qed
  ultimately have "\<exists>x. operate ''c'' (Approval_by other_intent) sample_core None ?w = (Inl x, ?w)"
    by (intro pending_approval_strands [OF _ interrupted_awaits [OF r]])
  moreover have "operate ''c'' (Approval_by sample_intent) sample_core (Some e) (initial_space NoFile) = (Inl e, ?w)" for e
    by (simp add: sample_approves [OF r(1)])
  ultimately show ?thesis by blast
qed

end
