(* ===== verification/SyncReview.thy ===== *)
theory SyncReview
  imports PlanTree
begin

text \<open>
  The review of a reconciliation (\<open>internal/reconcile/review.go\<close>): what sync would do, beside the facts
  about approval, tasks and evidence it is told, and one labelled blocker for everything that stands in
  the way. The review is ready when there is none.
\<close>

record approval_fact =
  apf_Current :: bool
  apf_Reason :: string

record task_fact =
  tkf_Total :: int
  tkf_Completed :: int
  tkf_Incomplete :: "string list"

record evidence_fact =
  evf_Current :: int
  evf_Stale :: "string list"

record review_input =
  ri_Change :: change
  ri_Approval :: approval_fact
  ri_Tasks :: task_fact
  ri_Evidence :: evidence_fact
  ri_ArchiveTarget :: string
  ri_ProjectionAvailable :: bool

record review_blocker =
  bl_Code :: string
  bl_Owner :: string
  bl_Reason :: string
  bl_Next :: string

record review_capability =
  rvc_Capability :: string
  rvc_AcceptedPath :: string
  rvc_DeltaPath :: string
  rvc_BeforeHash :: string
  rvc_AfterHash :: string
  rvc_Created :: bool
  rvc_NoOp :: bool

record review =
  rvw_Change :: string
  rvw_Root :: string
  rvw_Outcome :: string
  rvw_NonGoals :: string
  rvw_Operations :: "reconcile_operation list"
  rvw_Capabilities :: "review_capability list"
  rvw_Tasks :: task_fact
  rvw_Evidence :: evidence_fact
  rvw_Approval :: approval_fact
  rvw_ArchiveTarget :: string
  rvw_Diagnostics :: "diagnostic list"
  rvw_Blockers :: "review_blocker list"
  rvw_Applicable :: bool
  rvw_NoOp :: bool
  rvw_Ready :: bool

definition proposal_section :: "proposal \<Rightarrow> string \<Rightarrow> string" where
  "proposal_section p name = (case find (\<lambda>s. sec_Name s = name) (prop_Sections p) of
     None \<Rightarrow> [] | Some s \<Rightarrow> trim_space (sec_Content s))"

definition review_capability_of :: "capability \<Rightarrow> review_capability" where
  "review_capability_of c = \<lparr>rvc_Capability = cap_Capability c, rvc_AcceptedPath = cap_AcceptedPath c,
     rvc_DeltaPath = cap_DeltaPath c, rvc_BeforeHash = cap_AcceptedHash c, rvc_AfterHash = cap_OutputHash c,
     rvc_Created = cap_Created c, rvc_NoOp = cap_NoOp c\<rparr>"

fun comma_text :: "string list \<Rightarrow> string" where
  "comma_text [] = []"
| "comma_text [w] = w"
| "comma_text (w # ws) = w @ '', '' @ comma_text ws"

definition block_when :: "bool \<Rightarrow> string \<Rightarrow> string \<Rightarrow> string \<Rightarrow> string \<Rightarrow> review_blocker list" where
  "block_when holds code own reason next' =
     (if holds then [\<lparr>bl_Code = code, bl_Owner = own, bl_Reason = reason, bl_Next = next'\<rparr>] else [])"

definition plan_blocker :: "reconcile_plan \<Rightarrow> review_blocker list" where
  "plan_blocker r = block_when (\<not> pl_Applicable r) ''plan_not_applicable'' ''author''
     (if pl_Diagnostics r = [] then ''reconciliation produced no applicable plan''
      else ''reconciliation reported '' @ show_nat (length (pl_Diagnostics r)) @ '' blocking diagnostic(s)'')
     (''repair the reported delta or accepted spec and run specd check '' @ pl_Change r)"

definition task_blocker :: "string \<Rightarrow> task_fact \<Rightarrow> review_blocker list" where
  "task_blocker change t =
     block_when (tkf_Completed t < tkf_Total t \<or> tkf_Incomplete t \<noteq> []) ''tasks_incomplete'' ''author''
       (show_int (tkf_Total t - tkf_Completed t) @ '' task(s) are not complete'')
       (''run specd next '' @ change @ '' and complete the remaining tasks'')"

definition evidence_blocker :: "evidence_fact \<Rightarrow> review_blocker list" where
  "evidence_blocker e = block_when (evf_Stale e \<noteq> []) ''evidence_stale'' ''author''
     (''evidence is stale for '' @ comma_text (evf_Stale e)) ''re-verify the affected tasks against current HEAD''"

definition approval_blocker :: "string \<Rightarrow> approval_fact \<Rightarrow> review_blocker list" where
  "approval_blocker change a = block_when (\<not> apf_Current a) ''approval_stale'' ''human''
     (if apf_Reason a = [] then ''change approval is not current''
      else ''change approval is not current: '' @ apf_Reason a)
     (''ask a human to run specd approve '' @ change @ '' in a human terminal'')"

definition observe :: "string \<Rightarrow> string" where
  "observe change = ''run specd status '' @ change @ '' to observe canonical state''"

definition review_blockers :: "reconcile_plan \<Rightarrow> review_input \<Rightarrow> review_blocker list" where
  "review_blockers r q = sort_key bl_Code
     (plan_blocker r @ task_blocker (pl_Change r) (ri_Tasks q) @ evidence_blocker (ri_Evidence q) @
      approval_blocker (pl_Change r) (ri_Approval q) @
      block_when (\<not> ri_ProjectionAvailable q) ''projection_unavailable'' ''author''
        ''the canonical operation projection is unavailable'' (observe (pl_Change r)) @
      block_when (ri_ArchiveTarget q = []) ''archive_target_unavailable'' ''author''
        ''no archive target was resolved for this change'' (observe (pl_Change r)))"

definition ProjectReview :: "reconcile_plan \<Rightarrow> review_input \<Rightarrow> review" where
  "ProjectReview r q =
     \<lparr>rvw_Change = pl_Change r, rvw_Root = pl_Root r,
      rvw_Outcome = proposal_section (ch_Proposal (ri_Change q)) ''Outcome'',
      rvw_NonGoals = proposal_section (ch_Proposal (ri_Change q)) ''Non-goals'',
      rvw_Operations = concat (map cap_Operations (pl_Capabilities r)),
      rvw_Capabilities = map review_capability_of (pl_Capabilities r),
      rvw_Tasks = ri_Tasks q, rvw_Evidence = ri_Evidence q, rvw_Approval = ri_Approval q,
      rvw_ArchiveTarget = ri_ArchiveTarget q, rvw_Diagnostics = pl_Diagnostics r,
      rvw_Blockers = review_blockers r q, rvw_Applicable = pl_Applicable r, rvw_NoOp = pl_NoOp r,
      rvw_Ready = (review_blockers r q = [])\<rparr>"

lemma block_when_Nil [simp]: "block_when holds code own reason next' = [] \<longleftrightarrow> \<not> holds"
  by (simp add: block_when_def)

lemma sort_key_Nil: "sort_key f xs = [] \<longleftrightarrow> xs = []"
  by (metis length_0_conv length_sort)

text \<open>Ready says of every fact that it holds.\<close>

lemma review_ready_iff:
  "rvw_Ready (ProjectReview r q) \<longleftrightarrow> pl_Applicable r \<and> tkf_Total (ri_Tasks q) \<le> tkf_Completed (ri_Tasks q) \<and>
     tkf_Incomplete (ri_Tasks q) = [] \<and> evf_Stale (ri_Evidence q) = [] \<and> apf_Current (ri_Approval q) \<and>
     ri_ProjectionAvailable q \<and> ri_ArchiveTarget q \<noteq> []"
  by (auto simp: ProjectReview_def review_blockers_def plan_blocker_def task_blocker_def evidence_blocker_def
      approval_blocker_def sort_key_Nil)

end
