(* ===== verification/Registry.thy ===== *)
theory Registry
  imports Approval
begin

text \<open>
  The registry of operations (\<open>internal/core/operations.go\<close>): the table of what each command is, who
  may call it, what it may write, and where it applies; its validation, which runs when the program
  starts and panics on a malformed table; and the projections every consumer reads, with the help and
  the documentation rendered from them (\<open>operation_projection.go\<close>). Writing the documentation file is
  not modelled.
\<close>

subsection \<open>The vocabulary\<close>

definition OperationSchemaVersion :: int where "OperationSchemaVersion = 1"

definition ActorAgent :: string where "ActorAgent = ''agent''"
definition ActorHuman :: string where "ActorHuman = ''human''"
definition ActorEither :: string where "ActorEither = ''either''"
definition EffectRead :: string where "EffectRead = ''read''"
definition EffectProjectWrite :: string where "EffectProjectWrite = ''project_write''"
definition EffectStateWrite :: string where "EffectStateWrite = ''state_write''"
definition AuthorityNone :: string where "AuthorityNone = ''none''"
definition AuthorityActor :: string where "AuthorityActor = ''actor_identity''"
definition AuthorityHumanID :: string where "AuthorityHumanID = ''human_identity''"
definition ScopeNone :: string where "ScopeNone = ''none''"
definition ScopeRoot :: string where "ScopeRoot = ''root''"
definition ScopeChange :: string where "ScopeChange = ''change''"
definition ScopeDeclaredFile :: string where "ScopeDeclaredFile = ''task_declared_files''"
definition ExitClassSuccess :: string where "ExitClassSuccess = ''success''"
definition ExitClassFailure :: string where "ExitClassFailure = ''failure''"
definition ExitClassRefusal :: string where "ExitClassRefusal = ''refusal''"

record op_arg =
  arg_Name :: string
  arg_Required :: bool
  arg_Description :: string

record op_flag =
  fl_Name :: string
  fl_Type :: string
  fl_Required :: bool
  fl_Enum :: "string list"
  fl_Default :: string
  fl_Description :: string

record op_exit =
  ex_Code :: int
  ex_Class :: string
  ex_Meaning :: string

record op_meta =
  op_ID :: string
  op_Summary :: string
  op_Actor :: string
  op_Effect :: string
  op_Lifecycles :: "lifecycle list"
  op_RequiresRoot :: bool
  op_RequiresChange :: bool
  op_RequiresTask :: bool
  op_AuthoritySource :: string
  op_ScopeSource :: string
  op_Arguments :: "op_arg list"
  op_Flags :: "op_flag list"
  op_Exits :: "op_exit list"
  op_ResultType :: string
  op_AgentVisible :: bool
  op_Executable :: bool
  op_Example :: string

definition op_argument :: "string \<Rightarrow> bool \<Rightarrow> string \<Rightarrow> op_arg" where
  "op_argument name required description =
     \<lparr>arg_Name = name, arg_Required = required, arg_Description = description\<rparr>"

definition globalFlags :: "op_flag list" where
  "globalFlags =
     [\<lparr>fl_Name = ''--root'', fl_Type = ''string'', fl_Required = False, fl_Enum = [], fl_Default = [],
       fl_Description = ''Select the project root holding .specd.''\<rparr>,
      \<lparr>fl_Name = ''--json'', fl_Type = ''bool'', fl_Required = False, fl_Enum = [], fl_Default = [],
       fl_Description = ''Emit the machine-readable result document.''\<rparr>]"

definition op_flags :: "op_flag list \<Rightarrow> op_flag list" where
  "op_flags extra = globalFlags @ extra"

definition Lifecycles :: "lifecycle list" where
  "Lifecycles = [LifecyclePlanning, LifecycleApproved, LifecycleExecuting, LifecycleReconciling,
     LifecycleArchived]"

definition op_exits :: "string \<Rightarrow> op_exit list" where
  "op_exits failureMeaning =
     [\<lparr>ex_Code = 0, ex_Class = ExitClassSuccess, ex_Meaning = ''operation succeeded''\<rparr>,
      \<lparr>ex_Code = 1, ex_Class = ExitClassFailure, ex_Meaning = failureMeaning\<rparr>,
      \<lparr>ex_Code = 2, ex_Class = ExitClassRefusal, ex_Meaning = ''usage error or fail-closed refusal''\<rparr>]"

definition reservedExits :: "op_exit list" where
  "reservedExits = [\<lparr>ex_Code = 2, ex_Class = ExitClassRefusal,
     ex_Meaning = ''reserved operation is not callable in this build''\<rparr>]"

definition deferredDomains :: "string list" where
  "deferredDomains = [''delivery'', ''maintenance'', ''multi-root'', ''orchestration'', ''references'',
     ''security-scanners'']"

subsection \<open>The table\<close>

definition op_init :: op_meta where
  "op_init = \<lparr>op_ID = ''init'',
     op_Summary = ''Create or adopt the managed .specd root and install the agent guidance file.'',
     op_Actor = ActorEither, op_Effect = EffectProjectWrite, op_Lifecycles = [],
     op_RequiresRoot = True, op_RequiresChange = False, op_RequiresTask = False,
     op_AuthoritySource = AuthorityNone, op_ScopeSource = ScopeRoot,
     op_Arguments = [op_argument ''root'' False ''Project directory to manage.''],
     op_Flags = op_flags [],
     op_Exits = op_exits ''the root could not be created or adopted'',
     op_ResultType = ''init_result'', op_AgentVisible = True, op_Executable = True,
     op_Example = ''specd init''\<rparr>"

definition op_new :: op_meta where
  "op_new = \<lparr>op_ID = ''new'',
     op_Summary = ''Create a change with its planning artifacts and state.'',
     op_Actor = ActorEither, op_Effect = EffectStateWrite, op_Lifecycles = [],
     op_RequiresRoot = True, op_RequiresChange = False, op_RequiresTask = False,
     op_AuthoritySource = AuthorityNone, op_ScopeSource = ScopeChange,
     op_Arguments = [op_argument ''change'' True ''Change identifier to create.''],
     op_Flags = op_flags [
      \<lparr>fl_Name = ''--capability'', fl_Type = ''string'', fl_Required = False, fl_Enum = [],
       fl_Default = [], fl_Description = ''Capability the delta spec is authored under; the change name when omitted.''\<rparr>],
     op_Exits = op_exits ''the change could not be created'',
     op_ResultType = ''new_result'', op_AgentVisible = True, op_Executable = True,
     op_Example = ''specd new safe-create --capability safety''\<rparr>"

definition op_check :: op_meta where
  "op_check = \<lparr>op_ID = ''check'',
     op_Summary = ''Run planning gates over the change and report findings.'',
     op_Actor = ActorEither, op_Effect = EffectRead, op_Lifecycles = Lifecycles,
     op_RequiresRoot = True, op_RequiresChange = True, op_RequiresTask = False,
     op_AuthoritySource = AuthorityNone, op_ScopeSource = ScopeChange,
     op_Arguments = [op_argument ''change'' True ''Change to validate.''],
     op_Flags = op_flags [],
     op_Exits = op_exits ''blocking gate findings were reported'',
     op_ResultType = ''check_result'', op_AgentVisible = True, op_Executable = True,
     op_Example = ''specd check safe-create''\<rparr>"

definition op_approve :: op_meta where
  "op_approve = \<lparr>op_ID = ''approve'',
     op_Summary = ''Record human approval of the current planning artifacts.'',
     op_Actor = ActorHuman, op_Effect = EffectStateWrite, op_Lifecycles = [LifecyclePlanning],
     op_RequiresRoot = True, op_RequiresChange = True, op_RequiresTask = False,
     op_AuthoritySource = AuthorityHumanID, op_ScopeSource = ScopeChange,
     op_Arguments = [op_argument ''change'' True ''Change to approve.''],
     op_Flags = op_flags [
      \<lparr>fl_Name = ''--approver'', fl_Type = ''string'', fl_Required = False, fl_Enum = [],
       fl_Default = [], fl_Description = ''Approver identity for non-interactive use.''\<rparr>,
      \<lparr>fl_Name = ''--reason'', fl_Type = ''string'', fl_Required = False, fl_Enum = [],
       fl_Default = [], fl_Description = ''Reason recorded with the approval.''\<rparr>],
     op_Exits = op_exits ''approval was refused or could not be recorded'',
     op_ResultType = ''approval_record'', op_AgentVisible = False, op_Executable = True,
     op_Example = ''specd approve safe-create --approver me@example.com --reason reviewed''\<rparr>"

definition op_reopen :: op_meta where
  "op_reopen = \<lparr>op_ID = ''reopen'',
     op_Summary = ''Revoke execution authority and return a change to planning.'',
     op_Actor = ActorEither, op_Effect = EffectStateWrite, op_Lifecycles = [LifecycleApproved],
     op_RequiresRoot = True, op_RequiresChange = True, op_RequiresTask = False,
     op_AuthoritySource = AuthorityActor, op_ScopeSource = ScopeChange,
     op_Arguments = [op_argument ''change'' True ''Approved change to return to planning.''],
     op_Flags = op_flags [
      \<lparr>fl_Name = ''--revision'', fl_Type = ''uint'', fl_Required = True, fl_Enum = [],
       fl_Default = [], fl_Description = ''State revision observed before reopening.''\<rparr>,
      \<lparr>fl_Name = ''--reason'', fl_Type = ''string'', fl_Required = True, fl_Enum = [],
       fl_Default = [], fl_Description = ''Why execution authority is being revoked.''\<rparr>],
     op_Exits = op_exits ''reopening was refused or could not be recorded'',
     op_ResultType = ''reopen_result'', op_AgentVisible = True, op_Executable = True,
     op_Example = ''specd reopen safe-create --revision 4 --reason repair-plan''\<rparr>"

definition op_status :: op_meta where
  "op_status = \<lparr>op_ID = ''status'',
     op_Summary = ''Report lifecycle, approval, readiness, and next action for a change.'',
     op_Actor = ActorEither, op_Effect = EffectRead, op_Lifecycles = Lifecycles,
     op_RequiresRoot = True, op_RequiresChange = True, op_RequiresTask = False,
     op_AuthoritySource = AuthorityNone, op_ScopeSource = ScopeChange,
     op_Arguments = [op_argument ''change'' True ''Change to inspect.''],
     op_Flags = op_flags [],
     op_Exits = op_exits ''the change status could not be projected'',
     op_ResultType = ''status_result'', op_AgentVisible = True, op_Executable = True,
     op_Example = ''specd status safe-create''\<rparr>"

definition op_next :: op_meta where
  "op_next = \<lparr>op_ID = ''next'',
     op_Summary = ''Project the ready task frontier or the single blocking action.'',
     op_Actor = ActorEither, op_Effect = EffectRead, op_Lifecycles = Lifecycles,
     op_RequiresRoot = True, op_RequiresChange = True, op_RequiresTask = False,
     op_AuthoritySource = AuthorityNone, op_ScopeSource = ScopeChange,
     op_Arguments = [op_argument ''change'' True ''Change to project.'',
       op_argument ''task'' False ''Validate one task's frontier membership.''],
     op_Flags = op_flags [],
     op_Exits = op_exits ''readiness could not be projected'',
     op_ResultType = ''next_result'', op_AgentVisible = True, op_Executable = True,
     op_Example = ''specd next safe-create''\<rparr>"

definition op_context :: op_meta where
  "op_context = \<lparr>op_ID = ''context'',
     op_Summary = ''Assemble the bounded read context for exactly one task.'',
     op_Actor = ActorEither, op_Effect = EffectRead, op_Lifecycles = [LifecycleApproved],
     op_RequiresRoot = True, op_RequiresChange = True, op_RequiresTask = True,
     op_AuthoritySource = AuthorityNone, op_ScopeSource = ScopeDeclaredFile,
     op_Arguments = [op_argument ''change'' True ''Change holding the task.'',
       op_argument ''task'' True ''Task to bound context for.''],
     op_Flags = op_flags [
      \<lparr>fl_Name = ''--budget-bytes'', fl_Type = ''int'', fl_Required = False, fl_Enum = [],
       fl_Default = ''0'', fl_Description = ''Byte budget for assembled context; 0 is unbounded.''\<rparr>],
     op_Exits = op_exits ''context could not be assembled within its bounds'',
     op_ResultType = ''context_manifest'', op_AgentVisible = True, op_Executable = True,
     op_Example = ''specd context safe-create S1-01 --budget-bytes 65536''\<rparr>"

definition op_start :: op_meta where
  "op_start = \<lparr>op_ID = ''start'',
     op_Summary = ''Bind a clean Git baseline and open one task attempt.'',
     op_Actor = ActorEither, op_Effect = EffectStateWrite, op_Lifecycles = [LifecycleApproved],
     op_RequiresRoot = True, op_RequiresChange = True, op_RequiresTask = True,
     op_AuthoritySource = AuthorityActor, op_ScopeSource = ScopeDeclaredFile,
     op_Arguments = [op_argument ''change'' True ''Change holding the task.'',
       op_argument ''task'' True ''Frontier task to start.''],
     op_Flags = op_flags [
      \<lparr>fl_Name = ''--revision'', fl_Type = ''uint'', fl_Required = True, fl_Enum = [],
       fl_Default = [], fl_Description = ''State revision observed before the attempt.''\<rparr>],
     op_Exits = op_exits ''the attempt could not be opened'',
     op_ResultType = ''start_result'', op_AgentVisible = True, op_Executable = True,
     op_Example = ''specd start safe-create S1-01 --revision 4''\<rparr>"

definition op_verify :: op_meta where
  "op_verify = \<lparr>op_ID = ''verify'',
     op_Summary = ''Run the task's declared verification and record evidence at current HEAD.'',
     op_Actor = ActorEither, op_Effect = EffectStateWrite, op_Lifecycles = [LifecycleApproved],
     op_RequiresRoot = True, op_RequiresChange = True, op_RequiresTask = True,
     op_AuthoritySource = AuthorityActor, op_ScopeSource = ScopeDeclaredFile,
     op_Arguments = [op_argument ''change'' True ''Change holding the task.'',
       op_argument ''task'' True ''Task to verify.'',
       op_argument ''attempt'' True ''Attempt identifier returned by start.''],
     op_Flags = op_flags [
      \<lparr>fl_Name = ''--timeout'', fl_Type = ''duration'', fl_Required = False, fl_Enum = [],
       fl_Default = ''2m0s'', fl_Description = ''Wall-clock bound on the verification command.''\<rparr>,
      \<lparr>fl_Name = ''--output-limit'', fl_Type = ''int'', fl_Required = False, fl_Enum = [],
       fl_Default = ''32768'', fl_Description = ''Byte bound on recorded command output.''\<rparr>],
     op_Exits = op_exits ''evidence could not be recorded'',
     op_ResultType = ''verify_result'', op_AgentVisible = True, op_Executable = True,
     op_Example = ''specd verify safe-create S1-01 A1 --timeout 2m''\<rparr>"

definition op_complete :: op_meta where
  "op_complete = \<lparr>op_ID = ''complete'',
     op_Summary = ''Consume applicable passing evidence and close the task.'',
     op_Actor = ActorEither, op_Effect = EffectStateWrite, op_Lifecycles = [LifecycleApproved],
     op_RequiresRoot = True, op_RequiresChange = True, op_RequiresTask = True,
     op_AuthoritySource = AuthorityActor, op_ScopeSource = ScopeDeclaredFile,
     op_Arguments = [op_argument ''change'' True ''Change holding the task.'',
       op_argument ''task'' True ''Task to complete.''],
     op_Flags = op_flags [
      \<lparr>fl_Name = ''--revision'', fl_Type = ''uint'', fl_Required = True, fl_Enum = [],
       fl_Default = [], fl_Description = ''State revision observed before completion.''\<rparr>],
     op_Exits = op_exits ''completion was refused or could not be recorded'',
     op_ResultType = ''completion'', op_AgentVisible = True, op_Executable = True,
     op_Example = ''specd complete safe-create S1-01 --revision 6''\<rparr>"

definition op_review :: op_meta where
  "op_review = \<lparr>op_ID = ''review'',
     op_Summary = ''Record or project one separate reviewer verdict for a task.'',
     op_Actor = ActorEither, op_Effect = EffectStateWrite, op_Lifecycles = [LifecycleApproved],
     op_RequiresRoot = True, op_RequiresChange = True, op_RequiresTask = True,
     op_AuthoritySource = AuthorityActor, op_ScopeSource = ScopeChange,
     op_Arguments = [op_argument ''change'' True ''Change holding the reviewed task.'',
       op_argument ''task'' True ''Task the verdict is bound to.'',
       op_argument ''attempt'' True ''Attempt identifier returned by start.''],
     op_Flags = op_flags [
      \<lparr>fl_Name = ''--reviewer'', fl_Type = ''string'', fl_Required = False, fl_Enum = [],
       fl_Default = [], fl_Description = ''Reviewer identity claim; it must match the trusted reviewer identity.''\<rparr>,
      \<lparr>fl_Name = ''--verdict'', fl_Type = ''string'', fl_Required = False, fl_Enum = [''approve'', ''reject''],
       fl_Default = [], fl_Description = ''Verdict to record; omitted projects the current review state without writing.''\<rparr>,
      \<lparr>fl_Name = ''--findings'', fl_Type = ''string'', fl_Required = False, fl_Enum = [],
       fl_Default = [], fl_Description = ''Bounded reviewer findings; required to reject.''\<rparr>],
     op_Exits = op_exits ''the verdict was refused or could not be recorded'',
     op_ResultType = ''review_result'', op_AgentVisible = True, op_Executable = True,
     op_Example = ''specd review safe-create S1-01 A1 --reviewer reviewer@example.com''\<rparr>"

definition op_sync :: op_meta where
  "op_sync = \<lparr>op_ID = ''sync'',
     op_Summary = ''Reconcile approved deltas into accepted specs.'',
     op_Actor = ActorHuman, op_Effect = EffectStateWrite, op_Lifecycles = [LifecycleApproved, LifecycleReconciling],
     op_RequiresRoot = True, op_RequiresChange = True, op_RequiresTask = False,
     op_AuthoritySource = AuthorityHumanID, op_ScopeSource = ScopeChange,
     op_Arguments = [op_argument ''change'' True ''Change to reconcile.''],
     op_Flags = op_flags [
      \<lparr>fl_Name = ''--approver'', fl_Type = ''string'', fl_Required = False, fl_Enum = [],
       fl_Default = [], fl_Description = ''Approver identity for non-interactive use.''\<rparr>,
      \<lparr>fl_Name = ''--reason'', fl_Type = ''string'', fl_Required = False, fl_Enum = [],
       fl_Default = [], fl_Description = ''Reason recorded with the sync authorization.''\<rparr>],
     op_Exits = op_exits ''sync was refused or could not be committed'',
     op_ResultType = ''sync_result'', op_AgentVisible = False, op_Executable = True,
     op_Example = ''specd sync safe-create --approver me@example.com --reason reviewed''\<rparr>"

definition op_archive :: op_meta where
  "op_archive = \<lparr>op_ID = ''archive'',
     op_Summary = ''Validate and move a reconciled change into the archive.'',
     op_Actor = ActorEither, op_Effect = EffectStateWrite, op_Lifecycles = [LifecycleReconciling],
     op_RequiresRoot = True, op_RequiresChange = True, op_RequiresTask = False,
     op_AuthoritySource = AuthorityActor, op_ScopeSource = ScopeChange,
     op_Arguments = [op_argument ''change'' True ''Change to archive.''],
     op_Flags = op_flags [],
     op_Exits = op_exits ''archive was refused or could not be committed'',
     op_ResultType = ''archive_result'', op_AgentVisible = True, op_Executable = True,
     op_Example = ''specd archive safe-create''\<rparr>"

definition op_report :: op_meta where
  "op_report = \<lparr>op_ID = ''report'',
     op_Summary = ''Project one of the four canonical read-only reports.'',
     op_Actor = ActorEither, op_Effect = EffectRead, op_Lifecycles = Lifecycles,
     op_RequiresRoot = True, op_RequiresChange = True, op_RequiresTask = False,
     op_AuthoritySource = AuthorityNone, op_ScopeSource = ScopeChange,
     op_Arguments = [op_argument ''change'' True ''Change to project.''],
     op_Flags = op_flags [
      \<lparr>fl_Name = ''--kind'', fl_Type = ''string'', fl_Required = True, fl_Enum = [''status'', ''proof'', ''history'', ''review''],
       fl_Default = [], fl_Description = ''Report to project; only these four kinds exist.''\<rparr>,
      \<lparr>fl_Name = ''--profile'', fl_Type = ''string'', fl_Required = False, fl_Enum = [''default'', ''production''],
       fl_Default = [], fl_Description = ''Policy profile the report is projected under.''\<rparr>],
     op_Exits = op_exits ''the report could not be projected'',
     op_ResultType = ''report_result'', op_AgentVisible = True, op_Executable = True,
     op_Example = ''specd report safe-create --kind status''\<rparr>"

definition op_friction :: op_meta where
  "op_friction = \<lparr>op_ID = ''friction'',
     op_Summary = ''Record one observation that a deferred domain blocked real work.'',
     op_Actor = ActorEither, op_Effect = EffectStateWrite, op_Lifecycles = Lifecycles,
     op_RequiresRoot = True, op_RequiresChange = True, op_RequiresTask = True,
     op_AuthoritySource = AuthorityActor, op_ScopeSource = ScopeChange,
     op_Arguments = [op_argument ''change'' True ''Change holding the blocked task.'',
       op_argument ''task'' True ''Task status reports as blocked.''],
     op_Flags = op_flags [
      \<lparr>fl_Name = ''--domain'', fl_Type = ''string'', fl_Required = True, fl_Enum = deferredDomains,
       fl_Default = [], fl_Description = ''Deferred domain whose absence caused the block; only these exist.''\<rparr>,
      \<lparr>fl_Name = ''--blocked-operation'', fl_Type = ''string'', fl_Required = True, fl_Enum = [],
       fl_Default = [], fl_Description = ''Operation that was blocked when the observation was made.''\<rparr>,
      \<lparr>fl_Name = ''--consequence'', fl_Type = ''string'', fl_Required = True, fl_Enum = [],
       fl_Default = [], fl_Description = ''What the missing capability prevented, observed and not predicted.''\<rparr>,
      \<lparr>fl_Name = ''--revision'', fl_Type = ''uint'', fl_Required = True, fl_Enum = [],
       fl_Default = [], fl_Description = ''State revision observed before recording.''\<rparr>],
     op_Exits = op_exits ''friction was refused or could not be recorded'',
     op_ResultType = ''friction_result'', op_AgentVisible = True, op_Executable = True,
     op_Example = ''specd friction safe-create S1-01 --domain orchestration --blocked-operation next --consequence no-route-exists --revision 6''\<rparr>"

definition op_table :: "op_meta list" where
  "op_table = [op_init, op_new, op_check, op_approve, op_reopen, op_status, op_next, op_context, op_start, op_verify, op_complete, op_review, op_sync, op_archive, op_report, op_friction]"

subsection \<open>Projections\<close>

definition AgentOperations :: "op_meta list" where
  "AgentOperations = filter op_AgentVisible op_table"

definition OperationByID :: "string \<Rightarrow> op_meta option" where
  "OperationByID i = find (\<lambda>p. op_ID p = i) op_table"

definition Flag :: "op_meta \<Rightarrow> string \<Rightarrow> op_flag option" where
  "Flag p name = find (\<lambda>f. fl_Name f = name) (op_Flags p)"

definition RequiredArguments :: "op_meta \<Rightarrow> nat" where
  "RequiredArguments p = length (filter arg_Required (op_Arguments p))"

definition trim_prefix :: "string \<Rightarrow> string \<Rightarrow> string" where
  "trim_prefix s p = (if has_prefix s p then drop (length p) s else s)"

definition usage_argument :: "op_arg \<Rightarrow> string" where
  "usage_argument a =
     (if arg_Required a then ''<'' @ arg_Name a @ ''>'' else ''['' @ arg_Name a @ '']'')"

definition usage_flag :: "op_flag \<Rightarrow> string" where
  "usage_flag f =
     (let t = fl_Name f @ (if fl_Type f \<noteq> ''bool'' then '' <'' @ trim_prefix (fl_Name f) ''--'' @ ''>'' else [])
      in if fl_Required f then t else ''['' @ t @ '']'')"

definition Usage :: "op_meta \<Rightarrow> string" where
  "Usage p = join_with CHR '' '' ([''specd'', op_ID p] @ map usage_argument (op_Arguments p) @
     map usage_flag (op_Flags p))"

definition AppliesTo :: "op_meta \<Rightarrow> lifecycle \<Rightarrow> bool" where
  "AppliesTo p stage \<longleftrightarrow> op_Lifecycles p = [] \<or> stage \<in> set (op_Lifecycles p)"

subsection \<open>Validation\<close>

definition validActors :: "string list" where "validActors = [ActorAgent, ActorHuman, ActorEither]"
definition validEffects :: "string list" where
  "validEffects = [EffectRead, EffectProjectWrite, EffectStateWrite]"
definition validAuthority :: "string list" where
  "validAuthority = [AuthorityNone, AuthorityActor, AuthorityHumanID]"
definition validScope :: "string list" where
  "validScope = [ScopeNone, ScopeRoot, ScopeChange, ScopeDeclaredFile]"
definition validFlagTypes :: "string list" where
  "validFlagTypes = [''bool'', ''string'', ''int'', ''uint'', ''duration'']"
definition validExitClass :: "string list" where
  "validExitClass = [ExitClassSuccess, ExitClassFailure, ExitClassRefusal]"

definition unsafeInExample :: string where
  "unsafeInExample = '';|&$'' @ [CHR 0x60] @ ''<>(){}[]*?!'' @
     [CHR 0x5C, CHR 0x22, CHR 0x27, CHR 0x0A, CHR 0x0D, CHR 0x09]"

definition op_fail :: "op_meta \<Rightarrow> msg \<Rightarrow> error + 'a" where
  "op_fail p m = Inl (Failed ([Str (op_ID p), Str '': ''] @ m))"

fun validate_lifecycles :: "op_meta \<Rightarrow> lifecycle list \<Rightarrow> lifecycle list \<Rightarrow> error + unit" where
  "validate_lifecycles p seen [] = Inr ()"
| "validate_lifecycles p seen (l # ls) =
     (if l \<notin> set Lifecycles then op_fail p [Str ''unknown lifecycle '', Quo l]
      else if l \<in> set seen then op_fail p [Str ''duplicate lifecycle '', Quo l]
      else validate_lifecycles p (l # seen) ls)"

fun validate_argument_list :: "op_meta \<Rightarrow> bool \<Rightarrow> string list \<Rightarrow> op_arg list \<Rightarrow> error + string list" where
  "validate_argument_list p optionalSeen names [] = Inr names"
| "validate_argument_list p optionalSeen names (a # as) =
     (if trim_space (arg_Name a) = [] \<or> trim_space (arg_Description a) = [] then
        op_fail p [Str ''every argument declares a name and description'']
      else if arg_Name a \<in> set names then op_fail p [Str ''duplicate argument '', Quo (arg_Name a)]
      else if \<not> arg_Required a then validate_argument_list p True (arg_Name a # names) as
      else if optionalSeen then
        op_fail p [Str ''required argument '', Quo (arg_Name a), Str '' follows an optional one'']
      else validate_argument_list p False (arg_Name a # names) as)"

definition validateArguments :: "op_meta \<Rightarrow> error + unit" where
  "validateArguments p =
     bindE (validate_argument_list p False [] (op_Arguments p)) (\<lambda>names.
     if op_RequiresChange p \<and> ''change'' \<notin> set names then
       op_fail p [Str ''a change selector requires a change argument'']
     else if op_RequiresTask p \<and> ''task'' \<notin> set names then
       op_fail p [Str ''a task selector requires a task argument'']
     else Inr ())"

fun validate_enum :: "op_meta \<Rightarrow> string \<Rightarrow> string list \<Rightarrow> string list \<Rightarrow> error + unit" where
  "validate_enum p name seen [] = Inr ()"
| "validate_enum p name seen (v # vs) =
     (if trim_space v = [] \<or> v \<in> set seen then
        op_fail p [Str ''flag '', Quo name, Str '' has an empty or duplicate enum value'']
      else validate_enum p name (v # seen) vs)"

definition validate_flag :: "op_meta \<Rightarrow> string list \<Rightarrow> op_flag \<Rightarrow> error + unit" where
  "validate_flag p names f =
     (let q = Quo (fl_Name f) in
      if \<not> has_prefix (fl_Name f) ''--'' then op_fail p [Str ''flag '', q, Str '' must be long form'']
      else if fl_Name f \<in> set names then op_fail p [Str ''duplicate flag '', q]
      else if fl_Type f \<notin> set validFlagTypes then
        op_fail p [Str ''flag '', q, Str '' has unknown type '', Quo (fl_Type f)]
      else if trim_space (fl_Description f) = [] then op_fail p [Str ''flag '', q, Str '' requires a description'']
      else if fl_Type f = ''bool'' \<and> (fl_Required f \<or> fl_Default f \<noteq> [] \<or> fl_Enum f \<noteq> []) then
        op_fail p [Str ''boolean flag '', q, Str '' takes no value, default, or enum'']
      else if fl_Enum f \<noteq> [] \<and> fl_Default f \<noteq> [] \<and> fl_Default f \<notin> set (fl_Enum f) then
        op_fail p [Str ''flag '', q, Str '' default '', Quo (fl_Default f), Str '' is outside its enum'']
      else validate_enum p (fl_Name f) [] (fl_Enum f))"

fun validate_flag_list :: "op_meta \<Rightarrow> string list \<Rightarrow> op_flag list \<Rightarrow> error + string list" where
  "validate_flag_list p names [] = Inr names"
| "validate_flag_list p names (f # fs) =
     bindE (validate_flag p names f) (\<lambda>_. validate_flag_list p (fl_Name f # names) fs)"

definition validateFlags :: "op_meta \<Rightarrow> error + unit" where
  "validateFlags p =
     bindE (validate_flag_list p [] (op_Flags p)) (\<lambda>names.
     if ''--root'' \<notin> set names \<or> ''--json'' \<notin> set names then
       op_fail p [Str ''every operation accepts --root and --json'']
     else Inr ())"

text \<open>The loop over the exits, with the codes seen and whether a success and a refusal class were.\<close>

fun validate_exit_list :: "op_meta \<Rightarrow> int list \<Rightarrow> bool \<Rightarrow> bool \<Rightarrow> op_exit list \<Rightarrow> error + bool \<times> bool" where
  "validate_exit_list p codes success refusal [] = Inr (success, refusal)"
| "validate_exit_list p codes success refusal (x # xs) =
     (if ex_Code x \<in> set codes then op_fail p [Str ''duplicate exit code '', Str (show_int (ex_Code x))]
      else if ex_Class x \<notin> set validExitClass then op_fail p [Str ''unknown exit class '', Quo (ex_Class x)]
      else if trim_space (ex_Meaning x) = [] then
        op_fail p [Str ''exit '', Str (show_int (ex_Code x)), Str '' requires a meaning'']
      else validate_exit_list p (ex_Code x # codes) (success \<or> ex_Class x = ExitClassSuccess)
        (refusal \<or> ex_Class x = ExitClassRefusal) xs)"

definition validateExits :: "op_meta \<Rightarrow> error + unit" where
  "validateExits p =
     (if op_Exits p = [] then op_fail p [Str ''exit classes are required'']
      else bindE (validate_exit_list p [] False False (op_Exits p)) (\<lambda>(success, refusal).
        if \<not> refusal then op_fail p [Str ''every operation declares a refusal exit class'']
        else if success \<noteq> op_Executable p then
          op_fail p [Str ''a success exit class is declared exactly when the operation is executable'']
        else Inr ()))"

definition validateExample :: "op_meta \<Rightarrow> error + unit" where
  "validateExample p =
     (if \<not> has_prefix (op_Example p) (''specd '' @ op_ID p) then
        op_fail p [Str ''example must invoke the operation it documents'']
      else if list_ex (\<lambda>c. c \<in> set unsafeInExample) (op_Example p) then
        op_fail p [Str ''example '', Quo (op_Example p), Str '' contains shell metacharacters'']
      else Inr ())"

definition validate_fields :: "op_meta \<Rightarrow> error + unit" where
  "validate_fields p =
     (if trim_space (op_ID p) = [] then Inl (Failed [Str ''operation id is required''])
      else if trim_space (op_Summary p) = [] then op_fail p [Str ''summary is required'']
      else if op_Actor p \<notin> set validActors then op_fail p [Str ''unknown actor '', Quo (op_Actor p)]
      else if op_Effect p \<notin> set validEffects then op_fail p [Str ''unknown effect '', Quo (op_Effect p)]
      else if op_AuthoritySource p \<notin> set validAuthority then
        op_fail p [Str ''unknown authority source '', Quo (op_AuthoritySource p)]
      else if op_ScopeSource p \<notin> set validScope then
        op_fail p [Str ''unknown scope source '', Quo (op_ScopeSource p)]
      else if \<not> op_RequiresRoot p then op_fail p [Str ''every operation resolves an explicit root'']
      else if op_RequiresTask p \<and> \<not> op_RequiresChange p then
        op_fail p [Str ''a task selector requires a change selector'']
      else if op_RequiresChange p = (op_Lifecycles p = []) then
        op_fail p [Str ''lifecycle applicability is declared exactly when a change is resolved'']
      else Inr ())"

definition validateOperation :: "op_meta \<Rightarrow> error + unit" where
  "validateOperation p =
     bindE (validate_fields p) (\<lambda>_.
     bindE (validate_lifecycles p [] (op_Lifecycles p)) (\<lambda>_.
     bindE (validateArguments p) (\<lambda>_.
     bindE (validateFlags p) (\<lambda>_.
     bindE (validateExits p) (\<lambda>_.
     if op_AgentVisible p \<and> op_Actor p = ActorHuman then
       op_fail p [Str ''human-only operations are never agent visible'']
     else if op_Executable p \<and> op_ResultType p = [] then
       op_fail p [Str ''executable operations declare a JSON result type'']
     else if \<not> op_Executable p \<and> (op_AgentVisible p \<or> op_ResultType p \<noteq> []) then
       op_fail p [Str ''reserved operations are neither callable nor agent visible'']
     else validateExample p)))))"

fun validate_operation_list :: "string list \<Rightarrow> string gomap \<Rightarrow> op_meta list \<Rightarrow> error + unit" where
  "validate_operation_list seen results [] = Inr ()"
| "validate_operation_list seen results (p # ps) =
     bindE (validateOperation p) (\<lambda>_.
     if op_ID p \<in> set seen then op_fail p [Str ''duplicate operation id'']
     else if op_ResultType p = [] then validate_operation_list (op_ID p # seen) results ps
     else (case map_of results (op_ResultType p) of
         Some taken \<Rightarrow>
           op_fail p [Str ''result type '', Quo (op_ResultType p), Str '' already owned by '', Str taken]
       | None \<Rightarrow> validate_operation_list (op_ID p # seen) ((op_ResultType p, op_ID p) # results) ps))"

definition validateOperations :: "op_meta list \<Rightarrow> error + unit" where
  "validateOperations registry =
     (if registry = [] then Inl (Failed [Str ''operation registry is empty''])
      else validate_operation_list [] [] registry)"

text \<open>The initialisation of the package panics on a table that does not validate.\<close>

definition registry_init :: "error + unit" where
  "registry_init = map_err (\<lambda>e. Panicked (Str ''operation registry invalid: '' # error_Error e))
     (validateOperations op_table)"

subsection \<open>The public facts\<close>

definition show_bool :: "bool \<Rightarrow> string" where
  "show_bool b = (if b then ''true'' else ''false'')"

definition factOrNone :: "string \<Rightarrow> string" where
  "factOrNone v = (if v = [] then ''none'' else v)"

text \<open>\<open>strings.Join\<close> with a separator of two characters.\<close>

fun join_text :: "string \<Rightarrow> string list \<Rightarrow> string" where
  "join_text sep [] = []"
| "join_text sep [w] = w"
| "join_text sep (w # ws) = w @ sep @ join_text sep ws"

definition factLifecycles :: "op_meta \<Rightarrow> string" where
  "factLifecycles p =
     (if op_Lifecycles p = [] then ''not lifecycle scoped'' else join_text '', '' (op_Lifecycles p))"

definition factArguments :: "op_meta \<Rightarrow> string" where
  "factArguments p =
     (if op_Arguments p = [] then ''none''
      else join_text ''; '' (map (\<lambda>a. usage_argument a @ '' '' @ arg_Description a) (op_Arguments p)))"

definition fact_flag :: "op_flag \<Rightarrow> string" where
  "fact_flag f = fl_Name f @ '' ('' @ fl_Type f @ (if fl_Required f then '', required'' else []) @
     (if fl_Enum f \<noteq> [] then '', one of '' @ join_with CHR ''/'' (fl_Enum f) else []) @
     (if fl_Default f \<noteq> [] then '', default '' @ fl_Default f else []) @ '') '' @ fl_Description f"

definition factFlags :: "op_meta \<Rightarrow> string" where
  "factFlags p = (if op_Flags p = [] then ''none'' else join_text ''; '' (map fact_flag (op_Flags p)))"

definition factExits :: "op_meta \<Rightarrow> string" where
  "factExits p = join_text ''; ''
     (map (\<lambda>x. show_int (ex_Code x) @ '' '' @ ex_Class x @ '': '' @ ex_Meaning x) (op_Exits p))"

definition Facts :: "op_meta \<Rightarrow> (string \<times> string) list" where
  "Facts p = [(''id'', op_ID p), (''summary'', op_Summary p), (''usage'', Usage p), (''actor'', op_Actor p),
     (''effect'', op_Effect p), (''lifecycles'', factLifecycles p),
     (''requiresRoot'', show_bool (op_RequiresRoot p)), (''requiresChange'', show_bool (op_RequiresChange p)),
     (''requiresTask'', show_bool (op_RequiresTask p)), (''authoritySource'', op_AuthoritySource p),
     (''scopeSource'', op_ScopeSource p), (''arguments'', factArguments p), (''flags'', factFlags p),
     (''exits'', factExits p), (''resultType'', factOrNone (op_ResultType p)),
     (''agentVisible'', show_bool (op_AgentVisible p)), (''executable'', show_bool (op_Executable p)),
     (''example'', op_Example p)]"

record operation_facts =
  of_SchemaVersion :: int
  of_Operations :: "op_meta list"

definition ProjectOperations :: operation_facts where
  "ProjectOperations = \<lparr>of_SchemaVersion = OperationSchemaVersion, of_Operations = op_table\<rparr>"

definition ProjectAgentOperations :: operation_facts where
  "ProjectAgentOperations = \<lparr>of_SchemaVersion = OperationSchemaVersion, of_Operations = AgentOperations\<rparr>"

definition lf :: string where "lf = [CHR 0x0A]"

definition pad_right :: "nat \<Rightarrow> string \<Rightarrow> string" where
  "pad_right n s = s @ replicate (n - length s) CHR '' ''"

definition help_operation :: "op_meta \<Rightarrow> string" where
  "help_operation p = lf @ concat (map (\<lambda>(k, v). ''  '' @ pad_right 16 k @ '' '' @ v @ lf) (Facts p))"

definition RenderOperationHelp :: "operation_facts \<Rightarrow> string" where
  "RenderOperationHelp facts = ''specd operations (schema '' @ show_int (of_SchemaVersion facts) @ '')'' @ lf @
     concat (map help_operation (of_Operations facts))"

definition docs_operation :: "op_meta \<Rightarrow> string" where
  "docs_operation p = lf @ ''## '' @ op_ID p @ lf @ lf @ ''| fact | value |'' @ lf @ ''|---|---|'' @ lf @
     concat (map (\<lambda>(k, v). ''| '' @ k @ '' | '' @ v @ '' |'' @ lf) (Facts p))"

definition RenderOperationDocs :: "operation_facts \<Rightarrow> string" where
  "RenderOperationDocs facts = ''# Operations'' @ lf @ lf @
     ''Generated from the operation registry (schema '' @ show_int (of_SchemaVersion facts) @
     ''). Do not edit by hand:'' @ lf @
     ''run '' @ [CHR 0x60] @ ''go test ./internal/core -run TestOperationProjectionParity'' @ [CHR 0x60] @
     '' to detect drift'' @ lf @
     ''and '' @ [CHR 0x60] @
     ''SPECD_WRITE_OPERATION_DOCS=1 go test ./internal/core -run TestOperationProjectionParity'' @ [CHR 0x60] @ lf @
     ''to regenerate this file.'' @ lf @ lf @
     ''Examples are display data. They are never parsed, expanded, or executed.'' @ lf @
     concat (map docs_operation (of_Operations facts))"

subsection \<open>What validation establishes\<close>

lemma op_fail_Inr [simp]: "op_fail p m \<noteq> Inr x"
  by (simp add: op_fail_def)

lemma validateOperation_Inr:
  assumes "validateOperation p = Inr ()"
  shows "\<not> (op_AgentVisible p \<and> op_Actor p = ActorHuman)"
    and "op_Executable p \<longleftrightarrow> op_ResultType p \<noteq> []" and "op_AgentVisible p \<longrightarrow> op_Executable p"
    and "op_Actor p \<in> set validActors" and "op_RequiresChange p \<longleftrightarrow> op_Lifecycles p \<noteq> []"
    and "op_RequiresTask p \<longrightarrow> op_RequiresChange p"
  using assms
  by (auto simp: validateOperation_def validate_fields_def bindE_eq_Inr split: if_splits)

lemma validate_operation_list_Inr:
  assumes "validate_operation_list seen results ps = Inr ()"
  shows "(\<forall>p \<in> set ps. validateOperation p = Inr ()) \<and> distinct (map op_ID ps) \<and>
    set (map op_ID ps) \<inter> set seen = {} \<and>
    distinct (filter (\<lambda>t. t \<noteq> []) (map op_ResultType ps)) \<and>
    (\<forall>p \<in> set ps. op_ResultType p \<noteq> [] \<longrightarrow> map_of results (op_ResultType p) = None)"
  using assms
proof (induction ps arbitrary: seen results)
  case (Cons p ps)
  have v: "validateOperation p = Inr ()" "op_ID p \<notin> set seen"
    using Cons.prems by (auto simp: bindE_eq_Inr split: if_splits)
  show ?case
  proof (cases "op_ResultType p = []")
    case True
    then have "validate_operation_list (op_ID p # seen) results ps = Inr ()"
      using Cons.prems v by simp
    from Cons.IH [OF this] show ?thesis using v True by auto
  next
    case False
    then have n: "map_of results (op_ResultType p) = None"
      and "validate_operation_list (op_ID p # seen) ((op_ResultType p, op_ID p) # results) ps = Inr ()"
      using Cons.prems v by (auto split: option.splits)
    from Cons.IH [OF this(2)] show ?thesis using v False n by (auto split: if_splits)
  qed
qed simp

lemma find_distinct:
  "distinct (map f xs) \<Longrightarrow> x \<in> set xs \<Longrightarrow> find (\<lambda>y. f y = f x) xs = Some x"
  by (induction xs) (auto simp: image_iff)

text \<open>C40: A registry that validates keeps the human boundary and is unambiguous: no operation an agent may see
  is for humans only or has no handler, an operation has a result type exactly when it can be called, it
  applies to lifecycle stages exactly when it resolves a change, and both the identifiers and the result
  types determine their operation.\<close>
theorem valid_registry_boundary:
  assumes "validateOperations registry = Inr ()" and "p \<in> set registry"
  shows "(op_AgentVisible p \<longrightarrow> op_Actor p \<in> {ActorAgent, ActorEither} \<and> op_Executable p) \<and>
    (op_Executable p \<longleftrightarrow> op_ResultType p \<noteq> []) \<and> (op_RequiresChange p \<longleftrightarrow> op_Lifecycles p \<noteq> []) \<and>
    (op_RequiresTask p \<longrightarrow> op_RequiresChange p) \<and>
    find (\<lambda>q. op_ID q = op_ID p) registry = Some p \<and>
    (\<forall>q \<in> set registry. op_Executable p \<and> op_ResultType q = op_ResultType p \<longrightarrow> q = p)"
proof -
  note l = validate_operation_list_Inr [of "[]" "[]" registry]
  have r: "\<forall>p \<in> set registry. validateOperation p = Inr ()" "distinct (map op_ID registry)"
    "distinct (filter (\<lambda>t. t \<noteq> []) (map op_ResultType registry))"
    using assms(1) l by (auto simp: validateOperations_def split: if_splits)
  note v = validateOperation_Inr [of p]
  have "inj_on op_ResultType {q \<in> set registry. op_ResultType q \<noteq> []}"
    using r(3) by (simp add: filter_map distinct_map o_def)
  then have "\<forall>q \<in> set registry. op_Executable p \<and> op_ResultType q = op_ResultType p \<longrightarrow> q = p"
    using assms(2) v(2) r(1) by (auto simp: inj_on_def)
  then show ?thesis
    using v r(1) assms(2) find_distinct [OF r(2) assms(2)] by (auto simp: validActors_def)
qed

lemma table_valid: "validateOperations op_table = Inr ()"
  by code_simp

theorem valid_registry_boundary_witness:
  "find (\<lambda>q. op_ID q = op_ID op_sync) op_table = Some op_sync \<and> (op_RequiresChange op_sync \<longleftrightarrow> op_Lifecycles op_sync \<noteq> [])"
  using valid_registry_boundary [OF table_valid, of op_sync] by (simp add: op_table_def)

end
