(* ===== verification/Syncing.thy ===== *)
theory Syncing
  imports Completion Approving SyncReview Registry Transaction
begin

text \<open>
  Sync (\<open>internal/core/sync.go\<close>): the reviewed deltas of an approved change become accepted truth. What
  is rechecked under the locks of the root and the change, the record and the state it writes, and the
  one transaction that commits them with the rebuilt documents; the answer to a repeated sync. The
  workspace an operation reads is the world of the transaction with the evidence ledger beside it. The
  clock of the request is its UTC text and the calendar date it has locally.
\<close>

record sync_options =
  syo_GitEmail :: string
  syo_EnvironmentApprover :: string
  syo_ClaimedApprover :: string
  syo_Reason :: string
  syo_Route :: string
  syo_Interactive :: bool
  syo_Confirmed :: bool
  syo_Now :: string
  syo_Date :: string
  syo_Hook :: hook

record sync_capability =
  syc_Capability :: string
  syc_Path :: string
  syc_Before :: string
  syc_After :: string
  syc_Created :: bool
  syc_NoOp :: bool

record sync_result =
  syr_Change :: string
  syr_Approver :: string
  syr_PlanHash :: string
  syr_EvidenceSet :: string
  syr_Capabilities :: "sync_capability list"
  syr_TransactionID :: string
  syr_HistoryID :: string
  syr_ArchiveTarget :: string
  syr_RevisionBefore :: u64
  syr_RevisionAfter :: u64
  syr_NoOp :: bool

definition syncFailure :: "string \<Rightarrow> string \<Rightarrow> msg \<Rightarrow> msg \<Rightarrow> error" where
  "syncFailure code path reason next' = refuse code [] path reason next'"

definition sync_intent :: "sync_options \<Rightarrow> approve_intent" where
  "sync_intent q = \<lparr>aqi_GitEmail = syo_GitEmail q, aqi_EnvironmentApprover = syo_EnvironmentApprover q,
     aqi_ClaimedApprover = syo_ClaimedApprover q, aqi_Reason = syo_Reason q,
     aqi_Interactive = syo_Interactive q, aqi_Confirmed = syo_Confirmed q, aqi_Route = syo_Route q\<rparr>"

text \<open>The workspace of a world, and a body under the lock of the root and that of the change.\<close>

definition space_in :: "world \<Rightarrow> ledger_file \<Rightarrow> workspace" where
  "space_in w evidence = \<lparr>ws_fs = w_fs w, ws_history = w_history w, ws_evidence = evidence\<rparr>"

definition with_locks :: "core_env \<Rightarrow> string \<Rightarrow> 'a act \<Rightarrow> 'a act" where
  "with_locks env change body w =
     (case ChangeLock (ce_owner env) (w_fs w) change of
        Inl e \<Rightarrow> (Inl e, w)
      | Inr p \<Rightarrow> (case ce_lock env ''.root.lock'' of
          Some e \<Rightarrow> (Inl e, w)
        | None \<Rightarrow> (case ce_lock env p of Some e \<Rightarrow> (Inl e, w) | None \<Rightarrow> body w)))"

subsection \<open>Hashes and paths\<close>

definition evidenceSetHash :: "state \<Rightarrow> string" where
  "evidenceSetHash current =
     (let bindings = (case decodeCompletionBindings (map_of (st_Extensions current) completionExtensionKey) of
        Inl _ \<Rightarrow> [] | Inr m \<Rightarrow> m)
      in sha256_hex (join_with CHR 0x0A (sort (map (\<lambda>(i, b). i @ CHR 0x00 # cb_EvidenceID b) bindings))))"

definition planHash :: "reconcile_plan \<Rightarrow> string" where
  "planHash r = sha256_hex (join_with CHR 0x0A (sort (map (\<lambda>c. join_with CHR 0x00
     [cap_Capability c, cap_DeltaHash c, cap_AcceptedHash c, cap_OutputHash c]) (pl_Capabilities r))))"

definition syncTransactionHash :: "string \<Rightarrow> u64 \<Rightarrow> spec_hash list \<Rightarrow> string" where
  "syncTransactionHash change revision specs = sha256_hex (join_with CHR 0x0A
     ([change, show_nat (unat revision)] @
      map (\<lambda>s. sph_Path s @ CHR 0x00 # sph_Before s @ CHR 0x00 # sph_After s) specs))"

definition managedRelative :: "core_env \<Rightarrow> string \<Rightarrow> error + string" where
  "managedRelative env target =
     (let bad = Inl (syncFailure ''sync_path'' target [Str ''managed path escapes .specd'']
        [Str ''restore .specd from version control'']) in
      case filepath_Rel (own_managed (ce_owner env)) target of
        Inl _ \<Rightarrow> bad
      | Inr rel \<Rightarrow> if rel = ''.'' \<or> rel = ''..'' \<or> has_prefix rel ''../'' then bad else Inr rel)"

definition archiveTarget :: "core_env \<Rightarrow> fs \<Rightarrow> string \<Rightarrow> string \<Rightarrow> error + string" where
  "archiveTarget env fs change date =
     (let target = path_join ''archive'' (date @ ''-'' @ change) in
      bindE (CheckWriteTarget (ce_owner env) fs target) (\<lambda>_.
      managedRelative env (abs_path (ce_owner env) target)))"

definition advanced_state :: "state \<Rightarrow> lifecycle \<Rightarrow> string \<Rightarrow> state" where
  "advanced_state current to history = advance history (current\<lparr>st_Stage := to\<rparr>)"

definition advancedState :: "state \<Rightarrow> lifecycle \<Rightarrow> string \<Rightarrow> error + string" where
  "advancedState current to history =
     bindE (state_Encode (advanced_state current to history)) (\<lambda>_.
     Inr (state_bytes (advanced_state current to history)))"

definition projectionAvailable :: bool where
  "projectionAvailable = (case OperationByID ''sync'' of None \<Rightarrow> False | Some p \<Rightarrow> op_Executable p)"

subsection \<open>Facts about tasks and evidence\<close>

definition evidenceRecordIDs :: "core_env \<Rightarrow> workspace \<Rightarrow> error + string set" where
  "evidenceRecordIDs env w =
     bindE (evidence_of env w (syncFailure ''sync_evidence'' (Evidence (ce_owner env))
       [Str ''evidence has an incomplete tail''] [Str ''restore evidence from version control''])) (\<lambda>rs.
     Inr (rc_ID ` set rs))"

definition bound_known :: "completion_binding gomap \<Rightarrow> string set \<Rightarrow> string \<Rightarrow> bool" where
  "bound_known bindings known i = (case map_of bindings i of
     None \<Rightarrow> False | Some b \<Rightarrow> cb_EvidenceID b \<in> known)"

definition proof_facts :: "activity_row list \<Rightarrow> completion_binding gomap \<Rightarrow> string set \<Rightarrow> task_fact \<times> evidence_fact" where
  "proof_facts rows bindings known =
     (let finished = filter (\<lambda>r. ar_Activity r = TaskCompleted) rows in
      (\<lparr>tkf_Total = int (length rows), tkf_Completed = int (length finished),
        tkf_Incomplete = map ar_ID (filter (\<lambda>r. ar_Activity r \<noteq> TaskCompleted) rows)\<rparr>,
       \<lparr>evf_Current = int (length (filter (\<lambda>r. bound_known bindings known (ar_ID r)) finished)),
        evf_Stale = map ar_ID (filter (\<lambda>r. \<not> bound_known bindings known (ar_ID r)) finished)\<rparr>))"

definition syncProofFacts :: "core_env \<Rightarrow> workspace \<Rightarrow> string \<Rightarrow> state \<Rightarrow> change \<Rightarrow> error + task_fact \<times> evidence_fact" where
  "syncProofFacts env w change current authored =
     (case BuildTaskGraph (ch_Tasks authored) of
        Inl _ \<Rightarrow> Inl (syncFailure ''sync_plan'' (src_Path (tasks_Source (ch_Tasks authored)))
          [Str ''task graph is invalid''] [Str (''repair tasks and run specd check '' @ change)])
      | Inr graph \<Rightarrow>
          bindE (ProjectTaskActivities (AuthoredOrder graph) (task_states current)) (\<lambda>rows.
          case decodeCompletionBindings (map_of (st_Extensions current) completionExtensionKey) of
            Inl _ \<Rightarrow> Inl (syncFailure ''sync_state'' [] [Str ''completion bindings are malformed'']
              [Str (''run specd status '' @ change)])
          | Inr bindings \<Rightarrow>
              bindE (evidenceRecordIDs env w) (\<lambda>known. Inr (proof_facts rows bindings known))))"

subsection \<open>A repeated sync\<close>

definition latestSyncRecord :: "core_env \<Rightarrow> workspace \<Rightarrow> string \<Rightarrow> error + sync_payload \<times> string" where
  "latestSyncRecord env w change =
     (let history = History (ce_owner env);
          bad = (\<lambda>reason. syncFailure ''sync_history'' history reason [Str ''restore history from version control'']) in
      bindE (history_of env w (bad [Str ''history has an incomplete tail''])) (\<lambda>rs.
      case find_last (\<lambda>r. rc_Change r = change \<and> rc_Kind r = ''synced'') rs of
        None \<Rightarrow> Inl (bad [Str ''the change is reconciling with no sync record''])
      | Some r \<Rightarrow> (case DecodeSyncPayload (rc_Payload r) of
          Inl e \<Rightarrow> Inl (bad (error_Error e))
        | Inr p \<Rightarrow> Inr (p, rc_ID r))))"

fun acceptedOutputsCurrent :: "core_env \<Rightarrow> fs \<Rightarrow> spec_hash list \<Rightarrow> error + unit" where
  "acceptedOutputsCurrent env fs [] = Inr ()"
| "acceptedOutputsCurrent env fs (x # xs) =
     (let target = path_Clean (sph_Path x); path = abs_path (ce_owner env) target in
      case os_ReadFile env fs target of
        Inl _ \<Rightarrow> Inl (syncFailure ''sync_drift'' path
          [Str ''an accepted spec written by this sync is missing or unreadable'']
          [Str ''restore .specd/specs from version control''])
      | Inr raw \<Rightarrow>
          if sha256_hex raw \<noteq> sph_After x then
            Inl (syncFailure ''sync_drift'' path [Str ''an accepted spec changed after it was synced'']
              [Str ''plan the remaining work as a new change''])
          else acceptedOutputsCurrent env fs xs)"

definition priorSync :: "core_env \<Rightarrow> workspace \<Rightarrow> string \<Rightarrow> string \<Rightarrow> error + sync_result" where
  "priorSync env w change date =
     bindE (latestSyncRecord env w change) (\<lambda>(p, i).
     bindE (acceptedOutputsCurrent env (ws_fs w) (syp_Outputs p)) (\<lambda>_.
     bindE (archiveTarget env (ws_fs w) change date) (\<lambda>target.
     Inr \<lparr>syr_Change = change, syr_Approver = syp_Approver p, syr_PlanHash = syp_PlanHash p,
       syr_EvidenceSet = syp_EvidenceSet p,
       syr_Capabilities = map (\<lambda>x. \<lparr>syc_Capability = sph_Capability x, syc_Path = sph_Path x,
         syc_Before = sph_Before x, syc_After = sph_After x, syc_Created = (sph_Before x = []), syc_NoOp = True\<rparr>)
         (syp_Outputs p),
       syr_TransactionID = [], syr_HistoryID = i, syr_ArchiveTarget = target,
       syr_RevisionBefore = syp_RevisionBefore p, syr_RevisionAfter = syp_RevisionAfter p, syr_NoOp = True\<rparr>)))"

subsection \<open>Planning a sync\<close>

text \<open>The review a sync rests on, and the hash of the plan that was approved.\<close>

definition sync_review :: "core_env \<Rightarrow> workspace \<Rightarrow> string \<Rightarrow> sync_options \<Rightarrow> state
    \<Rightarrow> error + reconcile_plan \<times> string \<times> approval_record option \<times> review" where
  "sync_review env w change q current =
     (let authored = plan_of (ce_tree env) (ws_fs w) change in
      bindE PlanningRegistry (\<lambda>registry.
      bindE (projectApprovalStatusForPlanLocked env w change (rg_version registry) DefaultPolicyDigest authored) (\<lambda>approval.
      bindE (syncProofFacts env w change current authored) (\<lambda>(tasks, evidence).
      case Build (ce_tree env) (ws_fs w) change of
        None \<Rightarrow> Inl (Panicked [Str ''reconcile.Build''])
      | Some r \<Rightarrow>
          bindE (archiveTarget env (ws_fs w) change (syo_Date q)) (\<lambda>target.
          Inr (r, target, aps_Approval approval, ProjectReview r
            \<lparr>ri_Change = authored,
             ri_Approval = \<lparr>apf_Current = aps_Current approval, apf_Reason = aps_Reason approval\<rparr>,
             ri_Tasks = tasks, ri_Evidence = evidence, ri_ArchiveTarget = target,
             ri_ProjectionAvailable = projectionAvailable\<rparr>))))))"

fun sync_outputs :: "core_env \<Rightarrow> capability list \<Rightarrow> error + (sync_capability \<times> txn_write) list" where
  "sync_outputs env [] = Inr []"
| "sync_outputs env (c # cs) =
     bindE (managedRelative env (cap_AcceptedPath c)) (\<lambda>p.
     bindE (sync_outputs env cs) (\<lambda>xs.
     Inr ((\<lparr>syc_Capability = cap_Capability c, syc_Path = p, syc_Before = cap_AcceptedHash c,
            syc_After = cap_OutputHash c, syc_Created = cap_Created c, syc_NoOp = cap_NoOp c\<rparr>,
           \<lparr>wr_Path = p, wr_Before = cap_AcceptedHash c, wr_Bytes = Some (cap_Output c)\<rparr>) # xs)))"

definition spec_of :: "sync_capability \<Rightarrow> spec_hash" where
  "spec_of c = \<lparr>sph_Capability = syc_Capability c, sph_Path = syc_Path c, sph_Before = syc_Before c,
     sph_After = syc_After c\<rparr>"

definition new_sync :: "string \<Rightarrow> string \<Rightarrow> string \<Rightarrow> state \<Rightarrow> reconcile_plan \<Rightarrow> string \<Rightarrow> sync_capability list
    \<Rightarrow> error + sync_payload" where
  "new_sync change approver reason current r approvalHash capabilities =
     (let specs = sort_key sph_Capability (map spec_of capabilities) in
      NewSyncPayload \<lparr>syp_SchemaVersion = 0, syp_Change = change, syp_Approver = approver,
        syp_ActorClass = ''human'', syp_Reason = trim_space reason, syp_ApprovalHash = approvalHash,
        syp_PlanHash = planHash r, syp_EvidenceSet = evidenceSetHash current,
        syp_Transaction = syncTransactionHash change (st_Revision current) specs, syp_Outputs = specs,
        syp_RevisionBefore = st_Revision current, syp_RevisionAfter = st_Revision current + 1,
        syp_Assurance = ''advisory''\<rparr>)"

text \<open>What a sync is about to commit.\<close>

record sync_plan =
  sp_request :: request
  sp_payload :: sync_payload
  sp_record :: hist_record
  sp_capabilities :: "sync_capability list"
  sp_target :: string

definition plan_sync :: "core_env \<Rightarrow> workspace \<Rightarrow> string \<Rightarrow> string \<Rightarrow> sync_options \<Rightarrow> string \<Rightarrow> string \<Rightarrow> state
    \<Rightarrow> error + sync_plan" where
  "plan_sync env w change approver q statePath raw current =
     bindE (sync_review env w change q current) (\<lambda>(r, target, approval, review).
     case rvw_Blockers review of
       b # _ \<Rightarrow> Inl (syncFailure ''sync_blocked'' (own_root (ce_owner env))
         [Str (bl_Owner b @ '' must resolve '' @ bl_Code b @ '': '' @ bl_Reason b)] [Str (bl_Next b)])
     | [] \<Rightarrow>
         bindE (sync_outputs env (pl_Capabilities r)) (\<lambda>outputs.
         case approval of
           None \<Rightarrow> Inl (Panicked [Str ''nil pointer dereference''])
         | Some a \<Rightarrow>
             bindE (new_sync change approver (syo_Reason q) current r (ap_AggregateHash a) (map fst outputs)) (\<lambda>payload.
             bindE (transition_record ''synced'' change (st_Revision current) (syo_Now q) approver
               (sync_payload_json payload)) (\<lambda>history.
             bindE (advancedState current LifecycleReconciling (rc_ID history)) (\<lambda>bytes.
             bindE (managedRelative env (abs_path (ce_owner env) statePath)) (\<lambda>relative.
             Inr \<lparr>sp_request = \<lparr>rq_Operation = ''sync'', rq_Change = change, rq_Revision = st_Revision current,
                    rq_Now = syo_Now q,
                    rq_Outputs = map snd outputs @
                      [\<lparr>wr_Path = relative, wr_Before = sha256_hex raw, wr_Bytes = Some bytes\<rparr>],
                    rq_Moves = [], rq_Record = Some history, rq_Hook = syo_Hook q\<rparr>,
                  sp_payload = payload, sp_record = history, sp_capabilities = map fst outputs,
                  sp_target = target\<rparr>))))))"

definition sync_result_of :: "string \<Rightarrow> string \<Rightarrow> state \<Rightarrow> sync_plan \<Rightarrow> txn_result \<Rightarrow> sync_result" where
  "sync_result_of change approver current p committed =
     \<lparr>syr_Change = change, syr_Approver = approver, syr_PlanHash = syp_PlanHash (sp_payload p),
      syr_EvidenceSet = syp_EvidenceSet (sp_payload p), syr_Capabilities = sp_capabilities p,
      syr_TransactionID = rs_ID committed, syr_HistoryID = rc_ID (sp_record p), syr_ArchiveTarget = sp_target p,
      syr_RevisionBefore = st_Revision current, syr_RevisionAfter = st_Revision current + 1, syr_NoOp = False\<rparr>"

subsection \<open>The operation\<close>

definition syncLocked :: "core_env \<Rightarrow> string \<Rightarrow> string \<Rightarrow> sync_options \<Rightarrow> ledger_file \<Rightarrow> sync_result act" where
  "syncLocked env change approver q evidence w =
     (case bindE (ChangeState (ce_owner env) (w_fs w) change) (\<lambda>p.
           bindE (readCheckState (ce_tree env) (w_fs w) p) (\<lambda>raw.
           bindE (state_Decode (read_text raw) change) (\<lambda>s. Inr (p, raw, s)))) of
        Inl e \<Rightarrow> (Inl e, w)
      | Inr (p, raw, current) \<Rightarrow>
          if st_Stage current = LifecycleReconciling then
            (priorSync env (space_in w evidence) change (syo_Date q), w)
          else if st_Stage current \<noteq> LifecycleApproved then
            (Inl (syncFailure ''sync_lifecycle'' (abs_path (ce_owner env) p)
               [Str ''sync requires an approved change, got '', Quo (st_Stage current)]
               [Str (''run specd status '' @ change)]), w)
          else (case plan_sync env (space_in w evidence) change approver q p raw current of
              Inl e \<Rightarrow> (Inl e, w)
            | Inr s \<Rightarrow> (case CommitUnderRootLock (ce_owner env) (sp_request s) w of
                (Inl e, w') \<Rightarrow> (Inl e, w')
              | (Inr committed, w') \<Rightarrow> (Inr (sync_result_of change approver current s committed), w'))))"

definition Sync :: "core_env \<Rightarrow> string \<Rightarrow> sync_options \<Rightarrow> ledger_file \<Rightarrow> sync_result act" where
  "Sync env change q evidence w =
     (case validateApproveIntent (sync_intent q) of
        Inl e \<Rightarrow> (Inl e, w)
      | Inr approver \<Rightarrow>
          if syo_Now q = zero_time then
            (Inl (syncFailure ''sync_clock'' [] [Str ''sync requires an injected clock'']
               [Str ''retry sync from a harness operation'']), w)
          else with_locks env change (syncLocked env change approver q evidence) w)"

text \<open>\<open>RecoverTransactions\<close>, which takes the lock of the root and runs the recovery.\<close>

definition RecoverTransactions :: "core_env \<Rightarrow> string \<Rightarrow> unit act" where
  "RecoverTransactions env now w = (case ce_lock env ''.root.lock'' of
     Some e \<Rightarrow> (Inl e, w)
   | None \<Rightarrow> (case recoverLocked (ce_owner env) now w of
       (Inl e, w') \<Rightarrow> (Inl e, w') | (Inr _, w') \<Rightarrow> (Inr (), w')))"

end
