(* ===== verification/SyncFacts.thy ===== *)
theory SyncFacts
  imports Syncing Resumption Commits
begin

text \<open>
  What a sync rests on and what it commits: the facts behind a review that is ready, the request built from
  the plan, and the payload of its record as the history gives it back.
\<close>

subsection \<open>The stored payload\<close>

lemma spec_hash_canon: "spec_hash_of_json (json_canon (spec_hash_json s)) = Some s"
  unfolding spec_hash_json_def spec_hash_of_json_def
  by (cases "sph_Before s = []"; subst json_canon_flat; (subst decode_object_sorted)?)
     (simp_all add: spec_hash_names_def omit_empty_def getters map_of_sorted del: sort_key_simps)

lemma specs_canon: "specs_of_json (canon_items (map spec_hash_json ss)) = Some ss"
  by (induction ss) (simp_all add: spec_hash_canon)

lemma sync_stored:
  assumes "syp_SchemaVersion p = 1"
  shows "sync_payload_of_json (json_canon (sync_payload_json p)) = Some p"
  using assms unfolding sync_payload_json_def sync_payload_of_json_def
  by (subst json_canon_object; (subst decode_object_sorted)?)
     (simp_all add: sync_payload_names_def getters map_of_sorted field_specs_def specs_canon del: sort_key_simps,
      simp_all add: json_int_def json_u64_def json_nat_def)

lemma sync_decodes:
  assumes "SyncPayload_Validate c = Inr ()" and "keys_distinct (json_canon (sync_payload_json c))"
  shows "DecodeSyncPayload (Some (json_canon (sync_payload_json c))) = Inr c"
proof -
  have "syp_SchemaVersion c = 1" using assms(1) by (auto simp: SyncPayload_Validate_def split: if_splits)
  then show ?thesis
    using assms by (auto simp: DecodeSyncPayload_def intro!: decode_payload_ok sync_stored)
qed

subsection \<open>The reconciled plan\<close>

lemma rebuild_conflicts: "Reconcile.rebuild delta current \<noteq> Some (Inl [])"
  by (auto simp: Reconcile.rebuild_def Option.bind_eq_Some_conv Let_def split: prod.splits if_splits)

lemma build_capability_hash:
  assumes "build_capability delta path found = Some (c, [])"
  shows "cap_OutputHash c = sha256_hex (cap_Output c)"
proof -
  obtain current ds where r: "readAccepted path found = (current, ds)" by fastforce
  then have "ds = []" using assms by (auto simp: build_capability_def Let_def split: if_splits)
  then obtain z where z: "Reconcile.rebuild delta current = Some z"
    using assms r by (cases "Reconcile.rebuild delta current") (auto simp: build_capability_def Let_def)
  then show ?thesis
    using assms r \<open>ds = []\<close> rebuild_conflicts [of delta current]
    by (cases z) (auto simp: build_capability_def Let_def)
qed

lemma build_capabilities_hash:
  assumes "build_capabilities env fs seen deltas = Some (cs, [])" and "c \<in> set cs"
  shows "cap_OutputHash c = sha256_hex (cap_Output c)"
  using assms
proof (induction deltas arbitrary: seen cs)
  case (Cons d deltas)
  have "\<exists>p l c' cs'. build_capability d p l = Some (c', []) \<and>
      build_capabilities env fs (p # seen) deltas = Some (cs', []) \<and> cs = c' # cs'"
    using Cons.prems(1) by (auto simp: Let_def Option.bind_eq_Some_conv split: sum.splits if_splits)
  then show ?case using Cons.IH build_capability_hash Cons.prems(2) by auto
qed simp

lemma Build_hash:
  assumes "Build env fs change = Some r" and "pl_Applicable r" and "c \<in> set (pl_Capabilities r)"
  shows "cap_OutputHash c = sha256_hex (cap_Output c)"
proof -
  obtain deltas found where d: "DiscoverCapabilityDeltas env fs change = (deltas, found)" by fastforce
  then obtain cs ds where "build_capabilities env fs [] deltas = Some (cs, ds)"
    using assms(1) by (auto simp: Build_def Let_def)
  then show ?thesis
    using assms d build_capabilities_hash [of env fs "[]" deltas cs c]
    by (auto simp: Build_def Let_def split: if_splits)
qed

subsection \<open>What a planned sync rests on\<close>

text \<open>A task is proved when it is completed and bound to evidence that is in the ledger.\<close>

definition task_proved :: "core_env \<Rightarrow> workspace \<Rightarrow> state \<Rightarrow> string \<Rightarrow> bool" where
  "task_proved env w current i \<longleftrightarrow> map_of (task_states current) i = Some (JStr TaskCompleted) \<and>
     (\<exists>bindings b es. decodeCompletionBindings (map_of (st_Extensions current) completionExtensionKey) = Inr bindings \<and>
        map_of bindings i = Some b \<and> Replay (ws_evidence w) (Evidence (ce_owner env)) FamilyEvidence = Inr (es, []) \<and>
        cb_EvidenceID b \<in> rc_ID ` set es)"

definition approval_of :: "core_env \<Rightarrow> workspace \<Rightarrow> string \<Rightarrow> approval_record \<Rightarrow> bool" where
  "approval_of env w change a \<longleftrightarrow> (\<exists>g st. PlanningRegistry = Inr g \<and>
     projectApprovalStatusForPlanLocked env w change (rg_version g) DefaultPolicyDigest
       (plan_of (ce_tree env) (ws_fs w) change) = Inr st \<and> aps_Current st \<and> aps_Approval st = Some a)"

lemma proof_facts_complete:
  assumes "proof_facts rows bindings known = (t, e)" and "tkf_Incomplete t = []" and "evf_Stale e = []" and "x \<in> set rows"
  shows "ar_Activity x = TaskCompleted" and "bound_known bindings known (ar_ID x)"
  using assms by (auto simp: proof_facts_def Let_def filter_empty_conv)

lemma syncProofFacts_complete:
  assumes "syncProofFacts env w change current authored = Inr (t, e)"
    and "tkf_Incomplete t = []" and "evf_Stale e = []" and "x \<in> set (tasks_Tasks (ch_Tasks authored))"
  shows "task_proved env w current (task_ID x)"
proof -
  obtain g where g: "BuildTaskGraph (ch_Tasks authored) = Inr g"
    using assms(1) by (cases "BuildTaskGraph (ch_Tasks authored)") (simp_all add: syncProofFacts_def)
  have order: "AuthoredOrder g = map task_ID (tasks_Tasks (ch_Tasks authored))"
    by (rule BuildTaskGraph_cases [of "ch_Tasks authored"]) (use g in \<open>simp_all add: graph_ok_def AuthoredOrder_def\<close>)
  obtain rows where rows: "ProjectTaskActivities (AuthoredOrder g) (task_states current) = Inr rows"
    using assms(1) g by (auto simp: syncProofFacts_def)
  then obtain bindings where b: "decodeCompletionBindings (map_of (st_Extensions current) completionExtensionKey) = Inr bindings"
    using assms(1) g by (cases "decodeCompletionBindings (map_of (st_Extensions current) completionExtensionKey)")
      (simp_all add: syncProofFacts_def)
  then obtain known where k: "evidenceRecordIDs env w = Inr known" "proof_facts rows bindings known = (t, e)"
    using assms(1) g rows by (auto simp: syncProofFacts_def)
  obtain es where es: "Replay (ws_evidence w) (Evidence (ce_owner env)) FamilyEvidence = Inr (es, [])" "known = rc_ID ` set es"
    using k(1) by (auto simp: evidenceRecordIDs_def evidence_of_def split: prod.splits if_splits)
  have "rows = map (\<lambda>i. \<lparr>ar_ID = i, ar_Activity = activity_of (task_states current) i\<rparr>) (AuthoredOrder g)"
    using rows ProjectTaskActivities_cases [of "AuthoredOrder g" "task_states current"] by (auto split: if_splits)
  then have "\<lparr>ar_ID = task_ID x, ar_Activity = activity_of (task_states current) (task_ID x)\<rparr> \<in> set rows"
    using assms(4) order by auto
  from proof_facts_complete [OF k(2) assms(2,3) this] have p: "activity_of (task_states current) (task_ID x) = TaskCompleted"
    "bound_known bindings known (task_ID x)" by simp_all
  then have "map_of (task_states current) (task_ID x) = Some (JStr TaskCompleted)"
    by (auto simp: activity_of_def activity_defs split: option.splits json.splits)
  then show ?thesis using p(2) b es by (auto simp: task_proved_def bound_known_def split: option.splits)
qed

lemma plan_sync_Inr:
  assumes "plan_sync env w change approver q statePath raw current = Inr s"
  obtains r a outputs relative where
    "Build (ce_tree env) (ws_fs w) change = Some r" "pl_Applicable r" "approval_of env w change a"
    "\<And>x. x \<in> set (tasks_Tasks (ch_Tasks (plan_of (ce_tree env) (ws_fs w) change))) \<Longrightarrow> task_proved env w current (task_ID x)"
    "sync_outputs env (pl_Capabilities r) = Inr outputs" "sp_capabilities s = map fst outputs"
    "new_sync change approver (syo_Reason q) current r (ap_AggregateHash a) (map fst outputs) = Inr (sp_payload s)"
    "transition_record ''synced'' change (st_Revision current) (syo_Now q) approver (sync_payload_json (sp_payload s)) =
       Inr (sp_record s)"
    "managedRelative env (abs_path (ce_owner env) statePath) = Inr relative"
    "sp_request s = \<lparr>rq_Operation = ''sync'', rq_Change = change, rq_Revision = st_Revision current,
       rq_Now = syo_Now q, rq_Outputs = map snd outputs @ [\<lparr>wr_Path = relative, wr_Before = sha256_hex raw,
         wr_Bytes = Some (state_bytes (advanced_state current LifecycleReconciling (rc_ID (sp_record s))))\<rparr>],
       rq_Moves = [], rq_Record = Some (sp_record s), rq_Hook = syo_Hook q\<rparr>"
proof -
  obtain r target approval review where rv: "sync_review env w change q current = Inr (r, target, approval, review)"
    and plan: "(case rvw_Blockers review of
     b # _ \<Rightarrow> Inl (syncFailure ''sync_blocked'' (own_root (ce_owner env))
         [Str (bl_Owner b @ '' must resolve '' @ bl_Code b @ '': '' @ bl_Reason b)] [Str (bl_Next b)])
     | [] \<Rightarrow> bindE (sync_outputs env (pl_Capabilities r)) (\<lambda>outputs.
         case approval of
           None \<Rightarrow> Inl (Panicked [Str ''nil pointer dereference''])
         | Some a \<Rightarrow>
             bindE (new_sync change approver (syo_Reason q) current r (ap_AggregateHash a) (map fst outputs)) (\<lambda>payload.
             bindE (transition_record ''synced'' change (st_Revision current) (syo_Now q) approver
               (sync_payload_json payload)) (\<lambda>history.
             bindE (advancedState current LifecycleReconciling (rc_ID history)) (\<lambda>bytes.
             bindE (managedRelative env (abs_path (ce_owner env) statePath)) (\<lambda>relative.
             Inr \<lparr>sp_request = \<lparr>rq_Operation = ''sync'', rq_Change = change, rq_Revision = st_Revision current,
                    rq_Now = syo_Now q,
                    rq_Outputs = map snd outputs @
                      [\<lparr>wr_Path = relative, wr_Before = sha256_hex raw, wr_Bytes = Some bytes\<rparr>],
                    rq_Moves = [], rq_Record = Some history, rq_Hook = syo_Hook q\<rparr>,
                  sp_payload = payload, sp_record = history, sp_capabilities = map fst outputs,
                  sp_target = target\<rparr>)))))) = Inr s"
    using assms by (auto simp: plan_sync_def)
  have no: "rvw_Blockers review = []" using plan by (cases "rvw_Blockers review") simp_all
  obtain outputs where o: "sync_outputs env (pl_Capabilities r) = Inr outputs" using plan no by auto
  then obtain a where a: "approval = Some a" using plan no by (cases approval) simp_all
  obtain payload where p: "new_sync change approver (syo_Reason q) current r (ap_AggregateHash a) (map fst outputs) = Inr payload"
    using plan no o a by auto
  obtain history where h: "transition_record ''synced'' change (st_Revision current) (syo_Now q) approver
      (sync_payload_json payload) = Inr history"
    using plan no o a p by auto
  obtain relative where m: "managedRelative env (abs_path (ce_owner env) statePath) = Inr relative"
    using plan no o a p h by auto
  have s: "s = \<lparr>sp_request = \<lparr>rq_Operation = ''sync'', rq_Change = change, rq_Revision = st_Revision current,
       rq_Now = syo_Now q, rq_Outputs = map snd outputs @ [\<lparr>wr_Path = relative, wr_Before = sha256_hex raw,
         wr_Bytes = Some (state_bytes (advanced_state current LifecycleReconciling (rc_ID history)))\<rparr>],
       rq_Moves = [], rq_Record = Some history, rq_Hook = syo_Hook q\<rparr>,
       sp_payload = payload, sp_record = history, sp_capabilities = map fst outputs, sp_target = target\<rparr>"
    using plan no o a p h m by (auto simp: advancedState_def)
  obtain g where g: "PlanningRegistry = Inr g" using rv by (auto simp: sync_review_def Let_def)
  then obtain st where st: "projectApprovalStatusForPlanLocked env w change (rg_version g) DefaultPolicyDigest
      (plan_of (ce_tree env) (ws_fs w) change) = Inr st"
    using rv by (auto simp: sync_review_def Let_def g)
  then obtain t e where te: "syncProofFacts env w change current (plan_of (ce_tree env) (ws_fs w) change) = Inr (t, e)"
    using rv by (auto simp: sync_review_def Let_def g)
  then obtain r' where b: "Build (ce_tree env) (ws_fs w) change = Some r'"
    using rv by (cases "Build (ce_tree env) (ws_fs w) change") (simp_all add: sync_review_def Let_def g st te)
  then have rest: "r' = r" "aps_Approval st = Some a" "\<exists>x. ri_Approval x = \<lparr>apf_Current = aps_Current st, apf_Reason = aps_Reason st\<rparr> \<and>
      ri_Tasks x = t \<and> ri_Evidence x = e \<and> review = ProjectReview r x"
    using rv a by (auto simp: sync_review_def Let_def g st te b intro!: exI)
  then obtain x where x: "ri_Approval x = \<lparr>apf_Current = aps_Current st, apf_Reason = aps_Reason st\<rparr>"
    "ri_Tasks x = t" "ri_Evidence x = e" "review = ProjectReview r x" by blast
  have "rvw_Ready review" using no x(4) by (simp add: ProjectReview_def)
  then have ready: "pl_Applicable r" "tkf_Incomplete t = []" "evf_Stale e = []" "aps_Current st"
    using x review_ready_iff [of r x] by auto
  have ap: "approval_of env w change a" unfolding approval_of_def using g st ready(4) rest(2) by blast
  show thesis
    by (rule that [of r a outputs relative])
       (use b rest(1) ready(1) ap o p h m syncProofFacts_complete [OF te ready(2,3)] in \<open>simp_all add: s\<close>)
qed

subsection \<open>A sync that succeeds\<close>

text \<open>What a sync is about to commit over a workspace, and the state it starts from.\<close>

definition plans_sync :: "core_env \<Rightarrow> string \<Rightarrow> sync_options \<Rightarrow> workspace \<Rightarrow> string \<Rightarrow> state \<Rightarrow> sync_plan \<Rightarrow> bool" where
  "plans_sync env change q w p current s \<longleftrightarrow> (\<exists>approver raw.
     validateApproveIntent (sync_intent q) = Inr approver \<and> ChangeState (ce_owner env) (ws_fs w) change = Inr p \<and>
     readCheckState (ce_tree env) (ws_fs w) p = Inr raw \<and> state_Decode (read_text raw) change = Inr current \<and>
     st_Stage current = LifecycleApproved \<and> plan_sync env w change approver q p raw current = Inr s)"

lemma validateApproveIntent_Inr:
  assumes "validateApproveIntent x = Inr approver"
  shows "aqi_Route x = ApprovalRouteHumanTerminal" and "trim_space (aqi_Reason x) \<noteq> []"
    and "ResolveApprovalIdentity (aqi_GitEmail x) (aqi_EnvironmentApprover x) = Inr approver"
    and "if aqi_Interactive x then aqi_Confirmed x else aqi_ClaimedApprover x = approver"
  using assms by (auto simp: validateApproveIntent_def Let_def bindE_eq_Inr split: if_splits)

text \<open>A sync either changes nothing or is the commit of what it planned.\<close>

lemma with_locks_cases:
  assumes "with_locks env change body w = (res, w')"
  shows "w' = w \<and> (\<exists>e. res = Inl e) \<or> body w = (res, w')"
  using assms by (auto simp: with_locks_def split: sum.splits option.splits)

lemma priorSync_NoOp: "priorSync env w change date = Inr r \<Longrightarrow> syr_NoOp r"
  by (auto simp: priorSync_def bindE_eq_Inr split: prod.splits)

lemma Sync_cases:
  assumes "Sync env change q ev w = (res, w')"
  obtains (unchanged) "w' = w" and "\<And>r. res = Inr r \<Longrightarrow> syr_NoOp r"
  | (commits) p current s committed where "plans_sync env change q (space_in w ev) p current s"
      and "CommitUnderRootLock (ce_owner env) (sp_request s) w = (committed, w')"
      and "\<And>r. res = Inr r \<Longrightarrow> \<exists>c approver. validateApproveIntent (sync_intent q) = Inr approver \<and>
        committed = Inr c \<and> r = sync_result_of change approver current s c"
      and "\<And>e. res = Inl e \<Longrightarrow> committed = Inl e"
proof -
  show thesis
  proof (cases "validateApproveIntent (sync_intent q)")
    case (Inl e)
    then show ?thesis using assms by (intro unchanged) (simp_all add: Sync_def)
  next
    case (Inr approver)
    show ?thesis
    proof (cases "w' = w \<and> (\<exists>e. res = Inl e)")
      case True
      then show ?thesis by (intro unchanged) auto
    next
      case False
      then have "with_locks env change (syncLocked env change approver q ev) w = (res, w')"
        using assms Inr by (auto simp: Sync_def split: if_splits)
      from with_locks_cases [OF this] have l: "syncLocked env change approver q ev w = (res, w')" using False by blast
      define found where "found = bindE (ChangeState (ce_owner env) (w_fs w) change) (\<lambda>p.
           bindE (readCheckState (ce_tree env) (w_fs w) p) (\<lambda>raw.
           bindE (state_Decode (read_text raw) change) (\<lambda>s. Inr (p, raw, s))))"
      obtain p raw current where found: "found = Inr (p, raw, current)"
        using l False by (cases found) (auto simp: syncLocked_def found_def [symmetric])
      then have at: "ChangeState (ce_owner env) (w_fs w) change = Inr p" "readCheckState (ce_tree env) (w_fs w) p = Inr raw"
        "state_Decode (read_text raw) change = Inr current" by (auto simp: found_def)
      consider "st_Stage current = LifecycleReconciling" | "st_Stage current = LifecycleApproved"
        using l False found by (auto simp: syncLocked_def found_def [symmetric] split: if_splits)
      then show ?thesis
      proof cases
        case 1
        then have "res = priorSync env (space_in w ev) change (syo_Date q)" "w' = w"
          using l found by (auto simp: syncLocked_def found_def [symmetric])
        then show ?thesis using priorSync_NoOp by (intro unchanged) auto
      next
        case 2
        then obtain s where s: "plan_sync env (space_in w ev) change approver q p raw current = Inr s"
          using l found False
          by (cases "plan_sync env (space_in w ev) change approver q p raw current")
            (auto simp: syncLocked_def found_def [symmetric] lifecycle_defs)
        obtain committed v where c: "CommitUnderRootLock (ce_owner env) (sp_request s) w = (committed, v)" by fastforce
        then have r: "v = w'" "\<And>r. res = Inr r \<Longrightarrow> \<exists>c approver.
            validateApproveIntent (sync_intent q) = Inr approver \<and> committed = Inr c \<and>
            r = sync_result_of change approver current s c"
          "\<And>e. res = Inl e \<Longrightarrow> committed = Inl e"
          using l found s 2 Inr
          by (auto simp: syncLocked_def found_def [symmetric] lifecycle_defs split: sum.splits)
        have "plans_sync env change q (space_in w ev) p current s"
          using Inr at 2 s by (auto simp: plans_sync_def space_in_def)
        then show ?thesis using c r(1) by (intro commits [OF _ _ r(2,3)]) simp_all
      qed
    qed
  qed
qed

subsection \<open>What a sync leaves\<close>

lemma plan_writes:
  assumes "plan rq = Inr m" and "w \<in> set (rq_Outputs rq)"
  obtains x where "x \<in> set (mf_Outputs m)" and "ou_Path x = wr_Path w" and "ou_After x = hash (the (wr_Bytes w))"
proof -
  obtain xs where xs: "plan_outputs [] (rq_Outputs rq) = Inr xs" "set (mf_Outputs m) = set xs"
    using assms(1) by (auto simp: plan_def Let_def bindE_eq_Inr split: if_splits)
  have "\<lparr>ou_Path = wr_Path w, ou_Before = wr_Before w, ou_After = hash (the (wr_Bytes w))\<rparr> \<in> set xs"
    unfolding plan_outputs_facts(1) [OF xs(1)] using assms(2) by auto
  then show thesis using that xs(2) by auto
qed

lemma sync_outputs_all:
  assumes "sync_outputs env cs = Inr xs"
  shows "(\<forall>c \<in> set cs. \<exists>x \<in> set xs. managedRelative env (cap_AcceptedPath c) = Inr (wr_Path (snd x)) \<and>
      wr_Bytes (snd x) = Some (cap_Output c)) \<and>
    (\<forall>x \<in> set xs. \<exists>c \<in> set cs. syc_Path (fst x) = wr_Path (snd x) \<and> syc_After (fst x) = cap_OutputHash c \<and>
      wr_Bytes (snd x) = Some (cap_Output c))"
  using assms
proof (induction cs arbitrary: xs)
  case (Cons c cs)
  then obtain p ys where "managedRelative env (cap_AcceptedPath c) = Inr p" "sync_outputs env cs = Inr ys"
    "xs = (\<lparr>syc_Capability = cap_Capability c, syc_Path = p, syc_Before = cap_AcceptedHash c,
       syc_After = cap_OutputHash c, syc_Created = cap_Created c, syc_NoOp = cap_NoOp c\<rparr>,
       \<lparr>wr_Path = p, wr_Before = cap_AcceptedHash c, wr_Bytes = Some (cap_Output c)\<rparr>) # ys"
    by (auto simp: bindE_eq_Inr)
  then show ?case using Cons.IH by auto
qed simp

text \<open>The state, the accepted documents and the history of a change that has been synced: what the next
  sync, and the archive, rest on.\<close>

definition synced :: "core_env \<Rightarrow> string \<Rightarrow> ledger_file \<Rightarrow> fs \<Rightarrow> string \<Rightarrow> state \<Rightarrow> sync_plan \<Rightarrow> world \<Rightarrow> bool" where
  "synced env change ev base p current s w \<longleftrightarrow>
     (\<forall>r. Build (ce_tree env) base change = Some r \<longrightarrow> (\<forall>c \<in> set (pl_Capabilities r). \<exists>t b.
        managedRelative env (cap_AcceptedPath c) = Inr t \<and> map_of (w_fs w) t = Some (NFile b) \<and>
        sha256_hex b = sha256_hex (cap_Output c))) \<and>
     (\<exists>t b. managedRelative env (abs_path (ce_owner env) p) = Inr t \<and> map_of (w_fs w) t = Some (NFile b) \<and>
        sha256_hex b = sha256_hex (state_bytes (advanced_state current LifecycleReconciling (rc_ID (sp_record s))))) \<and>
     latestSyncRecord env (space_in w ev) change = Inr (sp_payload s, rc_ID (sp_record s)) \<and>
     acceptedOutputsCurrent env (w_fs w) (syp_Outputs (sp_payload s)) = Inr ()"

lemma acceptedOutputsCurrent_iff:
  "acceptedOutputsCurrent env fs xs = Inr () \<longleftrightarrow>
     (\<forall>x \<in> set xs. \<exists>b. os_ReadFile env fs (path_Clean (sph_Path x)) = Inr b \<and> sha256_hex b = sph_After x)"
  by (induction xs) (auto simp: Let_def split: sum.splits)

lemma recorded_sync:
  assumes "recordable (ce_owner env) h m" and "recorded m h (w_history w)" and "mf_Record m = Some (record_json r)"
    and "transition_record ''synced'' change revision now approver (sync_payload_json c) = Inr r"
    and "SyncPayload_Validate c = Inr ()"
  shows "latestSyncRecord env (space_in w ev) change = Inr (c, rc_ID r)"
proof -
  note f = transition_record_Inr [OF assms(4)]
  have "record_decode False (record_json r) = Some r"
    using record_Validate_facts [OF f(1)] f(9) by (auto simp: sync_payload_json_def intro!: record_decode_json)
  then have "bound_record m = Some r" using assms(3) by (simp add: bound_record_def)
  then obtain rs where rs: "replay (bytes_of h @ bound_line m) (History (ce_owner env)) FamilyHistory = Inr (rs @ [r], [])"
    using recordable_line [OF assms(1)] by metis
  then have "Replay (w_history w) (History (ce_owner env)) FamilyHistory = Inr (rs @ [r], [])"
    using assms(2) by (simp add: recorded_def readable_Replay)
  then have "history_of env (space_in w ev) torn = Inr (rs @ [r])" for torn
    by (simp add: history_of_def space_in_def)
  moreover have "DecodeSyncPayload (rc_Payload r) = Inr c"
    using sync_decodes [OF assms(5)] stored_payload_distinct [OF f(1,9)] f(9) by simp
  ultimately show ?thesis using f(3,4) by (simp add: latestSyncRecord_def Let_def find_last_snoc)
qed

lemma plan_bound:
  assumes "plan rq = Inr m" and "rq_Record rq = Some r"
  shows "mf_Record m = Some (record_json r)"
  using assms by (auto simp: plan_def plan_record_def Let_def bindE_eq_Inr split: sum.splits if_splits)

lemma new_sync_outputs:
  "new_sync change approver reason current r approvalHash cs = Inr c \<Longrightarrow>
     syp_Outputs c = sort_key sph_Capability (map spec_of cs)"
  by (auto simp: new_sync_def NewSyncPayload_def Let_def bindE_eq_Inr)

lemma applied_synced:
  assumes plans: "plans_sync env change q \<lparr>ws_fs = base, ws_history = h, ws_evidence = ev\<rparr> p current s"
    and "startable base (sp_request s) m" and "recordable (ce_owner env) h m"
    and "all_done m (w_fs w)" and "recorded m h (w_history w)"
  shows "synced env change ev base p current s w"
proof -
  obtain approver raw where ps: "plan_sync env \<lparr>ws_fs = base, ws_history = h, ws_evidence = ev\<rparr> change approver q p raw current = Inr s"
    using plans by (auto simp: plans_sync_def)
  let ?w = "\<lparr>ws_fs = base, ws_history = h, ws_evidence = ev\<rparr>"
  obtain r a outputs relative where g: "Build (ce_tree env) (ws_fs ?w) change = Some r" "pl_Applicable r"
    "approval_of env ?w change a"
    "\<And>x. x \<in> set (tasks_Tasks (ch_Tasks (plan_of (ce_tree env) (ws_fs ?w) change))) \<Longrightarrow> task_proved env ?w current (task_ID x)"
    "sync_outputs env (pl_Capabilities r) = Inr outputs" "sp_capabilities s = map fst outputs"
    "new_sync change approver (syo_Reason q) current r (ap_AggregateHash a) (map fst outputs) = Inr (sp_payload s)"
    "transition_record ''synced'' change (st_Revision current) (syo_Now q) approver (sync_payload_json (sp_payload s)) = Inr (sp_record s)"
    "managedRelative env (abs_path (ce_owner env) p) = Inr relative"
    "sp_request s = \<lparr>rq_Operation = ''sync'', rq_Change = change, rq_Revision = st_Revision current,
       rq_Now = syo_Now q, rq_Outputs = map snd outputs @ [\<lparr>wr_Path = relative, wr_Before = sha256_hex raw,
         wr_Bytes = Some (state_bytes (advanced_state current LifecycleReconciling (rc_ID (sp_record s))))\<rparr>],
       rq_Moves = [], rq_Record = Some (sp_record s), rq_Hook = syo_Hook q\<rparr>"
    by (rule plan_sync_Inr [OF ps], rule that; assumption)
  note f = g(1) [simplified] g(2,5,7,8,9,10)
  have m: "plan (sp_request s) = Inr m" using assms(2) by (simp add: startable_def)
  have written: "\<exists>b. map_of (w_fs w) (wr_Path x) = Some (NFile b) \<and> sha256_hex b = sha256_hex (the (wr_Bytes x)) \<and>
      path_Clean (wr_Path x) = wr_Path x"
    if x: "x \<in> set (rq_Outputs (sp_request s))" for x
  proof -
    obtain y where y: "y \<in> set (mf_Outputs m)" "ou_Path y = wr_Path x" "ou_After y = hash (the (wr_Bytes x))"
      by (rule plan_writes [OF m x])
    then have "done_out (w_fs w) y" using assms(4) by (simp add: all_done_def)
    moreover have "path_Clean (ou_Path y) = ou_Path y"
      using startable_facts(9) [OF assms(2) y(1)] validRelative_segments by blast
    ultimately show ?thesis using y(2,3) by (auto simp: done_out_def hash_def)
  qed
  note all = sync_outputs_all [OF f(3)]
  have docs: "\<forall>c \<in> set (pl_Capabilities r). \<exists>t b. managedRelative env (cap_AcceptedPath c) = Inr t \<and>
      map_of (w_fs w) t = Some (NFile b) \<and> sha256_hex b = sha256_hex (cap_Output c)"
  proof
    fix c assume "c \<in> set (pl_Capabilities r)"
    then obtain x where x: "x \<in> set outputs" "managedRelative env (cap_AcceptedPath c) = Inr (wr_Path (snd x))"
      "wr_Bytes (snd x) = Some (cap_Output c)" using all by blast
    then show "\<exists>t b. managedRelative env (cap_AcceptedPath c) = Inr t \<and> map_of (w_fs w) t = Some (NFile b) \<and>
        sha256_hex b = sha256_hex (cap_Output c)"
      using written [of "snd x"] by (auto simp: f(7))
  qed
  have "\<exists>b. map_of (w_fs w) relative = Some (NFile b) \<and>
      sha256_hex b = sha256_hex (state_bytes (advanced_state current LifecycleReconciling (rc_ID (sp_record s))))"
    using written [of "\<lparr>wr_Path = relative, wr_Before = sha256_hex raw,
      wr_Bytes = Some (state_bytes (advanced_state current LifecycleReconciling (rc_ID (sp_record s))))\<rparr>"]
    by (auto simp: f(7))
  moreover have "SyncPayload_Validate (sp_payload s) = Inr ()"
    using f(4) by (auto simp: new_sync_def NewSyncPayload_def Let_def bindE_eq_Inr)
  then have "latestSyncRecord env (space_in w ev) change = Inr (sp_payload s, rc_ID (sp_record s))"
    using recorded_sync [OF assms(3,5) plan_bound [OF m] f(5)] f(7) by auto
  moreover have "acceptedOutputsCurrent env (w_fs w) (syp_Outputs (sp_payload s)) = Inr ()"
  proof -
    have outs: "set (syp_Outputs (sp_payload s)) = spec_of ` fst ` set outputs"
      using new_sync_outputs [OF f(4)] by (simp add: image_comp)
    show ?thesis unfolding acceptedOutputsCurrent_iff
    proof
      fix y assume "y \<in> set (syp_Outputs (sp_payload s))"
      then obtain x where x: "x \<in> set outputs" "y = spec_of (fst x)" using outs by auto
      then obtain c where c: "c \<in> set (pl_Capabilities r)" "syc_Path (fst x) = wr_Path (snd x)"
        "syc_After (fst x) = cap_OutputHash c" "wr_Bytes (snd x) = Some (cap_Output c)" using all by blast
      obtain b where b: "map_of (w_fs w) (wr_Path (snd x)) = Some (NFile b)" "sha256_hex b = sha256_hex (cap_Output c)"
        "path_Clean (wr_Path (snd x)) = wr_Path (snd x)"
        using written [of "snd x"] x(1) c(4) by (auto simp: f(7))
      then show "\<exists>b. os_ReadFile env (w_fs w) (path_Clean (sph_Path y)) = Inr b \<and> sha256_hex b = sph_After y"
        using x(2) c Build_hash [OF f(1,2) c(1)] by (simp add: spec_of_def os_ReadFile_def lstat_def)
    qed
  qed
  ultimately show ?thesis using docs f(1,6) by (auto simp: synced_def)
qed

subsection \<open>Interrupted syncs\<close>

text \<open>What a sync, and then any number of recoveries, can leave behind when any of their system calls may fail,
  and when an incomplete last line of the history is removed.\<close>

inductive sync_leaves :: "core_env \<Rightarrow> string \<Rightarrow> sync_options \<Rightarrow> ledger_file \<Rightarrow> fs \<Rightarrow> ledger_file \<Rightarrow> fs \<Rightarrow> ledger_file \<Rightarrow> bool"
  for env change q ev base h where
  syncing: "Sync env change q ev (process base h f) = (res, w) \<Longrightarrow> \<forall>n. clean_fail (f n) \<Longrightarrow>
     sync_leaves env change q ev base h (w_fs w) (w_history w)"
| resuming: "sync_leaves env change q ev base h fs h' \<Longrightarrow> recoverLocked (ce_owner env) now (process fs h' f) = (res, w) \<Longrightarrow>
     \<forall>n. clean_fail (f n) \<Longrightarrow> instant (syo_Now q) \<le> instant now \<Longrightarrow>
     sync_leaves env change q ev base h (w_fs w) (w_history w)"
| repairing: "sync_leaves env change q ev base h fs h' \<Longrightarrow>
     sync_leaves env change q ev base h fs (Bytes (complete_lines (bytes_of h')))"

lemma plan_sync_now:
  assumes "plan_sync env w change approver q p raw current = Inr s"
  shows "rq_Now (sp_request s) = syo_Now q"
  by (rule plan_sync_Inr [OF assms]) (simp only: request.simps)

lemma plans_sync_unique:
  assumes "plans_sync env change q w p current s" and "plans_sync env change q w p' current' s'"
  shows "s' = s"
  using assms by (auto simp: plans_sync_def)

lemma sync_leaves_legal:
  assumes "sync_leaves env change q ev base h fs h'"
    and plans: "plans_sync env change q \<lparr>ws_fs = base, ws_history = h, ws_evidence = ev\<rparr> p current s"
    and st: "startable base (sp_request s) m" and rec: "recordable (ce_owner env) h m" and clock: "clock_set (sp_request s)"
  shows "legal (ce_owner env) base m h fs h'"
  using assms(1)
proof (induction rule: sync_leaves.induct)
  case (syncing f res w)
  from syncing(1) show ?case
  proof (cases rule: Sync_cases)
    case unchanged
    have "unrecorded h h" using rec by (simp add: recordable_def unrecorded_def)
    then show ?thesis using unchanged(1) by (simp add: legal_def process_def)
  next
    case (commits p' current' s' committed)
    have "s' = s" using plans_sync_unique [OF plans] commits(1) by (simp add: space_in_def process_def)
    then show ?thesis using commit_legal [OF st rec syncing(2)] commits(2) by simp
  qed
next
  case (resuming fs h' now f res w)
  have "rq_Now (sp_request s) = syo_Now q" using plans plan_sync_now by (auto simp: plans_sync_def)
  then show ?case using recover_legal [OF st rec resuming.IH clock_later [OF st clock]] resuming by simp
next
  case (repairing fs h')
  then show ?case using repair_legal [OF rec] by blast
qed

end
