(* ===== verification/SyncPlanScene.thy ===== *)
theory SyncPlanScene
  imports SyncFacts OperationProps
begin

text \<open>
  The sample change ready to be synced: approved, its task completed with evidence that is in the ledger.
  Hashes are left as they are.
\<close>

declare sha256_hex_def [code del]

subsection \<open>The plan\<close>

definition sync_build :: "string \<Rightarrow> (bool \<times> (string \<times> string \<times> string \<times> bool) list) option" where
  "sync_build raw = map_option (\<lambda>r. (pl_Applicable r,
     map (\<lambda>c. (cap_Capability c, cap_AcceptedPath c, cap_AcceptedHash c, cap_Created c)) (pl_Capabilities r)))
     (Build sample_env (tree_of raw) ''c'')"

lemma sync_build: "sync_build raw = Some (True, [(''x'', ''/p/.specd/specs/x/spec.md'', [], True)])"
  by code_simp

lemma tree_builds:
  obtains r c where "Build sample_env (tree_of raw) ''c'' = Some r" and "pl_Applicable r" and "pl_Capabilities r = [c]"
    and "cap_Capability c = ''x''" and "cap_AcceptedPath c = ''/p/.specd/specs/x/spec.md''"
    and "cap_AcceptedHash c = []" and "cap_OutputHash c = sha256_hex (cap_Output c)"
proof -
  obtain r where r: "Build sample_env (tree_of raw) ''c'' = Some r" "pl_Applicable r"
    "map (\<lambda>c. (cap_Capability c, cap_AcceptedPath c, cap_AcceptedHash c, cap_Created c)) (pl_Capabilities r) =
       [(''x'', ''/p/.specd/specs/x/spec.md'', [], True)]"
    using sync_build [of raw] by (cases "Build sample_env (tree_of raw) ''c''") (simp_all add: sync_build_def)
  then obtain c where c: "pl_Capabilities r = [c]" by (cases "pl_Capabilities r") auto
  then show thesis using that r Build_hash [OF r(1,2), of c] by auto
qed

definition task_graph_ids :: "string \<Rightarrow> string list option" where
  "task_graph_ids raw = (case BuildTaskGraph (ch_Tasks (tree_plan_of raw)) of
     Inl _ \<Rightarrow> None | Inr g \<Rightarrow> Some (AuthoredOrder g))"

lemma tree_graph: "task_graph_ids raw = Some [''t'']"
  by code_simp

lemma tree_archive: "archiveTarget sample_core (tree_of raw) ''c'' ''2026-01-02'' = Inr ''archive/2026-01-02-c''"
  unfolding sample_core_def by code_simp

lemma tree_relative: "managedRelative sample_core ''/p/.specd/specs/x/spec.md'' = Inr ''specs/x/spec.md''"
  "managedRelative sample_core (abs_path (te_owner sample_env) ''changes/c/state.json'') = Inr ''changes/c/state.json''"
  unfolding sample_core_def by code_simp+

lemma sync_projected: "projectionAvailable"
  by code_simp

end
