(* ===== verification/SyncScene.thy ===== *)
theory SyncScene
  imports SyncPlanScene
begin

subsection \<open>The workspace\<close>

lemma replay_single:
  assumes "record_Validate r = Inr ()" and "rc_Family r = family" and "encodable r"
  shows "Replay (Bytes (line_of_record r)) path family = Inr ([r], [])"
proof -
  have "ledger_ok family [r]"
    using ledger_ok_snoc [of family "[]" r] assms(1,2)
    by (simp add: ledger_ok_def last_revision_def find_last_def split: option.split)
  moreover have "line_of (json_bytes (record_json r)) r"
    using decodeStrict_line [OF assms(1,3)] record_line_shape(2) [OF assms(3)] by (simp add: line_of_def)
  ultimately have "replay ([] @ json_bytes (record_json r) @ [newline]) path family = Inr ([] @ [r], [])"
    by (intro replay_append_line record_line_shape(1) [OF assms(3)]) (simp_all add: replay_def)
  then show ?thesis by (simp add: Replay_def line_of_record_def)
qed

definition proof_record :: hist_record where
  "proof_record =
     (let r = \<lparr>rc_SchemaVersion = 1, rc_ID = [], rc_Family = ''evidence'', rc_Kind = ''observed'',
                rc_Change = ''c'', rc_Expected = None, rc_Resulting = None,
                rc_Timestamp = ''2026-01-02T03:04:05Z'', rc_Actor = ''a@b'', rc_Payload = Some (JObj [])\<rparr>
      in r\<lparr>rc_ID := sha256_hex (json_bytes (record_json r))\<rparr>)"

lemma proof_record_valid: "record_Validate proof_record = Inr ()" "rc_Family proof_record = FamilyEvidence"
proof -
  have "Identity proof_record = Inr (rc_ID proof_record)"
    by (simp add: Identity_def proof_record_def Let_def canonicalPayload_def rejectDuplicateKeys_tokens [of "JObj []", simplified])
  moreover have "trim_space (rc_ID proof_record) \<noteq> []" by (simp add: proof_record_def Let_def)
  moreover have "rc_SchemaVersion proof_record = 1" "rc_Family proof_record = ''evidence''"
    "rc_Kind proof_record = ''observed''" "rc_Change proof_record = ''c''"
    "rc_Expected proof_record = None" "rc_Resulting proof_record = None"
    "rc_Timestamp proof_record = ''2026-01-02T03:04:05Z''" "rc_Actor proof_record = ''a@b''"
    "rc_Payload proof_record = Some (JObj [])"
    by (simp_all add: proof_record_def Let_def)
  moreover have "trim_space ''c'' \<noteq> []" "trim_space ''a@b'' \<noteq> []" "trim_space ''2026-01-02T03:04:05Z'' \<noteq> []" by code_simp+
  ultimately show "record_Validate proof_record = Inr ()"
    using sample_time
    by (simp add: record_Validate_def validateFamilyKind_def FamilyHistory_def FamilyEvidence_def validate_typed_payload_def
        canonicalPayload_def rejectDuplicateKeys_tokens [of "JObj []", simplified] transition_kinds_def)
  show "rc_Family proof_record = FamilyEvidence" by (simp add: proof_record_def Let_def FamilyEvidence_def)
qed

lemma proof_record_encodable: "encodable proof_record"
  by (simp add: encodable_def record_json_def proof_record_def Let_def opt_u64_def json_int_def show_int_def
      json_u64_def json_nat_def del: utf8_ok.simps(2))
     (simp add: ascii_utf8_ok byte_def del: utf8_ok.simps(2))

definition proof_binding :: "hist_record \<Rightarrow> completion_binding" where
  "proof_binding r = \<lparr>cb_AttemptID = rc_ID proof_record, cb_EvidenceID = rc_ID proof_record, cb_HistoryID = rc_ID r\<rparr>"

definition proved_state :: "hist_record \<Rightarrow> state" where
  "proved_state r = (approved_state r)\<lparr>st_Tasks := Some [(''t'', JStr TaskCompleted)],
     st_Extensions := [(completionExtensionKey, bindings_json [(''t'', proof_binding r)])]\<rparr>"

lemma proved_fields [simp]:
  "st_Tasks (proved_state r) = Some [(''t'', JStr TaskCompleted)]"
  "st_Extensions (proved_state r) = [(completionExtensionKey, bindings_json [(''t'', proof_binding r)])]"
  "st_Approvals (proved_state r) = Some [approval_json (sample_record_of 1)]"
  "st_Stage (proved_state r) = LifecycleApproved" "st_Revision (proved_state r) = 2"
  "st_LastTransition (proved_state r) = rc_ID r" "task_states (proved_state r) = [(''t'', JStr TaskCompleted)]"
  by (simp_all add: proved_state_def approved_state_def persistApprovalState_def advance_def Initial_def task_states_def
      sample_record_of_def new_approval_def)

lemma one_binding: "bindings_json [(i, b)] = JObj [(i, binding_json b)]"
  by (simp add: bindings_json_def json_of_map_def gomap_keys_def)

lemma sha_digest: "completionDigest (sha256_hex m)"
  by (simp add: completionDigest_def lower_hex_sha256 sha256_hex_length)

lemma binding_reads: "binding_of_json (binding_json b) = Some b"
  unfolding binding_of_json_def binding_json_def
  by (subst decode_object_distinct) (simp_all add: field_getters)

lemma proved_bindings:
  assumes "rc_ID r = sha256_hex m"
  shows "decodeCompletionBindings (map_of (st_Extensions (proved_state r)) completionExtensionKey) =
    Inr [(''t'', proof_binding r)]"
proof -
  obtain k where k: "rc_ID proof_record = sha256_hex k" using hash_id [OF proof_record_valid(1)] by blast
  have "decode_map [] (JObj [(''t'', binding_json (proof_binding r))]) = Some (Some [(''t'', binding_json (proof_binding r))])"
    by (simp add: decode_map_def binding_json_def)
  then show ?thesis
    by (simp add: decodeCompletionBindings_def one_binding binding_reads binding_ok_def proof_binding_def assms k sha_digest)
qed

lemma proved_decodes:
  assumes r: "transition_record ''approved'' ''c'' 1 ''2026-01-02T03:04:05Z'' ''a@b''
      (approval_json (sample_record_of 1)) = Inr r" and "encodable r"
  shows "state_Decode (read_text (state_bytes (proved_state r))) ''c'' = Inr (proved_state r)"
proof -
  note f = transition_record_Inr [OF r]
  obtain m where m: "rc_ID r = sha256_hex m" using hash_id [OF f(1)] by blast
  obtain k where k: "rc_ID proof_record = sha256_hex k" using hash_id [OF proof_record_valid(1)] by blast
  have valid: "state_Validate (proved_state r) ''c'' = Inr ()"
    using approved_state_valid [of r] m by (simp add: proved_state_def state_Validate_iff)
  have "state_writable (proved_state r)"
    by (simp add: state_writable_def state_raws_def gomap_ok_def one_binding binding_json_def)
  moreover have "json_ok (state_json (proved_state r))"
    using sample_approval_text [of 1] m k
    by (simp add: state_json_def proved_state_def approved_state_def persistApprovalState_def advance_def Initial_def json_of_map_def
        SchemaVersion_def show_int_def json_u64_def json_nat_def lifecycle_defs gomap_keys_def one_binding binding_json_def
        proof_binding_def activity_defs completionExtensionKey_def del: utf8_ok.simps(2))
      (simp add: ascii_utf8_ok byte_def del: utf8_ok.simps(2))
  moreover have "norm_state (proved_state r) = proved_state r"
    by (simp add: norm_state_def norm_map_def gomap_keys_def)
  ultimately show ?thesis using state_reads_back [OF valid] by simp
qed

end
