(* ===== verification/SyncWorld.thy ===== *)
theory SyncWorld
  imports SyncScene
begin

definition sample_sync :: sync_options where
  "sample_sync = \<lparr>syo_GitEmail = ''a@b'', syo_EnvironmentApprover = [], syo_ClaimedApprover = ''a@b'',
     syo_Reason = ''ok'', syo_Route = ApprovalRouteHumanTerminal, syo_Interactive = False, syo_Confirmed = False,
     syo_Now = ''2026-01-02T03:04:05Z'', syo_Date = ''2026-01-02'', syo_Hook = None\<rparr>"

lemma sample_sync_valid: "validateApproveIntent (sync_intent sample_sync) = Inr ''a@b''"
  using intent_valid by (simp add: sync_intent_def sample_sync_def sample_intent_def)

definition proved_space :: "hist_record \<Rightarrow> workspace" where
  "proved_space r = space_of (state_bytes (proved_state r)) (Bytes (line_of_record r)) (Bytes (line_of_record proof_record))"

definition approved_record :: "hist_record \<Rightarrow> bool" where
  "approved_record r \<longleftrightarrow> transition_record ''approved'' ''c'' 1 ''2026-01-02T03:04:05Z'' ''a@b''
      (approval_json (sample_record_of 1)) = Inr r \<and> encodable r"

lemma proved_replay:
  assumes "approved_record r"
  shows "Replay (ws_history (proved_space r)) path FamilyHistory = Inr ([r], [])"
    and "Replay (ws_evidence (proved_space r)) path FamilyEvidence = Inr ([proof_record], [])"
proof -
  have r: "record_Validate r = Inr ()" "rc_Family r = FamilyHistory" "encodable r"
    using assms transition_record_Inr by (auto simp: approved_record_def)
  show "Replay (ws_history (proved_space r)) path FamilyHistory = Inr ([r], [])"
    using replay_single [OF r] by (simp add: proved_space_def)
  show "Replay (ws_evidence (proved_space r)) path FamilyEvidence = Inr ([proof_record], [])"
    using replay_single [OF proof_record_valid proof_record_encodable] by (simp add: proved_space_def)
qed

lemma proved_reads:
  assumes "approved_record r"
  shows "readCheckState sample_env (ws_fs (proved_space r)) ''changes/c/state.json'' = Inr (state_bytes (proved_state r))"
    and "load_state sample_env (ws_fs (proved_space r)) ''c'' = Inr (''changes/c/state.json'', proved_state r)"
proof -
  show read: "readCheckState sample_env (ws_fs (proved_space r)) ''changes/c/state.json'' = Inr (state_bytes (proved_state r))"
    by (simp add: readCheckState_def tree_paths proved_space_def)
  then show "load_state sample_env (ws_fs (proved_space r)) ''c'' = Inr (''changes/c/state.json'', proved_state r)"
    using assms proved_decodes [of r] by (simp add: load_state_def tree_paths proved_space_def approved_record_def)
qed

lemma proved_approval:
  assumes "approved_record r"
  shows "projectApprovalStatusForPlanLocked sample_core (proved_space r) ''c'' CoreRegistryVersion DefaultPolicyDigest
      (plan_of sample_env (ws_fs (proved_space r)) ''c'') =
    Inr ((approval_status_of ''c'' (Some (sample_record_of 1)))\<lparr>aps_Current := True\<rparr>)"
proof -
  have r: "transition_record ''approved'' ''c'' 1 ''2026-01-02T03:04:05Z'' ''a@b''
      (approval_json (sample_record_of 1)) = Inr r" using assms by (simp add: approved_record_def)
  note f = transition_record_Inr [OF r]
  have a: "ap_Change (sample_record_of 1) = ''c''" "ap_RevisionBefore (sample_record_of 1) = 1"
    "ap_RevisionAfter (sample_record_of 1) = 2" "ap_Timestamp (sample_record_of 1) = ''2026-01-02T03:04:05Z''"
    "ap_Approver (sample_record_of 1) = ''a@b''" "ap_LifecycleTo (sample_record_of 1) = LifecycleApproved"
    "ap_RegistryVersion (sample_record_of 1) = CoreRegistryVersion" "ap_PolicyDigest (sample_record_of 1) = DefaultPolicyDigest"
    "ap_Artifacts (sample_record_of 1) = covered_artifacts"
    by (simp_all add: sample_record_of_def new_approval_def sample_registry(2) identity_of_def)
  have "decode_approval True r = Inr (sample_record_of 1)"
    by (rule decode_approval_stored [where change = "''c''"]) (use r sample_approval_valid [of 1] in \<open>simp_all add: a\<close>)
  then have latest: "latestApproval [r] ''c'' = Inr (Some (sample_record_of 1, rc_ID r))"
    using f by (simp add: latestApproval_def find_last_def)
  have tail: "approvalActivityTailCurrent [r] ''c'' (rc_ID r) (sample_record_of 1) (proved_state r)"
    by (simp add: approvalActivityTailCurrent_def a)
  have dir: "abs_path (te_owner sample_env) ''changes/c'' = ''/p/.specd/changes/c''" by code_simp
  have "sort artifact_names = [''design.md'', ''proposal.md'', ''specs/x/spec.md'', ''tasks.md'']" by code_simp
  then have paths: "map aa_Path covered_artifacts = sort artifact_names"
    by (simp add: covered_artifacts_def artifact_of_def)
  have "first_difference ps ps = []" for ps by (induction ps) simp_all
  then have differ: "firstPathDifference ps ps = []" for ps by (simp add: firstPathDifference_def)
  have same: "changed_artifact as as = Inr None" for as by (induction as) simp_all
  have "plan_covered (approval_status_of ''c'' (Some (sample_record_of 1))) ''/p/.specd/changes/c''
      (plan_of sample_env (ws_fs (proved_space r)) ''c'') (sample_record_of 1) =
    Inr ((approval_status_of ''c'' (Some (sample_record_of 1)))\<lparr>aps_Current := True\<rparr>)"
    by (simp add: plan_covered_def proved_space_def tree_covered tree_identity a paths differ identity_of_def same)
  then show ?thesis
    using proved_reads(2) [OF assms] proved_replay(1) [OF assms] latest tail a dir
    by (simp add: projectApprovalStatusForPlanLocked_def Let_def proved_space_def tree_paths)
qed

lemma proved_tasks:
  assumes "approved_record r"
  obtains t e where "syncProofFacts sample_core (proved_space r) ''c'' (proved_state r)
      (plan_of sample_env (ws_fs (proved_space r)) ''c'') = Inr (t, e)"
    and "tkf_Total t \<le> tkf_Completed t" and "tkf_Incomplete t = []" and "evf_Stale e = []"
proof -
  obtain m where m: "rc_ID r = sha256_hex m"
    using assms hash_id transition_record_Inr(1) by (metis approved_record_def)
  obtain g where g: "BuildTaskGraph (ch_Tasks (plan_of sample_env (ws_fs (proved_space r)) ''c'')) = Inr g" "AuthoredOrder g = [''t'']"
    using tree_graph [of "state_bytes (proved_state r)"]
    by (auto simp: task_graph_ids_def proved_space_def split: sum.splits)
  have rows: "ProjectTaskActivities [''t''] [(''t'', JStr TaskCompleted)] = Inr [\<lparr>ar_ID = ''t'', ar_Activity = TaskCompleted\<rparr>]"
    by code_simp
  have "evidenceRecordIDs sample_core (proved_space r) = Inr {rc_ID proof_record}"
    by (simp add: evidenceRecordIDs_def evidence_of_def proved_replay(2) [OF assms])
  then have "syncProofFacts sample_core (proved_space r) ''c'' (proved_state r)
      (plan_of sample_env (ws_fs (proved_space r)) ''c'') =
      Inr (proof_facts [\<lparr>ar_ID = ''t'', ar_Activity = TaskCompleted\<rparr>] [(''t'', proof_binding r)] {rc_ID proof_record})"
    using g rows proved_bindings [OF m] by (simp add: syncProofFacts_def del: proved_fields(2))
  then show thesis
    using that by (auto simp: proof_facts_def Let_def bound_known_def proof_binding_def)
qed

end
