(* ===== verification/SyncPlanned.thy ===== *)
theory SyncPlanned
  imports SyncWorld
begin

lemma sample_valid_hash: "validHex (sha256_hex m) [64]"
  by (simp add: validHex_def lower_hex_sha256 sha256_hex_length)

lemma sample_payload:
  shows "\<exists>p. new_sync ''c'' ''a@b'' ''ok'' (proved_state r) rp (ap_AggregateHash (sample_record_of 1))
      [\<lparr>syc_Capability = ''x'', syc_Path = ''specs/x/spec.md'', syc_Before = [], syc_After = sha256_hex b,
        syc_Created = k, syc_NoOp = n\<rparr>] = Inr p \<and> SyncPayload_Validate p = Inr () \<and> syp_Change p = ''c'' \<and>
      syp_Approver p = ''a@b'' \<and> syp_RevisionBefore p = 2 \<and> syp_RevisionAfter p = 3 \<and> json_ok (sync_payload_json p)"
proof -
  have t: "trim_space ''a@b'' \<noteq> []" "trim_space ''ok'' = ''ok''" "validAttemptPath ''specs/x/spec.md''" by code_simp+
  have h: "validHex (ap_AggregateHash (sample_record_of 1)) [64]" "utf8_ok (ap_AggregateHash (sample_record_of 1))"
    by (simp_all add: sample_record_of_def new_approval_def identity_of_def aggregateApprovalHash_def sample_valid_hash)
  show ?thesis
    using t h
    by (simp add: new_sync_def Let_def NewSyncPayload_def SyncPayload_Validate_def validSpecHashes_def spec_of_def
        sample_valid_hash planHash_def evidenceSetHash_def syncTransactionHash_def
        sync_payload_json_def spec_hash_json_def omit_empty_def json_int_def show_int_def json_u64_def json_nat_def
        del: utf8_ok.simps(2))
      (simp add: ascii_utf8_ok byte_def del: utf8_ok.simps(2))
qed

lemma sample_sync_fields [simp]:
  "syo_Now sample_sync = ''2026-01-02T03:04:05Z''" "syo_Date sample_sync = ''2026-01-02''" "syo_Hook sample_sync = None"
  "syo_Reason sample_sync = ''ok''"
  by (simp_all add: sample_sync_def)

lemma sample_review:
  assumes "approved_record r"
  obtains rp c review where "sync_review sample_core (proved_space r) ''c'' sample_sync (proved_state r) =
      Inr (rp, ''archive/2026-01-02-c'', Some (sample_record_of 1), review)"
    and "rvw_Blockers review = []" and "pl_Capabilities rp = [c]" and "cap_Capability c = ''x''"
    and "cap_AcceptedPath c = ''/p/.specd/specs/x/spec.md''" and "cap_AcceptedHash c = []"
    and "cap_OutputHash c = sha256_hex (cap_Output c)"
proof -
  obtain rp c where b: "Build sample_env (tree_of (state_bytes (proved_state r))) ''c'' = Some rp" "pl_Applicable rp"
    "pl_Capabilities rp = [c]" "cap_Capability c = ''x''" "cap_AcceptedPath c = ''/p/.specd/specs/x/spec.md''"
    "cap_AcceptedHash c = []" "cap_OutputHash c = sha256_hex (cap_Output c)"
    by (rule tree_builds)
  obtain t e where te: "syncProofFacts sample_core (proved_space r) ''c'' (proved_state r)
      (plan_of sample_env (ws_fs (proved_space r)) ''c'') = Inr (t, e)"
    "tkf_Total t \<le> tkf_Completed t" "tkf_Incomplete t = []" "evf_Stale e = []"
    by (rule proved_tasks [OF assms])
  let ?x = "\<lparr>ri_Change = plan_of sample_env (ws_fs (proved_space r)) ''c'',
     ri_Approval = \<lparr>apf_Current = True, apf_Reason = []\<rparr>, ri_Tasks = t, ri_Evidence = e,
     ri_ArchiveTarget = ''archive/2026-01-02-c'', ri_ProjectionAvailable = projectionAvailable\<rparr>"
  have "rvw_Ready (ProjectReview rp ?x)" unfolding review_ready_iff using b(2) te sync_projected by simp
  then have "rvw_Blockers (ProjectReview rp ?x) = []" by (simp add: ProjectReview_def)
  moreover have "sync_review sample_core (proved_space r) ''c'' sample_sync (proved_state r) =
      Inr (rp, ''archive/2026-01-02-c'', Some (sample_record_of 1), ProjectReview rp ?x)"
    using b te tree_archive [of "state_bytes (proved_state r)"] proved_approval [OF assms]
    by (simp add: sync_review_def Let_def sample_registry proved_space_def approval_status_of_def)
  ultimately show thesis using that b by blast
qed

lemma sample_synced_record:
  assumes "SyncPayload_Validate p = Inr ()" and "syp_Change p = ''c''" and "syp_Approver p = ''a@b''"
    and "syp_RevisionBefore p = 2" and "syp_RevisionAfter p = 3"
  shows "\<exists>x. transition_record ''synced'' ''c'' 2 ''2026-01-02T03:04:05Z'' ''a@b'' (sync_payload_json p) = Inr x"
proof -
  obtain kvs where kvs: "sync_payload_json p = JObj kvs" by (simp add: sync_payload_json_def)
  have d: "keys_distinct (sync_payload_json p)" by simp
  have dec: "DecodeSyncPayload (Some (json_canon (JObj kvs))) = Inr p"
    using sync_decodes [OF assms(1)] canon_distinct(1) [of "JObj kvs"] kvs by (simp del: json_canon.simps)
  have "trim_space ''c'' \<noteq> []" "trim_space ''a@b'' \<noteq> []" "trim_space ''2026-01-02T03:04:05Z'' \<noteq> []" by code_simp+
  then show ?thesis
    using transition_record_made [of kvs "''synced''" "''c''" "''a@b''" "''2026-01-02T03:04:05Z''" 2] d dec assms sample_time
    by (auto simp: kvs transition_kinds_def validate_typed_payload_def check_payload_def payload_matches_def simp del: json_canon.simps)
qed

lemma sample_planned:
  assumes "approved_record r"
  obtains s where "plan_sync sample_core (proved_space r) ''c'' ''a@b'' sample_sync ''changes/c/state.json''
      (state_bytes (proved_state r)) (proved_state r) = Inr s"
    and "encodable (sp_record s)"
    and "\<exists>b. rq_Outputs (sp_request s) = [\<lparr>wr_Path = ''specs/x/spec.md'', wr_Before = [], wr_Bytes = Some b\<rparr>,
      \<lparr>wr_Path = ''changes/c/state.json'', wr_Before = sha256_hex (state_bytes (proved_state r)),
       wr_Bytes = Some (state_bytes (advanced_state (proved_state r) LifecycleReconciling (rc_ID (sp_record s))))\<rparr>]"
proof -
  obtain rp c review where v: "sync_review sample_core (proved_space r) ''c'' sample_sync (proved_state r) =
      Inr (rp, ''archive/2026-01-02-c'', Some (sample_record_of 1), review)" "rvw_Blockers review = []"
    "pl_Capabilities rp = [c]" "cap_Capability c = ''x''" "cap_AcceptedPath c = ''/p/.specd/specs/x/spec.md''"
    "cap_AcceptedHash c = []" "cap_OutputHash c = sha256_hex (cap_Output c)"
    by (rule sample_review [OF assms])
  let ?cs = "[\<lparr>syc_Capability = ''x'', syc_Path = ''specs/x/spec.md'', syc_Before = [], syc_After = sha256_hex (cap_Output c),
        syc_Created = cap_Created c, syc_NoOp = cap_NoOp c\<rparr>]"
  have outs: "sync_outputs sample_core [c] = Inr [(hd ?cs, \<lparr>wr_Path = ''specs/x/spec.md'', wr_Before = [], wr_Bytes = Some (cap_Output c)\<rparr>)]"
    using v(4-7) tree_relative(1) by simp
  obtain p where p: "new_sync ''c'' ''a@b'' ''ok'' (proved_state r) rp (ap_AggregateHash (sample_record_of 1)) ?cs = Inr p"
    "SyncPayload_Validate p = Inr ()" "syp_Change p = ''c''" "syp_Approver p = ''a@b''" "syp_RevisionBefore p = 2"
    "syp_RevisionAfter p = 3" "json_ok (sync_payload_json p)"
    using sample_payload by blast
  obtain x where x: "transition_record ''synced'' ''c'' 2 ''2026-01-02T03:04:05Z'' ''a@b'' (sync_payload_json p) = Inr x"
    using sample_synced_record p by blast
  have enc: "encodable x" by (rule transition_encodable [OF x p(7)]) code_simp+
  obtain m where "rc_ID x = sha256_hex m" using hash_id transition_record_Inr(1) [OF x] by blast
  then have "state_Validate (advanced_state (proved_state r) LifecycleReconciling (rc_ID x)) ''c'' = Inr ()"
    using approved_state_valid [of x]
    by (simp add: advanced_state_def advance_def state_Validate_iff proved_state_def approved_state_def persistApprovalState_def
        Initial_def validStage_def lifecycle_defs)
  moreover from this have "st_Change (advanced_state (proved_state r) LifecycleReconciling (rc_ID x)) = ''c''"
    by (simp add: state_Validate_iff)
  ultimately have "\<exists>y. state_Encode (advanced_state (proved_state r) LifecycleReconciling (rc_ID x)) = Inr y"
    by (simp add: state_Encode_def) blast
  then show thesis
    using v outs p(1) x enc tree_relative(2)
    by (intro that) (auto simp: plan_sync_def advancedState_def)
qed

end
