(* ===== verification/SyncProps.thy ===== *)
theory SyncProps
  imports SyncPlanned
begin

text \<open>
  What sync guarantees: it commits nothing that is not authorized, approved, proved and reconciled, and what it
  commits is either all there or not there at all.
\<close>

subsection \<open>What justifies a sync\<close>

definition sync_justified :: "core_env \<Rightarrow> string \<Rightarrow> sync_options \<Rightarrow> workspace \<Rightarrow> string \<Rightarrow> state \<Rightarrow> sync_plan \<Rightarrow> bool" where
  "sync_justified env change q w p current s \<longleftrightarrow>
     plans_sync env change q w p current s \<and> st_Stage current = LifecycleApproved \<and>
     syo_Route q = ApprovalRouteHumanTerminal \<and> trim_space (syo_Reason q) \<noteq> [] \<and>
     (\<exists>identity. ResolveApprovalIdentity (syo_GitEmail q) (syo_EnvironmentApprover q) = Inr identity \<and>
        (if syo_Interactive q then syo_Confirmed q else syo_ClaimedApprover q = identity)) \<and>
     (\<exists>a. approval_of env w change a \<and> syp_ApprovalHash (sp_payload s) = ap_AggregateHash a) \<and>
     (\<forall>t \<in> set (tasks_Tasks (ch_Tasks (plan_of (ce_tree env) (ws_fs w) change))). task_proved env w current (task_ID t)) \<and>
     (\<exists>r. Build (ce_tree env) (ws_fs w) change = Some r \<and> pl_Applicable r)"

lemma sync_intent_fields [simp]:
  "aqi_GitEmail (sync_intent q) = syo_GitEmail q" "aqi_EnvironmentApprover (sync_intent q) = syo_EnvironmentApprover q"
  "aqi_ClaimedApprover (sync_intent q) = syo_ClaimedApprover q" "aqi_Reason (sync_intent q) = syo_Reason q"
  "aqi_Interactive (sync_intent q) = syo_Interactive q" "aqi_Confirmed (sync_intent q) = syo_Confirmed q"
  "aqi_Route (sync_intent q) = syo_Route q"
  by (simp_all add: sync_intent_def)

lemma new_sync_approval:
  "new_sync change approver reason current r approvalHash cs = Inr c \<Longrightarrow> syp_ApprovalHash c = approvalHash"
  by (auto simp: new_sync_def NewSyncPayload_def Let_def bindE_eq_Inr)

lemma plans_sync_justified:
  assumes "plans_sync env change q w p current s"
  shows "sync_justified env change q w p current s"
proof -
  obtain approver raw where v: "validateApproveIntent (sync_intent q) = Inr approver" and stage: "st_Stage current = LifecycleApproved"
    and ps: "plan_sync env w change approver q p raw current = Inr s"
    using assms by (auto simp: plans_sync_def)
  note i = validateApproveIntent_Inr [OF v, unfolded sync_intent_fields]
  obtain r a outputs where g: "Build (ce_tree env) (ws_fs w) change = Some r" "pl_Applicable r" "approval_of env w change a"
    "\<And>x. x \<in> set (tasks_Tasks (ch_Tasks (plan_of (ce_tree env) (ws_fs w) change))) \<Longrightarrow> task_proved env w current (task_ID x)"
    "sync_outputs env (pl_Capabilities r) = Inr outputs"
    "new_sync change approver (syo_Reason q) current r (ap_AggregateHash a) (map fst outputs) = Inr (sp_payload s)"
    by (rule plan_sync_Inr [OF ps], rule that; assumption)
  show ?thesis
    unfolding sync_justified_def using assms stage i g(1-4) new_sync_approval [OF g(6)] by blast
qed

subsection \<open>Properties\<close>

text \<open>C3: Whatever a sync is called with and however the system calls behave, it has one of these outcomes. It
  fails and has changed nothing. Or it reports a repeated sync, and has changed nothing. Or it has run the one
  transaction it planned, and has failed or succeeded with it; and then it was authorized (a human terminal, a
  reason, a confirmation or a claim that is the trusted identity), the change was approved and the approval
  current, every task of the plan was completed and bound to evidence in the ledger, the deltas reconcile with
  the accepted documents, and the record names the approval.\<close>
theorem sync_guarded:
  "case Sync env change q ev w of
     (Inl e, w') \<Rightarrow> w' = w \<or> (\<exists>p current s e'. sync_justified env change q (space_in w ev) p current s \<and>
        CommitUnderRootLock (ce_owner env) (sp_request s) w = (Inl e', w'))
   | (Inr r, w') \<Rightarrow> syr_NoOp r \<and> w' = w \<or> (\<exists>p current s c. sync_justified env change q (space_in w ev) p current s \<and>
        CommitUnderRootLock (ce_owner env) (sp_request s) w = (Inr c, w') \<and>
        ResolveApprovalIdentity (syo_GitEmail q) (syo_EnvironmentApprover q) = Inr (syr_Approver r) \<and>
        syr_HistoryID r = rc_ID (sp_record s) \<and> syr_RevisionAfter r = st_Revision current + 1)"
proof -
  obtain res w' where run: "Sync env change q ev w = (res, w')" by fastforce
  then show ?thesis
  proof (cases rule: Sync_cases)
    case unchanged
    then show ?thesis using run by (auto split: sum.split)
  next
    case (commits p current s committed)
    note j = plans_sync_justified [OF commits(1)]
    show ?thesis
    proof (cases res)
      case (Inl e)
      then show ?thesis using run commits(2) commits(4) [OF Inl] j by auto
    next
      case (Inr r)
      from commits(3) [OF this] obtain c approver where c: "validateApproveIntent (sync_intent q) = Inr approver"
        "committed = Inr c" "r = sync_result_of change approver current s c" by blast
      then have "ResolveApprovalIdentity (syo_GitEmail q) (syo_EnvironmentApprover q) = Inr (syr_Approver r)"
        "syr_HistoryID r = rc_ID (sp_record s)" "syr_RevisionAfter r = st_Revision current + 1"
        using validateApproveIntent_Inr(3) [OF c(1), unfolded sync_intent_fields] by (simp_all add: sync_result_of_def)
      then show ?thesis using run Inr commits(2) c(2) j by auto
    qed
  qed
qed

text \<open>C4: A sync is all or nothing, however often it is interrupted. Take a sync that is ready over a sound
  managed tree with nothing pending and a history that can take its record. Whatever the sync, any number of
  recoveries and the removal of an incomplete last line of the history leave behind, when any of the system
  calls fail: once the history has no incomplete line, one more recovery without a fault succeeds, and leaves
  either the tree and the history as they were, or a change that is synced: every accepted document holds the
  reconciled text, the state has moved to reconciling, the latest sync record is the one planned and the
  accepted documents agree with it.\<close>
theorem interrupted_sync:
  assumes "plans_sync env change q \<lparr>ws_fs = base, ws_history = h, ws_evidence = ev\<rparr> p current s"
    and "startable base (sp_request s) m" and "recordable (ce_owner env) h m" and "clock_set (sp_request s)"
    and "sync_leaves env change q ev base h fs h'" and "instant (syo_Now q) \<le> instant now"
    and "Replay h' (History (ce_owner env)) FamilyHistory = Inr (rs, [])"
  shows "\<exists>ps w. recoverLocked (ce_owner env) now (process fs h' (\<lambda>_. Fine)) = (Inr ps, w) \<and>
    (old_tree base m (w_fs w) \<and> unrecorded h (w_history w) \<or> synced env change ev base p current s w)"
proof -
  have "rq_Now (sp_request s) = syo_Now q" using assms(1) plan_sync_now by (auto simp: plans_sync_def)
  then have "clock_ok m now" using clock_later [OF assms(2,4)] assms(6) by simp
  then obtain ps w where "recoverLocked (ce_owner env) now (process fs h' (\<lambda>_. Fine)) = (Inr ps, w)"
    "old_tree base m (w_fs w) \<and> unrecorded h (w_history w) \<or> new_tree base m (w_fs w) \<and> recorded m h (w_history w)"
    using recover_ends [OF assms(2,3) sync_leaves_legal [OF assms(5,1-4)] _ assms(7)] by blast
  moreover have "all_done m (w_fs w)" if "new_tree base m (w_fs w)" using that by (simp add: new_tree_def)
  ultimately show ?thesis using applied_synced [OF assms(1-3)] by blast
qed

subsection \<open>A concrete sync\<close>

lemma sample_paths: "validRelative ''specs/x/spec.md'' = Inr ()" "validRelative ''changes/c/state.json'' = Inr ()"
  "trim_space ''sync'' \<noteq> []" "trim_space ''c'' \<noteq> []" "trim_space ''2026-01-02T03:04:05Z'' \<noteq> []"
  "''changes/c/state.json'' < ''specs/x/spec.md''"
  by code_simp+

lemma tree_names:
  "list_all (\<lambda>p. p = [] \<or> list_all (\<lambda>d. map_of (tree_of raw) d = Some NDir) (parent_dirs p)) (map fst (tree_of raw))"
  "list_all (\<lambda>p. \<not> has_prefix p txn_prefix) (map fst (tree_of raw))"
  "\<not> under ''changes/c/state.json'' ''specs/x/spec.md''" "\<not> under ''specs/x/spec.md'' ''changes/c/state.json''"
  by code_simp+

lemma tree_sound:
  "tree_ok (tree_of raw)" "p \<in> dom (map_of (tree_of raw)) \<Longrightarrow> \<not> has_prefix p txn_prefix"
  "map_of (tree_of raw) [] = Some NDir"
  using tree_names(1,2) [of raw] unfolding tree_ok_def dom_map_of_conv_image_fst list_all_iff
  by (auto simp del: parent_dirs_def) (simp add: tree_of_def)

lemma sample_change_startable:
  assumes rq: "rq = \<lparr>rq_Operation = ''sync'', rq_Change = ''c'', rq_Revision = 2, rq_Now = ''2026-01-02T03:04:05Z'',
      rq_Outputs = [\<lparr>wr_Path = ''specs/x/spec.md'', wr_Before = [], wr_Bytes = Some a\<rparr>,
        \<lparr>wr_Path = ''changes/c/state.json'', wr_Before = sha256_hex b, wr_Bytes = Some c\<rparr>],
      rq_Moves = [], rq_Record = Some x, rq_Hook = None\<rparr>"
    and x: "record_Validate x = Inr ()" "rc_Change x = ''c''" "encodable x" "record_decode False (record_json x) = Some x"
  obtains m where "startable (tree_of raw) rq m" and "mf_Record m = Some (record_json x)"
proof -
  let ?m = "\<lparr>mf_SchemaVersion = 1, mf_ID = [], mf_Operation = ''sync'', mf_Change = ''c'', mf_Revision = 2,
      mf_Timestamp = ''2026-01-02T03:04:05Z'',
      mf_Outputs = [\<lparr>ou_Path = ''changes/c/state.json'', ou_Before = sha256_hex b, ou_After = hash c\<rparr>,
        \<lparr>ou_Path = ''specs/x/spec.md'', ou_Before = [], ou_After = hash a\<rparr>],
      mf_Moves = [], mf_Record = Some (record_json x)\<rparr>"
  let ?i = "?m\<lparr>mf_ID := identity ?m\<rparr>"
  have v: "validHash (sha256_hex y)" "validHash (hash y)" for y
    using lower_hex_sha256 [of y] by (simp_all add: validHash_def hash_def lower_hex_def)
  have "identity ?i = identity ?m" by (simp add: identity_def)
  then have ok: "manifest_validate ?i = Inr ()"
    using x v by (simp add: manifest_validate_def sample_paths record_bound_def)
  have pl: "plan rq = Inr ?i"
    using x ok v sample_paths by (simp add: plan_def rq plan_record_def zero_time_def Let_def)
  have "utf8_ok (identity ?m)" by (simp add: identity_def hash_def)
  then have js: "json_ok (manifest_json ?i)"
    using x(3) by (simp add: manifest_json_def output_json_def json_int_def show_int_def json_u64_def json_nat_def hash_def
      encodable_def del: utf8_ok.simps(2) identity_def, simp add: ascii_utf8_ok byte_def del: utf8_ok.simps(2))
  show thesis
  proof (rule that [of ?i])
    show "startable (tree_of raw) rq ?i"
      using pl js tree_sound tree_names(3,4) by (simp add: startable_def rq unnested_def targets_def)
  qed simp
qed

definition dies_at :: "nat \<Rightarrow> nat \<Rightarrow> fault" where
  "dies_at k n = (if n < k then Fine else Fails 0 (Failed [Str ''killed'']))"

lemma dies_clean: "\<forall>n. clean_fail (dies_at k n)"
  by (simp add: clean_fail_def dies_at_def)

lemma sample_owner: "path_base (History (ce_owner sample_core)) = ''history.jsonl''"
  "ChangeState (ce_owner sample_core) (tree_of raw) ''c'' = Inr ''changes/c/state.json''"
  unfolding sample_core_def by code_simp+

text \<open>What the sample sync, killed at its seventh system call, leaves behind.\<close>

definition killed :: "hist_record \<Rightarrow> world" where
  "killed r = snd (Sync sample_core ''c'' sample_sync (ws_evidence (proved_space r))
     (process (ws_fs (proved_space r)) (ws_history (proved_space r)) (dies_at 7)))"

lemma sample_plans:
  assumes "approved_record r"
  obtains s m where "plans_sync sample_core ''c'' sample_sync (proved_space r) ''changes/c/state.json'' (proved_state r) s"
    and "startable (ws_fs (proved_space r)) (sp_request s) m" and "clock_set (sp_request s)"
    and "rc_ID (sp_record s) = rc_ID r \<or> recordable (ce_owner sample_core) (ws_history (proved_space r)) m"
proof -
  obtain s where s: "plan_sync sample_core (proved_space r) ''c'' ''a@b'' sample_sync ''changes/c/state.json''
      (state_bytes (proved_state r)) (proved_state r) = Inr s" "encodable (sp_record s)"
    and outs: "\<exists>b. rq_Outputs (sp_request s) = [\<lparr>wr_Path = ''specs/x/spec.md'', wr_Before = [], wr_Bytes = Some b\<rparr>,
      \<lparr>wr_Path = ''changes/c/state.json'', wr_Before = sha256_hex (state_bytes (proved_state r)),
       wr_Bytes = Some (state_bytes (advanced_state (proved_state r) LifecycleReconciling (rc_ID (sp_record s))))\<rparr>]"
    by (rule sample_planned [OF assms])
  have rq: "rq_Operation (sp_request s) = ''sync''" "rq_Change (sp_request s) = ''c''" "rq_Revision (sp_request s) = 2"
    "rq_Now (sp_request s) = ''2026-01-02T03:04:05Z''" "rq_Moves (sp_request s) = []"
    "rq_Record (sp_request s) = Some (sp_record s)" "rq_Hook (sp_request s) = None"
    by (rule plan_sync_Inr [OF s(1)], simp)+
  have t: "transition_record ''synced'' ''c'' 2 ''2026-01-02T03:04:05Z'' ''a@b'' (sync_payload_json (sp_payload s)) = Inr (sp_record s)"
    by (rule plan_sync_Inr [OF s(1)]) simp
  note f = transition_record_Inr [OF t]
  have dec: "record_decode False (record_json (sp_record s)) = Some (sp_record s)"
    using record_Validate_facts [OF f(1)] f(9) by (auto simp: sync_payload_json_def intro!: record_decode_json)
  obtain m where m: "startable (ws_fs (proved_space r)) (sp_request s) m" "mf_Record m = Some (record_json (sp_record s))"
  proof -
    obtain a b c where "rq_Outputs (sp_request s) = [\<lparr>wr_Path = ''specs/x/spec.md'', wr_Before = [], wr_Bytes = Some a\<rparr>,
      \<lparr>wr_Path = ''changes/c/state.json'', wr_Before = sha256_hex b, wr_Bytes = Some c\<rparr>]" using outs by blast
    then have "sp_request s = \<lparr>rq_Operation = ''sync'', rq_Change = ''c'', rq_Revision = 2, rq_Now = ''2026-01-02T03:04:05Z'',
      rq_Outputs = [\<lparr>wr_Path = ''specs/x/spec.md'', wr_Before = [], wr_Bytes = Some a\<rparr>,
        \<lparr>wr_Path = ''changes/c/state.json'', wr_Before = sha256_hex b, wr_Bytes = Some c\<rparr>],
      rq_Moves = [], rq_Record = Some (sp_record s), rq_Hook = None\<rparr>"
      using rq by simp
    from sample_change_startable [OF this f(1,4) s(2) dec] show thesis using that by (auto simp: proved_space_def)
  qed
  have r: "rc_Change r = ''c''" "rc_Resulting r = Some 2"
    using assms transition_record_Inr by (fastforce simp: approved_record_def)+
  have "recordable (ce_owner sample_core) (ws_history (proved_space r)) m" if "rc_ID (sp_record s) \<noteq> rc_ID r"
  proof -
    have h: "ws_history (proved_space r) = Bytes (line_of_record r)" by (simp add: proved_space_def)
    have "append_check (History (ce_owner sample_core)) FamilyHistory (ws_history (proved_space r)) (sp_record s) = Inr ()"
      using that r f(4,5) proved_replay(1) [OF assms]
      by (simp add: append_check_def last_revision_def find_last_def)
    then show ?thesis
      using m(2) dec f(1,2) s(2) sample_owner(1)
      by (simp add: recordable_def h readable_def bytes_of_def line_of_record_def)
  qed
  moreover have "plans_sync sample_core ''c'' sample_sync (proved_space r) ''changes/c/state.json'' (proved_state r) s"
    using s(1) sample_sync_valid proved_reads(1) [OF assms] proved_decodes [of r] assms sample_owner(2)
    by (auto simp: plans_sync_def proved_space_def approved_record_def)
  moreover have "clock_set (sp_request s)" using sample_time by (auto simp: clock_set_def rq utc_time_def split: option.splits)
  ultimately show thesis using that m(1) by blast
qed

lemma killed_leaves:
  "sync_leaves sample_core ''c'' sample_sync (ws_evidence (proved_space r)) (ws_fs (proved_space r)) (ws_history (proved_space r))
     (w_fs (killed r)) (w_history (killed r))"
  unfolding killed_def by (rule sync_leaves.syncing [OF surjective_pairing dies_clean])

text \<open>A record of the sync could only be refused as a duplicate, if its identity, a SHA-256 digest, were the one
  of the approval before it.\<close>

theorem interrupted_sync_witness:
  "\<exists>r s m. plans_sync sample_core ''c'' sample_sync (proved_space r) ''changes/c/state.json'' (proved_state r) s \<and>
     (rc_ID (sp_record s) = rc_ID r \<or>
      (\<exists>ps w. recoverLocked (ce_owner sample_core) ''2026-01-02T03:04:05Z''
          (process (w_fs (killed r)) (Bytes (complete_lines (bytes_of (w_history (killed r))))) (\<lambda>_. Fine)) = (Inr ps, w) \<and>
        (old_tree (ws_fs (proved_space r)) m (w_fs w) \<and> unrecorded (ws_history (proved_space r)) (w_history w) \<or>
         synced sample_core ''c'' (ws_evidence (proved_space r)) (ws_fs (proved_space r)) ''changes/c/state.json''
           (proved_state r) s w)))"
proof -
  obtain r where r: "approved_record r"
    using sample_approval_record [of 1] by (metis approved_record_def zero_neq_one)
  obtain s m where s: "plans_sync sample_core ''c'' sample_sync (proved_space r) ''changes/c/state.json'' (proved_state r) s"
    "startable (ws_fs (proved_space r)) (sp_request s) m" "clock_set (sp_request s)"
    "rc_ID (sp_record s) = rc_ID r \<or> recordable (ce_owner sample_core) (ws_history (proved_space r)) m"
    by (rule sample_plans [OF r])
  let ?w = "proved_space r"
  have "\<lparr>ws_fs = ws_fs ?w, ws_history = ws_history ?w, ws_evidence = ws_evidence ?w\<rparr> = ?w" by simp
  then have w: "plans_sync sample_core ''c'' sample_sync \<lparr>ws_fs = ws_fs ?w, ws_history = ws_history ?w, ws_evidence = ws_evidence ?w\<rparr>
      ''changes/c/state.json'' (proved_state r) s" using s(1) by (simp only:)
  show ?thesis
  proof (cases "rc_ID (sp_record s) = rc_ID r")
    case True
    then show ?thesis using s(1) by blast
  next
    case False
    then have rec: "recordable (ce_owner sample_core) (ws_history ?w) m" using s(4) by blast
    have "legal (ce_owner sample_core) (ws_fs ?w) m (ws_history ?w) (w_fs (killed r)) (w_history (killed r))"
      by (rule sync_leaves_legal [OF killed_leaves w s(2) rec s(3)])
    then obtain rs where rs: "Replay (Bytes (complete_lines (bytes_of (w_history (killed r))))) (History (ce_owner sample_core))
        FamilyHistory = Inr (rs, [])"
      by (rule legal_repaired_reads [OF rec, where ps = "[r]"])
        (use proved_replay(1) [OF r] in \<open>simp_all add: proved_space_def Replay_def bytes_of_def\<close>)
    have "instant (syo_Now sample_sync) \<le> instant ''2026-01-02T03:04:05Z''" by simp
    from interrupted_sync [OF w s(2) rec s(3) sync_leaves.repairing [OF killed_leaves] this rs] show ?thesis
      using s(1) by (intro exI [of _ r] exI [of _ s] exI [of _ m]) simp
  qed
qed

end
