(* ===== verification/Archiving.thy ===== *)
theory Archiving
  imports Syncing
begin

text \<open>
  Archive (\<open>internal/core/archive.go\<close>): the checks of a reconciled change, the hash of its folder, and the
  one transaction that records the archive, advances the state and moves the whole folder.
\<close>

record archive_options =
  aro_Actor :: string
  aro_Now :: string
  aro_Date :: string
  aro_Hook :: hook

record archive_result =
  arr_Change :: string
  arr_Source :: string
  arr_Target :: string
  arr_ChangeHash :: string
  arr_Accepted :: "string list"
  arr_EvidenceSet :: string
  arr_Approver :: string
  arr_SyncRecord :: string
  arr_TransactionID :: string
  arr_HistoryID :: string
  arr_RevisionBefore :: u64
  arr_RevisionAfter :: u64

definition archiveFailure :: "string \<Rightarrow> string \<Rightarrow> msg \<Rightarrow> string \<Rightarrow> error" where
  "archiveFailure code path reason next' = refuse code [] path reason [Str next']"

definition remaining_work :: string where
  "remaining_work = ''plan the remaining work as a new change''"

definition restore_artifacts :: string where
  "restore_artifacts = ''restore the planning artifacts from version control''"

subsection \<open>The checks\<close>

definition requireCurrentApprovalHash :: "core_env \<Rightarrow> fs \<Rightarrow> string \<Rightarrow> string \<Rightarrow> error + unit" where
  "requireCurrentApprovalHash env fs dir recorded =
     (let root = abs_path (ce_owner env) dir; bad = (\<lambda>reason next'. Inl (archiveFailure ''archive_approval'' root reason next')) in
      case currentApprovalCoveredPaths env fs dir of
        Inl _ \<Rightarrow> bad [Str ''the approved artifact set is unreadable or unsafe''] restore_artifacts
      | Inr covered \<Rightarrow> (case ComputeApprovalIdentity env fs dir covered of
          Inl e \<Rightarrow> bad (error_Error e) restore_artifacts
        | Inr i \<Rightarrow>
            if ai_AggregateHash i \<noteq> recorded then
              bad [Str ''planning artifacts changed after the authorized sync''] remaining_work
            else Inr ()))"

definition requireBoundEvidencePresent :: "core_env \<Rightarrow> workspace \<Rightarrow> state \<Rightarrow> error + unit" where
  "requireBoundEvidencePresent env w current =
     (case decodeCompletionBindings (map_of (st_Extensions current) completionExtensionKey) of
        Inl _ \<Rightarrow> Inl (archiveFailure ''archive_state'' [] [Str ''completion bindings are malformed'']
          ''restore the change state from version control'')
      | Inr bindings \<Rightarrow>
          bindE (evidenceRecordIDs env w) (\<lambda>known.
          let missing = map fst (filter (\<lambda>(i, b). cb_EvidenceID b \<notin> known) bindings) in
          if missing = [] then Inr ()
          else Inl (archiveFailure ''archive_evidence'' (Evidence (ce_owner env))
            [Str (''evidence is missing for '' @ comma_text (sort missing))]
            ''restore evidence from version control'')))"

definition requireEveryTaskCompleted :: "state \<Rightarrow> error + unit" where
  "requireEveryTaskCompleted current =
     (let incomplete = map fst (filter (\<lambda>(i, v). v \<noteq> JStr ''completed'') (task_states current)) in
      if incomplete = [] then Inr ()
      else Inl (archiveFailure ''archive_incomplete'' []
        [Str (''tasks are not complete: '' @ comma_text (sort incomplete))]
        ''complete the remaining tasks before archiving''))"

text \<open>The walk of the change folder, in the order of \<open>filepath.WalkDir\<close>: directories are passed, the lock
  is left out, and anything else that is not a regular file stops it.\<close>

definition walk_paths :: "fs \<Rightarrow> string \<Rightarrow> string list" where
  "walk_paths fs dir = sort_key (split_on CHR ''/'')
     (map (drop (length dir + 1)) (filter (\<lambda>p. has_prefix p (dir @ ''/'')) (map fst fs)))"

fun folder_rows :: "fs \<Rightarrow> string \<Rightarrow> string list \<Rightarrow> error + string list" where
  "folder_rows fs dir [] = Inr []"
| "folder_rows fs dir (p # ps) = (case map_of fs (path_join dir p) of
     Some (NFile raw) \<Rightarrow>
       if p = ''.lock'' then folder_rows fs dir ps
       else bindE (folder_rows fs dir ps) (\<lambda>rows. Inr ((p @ CHR 0x00 # sha256_hex raw) # rows))
   | Some NLink \<Rightarrow>
       if p = ''.lock'' then folder_rows fs dir ps
       else Inl (Failed [Str (''change folder contains '' @ p @ '' which is not a regular file'')])
   | _ \<Rightarrow> folder_rows fs dir ps)"

definition folder_hash :: "string list \<Rightarrow> string" where
  "folder_hash rows = sha256_hex (join_with CHR 0x0A (sort rows))"

definition hashChangeFolder :: "core_env \<Rightarrow> fs \<Rightarrow> string \<Rightarrow> error + string" where
  "hashChangeFolder env fs dir =
     (case folder_rows fs dir (walk_paths fs dir) of
        Inl e \<Rightarrow> Inl (archiveFailure ''archive_unsafe_source'' (abs_path (ce_owner env) dir) (error_Error e)
          ''restore the change folder from version control'')
      | Inr rows \<Rightarrow> Inr (folder_hash rows))"

definition accepted_of :: "spec_hash \<Rightarrow> spec_hash" where
  "accepted_of x = x\<lparr>sph_Before := []\<rparr>"

definition archive_free :: "core_env \<Rightarrow> fs \<Rightarrow> string \<Rightarrow> error + unit" where
  "archive_free env fs target =
     (let path = abs_path (ce_owner env) target in case lstat fs target of
        Absent \<Rightarrow> Inr ()
      | Found _ \<Rightarrow> Inl (archiveFailure ''archive_target_exists'' path [Str ''the archive target already exists'']
          ''inspect the existing archived change'')
      | Blocked \<Rightarrow> Inl (archiveFailure ''archive_target_unreadable'' path (error_Error (os_error ''lstat'' path))
          ''repair the archive path from version control''))"

text \<open>Everything that must still be as the authorized sync left it.\<close>

definition check_archive :: "core_env \<Rightarrow> workspace \<Rightarrow> string \<Rightarrow> state \<Rightarrow> error + string \<times> sync_payload \<times> string" where
  "check_archive env w change current =
     bindE (latestSyncRecord env w change) (\<lambda>(synced, syncID).
     bindE (owner_Change (ce_owner env) (ws_fs w) change) (\<lambda>dir.
     bindE (requireCurrentApprovalHash env (ws_fs w) dir (syp_ApprovalHash synced)) (\<lambda>_.
     if evidenceSetHash current \<noteq> syp_EvidenceSet synced then
       Inl (archiveFailure ''archive_evidence'' (Evidence (ce_owner env))
         [Str ''the completed evidence set changed after sync''] remaining_work)
     else
       bindE (requireBoundEvidencePresent env w current) (\<lambda>_.
       bindE (requireEveryTaskCompleted current) (\<lambda>_.
       bindE (map_err (\<lambda>e. archiveFailure ''archive_unsynced'' (Specs (ce_owner env)) (error_Error e) remaining_work)
         (acceptedOutputsCurrent env (ws_fs w) (syp_Outputs synced))) (\<lambda>_.
       Inr (dir, synced, syncID)))))))"

subsection \<open>The operation\<close>

definition new_archive :: "string \<Rightarrow> string \<Rightarrow> state \<Rightarrow> sync_payload \<Rightarrow> string \<Rightarrow> string \<Rightarrow> string \<Rightarrow> string
    \<Rightarrow> error + archive_payload" where
  "new_archive change actor current synced syncID source target changeHash =
     NewArchivePayload \<lparr>arp_SchemaVersion = 0, arp_Change = change, arp_Actor = trim_space actor,
       arp_Approver = syp_Approver synced, arp_Source = source, arp_Target = target, arp_ChangeHash = changeHash,
       arp_Accepted = sort_key sph_Capability (map accepted_of (syp_Outputs synced)),
       arp_EvidenceSet = syp_EvidenceSet synced, arp_SyncRecord = syncID,
       arp_Transaction = sha256_hex (join_with CHR 0x0A [source, target, changeHash]),
       arp_RevisionBefore = st_Revision current, arp_RevisionAfter = st_Revision current + 1\<rparr>"

definition plan_archive :: "core_env \<Rightarrow> workspace \<Rightarrow> string \<Rightarrow> archive_options \<Rightarrow> string \<Rightarrow> string \<Rightarrow> state
    \<Rightarrow> error + request \<times> archive_payload \<times> hist_record" where
  "plan_archive env w change q statePath raw current =
     bindE (check_archive env w change current) (\<lambda>(dir, synced, syncID).
     bindE (managedRelative env (abs_path (ce_owner env) dir)) (\<lambda>source.
     bindE (archiveTarget env (ws_fs w) change (aro_Date q)) (\<lambda>target.
     bindE (archive_free env (ws_fs w) target) (\<lambda>_.
     bindE (hashChangeFolder env (ws_fs w) dir) (\<lambda>changeHash.
     bindE (new_archive change (aro_Actor q) current synced syncID source target changeHash) (\<lambda>payload.
     bindE (transition_record ''archived'' change (st_Revision current) (aro_Now q) (arp_Actor payload)
       (archive_payload_json payload)) (\<lambda>history.
     bindE (advancedState current LifecycleArchived (rc_ID history)) (\<lambda>bytes.
     bindE (managedRelative env (abs_path (ce_owner env) statePath)) (\<lambda>relative.
     Inr (\<lparr>rq_Operation = ''archive'', rq_Change = change, rq_Revision = st_Revision current, rq_Now = aro_Now q,
            rq_Outputs = [\<lparr>wr_Path = relative, wr_Before = sha256_hex raw, wr_Bytes = Some bytes\<rparr>],
            rq_Moves = [\<lparr>mv_From = source, mv_To = target\<rparr>], rq_Record = Some history, rq_Hook = aro_Hook q\<rparr>,
          payload, history))))))))))"

definition archive_result_of :: "string \<Rightarrow> state \<Rightarrow> archive_payload \<Rightarrow> hist_record \<Rightarrow> txn_result \<Rightarrow> archive_result" where
  "archive_result_of change current p history committed =
     \<lparr>arr_Change = change, arr_Source = arp_Source p, arr_Target = arp_Target p, arr_ChangeHash = arp_ChangeHash p,
      arr_Accepted = sort (map sph_Capability (arp_Accepted p)), arr_EvidenceSet = arp_EvidenceSet p,
      arr_Approver = arp_Approver p, arr_SyncRecord = arp_SyncRecord p, arr_TransactionID = rs_ID committed,
      arr_HistoryID = rc_ID history, arr_RevisionBefore = st_Revision current,
      arr_RevisionAfter = st_Revision current + 1\<rparr>"

definition archiveLocked :: "core_env \<Rightarrow> string \<Rightarrow> archive_options \<Rightarrow> ledger_file \<Rightarrow> archive_result act" where
  "archiveLocked env change q evidence w =
     (case bindE (ChangeState (ce_owner env) (w_fs w) change) (\<lambda>p.
           bindE (readCheckState (ce_tree env) (w_fs w) p) (\<lambda>raw.
           bindE (state_Decode (read_text raw) change) (\<lambda>s. Inr (p, raw, s)))) of
        Inl e \<Rightarrow> (Inl e, w)
      | Inr (p, raw, current) \<Rightarrow>
          if st_Stage current \<noteq> LifecycleReconciling then
            (Inl (archiveFailure ''archive_lifecycle'' (abs_path (ce_owner env) p)
               [Str ''archive requires a reconciled change, got '', Quo (st_Stage current)]
               (''run specd sync '' @ change @ '' before archiving'')), w)
          else (case plan_archive env (space_in w evidence) change q p raw current of
              Inl e \<Rightarrow> (Inl e, w)
            | Inr (rq, payload, history) \<Rightarrow> (case CommitUnderRootLock (ce_owner env) rq w of
                (Inl e, w') \<Rightarrow> (Inl e, w')
              | (Inr committed, w') \<Rightarrow> (Inr (archive_result_of change current payload history committed), w'))))"

definition ArchiveChange :: "core_env \<Rightarrow> string \<Rightarrow> archive_options \<Rightarrow> ledger_file \<Rightarrow> archive_result act" where
  "ArchiveChange env change q evidence w =
     (if trim_space (aro_Actor q) = [] then
        (Inl (archiveFailure ''archive_unauthorized'' [] [Str ''archive actor is required'']
           ''retry through an authorized harness operation''), w)
      else if aro_Now q = zero_time then
        (Inl (archiveFailure ''archive_clock'' [] [Str ''archive requires an injected clock'']
           ''retry archive from a harness operation''), w)
      else with_locks env change (archiveLocked env change q evidence) w)"

end
