(* ===== verification/ArchiveProps.thy ===== *)
theory ArchiveProps
  imports Archiving SyncFacts
begin

text \<open>
  What archiving guarantees: it moves no change away that is not synced, proved and unchanged since.
\<close>

definition archive_justified :: "core_env \<Rightarrow> string \<Rightarrow> archive_options \<Rightarrow> workspace \<Rightarrow> state \<Rightarrow> request \<Rightarrow> archive_payload
    \<Rightarrow> hist_record \<Rightarrow> bool" where
  "archive_justified env change q w current rq p r \<longleftrightarrow>
     trim_space (aro_Actor q) \<noteq> [] \<and> st_Stage current = LifecycleReconciling \<and>
     (\<exists>y dir i source target. latestSyncRecord env w change = Inr (y, arp_SyncRecord p) \<and>
        owner_Change (ce_owner env) (ws_fs w) change = Inr dir \<and>
        (\<exists>covered. currentApprovalCoveredPaths env (ws_fs w) dir = Inr covered \<and>
           ComputeApprovalIdentity env (ws_fs w) dir covered = Inr i \<and> ai_AggregateHash i = syp_ApprovalHash y) \<and>
        evidenceSetHash current = syp_EvidenceSet y \<and>
        (\<exists>bindings known. decodeCompletionBindings (map_of (st_Extensions current) completionExtensionKey) = Inr bindings \<and>
           evidenceRecordIDs env w = Inr known \<and> (\<forall>b \<in> set bindings. cb_EvidenceID (snd b) \<in> known)) \<and>
        (\<forall>t \<in> set (task_states current). snd t = JStr TaskCompleted) \<and>
        (\<forall>x \<in> set (syp_Outputs y). \<exists>b. os_ReadFile env (ws_fs w) (path_Clean (sph_Path x)) = Inr b \<and> sha256_hex b = sph_After x) \<and>
        hashChangeFolder env (ws_fs w) dir = Inr (arp_ChangeHash p) \<and>
        managedRelative env (abs_path (ce_owner env) dir) = Inr source \<and> lstat (ws_fs w) target = Absent \<and>
        rq_Moves rq = [\<lparr>mv_From = source, mv_To = target\<rparr>] \<and> arp_Source p = source \<and> arp_Target p = target) \<and>
     rq_Record rq = Some r \<and> rc_Kind r = ''archived'' \<and> rc_Payload r = Some (json_canon (archive_payload_json p)) \<and>
     (\<exists>state. rq_Outputs rq = [state] \<and>
        wr_Bytes state = Some (state_bytes (advanced_state current LifecycleArchived (rc_ID r))))"

lemma filter_fst_empty: "map fst (filter (\<lambda>(i, v). P v) xs) = [] \<Longrightarrow> x \<in> set xs \<Longrightarrow> \<not> P (snd x)"
  by (auto simp: filter_empty_conv)

lemma check_archive_Inr:
  assumes "check_archive env w change current = Inr (dir, y, i)"
  shows "latestSyncRecord env w change = Inr (y, i)" and "owner_Change (ce_owner env) (ws_fs w) change = Inr dir"
    and "requireCurrentApprovalHash env (ws_fs w) dir (syp_ApprovalHash y) = Inr ()"
    and "evidenceSetHash current = syp_EvidenceSet y" and "requireBoundEvidencePresent env w current = Inr ()"
    and "requireEveryTaskCompleted current = Inr ()" and "acceptedOutputsCurrent env (ws_fs w) (syp_Outputs y) = Inr ()"
  using assms by (auto simp: check_archive_def bindE_eq_Inr map_err_def split: if_splits sum.splits)

lemma current_approval_Inr:
  assumes "requireCurrentApprovalHash env fs dir approved = Inr ()"
  obtains covered i where "currentApprovalCoveredPaths env fs dir = Inr covered"
    and "ComputeApprovalIdentity env fs dir covered = Inr i" and "ai_AggregateHash i = approved"
  using assms by (auto simp: requireCurrentApprovalHash_def Let_def split: sum.splits if_splits)

lemma bound_evidence_Inr:
  assumes "requireBoundEvidencePresent env w current = Inr ()"
  obtains bindings known where "decodeCompletionBindings (map_of (st_Extensions current) completionExtensionKey) = Inr bindings"
    and "evidenceRecordIDs env w = Inr known" and "\<forall>b \<in> set bindings. cb_EvidenceID (snd b) \<in> known"
proof -
  obtain bindings where b: "decodeCompletionBindings (map_of (st_Extensions current) completionExtensionKey) = Inr bindings"
    using assms by (cases "decodeCompletionBindings (map_of (st_Extensions current) completionExtensionKey)")
      (auto simp: requireBoundEvidencePresent_def)
  obtain known where k: "evidenceRecordIDs env w = Inr known"
    using assms b by (auto simp: requireBoundEvidencePresent_def bindE_eq_Inr)
  have "map fst (filter (\<lambda>(i, c). cb_EvidenceID c \<notin> known) bindings) = []"
    using assms b k by (auto simp: requireBoundEvidencePresent_def Let_def split: if_splits)
  then have "\<forall>b \<in> set bindings. cb_EvidenceID (snd b) \<in> known" by (auto simp: filter_empty_conv)
  then show thesis by (rule that [OF b k])
qed

lemma tasks_completed_Inr:
  "requireEveryTaskCompleted current = Inr () \<Longrightarrow> \<forall>t \<in> set (task_states current). snd t = JStr TaskCompleted"
  using filter_fst_empty [of "\<lambda>v. v \<noteq> JStr ''completed''" "task_states current"]
  by (auto simp: requireEveryTaskCompleted_def Let_def activity_defs split: if_splits)

lemma plan_archive_justified:
  assumes "plan_archive env w change q path raw current = Inr (rq, p, r)"
    and "trim_space (aro_Actor q) \<noteq> []" and "st_Stage current = LifecycleReconciling"
  shows "archive_justified env change q w current rq p r"
proof -
  obtain dir y i where c: "check_archive env w change current = Inr (dir, y, i)"
    using assms(1) by (auto simp: plan_archive_def bindE_eq_Inr)
  note k = check_archive_Inr [OF c]
  obtain source where source: "managedRelative env (abs_path (ce_owner env) dir) = Inr source"
    using assms(1) c by (auto simp: plan_archive_def bindE_eq_Inr)
  obtain target where target: "archiveTarget env (ws_fs w) change (aro_Date q) = Inr target"
    "archive_free env (ws_fs w) target = Inr ()"
    using assms(1) c source by (auto simp: plan_archive_def bindE_eq_Inr)
  obtain h where h: "hashChangeFolder env (ws_fs w) dir = Inr h"
    using assms(1) c source target by (auto simp: plan_archive_def bindE_eq_Inr)
  have p: "new_archive change (aro_Actor q) current y i source target h = Inr p"
    and t: "transition_record ''archived'' change (st_Revision current) (aro_Now q) (arp_Actor p) (archive_payload_json p) = Inr r"
    using assms(1) c source target h by (auto simp: plan_archive_def bindE_eq_Inr)
  have rq: "rq_Moves rq = [\<lparr>mv_From = source, mv_To = target\<rparr>]" "rq_Record rq = Some r"
    "\<exists>x. rq_Outputs rq = [x] \<and> wr_Bytes x = Some (state_bytes (advanced_state current LifecycleArchived (rc_ID r)))"
    using assms(1) c source target h p t by (auto simp: plan_archive_def bindE_eq_Inr advancedState_def)
  have fields: "arp_SyncRecord p = i" "arp_ChangeHash p = h" "arp_Source p = source" "arp_Target p = target"
    using p by (auto simp: new_archive_def NewArchivePayload_def Let_def bindE_eq_Inr)
  have free: "lstat (ws_fs w) target = Absent"
    using target(2) by (auto simp: archive_free_def Let_def split: stat.splits)
  obtain covered j where j: "currentApprovalCoveredPaths env (ws_fs w) dir = Inr covered"
    "ComputeApprovalIdentity env (ws_fs w) dir covered = Inr j" "ai_AggregateHash j = syp_ApprovalHash y"
    by (rule current_approval_Inr [OF k(3)])
  obtain bindings known where b: "decodeCompletionBindings (map_of (st_Extensions current) completionExtensionKey) = Inr bindings"
    "evidenceRecordIDs env w = Inr known" "\<forall>b \<in> set bindings. cb_EvidenceID (snd b) \<in> known"
    by (rule bound_evidence_Inr [OF k(5)])
  note docs = k(7) [unfolded acceptedOutputsCurrent_iff]
  have "\<exists>y dir i source target. latestSyncRecord env w change = Inr (y, arp_SyncRecord p) \<and>
        owner_Change (ce_owner env) (ws_fs w) change = Inr dir \<and>
        (\<exists>covered. currentApprovalCoveredPaths env (ws_fs w) dir = Inr covered \<and>
           ComputeApprovalIdentity env (ws_fs w) dir covered = Inr i \<and> ai_AggregateHash i = syp_ApprovalHash y) \<and>
        evidenceSetHash current = syp_EvidenceSet y \<and>
        (\<exists>bindings known. decodeCompletionBindings (map_of (st_Extensions current) completionExtensionKey) = Inr bindings \<and>
           evidenceRecordIDs env w = Inr known \<and> (\<forall>b \<in> set bindings. cb_EvidenceID (snd b) \<in> known)) \<and>
        (\<forall>t \<in> set (task_states current). snd t = JStr TaskCompleted) \<and>
        (\<forall>x \<in> set (syp_Outputs y). \<exists>b. os_ReadFile env (ws_fs w) (path_Clean (sph_Path x)) = Inr b \<and> sha256_hex b = sph_After x) \<and>
        hashChangeFolder env (ws_fs w) dir = Inr (arp_ChangeHash p) \<and>
        managedRelative env (abs_path (ce_owner env) dir) = Inr source \<and> lstat (ws_fs w) target = Absent \<and>
        rq_Moves rq = [\<lparr>mv_From = source, mv_To = target\<rparr>] \<and> arp_Source p = source \<and> arp_Target p = target"
    using k(1,2,4) j b(1-3) tasks_completed_Inr [OF k(6)] docs h source free rq(1)
    unfolding fields by blast
  then show ?thesis
    unfolding archive_justified_def using assms(2,3) rq(2,3) transition_record_Inr(3,9) [OF t] by blast
qed


end
