(* ===== verification/Spec2Isabelle.thy ===== *)
theory Spec2Isabelle
  imports Readiness StateDoc TransactionProps PlanTree ReconcileProps CheckProps TaskTableProps VerifyProps OperationProps SyncProps ArchiveProps
begin

text \<open>
  A verification development of the specd command line tool.
\<close>

end
